(* ===== verification/Prelude.thy ===== *)
theory Prelude
  imports Complex_Main
begin

text \<open>
  Shared vocabulary of the development: the exceptions the services raise, the
  state-and-exception monad that stands for the bodies of the asynchronous methods
  (a method reads and writes its state, and either returns or raises; what it wrote
  before raising stays written), insertion-ordered dictionaries, and the slices of
  Python lists with their behaviour on zero and negative bounds.
\<close>

section \<open>Rule collections\<close>

named_theorems pm_simps \<open>unfolding rules of the state-and-exception monad\<close>
named_theorems triple_rules \<open>introduction rules for state triples\<close>

section \<open>Exceptions\<close>

text \<open>
  The exceptions that reach a handler of the sources.  \<open>RetryError\<close> carries the
  exception of the last attempt, \<open>StreamClosed\<close> the number of events published
  before the socket closed.  \<open>BackendError\<close> stands for whatever a client library
  raises.
\<close>

datatype exn =
    ValueError string
  | KeyError string
  | TypeError string
  | IndexError string
  | RuntimeError string
  | ValidationError string
  | BackendError string
  | CircuitOpenError string
  | RetryError exn
  | ReplayDisconnectError string
  | StreamClosed string nat
  | StreamStale string
  | OverflowError string
  | OSError string
  | AttributeError string
  | ZeroDivisionError string
  | RecursionError string

text \<open>The class name and the message of an exception, as \<open>type(exc).__name__\<close> and \<open>str(exc)\<close>.\<close>

fun exn_name :: "exn \<Rightarrow> string" where
  "exn_name (ValueError _) = ''ValueError''"
| "exn_name (KeyError _) = ''KeyError''"
| "exn_name (TypeError _) = ''TypeError''"
| "exn_name (IndexError _) = ''IndexError''"
| "exn_name (RuntimeError _) = ''RuntimeError''"
| "exn_name (ValidationError _) = ''ValidationError''"
| "exn_name (BackendError _) = ''BackendError''"
| "exn_name (CircuitOpenError _) = ''CircuitOpenError''"
| "exn_name (RetryError _) = ''RetryError''"
| "exn_name (ReplayDisconnectError _) = ''ReplayDisconnectError''"
| "exn_name (StreamClosed _ _) = ''ExchangeStreamClosed''"
| "exn_name (StreamStale _) = ''ExchangeStreamStale''"
| "exn_name (OverflowError _) = ''OverflowError''"
| "exn_name (OSError _) = ''OSError''"
| "exn_name (AttributeError _) = ''AttributeError''"
| "exn_name (ZeroDivisionError _) = ''ZeroDivisionError''"
| "exn_name (RecursionError _) = ''RecursionError''"

fun exn_str :: "exn \<Rightarrow> string" where
  "exn_str (ValueError s) = s"
| "exn_str (KeyError s) = s"
| "exn_str (TypeError s) = s"
| "exn_str (IndexError s) = s"
| "exn_str (RuntimeError s) = s"
| "exn_str (ValidationError s) = s"
| "exn_str (BackendError s) = s"
| "exn_str (CircuitOpenError s) = s"
| "exn_str (RetryError e) = ''RetryError['' @ exn_name e @ '']''"
| "exn_str (ReplayDisconnectError s) = s"
| "exn_str (StreamClosed src _) = src @ '' websocket closed before ingestion completed''"
| "exn_str (StreamStale s) = s"
| "exn_str (OverflowError s) = s"
| "exn_str (OSError s) = s"
| "exn_str (AttributeError s) = s"
| "exn_str (ZeroDivisionError s) = s"
| "exn_str (RecursionError s) = s"

type_synonym 'a result = "exn + 'a"

section \<open>The state-and-exception monad\<close>

type_synonym ('s, 'a) pm = "'s \<Rightarrow> 'a result \<times> 's"

definition returnM :: "'a \<Rightarrow> ('s, 'a) pm" where
  [pm_simps]: "returnM x = (\<lambda>s. (Inr x, s))"

definition raiseM :: "exn \<Rightarrow> ('s, 'a) pm" where
  [pm_simps]: "raiseM e = (\<lambda>s. (Inl e, s))"

definition bindM :: "('s, 'a) pm \<Rightarrow> ('a \<Rightarrow> ('s, 'b) pm) \<Rightarrow> ('s, 'b) pm" where
  "bindM m f = (\<lambda>s. case m s of (Inl e, s') \<Rightarrow> (Inl e, s') | (Inr x, s') \<Rightarrow> f x s')"

definition thenM :: "('s, 'a) pm \<Rightarrow> ('s, 'b) pm \<Rightarrow> ('s, 'b) pm" where
  "thenM m n = bindM m (\<lambda>_. n)"

text \<open>\<open>catchM m h\<close> is \<open>try: m except Exception as e: h\<close>.\<close>

definition catchM :: "('s, 'a) pm \<Rightarrow> (exn \<Rightarrow> ('s, 'a) pm) \<Rightarrow> ('s, 'a) pm" where
  "catchM m h = (\<lambda>s. case m s of (Inl e, s') \<Rightarrow> h e s' | (Inr x, s') \<Rightarrow> (Inr x, s'))"

definition getM :: "('s \<Rightarrow> 'a) \<Rightarrow> ('s, 'a) pm" where
  [pm_simps]: "getM g = (\<lambda>s. (Inr (g s), s))"

definition modifyM :: "('s \<Rightarrow> 's) \<Rightarrow> ('s, unit) pm" where
  [pm_simps]: "modifyM f = (\<lambda>s. (Inr (), f s))"

text \<open>A computation of a component's state, run inside the state that holds the component.\<close>

definition zoomM :: "('s \<Rightarrow> 't) \<Rightarrow> ('t \<Rightarrow> 's \<Rightarrow> 's) \<Rightarrow> ('t, 'a) pm \<Rightarrow> ('s, 'a) pm" where
  "zoomM get put m = (\<lambda>s. case m (get s) of (r, t) \<Rightarrow> (r, put t s))"

text \<open>\<open>for x in xs: f x\<close>; the first exception ends the loop.\<close>

primrec for_each :: "('a \<Rightarrow> ('s, unit) pm) \<Rightarrow> 'a list \<Rightarrow> ('s, unit) pm" where
  "for_each f [] = returnM ()"
| "for_each f (x # xs) = thenM (f x) (for_each f xs)"

lemma bindM_apply [pm_simps]:
  "bindM m f s = (case fst (m s) of Inl e \<Rightarrow> (Inl e, snd (m s)) | Inr x \<Rightarrow> f x (snd (m s)))"
  by (simp add: bindM_def split: prod.split sum.split)

lemma thenM_apply [pm_simps]:
  "thenM m n s = (case fst (m s) of Inl e \<Rightarrow> (Inl e, snd (m s)) | Inr x \<Rightarrow> n (snd (m s)))"
  by (simp add: thenM_def bindM_apply)

lemma catchM_apply [pm_simps]:
  "catchM m h s = (case fst (m s) of Inl e \<Rightarrow> h e (snd (m s)) | Inr x \<Rightarrow> (Inr x, snd (m s)))"
  by (simp add: catchM_def split: prod.split sum.split)

lemma zoomM_apply [pm_simps]:
  "zoomM get put m s = (fst (m (get s)), put (snd (m (get s))) s)"
  by (simp add: zoomM_def split: prod.split)

lemma bindM_assoc: "bindM (bindM m f) g = bindM m (\<lambda>x. bindM (f x) g)"
  by (rule ext) (simp add: bindM_apply split: sum.split)

lemma bindM_return [simp]: "bindM m returnM = m" "bindM (returnM x) f = f x"
  by (rule ext, simp add: pm_simps prod_eq_iff split: sum.split)+

section \<open>Triples over the monad\<close>

text \<open>
  \<open>triple P m Q E\<close>: from a state satisfying \<open>P\<close>, \<open>m\<close> ends in a state satisfying
  \<open>Q\<close> (with the value returned) or, if it raises, \<open>E\<close> (with the exception).
\<close>

definition triple ::
  "('s \<Rightarrow> bool) \<Rightarrow> ('s, 'a) pm \<Rightarrow> ('a \<Rightarrow> 's \<Rightarrow> bool) \<Rightarrow> (exn \<Rightarrow> 's \<Rightarrow> bool) \<Rightarrow> bool" where
  "triple P m Q E \<longleftrightarrow>
     (\<forall>s. P s \<longrightarrow> (case m s of (Inl e, s') \<Rightarrow> E e s' | (Inr x, s') \<Rightarrow> Q x s'))"

lemma tripleD_ok: "triple P m Q E \<Longrightarrow> P s \<Longrightarrow> m s = (Inr x, s') \<Longrightarrow> Q x s'"
  by (auto simp: triple_def split: prod.splits sum.splits)

lemma tripleD_err: "triple P m Q E \<Longrightarrow> P s \<Longrightarrow> m s = (Inl e, s') \<Longrightarrow> E e s'"
  by (auto simp: triple_def split: prod.splits sum.splits)

lemma tripleI:
  "(\<And>s x s'. P s \<Longrightarrow> m s = (Inr x, s') \<Longrightarrow> Q x s') \<Longrightarrow>
   (\<And>s e s'. P s \<Longrightarrow> m s = (Inl e, s') \<Longrightarrow> E e s') \<Longrightarrow> triple P m Q E"
  by (auto simp: triple_def split: prod.split sum.split)

lemma triple_return [triple_rules]: "(\<And>s. P s \<Longrightarrow> Q x s) \<Longrightarrow> triple P (returnM x) Q E"
  by (simp add: triple_def returnM_def)

lemma triple_raise [triple_rules]: "(\<And>s. P s \<Longrightarrow> E e s) \<Longrightarrow> triple P (raiseM e) Q E"
  by (simp add: triple_def raiseM_def)

lemma triple_modify [triple_rules]: "(\<And>s. P s \<Longrightarrow> Q () (f s)) \<Longrightarrow> triple P (modifyM f) Q E"
  by (simp add: triple_def modifyM_def)

lemma triple_bind:
  "triple P m R E \<Longrightarrow> (\<And>x. triple (R x) (f x) Q E) \<Longrightarrow> triple P (bindM m f) Q E"
  by (fastforce simp: triple_def bindM_def split: prod.splits sum.splits)

lemma triple_then:
  "triple P m (\<lambda>_. R) E \<Longrightarrow> triple R n Q E \<Longrightarrow> triple P (thenM m n) Q E"
  unfolding thenM_def by (rule triple_bind)

lemma triple_catch:
  "triple P m Q R \<Longrightarrow> (\<And>e. triple (R e) (h e) Q E) \<Longrightarrow> triple P (catchM m h) Q E"
  by (fastforce simp: triple_def catchM_def split: prod.splits sum.splits)

lemma triple_weaken:
  "triple P' m Q' E' \<Longrightarrow> (\<And>s. P s \<Longrightarrow> P' s) \<Longrightarrow> (\<And>x s. Q' x s \<Longrightarrow> Q x s) \<Longrightarrow>
     (\<And>e s. E' e s \<Longrightarrow> E e s) \<Longrightarrow> triple P m Q E"
  by (fastforce simp: triple_def split: prod.splits sum.splits)

text \<open>Keeping a predicate, whether the computation returns or raises.\<close>

lemma triple_keep: "triple P m (\<lambda>_. P) (\<lambda>_. P) \<longleftrightarrow> (\<forall>s. P s \<longrightarrow> P (snd (m s)))"
  by (auto simp: triple_def split_beta split: sum.split)

text \<open>A computation of a component, seen from the state that holds the component.\<close>

lemma triple_zoom:
  assumes "\<And>t s. get (put t s) = t"
    and "triple P m Q E"
  shows "triple (\<lambda>s. P (get s)) (zoomM get put m) (\<lambda>x s. Q x (get s)) (\<lambda>e s. E e (get s))"
  using assms(2) by (fastforce simp: triple_def zoomM_def assms(1) split: prod.splits sum.splits)

lemma triple_zoom_frame:
  assumes "\<And>t s. P (put t s) = P s"
  shows "triple P (zoomM get put m) (\<lambda>_. P) (\<lambda>_. P)"
  using assms by (auto simp: triple_def zoomM_def split: prod.splits sum.splits)

lemma triple_modify_frame: "(\<And>s. P (f s) = P s) \<Longrightarrow> triple P (modifyM f) (\<lambda>_. P) E"
  by (rule triple_modify) simp

text \<open>A loop keeps what its body keeps.\<close>

lemma triple_for_each:
  assumes "\<And>x. x \<in> set xs \<Longrightarrow> triple I (f x) (\<lambda>_. I) E"
  shows "triple I (for_each f xs) (\<lambda>_. I) E"
  using assms
proof (induction xs)
  case Nil
  then show ?case by (simp add: triple_return)
next
  case (Cons x xs)
  then show ?case by (auto intro: triple_then)
qed

section \<open>Results without a state\<close>

definition bindR :: "'a result \<Rightarrow> ('a \<Rightarrow> 'b result) \<Rightarrow> 'b result" where
  "bindR r f = (case r of Inl e \<Rightarrow> Inl e | Inr x \<Rightarrow> f x)"

definition liftR :: "'a result \<Rightarrow> ('s, 'a) pm" where
  "liftR r = (\<lambda>s. (r, s))"

lemma liftR_apply [pm_simps]: "liftR r s = (r, s)"
  by (simp add: liftR_def)

lemma triple_liftR [triple_rules]:
  "(\<And>x s. P s \<Longrightarrow> r = Inr x \<Longrightarrow> Q x s) \<Longrightarrow> (\<And>e s. P s \<Longrightarrow> r = Inl e \<Longrightarrow> E e s) \<Longrightarrow> triple P (liftR r) Q E"
  by (auto simp: triple_def liftR_def split: sum.split)

text \<open>\<open>keeps P m\<close>: the operation keeps the condition, whether it returns or raises.\<close>

abbreviation keeps :: "('s \<Rightarrow> bool) \<Rightarrow> ('s, 'a) pm \<Rightarrow> bool" where
  "keeps P m \<equiv> triple P m (\<lambda>_. P) (\<lambda>_. P)"

lemma keeps_bind: "keeps P m \<Longrightarrow> (\<And>x. keeps P (f x)) \<Longrightarrow> keeps P (bindM m f)"
  by (rule triple_bind)

lemma keeps_then: "keeps P m \<Longrightarrow> keeps P n \<Longrightarrow> keeps P (thenM m n)"
  by (rule triple_then)

lemma keeps_catch: "keeps P m \<Longrightarrow> (\<And>e. keeps P (h e)) \<Longrightarrow> keeps P (catchM m h)"
  by (rule triple_catch)

lemma keeps_basic: "keeps P (returnM x)" "keeps P (raiseM e)" "keeps P (liftR r)"
  by (simp_all add: triple_def returnM_def raiseM_def liftR_def split: sum.split)

lemma keeps_modify: "(\<And>s. P (f s) = P s) \<Longrightarrow> keeps P (modifyM f)"
  by (simp add: triple_def modifyM_def)

lemma keeps_zoom: "(\<And>t s. P (put t s) = P s) \<Longrightarrow> keeps P (zoomM get put m)"
  by (rule triple_zoom_frame)

lemma keeps_for_each: "(\<And>x. x \<in> set xs \<Longrightarrow> keeps P (f x)) \<Longrightarrow> keeps P (for_each f xs)"
  by (rule triple_for_each)

lemmas keeps_rules = keeps_bind keeps_then keeps_catch keeps_basic keeps_for_each

text \<open>\<open>try: m finally: c\<close>: an exception of the cleanup replaces the body's outcome.\<close>

definition finallyM :: "('s, 'a) pm \<Rightarrow> ('s, unit) pm \<Rightarrow> ('s, 'a) pm" where
  "finallyM m c = (\<lambda>s. case m s of (r, s1) \<Rightarrow> (case c s1 of (Inl e, s2) \<Rightarrow> (Inl e, s2) | (Inr _, s2) \<Rightarrow> (r, s2)))"

lemma bindR_simps [simp]: "bindR (Inr x) f = f x" "bindR (Inl e) f = Inl e"
  by (simp_all add: bindR_def)

lemma bindR_Inr_iff: "bindR r f = Inr y \<longleftrightarrow> (\<exists>x. r = Inr x \<and> f x = Inr y)"
  by (cases r) simp_all

text \<open>A fallible function along a list: the first exception wins.\<close>

fun mapR :: "('a \<Rightarrow> 'b result) \<Rightarrow> 'a list \<Rightarrow> 'b list result" where
  "mapR f [] = Inr []"
| "mapR f (x # xs) = bindR (f x) (\<lambda>y. bindR (mapR f xs) (\<lambda>ys. Inr (y # ys)))"

lemma mapR_Inr_iff: "mapR f xs = Inr ys \<longleftrightarrow> list_all2 (\<lambda>x y. f x = Inr y) xs ys"
proof (induction xs arbitrary: ys)
  case (Cons x xs)
  then show ?case by (cases ys) (auto simp: bindR_Inr_iff)
qed auto

lemma mapR_total: "(\<And>x. x \<in> set xs \<Longrightarrow> f x = Inr (g x)) \<Longrightarrow> mapR f xs = Inr (map g xs)"
  by (induction xs) auto

lemma mapR_length: "mapR f xs = Inr ys \<Longrightarrow> length ys = length xs"
  by (auto simp: mapR_Inr_iff dest: list_all2_lengthD)

text \<open>Evaluating a key function along a list: the first exception wins.\<close>

fun map_result :: "('a \<Rightarrow> 'b result) \<Rightarrow> 'a list \<Rightarrow> ('a \<times> 'b) list result" where
  "map_result f [] = Inr []"
| "map_result f (x # xs) =
     (case f x of Inl e \<Rightarrow> Inl e
      | Inr y \<Rightarrow> (case map_result f xs of Inl e \<Rightarrow> Inl e | Inr ys \<Rightarrow> Inr ((x, y) # ys)))"

lemma map_result_fst: "map_result f xs = Inr ys \<Longrightarrow> map fst ys = xs"
  by (induction xs arbitrary: ys) (auto split: sum.splits)

lemma map_result_snd: "map_result f xs = Inr ys \<Longrightarrow> p \<in> set ys \<Longrightarrow> f (fst p) = Inr (snd p)"
  by (induction xs arbitrary: ys) (auto split: sum.splits)

lemma map_result_total: "(\<And>x. x \<in> set xs \<Longrightarrow> \<exists>y. f x = Inr y) \<Longrightarrow> \<exists>ys. map_result f xs = Inr ys"
proof (induction xs)
  case (Cons x xs)
  then obtain y ys where "f x = Inr y" "map_result f xs = Inr ys" by force
  then show ?case by simp
qed simp

section \<open>Insertion-ordered dictionaries\<close>

text \<open>
  A Python \<open>dict\<close> as an association list in insertion order: updating a key that is
  present keeps its place, a new key goes to the end.
\<close>

type_synonym ('k, 'v) dict = "('k \<times> 'v) list"

fun dict_set :: "('k, 'v) dict \<Rightarrow> 'k \<Rightarrow> 'v \<Rightarrow> ('k, 'v) dict" where
  "dict_set [] k v = [(k, v)]"
| "dict_set ((k', v') # d) k v = (if k' = k then (k, v) # d else (k', v') # dict_set d k v)"

definition dict_pop :: "('k, 'v) dict \<Rightarrow> 'k \<Rightarrow> ('k, 'v) dict" where
  "dict_pop d k = filter (\<lambda>e. fst e \<noteq> k) d"

definition dict_update :: "('k, 'v) dict \<Rightarrow> ('k, 'v) dict \<Rightarrow> ('k, 'v) dict" where
  "dict_update d d' = fold (\<lambda>(k, v) acc. dict_set acc k v) d' d"

text \<open>\<open>d.setdefault(k, v)\<close> (the dictionary after it).\<close>

definition dict_setdefault :: "('k, 'v) dict \<Rightarrow> 'k \<Rightarrow> 'v \<Rightarrow> ('k, 'v) dict" where
  "dict_setdefault d k v = (if map_of d k = None then dict_set d k v else d)"

definition dict_ok :: "('k, 'v) dict \<Rightarrow> bool" where
  "dict_ok d \<longleftrightarrow> distinct (map fst d)"

lemma map_of_dict_set [simp]: "map_of (dict_set d k v) = (map_of d)(k \<mapsto> v)"
  by (induction d k v rule: dict_set.induct) auto

lemma keys_dict_set [simp]: "fst ` set (dict_set d k v) = insert k (fst ` set d)"
  by (induction d k v rule: dict_set.induct) auto

lemma dict_ok_set [simp]: "dict_ok d \<Longrightarrow> dict_ok (dict_set d k v)"
  unfolding dict_ok_def
proof (induction d k v rule: dict_set.induct)
  case (2 k' v' d k v)
  then show ?case using keys_dict_set [of d k v] by (auto simp: image_iff)
qed simp

lemma map_of_dict_pop [simp]: "map_of (dict_pop d k) = (map_of d)(k := None)"
  unfolding dict_pop_def by (induction d) (auto simp: fun_eq_iff)

lemma dict_ok_pop [simp]: "dict_ok d \<Longrightarrow> dict_ok (dict_pop d k)"
  unfolding dict_pop_def dict_ok_def by (induction d) auto

lemma map_of_dict_setdefault [simp]:
  "map_of (dict_setdefault d k v) = (if map_of d k = None then (map_of d)(k \<mapsto> v) else map_of d)"
  by (simp add: dict_setdefault_def)

lemma dict_set_length:
  "length (dict_set d k v) = (if k \<in> fst ` set d then length d else Suc (length d))"
  by (induction d k v rule: dict_set.induct) auto

lemma dict_set_new: "k \<notin> fst ` set d \<Longrightarrow> dict_set d k v = d @ [(k, v)]"
  by (induction d k v rule: dict_set.induct) auto

section \<open>Python slices\<close>

text \<open>\<open>xs[-n:]\<close> for an integer \<open>n\<close>: \<open>-0\<close> is \<open>0\<close>, so \<open>n = 0\<close> keeps the whole list.\<close>

definition slice_last :: "int \<Rightarrow> 'a list \<Rightarrow> 'a list" where
  "slice_last n xs =
     (if n \<le> 0 then drop (nat (- n)) xs else drop (length xs - nat n) xs)"

text \<open>\<open>xs[:n]\<close>: a negative bound counts from the end.\<close>

definition slice_first :: "int \<Rightarrow> 'a list \<Rightarrow> 'a list" where
  "slice_first n xs =
     (if n < 0 then take (length xs - nat (- n)) xs else take (nat n) xs)"

text \<open>Append to a \<open>deque(maxlen=m)\<close> and extend it.\<close>

definition deque_append :: "nat \<Rightarrow> 'a list \<Rightarrow> 'a \<Rightarrow> 'a list" where
  "deque_append m q x = (let q' = q @ [x] in drop (length q' - m) q')"

definition deque_extend :: "nat \<Rightarrow> 'a list \<Rightarrow> 'a list \<Rightarrow> 'a list" where
  "deque_extend m q xs = fold (\<lambda>x acc. deque_append m acc x) xs q"

lemma length_slice_last: "0 < n \<Longrightarrow> length (slice_last n xs) = min (nat n) (length xs)"
  by (simp add: slice_last_def)

lemma slice_last_zero [simp]: "slice_last 0 xs = xs"
  by (simp add: slice_last_def)

lemma set_slice_last: "set (slice_last n xs) \<subseteq> set xs"
  by (auto simp: slice_last_def dest: in_set_dropD)

lemma set_slice_first: "set (slice_first n xs) \<subseteq> set xs"
  by (auto simp: slice_first_def dest: in_set_takeD)

lemma length_deque_append: "length q \<le> m \<Longrightarrow> length (deque_append m q x) \<le> m"
  by (simp add: deque_append_def Let_def)

text \<open>The newest \<open>m\<close> elements of a list, and how a bounded deque keeps exactly those.\<close>

definition newest :: "nat \<Rightarrow> 'a list \<Rightarrow> 'a list" where
  "newest m xs = drop (length xs - m) xs"

lemma newest_snoc: "deque_append m (newest m xs) x = newest m (xs @ [x])"
  by (cases "m \<le> length xs") (auto simp: deque_append_def newest_def Let_def Suc_diff_le)

lemma newest_append: "deque_extend m (newest m xs) ys = newest m (xs @ ys)"
proof (induction ys arbitrary: xs)
  case Nil
  then show ?case by (simp add: deque_extend_def newest_def)
next
  case (Cons y ys)
  have "deque_extend m (newest m xs) (y # ys) = deque_extend m (deque_append m (newest m xs) y) ys"
    by (simp add: deque_extend_def)
  also have "\<dots> = newest m ((xs @ [y]) @ ys)"
    by (simp only: newest_snoc Cons.IH)
  finally show ?case by simp
qed

lemma newest_Nil [simp]: "newest m [] = []"
  by (simp add: newest_def)

lemma length_newest: "length (newest m xs) = min m (length xs)"
  by (simp add: newest_def)

lemma slice_last_newest: "0 < n \<Longrightarrow> slice_last n xs = newest (nat n) xs"
  by (simp add: slice_last_def newest_def)

section \<open>Clocks\<close>

text \<open>
  An injected \<open>time_fn\<close>: successive readings of a clock.  A reading moves the clock to
  its next value, so an operation that reads the time twice may see two values.
\<close>

record clock =
  ticks :: "nat \<Rightarrow> real"
  reads :: nat

definition read_clock :: "clock \<Rightarrow> real \<times> clock" where
  "read_clock c = (ticks c (reads c), c\<lparr>reads := Suc (reads c)\<rparr>)"

definition monotone_clock :: "clock \<Rightarrow> bool" where
  "monotone_clock c \<longleftrightarrow> mono (ticks c)"

lemma read_clock_simps [simp]:
  "fst (read_clock c) = ticks c (reads c)"
  "ticks (snd (read_clock c)) = ticks c"
  "reads (snd (read_clock c)) = Suc (reads c)"
  by (simp_all add: read_clock_def)

text \<open>A clock that advances by one second per reading.\<close>

definition second_clock :: clock where
  "second_clock = \<lparr>ticks = real, reads = 0\<rparr>"

end
