(* ===== verification/PyVal.thy ===== *)
theory PyVal
  imports Prelude
begin

text \<open>
  The values that cross the services' boundaries as \<open>Any\<close>: JSON values, and the
  datetimes that rows of the time-series store may hold.  A string is a list of
  characters with code points below 256, and the case mappings are those of its ASCII
  part; a float is a real number (rounding, infinities and NaN are not
  modelled); a dictionary is an insertion-ordered association list.
\<close>

section \<open>Datetimes\<close>

text \<open>
  A datetime is its local microsecond count from the minimum datetime and, when it is
  aware, its offset from UTC in microseconds.
\<close>

record datetime =
  dt_local :: int
  dt_offset :: "int option"

definition utc_datetime :: "int \<Rightarrow> datetime" where
  "utc_datetime us = \<lparr>dt_local = us, dt_offset = Some 0\<rparr>"

text \<open>\<open>dt.astimezone(UTC)\<close> on an aware datetime, \<open>dt.replace(tzinfo=UTC)\<close> on a naive one.\<close>

definition as_utc :: "datetime \<Rightarrow> datetime" where
  "as_utc d = (case dt_offset d of
       None \<Rightarrow> \<lparr>dt_local = dt_local d, dt_offset = Some 0\<rparr>
     | Some off \<Rightarrow> \<lparr>dt_local = dt_local d - off, dt_offset = Some 0\<rparr>)"

text \<open>The instant of a datetime, a naive one read as UTC.\<close>

definition instant :: "datetime \<Rightarrow> int" where
  "instant d = dt_local d - (case dt_offset d of None \<Rightarrow> 0 | Some off \<Rightarrow> off)"

lemma instant_as_utc [simp]: "instant (as_utc d) = instant d"
  by (simp add: instant_def as_utc_def split: option.split)

lemma as_utc_idem [simp]: "as_utc (as_utc d) = as_utc d"
  by (simp add: as_utc_def split: option.split)

lemma as_utc_eq_iff: "as_utc a = as_utc b \<longleftrightarrow> instant a = instant b"
  by (auto simp: as_utc_def instant_def split: option.splits)

lemma dt_offset_as_utc [simp]: "dt_offset (as_utc d) = Some 0"
  by (simp add: as_utc_def split: option.split)

section \<open>Values\<close>

datatype pyval =
    PNone
  | PBool bool
  | PInt int
  | PFloat real
  | PStr string
  | PList "pyval list"
  | PDict "(string \<times> pyval) list"
  | PTime datetime

type_synonym pydict = "(string \<times> pyval) list"

text \<open>\<open>bool(v)\<close>.\<close>

fun truthy :: "pyval \<Rightarrow> bool" where
  "truthy PNone = False"
| "truthy (PBool b) = b"
| "truthy (PInt i) = (i \<noteq> 0)"
| "truthy (PFloat x) = (x \<noteq> 0)"
| "truthy (PStr s) = (s \<noteq> [])"
| "truthy (PList xs) = (xs \<noteq> [])"
| "truthy (PDict d) = (d \<noteq> [])"
| "truthy (PTime _) = True"

text \<open>\<open>d.get(k, default)\<close> and \<open>d.get(k)\<close>.\<close>

definition dget_or :: "pydict \<Rightarrow> string \<Rightarrow> pyval \<Rightarrow> pyval" where
  "dget_or d k v = (case map_of d k of None \<Rightarrow> v | Some x \<Rightarrow> x)"

definition dget :: "pydict \<Rightarrow> string \<Rightarrow> pyval" where
  "dget d k = dget_or d k PNone"

text \<open>\<open>a or b\<close> on values.\<close>

definition py_or :: "pyval \<Rightarrow> pyval \<Rightarrow> pyval" where
  "py_or a b = (if truthy a then a else b)"

lemma dget_or_set [simp]:
  "dget_or (dict_set d k v) k' w = (if k' = k then v else dget_or d k' w)"
  by (simp add: dget_or_def)

lemma dget_set [simp]: "dget (dict_set d k v) k' = (if k' = k then v else dget d k')"
  by (simp add: dget_def)

lemma dget_Nil [simp]: "dget [] k = PNone" "dget_or [] k v = v"
  by (simp_all add: dget_def dget_or_def)

lemma dget_Cons [simp]:
  "dget ((k, v) # d) k' = (if k' = k then v else dget d k')"
  "dget_or ((k, v) # d) k' w = (if k' = k then v else dget_or d k' w)"
  by (simp_all add: dget_def dget_or_def)

lemma dget_pop [simp]: "dget (dict_pop d k) k' = (if k' = k then PNone else dget d k')"
  by (simp add: dget_def dget_or_def)

definition opt_str :: "string option \<Rightarrow> pyval" where
  "opt_str v = (case v of None \<Rightarrow> PNone | Some s \<Rightarrow> PStr s)"

definition opt_float :: "real option \<Rightarrow> pyval" where
  "opt_float v = (case v of None \<Rightarrow> PNone | Some x \<Rightarrow> PFloat x)"

definition opt_bool :: "bool option \<Rightarrow> pyval" where
  "opt_bool v = (case v of None \<Rightarrow> PNone | Some x \<Rightarrow> PBool x)"

text \<open>A number's value, for \<open>isinstance(v, (int, float))\<close>; \<open>bool\<close> is a subclass of \<open>int\<close>.\<close>

fun as_number :: "pyval \<Rightarrow> real option" where
  "as_number (PInt i) = Some (of_int i)"
| "as_number (PFloat x) = Some x"
| "as_number (PBool b) = Some (if b then 1 else 0)"
| "as_number _ = None"

section \<open>Characters and strings\<close>

definition chars_between :: "nat \<Rightarrow> nat \<Rightarrow> char \<Rightarrow> bool" where
  "chars_between lo hi c \<longleftrightarrow> lo \<le> (of_char c :: nat) \<and> (of_char c :: nat) \<le> hi"

text \<open>
  \<open>str.isspace\<close> on one character: tab to carriage return, the four separators, the
  space, next line and the no-break space.
\<close>

definition is_space :: "char \<Rightarrow> bool" where
  "is_space c \<longleftrightarrow>
     chars_between 9 13 c \<or> chars_between 28 32 c \<or> chars_between 133 133 c \<or> chars_between 160 160 c"

definition lower_char :: "char \<Rightarrow> char" where
  "lower_char c = (if chars_between 65 90 c then char_of ((of_char c :: nat) + 32) else c)"

definition upper_char :: "char \<Rightarrow> char" where
  "upper_char c = (if chars_between 97 122 c then char_of ((of_char c :: nat) - 32) else c)"

definition str_lower :: "string \<Rightarrow> string" where
  "str_lower s = map lower_char s"

definition str_upper :: "string \<Rightarrow> string" where
  "str_upper s = map upper_char s"

definition str_lstrip :: "string \<Rightarrow> string" where
  "str_lstrip s = dropWhile is_space s"

definition str_rstrip :: "string \<Rightarrow> string" where
  "str_rstrip s = rev (dropWhile is_space (rev s))"

definition str_strip :: "string \<Rightarrow> string" where
  "str_strip s = str_rstrip (str_lstrip s)"

text \<open>\<open>sep.join(parts)\<close>.\<close>

fun str_join :: "string \<Rightarrow> string list \<Rightarrow> string" where
  "str_join sep [] = []"
| "str_join sep [x] = x"
| "str_join sep (x # y # ys) = x @ sep @ str_join sep (y # ys)"

text \<open>\<open>s.split()\<close>: the maximal runs of non-space characters.\<close>

function str_words :: "string \<Rightarrow> string list" where
  "str_words s =
     (let t = dropWhile is_space s in
      if t = [] then []
      else takeWhile (\<lambda>c. \<not> is_space c) t # str_words (dropWhile (\<lambda>c. \<not> is_space c) t))"
  by pat_completeness auto
termination
proof (relation "measure length")
  fix s t :: string
  assume t: "t = dropWhile is_space s" and ne: "t \<noteq> []"
  then have hd: "\<not> is_space (hd t)"
    using hd_dropWhile [of is_space s] by simp
  have "length (dropWhile (\<lambda>c. \<not> is_space c) t) < length t"
    using ne hd by (cases t) (auto simp: le_imp_less_Suc length_dropWhile_le)
  also have "\<dots> \<le> length s"
    using t by (simp add: length_dropWhile_le)
  finally show "(dropWhile (\<lambda>c. \<not> is_space c) t, s) \<in> measure length" by simp
qed simp

declare str_words.simps [simp del]

text \<open>\<open>sub in s\<close> and \<open>s.startswith(p)\<close>.\<close>

fun starts_with :: "string \<Rightarrow> string \<Rightarrow> bool" where
  "starts_with [] s = True"
| "starts_with (p # ps) [] = False"
| "starts_with (p # ps) (c # cs) = (p = c \<and> starts_with ps cs)"

fun str_contains :: "string \<Rightarrow> string \<Rightarrow> bool" where
  "str_contains sub [] = (sub = [])"
| "str_contains sub (c # cs) = (starts_with sub (c # cs) \<or> str_contains sub cs)"

definition ends_with :: "string \<Rightarrow> string \<Rightarrow> bool" where
  "ends_with suf s = starts_with (rev suf) (rev s)"

text \<open>\<open>s.replace(c, by)\<close> for a one-character \<open>c\<close>.\<close>

definition replace_char :: "char \<Rightarrow> string \<Rightarrow> string \<Rightarrow> string" where
  "replace_char c by s = concat (map (\<lambda>x. if x = c then by else [x]) s)"

text \<open>UTF-8 of a string of code points below 256.\<close>

definition utf8 :: "string \<Rightarrow> nat list" where
  "utf8 s = concat (map (\<lambda>c. let n = of_char c :: nat in
      if n < 128 then [n] else [192 + n div 64, 128 + n mod 64]) s)"

text \<open>Decimal digits of a natural number, and \<open>str(i)\<close> of an integer.\<close>

definition digit_char :: "nat \<Rightarrow> char" where
  "digit_char d = char_of (48 + d)"

fun nat_digits :: "nat \<Rightarrow> string" where
  "nat_digits n = (if n < 10 then [digit_char n] else nat_digits (n div 10) @ [digit_char (n mod 10)])"

declare nat_digits.simps [simp del]

text \<open>Reading the digits back.\<close>

definition digits_number :: "string \<Rightarrow> nat" where
  "digits_number s = foldl (\<lambda>n c. n * 10 + (of_char c - 48)) 0 s"

lemma digits_number_nat: "digits_number (nat_digits n) = n"
proof (induction n rule: nat_digits.induct)
  case (1 n)
  have digit: "d < 10 \<Longrightarrow> (of_char (digit_char d) :: nat) - 48 = d" for d
    by (simp add: digit_char_def of_char_of)
  show ?case
  proof (cases "n < 10")
    case True
    then show ?thesis using digit [of n] by (subst nat_digits.simps) (simp add: digits_number_def)
  next
    case False
    then show ?thesis using 1 digit [of "n mod 10"] by (subst nat_digits.simps) (simp add: digits_number_def)
  qed
qed

lemma nat_digits_inj: "nat_digits m = nat_digits n \<Longrightarrow> m = n"
  by (metis digits_number_nat)

definition int_str :: "int \<Rightarrow> string" where
  "int_str i = (if i < 0 then ''-'' @ nat_digits (nat (- i)) else nat_digits (nat i))"

text \<open>
  \<open>f"{x:.{n}f}"\<close>: the value rounded half-to-even at \<open>n\<close> decimals.
\<close>

definition round_half_even :: "real \<Rightarrow> int" where
  "round_half_even x =
     (let f = \<lfloor>x\<rfloor>; r = x - of_int f in
      if r < 1/2 then f else if r > 1/2 then f + 1 else if even f then f else f + 1)"

definition pad_left :: "nat \<Rightarrow> string \<Rightarrow> string" where
  "pad_left n s = replicate (n - length s) (CHR ''0'') @ s"

lemma digits_number_pad: "digits_number (pad_left k s) = digits_number s"
proof -
  have "foldl (\<lambda>n c. n * 10 + (of_char c - 48)) 0 (replicate j (CHR ''0'')) = (0 :: nat)" for j
    by (induction j) simp_all
  then show ?thesis by (simp add: digits_number_def pad_left_def)
qed

lemma pad_left_digits_inj: "pad_left k (nat_digits m) = pad_left k (nat_digits n) \<Longrightarrow> m = n"
  by (metis digits_number_nat digits_number_pad)

definition fmt_fixed :: "nat \<Rightarrow> real \<Rightarrow> string" where
  "fmt_fixed n x =
     (let m = nat \<bar>round_half_even (x * 10 ^ n)\<bar>;
          sgn = (if x < 0 then ''-'' else []);
          ip = nat_digits (m div 10 ^ n);
          fp = (if n = 0 then [] else ''.'' @ pad_left n (nat_digits (m mod 10 ^ n)))
      in sgn @ ip @ fp)"

text \<open>\<open>round(x, n)\<close>.\<close>

definition py_round :: "nat \<Rightarrow> real \<Rightarrow> real" where
  "py_round n x = of_int (round_half_even (x * 10 ^ n)) / 10 ^ n"

lemma starts_with_iff: "starts_with p s \<longleftrightarrow> (\<exists>t. s = p @ t)"
  by (induction p s rule: starts_with.induct) auto

lemma starts_with_append [simp]: "starts_with p (p @ t)"
  by (auto simp: starts_with_iff)

lemma str_contains_iff: "str_contains sub s \<longleftrightarrow> (\<exists>a b. s = a @ sub @ b)"
proof (induction s)
  case (Cons c cs)
  show ?case
  proof
    assume "str_contains sub (c # cs)"
    then consider t where "c # cs = sub @ t" | a b where "cs = a @ sub @ b"
      using Cons.IH by (auto simp: starts_with_iff)
    then show "\<exists>a b. c # cs = a @ sub @ b"
      by cases (metis append_Nil, metis append_Cons)
  next
    assume "\<exists>a b. c # cs = a @ sub @ b"
    then obtain a b where ab: "c # cs = a @ sub @ b" by blast
    show "str_contains sub (c # cs)"
    proof (cases a)
      case Nil
      with ab have "starts_with sub (c # cs)" by (auto simp: starts_with_iff)
      then show ?thesis by simp
    next
      case (Cons x a')
      with ab Cons.IH show ?thesis by auto
    qed
  qed
qed auto

lemma round_half_even_le: "of_int (round_half_even x) \<le> x + 1 / 2"
  and round_half_even_ge: "x - 1 / 2 \<le> of_int (round_half_even x)"
  unfolding round_half_even_def Let_def by (auto; linarith)+

lemma round_half_even_of_int [simp]: "round_half_even (of_int i) = i"
  by (simp add: round_half_even_def)

lemma round_half_even_mono: "x \<le> y \<Longrightarrow> round_half_even x \<le> round_half_even y"
proof (cases "\<lfloor>x\<rfloor> = \<lfloor>y\<rfloor>")
  case False
  assume "x \<le> y"
  with False have "\<lfloor>x\<rfloor> + 1 \<le> \<lfloor>y\<rfloor>" using floor_mono [of x y] by linarith
  moreover have "round_half_even x \<le> \<lfloor>x\<rfloor> + 1" "\<lfloor>y\<rfloor> \<le> round_half_even y"
    by (auto simp: round_half_even_def Let_def)
  ultimately show ?thesis by linarith
qed (auto simp: round_half_even_def Let_def)

text \<open>Rounding to decimals keeps integer bounds.\<close>

lemma py_round_bounds:
  assumes "of_int lo \<le> x" "x \<le> of_int hi"
  shows "of_int lo \<le> py_round n x \<and> py_round n x \<le> of_int hi"
proof -
  have lo: "round_half_even (of_int (lo * 10 ^ n)) \<le> round_half_even (x * 10 ^ n)"
    using assms by (intro round_half_even_mono) simp
  have hi: "round_half_even (x * 10 ^ n) \<le> round_half_even (of_int (hi * 10 ^ n))"
    using assms by (intro round_half_even_mono) simp
  have "real_of_int (lo * 10 ^ n) \<le> of_int (round_half_even (x * 10 ^ n))"
    "real_of_int (round_half_even (x * 10 ^ n)) \<le> of_int (hi * 10 ^ n)"
    using lo hi by (simp_all only: round_half_even_of_int of_int_le_iff)
  then show ?thesis
    by (simp add: py_round_def pos_le_divide_eq pos_divide_le_eq)
qed

end
