(* ===== verification/HttpMetrics.thy ===== *)
theory HttpMetrics
  imports PyVal "HOL-Library.List_Lexorder" "HOL-Library.Char_ord"
begin

text \<open>
  The request observability of \<open>libs/common/logging.py\<close>: counters and their rendering, the
  identifiers taken from request headers, the context that every log line carries, and the
  HTTP middleware that ties them together.  The log sink is the theory LogSink's.
\<close>

section \<open>Counters\<close>

definition CORRELATION_ID_HEADER :: string where "CORRELATION_ID_HEADER = ''X-Correlation-ID''"
definition TRACE_ID_HEADER :: string where "TRACE_ID_HEADER = ''X-Trace-ID''"
definition TRACEPARENT_HEADER :: string where "TRACEPARENT_HEADER = ''traceparent''"
definition UNMATCHED_ROUTE :: string where "UNMATCHED_ROUTE = ''<unmatched>''"
definition OTHER_METHOD :: string where "OTHER_METHOD = ''<other>''"

definition KNOWN_HTTP_METHODS :: "string list" where
  "KNOWN_HTTP_METHODS =
     [''GET'', ''HEAD'', ''POST'', ''PUT'', ''PATCH'', ''DELETE'', ''OPTIONS'', ''TRACE'', ''CONNECT'']"

definition render_counters :: "string \<Rightarrow> (string \<times> string) list \<Rightarrow> string list" where
  "render_counters prefix counters = concat (map (\<lambda>(name, v).
     [''# TYPE '' @ prefix @ ''_'' @ name @ '' counter'', prefix @ ''_'' @ name @ '' '' @ v]) counters)"

record http_metrics =
  requests_total :: int
  request_errors_total :: int
  request_duration_ms_total :: real
  trace_context_provided_total :: int
  correlation_context_provided_total :: int
  requests_by_method :: "(string, int) dict"
  requests_by_path :: "(string, int) dict"
  requests_by_status :: "(string, int) dict"

definition http_metrics_init :: http_metrics where
  "http_metrics_init =
     \<lparr>requests_total = 0, request_errors_total = 0, request_duration_ms_total = 0,
      trace_context_provided_total = 0, correlation_context_provided_total = 0,
      requests_by_method = [], requests_by_path = [], requests_by_status = []\<rparr>"

text \<open>\<open>d[k] = d.get(k, 0) + 1\<close>.\<close>

definition bump :: "(string, int) dict \<Rightarrow> string \<Rightarrow> (string, int) dict" where
  "bump d k = dict_set d k ((case map_of d k of None \<Rightarrow> 0 | Some n \<Rightarrow> n) + 1)"

definition method_key :: "string \<Rightarrow> string" where
  "method_key m = (if m \<in> set KNOWN_HTTP_METHODS then m else OTHER_METHOD)"

definition record_http_request ::
  "string \<Rightarrow> string \<Rightarrow> int \<Rightarrow> real \<Rightarrow> bool \<Rightarrow> bool \<Rightarrow> http_metrics \<Rightarrow> http_metrics" where
  "record_http_request method path status_code duration_ms trace_provided correlation_provided m =
     m\<lparr>requests_total := requests_total m + 1,
       request_duration_ms_total := request_duration_ms_total m + duration_ms,
       request_errors_total := request_errors_total m + (if status_code \<ge> 500 then 1 else 0),
       trace_context_provided_total := trace_context_provided_total m + (if trace_provided then 1 else 0),
       correlation_context_provided_total :=
         correlation_context_provided_total m + (if correlation_provided then 1 else 0),
       requests_by_method := bump (requests_by_method m) (method_key method),
       requests_by_path := bump (requests_by_path m) path,
       requests_by_status := bump (requests_by_status m) (int_str status_code)\<rparr>"

definition label_lines :: "string \<Rightarrow> string \<Rightarrow> (string, int) dict \<Rightarrow> string list" where
  "label_lines metric label d = map (\<lambda>(k, n).
     metric @ ''{'' @ label @ ''='' @ [CHR 0x22] @ k @ [CHR 0x22] @ ''} '' @ int_str n) (sort_key fst d)"

definition render_http :: "string \<Rightarrow> http_metrics \<Rightarrow> string list" where
  "render_http prefix m =
     [''# TYPE '' @ prefix @ ''_http_requests_total counter'',
      prefix @ ''_http_requests_total '' @ int_str (requests_total m),
      ''# TYPE '' @ prefix @ ''_http_request_errors_total counter'',
      prefix @ ''_http_request_errors_total '' @ int_str (request_errors_total m),
      ''# TYPE '' @ prefix @ ''_http_request_duration_ms_total counter'',
      prefix @ ''_http_request_duration_ms_total '' @ fmt_fixed 3 (request_duration_ms_total m),
      ''# TYPE '' @ prefix @ ''_http_trace_context_provided_total counter'',
      prefix @ ''_http_trace_context_provided_total '' @ int_str (trace_context_provided_total m),
      ''# TYPE '' @ prefix @ ''_http_correlation_context_provided_total counter'',
      prefix @ ''_http_correlation_context_provided_total ''
        @ int_str (correlation_context_provided_total m),
      ''# TYPE '' @ prefix @ ''_http_requests_by_method_total counter'']
     @ label_lines (prefix @ ''_http_requests_by_method_total'') ''method'' (requests_by_method m)
     @ [''# TYPE '' @ prefix @ ''_http_requests_by_path_total counter'']
     @ label_lines (prefix @ ''_http_requests_by_path_total'') ''path'' (requests_by_path m)
     @ [''# TYPE '' @ prefix @ ''_http_requests_by_status_total counter'']
     @ label_lines (prefix @ ''_http_requests_by_status_total'') ''status'' (requests_by_status m)"

text \<open>\<open>ServiceMetrics\<close> and \<open>WorkerMetrics\<close>: the counters every service's metrics extend.\<close>

record worker_metrics =
  http :: http_metrics
  last_error :: "string option"

definition service_record_http_request ::
  "string \<Rightarrow> string \<Rightarrow> int \<Rightarrow> real \<Rightarrow> bool \<Rightarrow> bool \<Rightarrow> 'a worker_metrics_scheme \<Rightarrow> 'a worker_metrics_scheme" where
  "service_record_http_request method path status dur tr corr m =
     m\<lparr>http := record_http_request method path status dur tr corr (http m)\<rparr>"

section \<open>Identifiers of a request\<close>

text \<open>\<open>s.split(c)\<close> for a one-character separator.\<close>

fun str_split :: "char \<Rightarrow> string \<Rightarrow> string list" where
  "str_split c [] = [[]]"
| "str_split c (x # xs) =
     (if x = c then [] # str_split c xs
      else (case str_split c xs of [] \<Rightarrow> [[x]] | w # ws \<Rightarrow> (x # w) # ws))"

text \<open>
  A request: its method, its header lookup, its URL path and, after routing, the matched
  route's template.
\<close>

record request =
  rq_method :: string
  rq_header :: "string \<Rightarrow> string option"
  rq_path :: string
  rq_route :: "string option"

definition given :: "string option \<Rightarrow> bool" where
  "given v \<longleftrightarrow> (case v of None \<Rightarrow> False | Some s \<Rightarrow> s \<noteq> [])"

definition extract_trace_id :: "string \<Rightarrow> request \<Rightarrow> string \<times> bool" where
  "extract_trace_id fresh rq =
     (if given (rq_header rq TRACE_ID_HEADER) then (the (rq_header rq TRACE_ID_HEADER), True)
      else if given (rq_header rq TRACEPARENT_HEADER)
      then (let parts = str_split (CHR ''-'') (the (rq_header rq TRACEPARENT_HEADER)) in
            if length parts \<ge> 4 \<and> length (parts ! 1) = 32 then (parts ! 1, True) else (fresh, False))
      else (fresh, False))"

definition extract_correlation_id :: "string \<Rightarrow> request \<Rightarrow> string \<times> bool" where
  "extract_correlation_id fresh rq =
     (if given (rq_header rq CORRELATION_ID_HEADER) then (the (rq_header rq CORRELATION_ID_HEADER), True)
      else if given (rq_header rq ''X-Request-ID'') then (the (rq_header rq ''X-Request-ID''), True)
      else (fresh, False))"

definition safe_route_path :: "request \<Rightarrow> string" where
  "safe_route_path rq = (case rq_route rq of None \<Rightarrow> UNMATCHED_ROUTE | Some p \<Rightarrow> p)"

section \<open>Logging context\<close>

record log_context =
  cx_correlation_id :: "string option"
  cx_trace_id :: "string option"
  cx_extra :: "pydict option"

definition reset_context :: "log_context \<Rightarrow> log_context" where
  "reset_context c = c\<lparr>cx_correlation_id := None, cx_trace_id := None, cx_extra := None\<rparr>"

definition bind_correlation_id :: "string \<Rightarrow> log_context \<Rightarrow> log_context" where
  "bind_correlation_id v c = c\<lparr>cx_correlation_id := Some v\<rparr>"

definition bind_trace_id :: "string \<Rightarrow> log_context \<Rightarrow> log_context" where
  "bind_trace_id v c = c\<lparr>cx_trace_id := Some v\<rparr>"

definition bind_context :: "pydict \<Rightarrow> log_context \<Rightarrow> log_context" where
  "bind_context kw c =
     c\<lparr>cx_extra := Some (dict_update (case cx_extra c of None \<Rightarrow> [] | Some d \<Rightarrow> d) kw)\<rparr>"

definition setdefault_opt :: "string \<Rightarrow> string option \<Rightarrow> pydict \<Rightarrow> pydict" where
  "setdefault_opt k v d = (case v of None \<Rightarrow> d | Some s \<Rightarrow> dict_setdefault d k (PStr s))"

definition inject_context :: "string \<Rightarrow> log_context \<Rightarrow> pydict \<Rightarrow> pydict" where
  "inject_context service_name c event =
     (let d1 = setdefault_opt ''correlation_id'' (cx_correlation_id c) event;
          d2 = setdefault_opt ''trace_id'' (cx_trace_id c) d1;
          d3 = fold (\<lambda>(k, v) d. dict_setdefault d k v) (case cx_extra c of None \<Rightarrow> [] | Some x \<Rightarrow> x) d2
      in dict_setdefault d3 ''service'' (PStr service_name))"

section \<open>The middleware\<close>

record response =
  rs_status :: int
  rs_headers :: pydict
  rs_body :: pyval

text \<open>
  What the middleware works on: the service's counters, the context variables, the clock and
  the supply of fresh identifiers.  \<open>call_next\<close> is the rest of the application; it sees the
  context and may change it, and routing sets the request's route.
\<close>

record obs_state =
  ob_metrics :: http_metrics
  ob_context :: log_context
  ob_clock :: clock
  ob_uuids :: "nat \<Rightarrow> string"
  ob_next :: nat

definition bind_request :: "string \<Rightarrow> request \<Rightarrow> string \<Rightarrow> string \<Rightarrow> log_context \<Rightarrow> log_context" where
  "bind_request service_name rq cid tid c =
     bind_context [(''service'', PStr service_name), (''http_method'', PStr (rq_method rq)),
                   (''http_path'', PStr (rq_path rq))]
       (bind_trace_id tid (bind_correlation_id cid (reset_context c)))"

definition with_id_headers :: "string \<Rightarrow> string \<Rightarrow> pydict \<Rightarrow> pydict" where
  "with_id_headers cid tid h =
     dict_set (dict_set h CORRELATION_ID_HEADER (PStr cid)) TRACE_ID_HEADER (PStr tid)"

text \<open>\<open>getattr(metrics, "record_http_request", None)\<close>: metrics without it record nothing.\<close>

definition record_request_metrics ::
  "(string \<Rightarrow> string \<Rightarrow> int \<Rightarrow> real \<Rightarrow> bool \<Rightarrow> bool \<Rightarrow> 'm \<Rightarrow> 'm) option \<Rightarrow>
   string \<Rightarrow> string \<Rightarrow> int \<Rightarrow> real \<Rightarrow> bool \<Rightarrow> bool \<Rightarrow> 'm \<Rightarrow> 'm" where
  "record_request_metrics recorder meth path status duration_ms trace_given correlation_given m =
     (case recorder of None \<Rightarrow> m | Some f \<Rightarrow> f meth path status duration_ms trace_given correlation_given m)"

lemma recorded_by [simp]: "record_request_metrics (Some f) = f"
  by (simp add: fun_eq_iff record_request_metrics_def)

definition observability_middleware ::
  "string \<Rightarrow> (request \<Rightarrow> log_context \<Rightarrow> response result \<times> request \<times> log_context) \<Rightarrow>
   request \<Rightarrow> obs_state \<Rightarrow> response \<times> obs_state" where
  "observability_middleware service_name call_next rq st =
     (let (cid, cgiven) = extract_correlation_id (ob_uuids st (ob_next st)) rq;
          (tid, tgiven) = extract_trace_id (ob_uuids st (ob_next st + 1)) rq;
          ctx = bind_request service_name rq cid tid (ob_context st);
          (start, clk1) = read_clock (ob_clock st);
          (outcome, rq', ctx') = call_next rq ctx;
          (stop, clk2) = read_clock clk1;
          duration_ms = (stop - start) * 1000;
          status = (case outcome of Inl _ \<Rightarrow> 500 | Inr r \<Rightarrow> rs_status r);
          st' = st\<lparr>ob_metrics := record_request_metrics (Some record_http_request) (rq_method rq) (safe_route_path rq') status
                     duration_ms tgiven cgiven (ob_metrics st),
                   ob_context := reset_context ctx', ob_clock := clk2,
                   ob_next := ob_next st + 2\<rparr>
      in (case outcome of
            Inl _ \<Rightarrow> \<lparr>rs_status = 500,
                      rs_headers = [(CORRELATION_ID_HEADER, PStr cid), (TRACE_ID_HEADER, PStr tid)],
                      rs_body = PDict [(''detail'', PStr ''Internal Server Error'')]\<rparr>
          | Inr r \<Rightarrow> r\<lparr>rs_headers := with_id_headers cid tid (rs_headers r)\<rparr>, st'))"

section \<open>Lemmas\<close>

definition total_of :: "(string, int) dict \<Rightarrow> int" where
  "total_of d = sum_list (map snd d)"

lemma total_of_bump [simp]: "total_of (bump d k) = total_of d + 1"
proof -
  have "total_of (dict_set d k v) = total_of d - (case map_of d k of None \<Rightarrow> 0 | Some n \<Rightarrow> n) + v" for v
    by (induction d k v rule: dict_set.induct) (auto simp: total_of_def)
  then show ?thesis by (simp add: bump_def)
qed

lemma keys_bump [simp]: "fst ` set (bump d k) = insert k (fst ` set d)"
  by (simp add: bump_def)

lemma dict_ok_bump: "dict_ok d \<Longrightarrow> dict_ok (bump d k)"
  by (simp add: bump_def)

text \<open>
  The counters agree with one another, and the method labels come from the closed set.
\<close>

definition metrics_inv :: "http_metrics \<Rightarrow> bool" where
  "metrics_inv m \<longleftrightarrow>
     total_of (requests_by_method m) = requests_total m \<and>
     total_of (requests_by_path m) = requests_total m \<and>
     total_of (requests_by_status m) = requests_total m \<and>
     0 \<le> request_errors_total m \<and> request_errors_total m \<le> requests_total m \<and>
     trace_context_provided_total m \<le> requests_total m \<and>
     correlation_context_provided_total m \<le> requests_total m \<and>
     dict_ok (requests_by_method m) \<and> dict_ok (requests_by_path m) \<and> dict_ok (requests_by_status m) \<and>
     fst ` set (requests_by_method m) \<subseteq> insert OTHER_METHOD (set KNOWN_HTTP_METHODS)"

lemma metrics_inv_init: "metrics_inv http_metrics_init"
  by (simp add: metrics_inv_def http_metrics_init_def total_of_def dict_ok_def)

lemma metrics_inv_record: "metrics_inv m \<Longrightarrow> metrics_inv (record_http_request meth p s d t c m)"
  by (simp add: metrics_inv_def record_http_request_def dict_ok_bump method_key_def)

text \<open>A run of the middleware over requests, each with the application's behaviour on it.\<close>

type_synonym app_fun = "request \<Rightarrow> log_context \<Rightarrow> response result \<times> request \<times> log_context"

definition serve_all :: "string \<Rightarrow> (request \<times> app_fun) list \<Rightarrow> obs_state \<Rightarrow> obs_state" where
  "serve_all name rs st = fold (\<lambda>(rq, app) s. snd (observability_middleware name app rq s)) rs st"

lemma middleware_metrics:
  "\<exists>p s d t c. ob_metrics (snd (observability_middleware name app rq st))
     = record_http_request (rq_method rq) p s d t c (ob_metrics st)"
  by (auto simp: observability_middleware_def Let_def split: prod.split) blast

text \<open>
  request counters are conserved and their method labels bounded: whatever requests
  (with whatever methods) a service has answered, and whether the application returned or
  raised on them, the counts by method, by path and by status each sum to the total number
  of requests, there are at most ten method labels, all from the closed set, and errors are
  at most the total.
\<close>

theorem metrics_conserved:
  "let m = ob_metrics (serve_all name rs (st\<lparr>ob_metrics := http_metrics_init\<rparr>)) in
     requests_total m = int (length rs) \<and>
     total_of (requests_by_method m) = requests_total m \<and>
     total_of (requests_by_path m) = requests_total m \<and>
     total_of (requests_by_status m) = requests_total m \<and>
     request_errors_total m \<le> requests_total m \<and>
     fst ` set (requests_by_method m) \<subseteq> insert ''<other>'' (set KNOWN_HTTP_METHODS) \<and>
     length (requests_by_method m) \<le> 10"
proof -
  have step: "metrics_inv (ob_metrics (snd (observability_middleware name app rq s))) \<and>
      requests_total (ob_metrics (snd (observability_middleware name app rq s))) = requests_total (ob_metrics s) + 1"
    if "metrics_inv (ob_metrics s)" for app rq s
    using middleware_metrics [of name app rq s] that
    by (auto simp: metrics_inv_record) (simp add: record_http_request_def)
  have run: "metrics_inv (ob_metrics (serve_all name rs s)) \<and>
      requests_total (ob_metrics (serve_all name rs s)) = requests_total (ob_metrics s) + int (length rs)"
    if "metrics_inv (ob_metrics s)" for s
    using that
  proof (induction rs arbitrary: s)
    case (Cons r rs)
    obtain rq app where r: "r = (rq, app)" by (cases r)
    from Cons.IH [of "snd (observability_middleware name app rq s)"] step [OF Cons.prems, of app rq]
    show ?case by (simp add: serve_all_def r)
  qed (simp add: serve_all_def)
  let ?m = "ob_metrics (serve_all name rs (st\<lparr>ob_metrics := http_metrics_init\<rparr>))"
  have inv: "metrics_inv ?m" and tot: "requests_total ?m = int (length rs)"
    using run [of "st\<lparr>ob_metrics := http_metrics_init\<rparr>"] metrics_inv_init
    by (simp_all add: http_metrics_init_def)
  have "length (requests_by_method ?m) = card (fst ` set (requests_by_method ?m))"
    using inv distinct_card [of "map fst (requests_by_method ?m)"]
    by (simp add: metrics_inv_def dict_ok_def)
  also have "\<dots> \<le> card (insert OTHER_METHOD (set KNOWN_HTTP_METHODS))"
    using inv by (intro card_mono) (simp_all add: metrics_inv_def)
  also have "\<dots> \<le> 10"
    by (simp add: KNOWN_HTTP_METHODS_def OTHER_METHOD_def)
  finally show ?thesis using inv tot
    by (simp add: Let_def metrics_inv_def OTHER_METHOD_def)
qed

text \<open>
  every request is answered and traceable: the middleware answers with the application's
  status, or with a 500 and a fixed body when the application raised (so no exception text
  leaks); the answer carries the correlation and trace identifiers the request was bound to,
  the caller's own when it sent them, and no context survives into the next request.
\<close>

theorem middleware_answers:
  "let cid = fst (extract_correlation_id (ob_uuids st (ob_next st)) rq);
       tid = fst (extract_trace_id (ob_uuids st (ob_next st + 1)) rq);
       resp = fst (observability_middleware name app rq st);
       after = ob_context (snd (observability_middleware name app rq st))
   in (case fst (app rq (bind_request name rq cid tid (ob_context st))) of
         Inl _ \<Rightarrow> rs_status resp = 500 \<and>
                  rs_body resp = PDict [(''detail'', PStr ''Internal Server Error'')]
       | Inr r \<Rightarrow> rs_status resp = rs_status r \<and> rs_body resp = rs_body r) \<and>
      map_of (rs_headers resp) ''X-Correlation-ID'' = Some (PStr cid) \<and>
      map_of (rs_headers resp) ''X-Trace-ID'' = Some (PStr tid) \<and>
      cx_correlation_id after = None \<and> cx_trace_id after = None \<and> cx_extra after = None"
  by (auto simp: observability_middleware_def Let_def reset_context_def with_id_headers_def
      CORRELATION_ID_HEADER_def TRACE_ID_HEADER_def split: prod.splits sum.splits)

lemma setdefault_fold_keeps:
  "map_of d k = Some v \<Longrightarrow> map_of (fold (\<lambda>(k, v) d. dict_setdefault d k v) xs d) k = Some v"
proof (induction xs arbitrary: d)
  case (Cons e xs)
  have "map_of (case e of (k, v) \<Rightarrow> dict_setdefault d k v) k = Some v"
    using Cons.prems by (cases e) auto
  from Cons.IH [OF this] show ?case by (simp add: split_beta)
qed simp

text \<open>
  log lines are attributable: a line logged while a request is bound carries that
  request's correlation and trace identifiers (unless the line set those fields itself) and a
  service name, whatever other fields the line or the context has.
\<close>

theorem log_lines_carry_ids:
  "let d = inject_context service_name (bind_request name rq cid tid c) event in
     map_of d ''correlation_id'' = Some (case map_of event ''correlation_id'' of None \<Rightarrow> PStr cid | Some v \<Rightarrow> v) \<and>
     map_of d ''trace_id'' = Some (case map_of event ''trace_id'' of None \<Rightarrow> PStr tid | Some v \<Rightarrow> v) \<and>
     map_of d ''service'' \<noteq> None"
proof -
  let ?c = "bind_request name rq cid tid c"
  let ?d2 = "setdefault_opt ''trace_id'' (cx_trace_id ?c) (setdefault_opt ''correlation_id'' (cx_correlation_id ?c) event)"
  have ids: "cx_correlation_id ?c = Some cid" "cx_trace_id ?c = Some tid"
    by (simp_all add: bind_request_def bind_context_def bind_trace_id_def bind_correlation_id_def)
  have "map_of ?d2 ''correlation_id'' = Some (case map_of event ''correlation_id'' of None \<Rightarrow> PStr cid | Some v \<Rightarrow> v)"
    "map_of ?d2 ''trace_id'' = Some (case map_of event ''trace_id'' of None \<Rightarrow> PStr tid | Some v \<Rightarrow> v)"
    by (auto simp: setdefault_opt_def ids split: option.split)
  from setdefault_fold_keeps [OF this(1)] setdefault_fold_keeps [OF this(2)] show ?thesis
    by (simp add: inject_context_def Let_def)
qed

end
