(* ===== verification/Schema.thy ===== *)
theory Schema
  imports PyVal
begin

text \<open>
  The event models of \<open>libs/common/schema.py\<close>: one record per Pydantic class (a
  subclass extends the record of its base), what \<open>model_dump(mode="json")\<close> makes of
  them, the idempotency key of a market event and the bounded dead-letter reason.

  The record \<open>pylib\<close> holds the functions of packages outside the repository that the
  services call (SHA-256, ISO rendering, JSON text, Pydantic validation); a definition
  that depends on one of them takes the record as an argument.
\<close>

section \<open>Topics\<close>

definition TOPIC_MARKET_RAW :: string where "TOPIC_MARKET_RAW = ''market.raw''"
definition TOPIC_NEWS_RAW :: string where "TOPIC_NEWS_RAW = ''news.raw''"
definition TOPIC_SIGNALS :: string where "TOPIC_SIGNALS = ''signals''"
definition TOPIC_INSIGHTS :: string where "TOPIC_INSIGHTS = ''insights''"
definition TOPIC_ALERTS :: string where "TOPIC_ALERTS = ''alerts''"
definition INSIGHT_CACHE_PREFIX :: string where "INSIGHT_CACHE_PREFIX = ''insight''"

lemmas topic_defs = TOPIC_MARKET_RAW_def TOPIC_NEWS_RAW_def TOPIC_SIGNALS_def
  TOPIC_INSIGHTS_def TOPIC_ALERTS_def

section \<open>Events\<close>

record event_base =
  event_id :: string
  event_ts :: datetime
  correlation_id :: "string option"
  trace_id :: "string option"

record market_event = event_base +
  me_symbol :: string
  me_source :: string
  me_type :: string
  me_price :: real
  me_volume :: "real option"
  me_bid :: "real option"
  me_ask :: "real option"

record news_event = event_base +
  ne_source :: string
  ne_title :: string
  ne_body :: string
  ne_url :: "string option"
  ne_symbols :: "string list"
  ne_author :: "string option"

record signal_event = event_base +
  sg_symbol :: string
  sg_source :: string
  sg_indicators :: "(string \<times> real option) list"
  sg_anomaly :: bool

record insight_event = event_base +
  in_symbol :: string
  in_sentiment_score :: real
  in_sentiment_label :: string
  in_summary :: string
  in_explanation :: string
  in_citations :: "string list"
  in_confidence :: real
  in_grounded :: bool
  in_model :: string

record alert_event = event_base +
  al_symbol :: string
  al_rule :: string
  al_severity :: string
  al_message :: string
  al_dedupe_key :: string

section \<open>Functions of other packages\<close>

text \<open>
  Validation returns the error detail (\<open>str(exc.errors(...))\<close>) or the event.
\<close>

record pylib =
  sha256_hex :: "string \<Rightarrow> string"
  isoformat :: "datetime \<Rightarrow> string"
  json_time :: "datetime \<Rightarrow> string"
  parse_iso :: "string \<Rightarrow> datetime option"
  json_dumps_sorted :: "pyval \<Rightarrow> string"
  json_dumps_compact :: "pyval \<Rightarrow> string"
  float_str :: "real \<Rightarrow> string"
  repr_of :: "pyval \<Rightarrow> string"
  validate_market :: "pyval \<Rightarrow> string + market_event"
  validate_news :: "pyval \<Rightarrow> string + news_event"
  validate_signal :: "pyval \<Rightarrow> string + signal_event"
  validate_insight :: "pyval \<Rightarrow> string + insight_event"
  validate_alert :: "pyval \<Rightarrow> string + alert_event"

text \<open>\<open>str(v)\<close>; a container or a datetime renders as its \<open>repr\<close>.\<close>

definition py_str :: "pylib \<Rightarrow> pyval \<Rightarrow> string" where
  "py_str lib v = (case v of
       PStr s \<Rightarrow> s
     | PInt i \<Rightarrow> int_str i
     | PFloat x \<Rightarrow> float_str lib x
     | PNone \<Rightarrow> ''None''
     | PBool b \<Rightarrow> (if b then ''True'' else ''False'')
     | _ \<Rightarrow> repr_of lib v)"

lemma py_str_str [simp]: "py_str lib (PStr s) = s"
  by (simp add: py_str_def)

text \<open>A trivial instance of the parameters, for the concrete runs of the witnesses.\<close>

definition null_lib :: pylib where
  "null_lib =
     \<lparr>sha256_hex = id, isoformat = (\<lambda>_. []), json_time = (\<lambda>_. []), parse_iso = (\<lambda>_. None),
      json_dumps_sorted = (\<lambda>_. []), json_dumps_compact = (\<lambda>_. []), float_str = (\<lambda>_. ''0.0''), repr_of = (\<lambda>_. []),
      validate_market = (\<lambda>_. Inl ''invalid''), validate_news = (\<lambda>_. Inl ''invalid''),
      validate_signal = (\<lambda>_. Inl ''invalid''), validate_insight = (\<lambda>_. Inl ''invalid''),
      validate_alert = (\<lambda>_. Inl ''invalid'')\<rparr>"

section \<open>Dumps\<close>

definition base_dump :: "pylib \<Rightarrow> 'a event_base_scheme \<Rightarrow> pydict" where
  "base_dump lib e =
     [(''event_id'', PStr (event_id e)),
      (''ts'', PStr (json_time lib (event_ts e))),
      (''correlation_id'', opt_str (correlation_id e)),
      (''trace_id'', opt_str (trace_id e))]"

definition market_dump :: "pylib \<Rightarrow> market_event \<Rightarrow> pyval" where
  "market_dump lib e = PDict (base_dump lib e @
     [(''symbol'', PStr (me_symbol e)),
      (''source'', PStr (me_source e)),
      (''event_type'', PStr (me_type e)),
      (''price'', PFloat (me_price e)),
      (''volume'', opt_float (me_volume e)),
      (''bid'', opt_float (me_bid e)),
      (''ask'', opt_float (me_ask e))])"

definition news_dump :: "pylib \<Rightarrow> news_event \<Rightarrow> pyval" where
  "news_dump lib e = PDict (base_dump lib e @
     [(''source'', PStr (ne_source e)),
      (''title'', PStr (ne_title e)),
      (''body'', PStr (ne_body e)),
      (''url'', opt_str (ne_url e)),
      (''symbols'', PList (map PStr (ne_symbols e))),
      (''author'', opt_str (ne_author e))])"

definition signal_dump :: "pylib \<Rightarrow> signal_event \<Rightarrow> pyval" where
  "signal_dump lib e = PDict (base_dump lib e @
     [(''symbol'', PStr (sg_symbol e)),
      (''source'', PStr (sg_source e)),
      (''indicators'', PDict (map (\<lambda>(k, v). (k, opt_float v)) (sg_indicators e))),
      (''anomaly'', PBool (sg_anomaly e))])"

definition insight_dump :: "pylib \<Rightarrow> insight_event \<Rightarrow> pyval" where
  "insight_dump lib e = PDict (base_dump lib e @
     [(''symbol'', PStr (in_symbol e)),
      (''sentiment_score'', PFloat (in_sentiment_score e)),
      (''sentiment_label'', PStr (in_sentiment_label e)),
      (''summary'', PStr (in_summary e)),
      (''explanation'', PStr (in_explanation e)),
      (''citations'', PList (map PStr (in_citations e))),
      (''confidence'', PFloat (in_confidence e)),
      (''grounded'', PBool (in_grounded e)),
      (''model'', PStr (in_model e))])"

definition alert_dump :: "pylib \<Rightarrow> alert_event \<Rightarrow> pyval" where
  "alert_dump lib e = PDict (base_dump lib e @
     [(''symbol'', PStr (al_symbol e)),
      (''rule'', PStr (al_rule e)),
      (''severity'', PStr (al_severity e)),
      (''message'', PStr (al_message e)),
      (''dedupe_key'', PStr (al_dedupe_key e))])"

section \<open>Keys and reasons\<close>

definition market_event_raw :: "pylib \<Rightarrow> string \<Rightarrow> datetime \<Rightarrow> string \<Rightarrow> string" where
  "market_event_raw lib symbol t source = symbol @ '':'' @ isoformat lib t @ '':'' @ source"

definition market_event_key :: "pylib \<Rightarrow> string \<Rightarrow> datetime \<Rightarrow> string \<Rightarrow> string" where
  "market_event_key lib symbol t source = sha256_hex lib (market_event_raw lib symbol t source)"

definition MAX_DEAD_LETTER_REASON_CHARS :: nat where
  "MAX_DEAD_LETTER_REASON_CHARS = 512"

definition validation_reason :: "string \<Rightarrow> string \<Rightarrow> string" where
  "validation_reason prefix detail =
     (let detail' = (if length detail > MAX_DEAD_LETTER_REASON_CHARS
                     then take MAX_DEAD_LETTER_REASON_CHARS detail @ ''...(truncated)''
                     else detail)
      in prefix @ '': '' @ detail')"

section \<open>Lemmas\<close>

lemma sep_split_first:
  assumes "a @ c # b = a' @ c # b'" and "c \<notin> set a" "c \<notin> set a'"
  shows "a = a' \<and> b = b'"
  using assms
proof (induction a arbitrary: a')
  case Nil
  then show ?case by (cases a') auto
next
  case (Cons x a)
  then show ?case by (cases a') auto
qed

lemma sep_split_last:
  assumes "a @ c # b = a' @ c # b'" and "c \<notin> set b" "c \<notin> set b'"
  shows "a = a' \<and> b = b'"
proof -
  have "rev b @ c # rev a = rev b' @ c # rev a'"
    using arg_cong [OF assms(1), of rev] by simp
  then show ?thesis using sep_split_first [of "rev b" c "rev a" "rev b'" "rev a'"] assms(2,3) by simp
qed

text \<open>
  the idempotency key identifies the event's symbol, instant and source: two events of
  colon-free symbols and sources with the same key agree on all three, when SHA-256 does
  not collide on the two hashed strings and ISO rendering tells the two instants apart.
\<close>

theorem market_event_key_inj:
  assumes "market_event_key lib s t u = market_event_key lib s' t' u'"
    and "sha256_hex lib (market_event_raw lib s t u) = sha256_hex lib (market_event_raw lib s' t' u')
         \<Longrightarrow> market_event_raw lib s t u = market_event_raw lib s' t' u'"
    and "isoformat lib t = isoformat lib t' \<Longrightarrow> t = t'"
    and "CHR '':'' \<notin> set s" "CHR '':'' \<notin> set s'" "CHR '':'' \<notin> set u" "CHR '':'' \<notin> set u'"
  shows "s = s' \<and> t = t' \<and> u = u'"
proof -
  have "s @ CHR '':'' # (isoformat lib t @ CHR '':'' # u)
      = s' @ CHR '':'' # (isoformat lib t' @ CHR '':'' # u')"
    using assms(1,2) by (simp add: market_event_key_def market_event_raw_def)
  from sep_split_first [OF this assms(4,5)]
  have "s = s'" and "isoformat lib t @ CHR '':'' # u = isoformat lib t' @ CHR '':'' # u'"
    by auto
  with sep_split_last [OF this(2) assms(6,7)] assms(3) show ?thesis by blast
qed

theorem market_event_key_inj_witness:
  "market_event_key (undefined\<lparr>sha256_hex := id, isoformat := (\<lambda>_. ''2024-01-01T00:00:00+00:00'')\<rparr>)
       ''BTCUSDT'' (utc_datetime 0) ''binance''
     = ''BTCUSDT:2024-01-01T00:00:00+00:00:binance''
   \<and> ''BTCUSDT'' = ''BTCUSDT'' \<and> utc_datetime 0 = utc_datetime 0 \<and> ''binance'' = ''binance''"
proof -
  let ?lib = "undefined\<lparr>sha256_hex := id, isoformat := (\<lambda>_. ''2024-01-01T00:00:00+00:00'')\<rparr>"
  have "market_event_key ?lib ''BTCUSDT'' (utc_datetime 0) ''binance''
      = market_event_key ?lib ''BTCUSDT'' (utc_datetime 0) ''binance''" by simp
  from market_event_key_inj [OF this] show ?thesis
    by (simp add: market_event_key_def market_event_raw_def)
qed

text \<open>
  the dead-letter reason of a rejected payload is bounded whatever the payload: the
  prefix, the separator, 512 characters of detail and the truncation mark.
\<close>

theorem validation_reason_bounded:
  "length (validation_reason prefix detail) \<le> length prefix + 2 + 512 + 14"
  by (simp add: validation_reason_def MAX_DEAD_LETTER_REASON_CHARS_def Let_def)

end
