(* ===== verification/TimeSeries.thy ===== *)
theory TimeSeries
  imports Schema HttpMetrics "HOL-Library.Multiset"
begin

text \<open>
  The time-series port of \<open>libs/common/druid.py\<close>: the in-memory store the services run on
  without Druid, and \<open>DruidClient\<close> over an HTTP client that is a parameter.  A table is the
  list of its rows in the order they were ingested.  A table name is the value of a row's
  \<open>_table\<close> field; date parsing of strings is the parameter \<open>parse_iso\<close>.
\<close>

section \<open>The protocol\<close>

record 's ts_ops =
  ts_ingest :: "pydict list \<Rightarrow> ('s, unit) pm"
  ts_query_sql :: "string \<Rightarrow> ('s, pydict list) pm"
  ts_latest :: "string \<Rightarrow> ('s, pydict option) pm"
  ts_history :: "string \<Rightarrow> datetime \<Rightarrow> datetime \<Rightarrow> int option \<Rightarrow> ('s, pydict list) pm"
  ts_latest_indicator :: "string \<Rightarrow> ('s, pydict option) pm"
  ts_count :: "string \<Rightarrow> ('s, int) pm"

section \<open>Timestamps\<close>

text \<open>
  \<open>datetime.fromtimestamp(ts, tz=UTC)\<close>: microseconds from the minimum datetime, rounded half
  to even.  Outside the years 1 to 9999 it raises: an overflow when the seconds do not fit
  64 bits, an operating-system error when the year does not fit 32 bits, and a value error
  in between.
\<close>

definition EPOCH_US :: int where "EPOCH_US = 62135596800 * 1000000"
definition MAX_US :: int where "MAX_US = 315537897600 * 1000000 - 1"

definition timestamp_error :: "real \<Rightarrow> exn" where
  "timestamp_error x =
     (if x < - (2 ^ 63) \<or> 2 ^ 63 \<le> x then OverflowError ''timestamp out of range for platform time_t''
      else if x < -67768040609740800 \<or> 67768036191676800 \<le> x
      then OSError ''[Errno 75] Value too large for defined data type''
      else ValueError ''year is out of range'')"

definition from_timestamp :: "real \<Rightarrow> datetime result" where
  "from_timestamp x =
     (let us = EPOCH_US + round_half_even (x * 1000000) in
      if 0 \<le> us \<and> us \<le> MAX_US then Inr (utc_datetime us)
      else Inl (timestamp_error x))"

definition parse_ts :: "pylib \<Rightarrow> pyval \<Rightarrow> datetime option result" where
  "parse_ts lib ts =
     (case ts of
        PTime d \<Rightarrow> Inr (Some (as_utc d))
      | PStr s \<Rightarrow> Inr (map_option as_utc (parse_iso lib s))
      | _ \<Rightarrow> (case as_number ts of
                None \<Rightarrow> Inr None
              | Some x \<Rightarrow> (case from_timestamp x of Inl e \<Rightarrow> Inl e | Inr d \<Rightarrow> Inr (Some d))))"

definition OLDEST :: datetime where "OLDEST = utc_datetime 0"

text \<open>\<open>self._parse_ts(r.get("ts")) or self._OLDEST\<close>, compared by instant.\<close>

definition ts_key :: "pylib \<Rightarrow> pydict \<Rightarrow> int result" where
  "ts_key lib row =
     (case parse_ts lib (dget row ''ts'') of
        Inl e \<Rightarrow> Inl e
      | Inr None \<Rightarrow> Inr (instant OLDEST)
      | Inr (Some d) \<Rightarrow> Inr (instant d))"

text \<open>\<open>max(xs, key=...)\<close>: the first element of largest key.\<close>

fun first_max :: "('a \<times> 'k::linorder) \<Rightarrow> ('a \<times> 'k) list \<Rightarrow> 'a \<times> 'k" where
  "first_max m [] = m"
| "first_max m (x # xs) = first_max (if snd x > snd m then x else m) xs"

definition newest_row :: "pylib \<Rightarrow> pydict list \<Rightarrow> pydict option result" where
  "newest_row lib rows =
     (case map_result (ts_key lib) rows of
        Inl e \<Rightarrow> Inl e
      | Inr [] \<Rightarrow> Inr None
      | Inr (r # rs) \<Rightarrow> Inr (Some (fst (first_max r rs))))"

section \<open>InMemoryTimeSeriesStore\<close>

record inmem_ts =
  ts_tables :: "(pyval, pydict list) dict"

definition inmem_ts_init :: inmem_ts where "inmem_ts_init = \<lparr>ts_tables = []\<rparr>"

definition table_rows :: "inmem_ts \<Rightarrow> pyval \<Rightarrow> pydict list" where
  "table_rows st t = (case map_of (ts_tables st) t of None \<Rightarrow> [] | Some rows \<Rightarrow> rows)"

definition default_table :: "pydict \<Rightarrow> pyval" where
  "default_table row = dget_or row ''_table'' (PStr ''ticks'')"

fun hashable :: "pyval \<Rightarrow> bool" where
  "hashable (PList _) = False" | "hashable (PDict _) = False" | "hashable _ = True"

definition it_ingest_row :: "pydict \<Rightarrow> (inmem_ts, unit) pm" where
  "it_ingest_row row = (\<lambda>st.
     (let table = default_table row; stored = dict_pop row ''_table'' in
      if hashable table
      then (Inr (), st\<lparr>ts_tables := dict_set (ts_tables st) table (table_rows st table @ [stored])\<rparr>)
      else (Inl (TypeError ''unhashable type''), st)))"

definition it_ingest :: "pydict list \<Rightarrow> (inmem_ts, unit) pm" where
  "it_ingest rows = for_each it_ingest_row rows"

definition of_symbol :: "string \<Rightarrow> pydict list \<Rightarrow> pydict list" where
  "of_symbol symbol rows = filter (\<lambda>r. dget r ''symbol'' = PStr symbol) rows"

definition it_latest :: "pylib \<Rightarrow> string \<Rightarrow> (inmem_ts, pydict option) pm" where
  "it_latest lib symbol = (\<lambda>st. (newest_row lib (of_symbol symbol (table_rows st (PStr ''ticks''))), st))"

definition it_latest_indicator :: "pylib \<Rightarrow> string \<Rightarrow> (inmem_ts, pydict option) pm" where
  "it_latest_indicator lib symbol =
     (\<lambda>st. (newest_row lib (of_symbol symbol (table_rows st (PStr ''indicators''))), st))"

definition it_count :: "string \<Rightarrow> (inmem_ts, int) pm" where
  "it_count table = getM (\<lambda>st. int (length (table_rows st (PStr table))))"

text \<open>The rows of a window, in the order of the table; a row without a timestamp is skipped.\<close>

fun window_rows :: "pylib \<Rightarrow> string \<Rightarrow> int \<Rightarrow> int \<Rightarrow> pydict list \<Rightarrow> pydict list result" where
  "window_rows lib symbol lo hi [] = Inr []"
| "window_rows lib symbol lo hi (r # rows) =
     (if dget r ''symbol'' \<noteq> PStr symbol then window_rows lib symbol lo hi rows
      else (case parse_ts lib (dget r ''ts'') of
              Inl e \<Rightarrow> Inl e
            | Inr None \<Rightarrow> window_rows lib symbol lo hi rows
            | Inr (Some d) \<Rightarrow>
                (case window_rows lib symbol lo hi rows of
                   Inl e \<Rightarrow> Inl e
                 | Inr rs \<Rightarrow> Inr (if lo \<le> instant d \<and> instant d \<le> hi then r # rs else rs))))"

definition it_history ::
  "pylib \<Rightarrow> string \<Rightarrow> datetime \<Rightarrow> datetime \<Rightarrow> int option \<Rightarrow> (inmem_ts, pydict list) pm" where
  "it_history lib symbol frm until limit = (\<lambda>st.
     ((case window_rows lib symbol (instant (as_utc frm)) (instant (as_utc until))
              (table_rows st (PStr ''ticks'')) of
         Inl e \<Rightarrow> Inl e
       | Inr result \<Rightarrow>
           (case limit of
              None \<Rightarrow> Inr result
            | Some n \<Rightarrow>
                (if n \<le> 0 then Inr []
                 else (case map_result (ts_key lib) result of
                         Inl e \<Rightarrow> Inl e
                       | Inr ks \<Rightarrow> Inr (slice_last n (map fst (sort_key snd ks))))))), st))"

section \<open>The SQL subset of the in-memory store\<close>

text \<open>
  The word after the first \<open>from\<close>, with the double quotes around it stripped
  (\<open>sql.split("from")[1].strip().split()[0].strip('"')\<close>); \<open>None\<close> is the \<open>IndexError\<close>.
\<close>

fun after_first :: "string \<Rightarrow> string \<Rightarrow> string option" where
  "after_first sub [] = None"
| "after_first sub (c # cs) =
     (if starts_with sub (c # cs) then Some (drop (length sub) (c # cs)) else after_first sub cs)"

fun before_first :: "string \<Rightarrow> string \<Rightarrow> string" where
  "before_first sub [] = []"
| "before_first sub (c # cs) = (if starts_with sub (c # cs) then [] else c # before_first sub cs)"

definition strip_char :: "char \<Rightarrow> string \<Rightarrow> string" where
  "strip_char c s = rev (dropWhile (\<lambda>x. x = c) (rev (dropWhile (\<lambda>x. x = c) s)))"

definition from_table :: "string \<Rightarrow> string option" where
  "from_table sql =
     (case after_first ''from'' sql of
        None \<Rightarrow> None
      | Some rest \<Rightarrow> (case str_words (before_first ''from'' rest) of
                        [] \<Rightarrow> None
                      | w # _ \<Rightarrow> Some (strip_char (CHR 0x22) w)))"

definition sql_normalise :: "string \<Rightarrow> string" where
  "sql_normalise sql = str_lower (str_join '' '' (str_words sql))"

fun table_names :: "(pyval, 'a) dict \<Rightarrow> string list result" where
  "table_names [] = Inr []"
| "table_names ((PStr t, _) # d) = (case table_names d of Inl e \<Rightarrow> Inl e | Inr ts \<Rightarrow> Inr (t # ts))"
| "table_names _ = Inl (TypeError ''table name is not a string'')"

fun rows_of_first_match :: "string \<Rightarrow> (pyval, pydict list) dict \<Rightarrow> pydict list result" where
  "rows_of_first_match sql [] = Inr []"
| "rows_of_first_match sql ((PStr t, rows) # d) =
     (if str_contains t sql then Inr rows else rows_of_first_match sql d)"
| "rows_of_first_match sql _ = Inl (TypeError ''table name is not a string'')"

text \<open>\<open>str(row["symbol"])\<close> for the symbols the rows carry, which are strings.\<close>

definition symbol_text :: "pyval \<Rightarrow> string" where
  "symbol_text v = (case v of PStr s \<Rightarrow> s | PInt i \<Rightarrow> int_str i | PNone \<Rightarrow> ''None'' | _ \<Rightarrow> [])"

definition table_metadata :: "string \<Rightarrow> inmem_ts \<Rightarrow> pydict list result" where
  "table_metadata sql st =
     (let filtered = str_contains (CHR 0x22 # ''table_name'' @ CHR 0x22 # '' in'') sql
                     \<or> str_contains '' table_name in '' sql in
      case table_names (ts_tables st) of
        Inl e \<Rightarrow> Inl e
      | Inr ts \<Rightarrow> Inr (map (\<lambda>t. [(''TABLE_NAME'', PStr t)])
          (filter (\<lambda>t. str_contains (CHR 0x27 # t @ [CHR 0x27]) sql \<or> \<not> filtered) (sort ts))))"

definition it_query_sql :: "string \<Rightarrow> (inmem_ts, pydict list) pm" where
  "it_query_sql sql0 = (\<lambda>st. (let sql = sql_normalise sql0 in
     (if str_contains ''information_schema.tables'' sql then table_metadata sql st
      else if str_contains ''select distinct'' sql \<and> str_contains ''symbol'' sql
      then (case from_table sql of
              None \<Rightarrow> Inr []
            | Some t \<Rightarrow> Inr (map (\<lambda>s. [(''symbol'', PStr s)])
                (sort (remdups (map (\<lambda>r. symbol_text (dget r ''symbol''))
                   (filter (\<lambda>r. truthy (dget r ''symbol'')) (table_rows st (PStr t))))))))
      else if str_contains ''count(*)'' sql
      then (let t = (case from_table sql of None \<Rightarrow> ''ticks'' | Some t \<Rightarrow> t)
            in Inr [[(''EXPR$0'', PInt (int (length (table_rows st (PStr t)))))]])
      else rows_of_first_match sql (ts_tables st), st)))"

definition inmem_ts_ops :: "pylib \<Rightarrow> inmem_ts ts_ops" where
  "inmem_ts_ops lib =
     \<lparr>ts_ingest = it_ingest, ts_query_sql = it_query_sql, ts_latest = it_latest lib,
      ts_history = it_history lib, ts_latest_indicator = it_latest_indicator lib, ts_count = it_count\<rparr>"

lemma inmem_ts_ops_sel [simp]:
  "ts_ingest (inmem_ts_ops lib) = it_ingest" "ts_query_sql (inmem_ts_ops lib) = it_query_sql"
  "ts_latest (inmem_ts_ops lib) = it_latest lib" "ts_history (inmem_ts_ops lib) = it_history lib"
  "ts_latest_indicator (inmem_ts_ops lib) = it_latest_indicator lib" "ts_count (inmem_ts_ops lib) = it_count"
  by (simp_all add: inmem_ts_ops_def)

section \<open>DruidClient\<close>

record http_response =
  hr_status :: int
  hr_json :: "pyval result"
  hr_text :: string
  hr_raise_for_status :: "exn option"

record 'h http_lib =
  hl_new :: 'h
  hl_post :: "string \<Rightarrow> pyval \<Rightarrow> ('h, http_response) pm"
  hl_aclose :: "('h, unit) pm"

record 'h druid =
  dr_base_url :: string
  dr_client :: "'h option"

definition druid_init :: "string \<Rightarrow> 'h druid" where
  "druid_init url = \<lparr>dr_base_url = rev (dropWhile (\<lambda>c. c = CHR ''/'') (rev url)), dr_client = None\<rparr>"

definition with_client :: "'h http_lib \<Rightarrow> ('h, 'a) pm \<Rightarrow> ('h druid, 'a) pm" where
  "with_client h m = (\<lambda>d. case m (case dr_client d of None \<Rightarrow> hl_new h | Some c \<Rightarrow> c) of
       (r, c') \<Rightarrow> (r, d\<lparr>dr_client := Some c'\<rparr>))"

definition druid_close :: "'h http_lib \<Rightarrow> ('h druid, unit) pm" where
  "druid_close h = (\<lambda>d. case dr_client d of
       None \<Rightarrow> (Inr (), d)
     | Some c \<Rightarrow> (case hl_aclose h c of
                    (Inr _, _) \<Rightarrow> (Inr (), d\<lparr>dr_client := None\<rparr>)
                  | (Inl e, c') \<Rightarrow> (Inl e, d\<lparr>dr_client := Some c'\<rparr>)))"

definition sql_literal :: "string \<Rightarrow> string" where
  "sql_literal v = CHR 0x27 # replace_char (CHR 0x27) [CHR 0x27, CHR 0x27] v @ [CHR 0x27]"

text \<open>Rows grouped by table in the order the tables first appear.\<close>

definition group_row :: "(pyval, pydict list) dict \<Rightarrow> pydict \<Rightarrow> (pyval, pydict list) dict" where
  "group_row g row =
     (let t = default_table row
      in dict_set g t ((case map_of g t of None \<Rightarrow> [] | Some rs \<Rightarrow> rs) @ [dict_pop row ''_table'']))"

definition group_rows :: "pydict list \<Rightarrow> (pyval, pydict list) dict" where
  "group_rows rows = foldl group_row [] rows"

definition ingest_spec :: "(pyval \<Rightarrow> string) \<Rightarrow> pyval \<times> pydict list \<Rightarrow> pyval" where
  "ingest_spec dumps = (\<lambda>(table, rows). PDict
     [(''type'', PStr ''index_parallel''),
      (''spec'', PDict
        [(''dataSchema'', PDict
           [(''dataSource'', table),
            (''timestampSpec'', PDict [(''column'', PStr ''ts''), (''format'', PStr ''auto'')]),
            (''dimensionsSpec'', PDict [(''dimensions'',
               PList (map (\<lambda>e. PStr (fst e)) (case rows of [] \<Rightarrow> [] | r # _ \<Rightarrow> r)))]),
            (''granularitySpec'', PDict [(''rollup'', PBool False)])]),
         (''ioConfig'', PDict
           [(''type'', PStr ''index_parallel''),
            (''appendToExisting'', PBool True),
            (''inputSource'', PDict [(''type'', PStr ''inline''),
               (''data'', PStr (str_join [CHR 0x0A] (map (\<lambda>r. dumps (PDict r)) rows)))]),
            (''inputFormat'', PDict [(''type'', PStr ''json'')])])])])"

definition build_ingest_specs :: "(pyval \<Rightarrow> string) \<Rightarrow> pydict list \<Rightarrow> pyval list" where
  "build_ingest_specs dumps rows = map (ingest_spec dumps) (group_rows rows)"

definition raise_for_status :: "http_response \<Rightarrow> ('s, unit) pm" where
  "raise_for_status r = (case hr_raise_for_status r of None \<Rightarrow> returnM () | Some e \<Rightarrow> raiseM e)"

definition druid_ingest :: "'h http_lib \<Rightarrow> (pyval \<Rightarrow> string) \<Rightarrow> pydict list \<Rightarrow> ('h druid, unit) pm" where
  "druid_ingest h dumps rows =
     for_each (\<lambda>spec. bindM (getM dr_base_url) (\<lambda>base.
         bindM (with_client h (hl_post h (base @ ''/druid/indexer/v1/task'') spec)) raise_for_status))
       (build_ingest_specs dumps rows)"

text \<open>
  The rows of an answer (\<open>resp.json()\<close>); an answer that is not a list of objects is kept as
  the empty list of rows it has.
\<close>

definition json_rows :: "pyval \<Rightarrow> pydict list" where
  "json_rows v = (case v of
       PList xs \<Rightarrow> map (\<lambda>x. case x of PDict d \<Rightarrow> d | _ \<Rightarrow> []) xs
     | _ \<Rightarrow> [])"

definition error_message :: "http_response \<Rightarrow> string" where
  "error_message r = (case hr_json r of
       Inr (PDict d) \<Rightarrow> symbol_text (dget_or d ''errorMessage'' (PStr []))
     | _ \<Rightarrow> hr_text r)"

definition object_not_found :: "string \<Rightarrow> bool" where
  "object_not_found message =
     (let lowered = str_lower message
      in str_contains (''object '' @ [CHR 0x27]) lowered \<and> str_contains ''not found'' lowered)"

definition druid_query_sql :: "'h http_lib \<Rightarrow> string \<Rightarrow> ('h druid, pydict list) pm" where
  "druid_query_sql h sql =
     bindM (getM dr_base_url) (\<lambda>base.
     bindM (with_client h (hl_post h (base @ ''/druid/v2/sql'') (PDict [(''query'', PStr sql)]))) (\<lambda>resp.
       if hr_status resp = 400 \<and> object_not_found (error_message resp) then returnM []
       else thenM (raise_for_status resp)
              (bindM (liftR (hr_json resp)) (\<lambda>v. returnM (json_rows v)))))"

definition dq :: "string \<Rightarrow> string" where "dq name = CHR 0x22 # name @ [CHR 0x22]"

definition head_row :: "pydict list \<Rightarrow> pydict option" where
  "head_row rows = (case rows of [] \<Rightarrow> None | r # _ \<Rightarrow> Some r)"

definition newest_row_sql :: "string \<Rightarrow> string \<Rightarrow> string" where
  "newest_row_sql table symbol = ''SELECT * FROM '' @ dq table @ '' WHERE '' @ dq ''symbol'' @ '' = ''
     @ sql_literal symbol @ '' ORDER BY '' @ dq ''__time'' @ '' DESC LIMIT 1''"

definition druid_latest :: "'h http_lib \<Rightarrow> string \<Rightarrow> ('h druid, pydict option) pm" where
  "druid_latest h symbol =
     bindM (druid_query_sql h (newest_row_sql ''ticks'' symbol)) (\<lambda>rows. returnM (head_row rows))"

definition druid_latest_indicator :: "'h http_lib \<Rightarrow> string \<Rightarrow> ('h druid, pydict option) pm" where
  "druid_latest_indicator h symbol =
     bindM (druid_query_sql h (newest_row_sql ''indicators'' symbol)) (\<lambda>rows. returnM (head_row rows))"

definition history_where :: "pylib \<Rightarrow> string \<Rightarrow> datetime \<Rightarrow> datetime \<Rightarrow> string" where
  "history_where lib symbol frm until =
     ''SELECT * FROM '' @ dq ''ticks'' @ '' WHERE '' @ dq ''symbol'' @ '' = '' @ sql_literal symbol
     @ '' AND '' @ dq ''__time'' @ '' >= '' @ sql_literal (isoformat lib frm)
     @ '' AND '' @ dq ''__time'' @ '' <= '' @ sql_literal (isoformat lib until) @ '' ''"

definition druid_history ::
  "'h http_lib \<Rightarrow> pylib \<Rightarrow> string \<Rightarrow> datetime \<Rightarrow> datetime \<Rightarrow> int option \<Rightarrow> ('h druid, pydict list) pm" where
  "druid_history h lib symbol frm until limit =
     (let prefix = history_where lib symbol frm until in
      case limit of
        None \<Rightarrow> druid_query_sql h (prefix @ ''ORDER BY '' @ dq ''__time'' @ '' ASC'')
      | Some n \<Rightarrow>
          (if n \<le> 0 then returnM []
           else bindM (druid_query_sql h (prefix @ ''ORDER BY '' @ dq ''__time'' @ '' DESC LIMIT '' @ int_str n))
                  (\<lambda>rows. returnM (rev rows))))"

definition druid_count :: "'h http_lib \<Rightarrow> string \<Rightarrow> ('h druid, pyval) pm" where
  "druid_count h table =
     bindM (druid_query_sql h (''SELECT COUNT(*) FROM '' @ dq table)) (\<lambda>rows.
       returnM (case rows of (((_, v) # _) # _) \<Rightarrow> v | _ \<Rightarrow> PInt 0))"

section \<open>Quoting\<close>

text \<open>How SQL reads a quoted literal: a doubled quote is a quote, a single one ends it.\<close>

fun read_literal_body :: "string \<Rightarrow> (string \<times> string) option" where
  "read_literal_body [] = None"
| "read_literal_body (c # cs) =
     (if c = CHR 0x27
      then (case cs of
              d # ds \<Rightarrow> (if d = CHR 0x27 then map_option (\<lambda>(v, r). (CHR 0x27 # v, r)) (read_literal_body ds)
                         else Some ([], cs))
            | [] \<Rightarrow> Some ([], []))
      else map_option (\<lambda>(v, r). (c # v, r)) (read_literal_body cs))"

definition read_literal :: "string \<Rightarrow> (string \<times> string) option" where
  "read_literal s = (case s of c # cs \<Rightarrow> (if c = CHR 0x27 then read_literal_body cs else None) | [] \<Rightarrow> None)"

lemma replace_char_Cons:
  "replace_char c by [] = []"
  "replace_char c by (x # xs) = (if x = c then by else [x]) @ replace_char c by xs"
  by (simp_all add: replace_char_def)

lemma read_literal_body_quoted:
  assumes "rest = [] \<or> hd rest \<noteq> CHR 0x27"
  shows "read_literal_body (replace_char (CHR 0x27) [CHR 0x27, CHR 0x27] v @ CHR 0x27 # rest) = Some (v, rest)"
proof (induction v)
  case Nil
  then show ?case using assms by (cases rest) (auto simp: replace_char_Cons)
qed (simp add: replace_char_Cons)

text \<open>
  no symbol can escape its SQL literal: whatever the symbol (quotes, comment marks, other
  statements), the SQL that asks for its newest row is the fixed text with one string literal
  in it, which SQL reads back as exactly the symbol and after which the fixed text goes on.
\<close>

theorem newest_row_sql_safe:
  "\<exists>lit. newest_row_sql table symbol = (''SELECT * FROM '' @ dq table @ '' WHERE '' @ dq ''symbol'' @ '' = '')
        @ lit @ ('' ORDER BY '' @ dq ''__time'' @ '' DESC LIMIT 1'') \<and>
     read_literal (lit @ ('' ORDER BY '' @ dq ''__time'' @ '' DESC LIMIT 1''))
       = Some (symbol, '' ORDER BY '' @ dq ''__time'' @ '' DESC LIMIT 1'')"
  by (rule exI [of _ "sql_literal symbol"])
     (simp add: newest_row_sql_def read_literal_def sql_literal_def read_literal_body_quoted)

section \<open>What the stores return\<close>

lemma first_max_props:
  "first_max m xs \<in> insert m (set xs) \<and> (\<forall>x \<in> insert m (set xs). snd x \<le> snd (first_max m xs))"
proof (induction m xs rule: first_max.induct)
  case (2 m x xs)
  then show ?case by (auto split: if_splits)
qed simp

lemma newest_row_props:
  assumes "newest_row lib rows = Inr r"
  shows "case r of None \<Rightarrow> rows = []
     | Some x \<Rightarrow> x \<in> set rows \<and> (\<exists>k. ts_key lib x = Inr k \<and>
         (\<forall>y \<in> set rows. \<exists>k'. ts_key lib y = Inr k' \<and> k' \<le> k))"
proof -
  obtain ks where ks: "map_result (ts_key lib) rows = Inr ks"
    using assms by (auto simp: newest_row_def split: sum.splits)
  have set_rows: "set rows = fst ` set ks" using map_result_fst [OF ks] by (metis set_map)
  note key = map_result_snd [OF ks]
  show ?thesis
  proof (cases ks)
    case Nil
    then show ?thesis using assms set_rows ks by (auto simp: newest_row_def)
  next
    case (Cons k0 ks')
    let ?m = "first_max k0 ks'"
    have m: "?m \<in> set ks" "\<And>p. p \<in> set ks \<Longrightarrow> snd p \<le> snd ?m"
      using first_max_props [of k0 ks'] Cons by auto
    have "\<exists>k'. ts_key lib y = Inr k' \<and> k' \<le> snd ?m" if "y \<in> set rows" for y
      using that set_rows key m(2) by auto
    moreover have "fst ?m \<in> set rows" using m(1) set_rows by simp
    moreover have "r = Some (fst ?m)" using assms ks Cons by (simp add: newest_row_def)
    ultimately show ?thesis using key [OF m(1)] by auto
  qed
qed

text \<open>
  the newest row: \<open>latest\<close> answers \<open>None\<close> exactly for a symbol without ticks, otherwise
  with a tick of that symbol whose timestamp no other tick of the symbol exceeds (a row with
  no readable timestamp counting as oldest), and it changes nothing.
\<close>

theorem latest_is_newest:
  assumes "it_latest lib symbol st = (Inr r, st')"
  shows "st' = st \<and>
    (r = None \<longleftrightarrow> of_symbol symbol (table_rows st (PStr ''ticks'')) = []) \<and>
    (\<forall>x. r = Some x \<longrightarrow> x \<in> set (table_rows st (PStr ''ticks'')) \<and> dget x ''symbol'' = PStr symbol \<and>
       (\<forall>y \<in> set (table_rows st (PStr ''ticks'')). dget y ''symbol'' = PStr symbol \<longrightarrow>
          (\<exists>k k'. ts_key lib x = Inr k \<and> ts_key lib y = Inr k' \<and> k' \<le> k)))"
proof -
  have n: "newest_row lib (of_symbol symbol (table_rows st (PStr ''ticks''))) = Inr r" "st' = st"
    using assms by (auto simp: it_latest_def)
  show ?thesis
  proof (cases r)
    case None
    then show ?thesis using newest_row_props [OF n(1)] n(2) by simp
  next
    case (Some x)
    from newest_row_props [OF n(1)] Some obtain k where
      x: "x \<in> set (of_symbol symbol (table_rows st (PStr ''ticks'')))" and k: "ts_key lib x = Inr k"
      and max: "\<And>y. y \<in> set (of_symbol symbol (table_rows st (PStr ''ticks''))) \<Longrightarrow>
         \<exists>k'. ts_key lib y = Inr k' \<and> k' \<le> k"
      by auto
    have "of_symbol symbol (table_rows st (PStr ''ticks'')) \<noteq> []" using x by auto
    then show ?thesis using Some x k max n(2) by (simp add: of_symbol_def)
  qed
qed

lemma ingest_one:
  assumes "hashable (default_table row)"
  shows "fst (it_ingest_row row st) = Inr ()"
    "table_rows (snd (it_ingest_row row st)) t =
       table_rows st t @ (if default_table row = t then [dict_pop row ''_table''] else [])"
  using assms by (simp_all add: it_ingest_row_def Let_def table_rows_def)

text \<open>
  ingestion appends: after \<open>ingest\<close>, each table holds the rows it held followed by the
  ingested rows meant for it, in order and without their routing field; no other table
  changes.
\<close>

theorem ingest_appends:
  assumes "\<forall>row \<in> set rows. hashable (default_table row)"
  shows "fst (it_ingest rows st) = Inr () \<and>
    table_rows (snd (it_ingest rows st)) t =
      table_rows st t @ map (\<lambda>r. dict_pop r ''_table'') (filter (\<lambda>r. default_table r = t) rows)"
  using assms
proof (induction rows arbitrary: st)
  case Nil
  then show ?case by (simp add: it_ingest_def returnM_def)
next
  case (Cons row rows)
  have h: "hashable (default_table row)" using Cons.prems by simp
  have "fst (it_ingest rows (snd (it_ingest_row row st))) = Inr () \<and>
    table_rows (snd (it_ingest rows (snd (it_ingest_row row st)))) t =
      table_rows (snd (it_ingest_row row st)) t @
      map (\<lambda>r. dict_pop r ''_table'') (filter (\<lambda>r. default_table r = t) rows)"
    using Cons by simp
  then show ?case using ingest_one [OF h, of st] by (simp add: it_ingest_def thenM_apply)
qed

definition example_row :: "string \<Rightarrow> int \<Rightarrow> pydict" where
  "example_row table t =
     [(''_table'', PStr table), (''symbol'', PStr ''BTC''), (''ts'', PTime (utc_datetime t))]"

theorem ingest_appends_witness:
  "table_rows (snd (it_ingest [example_row ''ticks'' 1, example_row ''indicators'' 1] inmem_ts_init)) (PStr ''ticks'')
     = [[(''symbol'', PStr ''BTC''), (''ts'', PTime (utc_datetime 1))]]"
proof -
  have "\<forall>row \<in> set [example_row ''ticks'' 1, example_row ''indicators'' 1]. hashable (default_table row)"
    by (simp add: example_row_def default_table_def)
  from ingest_appends [OF this, of inmem_ts_init "PStr ''ticks''"] show ?thesis
    by (simp add: example_row_def default_table_def table_rows_def inmem_ts_init_def dict_pop_def)
qed

theorem latest_is_newest_witness:
  "fst (it_latest null_lib ''BTC'' (snd (it_ingest [example_row ''ticks'' 1, example_row ''ticks'' 2] inmem_ts_init)))
     = Inr (Some (dict_pop (example_row ''ticks'' 2) ''_table''))
   \<and> dget (dict_pop (example_row ''ticks'' 2) ''_table'') ''symbol'' = PStr ''BTC''"
proof -
  let ?st = "snd (it_ingest [example_row ''ticks'' 1, example_row ''ticks'' 2] inmem_ts_init)"
  let ?r = "dict_pop (example_row ''ticks'' 2) ''_table''"
  have rows: "table_rows ?st (PStr ''ticks'') =
      [dict_pop (example_row ''ticks'' 1) ''_table'', ?r]"
    by (simp add: it_ingest_def thenM_apply returnM_def it_ingest_row_def Let_def example_row_def
        default_table_def table_rows_def inmem_ts_init_def)
  have "it_latest null_lib ''BTC'' ?st = (Inr (Some ?r), ?st)"
    by (simp add: it_latest_def rows newest_row_def of_symbol_def)
       (simp add: example_row_def ts_key_def parse_ts_def dict_pop_def dget_def instant_def utc_datetime_def as_utc_def)
  from latest_is_newest [OF this] this show ?thesis by simp
qed

lemma window_rows_props:
  "window_rows lib symbol lo hi rows = Inr rs \<Longrightarrow> x \<in> set rs \<Longrightarrow>
     x \<in> set rows \<and> dget x ''symbol'' = PStr symbol \<and>
     (\<exists>d. parse_ts lib (dget x ''ts'') = Inr (Some d) \<and> lo \<le> instant d \<and> instant d \<le> hi)"
proof (induction rows arbitrary: rs)
  case (Cons r rows)
  then show ?case
    by (auto split: if_splits sum.splits option.splits)
qed simp

lemma sorted_slice_last: "sorted xs \<Longrightarrow> sorted (slice_last n xs)"
  by (simp add: slice_last_def sorted_wrt_drop)

lemma map_slice_last: "map f (slice_last n xs) = slice_last n (map f xs)"
  by (simp add: slice_last_def drop_map)

text \<open>
  a bounded history: asked for the last \<open>n\<close> rows of a window, the in-memory store answers
  at most \<open>n\<close> ticks of the symbol, all inside the window and in ascending time, and none when
  \<open>n\<close> is not positive; they are the newest ones: every tick of the window it leaves out is no
  newer than any it returns.
\<close>

theorem history_bounded:
  assumes "it_history lib symbol frm until (Some n) st = (Inr rows, st')"
    and "window_rows lib symbol (instant (as_utc frm)) (instant (as_utc until)) (table_rows st (PStr ''ticks'')) = Inr win"
  shows "st' = st \<and> length rows = min (nat n) (length win) \<and>
    sorted (map (\<lambda>r. case ts_key lib r of Inr k \<Rightarrow> k | Inl _ \<Rightarrow> 0) rows) \<and>
    (\<forall>r \<in> set rows. dget r ''symbol'' = PStr symbol \<and>
       (\<exists>d. parse_ts lib (dget r ''ts'') = Inr (Some d) \<and> instant frm \<le> instant d \<and> instant d \<le> instant until)) \<and>
    (\<exists>older. mset win = mset older + mset rows \<and>
       (\<forall>x \<in> set older. \<forall>r \<in> set rows. \<exists>k k'. ts_key lib x = Inr k \<and> ts_key lib r = Inr k' \<and> k \<le> k'))"
proof (cases "n \<le> 0")
  case True
  then have "rows = []" "st' = st" using assms by (auto simp: it_history_def)
  then show ?thesis using True by (auto intro: exI [of _ win])
next
  case False
  obtain ks where ks: "map_result (ts_key lib) win = Inr ks"
    using assms False by (auto simp: it_history_def split: sum.splits)
  let ?s = "sort_key snd ks"
  have rows: "rows = slice_last n (map fst ?s)" and st: "st' = st"
    using assms False ks by (auto simp: it_history_def)
  have key: "ts_key lib (fst p) = Inr (snd p)" if "p \<in> set ?s" for p
    using map_result_snd [OF ks] that by simp
  have vals: "map (\<lambda>r. case ts_key lib r of Inr k \<Rightarrow> k | Inl _ \<Rightarrow> 0) (map fst ?s) = map snd ?s"
    using key by simp
  have sorted: "sorted (map snd ?s)" by simp
  have len: "length rows = min (nat n) (length win)"
    using False map_result_fst [OF ks] by (auto simp: rows length_slice_last)
  have asc: "sorted (map (\<lambda>r. case ts_key lib r of Inr k \<Rightarrow> k | Inl _ \<Rightarrow> 0) rows)"
    unfolding rows map_slice_last vals by (rule sorted_slice_last [OF sorted])
  have win: "set rows \<subseteq> set win"
    using set_slice_last [of n "map fst ?s"] map_result_fst [OF ks] by (auto simp: rows)
  let ?cut = "length ?s - nat n"
  have split: "?s = take ?cut ?s @ drop ?cut ?s" by simp
  have rows': "rows = map fst (drop ?cut ?s)" using False by (simp add: rows slice_last_def drop_map)
  have mset: "mset win = mset (map fst (take ?cut ?s)) + mset rows"
  proof -
    have "mset win = mset (map fst ?s)" using map_result_fst [OF ks] by (metis mset_map mset_sort)
    also have "\<dots> = mset (map fst (take ?cut ?s)) + mset (map fst (drop ?cut ?s))"
      by (metis split map_append mset_append)
    finally show ?thesis using rows' by simp
  qed
  have older: "\<exists>k k'. ts_key lib x = Inr k \<and> ts_key lib r = Inr k' \<and> k \<le> k'"
    if xr: "x \<in> set (map fst (take ?cut ?s))" "r \<in> set rows" for x r
  proof -
    obtain p p' where p: "p \<in> set (take ?cut ?s)" "x = fst p" and p': "p' \<in> set (drop ?cut ?s)" "r = fst p'"
      using xr rows' by auto
    have "sorted (map snd (take ?cut ?s) @ map snd (drop ?cut ?s))"
      using sorted split by (metis map_append)
    then have "snd p \<le> snd p'" using p p' by (auto simp: sorted_append)
    then show ?thesis using key p p' by (metis in_set_takeD in_set_dropD)
  qed
  show ?thesis
    using st len asc win window_rows_props [OF assms(2)] mset older
    by (auto simp del: set_map mset_map)
qed

definition rows_of :: "(pyval, pydict list) dict \<Rightarrow> pyval \<Rightarrow> pydict list" where
  "rows_of g t = (case map_of g t of None \<Rightarrow> [] | Some rs \<Rightarrow> rs)"

lemma group_row_rows:
  "rows_of (group_row g row) t =
     rows_of g t @ (if default_table row = t then [dict_pop row ''_table''] else [])"
  by (simp add: rows_of_def group_row_def Let_def)

lemma fold_group_rows:
  "rows_of (foldl group_row g rows) t =
     rows_of g t @ map (\<lambda>r. dict_pop r ''_table'') (filter (\<lambda>r. default_table r = t) rows)"
  by (induction rows arbitrary: g) (simp_all add: group_row_rows)

lemma fold_group_ok: "dict_ok g \<Longrightarrow> dict_ok (foldl group_row g rows)"
  by (induction rows arbitrary: g) (simp_all add: group_row_def Let_def)

lemma fold_group_keys:
  "fst ` set (foldl group_row g rows) = fst ` set g \<union> set (map default_table rows)"
  by (induction rows arbitrary: g) (auto simp: group_row_def Let_def)

text \<open>
  Druid is sent every row once: an ingest builds one specification per table that the
  rows name, no table has two, and the rows of a table's specification are exactly the rows
  meant for it, in order and without their routing field, which is what the in-memory store
  appends to that table.
\<close>

theorem specs_partition_rows:
  "distinct (map fst (group_rows rows)) \<and>
   set (map fst (group_rows rows)) = set (map default_table rows) \<and>
   build_ingest_specs dumps rows = map (ingest_spec dumps) (group_rows rows) \<and>
   ((t, rs) \<in> set (group_rows rows) \<longrightarrow>
      rs = map (\<lambda>r. dict_pop r ''_table'') (filter (\<lambda>r. default_table r = t) rows))"
proof -
  have ok: "dict_ok (group_rows rows)"
    unfolding group_rows_def by (rule fold_group_ok) (simp add: dict_ok_def)
  have "rs = map (\<lambda>r. dict_pop r ''_table'') (filter (\<lambda>r. default_table r = t) rows)"
    if "(t, rs) \<in> set (group_rows rows)"
  proof -
    have "map_of (group_rows rows) t = Some rs"
      using ok that by (simp add: dict_ok_def)
    then have "rows_of (group_rows rows) t = rs" by (simp add: rows_of_def)
    then show ?thesis
      using fold_group_rows [of "[]" rows t] by (simp add: group_rows_def rows_of_def)
  qed
  then show ?thesis
    using ok fold_group_keys [of "[]" rows]
    by (simp add: dict_ok_def build_ingest_specs_def group_rows_def)
qed

theorem specs_partition_rows_witness:
  "group_rows [example_row ''ticks'' 1, example_row ''indicators'' 2]
     = [(PStr ''ticks'', [dict_pop (example_row ''ticks'' 1) ''_table'']),
        (PStr ''indicators'', [dict_pop (example_row ''indicators'' 2) ''_table''])]
   \<and> [dict_pop (example_row ''indicators'' 2) ''_table''] =
       map (\<lambda>r. dict_pop r ''_table'') (filter (\<lambda>r. default_table r = PStr ''indicators'')
         [example_row ''ticks'' 1, example_row ''indicators'' 2])"
proof -
  have g: "group_rows [example_row ''ticks'' 1, example_row ''indicators'' 2]
     = [(PStr ''ticks'', [dict_pop (example_row ''ticks'' 1) ''_table'']),
        (PStr ''indicators'', [dict_pop (example_row ''indicators'' 2) ''_table''])]"
    by (simp add: group_rows_def group_row_def Let_def default_table_def example_row_def)
  show ?thesis
    using specs_partition_rows [of "[example_row ''ticks'' 1, example_row ''indicators'' 2]" undefined
        "PStr ''indicators''" "[dict_pop (example_row ''indicators'' 2) ''_table'']"] g
    by simp
qed

definition example_store :: inmem_ts where
  "example_store = snd (it_ingest [example_row ''ticks'' 2, example_row ''ticks'' 1] inmem_ts_init)"

lemma example_store_rows:
  "table_rows example_store (PStr ''ticks'') =
     [dict_pop (example_row ''ticks'' 2) ''_table'', dict_pop (example_row ''ticks'' 1) ''_table'']"
  by (simp add: example_store_def it_ingest_def thenM_apply returnM_def it_ingest_row_def Let_def
      example_row_def default_table_def table_rows_def inmem_ts_init_def)

theorem history_bounded_witness:
  "fst (it_history null_lib ''BTC'' (utc_datetime 0) (utc_datetime 5) (Some 1) example_store)
     = Inr [dict_pop (example_row ''ticks'' 2) ''_table'']
   \<and> length [dict_pop (example_row ''ticks'' 2) ''_table''] = min (nat 1) 2"
proof -
  let ?r = "\<lambda>t. dict_pop (example_row ''ticks'' t) ''_table''"
  have win: "window_rows null_lib ''BTC'' (instant (as_utc (utc_datetime 0))) (instant (as_utc (utc_datetime 5)))
      (table_rows example_store (PStr ''ticks'')) = Inr [?r 2, ?r 1]"
    unfolding example_store_rows
    by (simp add: example_row_def parse_ts_def dict_pop_def dget_def instant_def utc_datetime_def as_utc_def)
  have run: "it_history null_lib ''BTC'' (utc_datetime 0) (utc_datetime 5) (Some 1) example_store
      = (Inr [?r 2], example_store)"
    unfolding it_history_def win
    by (simp add: ts_key_def example_row_def parse_ts_def dict_pop_def dget_def instant_def
        utc_datetime_def as_utc_def slice_last_def)
  from history_bounded [OF run win] run show ?thesis by simp
qed

end
