(* ===== verification/Cache.thy ===== *)
theory Cache
  imports PyVal "HOL-Library.List_Lexorder" "HOL-Library.Char_ord"
begin

text \<open>
  The cache port of \<open>libs/common/redis_client.py\<close>: the key namespaces shared by the
  services, \<open>InMemoryCache\<close> with its time-to-live bookkeeping over an injected clock, and
  \<open>RedisCache\<close> over the operations of the Redis client and of the JSON codec, which are
  parameters.  The locale \<open>cache\<close> states what a service may rely on; \<open>InMemoryCache\<close>
  keeps it.
\<close>

section \<open>Keys\<close>

definition IDEMPOTENCY_TTL_SECONDS :: int where "IDEMPOTENCY_TTL_SECONDS = 24 * 60 * 60"

definition SNAPSHOT_PREFIX :: string where "SNAPSHOT_PREFIX = ''snapshot''"
definition SEEN_PREFIX :: string where "SEEN_PREFIX = ''seen''"
definition HISTORY_PREFIX :: string where "HISTORY_PREFIX = ''history''"

definition snapshot_key :: "string \<Rightarrow> string" where
  "snapshot_key symbol = SNAPSHOT_PREFIX @ '':'' @ symbol"

definition seen_key :: "string \<Rightarrow> string" where
  "seen_key key = SEEN_PREFIX @ '':'' @ key"

definition history_key :: "string \<Rightarrow> string" where
  "history_key symbol = HISTORY_PREFIX @ '':'' @ symbol"

lemmas cache_key_defs = snapshot_key_def seen_key_def history_key_def
  SNAPSHOT_PREFIX_def SEEN_PREFIX_def HISTORY_PREFIX_def

text \<open>\<open>s.removeprefix(p)\<close>.\<close>

definition remove_prefix :: "string \<Rightarrow> string \<Rightarrow> string" where
  "remove_prefix p s = (if starts_with p s then drop (length p) s else s)"

lemma cache_key_eq_iff [simp]:
  "snapshot_key a = snapshot_key b \<longleftrightarrow> a = b" "seen_key a = seen_key b \<longleftrightarrow> a = b"
  "history_key a = history_key b \<longleftrightarrow> a = b"
  by (simp_all add: cache_key_defs)

lemma cache_key_disjoint [simp]:
  "snapshot_key a \<noteq> seen_key b" "seen_key b \<noteq> snapshot_key a"
  "snapshot_key a \<noteq> history_key b" "history_key b \<noteq> snapshot_key a"
  "seen_key a \<noteq> history_key b" "history_key b \<noteq> seen_key a"
  by (simp_all add: cache_key_defs)

section \<open>The protocol\<close>

record 'c cache_ops =
  cache_get :: "string \<Rightarrow> ('c, pyval) pm"
  cache_set :: "string \<Rightarrow> pyval \<Rightarrow> int option \<Rightarrow> ('c, unit) pm"
  cache_set_if_absent :: "string \<Rightarrow> pyval \<Rightarrow> int option \<Rightarrow> ('c, bool) pm"
  cache_delete :: "string \<Rightarrow> ('c, unit) pm"
  cache_set_snapshot :: "string \<Rightarrow> pydict \<Rightarrow> ('c, unit) pm"
  cache_get_snapshot :: "string \<Rightarrow> ('c, pyval) pm"
  cache_list_snapshot_symbols :: "('c, string list) pm"
  cache_seen :: "string \<Rightarrow> ('c, bool) pm"
  cache_append_history :: "string \<Rightarrow> pydict \<Rightarrow> int \<Rightarrow> ('c, unit) pm"
  cache_get_history :: "string \<Rightarrow> ('c, pyval list) pm"

text \<open>\<open>list(history) if isinstance(history, list) else []\<close>.\<close>

definition history_rows :: "pyval \<Rightarrow> pyval list" where
  "history_rows v = (case v of PList rows \<Rightarrow> rows | _ \<Rightarrow> [])"

lemma history_rows_PList [simp]: "history_rows (PList rows) = rows" "history_rows PNone = []"
  by (simp_all add: history_rows_def)

section \<open>InMemoryCache\<close>

record inmem_cache =
  c_store :: "(string, pyval) dict"
  c_expiry :: "string \<Rightarrow> real option"
  c_seen_keys :: "string set"
  c_clock :: clock

definition inmem_cache_init :: "clock \<Rightarrow> inmem_cache" where
  "inmem_cache_init clk = \<lparr>c_store = [], c_expiry = (\<lambda>_. None), c_seen_keys = {}, c_clock = clk\<rparr>"

text \<open>\<open>_is_expired\<close>: the clock is read only when the key has an expiry.\<close>

definition is_expired :: "string \<Rightarrow> inmem_cache \<Rightarrow> bool \<times> inmem_cache" where
  "is_expired key c =
     (case c_expiry c key of
        None \<Rightarrow> (False, c)
      | Some t \<Rightarrow> (let (now, clk) = read_clock (c_clock c) in (now > t, c\<lparr>c_clock := clk\<rparr>)))"

definition forget :: "string \<Rightarrow> inmem_cache \<Rightarrow> inmem_cache" where
  "forget key c = c\<lparr>c_store := dict_pop (c_store c) key, c_expiry := (c_expiry c)(key := None)\<rparr>"

definition ic_get :: "string \<Rightarrow> (inmem_cache, pyval) pm" where
  "ic_get key = (\<lambda>c. case is_expired key c of
       (True, c') \<Rightarrow> (Inr PNone, forget key c')
     | (False, c') \<Rightarrow> (Inr (dget (c_store c') key), c'))"

definition ic_set :: "string \<Rightarrow> pyval \<Rightarrow> int option \<Rightarrow> (inmem_cache, unit) pm" where
  "ic_set key value ttl = (\<lambda>c.
     (let c1 = c\<lparr>c_store := dict_set (c_store c) key value\<rparr> in
      case ttl of
        Some n \<Rightarrow> (let (now, clk) = read_clock (c_clock c1)
                   in (Inr (), c1\<lparr>c_clock := clk, c_expiry := (c_expiry c1)(key \<mapsto> now + of_int n)\<rparr>))
      | None \<Rightarrow> (Inr (), c1\<lparr>c_expiry := (c_expiry c1)(key := None)\<rparr>)))"

definition ic_set_if_absent :: "string \<Rightarrow> pyval \<Rightarrow> int option \<Rightarrow> (inmem_cache, bool) pm" where
  "ic_set_if_absent key value ttl = (\<lambda>c.
     (let (gone, c1) = is_expired key c;
          c2 = (if gone then forget key c1 else c1)
      in if map_of (c_store c2) key \<noteq> None then (Inr False, c2)
         else thenM (ic_set key value ttl) (returnM True) c2))"

definition ic_delete :: "string \<Rightarrow> (inmem_cache, unit) pm" where
  "ic_delete key = modifyM (forget key)"

definition ic_set_snapshot :: "string \<Rightarrow> pydict \<Rightarrow> (inmem_cache, unit) pm" where
  "ic_set_snapshot symbol data = ic_set (snapshot_key symbol) (PDict data) None"

definition ic_get_snapshot :: "string \<Rightarrow> (inmem_cache, pyval) pm" where
  "ic_get_snapshot symbol = ic_get (snapshot_key symbol)"

fun snapshot_symbols_loop :: "string list \<Rightarrow> string list \<Rightarrow> (inmem_cache, string list) pm" where
  "snapshot_symbols_loop [] acc = returnM acc"
| "snapshot_symbols_loop (key # keys) acc =
     (if \<not> starts_with (SNAPSHOT_PREFIX @ '':'') key then snapshot_symbols_loop keys acc
      else bindM (ic_get key) (\<lambda>v.
        if v = PNone then snapshot_symbols_loop keys acc
        else (let symbol = remove_prefix (SNAPSHOT_PREFIX @ '':'') key
              in snapshot_symbols_loop keys (if symbol \<noteq> [] then acc @ [symbol] else acc))))"

definition ic_list_snapshot_symbols :: "(inmem_cache, string list) pm" where
  "ic_list_snapshot_symbols =
     bindM (getM (\<lambda>c. map fst (c_store c))) (\<lambda>keys.
     bindM (snapshot_symbols_loop keys []) (\<lambda>symbols. returnM (sort symbols)))"

definition ic_seen :: "string \<Rightarrow> (inmem_cache, bool) pm" where
  "ic_seen key = (\<lambda>c.
     if key \<in> c_seen_keys c then (Inr True, c)
     else (Inr False, c\<lparr>c_seen_keys := insert key (c_seen_keys c)\<rparr>))"

definition ic_append_history :: "string \<Rightarrow> pydict \<Rightarrow> int \<Rightarrow> (inmem_cache, unit) pm" where
  "ic_append_history symbol row max_rows =
     bindM (ic_get (history_key symbol)) (\<lambda>history.
       ic_set (history_key symbol)
         (PList (slice_last max_rows (history_rows history @ [PDict row]))) None)"

definition ic_get_history :: "string \<Rightarrow> (inmem_cache, pyval list) pm" where
  "ic_get_history symbol =
     bindM (ic_get (history_key symbol)) (\<lambda>history. returnM (history_rows history))"

definition inmem_cache_ops :: "inmem_cache cache_ops" where
  "inmem_cache_ops =
     \<lparr>cache_get = ic_get, cache_set = ic_set, cache_set_if_absent = ic_set_if_absent,
      cache_delete = ic_delete, cache_set_snapshot = ic_set_snapshot,
      cache_get_snapshot = ic_get_snapshot,
      cache_list_snapshot_symbols = ic_list_snapshot_symbols, cache_seen = ic_seen,
      cache_append_history = ic_append_history, cache_get_history = ic_get_history\<rparr>"

lemma inmem_cache_ops_sel [simp]:
  "cache_get inmem_cache_ops = ic_get" "cache_set inmem_cache_ops = ic_set"
  "cache_set_if_absent inmem_cache_ops = ic_set_if_absent" "cache_delete inmem_cache_ops = ic_delete"
  "cache_set_snapshot inmem_cache_ops = ic_set_snapshot"
  "cache_get_snapshot inmem_cache_ops = ic_get_snapshot"
  "cache_list_snapshot_symbols inmem_cache_ops = ic_list_snapshot_symbols"
  "cache_seen inmem_cache_ops = ic_seen" "cache_append_history inmem_cache_ops = ic_append_history"
  "cache_get_history inmem_cache_ops = ic_get_history"
  by (simp_all add: inmem_cache_ops_def)

section \<open>What is visible in the cache\<close>

text \<open>
  \<open>lookup c k\<close> is the value a read of \<open>k\<close> would find now: stored, and not past its expiry
  at the clock's next reading.  \<open>persistent c\<close> are the keys stored without expiry.
\<close>

definition lookup :: "inmem_cache \<Rightarrow> string \<Rightarrow> pyval option" where
  "lookup c k = (case c_expiry c k of
       Some t \<Rightarrow> (if ticks (c_clock c) (reads (c_clock c)) > t then None else map_of (c_store c) k)
     | None \<Rightarrow> map_of (c_store c) k)"

definition persistent :: "inmem_cache \<Rightarrow> string set" where
  "persistent c = {k. c_expiry c k = None \<and> map_of (c_store c) k \<noteq> None}"

definition cache_inv :: "inmem_cache \<Rightarrow> bool" where
  "cache_inv c \<longleftrightarrow> monotone_clock (c_clock c) \<and> dict_ok (c_store c)"

definition found :: "pyval option \<Rightarrow> pyval" where
  "found x = (case x of None \<Rightarrow> PNone | Some v \<Rightarrow> v)"

lemma found_simps [simp]: "found None = PNone" "found (Some v) = v"
  by (simp_all add: found_def)

lemma persistent_lookup: "k \<in> persistent c \<Longrightarrow> lookup c k = map_of (c_store c) k \<and> lookup c k \<noteq> None"
  by (simp add: persistent_def lookup_def)

text \<open>Later readings of a monotone clock see less.\<close>

lemma lookup_later:
  assumes "monotone_clock (c_clock c)" "ticks (c_clock c') = ticks (c_clock c)"
    "reads (c_clock c) \<le> reads (c_clock c')" "c_expiry c' = c_expiry c" "c_store c' = c_store c"
  shows "lookup c' \<subseteq>\<^sub>m lookup c"
  using monoD [of "ticks (c_clock c)" "reads (c_clock c)" "reads (c_clock c')"] assms
  by (auto simp: lookup_def map_le_def monotone_clock_def split: option.splits if_splits)

lemma is_expired_iff: "fst (is_expired k c) \<longleftrightarrow> lookup c k = None \<and> c_expiry c k \<noteq> None \<and>
    (\<exists>t. c_expiry c k = Some t \<and> ticks (c_clock c) (reads (c_clock c)) > t)"
  by (auto simp: is_expired_def lookup_def read_clock_def split: option.split)

lemma is_expired_frame [simp]:
  "c_store (snd (is_expired k c)) = c_store c" "c_expiry (snd (is_expired k c)) = c_expiry c"
  "c_seen_keys (snd (is_expired k c)) = c_seen_keys c"
  "ticks (c_clock (snd (is_expired k c))) = ticks (c_clock c)"
  "reads (c_clock c) \<le> reads (c_clock (snd (is_expired k c)))"
  by (auto simp: is_expired_def read_clock_def split: option.split)

lemma lookup_not_expired: "\<not> fst (is_expired k c) \<Longrightarrow> lookup c k = map_of (c_store c) k"
  by (auto simp: is_expired_def lookup_def read_clock_def split: option.splits)

lemma lookup_expired: "fst (is_expired k c) \<Longrightarrow> lookup c k = None"
  by (simp add: is_expired_iff)

lemma forget_frame [simp]:
  "c_store (forget k c) = dict_pop (c_store c) k" "c_expiry (forget k c) = (c_expiry c)(k := None)"
  "c_clock (forget k c) = c_clock c" "c_seen_keys (forget k c) = c_seen_keys c"
  by (simp_all add: forget_def)

lemma lookup_forget [simp]: "lookup (forget k c) = (lookup c)(k := None)"
  by (auto simp: lookup_def fun_eq_iff split: option.split)

lemma persistent_forget [simp]: "persistent (forget k c) = persistent c - {k}"
  by (auto simp: persistent_def)

lemma cache_inv_expired: "cache_inv c \<Longrightarrow> cache_inv (snd (is_expired k c))"
  by (simp add: cache_inv_def monotone_clock_def)

lemma cache_inv_forget: "cache_inv c \<Longrightarrow> cache_inv (forget k c)"
  by (simp add: cache_inv_def)

lemma lookup_after_expired:
  assumes "cache_inv c"
  shows "lookup (snd (is_expired k c)) \<subseteq>\<^sub>m lookup c"
  using assms by (intro lookup_later) (simp_all add: cache_inv_def)

lemma persistent_is_expired [simp]: "persistent (snd (is_expired k c)) = persistent c"
  by (simp add: persistent_def)

text \<open>The four primitive operations in terms of what is visible.\<close>

lemma ic_get_eq:
  "ic_get k c = (Inr (found (lookup c k)),
     if fst (is_expired k c) then forget k (snd (is_expired k c)) else snd (is_expired k c))"
proof (cases "fst (is_expired k c)")
  case True
  then show ?thesis
    by (auto simp: ic_get_def split_beta lookup_expired split: prod.split)
next
  case False
  then show ?thesis
    by (auto simp: ic_get_def lookup_not_expired [OF False] dget_def dget_or_def found_def
        split: prod.split bool.split)
       (metis fst_conv is_expired_frame(1) snd_conv)+
qed

lemma ic_get_inv: "cache_inv c \<Longrightarrow> cache_inv (snd (ic_get k c))"
  by (simp add: ic_get_eq cache_inv_forget cache_inv_expired)

lemma map_le_upd_None [intro]: "m \<subseteq>\<^sub>m m' \<Longrightarrow> m(k := None) \<subseteq>\<^sub>m m'"
  by (auto simp: map_le_def)

lemma ic_get_lookup:
  "cache_inv c \<Longrightarrow> lookup (snd (ic_get k c)) \<subseteq>\<^sub>m lookup c"
  by (auto simp: ic_get_eq lookup_after_expired)

lemma ic_get_persistent: "persistent (snd (ic_get k c)) = persistent c"
proof (cases "fst (is_expired k c)")
  case True
  then have "k \<notin> persistent c" by (auto simp: is_expired_iff persistent_def)
  then show ?thesis using True by (simp add: ic_get_eq)
qed (simp add: ic_get_eq)

lemma ic_set_fst [simp]: "fst (ic_set k v ttl c) = Inr ()"
  by (simp add: ic_set_def Let_def read_clock_def split: option.split)

lemma ic_set_inv: "cache_inv c \<Longrightarrow> cache_inv (snd (ic_set k v ttl c))"
  by (simp add: ic_set_def Let_def read_clock_def cache_inv_def monotone_clock_def split: option.split)

lemma ic_set_frame [simp]:
  "c_store (snd (ic_set k v ttl c)) = dict_set (c_store c) k v"
  "c_seen_keys (snd (ic_set k v ttl c)) = c_seen_keys c"
  "c_expiry (snd (ic_set k v None c)) = (c_expiry c)(k := None)"
  "c_clock (snd (ic_set k v None c)) = c_clock c"
  "ticks (c_clock (snd (ic_set k v ttl c))) = ticks (c_clock c)"
  "reads (c_clock c) \<le> reads (c_clock (snd (ic_set k v ttl c)))"
  by (simp_all add: ic_set_def Let_def read_clock_def split: option.split)

lemma ic_set_expiry:
  "c_expiry (snd (ic_set k v (Some n) c)) =
     (c_expiry c)(k \<mapsto> ticks (c_clock c) (reads (c_clock c)) + of_int n)"
  by (simp add: ic_set_def Let_def read_clock_def)

lemma ic_set_lookup_None: "lookup (snd (ic_set k v None c)) = (lookup c)(k \<mapsto> v)"
  by (auto simp: lookup_def fun_eq_iff split: option.split)

lemma ic_set_lookup:
  assumes "cache_inv c"
  shows "lookup (snd (ic_set k v ttl c)) \<subseteq>\<^sub>m (lookup c)(k \<mapsto> v)"
proof (cases ttl)
  case None
  then show ?thesis by (simp add: ic_set_lookup_None)
next
  case (Some n)
  have mono: "ticks (c_clock c) (reads (c_clock c)) \<le> ticks (c_clock c) (reads (c_clock (snd (ic_set k v ttl c))))"
    using assms ic_set_frame(6) [of c k v ttl] by (auto simp: cache_inv_def monotone_clock_def monoD)
  then show ?thesis
    using Some by (auto simp: lookup_def map_le_def ic_set_expiry split: option.splits if_splits)
qed

lemma ic_set_persistent:
  "persistent (snd (ic_set k v ttl c)) = (if ttl = None then insert k (persistent c) else persistent c - {k})"
  by (cases ttl) (auto simp: persistent_def ic_set_expiry)

lemma ic_set_if_absent_eq:
  "ic_set_if_absent k v ttl c =
     (let c1 = snd (ic_get k c) in
      if lookup c k \<noteq> None then (Inr False, c1) else (Inr True, snd (ic_set k v ttl c1)))"
proof -
  obtain g c1 where e: "is_expired k c = (g, c1)" by (cases "is_expired k c")
  note frame = is_expired_frame(1-4) [of k c, unfolded e snd_conv]
  show ?thesis
    using lookup_expired [of k c] lookup_not_expired [of k c]
    by (cases g) (simp_all add: ic_set_if_absent_def ic_get_eq e Let_def pm_simps frame)
qed

section \<open>The contract of a cache\<close>

text \<open>
  \<open>look\<close> is what a read would return, \<open>keep\<close> the keys that no passing of time removes.
  A read may only lose keys outside \<open>keep\<close>; a write without expiry is kept until the key
  is written or deleted again; \<open>set_if_absent\<close> writes exactly when nothing is found.
\<close>

locale cache =
  fixes ops :: "'c cache_ops"
    and look :: "'c \<Rightarrow> string \<Rightarrow> pyval option"
    and keep :: "'c \<Rightarrow> string set"
    and cinv :: "'c \<Rightarrow> bool"
  assumes keep_law: "cinv c \<Longrightarrow> k \<in> keep c \<Longrightarrow> look c k \<noteq> None"
    and get_law: "cinv c \<Longrightarrow> cache_get ops k c = (Inr v, c') \<Longrightarrow>
      cinv c' \<and> v = found (look c k) \<and> look c' \<subseteq>\<^sub>m look c \<and> keep c' = keep c"
    and set_law: "cinv c \<Longrightarrow> cache_set ops k v ttl c = (Inr (), c') \<Longrightarrow>
      cinv c' \<and> look c' \<subseteq>\<^sub>m (look c)(k \<mapsto> v) \<and>
      keep c' = (if ttl = None then insert k (keep c) else keep c - {k})"
    and absent_law: "cinv c \<Longrightarrow> cache_set_if_absent ops k v ttl c = (Inr created, c') \<Longrightarrow>
      cinv c' \<and> created = (look c k = None) \<and>
      look c' \<subseteq>\<^sub>m (if created then (look c)(k \<mapsto> v) else look c) \<and>
      keep c' = (if created \<and> ttl = None then insert k (keep c) else keep c)"
    and delete_law: "cinv c \<Longrightarrow> cache_delete ops k c = (Inr (), c') \<Longrightarrow>
      cinv c' \<and> look c' \<subseteq>\<^sub>m (look c)(k := None) \<and> keep c' = keep c - {k}"
    and append_law: "cinv c \<Longrightarrow> cache_append_history ops s row n c = (Inr (), c') \<Longrightarrow>
      cinv c' \<and> keep c' = insert (history_key s) (keep c) \<and>
      look c' \<subseteq>\<^sub>m (look c)(history_key s \<mapsto>
        PList (slice_last n (history_rows (found (look c (history_key s))) @ [PDict row])))"
begin

lemma kept_value:
  assumes "cinv c" "k \<in> keep c" "look c \<subseteq>\<^sub>m m"
  shows "look c k = m k"
  using assms keep_law [of c k] by (auto simp: map_le_def dom_def)

text \<open>What is kept survives any read, whatever the key read.\<close>

lemma get_keeps:
  assumes "cinv c" "k' \<in> keep c" "cache_get ops k c = (Inr v, c')"
  shows "look c' k' = look c k'"
  using get_law [OF assms(1,3)] assms(2) kept_value by blast

lemma set_then_get:
  assumes "cinv c" "cache_set ops k v None c = (Inr (), c')" "cache_get ops k c' = (Inr v', c'')"
  shows "v' = v"
proof -
  note s = set_law [OF assms(1,2)]
  then have "look c' k = ((look c)(k \<mapsto> v)) k"
    using kept_value [of c' k "(look c)(k \<mapsto> v)"] by simp
  with get_law [OF _ assms(3)] s show ?thesis by simp
qed

text \<open>Of two claims of one key with no deletion in between, at most one succeeds.\<close>

lemma claim_exclusive:
  assumes "cinv c" "cache_set_if_absent ops k v None c = (Inr True, c')"
    and "cache_set_if_absent ops k v' ttl c' = (Inr b, c'')"
  shows "\<not> b"
proof -
  note l1 = absent_law [OF assms(1,2)]
  then have "k \<in> keep c'" by simp
  with l1 have "look c' k \<noteq> None" using keep_law by blast
  with absent_law [OF _ assms(3)] l1 show ?thesis by simp
qed

end

lemma ic_append_history_eq:
  "ic_append_history s row n c =
     (Inr (), snd (ic_set (history_key s)
        (PList (slice_last n (history_rows (found (lookup c (history_key s))) @ [PDict row]))) None
        (snd (ic_get (history_key s) c))))"
  by (simp add: ic_append_history_def pm_simps ic_get_eq prod_eq_iff)

lemma ic_append_history_lookup:
  assumes "cache_inv c"
  shows "lookup (snd (ic_append_history s row n c)) \<subseteq>\<^sub>m (lookup c)(history_key s \<mapsto>
      PList (slice_last n (history_rows (found (lookup c (history_key s))) @ [PDict row])))"
  using ic_get_lookup [OF assms, of "history_key s"]
  by (simp add: ic_append_history_eq ic_set_lookup_None map_le_def)

lemma ic_delete_eq: "ic_delete k c = (Inr (), forget k c)"
  by (simp add: ic_delete_def modifyM_def)

interpretation ic: cache inmem_cache_ops lookup persistent cache_inv
proof (unfold_locales, goal_cases)
  case (1 c k)
  then show ?case using persistent_lookup by blast
next
  case (2 c k v c')
  then show ?case using ic_get_inv [OF 2(1), of k] ic_get_lookup [OF 2(1), of k] ic_get_persistent [of k c]
    by (simp add: ic_get_eq)
next
  case (3 c k v ttl c')
  then have "c' = snd (ic_set k v ttl c)" by simp
  then show ?case using ic_set_inv [OF 3(1)] ic_set_lookup [OF 3(1)] ic_set_persistent by simp
next
  case (4 c k v ttl created c')
  let ?c1 = "snd (ic_get k c)"
  have inv1: "cache_inv ?c1" and le1: "lookup ?c1 \<subseteq>\<^sub>m lookup c" and p1: "persistent ?c1 = persistent c"
    using 4(1) by (simp_all add: ic_get_inv ic_get_lookup ic_get_persistent)
  have np: "lookup c k = None \<Longrightarrow> k \<notin> persistent c" using persistent_lookup by blast
  show ?case
  proof (cases "lookup c k = None")
    case True
    then have c': "created" "c' = snd (ic_set k v ttl ?c1)"
      using 4(2) by (simp_all add: ic_set_if_absent_eq Let_def)
    have "lookup c' \<subseteq>\<^sub>m (lookup c)(k \<mapsto> v)"
      using ic_set_lookup [OF inv1, of k v ttl] le1 c' by (fastforce simp: map_le_def dom_def split: if_splits)
    then show ?thesis
      using True c' ic_set_inv [OF inv1] np p1 by (simp add: ic_set_persistent)
  next
    case False
    then have "\<not> created" "c' = ?c1"
      using 4(2) by (simp_all add: ic_set_if_absent_eq Let_def)
    then show ?thesis using False inv1 le1 p1 by simp
  qed
next
  case (5 c k c')
  then show ?case by (auto simp: ic_delete_eq cache_inv_forget)
next
  case (6 c s row n c')
  then show ?case
    using ic_append_history_lookup [OF 6(1), of s row n]
    by (auto simp: ic_append_history_eq ic_set_persistent ic_get_persistent ic_set_inv ic_get_inv)
qed

section \<open>Claims over any sequence of operations\<close>

datatype cache_act =
    CGet string
  | CSet string pyval "int option"
  | CClaim string pyval "int option"
  | CDelete string
  | CSeen string
  | CAppend string pydict int

fun cache_step :: "cache_act \<Rightarrow> inmem_cache \<Rightarrow> inmem_cache" where
  "cache_step (CGet k) c = snd (ic_get k c)"
| "cache_step (CSet k v ttl) c = snd (ic_set k v ttl c)"
| "cache_step (CClaim k v ttl) c = snd (ic_set_if_absent k v ttl c)"
| "cache_step (CDelete k) c = snd (ic_delete k c)"
| "cache_step (CSeen k) c = snd (ic_seen k c)"
| "cache_step (CAppend s row n) c = snd (ic_append_history s row n c)"

definition cache_run :: "cache_act list \<Rightarrow> inmem_cache \<Rightarrow> inmem_cache" where
  "cache_run as c = fold cache_step as c"

text \<open>The operations that write or delete a key whatever it holds.\<close>

fun overwrites :: "string \<Rightarrow> cache_act \<Rightarrow> bool" where
  "overwrites k (CSet k' _ _) = (k' = k)"
| "overwrites k (CDelete k') = (k' = k)"
| "overwrites k (CAppend s _ _) = (history_key s = k)"
| "overwrites k _ = False"

text \<open>The entry of a key with its deadline, as long as the clock has not passed it.\<close>

definition holds_until :: "string \<Rightarrow> pyval \<Rightarrow> real \<Rightarrow> inmem_cache \<Rightarrow> bool" where
  "holds_until k v d c \<longleftrightarrow> (ticks (c_clock c) (reads (c_clock c)) \<le> d \<longrightarrow>
     map_of (c_store c) k = Some v \<and> c_expiry c k = Some d)"

definition clock_now :: "inmem_cache \<Rightarrow> real" where
  "clock_now c = ticks (c_clock c) (reads (c_clock c))"

lemma clock_now_later:
  "cache_inv c \<Longrightarrow> ticks (c_clock c') = ticks (c_clock c) \<Longrightarrow>
   reads (c_clock c) \<le> reads (c_clock c') \<Longrightarrow> clock_now c \<le> clock_now c'"
  by (auto simp: clock_now_def cache_inv_def monotone_clock_def monoD)

lemma ic_get_clock:
  "ticks (c_clock (snd (ic_get k c))) = ticks (c_clock c)"
  "reads (c_clock c) \<le> reads (c_clock (snd (ic_get k c)))"
  by (simp_all add: ic_get_eq)

lemma ic_get_entry:
  "map_of (c_store (snd (ic_get k c))) k' =
     (if k' = k \<and> fst (is_expired k c) then None else map_of (c_store c) k')"
  "c_expiry (snd (ic_get k c)) k' = (if k' = k \<and> fst (is_expired k c) then None else c_expiry c k')"
  by (simp_all add: ic_get_eq)

lemma ic_set_if_absent_clock:
  "ticks (c_clock (snd (ic_set_if_absent k v ttl c))) = ticks (c_clock c)"
  "reads (c_clock c) \<le> reads (c_clock (snd (ic_set_if_absent k v ttl c)))"
  using ic_get_clock(1) [of k c] ic_get_clock(2) [of c k] ic_set_frame(6) [of "snd (ic_get k c)" k v ttl]
  by (auto simp: ic_set_if_absent_eq Let_def simp del: ic_set_frame(6))

lemma cache_step_clock:
  "ticks (c_clock (cache_step a c)) = ticks (c_clock c)"
  "reads (c_clock c) \<le> reads (c_clock (cache_step a c))"
  by (cases a; simp add: ic_get_clock ic_set_if_absent_clock ic_delete_eq ic_append_history_eq ic_seen_def)+

lemma cache_step_inv: "cache_inv c \<Longrightarrow> cache_inv (cache_step a c)"
proof (cases a)
  case (CClaim k v ttl)
  assume "cache_inv c"
  then show ?thesis using CClaim by (simp add: ic_set_if_absent_eq Let_def ic_set_inv ic_get_inv)
qed (simp_all add: ic_get_inv ic_set_inv ic_delete_eq cache_inv_forget ic_append_history_eq,
     simp add: ic_seen_def cache_inv_def)

lemma ic_set_expiry_other: "k' \<noteq> k \<Longrightarrow> c_expiry (snd (ic_set k v ttl c)) k' = c_expiry c k'"
  by (cases ttl) (simp_all add: ic_set_expiry)

lemma holds_get:
  assumes "holds_until k v d c" "clock_now c \<le> d"
  shows "lookup c k = Some v" and "map_of (c_store (snd (ic_get k' c))) k = Some v"
    and "c_expiry (snd (ic_get k' c)) k = Some d"
  using assms by (auto simp: holds_until_def clock_now_def lookup_def ic_get_entry is_expired_iff)

lemma holds_step:
  assumes inv: "cache_inv c" and h: "holds_until k v d c" and no: "\<not> overwrites k a"
  shows "holds_until k v d (cache_step a c)"
  unfolding holds_until_def
proof
  assume late: "ticks (c_clock (cache_step a c)) (reads (c_clock (cache_step a c))) \<le> d"
  have live: "clock_now c \<le> d"
    using clock_now_later [OF inv cache_step_clock(1) [of a c] cache_step_clock(2) [of c a]] late by (simp add: clock_now_def)
  note here = h [unfolded holds_until_def, rule_format, OF live [unfolded clock_now_def]]
  note get = holds_get [OF h live]
  show "map_of (c_store (cache_step a c)) k = Some v \<and> c_expiry (cache_step a c) k = Some d"
  proof (cases a)
    case (CGet k')
    then show ?thesis using get by simp
  next
    case (CSet k' v' ttl)
    then show ?thesis using here no by (simp add: ic_set_expiry_other)
  next
    case (CClaim k' v' ttl)
    show ?thesis
    proof (cases "k' = k")
      case True
      then show ?thesis using get CClaim by (simp add: ic_set_if_absent_eq Let_def)
    next
      case False
      then show ?thesis using get CClaim
        by (simp add: ic_set_if_absent_eq Let_def ic_set_expiry_other)
    qed
  next
    case (CDelete k')
    then show ?thesis using here no by (simp add: ic_delete_eq)
  next
    case (CSeen k')
    then show ?thesis using here by (simp add: ic_seen_def)
  next
    case (CAppend s row n)
    then show ?thesis using get no by (auto simp: ic_append_history_eq)
  qed
qed

lemma holds_run:
  assumes "cache_inv c" "holds_until k v d c" "\<forall>a \<in> set as. \<not> overwrites k a"
  shows "cache_inv (cache_run as c) \<and> holds_until k v d (cache_run as c)"
  using assms unfolding cache_run_def
  by (induction as arbitrary: c) (auto simp: cache_step_inv holds_step)

text \<open>
  C9: a claim is exclusive until its deadline: once \<open>set_if_absent\<close> with a time-to-live has
  claimed a key, then whatever operations follow, as long as none sets or deletes that very
  key and the clock has not passed the deadline, a read returns the claimed value and every
  further claim of the key is refused.
\<close>

theorem claim_held_until_deadline:
  assumes "cache_inv c"
    and "ic_set_if_absent k v (Some n) c = (Inr True, c1)"
    and "\<forall>a \<in> set as. \<not> overwrites k a"
    and "clock_now (cache_run as c1) \<le> clock_now (snd (ic_get k c)) + of_int n"
  shows "fst (ic_get k (cache_run as c1)) = Inr v \<and>
         fst (ic_set_if_absent k w ttl (cache_run as c1)) = Inr False"
proof -
  let ?d = "clock_now (snd (ic_get k c)) + of_int n"
  have c1: "c1 = snd (ic_set k v (Some n) (snd (ic_get k c)))"
    using assms(2) by (auto simp: ic_set_if_absent_eq Let_def split: if_splits)
  have inv1: "cache_inv c1" using assms(1) by (simp add: c1 ic_set_inv ic_get_inv)
  have "holds_until k v ?d c1" by (simp add: holds_until_def c1 ic_set_expiry clock_now_def)
  from holds_get(1) [OF conjunct2 [OF holds_run [OF inv1 this assms(3)]] assms(4)]
  show ?thesis by (simp add: ic_get_eq ic_set_if_absent_eq Let_def)
qed

lemma second_clock_inv: "cache_inv (inmem_cache_init second_clock)"
  by (simp add: cache_inv_def inmem_cache_init_def second_clock_def monotone_clock_def mono_def dict_ok_def)

theorem claim_held_until_deadline_witness:
  "fst (ic_set_if_absent ''lock'' (PInt 2) None
     (cache_run [CGet ''lock'', CSet ''other'' (PInt 5) None]
       (snd (ic_set_if_absent ''lock'' (PInt 1) (Some 30) (inmem_cache_init second_clock))))) = Inr False"
proof -
  let ?c = "inmem_cache_init second_clock"
  let ?c1 = "snd (ic_set_if_absent ''lock'' (PInt 1) (Some 30) ?c)"
  have one: "ic_set_if_absent ''lock'' (PInt 1) (Some 30) ?c = (Inr True, ?c1)"
    by (simp add: ic_set_if_absent_eq Let_def lookup_def inmem_cache_init_def prod_eq_iff)
  have late: "clock_now (cache_run [CGet ''lock'', CSet ''other'' (PInt 5) None] ?c1)
      \<le> clock_now (snd (ic_get ''lock'' ?c)) + of_int 30"
    by (simp add: ic_set_if_absent_eq Let_def lookup_def inmem_cache_init_def second_clock_def clock_now_def
        cache_run_def ic_get_eq ic_set_def is_expired_def read_clock_def forget_def)
  show ?thesis
    using claim_held_until_deadline [OF second_clock_inv one _ late] by simp
qed

text \<open>
  a value stored with a time-to-live is a miss once the clock has passed its deadline,
  and the key can then be claimed again; before the deadline it is returned.
\<close>

theorem ttl_expiry:
  "let c1 = snd (ic_set k v (Some n) c) in
     fst (ic_get k c1) = Inr (if clock_now c1 > clock_now c + of_int n then PNone else v) \<and>
     fst (ic_set_if_absent k w ttl c1) = Inr (clock_now c1 > clock_now c + of_int n) \<and>
     (clock_now c1 > clock_now c + of_int n \<longrightarrow> map_of (c_store (snd (ic_get k c1))) k = None)"
  by (simp add: Let_def ic_get_eq ic_set_if_absent_eq lookup_def ic_set_expiry clock_now_def is_expired_iff)

theorem ttl_expiry_witness:
  "map_of (c_store (snd (ic_get ''lock'' (snd (ic_set ''lock'' (PInt 1) (Some 0)
     (inmem_cache_init second_clock)))))) ''lock'' = None"
proof -
  let ?c = "inmem_cache_init second_clock"
  have "clock_now (snd (ic_set ''lock'' (PInt 1) (Some 0) ?c)) > clock_now ?c + of_int 0"
    by (simp add: clock_now_def ic_set_def read_clock_def Let_def inmem_cache_init_def second_clock_def)
  with ttl_expiry [of "''lock''" "PInt 1" 0 ?c] show ?thesis by (simp add: Let_def)
qed

section \<open>History and snapshots\<close>

text \<open>
  C10: the history mirror is a sliding window: appending rows one after the other leaves the
  newest \<open>n\<close> of the rows that were there and the appended ones, in order, for a positive
  bound \<open>n\<close> and a mirror within the bound.
\<close>

theorem history_window:
  assumes "cache_inv c" "0 < n"
    and "old = history_rows (found (lookup c (history_key s)))" "length old \<le> nat n"
  shows "fst (ic_get_history s (snd (for_each (\<lambda>row. ic_append_history s row n) rows c)))
         = Inr (newest (nat n) (old @ map PDict rows))"
  using assms
proof (induction rows arbitrary: c old)
  case Nil
  then show ?case
    by (simp add: ic_get_history_def pm_simps ic_get_eq newest_def)
next
  case (Cons row rows)
  let ?c1 = "snd (ic_append_history s row n c)"
  let ?old1 = "newest (nat n) (old @ [PDict row])"
  have inv1: "cache_inv ?c1"
    using Cons.prems(1) by (simp add: ic_append_history_eq ic_set_inv ic_get_inv)
  have old1: "?old1 = history_rows (found (lookup ?c1 (history_key s)))"
    using Cons.prems(2,3) by (simp add: ic_append_history_eq ic_set_lookup_None slice_last_newest)
  have "fst (ic_get_history s (snd (for_each (\<lambda>row. ic_append_history s row n) rows ?c1)))
      = Inr (newest (nat n) (?old1 @ map PDict rows))"
    by (rule Cons.IH [OF inv1 Cons.prems(2) old1]) (simp add: length_newest)
  moreover have "newest (nat n) (?old1 @ map PDict rows) = newest (nat n) (old @ map PDict (row # rows))"
    using newest_append [of "nat n" "?old1" "map PDict rows"] newest_append [of "nat n" "old @ [PDict row]" "map PDict rows"]
    by (simp add: newest_def)
  moreover have "fst (ic_append_history s row n c) = Inr ()" by (simp add: ic_append_history_eq)
  ultimately show ?case by (simp add: thenM_apply)
qed

theorem history_window_witness:
  "fst (ic_get_history ''BTC'' (snd (for_each (\<lambda>row. ic_append_history ''BTC'' row 2)
      [[(''p'', PInt 1)], [(''p'', PInt 2)], [(''p'', PInt 3)]] (inmem_cache_init second_clock))))
   = Inr [PDict [(''p'', PInt 2)], PDict [(''p'', PInt 3)]]"
proof -
  let ?c = "inmem_cache_init second_clock"
  have "[] = history_rows (found (lookup ?c (history_key ''BTC'')))"
    by (simp add: lookup_def inmem_cache_init_def)
  from history_window [OF second_clock_inv _ this, of 2
      "[[(''p'', PInt 1)], [(''p'', PInt 2)], [(''p'', PInt 3)]]"]
  show ?thesis by (simp add: newest_def)
qed

lemma starts_with_snapshot:
  "starts_with (SNAPSHOT_PREFIX @ '':'') key \<longleftrightarrow> (\<exists>s. key = snapshot_key s)"
  by (auto simp: starts_with_iff snapshot_key_def)

lemma remove_snapshot_prefix [simp]: "remove_prefix (SNAPSHOT_PREFIX @ '':'') (snapshot_key s) = s"
  by (simp add: remove_prefix_def starts_with_iff snapshot_key_def)

definition no_snapshot_ttl :: "inmem_cache \<Rightarrow> bool" where
  "no_snapshot_ttl c \<longleftrightarrow> (\<forall>s. c_expiry c (snapshot_key s) = None)"

lemma get_without_ttl: "c_expiry c k = None \<Longrightarrow> ic_get k c = (Inr (dget (c_store c) k), c)"
  by (simp add: ic_get_def is_expired_def)

lemma symbols_loop:
  assumes "no_snapshot_ttl c"
  shows "snapshot_symbols_loop keys acc c =
    (Inr (acc @ map (remove_prefix (SNAPSHOT_PREFIX @ '':''))
       (filter (\<lambda>k. starts_with (SNAPSHOT_PREFIX @ '':'') k \<and> dget (c_store c) k \<noteq> PNone \<and>
                    remove_prefix (SNAPSHOT_PREFIX @ '':'') k \<noteq> []) keys)), c)"
proof (induction keys arbitrary: acc)
  case (Cons key keys)
  show ?case
  proof (cases "starts_with (SNAPSHOT_PREFIX @ '':'') key")
    case True
    then obtain s where "key = snapshot_key s" by (auto simp: starts_with_snapshot)
    then have "ic_get key c = (Inr (dget (c_store c) key), c)"
      using assms by (simp add: no_snapshot_ttl_def get_without_ttl)
    then show ?thesis using True by (simp add: bindM_apply Cons.IH Let_def)
  qed (simp add: Cons.IH)
qed (simp add: returnM_def)

text \<open>
  the listing of snapshot symbols: in a cache whose snapshots carry no expiry (they are
  written without one), the listing is strictly sorted, has no duplicates, and holds exactly
  the non-empty symbols whose stored snapshot is not \<open>None\<close>; it changes nothing.
\<close>

theorem snapshot_listing:
  assumes "cache_inv c" "no_snapshot_ttl c"
    and "ic_list_snapshot_symbols c = (Inr symbols, c')"
  shows "c' = c \<and> sorted symbols \<and> distinct symbols \<and>
    (s \<in> set symbols \<longleftrightarrow> s \<noteq> [] \<and> (\<exists>v. map_of (c_store c) (snapshot_key s) = Some v \<and> v \<noteq> PNone))"
proof -
  let ?P = "SNAPSHOT_PREFIX @ '':''"
  let ?keys = "filter (\<lambda>k. starts_with ?P k \<and> dget (c_store c) k \<noteq> PNone \<and> remove_prefix ?P k \<noteq> [])
      (map fst (c_store c))"
  have res: "symbols = sort (map (remove_prefix ?P) ?keys)" "c' = c"
    using assms(2,3) by (auto simp: ic_list_snapshot_symbols_def pm_simps symbols_loop)
  have dk: "distinct ?keys" using assms(1) by (simp add: cache_inv_def dict_ok_def)
  have "inj_on (remove_prefix ?P) (set ?keys)"
    by (auto simp: inj_on_def starts_with_snapshot)
  then have "distinct (map (remove_prefix ?P) ?keys)" using dk by (simp add: distinct_map)
  moreover have "s \<in> set symbols \<longleftrightarrow> s \<noteq> [] \<and> snapshot_key s \<in> fst ` set (c_store c) \<and>
      dget (c_store c) (snapshot_key s) \<noteq> PNone"
    by (force simp: res starts_with_snapshot)
  moreover have "(snapshot_key s \<in> fst ` set (c_store c) \<and> dget (c_store c) (snapshot_key s) \<noteq> PNone)
      \<longleftrightarrow> (\<exists>v. map_of (c_store c) (snapshot_key s) = Some v \<and> v \<noteq> PNone)"
    by (cases "map_of (c_store c) (snapshot_key s)")
       (auto simp: dget_def dget_or_def map_of_eq_None_iff dest: map_of_SomeD intro: rev_image_eqI)
  ultimately show ?thesis by (auto simp: res)
qed

theorem snapshot_listing_witness:
  "fst (ic_list_snapshot_symbols (snd (ic_set_snapshot ''BTC'' [(''price'', PInt 1)]
     (inmem_cache_init second_clock)))) = Inr [''BTC''] \<and> ''BTC'' \<in> set [''BTC'']"
proof -
  let ?c = "snd (ic_set_snapshot ''BTC'' [(''price'', PInt 1)] (inmem_cache_init second_clock))"
  have inv: "cache_inv ?c" by (simp add: ic_set_snapshot_def ic_set_inv second_clock_inv)
  have ttl: "no_snapshot_ttl ?c"
    by (simp add: no_snapshot_ttl_def ic_set_snapshot_def inmem_cache_init_def)
  have run: "ic_list_snapshot_symbols ?c = (Inr [''BTC''], ?c)"
    by (simp add: ic_list_snapshot_symbols_def pm_simps symbols_loop [OF ttl])
       (simp add: ic_set_snapshot_def inmem_cache_init_def starts_with_snapshot dget_def)
  show ?thesis using snapshot_listing [OF inv ttl run, of "''BTC''"] run by simp
qed

section \<open>RedisCache\<close>

text \<open>
  The commands of \<open>redis.asyncio\<close> the cache issues and the JSON codec: \<open>rd_set key value ex
  nx\<close> answers whether the key was set.  \<open>rd_scan\<close> lists the keys under a prefix.
\<close>

record 'r redis_client =
  rd_get :: "string \<Rightarrow> ('r, string option) pm"
  rd_set :: "string \<Rightarrow> string \<Rightarrow> int option \<Rightarrow> bool \<Rightarrow> ('r, bool) pm"
  rd_setex :: "string \<Rightarrow> int \<Rightarrow> string \<Rightarrow> ('r, unit) pm"
  rd_delete :: "string \<Rightarrow> ('r, unit) pm"
  rd_scan :: "string \<Rightarrow> ('r, string list) pm"

text \<open>
  \<open>json.dumps\<close> raises on a value that is not JSON.  \<open>json.loads\<close> reads a value, or fails
  with one of the two decoding errors (\<open>UnicodeDecodeError\<close>, \<open>JSONDecodeError\<close>), or raises
  something else (\<open>RecursionError\<close> on deeply nested text).
\<close>

datatype loaded = Loaded pyval | Undecodable | LoadRaises exn

record json_codec =
  json_dumps :: "pyval \<Rightarrow> string result"
  json_parse :: "string \<Rightarrow> loaded"

definition encode_cache_value :: "json_codec \<Rightarrow> pyval \<Rightarrow> string result" where
  "encode_cache_value js v = json_dumps js v"

text \<open>An undecodable payload is a miss (after a warning); any other exception passes.\<close>

definition decode_cache_value :: "json_codec \<Rightarrow> string \<Rightarrow> pyval result" where
  "decode_cache_value js raw =
     (case json_parse js raw of
        Loaded v \<Rightarrow> Inr v
      | Undecodable \<Rightarrow> Inr PNone
      | LoadRaises e \<Rightarrow> Inl e)"

definition rc_get :: "'r redis_client \<Rightarrow> json_codec \<Rightarrow> string \<Rightarrow> ('r, pyval) pm" where
  "rc_get cl js key = bindM (rd_get cl key) (\<lambda>raw.
     case raw of None \<Rightarrow> returnM PNone | Some r \<Rightarrow> liftR (decode_cache_value js r))"

definition rc_set :: "'r redis_client \<Rightarrow> json_codec \<Rightarrow> string \<Rightarrow> pyval \<Rightarrow> int option \<Rightarrow> ('r, unit) pm" where
  "rc_set cl js key v ttl =
     bindM (liftR (encode_cache_value js v)) (\<lambda>serialised.
     case ttl of
       Some n \<Rightarrow> rd_setex cl key n serialised
     | None \<Rightarrow> thenM (rd_set cl key serialised None False) (returnM ()))"

definition rc_set_if_absent ::
  "'r redis_client \<Rightarrow> json_codec \<Rightarrow> string \<Rightarrow> pyval \<Rightarrow> int option \<Rightarrow> ('r, bool) pm" where
  "rc_set_if_absent cl js key v ttl =
     bindM (liftR (encode_cache_value js v)) (\<lambda>serialised. rd_set cl key serialised ttl True)"

definition rc_list_snapshot_symbols :: "'r redis_client \<Rightarrow> ('r, string list) pm" where
  "rc_list_snapshot_symbols cl =
     bindM (rd_scan cl (SNAPSHOT_PREFIX @ '':'')) (\<lambda>keys.
       returnM (sort (filter (\<lambda>s. s \<noteq> []) (map (remove_prefix (SNAPSHOT_PREFIX @ '':'')) keys))))"

definition rc_seen :: "'r redis_client \<Rightarrow> string \<Rightarrow> ('r, bool) pm" where
  "rc_seen cl key =
     bindM (rd_set cl (seen_key key) ''1'' (Some IDEMPOTENCY_TTL_SECONDS) True) (\<lambda>created.
       returnM (\<not> created))"

definition rc_append_history ::
  "'r redis_client \<Rightarrow> json_codec \<Rightarrow> string \<Rightarrow> pydict \<Rightarrow> int \<Rightarrow> ('r, unit) pm" where
  "rc_append_history cl js symbol row max_rows =
     bindM (rc_get cl js (history_key symbol)) (\<lambda>history.
       rc_set cl js (history_key symbol)
         (PList (slice_last max_rows (history_rows history @ [PDict row]))) None)"

definition rc_get_history :: "'r redis_client \<Rightarrow> json_codec \<Rightarrow> string \<Rightarrow> ('r, pyval list) pm" where
  "rc_get_history cl js symbol =
     bindM (rc_get cl js (history_key symbol)) (\<lambda>history. returnM (history_rows history))"

definition redis_cache_ops :: "'r redis_client \<Rightarrow> json_codec \<Rightarrow> 'r cache_ops" where
  "redis_cache_ops cl js =
     \<lparr>cache_get = rc_get cl js, cache_set = rc_set cl js,
      cache_set_if_absent = rc_set_if_absent cl js, cache_delete = rd_delete cl,
      cache_set_snapshot = (\<lambda>s d. rc_set cl js (snapshot_key s) (PDict d) None),
      cache_get_snapshot = (\<lambda>s. rc_get cl js (snapshot_key s)),
      cache_list_snapshot_symbols = rc_list_snapshot_symbols cl, cache_seen = rc_seen cl,
      cache_append_history = rc_append_history cl js, cache_get_history = rc_get_history cl js\<rparr>"

text \<open>
  The documented behaviour of a reachable server: \<open>entry r k\<close> is what was last stored under
  \<open>k\<close>, a payload and the instant it expires at, \<open>now r\<close> the server's clock.  An entry is live
  up to its deadline; a lifetime that is not positive is refused and changes nothing; no
  command turns the clock back.
\<close>

fun in_time :: "real option \<Rightarrow> real \<Rightarrow> bool" where
  "in_time None t = True"
| "in_time (Some d) t = (t \<le> d)"

definition live :: "real \<Rightarrow> (string \<times> real option) option \<Rightarrow> string option" where
  "live t e = (case e of None \<Rightarrow> None | Some (v, d) \<Rightarrow> (if in_time d t then Some v else None))"

definition valid_ttl :: "int option \<Rightarrow> bool" where
  "valid_ttl ex = (case ex of None \<Rightarrow> True | Some n \<Rightarrow> 0 < n)"

definition deadline :: "real \<Rightarrow> int option \<Rightarrow> real option" where
  "deadline t ex = map_option (\<lambda>n. t + of_int n) ex"

definition redis_laws ::
  "'r redis_client \<Rightarrow> ('r \<Rightarrow> real) \<Rightarrow> ('r \<Rightarrow> string \<Rightarrow> (string \<times> real option) option) \<Rightarrow> bool" where
  "redis_laws cl now entry \<longleftrightarrow>
     (\<forall>k r. \<exists>r'. rd_get cl k r = (Inr (live (now r) (entry r k)), r') \<and>
        now r \<le> now r' \<and> entry r' = entry r) \<and>
     (\<forall>k v ex nx r. valid_ttl ex \<longrightarrow> (\<exists>r'.
        rd_set cl k v ex nx r = (Inr (\<not> nx \<or> live (now r) (entry r k) = None), r') \<and> now r \<le> now r' \<and>
        entry r' = (if \<not> nx \<or> live (now r) (entry r k) = None
                    then (entry r)(k \<mapsto> (v, deadline (now r) ex)) else entry r))) \<and>
     (\<forall>k v ex nx r. \<not> valid_ttl ex \<longrightarrow> (\<exists>e r'.
        rd_set cl k v ex nx r = (Inl e, r') \<and> now r \<le> now r' \<and> entry r' = entry r)) \<and>
     (\<forall>k v n r. 0 < n \<longrightarrow> (\<exists>r'. rd_setex cl k n v r = (Inr (), r') \<and> now r \<le> now r' \<and>
        entry r' = (entry r)(k \<mapsto> (v, deadline (now r) (Some n))))) \<and>
     (\<forall>k v n r. \<not> 0 < n \<longrightarrow> (\<exists>e r'. rd_setex cl k n v r = (Inl e, r') \<and> now r \<le> now r' \<and>
        entry r' = entry r)) \<and>
     (\<forall>k r. \<exists>r'. rd_delete cl k r = (Inr (), r') \<and> now r \<le> now r' \<and>
        entry r' = (entry r)(k := None))"

lemma redis_get:
  assumes "redis_laws cl now entry"
  shows "fst (rd_get cl k r) = Inr (live (now r) (entry r k))"
    and "now r \<le> now (snd (rd_get cl k r))" and "entry (snd (rd_get cl k r)) = entry r"
  using assms [unfolded redis_laws_def, THEN conjunct1, rule_format, of k r] by auto

lemma redis_set:
  assumes "redis_laws cl now entry" and "valid_ttl ex"
  shows "fst (rd_set cl k v ex nx r) = Inr (\<not> nx \<or> live (now r) (entry r k) = None)"
    and "entry (snd (rd_set cl k v ex nx r)) =
           (if \<not> nx \<or> live (now r) (entry r k) = None
            then (entry r)(k \<mapsto> (v, deadline (now r) ex)) else entry r)"
  using assms(1) [unfolded redis_laws_def, THEN conjunct2, THEN conjunct1, rule_format, OF assms(2), of k v nx r]
  by auto

lemma redis_set_refused:
  assumes "redis_laws cl now entry" and "\<not> valid_ttl ex"
  shows "\<exists>e. fst (rd_set cl k v ex nx r) = Inl e" and "entry (snd (rd_set cl k v ex nx r)) = entry r"
  using assms(1) [unfolded redis_laws_def, THEN conjunct2, THEN conjunct2, THEN conjunct1, rule_format,
      OF assms(2), of k v nx r]
  by auto

lemma redis_set_later:
  assumes "redis_laws cl now entry"
  shows "now r \<le> now (snd (rd_set cl k v ex nx r))"
  using assms [unfolded redis_laws_def, THEN conjunct2, THEN conjunct1, rule_format, of ex k v nx r]
    assms [unfolded redis_laws_def, THEN conjunct2, THEN conjunct2, THEN conjunct1, rule_format, of ex k v nx r]
  by (cases "valid_ttl ex") auto

lemma redis_setex:
  assumes "redis_laws cl now entry"
  shows "now r \<le> now (snd (rd_setex cl k n v r))"
    and "0 < n \<Longrightarrow> fst (rd_setex cl k n v r) = Inr ()"
    and "entry (snd (rd_setex cl k n v r)) =
           (if 0 < n then (entry r)(k \<mapsto> (v, deadline (now r) (Some n))) else entry r)"
    and "\<not> 0 < n \<Longrightarrow> \<exists>e. fst (rd_setex cl k n v r) = Inl e"
  using assms [unfolded redis_laws_def, THEN conjunct2, THEN conjunct2, THEN conjunct2, THEN conjunct1,
      rule_format, of n k v r]
    assms [unfolded redis_laws_def, THEN conjunct2, THEN conjunct2, THEN conjunct2, THEN conjunct2,
      THEN conjunct1, rule_format, of n k v r]
  by (cases "0 < n"; auto)+

lemma redis_delete:
  assumes "redis_laws cl now entry"
  shows "now r \<le> now (snd (rd_delete cl k r))"
    and "entry (snd (rd_delete cl k r)) = (entry r)(k := None)"
  using assms [unfolded redis_laws_def, THEN conjunct2, THEN conjunct2, THEN conjunct2, THEN conjunct2,
      THEN conjunct2, rule_format, of k r]
  by auto

text \<open>The operations of the cache on the server, whether they return or raise.\<close>

fun rc_step :: "'r redis_client \<Rightarrow> json_codec \<Rightarrow> cache_act \<Rightarrow> 'r \<Rightarrow> 'r" where
  "rc_step cl js (CGet k) r = snd (rc_get cl js k r)"
| "rc_step cl js (CSet k v ttl) r = snd (rc_set cl js k v ttl r)"
| "rc_step cl js (CClaim k v ttl) r = snd (rc_set_if_absent cl js k v ttl r)"
| "rc_step cl js (CDelete k) r = snd (rd_delete cl k r)"
| "rc_step cl js (CSeen k) r = snd (rc_seen cl k r)"
| "rc_step cl js (CAppend s row n) r = snd (rc_append_history cl js s row n r)"

definition rc_run :: "'r redis_client \<Rightarrow> json_codec \<Rightarrow> cache_act list \<Rightarrow> 'r \<Rightarrow> 'r" where
  "rc_run cl js as r = fold (rc_step cl js) as r"

text \<open>An entry that is there as long as its deadline has not passed.\<close>

definition stored_until :: "('r \<Rightarrow> real) \<Rightarrow> ('r \<Rightarrow> string \<Rightarrow> (string \<times> real option) option) \<Rightarrow>
    string \<Rightarrow> string \<Rightarrow> real option \<Rightarrow> 'r \<Rightarrow> bool" where
  "stored_until now entry k v d r \<longleftrightarrow> (in_time d (now r) \<longrightarrow> entry r k = Some (v, d))"

text \<open>What a command does to an entry it does not overwrite, and that later states inherit it.\<close>

definition spares :: "('r \<Rightarrow> real) \<Rightarrow> ('r \<Rightarrow> string \<Rightarrow> (string \<times> real option) option) \<Rightarrow>
    string \<Rightarrow> 'r \<Rightarrow> 'r \<Rightarrow> bool" where
  "spares now entry k r r' \<longleftrightarrow> now r \<le> now r' \<and>
     (live (now r) (entry r k) \<noteq> None \<longrightarrow> entry r' k = entry r k)"

lemma in_time_earlier: "in_time d t' \<Longrightarrow> t \<le> t' \<Longrightarrow> in_time d t"
  by (cases d) auto

lemma stored_spared:
  "stored_until now entry k v d r \<Longrightarrow> spares now entry k r r' \<Longrightarrow> stored_until now entry k v d r'"
  using in_time_earlier [of d "now r'" "now r"] by (auto simp: stored_until_def spares_def live_def)

lemma rc_get_snd: "snd (rc_get cl js k r) = snd (rd_get cl k r)"
  by (auto simp: rc_get_def pm_simps split: sum.split option.split)

lemma rc_set_effects:
  assumes "redis_laws cl now entry"
  shows "now r \<le> now (snd (rc_set cl js k v ttl r))"
    and "k' \<noteq> k \<Longrightarrow> entry (snd (rc_set cl js k v ttl r)) k' = entry r k'"
  using redis_set_later [OF assms] redis_setex(1) [OF assms] redis_setex(3) [OF assms]
    redis_set(2) [OF assms, of None]
  by (auto simp: rc_set_def pm_simps valid_ttl_def split: sum.split option.split)

lemma rc_step_spares:
  assumes laws: "redis_laws cl now entry" and no: "\<not> overwrites k a"
  shows "spares now entry k r (rc_step cl js a r)"
proof -
  have nx: "spares now entry k r (snd (rd_set cl k' v ttl True r))" for k' v ttl
    using redis_set_later [OF laws] redis_set(2) [OF laws, of ttl k' v True r]
      redis_set_refused(2) [OF laws, of ttl k' v True r]
    by (cases "valid_ttl ttl") (auto simp: spares_def)
  note get = redis_get(2,3) [OF laws]
  show ?thesis
  proof (cases a)
    case (CGet k')
    then show ?thesis using get by (simp add: spares_def rc_get_snd)
  next
    case (CSet k' v ttl)
    then show ?thesis using rc_set_effects [OF laws] no by (simp add: spares_def)
  next
    case (CClaim k' v ttl)
    then show ?thesis using nx by (auto simp: rc_set_if_absent_def pm_simps spares_def split: sum.split)
  next
    case (CDelete k')
    then show ?thesis using redis_delete [OF laws] no by (simp add: spares_def)
  next
    case (CSeen k')
    then show ?thesis using nx by (auto simp: rc_seen_def pm_simps split: sum.split)
  next
    case (CAppend s row n)
    let ?r1 = "snd (rc_get cl js (history_key s) r)"
    have r1: "now r \<le> now ?r1" "entry ?r1 = entry r" using get by (simp_all add: rc_get_snd)
    have "now ?r1 \<le> now (snd (rc_set cl js (history_key s) w None ?r1))"
      "entry (snd (rc_set cl js (history_key s) w None ?r1)) k = entry ?r1 k" for w
      using rc_set_effects [OF laws] no CAppend by simp_all
    then show ?thesis using r1 order_trans [OF r1(1)] CAppend
      by (auto simp: rc_append_history_def pm_simps spares_def split: sum.split)
  qed
qed

lemma rc_run_stored:
  assumes "redis_laws cl now entry" "stored_until now entry k v d r" "\<forall>a \<in> set as. \<not> overwrites k a"
  shows "stored_until now entry k v d (rc_run cl js as r)"
  using assms(2,3) unfolding rc_run_def
  by (induction as arbitrary: r) (auto intro: stored_spared rc_step_spares [OF assms(1)])

lemma rc_seen_eq:
  assumes "redis_laws cl now entry"
  shows "fst (rc_seen cl key r) = Inr (live (now r) (entry r (seen_key key)) \<noteq> None)"
    and "entry (snd (rc_seen cl key r)) =
      (if live (now r) (entry r (seen_key key)) = None
       then (entry r)(seen_key key \<mapsto> (''1'', Some (now r + 24 * 60 * 60))) else entry r)"
    and "now r \<le> now (snd (rc_seen cl key r))"
  using redis_set [OF assms, of "Some IDEMPOTENCY_TTL_SECONDS" "seen_key key" "''1''" True r]
    redis_set_later [OF assms, of r "seen_key key" "''1''" "Some IDEMPOTENCY_TTL_SECONDS" True]
  by (auto simp: rc_seen_def pm_simps valid_ttl_def deadline_def IDEMPOTENCY_TTL_SECONDS_def)

lemma rc_set_ok:
  assumes "redis_laws cl now entry" "json_dumps js v = Inr raw" "valid_ttl ttl"
  shows "fst (rc_set cl js k v ttl r) = Inr ()"
    and "entry (snd (rc_set cl js k v ttl r)) = (entry r)(k \<mapsto> (raw, deadline (now r) ttl))"
  using assms(2,3) redis_setex(2,3) [OF assms(1)] redis_set [OF assms(1), of None k raw False r]
  by (auto simp: rc_set_def encode_cache_value_def pm_simps valid_ttl_def split: option.splits)

lemma rc_set_refused:
  assumes "redis_laws cl now entry" "(\<exists>e. json_dumps js v = Inl e) \<or> \<not> valid_ttl ttl"
  shows "\<exists>e. fst (rc_set cl js k v ttl r) = Inl e" and "entry (snd (rc_set cl js k v ttl r)) = entry r"
  using assms(2) redis_setex(3,4) [OF assms(1)]
  by (auto simp: rc_set_def encode_cache_value_def pm_simps valid_ttl_def split: option.splits sum.split)

text \<open>
  C11: on Redis the idempotency marker is created and given its lifetime in one command: a
  check answers ``seen'' exactly when a live marker is there, and otherwise leaves one that
  expires 24 hours later; whatever operations of the cache follow (of any key, returning or
  raising), as long as none sets or deletes the marker itself, a check up to that instant
  answers ``seen'' and changes no entry.  A value that is JSON, written with no lifetime or
  a positive one, is read back up to its deadline whatever else happens, when the codec reads
  what it wrote; a value that is not JSON, or a lifetime that is not positive, raises and
  changes no entry.
\<close>

theorem redis_seen_and_roundtrip:
  fixes cl :: "'r redis_client" and r :: 'r and js :: json_codec and key k :: string
    and v :: pyval and ttl :: "int option"
  assumes laws: "redis_laws cl now entry"
    and others: "\<forall>a \<in> set as. \<not> overwrites (seen_key key) a"
    and bs: "\<forall>a \<in> set bs. \<not> overwrites k a"
  defines "r1 \<equiv> snd (rc_seen cl key r)"
  defines "r2 \<equiv> rc_run cl js as r1"
  defines "w1 \<equiv> snd (rc_set cl js k v ttl r)"
  defines "w2 \<equiv> rc_run cl js bs w1"
  shows "fst (rc_seen cl key r) = Inr (live (now r) (entry r (seen_key key)) \<noteq> None) \<and>
    (live (now r) (entry r (seen_key key)) = None \<longrightarrow>
       entry r1 = (entry r)(seen_key key \<mapsto> (''1'', Some (now r + 24 * 60 * 60))) \<and>
       (now r2 \<le> now r + 24 * 60 * 60 \<longrightarrow>
          fst (rc_seen cl key r2) = Inr True \<and> entry (snd (rc_seen cl key r2)) = entry r2)) \<and>
    (\<forall>raw. json_dumps js v = Inr raw \<and> json_parse js raw = Loaded v \<and> valid_ttl ttl \<longrightarrow>
       fst (rc_set cl js k v ttl r) = Inr () \<and>
       (in_time (deadline (now r) ttl) (now w2) \<longrightarrow> fst (rc_get cl js k w2) = Inr v)) \<and>
    ((\<exists>e. json_dumps js v = Inl e) \<or> \<not> valid_ttl ttl \<longrightarrow>
       (\<exists>e. fst (rc_set cl js k v ttl r) = Inl e) \<and> entry w1 = entry r)"
proof (intro conjI impI allI)
  show "fst (rc_seen cl key r) = Inr (live (now r) (entry r (seen_key key)) \<noteq> None)"
    by (rule rc_seen_eq [OF laws])
next
  assume fresh: "live (now r) (entry r (seen_key key)) = None"
  show e1: "entry r1 = (entry r)(seen_key key \<mapsto> (''1'', Some (now r + 24 * 60 * 60)))"
    using fresh rc_seen_eq(2) [OF laws, where key = key and r = r] by (simp add: r1_def)
  assume "now r2 \<le> now r + 24 * 60 * 60"
  moreover have "stored_until now entry (seen_key key) ''1'' (Some (now r + 24 * 60 * 60)) r2"
    unfolding r2_def by (rule rc_run_stored [OF laws _ others]) (simp add: stored_until_def e1)
  ultimately have "live (now r2) (entry r2 (seen_key key)) = Some ''1''"
    by (simp add: stored_until_def live_def)
  then show "fst (rc_seen cl key r2) = Inr True" "entry (snd (rc_seen cl key r2)) = entry r2"
    using rc_seen_eq [OF laws, where key = key and r = r2] by simp_all
next
  fix raw
  assume ok: "json_dumps js v = Inr raw \<and> json_parse js raw = Loaded v \<and> valid_ttl ttl"
  note set = rc_set_ok [OF laws conjunct1 [OF ok] conjunct2 [OF conjunct2 [OF ok]], of k r]
  show "fst (rc_set cl js k v ttl r) = Inr ()" by (rule set(1))
  assume "in_time (deadline (now r) ttl) (now w2)"
  moreover have "stored_until now entry k raw (deadline (now r) ttl) w2"
    unfolding w2_def by (rule rc_run_stored [OF laws _ bs]) (simp add: stored_until_def w1_def set)
  ultimately have "live (now w2) (entry w2 k) = Some raw" by (simp add: stored_until_def live_def)
  then show "fst (rc_get cl js k w2) = Inr v"
    using ok redis_get(1) [OF laws, of k w2] by (simp add: rc_get_def decode_cache_value_def pm_simps)
next
  assume bad: "(\<exists>e. json_dumps js v = Inl e) \<or> \<not> valid_ttl ttl"
  show "\<exists>e. fst (rc_set cl js k v ttl r) = Inl e" "entry w1 = entry r"
    using rc_set_refused [OF laws bad] by (simp_all add: w1_def)
qed

text \<open>A server with a clock that each command advances by a second.\<close>

definition tick_client :: "(real \<times> (string, string \<times> real option) dict) redis_client" where
  "tick_client =
     \<lparr>rd_get = (\<lambda>k (t, m). (Inr (live t (map_of m k)), (t + 1, m))),
      rd_set = (\<lambda>k v ex nx (t, m).
        if \<not> valid_ttl ex then (Inl (BackendError ''invalid expire time''), (t + 1, m))
        else if \<not> nx \<or> live t (map_of m k) = None
             then (Inr True, (t + 1, dict_set m k (v, deadline t ex))) else (Inr False, (t + 1, m))),
      rd_setex = (\<lambda>k n v (t, m).
        if 0 < n then (Inr (), (t + 1, dict_set m k (v, deadline t (Some n))))
        else (Inl (BackendError ''invalid expire time''), (t + 1, m))),
      rd_delete = (\<lambda>k (t, m). (Inr (), (t + 1, dict_pop m k))),
      rd_scan = (\<lambda>p (t, m).
        (Inr (filter (\<lambda>k. starts_with p k \<and> live t (map_of m k) \<noteq> None) (map fst m)), (t + 1, m)))\<rparr>"

lemma tick_client_laws: "redis_laws tick_client fst (\<lambda>r. map_of (snd r))"
  unfolding redis_laws_def tick_client_def
  by (intro conjI allI) (auto simp: fun_eq_iff split: prod.split)

text \<open>A codec for the one value \<open>None\<close>.\<close>

definition none_codec :: json_codec where
  "none_codec =
     \<lparr>json_dumps = (\<lambda>v. if v = PNone then Inr ''null'' else Inl (TypeError ''not JSON serializable'')),
      json_parse = (\<lambda>raw. if raw = ''null'' then Loaded PNone else Undecodable)\<rparr>"

theorem redis_seen_and_roundtrip_witness:
  "fst (rc_seen tick_client ''evt-1'' (0, [])) = Inr False \<and>
   fst (rc_seen tick_client ''evt-1'' (rc_run tick_client none_codec [CSeen ''evt-2'', CGet ''k'']
     (snd (rc_seen tick_client ''evt-1'' (0, []))))) = Inr True"
proof -
  let ?as = "[CSeen ''evt-2'', CGet ''k'']"
  let ?r2 = "rc_run tick_client none_codec ?as (snd (rc_seen tick_client ''evt-1'' (0, [])))"
  have others: "\<forall>a \<in> set ?as. \<not> overwrites (seen_key ''evt-1'') a"
    and none: "\<forall>a \<in> set []. \<not> overwrites ''k'' a" by simp_all
  have "fst ?r2 \<le> fst ((0::real), [] :: (string, string \<times> real option) dict) + 24 * 60 * 60"
    by (simp add: rc_run_def rc_seen_def rc_get_def tick_client_def valid_ttl_def live_def
        IDEMPOTENCY_TTL_SECONDS_def pm_simps split: option.split)
  then show ?thesis
    using redis_seen_and_roundtrip [OF tick_client_laws others none, where js = none_codec and r = "(0, [])"
        and v = PNone and ttl = None]
    by (simp add: live_def)
qed

end
