(* ===== verification/Bus.thy ===== *)
theory Bus
  imports Schema
begin

text \<open>
  The message bus of \<open>libs/common/bus.py\<close>: the \<open>MessageBus\<close> protocol as a record of
  operations with its contract as a locale, and \<open>InMemoryBus\<close>, the implementation the
  services run on when no connection string is configured.  A queue is the list of its
  messages, oldest first.  A message object is created once per subscription for each
  sequence number of its topic, so the triple (topic, subscription, sequence number)
  stands for \<open>id(msg)\<close>.
\<close>

section \<open>Messages and the protocol\<close>

record message =
  msg_topic :: string
  msg_sub :: string
  msg_body :: pyval
  msg_id :: string
  msg_corr :: "string option"
  msg_seq :: "int option"
  msg_dlq :: bool

datatype msg_ref = MsgRef string string "int option"

definition msg_ref :: "message \<Rightarrow> msg_ref" where
  "msg_ref m = MsgRef (msg_topic m) (msg_sub m) (msg_seq m)"

record 'b bus_ops =
  bus_publish :: "string \<Rightarrow> pyval \<Rightarrow> string option \<Rightarrow> string option \<Rightarrow> ('b, unit) pm"
  bus_receive :: "string \<Rightarrow> string \<Rightarrow> int \<Rightarrow> ('b, message list) pm"
  bus_complete :: "message \<Rightarrow> ('b, unit) pm"
  bus_dead_letter :: "message \<Rightarrow> string \<Rightarrow> ('b, unit) pm"
  bus_peek :: "string \<Rightarrow> string \<Rightarrow> int \<Rightarrow> int option \<Rightarrow> ('b, message list) pm"
  bus_receive_dead_letter :: "string \<Rightarrow> string \<Rightarrow> ('b, message list) pm"

section \<open>InMemoryBus\<close>

text \<open>
  \<open>uuids\<close> is the supply of fresh identifiers that \<open>uuid.uuid4()\<close> draws from.
\<close>

record inmem_bus =
  queues :: "string \<Rightarrow> string \<Rightarrow> message list option"
  dlqs :: "string \<Rightarrow> string \<Rightarrow> message list"
  seen_ids :: "string \<Rightarrow> string set"
  in_flight :: "msg_ref \<Rightarrow> message option"
  next_sequence :: "string \<Rightarrow> int"
  uuids :: "nat \<Rightarrow> string"
  uuid_next :: nat

definition inmem_bus_init :: "(nat \<Rightarrow> string) \<Rightarrow> inmem_bus" where
  "inmem_bus_init us =
     \<lparr>queues = (\<lambda>_ _. None), dlqs = (\<lambda>_ _. []), seen_ids = (\<lambda>_. {}), in_flight = (\<lambda>_. None),
      next_sequence = (\<lambda>_. 1), uuids = us, uuid_next = 0\<rparr>"

text \<open>\<open>self._queues[topic][subscription]\<close>: the queue, created empty on first access.\<close>

definition queue_of :: "inmem_bus \<Rightarrow> string \<Rightarrow> string \<Rightarrow> message list" where
  "queue_of b t s = (case queues b t s of None \<Rightarrow> [] | Some q \<Rightarrow> q)"

definition set_queue :: "string \<Rightarrow> string \<Rightarrow> message list \<Rightarrow> inmem_bus \<Rightarrow> inmem_bus" where
  "set_queue t s q b = b\<lparr>queues := (queues b)(t := (queues b t)(s \<mapsto> q))\<rparr>"

definition pick_message_id :: "string option \<Rightarrow> inmem_bus \<Rightarrow> string \<times> inmem_bus" where
  "pick_message_id mid b =
     (case mid of
        Some m \<Rightarrow> (if m \<noteq> [] then (m, b) else (uuids b (uuid_next b), b\<lparr>uuid_next := Suc (uuid_next b)\<rparr>))
      | None \<Rightarrow> (uuids b (uuid_next b), b\<lparr>uuid_next := Suc (uuid_next b)\<rparr>))"

definition ib_publish ::
  "string \<Rightarrow> pyval \<Rightarrow> string option \<Rightarrow> string option \<Rightarrow> (inmem_bus, unit) pm" where
  "ib_publish topic body message_id corr = (\<lambda>b0.
     (let (mid, b) = pick_message_id message_id b0 in
      if mid \<in> seen_ids b topic then (Inr (), b)
      else
        (let n = next_sequence b topic;
             mk = (\<lambda>sub. \<lparr>msg_topic = topic, msg_sub = sub, msg_body = body, msg_id = mid,
                          msg_corr = corr, msg_seq = Some n, msg_dlq = False\<rparr>)
         in (Inr (), b\<lparr>seen_ids := (seen_ids b)(topic := insert mid (seen_ids b topic)),
                       next_sequence := (next_sequence b)(topic := n + 1),
                       queues := (queues b)(topic :=
                         (\<lambda>sub. map_option (\<lambda>q. q @ [mk sub]) (queues b topic sub)))\<rparr>))))"

definition ib_receive :: "string \<Rightarrow> string \<Rightarrow> int \<Rightarrow> (inmem_bus, message list) pm" where
  "ib_receive topic sub max_messages = (\<lambda>b.
     (let q = queue_of b topic sub;
          msgs = take (nat max_messages) q;
          b' = set_queue topic sub (drop (nat max_messages) q) b
      in (Inr msgs, b'\<lparr>in_flight := fold (\<lambda>m fl. fl(msg_ref m \<mapsto> m)) msgs (in_flight b')\<rparr>)))"

definition ib_complete :: "message \<Rightarrow> (inmem_bus, unit) pm" where
  "ib_complete m = (\<lambda>b. (Inr (), b\<lparr>in_flight := (in_flight b)(msg_ref m := None)\<rparr>))"

definition ib_dead_letter :: "message \<Rightarrow> string \<Rightarrow> (inmem_bus, unit) pm" where
  "ib_dead_letter m reason = (\<lambda>b.
     (let t = msg_topic m; s = msg_sub m in
      (Inr (), b\<lparr>in_flight := (in_flight b)(msg_ref m := None),
                 dlqs := (dlqs b)(t := (dlqs b t)(s := dlqs b t s @ [m\<lparr>msg_dlq := True\<rparr>]))\<rparr>)))"

definition seq_at_least :: "int \<Rightarrow> message \<Rightarrow> bool" where
  "seq_at_least c m = (case msg_seq m of None \<Rightarrow> False | Some k \<Rightarrow> k \<ge> c)"

definition ib_peek :: "string \<Rightarrow> string \<Rightarrow> int \<Rightarrow> int option \<Rightarrow> (inmem_bus, message list) pm" where
  "ib_peek topic sub n from = (\<lambda>b.
     (let q = queue_of b topic sub;
          b' = set_queue topic sub q b;
          ms = (case from of None \<Rightarrow> q | Some c \<Rightarrow> filter (seq_at_least c) q)
      in (Inr (slice_first n ms), b')))"

definition ib_receive_dead_letter :: "string \<Rightarrow> string \<Rightarrow> (inmem_bus, message list) pm" where
  "ib_receive_dead_letter topic sub = (\<lambda>b.
     (Inr (dlqs b topic sub), b\<lparr>dlqs := (dlqs b)(topic := (dlqs b topic)(sub := []))\<rparr>))"

definition inmem_bus_ops :: "inmem_bus bus_ops" where
  "inmem_bus_ops =
     \<lparr>bus_publish = ib_publish, bus_receive = ib_receive, bus_complete = ib_complete,
      bus_dead_letter = ib_dead_letter, bus_peek = ib_peek,
      bus_receive_dead_letter = ib_receive_dead_letter\<rparr>"

lemmas ib_defs = ib_publish_def ib_receive_def ib_complete_def ib_dead_letter_def ib_peek_def
  ib_receive_dead_letter_def set_queue_def

lemma inmem_bus_ops_sel [simp]:
  "bus_publish inmem_bus_ops = ib_publish" "bus_receive inmem_bus_ops = ib_receive"
  "bus_complete inmem_bus_ops = ib_complete" "bus_dead_letter inmem_bus_ops = ib_dead_letter"
  "bus_peek inmem_bus_ops = ib_peek" "bus_receive_dead_letter inmem_bus_ops = ib_receive_dead_letter"
  by (simp_all add: inmem_bus_ops_def)

text \<open>What \<open>pick_message_id\<close> leaves alone.\<close>

lemma pick_message_id_frame [simp]:
  "queues (snd (pick_message_id mid b)) = queues b"
  "dlqs (snd (pick_message_id mid b)) = dlqs b"
  "seen_ids (snd (pick_message_id mid b)) = seen_ids b"
  "in_flight (snd (pick_message_id mid b)) = in_flight b"
  "next_sequence (snd (pick_message_id mid b)) = next_sequence b"
  by (auto simp: pick_message_id_def split: option.split)

lemma pick_message_id_Some [simp]: "m \<noteq> [] \<Longrightarrow> pick_message_id (Some m) b = (m, b)"
  by (simp add: pick_message_id_def)

section \<open>Queue lemmas\<close>

definition seq_no :: "message \<Rightarrow> int" where
  "seq_no m = (case msg_seq m of None \<Rightarrow> 0 | Some k \<Rightarrow> k)"

lemma queue_of_set_queue [simp]:
  "queue_of (set_queue t s q b) t' s' = (if t' = t \<and> s' = s then q else queue_of b t' s')"
  by (simp add: queue_of_def set_queue_def)

lemma set_queue_frame [simp]:
  "dlqs (set_queue t s q b) = dlqs b" "seen_ids (set_queue t s q b) = seen_ids b"
  "in_flight (set_queue t s q b) = in_flight b" "next_sequence (set_queue t s q b) = next_sequence b"
  by (simp_all add: set_queue_def)

lemma queue_of_in_flight_update [simp]: "queue_of (b\<lparr>in_flight := f\<rparr>) = queue_of b"
  "queue_of (b\<lparr>dlqs := d\<rparr>) = queue_of b"
  by (simp_all add: queue_of_def fun_eq_iff)

text \<open>The message a publish makes for a subscription.\<close>

definition published_message ::
  "string \<Rightarrow> string \<Rightarrow> pyval \<Rightarrow> string \<Rightarrow> string option \<Rightarrow> int \<Rightarrow> message" where
  "published_message topic sub body mid corr n =
     \<lparr>msg_topic = topic, msg_sub = sub, msg_body = body, msg_id = mid,
      msg_corr = corr, msg_seq = Some n, msg_dlq = False\<rparr>"

text \<open>
  The effect of a publish, case by case: an id seen on the topic changes nothing, a new
  one gets the topic's next number and is appended to every subscription that exists.
\<close>

lemma ib_publish_dup:
  "fst (pick_message_id mid b) \<in> seen_ids b topic \<Longrightarrow>
   ib_publish topic body mid corr b = (Inr (), snd (pick_message_id mid b))"
  by (auto simp: ib_publish_def split: prod.splits)
     (metis fst_conv pick_message_id_frame(3) snd_conv)+

lemma ib_publish_new:
  assumes "fst (pick_message_id mid b) \<notin> seen_ids b topic"
  shows "fst (ib_publish topic body mid corr b) = Inr ()"
    and "queue_of (snd (ib_publish topic body mid corr b)) t s =
      (if t = topic \<and> queues b t s \<noteq> None
       then queue_of b t s @ [published_message t s body (fst (pick_message_id mid b)) corr (next_sequence b t)]
       else queue_of b t s)"
    and "queues (snd (ib_publish topic body mid corr b)) t s = None \<longleftrightarrow> queues b t s = None"
    and "seen_ids (snd (ib_publish topic body mid corr b)) =
      (seen_ids b)(topic := insert (fst (pick_message_id mid b)) (seen_ids b topic))"
    and "next_sequence (snd (ib_publish topic body mid corr b)) =
      (next_sequence b)(topic := next_sequence b topic + 1)"
    and "in_flight (snd (ib_publish topic body mid corr b)) = in_flight b"
    and "dlqs (snd (ib_publish topic body mid corr b)) = dlqs b"
proof -
  obtain m b1 where p: "pick_message_id mid b = (m, b1)" by (cases "pick_message_id mid b")
  then have f: "queues b1 = queues b" "dlqs b1 = dlqs b" "seen_ids b1 = seen_ids b"
    "in_flight b1 = in_flight b" "next_sequence b1 = next_sequence b"
    using pick_message_id_frame [of mid b] by simp_all
  have m: "m \<notin> seen_ids b topic" using assms p by simp
  note d = ib_publish_def p f m Let_def published_message_def queue_of_def
  show "fst (ib_publish topic body mid corr b) = Inr ()" by (simp add: d)
  show "queue_of (snd (ib_publish topic body mid corr b)) t s =
      (if t = topic \<and> queues b t s \<noteq> None
       then queue_of b t s @ [published_message t s body (fst (pick_message_id mid b)) corr (next_sequence b t)]
       else queue_of b t s)"
    by (simp add: d split: option.split)
  show "queues (snd (ib_publish topic body mid corr b)) t s = None \<longleftrightarrow> queues b t s = None"
    by (simp add: d)
  show "seen_ids (snd (ib_publish topic body mid corr b)) =
      (seen_ids b)(topic := insert (fst (pick_message_id mid b)) (seen_ids b topic))"
    by (simp add: d)
  show "next_sequence (snd (ib_publish topic body mid corr b)) =
      (next_sequence b)(topic := next_sequence b topic + 1)"
    by (simp add: d)
  show "in_flight (snd (ib_publish topic body mid corr b)) = in_flight b" by (simp add: d)
  show "dlqs (snd (ib_publish topic body mid corr b)) = dlqs b" by (simp add: d)
qed

lemma ib_publish_ok [simp]: "fst (ib_publish topic body mid corr b) = Inr ()"
  by (cases "fst (pick_message_id mid b) \<in> seen_ids b topic")
     (simp_all add: ib_publish_dup ib_publish_new)

lemma in_flight_fold:
  "fold (\<lambda>m fl. fl(msg_ref m \<mapsto> m)) ms f = f ++ map_of (rev (map (\<lambda>m. (msg_ref m, m)) ms))"
  by (induction ms arbitrary: f) (auto simp: map_add_def fun_eq_iff split: option.split)

section \<open>The bus invariant\<close>

text \<open>
  Queued messages carry their topic and subscription, are numbered below the topic's next
  number in increasing order, and their ids have been seen; a message in flight is stored
  under its own reference and is older than everything still queued.
\<close>

definition queue_wf :: "inmem_bus \<Rightarrow> string \<Rightarrow> string \<Rightarrow> bool" where
  "queue_wf b t s \<longleftrightarrow>
     (\<forall>m \<in> set (queue_of b t s). msg_topic m = t \<and> msg_sub m = s \<and> msg_seq m \<noteq> None \<and>
        seq_no m < next_sequence b t \<and> msg_id m \<in> seen_ids b t) \<and>
     sorted_wrt (<) (map seq_no (queue_of b t s))"

definition flight_wf :: "inmem_bus \<Rightarrow> bool" where
  "flight_wf b \<longleftrightarrow> (\<forall>r m. in_flight b r = Some m \<longrightarrow>
     msg_ref m = r \<and> msg_seq m \<noteq> None \<and> seq_no m < next_sequence b (msg_topic m) \<and>
     (\<forall>m' \<in> set (queue_of b (msg_topic m) (msg_sub m)). seq_no m < seq_no m'))"

definition bus_inv :: "inmem_bus \<Rightarrow> bool" where
  "bus_inv b \<longleftrightarrow> (\<forall>t s. queue_wf b t s) \<and> flight_wf b"

lemma flight_wfD:
  assumes "flight_wf b" "in_flight b r = Some m"
  shows "msg_ref m = r" "msg_seq m \<noteq> None" "seq_no m < next_sequence b (msg_topic m)"
    "m' \<in> set (queue_of b (msg_topic m) (msg_sub m)) \<Longrightarrow> seq_no m < seq_no m'"
  using assms unfolding flight_wf_def by blast+

lemma bus_inv_init: "bus_inv (inmem_bus_init us)"
  by (simp add: bus_inv_def queue_wf_def flight_wf_def inmem_bus_init_def queue_of_def)

lemma bus_inv_cong:
  assumes "queue_of b' = queue_of b" "in_flight b' \<subseteq>\<^sub>m in_flight b"
    "seen_ids b' = seen_ids b" "next_sequence b' = next_sequence b"
  shows "bus_inv b \<Longrightarrow> bus_inv b'"
  using assms unfolding bus_inv_def queue_wf_def flight_wf_def map_le_def
  by (metis domI)

lemma published_message_sel [simp]:
  "seq_no (published_message t s body mid corr n) = n"
  "msg_seq (published_message t s body mid corr n) = Some n"
  "msg_topic (published_message t s body mid corr n) = t"
  "msg_sub (published_message t s body mid corr n) = s"
  "msg_id (published_message t s body mid corr n) = mid"
  by (simp_all add: seq_no_def published_message_def)

lemma bus_inv_publish:
  assumes inv: "bus_inv b"
  shows "bus_inv (snd (ib_publish topic body mid corr b))"
proof (cases "fst (pick_message_id mid b) \<in> seen_ids b topic")
  case True
  have "queue_of (snd (pick_message_id mid b)) = queue_of b"
    by (simp add: queue_of_def fun_eq_iff)
  then show ?thesis
    using inv by (auto simp: ib_publish_dup [OF True] intro: bus_inv_cong)
next
  case False
  let ?b = "snd (ib_publish topic body mid corr b)"
  note new = ib_publish_new [OF False]
  have "queue_wf ?b t s" for t s
  proof -
    have wf: "queue_wf b t s" using inv by (simp add: bus_inv_def)
    show ?thesis
    proof (cases "t = topic \<and> queues b t s \<noteq> None")
      case True
      let ?m = "published_message t s body (fst (pick_message_id mid b)) corr (next_sequence b t)"
      have q: "queue_of ?b t s = queue_of b t s @ [?m]" using True by (auto simp: new)
      have "(\<forall>m \<in> set (queue_of b t s). msg_topic m = t \<and> msg_sub m = s \<and> msg_seq m \<noteq> None \<and>
          seq_no m < next_sequence b t \<and> msg_id m \<in> seen_ids b t)"
        and "sorted_wrt (<) (map seq_no (queue_of b t s))"
        using wf by (simp_all add: queue_wf_def)
      then show ?thesis using True unfolding queue_wf_def q
        by (auto simp: sorted_wrt_append new)
    next
      case False
      then have q: "queue_of ?b t s = queue_of b t s" by (auto simp: new)
      show ?thesis using wf unfolding queue_wf_def q by (fastforce simp: new)
    qed
  qed
  moreover have "flight_wf ?b"
    unfolding flight_wf_def
  proof (intro allI impI)
    fix r m
    assume "in_flight ?b r = Some m"
    then have m: "msg_ref m = r" "msg_seq m \<noteq> None" "seq_no m < next_sequence b (msg_topic m)"
      "\<forall>m' \<in> set (queue_of b (msg_topic m) (msg_sub m)). seq_no m < seq_no m'"
      using flight_wfD [of b r m] inv by (simp_all add: new bus_inv_def)
    then show "msg_ref m = r \<and> msg_seq m \<noteq> None \<and> seq_no m < next_sequence ?b (msg_topic m) \<and>
      (\<forall>m' \<in> set (queue_of ?b (msg_topic m) (msg_sub m)). seq_no m < seq_no m')"
      by (auto simp: new)
  qed
  ultimately show ?thesis by (simp add: bus_inv_def)
qed

lemma bus_inv_complete: "bus_inv b \<Longrightarrow> bus_inv (snd (ib_complete m b))"
  by (rule bus_inv_cong) (auto simp: ib_complete_def map_le_def)

lemma bus_inv_dead_letter: "bus_inv b \<Longrightarrow> bus_inv (snd (ib_dead_letter m reason b))"
  by (rule bus_inv_cong) (auto simp: ib_dead_letter_def Let_def map_le_def queue_of_def)

lemma bus_inv_peek: "bus_inv b \<Longrightarrow> bus_inv (snd (ib_peek t s n from b))"
  by (rule bus_inv_cong) (auto simp: ib_peek_def Let_def fun_eq_iff)

lemma bus_inv_receive_dead_letter: "bus_inv b \<Longrightarrow> bus_inv (snd (ib_receive_dead_letter t s b))"
  by (rule bus_inv_cong) (auto simp: ib_receive_dead_letter_def map_le_def queue_of_def)

end
