(* ===== verification/BusContract.thy ===== *)
theory BusContract
  imports Bus
begin

text \<open>
  What a consumer may rely on.  The locale \<open>message_bus\<close> states the contract of the
  \<open>MessageBus\<close> protocol over three views of a bus state (queued messages, messages
  received and not settled, dead letters), \<open>consumer\<close> adds a message handler and proves
  once that a polled batch is settled; \<open>InMemoryBus\<close> is shown to keep the contract.
  The last section follows a bus through any sequence of operations.
\<close>

section \<open>The contract\<close>

definition awaits :: "('b \<Rightarrow> bool) \<Rightarrow> ('b \<Rightarrow> message set) \<Rightarrow> message set \<Rightarrow> 'b \<Rightarrow> bool" where
  "awaits binv pending X b \<longleftrightarrow> binv b \<and> pending b = X"

locale message_bus =
  fixes bus :: "'b bus_ops"
    and queued :: "'b \<Rightarrow> string \<Rightarrow> string \<Rightarrow> message list"
    and pending :: "'b \<Rightarrow> message set"
    and dead :: "'b \<Rightarrow> string \<Rightarrow> string \<Rightarrow> message list"
    and binv :: "'b \<Rightarrow> bool"
  assumes receive_law: "binv b \<Longrightarrow> bus_receive bus t s n b = (Inr ms, b') \<Longrightarrow>
      binv b' \<and> queued b t s = ms @ queued b' t s \<and> length ms = min (nat n) (length (queued b t s)) \<and>
      pending b' = pending b \<union> set ms \<and> pending b \<inter> set ms = {} \<and> distinct ms \<and>
      (\<forall>m \<in> set ms. msg_topic m = t \<and> msg_sub m = s) \<and> dead b' = dead b"
    and receive_fail: "binv b \<Longrightarrow> bus_receive bus t s n b = (Inl e, b') \<Longrightarrow>
      binv b' \<and> pending b' = pending b \<and> dead b' = dead b"
    and complete_law: "binv b \<Longrightarrow> m \<in> pending b \<Longrightarrow> bus_complete bus m b = (Inr (), b') \<Longrightarrow>
      binv b' \<and> pending b' = pending b - {m} \<and> dead b' = dead b"
    and complete_fail: "binv b \<Longrightarrow> bus_complete bus m b = (Inl e, b') \<Longrightarrow>
      binv b' \<and> pending b' = pending b \<and> dead b' = dead b"
    and dead_letter_law: "binv b \<Longrightarrow> m \<in> pending b \<Longrightarrow> bus_dead_letter bus m reason b = (Inr (), b') \<Longrightarrow>
      binv b' \<and> pending b' = pending b - {m} \<and>
      dead b' = (dead b)(msg_topic m := (dead b (msg_topic m))(msg_sub m :=
                  dead b (msg_topic m) (msg_sub m) @ [m\<lparr>msg_dlq := True\<rparr>]))"
    and publish_law: "binv b \<Longrightarrow> bus_publish bus t body mid corr b = (r, b') \<Longrightarrow>
      binv b' \<and> pending b' = pending b \<and> dead b' = dead b"
    and peek_law: "binv b \<Longrightarrow> bus_peek bus t s n from b = (Inr ms, b') \<Longrightarrow>
      binv b' \<and> pending b' = pending b \<and> dead b' = dead b \<and> queued b' = queued b \<and>
      ms = slice_first n (case from of None \<Rightarrow> queued b t s
                          | Some c \<Rightarrow> filter (seq_at_least c) (queued b t s))"
begin

text \<open>The laws as triples over the set of messages a handler has to answer for.\<close>

lemma publish_triple: "triple (awaits binv pending X) (bus_publish bus t body mid corr)
    (\<lambda>_. awaits binv pending X) (\<lambda>_. awaits binv pending X)"
  unfolding awaits_def by (rule tripleI) (use publish_law in blast)+

lemma complete_triple: "m \<in> X \<Longrightarrow> triple (awaits binv pending X) (bus_complete bus m)
    (\<lambda>_. awaits binv pending (X - {m})) (\<lambda>_. awaits binv pending X)"
proof (rule tripleI, unfold awaits_def, goal_cases)
  case (1 b u b')
  then have "bus_complete bus m b = (Inr (), b')" by simp
  from complete_law [OF _ _ this] 1 show ?case by blast
next
  case (2 b e b')
  with complete_fail show ?case by blast
qed

lemma dead_letter_triple: "m \<in> X \<Longrightarrow> triple (awaits binv pending X) (bus_dead_letter bus m reason)
    (\<lambda>_. awaits binv pending (X - {m})) (\<lambda>_ _. True)"
proof (rule tripleI, unfold awaits_def, goal_cases)
  case (1 b u b')
  then have "bus_dead_letter bus m reason b = (Inr (), b')" by simp
  from dead_letter_law [OF _ _ this] 1 show ?case by blast
qed simp

end

text \<open>
  A consumer: a handler that settles the message it is given, on a state that holds the
  bus.  Settling is the handler's law; the batch lemma follows for every consumer.
\<close>

locale consumer = message_bus bus queued pending dead binv
  for bus :: "'b bus_ops" and queued pending dead binv +
  fixes bus_of :: "'s \<Rightarrow> 'b"
    and handle :: "message \<Rightarrow> ('s, unit) pm"
    and accepts :: "message \<Rightarrow> bool"
  assumes handle_settles: "binv (bus_of s) \<Longrightarrow> m \<in> pending (bus_of s) \<Longrightarrow> accepts m \<Longrightarrow>
      handle m s = (Inr (), s') \<Longrightarrow>
      binv (bus_of s') \<and> pending (bus_of s') = pending (bus_of s) - {m}"
begin

lemma batch_settled:
  assumes "binv (bus_of s)" "set ms \<subseteq> pending (bus_of s)" "distinct ms"
    "\<And>m. m \<in> set ms \<Longrightarrow> accepts m" "for_each handle ms s = (Inr (), s')"
  shows "binv (bus_of s') \<and> pending (bus_of s') = pending (bus_of s) - set ms"
  using assms
proof (induction ms arbitrary: s)
  case Nil
  then show ?case by (simp add: returnM_def)
next
  case (Cons m ms)
  obtain s1 where h: "handle m s = (Inr (), s1)" and rest: "for_each handle ms s1 = (Inr (), s')"
    using Cons.prems(5) by (auto simp: thenM_def bindM_def split: prod.splits sum.splits)
  have one: "binv (bus_of s1) \<and> pending (bus_of s1) = pending (bus_of s) - {m}"
    using handle_settles [OF _ _ _ h] Cons.prems by simp
  have sub: "set ms \<subseteq> pending (bus_of s1)"
    using Cons.prems one by auto
  have "binv (bus_of s') \<and> pending (bus_of s') = pending (bus_of s1) - set ms"
    by (rule Cons.IH [OF _ sub _ _ rest]) (use Cons.prems one in auto)
  then show ?case using one by auto
qed

text \<open>A poll that returns leaves nothing of its batch unsettled.\<close>

lemma poll_settled:
  assumes "binv (bus_of s)" "bus_receive bus t sub n (bus_of s) = (Inr ms, b')"
    "bus_of s1 = b'" "for_each handle ms s1 = (Inr (), s')" "\<And>m. msg_topic m = t \<Longrightarrow> accepts m"
  shows "binv (bus_of s') \<and> pending (bus_of s') = pending (bus_of s)"
proof -
  note law = receive_law [OF assms(1,2)]
  have "binv (bus_of s') \<and> pending (bus_of s') = pending (bus_of s1) - set ms"
    using law assms by (intro batch_settled) auto
  then show ?thesis using law assms(3) by auto
qed

end

section \<open>InMemoryBus keeps the contract\<close>

definition pending_of :: "inmem_bus \<Rightarrow> message set" where
  "pending_of b = ran (in_flight b)"

lemma in_flight_after_receive:
  assumes "in_flight (snd (ib_receive t s n b)) r = Some m"
  shows "m \<in> set (take (nat n) (queue_of b t s)) \<and> msg_ref m = r \<or> in_flight b r = Some m"
proof -
  let ?ms = "take (nat n) (queue_of b t s)"
  have "(in_flight b ++ map_of (rev (map (\<lambda>m. (msg_ref m, m)) ?ms))) r = Some m"
    using assms by (simp add: ib_receive_def Let_def in_flight_fold)
  then consider "map_of (rev (map (\<lambda>m. (msg_ref m, m)) ?ms)) r = Some m" | "in_flight b r = Some m"
    unfolding map_add_Some_iff by blast
  then show ?thesis
  proof cases
    case 1
    from map_of_SomeD [OF this] show ?thesis by auto
  qed blast
qed

lemma receive_parts:
  "fst (ib_receive t s n b) = Inr (take (nat n) (queue_of b t s))"
  "queue_of (snd (ib_receive t s n b)) t' s' =
     (if t' = t \<and> s' = s then drop (nat n) (queue_of b t s) else queue_of b t' s')"
  "seen_ids (snd (ib_receive t s n b)) = seen_ids b"
  "next_sequence (snd (ib_receive t s n b)) = next_sequence b"
  "dlqs (snd (ib_receive t s n b)) = dlqs b"
  by (simp_all add: ib_receive_def Let_def)

lemma queue_split_less:
  assumes "bus_inv b" "m \<in> set (take k (queue_of b t s))" "m' \<in> set (drop k (queue_of b t s))"
  shows "seq_no m < seq_no m'"
proof -
  have "sorted_wrt (<) (map seq_no (take k (queue_of b t s) @ drop k (queue_of b t s)))"
    using assms(1) by (simp add: bus_inv_def queue_wf_def)
  then show ?thesis using assms(2,3) unfolding map_append sorted_wrt_append by auto
qed

lemma queued_wfD:
  assumes "bus_inv b" "m \<in> set (queue_of b t s)"
  shows "msg_topic m = t" "msg_sub m = s" "msg_seq m \<noteq> None" "seq_no m < next_sequence b t"
    "msg_id m \<in> seen_ids b t"
  using assms by (simp_all add: bus_inv_def queue_wf_def)

lemma bus_inv_receive:
  assumes inv: "bus_inv b"
  shows "bus_inv (snd (ib_receive t s n b))"
  unfolding bus_inv_def
proof (intro conjI allI)
  let ?b = "snd (ib_receive t s n b)"
  fix t' s'
  have wf: "queue_wf b t' s'" using inv by (simp add: bus_inv_def)
  show "queue_wf ?b t' s'"
  proof (cases "t' = t \<and> s' = s")
    case True
    have "sorted_wrt (<) (map seq_no (take (nat n) (queue_of b t s) @ drop (nat n) (queue_of b t s)))"
      using wf True by (simp add: queue_wf_def)
    then have "sorted_wrt (<) (map seq_no (drop (nat n) (queue_of b t s)))"
      unfolding map_append sorted_wrt_append by blast
    moreover have "\<forall>m \<in> set (drop (nat n) (queue_of b t s)). msg_topic m = t \<and> msg_sub m = s \<and>
        msg_seq m \<noteq> None \<and> seq_no m < next_sequence b t \<and> msg_id m \<in> seen_ids b t"
    proof
      fix m assume "m \<in> set (drop (nat n) (queue_of b t s))"
      then have "m \<in> set (queue_of b t s)" by (rule in_set_dropD)
      from queued_wfD [OF inv this] show "msg_topic m = t \<and> msg_sub m = s \<and>
        msg_seq m \<noteq> None \<and> seq_no m < next_sequence b t \<and> msg_id m \<in> seen_ids b t" by simp
    qed
    ultimately show ?thesis using True by (simp add: queue_wf_def receive_parts)
  next
    case False
    then show ?thesis using wf by (auto simp: queue_wf_def receive_parts)
  qed
next
  let ?b = "snd (ib_receive t s n b)"
  show "flight_wf ?b"
    unfolding flight_wf_def
  proof (intro allI impI)
    fix r m
    assume "in_flight ?b r = Some m"
    from in_flight_after_receive [OF this]
    consider "m \<in> set (take (nat n) (queue_of b t s))" "msg_ref m = r" | "in_flight b r = Some m" by blast
    then show "msg_ref m = r \<and> msg_seq m \<noteq> None \<and> seq_no m < next_sequence ?b (msg_topic m) \<and>
      (\<forall>m' \<in> set (queue_of ?b (msg_topic m) (msg_sub m)). seq_no m < seq_no m')"
    proof cases
      case 1
      note q = queued_wfD [OF inv in_set_takeD [OF 1(1)]]
      show ?thesis using 1 q queue_split_less [OF inv 1(1)] by (auto simp: receive_parts)
    next
      case 2
      have "flight_wf b" using inv by (simp add: bus_inv_def)
      note f = flight_wfD [OF this 2]
      show ?thesis using f(1-3) f(4) by (auto simp: receive_parts dest: in_set_dropD)
    qed
  qed
qed

lemma pending_receive:
  assumes inv: "bus_inv b"
  shows "pending_of (snd (ib_receive t s n b)) = pending_of b \<union> set (take (nat n) (queue_of b t s))"
    and "pending_of b \<inter> set (take (nat n) (queue_of b t s)) = {}"
    and "distinct (queue_of b t s)"
proof -
  have fwf: "flight_wf b" using inv by (simp add: bus_inv_def)
  have sorted: "sorted_wrt (<) (map seq_no (queue_of b t s))"
    using inv by (simp add: bus_inv_def queue_wf_def)
  show dist: "distinct (queue_of b t s)"
    using sorted unfolding strict_sorted_iff by (simp add: distinct_map)
  show dis: "pending_of b \<inter> set (take (nat n) (queue_of b t s)) = {}"
  proof -
    have False if m: "in_flight b r = Some m" "m \<in> set (queue_of b t s)" for r m
      using flight_wfD(4) [OF fwf m(1), of m] queued_wfD [OF inv m(2)] m(2) by simp
    then show ?thesis by (auto simp: pending_of_def ran_def dest: in_set_takeD)
  qed
  let ?ms = "take (nat n) (queue_of b t s)"
  have ref: "in_flight b (msg_ref m) = None" if "m \<in> set ?ms" for m
  proof (rule ccontr)
    assume "in_flight b (msg_ref m) \<noteq> None"
    then obtain m' where m': "in_flight b (msg_ref m) = Some m'" by blast
    have eq: "msg_ref m' = msg_ref m" using flight_wfD(1) [OF fwf m'] .
    have mem: "m \<in> set (queue_of b t s)" using that by (rule in_set_takeD)
    have "seq_no m' < seq_no m"
      using flight_wfD(4) [OF fwf m', of m] mem queued_wfD [OF inv mem] eq by (simp add: msg_ref_def)
    moreover have "seq_no m' = seq_no m" using eq by (simp add: msg_ref_def seq_no_def)
    ultimately show False by simp
  qed
  have "inj_on msg_ref (set ?ms)"
  proof (rule inj_onI)
    fix x y assume "x \<in> set ?ms" "y \<in> set ?ms" and r: "msg_ref x = msg_ref y"
    then have "x \<in> set (queue_of b t s)" "y \<in> set (queue_of b t s)" by (auto dest: in_set_takeD)
    moreover have "seq_no x = seq_no y" using r by (simp add: msg_ref_def seq_no_def)
    moreover have "inj_on seq_no (set (queue_of b t s))"
      using sorted unfolding strict_sorted_iff by (simp add: distinct_map)
    ultimately show "x = y" by (auto dest: inj_onD)
  qed
  then have mo: "map_of (rev (map (\<lambda>m. (msg_ref m, m)) ?ms)) (msg_ref m) = Some m"
    if "m \<in> set ?ms" for m
    using that dist by (intro map_of_is_SomeI) (auto simp: rev_map [symmetric] distinct_map comp_def)
  have "in_flight (snd (ib_receive t s n b)) = in_flight b ++ map_of (rev (map (\<lambda>m. (msg_ref m, m)) ?ms))"
    by (simp add: ib_receive_def Let_def in_flight_fold)
  moreover have "ran (in_flight b ++ map_of (rev (map (\<lambda>m. (msg_ref m, m)) ?ms)))
      = ran (in_flight b) \<union> ran (map_of (rev (map (\<lambda>m. (msg_ref m, m)) ?ms)))"
    using ref by (intro ran_map_add) (auto simp: dom_map_of_conv_image_fst)
  moreover have "ran (map_of (rev (map (\<lambda>m. (msg_ref m, m)) ?ms))) = set ?ms"
    using mo by (auto simp: ran_def dest!: map_of_SomeD)
  ultimately show "pending_of (snd (ib_receive t s n b)) = pending_of b \<union> set ?ms"
    by (simp add: pending_of_def)
qed

lemma pending_remove:
  assumes "bus_inv b" and mp: "m \<in> pending_of b"
  shows "ran ((in_flight b)(msg_ref m := None)) = pending_of b - {m}"
proof -
  have ref: "msg_ref x = r" if "in_flight b r = Some x" for r x
    using flight_wfD(1) [OF _ that] assms by (simp add: bus_inv_def)
  obtain r where r: "in_flight b r = Some m" using mp unfolding pending_of_def ran_def by blast
  with ref have m: "in_flight b (msg_ref m) = Some m" by metis
  have "x \<in> ran ((in_flight b)(msg_ref m := None)) \<longleftrightarrow> x \<in> pending_of b - {m}" for x
    using m ref [of _ x] by (auto simp: pending_of_def ran_def) (metis option.inject)+
  then show ?thesis by blast
qed


text \<open>The in-memory bus as a message bus: the laws are discharged on its operations.\<close>

interpretation ib: message_bus inmem_bus_ops queue_of pending_of dlqs bus_inv
proof unfold_locales
  fix b b' :: inmem_bus and t s :: string and n ms
  assume inv: "bus_inv b" and "bus_receive inmem_bus_ops t s n b = (Inr ms, b')"
  then have r: "ib_receive t s n b = (Inr ms, b')" by simp
  have b': "b' = snd (ib_receive t s n b)" and ms: "ms = take (nat n) (queue_of b t s)"
    using receive_parts(1) [of t s n b] by (simp_all add: r)
  have "\<forall>m \<in> set ms. msg_topic m = t \<and> msg_sub m = s"
  proof
    fix m assume "m \<in> set ms"
    then have "m \<in> set (queue_of b t s)" unfolding ms by (rule in_set_takeD)
    from queued_wfD(1,2) [OF inv this] show "msg_topic m = t \<and> msg_sub m = s" by simp
  qed
  then show "bus_inv b' \<and> queue_of b t s = ms @ queue_of b' t s \<and>
      length ms = min (nat n) (length (queue_of b t s)) \<and>
      pending_of b' = pending_of b \<union> set ms \<and> pending_of b \<inter> set ms = {} \<and> distinct ms \<and>
      (\<forall>m \<in> set ms. msg_topic m = t \<and> msg_sub m = s) \<and> dlqs b' = dlqs b"
    using bus_inv_receive [OF inv, of t s n] pending_receive(1) [OF inv, of t s n]
      pending_receive(2,3) [OF inv, where t = t and s = s]
    by (simp add: b' ms receive_parts min.commute)
next
  fix b b' :: inmem_bus and t s :: string and n e
  assume "bus_inv b" "bus_receive inmem_bus_ops t s n b = (Inl e, b')"
  then show "bus_inv b' \<and> pending_of b' = pending_of b \<and> dlqs b' = dlqs b"
    using receive_parts(1) [of t s n b] by simp
next
  fix b b' :: inmem_bus and m
  assume inv: "bus_inv b" and m: "m \<in> pending_of b"
    and "bus_complete inmem_bus_ops m b = (Inr (), b')"
  then have b': "b' = snd (ib_complete m b)" by simp
  show "bus_inv b' \<and> pending_of b' = pending_of b - {m} \<and> dlqs b' = dlqs b"
    using bus_inv_complete [OF inv, of m] pending_remove [OF inv m]
    unfolding b' by (simp add: ib_complete_def pending_of_def [of "b\<lparr>in_flight := _\<rparr>"])
next
  fix b b' :: inmem_bus and m e
  assume "bus_inv b" "bus_complete inmem_bus_ops m b = (Inl e, b')"
  then show "bus_inv b' \<and> pending_of b' = pending_of b \<and> dlqs b' = dlqs b"
    by (simp add: ib_complete_def)
next
  fix b b' :: inmem_bus and m reason
  assume inv: "bus_inv b" and m: "m \<in> pending_of b"
    and "bus_dead_letter inmem_bus_ops m reason b = (Inr (), b')"
  then have b': "b' = snd (ib_dead_letter m reason b)" by simp
  show "bus_inv b' \<and> pending_of b' = pending_of b - {m} \<and>
      dlqs b' = (dlqs b)(msg_topic m := (dlqs b (msg_topic m))(msg_sub m :=
                  dlqs b (msg_topic m) (msg_sub m) @ [m\<lparr>msg_dlq := True\<rparr>]))"
    using bus_inv_dead_letter [OF inv, of m reason] pending_remove [OF inv m]
    unfolding b' by (simp add: ib_dead_letter_def Let_def pending_of_def [of "b\<lparr>in_flight := _, dlqs := _\<rparr>"])
next
  fix b b' :: inmem_bus and t :: string and body mid corr r
  assume inv: "bus_inv b" and "bus_publish inmem_bus_ops t body mid corr b = (r, b')"
  then have b': "b' = snd (ib_publish t body mid corr b)" by simp
  show "bus_inv b' \<and> pending_of b' = pending_of b \<and> dlqs b' = dlqs b"
  proof (cases "fst (pick_message_id mid b) \<in> seen_ids b t")
    case True
    then show ?thesis using bus_inv_publish [OF inv, of t body mid corr]
      by (simp add: b' ib_publish_dup pending_of_def)
  next
    case False
    then show ?thesis using bus_inv_publish [OF inv, of t body mid corr]
      by (simp add: b' ib_publish_new pending_of_def)
  qed
next
  fix b b' :: inmem_bus and t s :: string and n frm ms
  assume "bus_inv b" "bus_peek inmem_bus_ops t s n frm b = (Inr ms, b')"
  then show "bus_inv b' \<and> pending_of b' = pending_of b \<and> dlqs b' = dlqs b \<and> queue_of b' = queue_of b \<and>
      ms = slice_first n (case frm of None \<Rightarrow> queue_of b t s
                          | Some c \<Rightarrow> filter (seq_at_least c) (queue_of b t s))"
    using bus_inv_peek [of b t s n frm]
    by (auto simp: ib_peek_def Let_def pending_of_def fun_eq_iff)
qed

section \<open>Any sequence of bus operations\<close>

datatype bus_act =
    Publish string pyval "string option" "string option"
  | Receive string string int
  | Complete message
  | DeadLetter message string
  | Peek string string int "int option"
  | DrainDead string string

text \<open>What an operation hands to its caller, nothing when it raised.\<close>

definition delivered :: "message list result \<Rightarrow> message list" where
  "delivered r = (case r of Inl _ \<Rightarrow> [] | Inr ms \<Rightarrow> ms)"

fun bus_step :: "bus_act \<Rightarrow> inmem_bus \<Rightarrow> message list \<times> inmem_bus" where
  "bus_step (Publish t body mid corr) b = ([], snd (ib_publish t body mid corr b))"
| "bus_step (Receive t s n) b = (delivered (fst (ib_receive t s n b)), snd (ib_receive t s n b))"
| "bus_step (Complete m) b = ([], snd (ib_complete m b))"
| "bus_step (DeadLetter m reason) b = ([], snd (ib_dead_letter m reason b))"
| "bus_step (Peek t s n from) b = ([], snd (ib_peek t s n from b))"
| "bus_step (DrainDead t s) b = ([], snd (ib_receive_dead_letter t s b))"

text \<open>The messages delivered by the receives of a run, in order, and the final bus.\<close>

fun bus_run :: "bus_act list \<Rightarrow> inmem_bus \<Rightarrow> message list \<times> inmem_bus" where
  "bus_run [] b = ([], b)"
| "bus_run (a # as) b =
     (let (d, b1) = bus_step a b; (ds, b2) = bus_run as b1 in (d @ ds, b2))"

lemma bus_inv_step: "bus_inv b \<Longrightarrow> bus_inv (snd (bus_step a b))"
  by (cases a) (simp_all add: bus_inv_publish bus_inv_receive bus_inv_complete bus_inv_dead_letter
      bus_inv_peek bus_inv_receive_dead_letter)

lemma bus_inv_run: "bus_inv b \<Longrightarrow> bus_inv (snd (bus_run as b))"
  by (induction as arbitrary: b) (auto simp: split_beta dest: bus_inv_step)

text \<open>
  The history of a subscription: what has been delivered to it, then what is still queued.
  Every operation either leaves it alone or appends one message with a fresh number and a
  fresh id, so numbers increase along it and no id occurs twice.
\<close>

definition sub_of :: "string \<Rightarrow> string \<Rightarrow> message list \<Rightarrow> message list" where
  "sub_of t s ms = filter (\<lambda>m. msg_topic m = t \<and> msg_sub m = s) ms"

definition history_of :: "message list \<Rightarrow> inmem_bus \<Rightarrow> string \<Rightarrow> string \<Rightarrow> message list" where
  "history_of D b t s = sub_of t s D @ queue_of b t s"

definition history_wf :: "message list \<Rightarrow> inmem_bus \<Rightarrow> string \<Rightarrow> string \<Rightarrow> bool" where
  "history_wf D b t s \<longleftrightarrow>
     sorted_wrt (<) (map seq_no (history_of D b t s)) \<and> distinct (map msg_id (history_of D b t s)) \<and>
     (\<forall>m \<in> set (history_of D b t s). seq_no m < next_sequence b t \<and> msg_id m \<in> seen_ids b t)"

lemma history_wf_same:
  assumes "history_wf D b t s" "history_of D' b' t s = history_of D b t s"
    "seen_ids b t \<subseteq> seen_ids b' t" "next_sequence b t \<le> next_sequence b' t"
  shows "history_wf D' b' t s"
  using assms unfolding history_wf_def by fastforce

lemma history_wf_snoc:
  assumes "history_wf D b t s" "history_of D' b' t s = history_of D b t s @ [m]"
    "seq_no m = next_sequence b t" "msg_id m \<notin> seen_ids b t"
    "seen_ids b' t = insert (msg_id m) (seen_ids b t)" "next_sequence b' t = next_sequence b t + 1"
  shows "history_wf D' b' t s"
  using assms unfolding history_wf_def
  by (fastforce simp: sorted_wrt_append)

lemma history_publish:
  assumes "history_wf D b t s"
  shows "history_wf D (snd (ib_publish topic body mid corr b)) t s"
proof (cases "fst (pick_message_id mid b) \<in> seen_ids b topic")
  case True
  show ?thesis
    by (rule history_wf_same [OF assms])
       (simp_all add: ib_publish_dup [OF True] history_of_def queue_of_def)
next
  case False
  note new = ib_publish_new [OF False]
  show ?thesis
  proof (cases "t = topic \<and> queues b t s \<noteq> None")
    case True
    show ?thesis
      by (rule history_wf_snoc [OF assms, where m = "published_message t s body
            (fst (pick_message_id mid b)) corr (next_sequence b t)"])
         (use True False in \<open>auto simp: history_of_def new\<close>)
  next
    case False
    then have "queue_of (snd (ib_publish topic body mid corr b)) t s = queue_of b t s"
      by (auto simp: new)
    then show ?thesis
      by (intro history_wf_same [OF assms]) (auto simp: history_of_def new)
  qed
qed

lemma history_receive:
  assumes inv: "bus_inv b" and wf: "history_wf D b t s"
  shows "history_wf (D @ take (nat n) (queue_of b t' s')) (snd (ib_receive t' s' n b)) t s"
proof (rule history_wf_same [OF wf])
  have q: "msg_topic m = t' \<and> msg_sub m = s'" if "m \<in> set (take (nat n) (queue_of b t' s'))" for m
    using queued_wfD(1,2) [OF inv in_set_takeD [OF that]] by simp
  show "history_of (D @ take (nat n) (queue_of b t' s')) (snd (ib_receive t' s' n b)) t s
      = history_of D b t s"
  proof (cases "t = t' \<and> s = s'")
    case True
    then have "sub_of t s (take (nat n) (queue_of b t' s')) = take (nat n) (queue_of b t' s')"
      unfolding sub_of_def filter_id_conv using q by blast
    then show ?thesis using True by (simp add: history_of_def receive_parts sub_of_def)
  next
    case False
    then have "sub_of t s (take (nat n) (queue_of b t' s')) = []"
      unfolding sub_of_def filter_empty_conv using q by blast
    then show ?thesis using False by (auto simp: history_of_def receive_parts sub_of_def)
  qed
qed (simp_all add: receive_parts)

lemma history_step:
  assumes "bus_inv b" "history_wf D b t s"
  shows "history_wf (D @ fst (bus_step a b)) (snd (bus_step a b)) t s"
proof (cases a)
  case (Publish topic body mid corr)
  then show ?thesis using history_publish [OF assms(2)] by simp
next
  case (Receive t' s' n)
  then show ?thesis using history_receive [OF assms] by (simp add: delivered_def receive_parts)
qed (use assms(2) in \<open>auto intro!: history_wf_same [OF assms(2)]
    simp: history_of_def ib_complete_def ib_dead_letter_def ib_peek_def ib_receive_dead_letter_def Let_def\<close>)

lemma history_run:
  assumes "bus_inv b" "history_wf D b t s"
  shows "history_wf (D @ fst (bus_run as b)) (snd (bus_run as b)) t s"
  using assms
proof (induction as arbitrary: D b)
  case (Cons a as)
  from Cons.IH [OF bus_inv_step [OF Cons.prems(1)] history_step [OF Cons.prems]]
  show ?case by (simp add: split_beta)
qed simp

text \<open>
  C6: in-order, at-most-once delivery: whatever sequence of operations a fresh bus goes
  through, the messages that the calls of \<open>receive\<close> answered for a subscription carry strictly
  increasing sequence numbers and no message id is among them twice.
\<close>

theorem delivery_in_order_once:
  "sorted_wrt (<) (map seq_no (sub_of t s (fst (bus_run as (inmem_bus_init us))))) \<and>
   distinct (map msg_id (sub_of t s (fst (bus_run as (inmem_bus_init us)))))"
proof -
  have "history_wf [] (inmem_bus_init us) t s"
    by (simp add: history_wf_def history_of_def sub_of_def inmem_bus_init_def queue_of_def)
  from history_run [OF bus_inv_init this] show ?thesis
    by (auto simp: history_wf_def history_of_def sorted_wrt_append)
qed

text \<open>
  duplicate detection: publishing with an id the topic has already seen leaves the whole
  bus as it was, and publishing with a new id appends exactly one message, with the topic's
  next sequence number, to every subscription that has been accessed and to no other queue.
\<close>

theorem publish_dedup:
  assumes "mid \<noteq> []"
  shows "(if mid \<in> seen_ids b topic
          then ib_publish topic body (Some mid) corr b = (Inr (), b)
          else queue_of (snd (ib_publish topic body (Some mid) corr b)) t s =
                 queue_of b t s @
                 (if t = topic \<and> queues b t s \<noteq> None
                  then [published_message t s body mid corr (next_sequence b t)] else []))
       \<and> ib_publish topic body' (Some mid) corr' (snd (ib_publish topic body (Some mid) corr b))
          = (Inr (), snd (ib_publish topic body (Some mid) corr b))"
proof (cases "mid \<in> seen_ids b topic")
  case True
  then show ?thesis using assms by (simp add: ib_publish_dup)
next
  case False
  have new: "fst (pick_message_id (Some mid) b) \<notin> seen_ids b topic" using False assms by simp
  have "mid \<in> seen_ids (snd (ib_publish topic body (Some mid) corr b)) topic"
    using ib_publish_new(4) [OF new] assms by simp
  then show ?thesis using False assms ib_publish_new(2) [OF new, of body corr t s]
    by (auto simp: ib_publish_dup)
qed

theorem publish_dedup_witness:
  "''m1'' \<noteq> [] \<and>
   ib_publish ''signals'' PNone (Some ''m1'') None
     (snd (ib_publish ''signals'' (PInt 1) (Some ''m1'') None (inmem_bus_init (\<lambda>_. ''u''))))
   = (Inr (), snd (ib_publish ''signals'' (PInt 1) (Some ''m1'') None (inmem_bus_init (\<lambda>_. ''u''))))"
proof -
  have ne: "''m1'' \<noteq> []" by simp
  from publish_dedup [OF ne] show ?thesis by blast
qed

text \<open>A bus after two insights were published to a subscription that exists.\<close>

definition example_bus :: inmem_bus where
  "example_bus = snd (bus_run
     [Peek ''insights'' ''api'' 0 None, Publish ''insights'' (PInt 10) (Some ''a'') None,
      Publish ''insights'' (PInt 20) (Some ''b'') None] (inmem_bus_init (\<lambda>_. ''u'')))"

lemma example_bus_queue:
  "queue_of example_bus ''insights'' ''api'' =
     [published_message ''insights'' ''api'' (PInt 10) ''a'' None 1,
      published_message ''insights'' ''api'' (PInt 20) ''b'' None 2]"
  by (simp add: example_bus_def ib_publish_def ib_peek_def Let_def inmem_bus_init_def queue_of_def
      set_queue_def published_message_def pick_message_id_def)

text \<open>
  resuming a peek: on a queue in sequence order, peeking from a cursor returns the first
  \<open>n\<close> messages numbered at or after it, and peeking again from one past the last number
  returned continues exactly where the first peek stopped.
\<close>

theorem peek_resume:
  assumes "bus_inv b" "0 \<le> n"
    and "ib_peek t s n (Some c) b = (Inr ms, b1)" "ms \<noteq> []"
    and "ib_peek t s k (Some (seq_no (last ms) + 1)) b1 = (Inr ms', b2)" "0 \<le> k"
  shows "ms @ ms' = take (length ms + nat k) (filter (seq_at_least c) (queue_of b t s))"
proof -
  let ?q = "filter (seq_at_least c) (queue_of b t s)"
  have ms: "ms = take (nat n) ?q" and q1: "queue_of b1 t s = queue_of b t s"
    using assms(2,3) by (auto simp: ib_peek_def Let_def slice_first_def)
  have seq: "msg_seq m = Some (seq_no m)" if "m \<in> set (queue_of b t s)" for m
    using queued_wfD(3) [OF assms(1) that] by (auto simp: seq_no_def)
  have sorted: "sorted_wrt (<) (map seq_no ?q)"
  proof -
    have "sorted_wrt (<) (map seq_no (queue_of b t s))"
      using assms(1) by (simp add: bus_inv_def queue_wf_def)
    then show ?thesis by (simp add: sorted_wrt_map sorted_wrt_filter)
  qed
  have rest: "filter (seq_at_least (seq_no (last ms) + 1)) (queue_of b t s) = drop (length ms) ?q"
  proof -
    have split: "?q = ms @ drop (length ms) ?q"
      using ms by (metis append_take_drop_id length_take min.absorb2 nat_le_linear take_all
          append_Nil2 drop_all length_drop min_def)
    have le: "seq_no m \<le> seq_no (last ms)" if "m \<in> set ms" for m
    proof -
      have "sorted_wrt (<) (map seq_no ms)"
        using sorted split by (metis map_append sorted_wrt_append)
      moreover have "ms = butlast ms @ [last ms]" using assms(4) by simp
      ultimately have "sorted_wrt (<) (map seq_no (butlast ms) @ [seq_no (last ms)])"
        by (metis list.simps(8,9) map_append)
      then have "\<forall>x \<in> set (butlast ms). seq_no x < seq_no (last ms)"
        by (auto simp: sorted_wrt_append)
      moreover have "set ms = insert (last ms) (set (butlast ms))"
        using \<open>ms = butlast ms @ [last ms]\<close> by (metis Un_insert_right list.set(1,2) set_append sup_bot_right)
      ultimately show ?thesis using that by force
    qed
    have gt: "seq_no (last ms) < seq_no m" if "m \<in> set (drop (length ms) ?q)" for m
    proof -
      have "sorted_wrt (<) (map seq_no ms @ map seq_no (drop (length ms) ?q))"
        using sorted split by (metis map_append)
      then show ?thesis using that assms(4) by (auto simp: sorted_wrt_append)
    qed
    have lastc: "c \<le> seq_no (last ms)"
    proof -
      have "last ms \<in> set ?q" using assms(4) ms by (metis in_set_takeD last_in_set)
      then show ?thesis using seq [of "last ms"] by (auto simp: seq_at_least_def)
    qed
    have "filter (seq_at_least (seq_no (last ms) + 1)) (queue_of b t s)
        = filter (seq_at_least (seq_no (last ms) + 1)) ?q"
      using lastc seq by (auto simp: seq_at_least_def intro!: filter_cong)
    also have "\<dots> = filter (seq_at_least (seq_no (last ms) + 1)) (ms @ drop (length ms) ?q)"
      using split by simp
    also have "\<dots> = drop (length ms) ?q"
    proof -
      have mem: "set ms \<subseteq> set (queue_of b t s)" "set (drop (length ms) ?q) \<subseteq> set (queue_of b t s)"
        using ms by (auto dest: in_set_takeD in_set_dropD)
      have "filter (seq_at_least (seq_no (last ms) + 1)) ms = []"
        using le mem(1) seq by (force simp: filter_empty_conv seq_at_least_def)
      moreover have "filter (seq_at_least (seq_no (last ms) + 1)) (drop (length ms) ?q) = drop (length ms) ?q"
        using gt mem(2) seq by (force simp: filter_id_conv seq_at_least_def)
      ultimately show ?thesis by simp
    qed
    finally show ?thesis .
  qed
  have "ms' = take (nat k) (drop (length ms) ?q)"
    using assms(5,6) q1 rest by (auto simp: ib_peek_def Let_def slice_first_def)
  moreover have "ms = take (length ms) ?q" using ms by (simp add: min_def)
  ultimately show ?thesis by (metis take_add)
qed

theorem peek_resume_witness:
  "fst (ib_peek ''insights'' ''api'' 1 (Some 1) example_bus)
     = Inr [published_message ''insights'' ''api'' (PInt 10) ''a'' None 1] \<and>
   [published_message ''insights'' ''api'' (PInt 10) ''a'' None 1,
    published_message ''insights'' ''api'' (PInt 20) ''b'' None 2]
     = take (1 + 5) (filter (seq_at_least 1) (queue_of example_bus ''insights'' ''api''))"
proof -
  have inv: "bus_inv example_bus"
    unfolding example_bus_def by (intro bus_inv_run bus_inv_init)
  have q: "filter (seq_at_least c) (queue_of example_bus ''insights'' ''api'') =
      (if c \<le> 1 then [published_message ''insights'' ''api'' (PInt 10) ''a'' None 1] else []) @
      (if c \<le> 2 then [published_message ''insights'' ''api'' (PInt 20) ''b'' None 2] else [])" for c
    by (simp add: example_bus_queue seq_at_least_def)
  let ?m = "published_message ''insights'' ''api'' (PInt 10) ''a'' None 1"
  let ?m' = "published_message ''insights'' ''api'' (PInt 20) ''b'' None 2"
  let ?b1 = "snd (ib_peek ''insights'' ''api'' 1 (Some 1) example_bus)"
  have p1: "ib_peek ''insights'' ''api'' 1 (Some 1) example_bus = (Inr [?m], ?b1)"
    by (simp add: ib_peek_def Let_def q slice_first_def)
  have q1: "queue_of ?b1 = queue_of example_bus"
    by (simp add: ib_peek_def Let_def fun_eq_iff)
  have p2: "ib_peek ''insights'' ''api'' 5 (Some (seq_no (last [?m]) + 1)) ?b1
      = (Inr [?m'], snd (ib_peek ''insights'' ''api'' 5 (Some 2) ?b1))"
    by (simp add: ib_peek_def [of _ _ 5] Let_def q1 q slice_first_def)
  from peek_resume [OF inv _ p1 _ p2] show ?thesis
    using arg_cong [OF p1, of fst] by simp
qed

end
