(* ===== verification/Resilience.thy ===== *)
theory Resilience
  imports BusContract
begin

text \<open>
  \<open>libs/common/resilience.py\<close>: the circuit breaker (as a sequential wrapper of an
  operation and as a step relation of concurrent calls on one event loop), the retry
  policy over the iterator of the retry library, the poll loop, the dead-letter helper and
  the shutdown helper.
\<close>

section \<open>CircuitBreaker\<close>

datatype circuit_state = CLOSED | OPEN | HALF_OPEN

record breaker =
  failure_threshold :: int
  reset_timeout :: real
  cb_state :: circuit_state
  failure_count :: int
  opened_at :: "real option"
  half_open_locked :: bool
  cb_clock :: clock

definition breaker_init :: "int \<Rightarrow> real \<Rightarrow> clock \<Rightarrow> breaker" where
  "breaker_init threshold timeout clk =
     \<lparr>failure_threshold = threshold, reset_timeout = timeout, cb_state = CLOSED,
      failure_count = 0, opened_at = None, half_open_locked = False, cb_clock = clk\<rparr>"

definition maybe_transition_half_open :: "breaker \<Rightarrow> breaker" where
  "maybe_transition_half_open b =
     (if cb_state b = OPEN
      then (case opened_at b of
              None \<Rightarrow> b
            | Some t \<Rightarrow> (let (now, clk) = read_clock (cb_clock b);
                            b' = b\<lparr>cb_clock := clk\<rparr>
                        in if now - t \<ge> reset_timeout b then b'\<lparr>cb_state := HALF_OPEN\<rparr> else b'))
      else b)"

definition open_now :: "breaker \<Rightarrow> breaker" where
  "open_now b = (let (now, clk) = read_clock (cb_clock b)
                 in b\<lparr>cb_state := OPEN, opened_at := Some now, cb_clock := clk\<rparr>)"

definition record_failure :: "breaker \<Rightarrow> breaker" where
  "record_failure b =
     (if cb_state b = HALF_OPEN then open_now b
      else (let b' = b\<lparr>failure_count := failure_count b + 1\<rparr>
            in if failure_count b' \<ge> failure_threshold b' then open_now b' else b'))"

definition record_success :: "breaker \<Rightarrow> breaker" where
  "record_success b = b\<lparr>cb_state := CLOSED, failure_count := 0, opened_at := None\<rparr>"

text \<open>The property \<open>state\<close>: reading it may move the breaker to half open.\<close>

definition breaker_state :: "breaker \<Rightarrow> circuit_state \<times> breaker" where
  "breaker_state b = (let b' = maybe_transition_half_open b in (cb_state b', b'))"

definition open_message :: "pylib \<Rightarrow> breaker \<Rightarrow> string" where
  "open_message lib b = ''Circuit is OPEN; failing fast. (threshold='' @ int_str (failure_threshold b)
     @ '', timeout='' @ float_str lib (reset_timeout b) @ ''s)''"

definition probe_message :: string where
  "probe_message = ''Circuit is HALF_OPEN and a probe is already in flight; failing fast.''"

text \<open>
  \<open>_do_call\<close> and \<open>call\<close> on the state that holds the breaker next to the state the
  operation works on.  No other task runs during a sequential call, so the lock a probe
  takes is free again when it ends.
\<close>

definition do_call :: "('s, 'a) pm \<Rightarrow> (breaker \<times> 's, 'a) pm" where
  "do_call op = (\<lambda>(b, s). case op s of
       (Inl e, s') \<Rightarrow> (Inl e, (record_failure b, s'))
     | (Inr x, s') \<Rightarrow> (Inr x, (record_success b, s')))"

definition set_lock :: "bool \<Rightarrow> breaker \<times> 's \<Rightarrow> breaker \<times> 's" where
  "set_lock v = (\<lambda>(b, s). (b\<lparr>half_open_locked := v\<rparr>, s))"

definition cb_call :: "pylib \<Rightarrow> ('s, 'a) pm \<Rightarrow> (breaker \<times> 's, 'a) pm" where
  "cb_call lib op = (\<lambda>(b0, s).
     (let b = maybe_transition_half_open b0 in
      case cb_state b of
        OPEN \<Rightarrow> (Inl (CircuitOpenError (open_message lib b)), (b, s))
      | HALF_OPEN \<Rightarrow>
          (if half_open_locked b then (Inl (CircuitOpenError probe_message), (b, s))
           else (let (r, bs) = do_call op (set_lock True (b, s)) in (r, set_lock False bs)))
      | CLOSED \<Rightarrow> do_call op (b, s)))"

lemma maybe_transition_frame [simp]:
  "failure_threshold (maybe_transition_half_open b) = failure_threshold b"
  "reset_timeout (maybe_transition_half_open b) = reset_timeout b"
  "failure_count (maybe_transition_half_open b) = failure_count b"
  "opened_at (maybe_transition_half_open b) = opened_at b"
  "half_open_locked (maybe_transition_half_open b) = half_open_locked b"
  "ticks (cb_clock (maybe_transition_half_open b)) = ticks (cb_clock b)"
  by (simp_all add: maybe_transition_half_open_def Let_def read_clock_def split: option.split)

lemma maybe_transition_state:
  "cb_state (maybe_transition_half_open b) =
     (if cb_state b = OPEN \<and> (\<exists>t. opened_at b = Some t \<and>
           ticks (cb_clock b) (reads (cb_clock b)) - t \<ge> reset_timeout b)
      then HALF_OPEN else cb_state b)"
  by (auto simp: maybe_transition_half_open_def Let_def read_clock_def split: option.split)

lemma maybe_transition_idle [simp]: "cb_state b \<noteq> OPEN \<Longrightarrow> maybe_transition_half_open b = b"
  by (simp add: maybe_transition_half_open_def)

lemma open_now_sel [simp]:
  "cb_state (open_now b) = OPEN" "opened_at (open_now b) = Some (ticks (cb_clock b) (reads (cb_clock b)))"
  "failure_count (open_now b) = failure_count b" "failure_threshold (open_now b) = failure_threshold b"
  "reset_timeout (open_now b) = reset_timeout b" "half_open_locked (open_now b) = half_open_locked b"
  "ticks (cb_clock (open_now b)) = ticks (cb_clock b)"
  by (simp_all add: open_now_def Let_def read_clock_def)

lemma record_success_sel [simp]:
  "cb_state (record_success b) = CLOSED" "opened_at (record_success b) = None"
  "failure_count (record_success b) = 0" "failure_threshold (record_success b) = failure_threshold b"
  "reset_timeout (record_success b) = reset_timeout b"
  "half_open_locked (record_success b) = half_open_locked b"
  by (simp_all add: record_success_def)

lemma record_failure_sel [simp]:
  "failure_threshold (record_failure b) = failure_threshold b"
  "reset_timeout (record_failure b) = reset_timeout b"
  "half_open_locked (record_failure b) = half_open_locked b"
  "ticks (cb_clock (record_failure b)) = ticks (cb_clock b)"
  by (simp_all add: record_failure_def Let_def)

text \<open>
  What a breaker's fields say about each other: an open breaker knows when it opened, a
  closed one does not and has counted fewer failures than its threshold.
\<close>

definition breaker_inv :: "breaker \<Rightarrow> bool" where
  "breaker_inv b \<longleftrightarrow>
     (cb_state b = OPEN \<longrightarrow> opened_at b \<noteq> None) \<and>
     (cb_state b = CLOSED \<longrightarrow> opened_at b = None \<and> failure_count b < failure_threshold b) \<and>
     0 \<le> failure_count b \<and> 0 < failure_threshold b"

lemma breaker_inv_init: "0 < n \<Longrightarrow> breaker_inv (breaker_init n t clk)"
  by (simp add: breaker_inv_def breaker_init_def)

lemma breaker_inv_transition: "breaker_inv b \<Longrightarrow> breaker_inv (maybe_transition_half_open b)"
  by (auto simp: breaker_inv_def maybe_transition_state)

lemma breaker_inv_failure: "breaker_inv b \<Longrightarrow> breaker_inv (record_failure b)"
  by (cases "cb_state b") (auto simp: breaker_inv_def record_failure_def Let_def)

lemma breaker_inv_success: "breaker_inv b \<Longrightarrow> breaker_inv (record_success b)"
  by (simp add: breaker_inv_def)

lemma breaker_inv_lock: "breaker_inv (b\<lparr>half_open_locked := v\<rparr>) = breaker_inv b"
  by (simp add: breaker_inv_def)

lemma breaker_inv_open: "breaker_inv b \<Longrightarrow> breaker_inv (open_now b)"
  by (simp add: breaker_inv_def)

lemmas breaker_inv_intros = breaker_inv_transition breaker_inv_failure breaker_inv_success
  breaker_inv_open

text \<open>The three ways a call goes.\<close>

lemma cb_call_open:
  "cb_state (maybe_transition_half_open b) = OPEN \<Longrightarrow>
   cb_call lib op (b, s) =
     (Inl (CircuitOpenError (open_message lib (maybe_transition_half_open b))),
      (maybe_transition_half_open b, s))"
  by (simp add: cb_call_def Let_def)

lemma cb_call_closed: "cb_state b = CLOSED \<Longrightarrow> cb_call lib op (b, s) = do_call op (b, s)"
  by (simp add: cb_call_def)

lemma record_lock_commute:
  "(record_failure (b\<lparr>half_open_locked := v\<rparr>))\<lparr>half_open_locked := w\<rparr> =
     (record_failure b)\<lparr>half_open_locked := w\<rparr>"
  "(record_success (b\<lparr>half_open_locked := v\<rparr>))\<lparr>half_open_locked := w\<rparr> =
     (record_success b)\<lparr>half_open_locked := w\<rparr>"
  by (simp_all add: record_failure_def record_success_def open_now_def Let_def read_clock_def)

lemma cb_call_half_open:
  assumes "cb_state (maybe_transition_half_open b) = HALF_OPEN" "\<not> half_open_locked b"
  shows "cb_call lib op (b, s) =
    (let b' = maybe_transition_half_open b in
     case op s of
       (Inl e, s') \<Rightarrow> (Inl e, ((record_failure b')\<lparr>half_open_locked := False\<rparr>, s'))
     | (Inr x, s') \<Rightarrow> (Inr x, ((record_success b')\<lparr>half_open_locked := False\<rparr>, s')))"
  using assms
  by (auto simp: cb_call_def do_call_def set_lock_def Let_def record_lock_commute split: prod.split sum.split)

text \<open>
  C12: an open circuit fails fast: before the reset timeout has passed since it opened, a call
  raises \<open>CircuitOpenError\<close>, never runs the operation (the state it works on is untouched,
  whatever the operation is) and leaves the breaker open with its opening time.
\<close>

theorem open_circuit_fails_fast:
  assumes "cb_state b = OPEN" "opened_at b = Some t"
    and "ticks (cb_clock b) (reads (cb_clock b)) - t < reset_timeout b"
  shows "\<exists>msg b'. cb_call lib op (b, s) = (Inl (CircuitOpenError msg), (b', s)) \<and>
    cb_state b' = OPEN \<and> opened_at b' = Some t \<and> failure_count b' = failure_count b"
  using assms cb_call_open [of b lib op s] by (simp add: maybe_transition_state)

definition opened_breaker :: breaker where
  "opened_breaker = open_now (breaker_init 3 60 second_clock)"

theorem open_circuit_fails_fast_witness:
  "\<exists>msg b'. cb_call undefined (returnM (7::int)) (opened_breaker, ()) = (Inl (CircuitOpenError msg), (b', ()))"
proof -
  have "ticks (cb_clock opened_breaker) (reads (cb_clock opened_breaker)) - 0 < reset_timeout opened_breaker"
    by (simp add: opened_breaker_def open_now_def breaker_init_def second_clock_def read_clock_def Let_def)
  from open_circuit_fails_fast [OF _ _ this, of undefined "returnM (7::int)" "()"] show ?thesis
    by (auto simp: opened_breaker_def breaker_init_def second_clock_def)
qed

lemma do_call_fails:
  assumes "fst (op s) = Inl e"
  shows "do_call op (b, s) = (Inl e, (record_failure b, snd (op s)))"
  using assms by (auto simp: do_call_def split: prod.split)

text \<open>
  the circuit opens on exactly the failure that reaches the threshold: with an operation
  that always raises, \<open>k\<close> calls of a fresh breaker leave it closed with a count of \<open>k\<close>
  below the threshold, and open at the threshold.
\<close>

theorem opens_at_threshold:
  assumes fail: "\<And>s. \<exists>e. fst (op s) = Inl e" and n: "0 < n" and k: "int k \<le> n"
  shows "\<exists>b' s'. ((\<lambda>bs. snd (cb_call lib op bs)) ^^ k) (breaker_init n t clk, s) = (b', s') \<and>
     failure_count b' = int k \<and> cb_state b' = (if int k < n then CLOSED else OPEN) \<and>
     failure_threshold b' = n"
  using k
proof (induction k)
  case 0
  then show ?case using n by (simp add: breaker_init_def)
next
  case (Suc k)
  then obtain b' s' where it: "((\<lambda>bs. snd (cb_call lib op bs)) ^^ k) (breaker_init n t clk, s) = (b', s')"
    and b': "failure_count b' = int k" "cb_state b' = CLOSED" "failure_threshold b' = n"
    by auto
  obtain e where "fst (op s') = Inl e" using fail by blast
  then have "snd (cb_call lib op (b', s')) = (record_failure b', snd (op s'))"
    by (simp add: cb_call_closed b' do_call_fails)
  with it show ?case using b' Suc.prems
    by (auto simp: record_failure_def Let_def)
qed

theorem opens_at_threshold_witness:
  "\<exists>b' s'. ((\<lambda>bs. snd (cb_call undefined (raiseM (BackendError ''down'') :: (unit, int) pm) bs)) ^^ 3)
      (breaker_init 3 60 second_clock, ()) = (b', s') \<and> cb_state b' = OPEN"
  using opens_at_threshold [of "raiseM (BackendError ''down'') :: (unit, int) pm" 3 3 undefined 60 second_clock "()"]
  by (auto simp: raiseM_def)

text \<open>
  every call keeps the breaker's invariant and leaves the probe lock free; a call admitted
  half open is a single probe that decides: its success closes the circuit and clears the
  failure count, its failure opens it again with a fresh opening time.
\<close>

theorem probe_decides:
  assumes "breaker_inv b" "\<not> half_open_locked b" and call: "cb_call lib op (b, s) = (r, (b', s'))"
  shows "breaker_inv b' \<and> \<not> half_open_locked b' \<and>
    (cb_state (maybe_transition_half_open b) = HALF_OPEN \<longrightarrow>
       op s = (r, s') \<and>
       (case r of Inr _ \<Rightarrow> cb_state b' = CLOSED \<and> failure_count b' = 0
        | Inl _ \<Rightarrow> cb_state b' = OPEN \<and>
            opened_at b' = Some (let c = cb_clock (maybe_transition_half_open b) in ticks c (reads c))))"
proof -
  let ?m = "maybe_transition_half_open b"
  have m: "breaker_inv ?m" using assms(1) by (rule breaker_inv_transition)
  obtain q t where op: "op s = (q, t)" by (cases "op s")
  show ?thesis
  proof (cases "cb_state ?m")
    case OPEN
    then show ?thesis using call m assms(2) by (auto simp: cb_call_open)
  next
    case HALF_OPEN
    then show ?thesis using call assms(2) op m
      by (cases q)
         (auto simp: cb_call_half_open Let_def breaker_inv_lock breaker_inv_intros record_failure_def)
  next
    case CLOSED
    then have "cb_state b = CLOSED" by (auto simp: maybe_transition_state split: if_splits)
    then show ?thesis using call op assms CLOSED
      by (cases q) (auto simp: cb_call_closed do_call_def breaker_inv_intros)
  qed
qed

definition half_open_breaker :: breaker where
  "half_open_breaker = (breaker_init 3 60 second_clock)\<lparr>cb_state := HALF_OPEN, failure_count := 3, opened_at := Some 0\<rparr>"

theorem probe_decides_witness:
  "\<exists>b'. cb_call undefined (returnM (7::int)) (half_open_breaker, ()) = (Inr 7, (b', ())) \<and> cb_state b' = CLOSED"
proof -
  let ?op = "returnM (7::int) :: (unit, int) pm"
  have inv: "breaker_inv half_open_breaker" and free: "\<not> half_open_locked half_open_breaker"
    and st: "cb_state half_open_breaker = HALF_OPEN"
    by (simp_all add: half_open_breaker_def breaker_init_def breaker_inv_def)
  obtain r b' where call: "cb_call undefined ?op (half_open_breaker, ()) = (r, (b', ()))"
    by (metis surj_pair unit.exhaust)
  from probe_decides [OF inv free call] st call show ?thesis by (auto simp: returnM_def)
qed

section \<open>Concurrent calls\<close>

text \<open>
  Calls of one event loop, interleaved at the awaits of the wrapped operations: a task is
  idle, runs an operation admitted closed, or runs the probe.  Admission (the transition
  check, the state test, the lock test and its acquisition) has no await in it, so it is one
  step.  A cancelled task neither counts as a failure nor as a success; leaving the
  \<open>async with\<close> block releases the lock.
\<close>

datatype task_phase = Idle | Admitted | Probe

record loop_state =
  lp_breaker :: breaker
  lp_task :: "nat \<Rightarrow> task_phase"

definition leave :: "nat \<Rightarrow> loop_state \<Rightarrow> loop_state" where
  "leave t c = c\<lparr>lp_task := (lp_task c)(t := Idle),
     lp_breaker := (if lp_task c t = Probe then (lp_breaker c)\<lparr>half_open_locked := False\<rparr> else lp_breaker c)\<rparr>"

definition settle :: "bool \<Rightarrow> breaker \<Rightarrow> breaker" where
  "settle ok b = (if ok then record_success b else record_failure b)"

inductive cb_step :: "loop_state \<Rightarrow> loop_state \<Rightarrow> bool" where
  reject_open: "lp_task c t = Idle \<Longrightarrow> b = maybe_transition_half_open (lp_breaker c) \<Longrightarrow>
     cb_state b = OPEN \<Longrightarrow> cb_step c (c\<lparr>lp_breaker := b\<rparr>)"
| reject_probing: "lp_task c t = Idle \<Longrightarrow> b = maybe_transition_half_open (lp_breaker c) \<Longrightarrow>
     cb_state b = HALF_OPEN \<Longrightarrow> half_open_locked b \<Longrightarrow> cb_step c (c\<lparr>lp_breaker := b\<rparr>)"
| admit: "lp_task c t = Idle \<Longrightarrow> b = maybe_transition_half_open (lp_breaker c) \<Longrightarrow>
     cb_state b = CLOSED \<Longrightarrow> cb_step c (c\<lparr>lp_breaker := b, lp_task := (lp_task c)(t := Admitted)\<rparr>)"
| probe: "lp_task c t = Idle \<Longrightarrow> b = maybe_transition_half_open (lp_breaker c) \<Longrightarrow>
     cb_state b = HALF_OPEN \<Longrightarrow> \<not> half_open_locked b \<Longrightarrow>
     cb_step c (c\<lparr>lp_breaker := b\<lparr>half_open_locked := True\<rparr>, lp_task := (lp_task c)(t := Probe)\<rparr>)"
| finish: "lp_task c t \<noteq> Idle \<Longrightarrow> cb_step c (leave t (c\<lparr>lp_breaker := settle ok (lp_breaker c)\<rparr>))"
| cancel: "lp_task c t \<noteq> Idle \<Longrightarrow> cb_step c (leave t c)"
| inspect: "cb_step c (c\<lparr>lp_breaker := snd (breaker_state (lp_breaker c))\<rparr>)"
| elapse: "cb_step c (c\<lparr>lp_breaker := (lp_breaker c)\<lparr>cb_clock := snd (read_clock (cb_clock (lp_breaker c)))\<rparr>\<rparr>)"

inductive_cases cb_stepE: "cb_step c c'"

definition loop_inv :: "loop_state \<Rightarrow> bool" where
  "loop_inv c \<longleftrightarrow> breaker_inv (lp_breaker c) \<and>
     (\<forall>t. lp_task c t = Probe \<longrightarrow> half_open_locked (lp_breaker c)) \<and>
     (\<forall>t u. lp_task c t = Probe \<longrightarrow> lp_task c u = Probe \<longrightarrow> t = u)"

lemma settle_inv: "breaker_inv b \<Longrightarrow> breaker_inv (settle ok b)"
  by (simp add: settle_def breaker_inv_intros)

lemma settle_lock [simp]: "half_open_locked (settle ok b) = half_open_locked b"
  by (simp add: settle_def)

lemma leave_inv: "loop_inv c \<Longrightarrow> loop_inv (leave t c)"
  unfolding loop_inv_def leave_def by (auto simp: breaker_inv_lock split: if_splits)

lemma loop_inv_step: "cb_step c c' \<Longrightarrow> loop_inv c \<Longrightarrow> loop_inv c'"
proof (induction rule: cb_step.induct)
  case (finish c t ok)
  have "loop_inv (c\<lparr>lp_breaker := settle ok (lp_breaker c)\<rparr>)"
    using finish.prems by (simp add: loop_inv_def settle_inv)
  then show ?case by (rule leave_inv)
next
  case (cancel c t)
  then show ?case by (simp add: leave_inv)
next
  case (elapse c)
  then show ?case by (auto simp: loop_inv_def breaker_inv_def)
qed (auto simp: loop_inv_def breaker_inv_transition breaker_inv_lock breaker_state_def Let_def)

definition loop_init :: "int \<Rightarrow> real \<Rightarrow> clock \<Rightarrow> loop_state" where
  "loop_init n t clk = \<lparr>lp_breaker = breaker_init n t clk, lp_task = (\<lambda>_. Idle)\<rparr>"

lemma loop_inv_reach:
  assumes "cb_step\<^sup>*\<^sup>* (loop_init n t clk) c" "0 < n"
  shows "loop_inv c"
  using assms(1)
proof (induction rule: rtranclp_induct)
  case base
  show ?case using assms(2) by (simp add: loop_inv_def loop_init_def breaker_inv_init)
next
  case (step y z)
  then show ?case by (simp add: loop_inv_step)
qed

text \<open>
  C13: under any interleaving of concurrent calls, completions, cancellations and readings of
  the state, at most one task probes a half-open circuit, a probe holds the lock that turns
  other callers away, and an open circuit always knows when it opened (so it can recover).
\<close>

theorem at_most_one_probe:
  assumes "cb_step\<^sup>*\<^sup>* (loop_init n timeout clk) c" "0 < n"
  shows "(lp_task c t = Probe \<longrightarrow> lp_task c u = Probe \<longrightarrow> t = u) \<and>
    (lp_task c t = Probe \<longrightarrow> half_open_locked (lp_breaker c)) \<and>
    (cb_state (lp_breaker c) = OPEN \<longrightarrow> opened_at (lp_breaker c) \<noteq> None) \<and>
    (cb_state (lp_breaker c) = CLOSED \<longrightarrow> failure_count (lp_breaker c) < failure_threshold (lp_breaker c))"
  using loop_inv_reach [OF assms] unfolding loop_inv_def breaker_inv_def by blast

theorem at_most_one_probe_witness:
  "\<exists>c. cb_step (loop_init 3 60 second_clock) c \<and> lp_task c 0 = Admitted \<and>
     (lp_task c 1 = Probe \<longrightarrow> lp_task c 2 = Probe \<longrightarrow> (1::nat) = 2)"
proof -
  let ?c = "loop_init 3 60 second_clock"
  let ?c1 = "?c\<lparr>lp_breaker := maybe_transition_half_open (lp_breaker ?c), lp_task := (lp_task ?c)(0 := Admitted)\<rparr>"
  have step: "cb_step ?c ?c1"
    by (rule cb_step.admit) (simp_all add: loop_init_def breaker_init_def)
  from at_most_one_probe [of 3 60 second_clock ?c1 1 2] step
  show ?thesis by (intro exI [of _ ?c1]) auto
qed

section \<open>Retry\<close>

text \<open>
  The iterator of the retry library, \<open>AsyncRetrying(stop=stop_after_attempt(m), wait=...,
  reraise=False)\<close>, is a parameter: asked with the exceptions of the attempts made so far
  (an \<open>attempt\<close> used as a context manager hands its exception back to the iterator), it
  offers another attempt, raises, or ends.  The waits between attempts only pass time.
  \<open>retry_loop\<close> is what the source writes around it: one call of the operation per
  attempt offered, its result returned at once, and the \<open>raise\<close> after the loop.  The fuel
  lets the iterator be asked \<open>max_attempts + 2\<close> times, more than a documented one answers.
\<close>

datatype retry_answer = TryAgain | RaiseIt exn | StopIteration

type_synonym retrying = "int \<Rightarrow> exn list \<Rightarrow> retry_answer"

fun retry_loop :: "retrying \<Rightarrow> int \<Rightarrow> nat \<Rightarrow> exn list \<Rightarrow> ('s, 'a) pm \<Rightarrow> ('s, 'a) pm" where
  "retry_loop it m 0 failed op = raiseM (RetryError (RuntimeError ''None''))"
| "retry_loop it m (Suc fuel) failed op =
     (case it m failed of
        TryAgain \<Rightarrow> catchM op (\<lambda>e. retry_loop it m fuel (failed @ [e]) op)
      | RaiseIt e \<Rightarrow> raiseM e
      | StopIteration \<Rightarrow> raiseM (RetryError (RuntimeError ''None'')))"

definition retry_async :: "retrying \<Rightarrow> int \<Rightarrow> ('s, 'a) pm \<Rightarrow> ('s, 'a) pm" where
  "retry_async it max_attempts op = retry_loop it max_attempts (nat max_attempts + 2) [] op"

text \<open>\<open>with_retry\<close>: the decorated function.\<close>

definition with_retry :: "retrying \<Rightarrow> int \<Rightarrow> ('x \<Rightarrow> ('s, 'a) pm) \<Rightarrow> 'x \<Rightarrow> ('s, 'a) pm" where
  "with_retry it max_attempts fn = (\<lambda>args. retry_async it max_attempts (fn args))"

text \<open>
  The documented behaviour: a first attempt always, then another one until \<open>m\<close> have
  failed, then \<open>RetryError\<close> around the last exception.
\<close>

definition stops_after_attempt :: "retrying \<Rightarrow> bool" where
  "stops_after_attempt it \<longleftrightarrow> (\<forall>m failed. it m failed =
     (if failed = [] \<or> int (length failed) < m then TryAgain else RaiseIt (RetryError (last failed))))"

text \<open>A sequence of attempts: up to \<open>n + 1\<close> of them, the last exception wrapped.\<close>

fun attempts :: "nat \<Rightarrow> ('s, 'a) pm \<Rightarrow> ('s, 'a) pm" where
  "attempts 0 op = catchM op (\<lambda>e. raiseM (RetryError e))"
| "attempts (Suc n) op = catchM op (\<lambda>_. attempts n op)"

lemma retry_loop_attempts:
  assumes it: "stops_after_attempt it" and "failed = [] \<or> int (length failed) < m"
    and "nat (m - 1 - int (length failed)) + 1 < fuel"
  shows "retry_loop it m fuel failed op = attempts (nat (m - 1 - int (length failed))) op"
  using assms(2,3)
proof (induction fuel arbitrary: failed)
  case (Suc fuel)
  have go: "it m failed = TryAgain"
    using it Suc.prems(1) by (auto simp: stops_after_attempt_def)
  show ?case
  proof (cases "nat (m - 1 - int (length failed))")
    case 0
    obtain f where f: "fuel = Suc f" using Suc.prems(2) by (cases fuel) auto
    have "it m (failed @ [e]) = RaiseIt (RetryError e)" for e
      using it 0 by (auto simp: stops_after_attempt_def)
    then show ?thesis using go 0 f by simp
  next
    case (Suc j)
    have "nat (m - 1 - int (length (failed @ [e]))) = j" for e using Suc by simp
    moreover have "int (length (failed @ [e])) < m" for e using Suc by simp
    ultimately have "retry_loop it m fuel (failed @ [e]) op = attempts j op" for e
      using Suc.IH [of "failed @ [e]"] Suc.prems(2) Suc by simp
    then show ?thesis using go Suc by simp
  qed
qed simp

lemma retry_is_attempts:
  "stops_after_attempt it \<Longrightarrow> retry_async it m op = attempts (nat (m - 1)) op"
  using retry_loop_attempts [of it "[]" m "nat m + 2" op] by (simp add: retry_async_def)

lemma attempts_all_fail:
  assumes "\<And>s. fst (op s) = Inl e"
  shows "fst (attempts n op s) = Inl (RetryError e)"
  using assms by (induction n arbitrary: s) (simp_all add: pm_simps)

text \<open>An iterator that behaves as documented.\<close>

definition attempt_iter :: retrying where
  "attempt_iter m failed =
     (if failed = [] \<or> int (length failed) < m then TryAgain else RaiseIt (RetryError (last failed)))"

lemma attempt_iter_rule: "stops_after_attempt attempt_iter"
  by (simp add: stops_after_attempt_def attempt_iter_def)

text \<open>
  An operation that keeps a relation to its state keeps it over the retry, whatever the
  number of attempts; a postcondition of success holds if the retry returns.
\<close>

lemma triple_attempts:
  assumes "triple P op Q (\<lambda>_. P)"
  shows "triple P (attempts n op) Q (\<lambda>_. P)"
proof (induction n)
  case 0
  have "triple P (catchM op (\<lambda>e. raiseM (RetryError e))) Q (\<lambda>_. P)"
    by (rule triple_catch [OF assms]) (rule triple_raise)
  then show ?case by simp
next
  case (Suc n)
  have "triple P (catchM op (\<lambda>_. attempts n op)) Q (\<lambda>_. P)"
    by (rule triple_catch [OF assms Suc])
  then show ?case by simp
qed

lemma triple_retry:
  "stops_after_attempt it \<Longrightarrow> triple P op Q (\<lambda>_. P) \<Longrightarrow>
   triple P (retry_async it m op) Q (\<lambda>_. P)"
  by (simp add: retry_is_attempts triple_attempts)

section \<open>Poll loop, dead-letter helper, shutdown\<close>

text \<open>
  One turn of \<open>run_poll_loop\<close>, with whether it sleeps before the next one.
\<close>

definition poll_failed_text :: "string \<Rightarrow> exn \<Rightarrow> string" where
  "poll_failed_text service_name e = service_name @ '' polling failed: '' @ exn_name e @ '': '' @ exn_str e"

definition poll_turn ::
  "(int \<Rightarrow> ('s, int) pm) \<Rightarrow> string \<Rightarrow> (string \<Rightarrow> 's \<Rightarrow> 's) \<Rightarrow> int \<Rightarrow> ('s, bool) pm" where
  "poll_turn poll_once service_name set_last_error max_messages =
     catchM (bindM (poll_once max_messages) (\<lambda>processed. returnM (processed = 0)))
       (\<lambda>e. thenM (modifyM (set_last_error (poll_failed_text service_name e))) (returnM True))"

text \<open>The sleeps of the first \<open>n\<close> turns of the loop; the loop itself ends only by cancellation.\<close>

fun run_poll_loop ::
  "nat \<Rightarrow> (int \<Rightarrow> ('s, int) pm) \<Rightarrow> string \<Rightarrow> (string \<Rightarrow> 's \<Rightarrow> 's) \<Rightarrow> int \<Rightarrow> ('s, bool list) pm" where
  "run_poll_loop 0 poll name set_err n = returnM []"
| "run_poll_loop (Suc k) poll name set_err n =
     bindM (poll_turn poll name set_err n) (\<lambda>slept.
     bindM (run_poll_loop k poll name set_err n) (\<lambda>rest. returnM (slept # rest)))"

definition dead_letter_message ::
  "'b bus_ops \<Rightarrow> ('s \<Rightarrow> 'b) \<Rightarrow> ('b \<Rightarrow> 's \<Rightarrow> 's) \<Rightarrow> ('s \<Rightarrow> 's) \<Rightarrow> (string \<Rightarrow> 's \<Rightarrow> 's) \<Rightarrow>
   message \<Rightarrow> string \<Rightarrow> ('s, unit) pm" where
  "dead_letter_message bus get put count set_last_error m reason =
     thenM (modifyM count) (thenM (modifyM (set_last_error reason))
       (zoomM get put (bus_dead_letter bus m reason)))"

text \<open>A backend without \<open>close()\<close> is \<open>None\<close>; a failing one is logged and passed over.\<close>

definition close_one :: "('s, unit) pm option \<Rightarrow> ('s, unit) pm" where
  "close_one c = (case c of None \<Rightarrow> returnM () | Some f \<Rightarrow> catchM f (\<lambda>_. returnM ()))"

definition close_backends :: "('s, unit) pm option list \<Rightarrow> ('s, unit) pm" where
  "close_backends cs = for_each close_one cs"

lemma poll_turn_ok: "\<exists>b. fst (poll_turn poll name set_err n s) = Inr b"
  by (auto simp: poll_turn_def pm_simps split: sum.split)

lemma close_one_ok: "fst (close_one c s) = Inr ()"
  by (auto simp: close_one_def pm_simps split: option.split sum.split)

text \<open>
  shutdown reaches every backend: \<open>close_backends\<close> never raises, and the backends after
  one whose \<open>close()\<close> raised are closed just as if it had returned.
\<close>

theorem close_backends_total:
  "fst (close_backends cs s) = Inr () \<and>
   snd (close_backends cs s) = fold (\<lambda>c t. case c of None \<Rightarrow> t | Some f \<Rightarrow> snd (f t)) cs s"
proof (induction cs arbitrary: s)
  case Nil
  show ?case by (simp add: close_backends_def returnM_def)
next
  case (Cons c cs)
  have step: "snd (close_one c s) = (case c of None \<Rightarrow> s | Some f \<Rightarrow> snd (f s))"
    by (auto simp: close_one_def pm_simps split: option.split sum.split)
  show ?case using Cons.IH [of "snd (close_one c s)"]
    by (simp add: close_backends_def thenM_apply close_one_ok step)
qed

end
