(* ===== verification/Indicators.thy ===== *)
theory Indicators
  imports Prelude
begin

text \<open>
  The technical indicators of \<open>services/stream/indicators.py\<close>.  The functions of numpy they
  use are a parameter, the record \<open>numpy\<close>; \<open>numpy_ok\<close> states the documented meaning of each.
  A series is a list of real numbers, an indicator answers \<open>None\<close> while the series is too
  short and raises \<open>ValueError\<close> on a bad window or threshold.
\<close>

section \<open>The numpy functions used\<close>

record numpy =
  np_mean :: "real list \<Rightarrow> real"
  np_std :: "real list \<Rightarrow> real"
  np_diff :: "real list \<Rightarrow> real list"
  np_clip0 :: "real list \<Rightarrow> real list"
  np_slope :: "real list \<Rightarrow> real"

text \<open>
  Mean, population variance and the least-squares slope over the abscissae 0, 1, 2, ...
\<close>

definition mean_of :: "real list \<Rightarrow> real" where
  "mean_of xs = sum_list xs / real (length xs)"

definition variance_of :: "real list \<Rightarrow> real" where
  "variance_of xs = mean_of (map (\<lambda>x. (x - mean_of xs)\<^sup>2) xs)"

definition diffs_of :: "real list \<Rightarrow> real list" where
  "diffs_of xs = map2 (\<lambda>x y. y - x) xs (tl xs)"

definition abscissae :: "real list \<Rightarrow> real list" where
  "abscissae ys = map real [0..<length ys]"

definition slope_of :: "real list \<Rightarrow> real" where
  "slope_of ys =
     (let xs = abscissae ys; mx = mean_of xs; my = mean_of ys
      in sum_list (map2 (\<lambda>x y. (x - mx) * (y - my)) xs ys) / sum_list (map (\<lambda>x. (x - mx)\<^sup>2) xs))"

definition numpy_ok :: "numpy \<Rightarrow> bool" where
  "numpy_ok np \<longleftrightarrow>
     (\<forall>xs. xs \<noteq> [] \<longrightarrow> np_mean np xs = mean_of xs \<and> np_std np xs = sqrt (variance_of xs)) \<and>
     (\<forall>xs. np_diff np xs = diffs_of xs) \<and>
     (\<forall>xs. np_clip0 np xs = map (max 0) xs) \<and>
     (\<forall>ys. 2 \<le> length ys \<longrightarrow> np_slope np ys = slope_of ys)"

definition std_numpy :: numpy where
  "std_numpy = \<lparr>np_mean = mean_of, np_std = (\<lambda>xs. sqrt (variance_of xs)), np_diff = diffs_of,
                np_clip0 = map (max 0), np_slope = slope_of\<rparr>"

lemma std_numpy_ok: "numpy_ok std_numpy"
  by (simp add: numpy_ok_def std_numpy_def)

lemma numpy_okD:
  assumes "numpy_ok np"
  shows "xs \<noteq> [] \<Longrightarrow> np_mean np xs = mean_of xs" "xs \<noteq> [] \<Longrightarrow> np_std np xs = sqrt (variance_of xs)"
    "np_diff np xs = diffs_of xs" "np_clip0 np xs = map (max 0) xs"
    "2 \<le> length xs \<Longrightarrow> np_slope np xs = slope_of xs"
  using assms by (simp_all add: numpy_ok_def)

section \<open>Indicators\<close>

definition validate_window :: "int \<Rightarrow> unit result" where
  "validate_window window =
     (if window \<le> 0 then Inl (ValueError ''window must be positive'') else Inr ())"

definition checked :: "unit result \<Rightarrow> 'a result \<Rightarrow> 'a result" where
  "checked c r = (case c of Inl e \<Rightarrow> Inl e | Inr _ \<Rightarrow> r)"

definition simple_moving_average :: "numpy \<Rightarrow> real list \<Rightarrow> int \<Rightarrow> real option result" where
  "simple_moving_average np series window =
     checked (validate_window window)
       (if int (length series) < window then Inr None
        else Inr (Some (np_mean np (slice_last window series))))"

definition ema_step :: "real \<Rightarrow> real \<Rightarrow> real \<Rightarrow> real" where
  "ema_step alpha v ema = alpha * v + (1 - alpha) * ema"

definition exponential_moving_average :: "numpy \<Rightarrow> real list \<Rightarrow> int \<Rightarrow> real option result" where
  "exponential_moving_average np series window =
     checked (validate_window window)
       (if int (length series) < window then Inr None
        else (let alpha = 2 / (of_int window + 1)
              in Inr (Some (fold (ema_step alpha) (drop (nat window) series)
                                 (np_mean np (take (nat window) series))))))"

definition wilder_step :: "int \<Rightarrow> real \<Rightarrow> real \<Rightarrow> real" where
  "wilder_step period v avg = (avg * (of_int period - 1) + v) / of_int period"

definition relative_strength_index :: "numpy \<Rightarrow> real list \<Rightarrow> int \<Rightarrow> real option result" where
  "relative_strength_index np series period =
     checked (validate_window period)
       (if int (length series) < period + 1 then Inr None
        else
          (let deltas = np_diff np series;
               gains = np_clip0 np deltas;
               losses = np_clip0 np (map uminus deltas);
               n = nat period in
           if length (drop n gains) \<noteq> length (drop n losses)
           then Inl (ValueError ''zip() arguments have different lengths'')
           else
             (let avg_gain = fold (wilder_step period) (drop n gains) (np_mean np (take n gains));
                  avg_loss = fold (wilder_step period) (drop n losses) (np_mean np (take n losses))
              in if avg_gain = 0 \<and> avg_loss = 0 then Inr (Some 50)
                 else if avg_loss = 0 then Inr (Some 100)
                 else if avg_gain = 0 then Inr (Some 0)
                 else (let rs = avg_gain / avg_loss in Inr (Some (100 - 100 / (1 + rs)))))))"

definition rolling_volatility :: "numpy \<Rightarrow> real list \<Rightarrow> int \<Rightarrow> real option result" where
  "rolling_volatility np series window =
     checked (validate_window window)
       (if window < 2 then Inl (ValueError ''window must be at least 2 for volatility'')
        else if int (length series) < window then Inr None
        else
          (let w = slice_last window series in
           if list_ex (\<lambda>x. x \<le> 0) (butlast w)
           then Inl (ValueError ''volatility requires strictly positive baseline prices'')
           else Inr (Some (np_std np (map2 (/) (np_diff np w) (butlast w))))))"

definition detect_trend :: "numpy \<Rightarrow> real list \<Rightarrow> int \<Rightarrow> real \<Rightarrow> string option result" where
  "detect_trend np series window flat_tolerance =
     checked (validate_window window)
       (if window < 2 then Inl (ValueError ''window must be at least 2 for trend detection'')
        else if int (length series) < window then Inr None
        else
          (let slope = np_slope np (slice_last window series) in
           if \<bar>slope\<bar> \<le> flat_tolerance then Inr (Some ''flat'')
           else if slope > 0 then Inr (Some ''uptrend'')
           else Inr (Some ''downtrend'')))"

definition z_score_anomaly :: "numpy \<Rightarrow> real list \<Rightarrow> int \<Rightarrow> real \<Rightarrow> bool option result" where
  "z_score_anomaly np series window threshold =
     checked (validate_window window)
       (if threshold \<le> 0 then Inl (ValueError ''threshold must be positive'')
        else if int (length series) < window + 1 then Inr None
        else
          (let baseline = butlast (slice_last (window + 1) series);
               latest = last series;
               mean = np_mean np baseline;
               std_dev = np_std np baseline
           in if std_dev = 0 then Inr (Some (\<bar>latest - mean\<bar> \<ge> threshold))
              else Inr (Some (\<bar>(latest - mean) / std_dev\<bar> \<ge> threshold))))"

text \<open>One step of the exponentially weighted mean and variance.\<close>

definition ewma_step :: "real \<Rightarrow> real \<Rightarrow> real \<times> real \<Rightarrow> real \<times> real" where
  "ewma_step alpha v = (\<lambda>(m, var).
     (alpha * v + (1 - alpha) * m, alpha * (v - m)\<^sup>2 + (1 - alpha) * var))"

definition ewma_anomaly :: "real list \<Rightarrow> int \<Rightarrow> real \<Rightarrow> bool option result" where
  "ewma_anomaly series ewma_span threshold =
     checked (validate_window ewma_span)
       (if threshold \<le> 0 then Inl (ValueError ''threshold must be positive'')
        else if int (length series) < ewma_span + 1 then Inr None
        else
          (let history = butlast series;
               latest = last series;
               alpha = 2 / (of_int ewma_span + 1);
               (m, var) = fold (ewma_step alpha) (tl history) (hd history, 0);
               sd = sqrt var
           in if sd = 0 then Inr (Some (\<bar>latest - m\<bar> \<ge> threshold))
              else Inr (Some (\<bar>latest - m\<bar> / sd \<ge> threshold))))"

section \<open>Lemmas\<close>

lemma checked_simps [simp]: "checked (Inr u) r = r" "checked (Inl e) r = Inl e"
  by (simp_all add: checked_def)

lemma validate_window_ok [simp]: "0 < window \<Longrightarrow> validate_window window = Inr ()"
  by (simp add: validate_window_def)

lemma validate_window_bad: "window \<le> 0 \<Longrightarrow> validate_window window = Inl (ValueError ''window must be positive'')"
  by (simp add: validate_window_def)

lemma sum_list_bounds:
  fixes xs :: "real list"
  assumes "\<forall>x \<in> set xs. lo \<le> x \<and> x \<le> hi"
  shows "real (length xs) * lo \<le> sum_list xs" "sum_list xs \<le> real (length xs) * hi"
  using assms by (induction xs) (auto simp: algebra_simps)

lemma mean_bounds:
  assumes "xs \<noteq> []" "\<forall>x \<in> set xs. lo \<le> x \<and> x \<le> hi"
  shows "lo \<le> mean_of xs \<and> mean_of xs \<le> hi"
  using sum_list_bounds [OF assms(2)] assms(1)
  by (simp add: mean_of_def pos_le_divide_eq pos_divide_le_eq mult.commute)

lemma weighted_bounds:
  fixes a v m :: real
  assumes "0 \<le> a" "a \<le> 1" "lo \<le> v" "v \<le> hi" "lo \<le> m" "m \<le> hi"
  shows "lo \<le> a * v + (1 - a) * m \<and> a * v + (1 - a) * m \<le> hi"
proof
  have "a * lo + (1 - a) * lo \<le> a * v + (1 - a) * m"
    using assms by (intro add_mono mult_left_mono) auto
  then show "lo \<le> a * v + (1 - a) * m" by (simp add: algebra_simps)
  have "a * v + (1 - a) * m \<le> a * hi + (1 - a) * hi"
    using assms by (intro add_mono mult_left_mono) auto
  then show "a * v + (1 - a) * m \<le> hi" by (simp add: algebra_simps)
qed

lemma fold_ema_bounds:
  assumes "0 \<le> a" "a \<le> 1" "\<forall>x \<in> set xs. lo \<le> x \<and> x \<le> hi" "lo \<le> m" "m \<le> hi"
  shows "lo \<le> fold (ema_step a) xs m \<and> fold (ema_step a) xs m \<le> hi"
  using assms(3-5)
proof (induction xs arbitrary: m)
  case (Cons x xs)
  then show ?case using weighted_bounds [OF assms(1,2), of lo x hi m] by (simp add: ema_step_def)
qed simp

lemma fold_wilder_nonneg:
  assumes "0 < p" "\<forall>x \<in> set xs. 0 \<le> x" "0 \<le> m"
  shows "0 \<le> fold (wilder_step p) xs m"
  using assms(2,3)
proof (induction xs arbitrary: m)
  case (Cons x xs)
  have "0 \<le> wilder_step p x m"
    using assms(1) Cons.prems by (simp add: wilder_step_def)
  then show ?case using Cons by simp
qed simp

lemma set_slice_last_nonempty: "0 < n \<Longrightarrow> n \<le> int (length xs) \<Longrightarrow> slice_last n xs \<noteq> []"
  using length_slice_last [of n xs] by fastforce

text \<open>
  the moving averages are averages: on a long enough series the simple moving average
  lies between the bounds of its window, the exponential one between the bounds of the
  series, and both refuse a window that is not positive.
\<close>

theorem moving_average_bounds:
  assumes "numpy_ok np" "0 < w" "w \<le> int (length series)"
    and "\<forall>x \<in> set series. lo \<le> x \<and> x \<le> hi"
    and "\<forall>x \<in> set (slice_last w series). lo' \<le> x \<and> x \<le> hi'"
  shows "(\<exists>a. simple_moving_average np series w = Inr (Some a) \<and> lo' \<le> a \<and> a \<le> hi') \<and>
    (\<exists>a. exponential_moving_average np series w = Inr (Some a) \<and> lo \<le> a \<and> a \<le> hi) \<and>
    (v \<le> 0 \<longrightarrow> simple_moving_average np series v = Inl (ValueError ''window must be positive'') \<and>
      exponential_moving_average np series v = Inl (ValueError ''window must be positive''))"
proof (intro conjI impI)
  note np = numpy_okD [OF assms(1)]
  have ne: "slice_last w series \<noteq> []" using assms(2,3) by (rule set_slice_last_nonempty)
  show "\<exists>a. simple_moving_average np series w = Inr (Some a) \<and> lo' \<le> a \<and> a \<le> hi'"
    using assms(2,3) mean_bounds [OF ne assms(5)]
    by (simp add: simple_moving_average_def np(1) [OF ne])
  have ne': "take (nat w) series \<noteq> []" using assms(2,3) by auto
  have "lo \<le> mean_of (take (nat w) series) \<and> mean_of (take (nat w) series) \<le> hi"
    using assms(4) by (intro mean_bounds ne') (auto dest: in_set_takeD)
  then have "lo \<le> fold (ema_step (2 / (of_int w + 1))) (drop (nat w) series) (mean_of (take (nat w) series)) \<and>
      fold (ema_step (2 / (of_int w + 1))) (drop (nat w) series) (mean_of (take (nat w) series)) \<le> hi"
    using assms(2,4) by (intro fold_ema_bounds) (auto dest: in_set_dropD simp: field_simps)
  then show "\<exists>a. exponential_moving_average np series w = Inr (Some a) \<and> lo \<le> a \<and> a \<le> hi"
    using assms(2,3) by (simp add: exponential_moving_average_def Let_def np(1) [OF ne'])
qed (simp_all add: simple_moving_average_def exponential_moving_average_def validate_window_bad)

theorem moving_average_bounds_witness:
  "\<exists>a. simple_moving_average std_numpy [1, 2, 3] 2 = Inr (Some a) \<and> 2 \<le> a \<and> a \<le> 3"
proof -
  have w: "slice_last 2 [1, 2, 3 :: real] = [2, 3]" by (simp add: slice_last_def)
  from moving_average_bounds [OF std_numpy_ok, of 2 "[1, 2, 3]" 1 3 2 3] show ?thesis
    by (auto simp: w)
qed

lemma length_diffs: "length (diffs_of xs) = length xs - 1"
  by (simp add: diffs_of_def)

lemma mean_nonneg: "\<forall>x \<in> set xs. 0 \<le> x \<Longrightarrow> 0 \<le> mean_of xs"
  by (simp add: mean_of_def sum_list_nonneg)

text \<open>
  RSI is an oscillator: whenever the series is longer than the period the index is
  defined and lies between 0 and 100; a series that never falls scores 100 (or the neutral
  50 when it never moved) and a series that never rises scores 0 (or the neutral 50).
\<close>

theorem rsi_bounds:
  assumes "numpy_ok np" "0 < p" "p < int (length series)"
  shows "\<exists>r. relative_strength_index np series p = Inr (Some r) \<and> 0 \<le> r \<and> r \<le> 100 \<and>
    ((\<forall>d \<in> set (diffs_of series). 0 \<le> d) \<longrightarrow> r = 50 \<or> r = 100) \<and>
    ((\<forall>d \<in> set (diffs_of series). d \<le> 0) \<longrightarrow> r = 50 \<or> r = 0)"
proof -
  note np = numpy_okD [OF assms(1)]
  let ?d = "diffs_of series"
  let ?g = "map (max 0) ?d" and ?l = "map (max 0) (map uminus ?d)"
  let ?avg = "\<lambda>xs. fold (wilder_step p) (drop (nat p) xs) (mean_of (take (nat p) xs))"
  have ne: "take (nat p) ?g \<noteq> []" "take (nat p) ?l \<noteq> []"
    using assms(2,3) by (auto simp: length_diffs simp flip: length_0_conv)
  have nonneg: "0 \<le> ?avg xs" if "\<forall>x \<in> set xs. 0 \<le> x" for xs
    using that assms(2)
    by (intro fold_wilder_nonneg mean_nonneg) (auto dest: in_set_dropD in_set_takeD)
  have g: "0 \<le> ?avg ?g" and l: "0 \<le> ?avg ?l" by (intro nonneg; simp)+
  have zero: "?avg xs = 0" if "\<forall>x \<in> set xs. x = 0" for xs
  proof -
    have "sum_list ys = 0" if "\<forall>x \<in> set ys. x = 0" for ys :: "real list"
      using that by (induction ys) auto
    then have m: "mean_of (take (nat p) xs) = 0"
      using that by (auto simp: mean_of_def dest: in_set_takeD)
    have "fold (wilder_step p) ys 0 = 0" if "\<forall>x \<in> set ys. x = 0" for ys
      using that by (induction ys) (auto simp: wilder_step_def)
    then show ?thesis using that m by (metis in_set_dropD)
  qed
  have up: "?avg ?l = 0" if "\<forall>d \<in> set ?d. 0 \<le> d" using that by (intro zero) auto
  have down: "?avg ?g = 0" if "\<forall>d \<in> set ?d. d \<le> 0" using that by (intro zero) auto
  let ?r = "if ?avg ?g = 0 \<and> ?avg ?l = 0 then 50 else if ?avg ?l = 0 then 100
            else if ?avg ?g = 0 then 0 else 100 - 100 / (1 + ?avg ?g / ?avg ?l)"
  have r: "relative_strength_index np series p = Inr (Some ?r)"
    using assms(2,3) by (simp add: relative_strength_index_def np(3,4) np(1) [OF ne(1)] np(1) [OF ne(2)] Let_def del: map_map)
  have "0 \<le> 100 - 100 / (1 + x) \<and> 100 - 100 / (1 + x) \<le> 100" if "0 \<le> x" for x :: real
    using that by (simp add: field_simps)
  then have "0 \<le> ?r \<and> ?r \<le> 100" using g l by (simp add: divide_nonneg_nonneg)
  with r up down show ?thesis by (intro exI [of _ ?r]) auto
qed

theorem rsi_bounds_witness:
  "\<exists>r. relative_strength_index std_numpy [1, 2, 3, 5] 2 = Inr (Some r) \<and> (r = 50 \<or> r = 100)"
proof -
  have "\<forall>d \<in> set (diffs_of [1, 2, 3, 5]). 0 \<le> d" by (simp add: diffs_of_def)
  with rsi_bounds [OF std_numpy_ok, of 2 "[1, 2, 3, 5]"] show ?thesis by auto
qed

lemma variance_nonneg: "0 \<le> variance_of xs"
  unfolding variance_of_def by (rule mean_nonneg) auto

lemma variance_of_const:
  assumes "\<forall>x \<in> set xs. x = c"
  shows "variance_of xs = 0"
proof (cases "xs = []")
  case False
  have "sum_list ys = real (length ys) * c" if "\<forall>x \<in> set ys. x = c" for ys
    using that by (induction ys) (auto simp: algebra_simps)
  then have "mean_of xs = c" using False assms by (simp add: mean_of_def)
  then have "\<forall>y \<in> set (map (\<lambda>x. (x - mean_of xs)\<^sup>2) xs). y = 0" using assms by auto
  moreover have "sum_list ys = 0" if "\<forall>x \<in> set ys. x = 0" for ys :: "real list"
    using that by (induction ys) auto
  ultimately show ?thesis by (simp add: variance_of_def mean_of_def)
qed (simp add: variance_of_def mean_of_def)

lemma set_map2: "set (map2 f xs ys) \<subseteq> {f x y | x y. x \<in> set xs \<and> y \<in> set ys}"
  by (auto dest: set_zip_leftD set_zip_rightD)

lemma diffs_const:
  assumes "\<forall>x \<in> set xs. x = c"
  shows "\<forall>d \<in> set (diffs_of xs). d = 0"
proof
  fix d
  assume "d \<in> set (diffs_of xs)"
  then obtain x y where xy: "(x, y) \<in> set (zip xs (tl xs))" "d = y - x" by (auto simp: diffs_of_def)
  then have "x \<in> set xs" "y \<in> set (tl xs)" by (auto dest: set_zip_leftD set_zip_rightD)
  moreover have "set (tl xs) \<subseteq> set xs" by (cases xs) auto
  ultimately have "x = c" "y = c" using assms by blast+
  then show "d = 0" using xy(2) by simp
qed

text \<open>
  volatility is a deviation: on positive prices it is defined once the window is full and
  is not negative, and it is zero when the price does not move over the window; a price that
  is not positive before the end of the window is refused.
\<close>

theorem volatility_nonneg:
  assumes "numpy_ok np" "2 \<le> w" "w \<le> int (length series)"
  shows "if \<exists>x \<in> set (butlast (slice_last w series)). x \<le> 0
    then rolling_volatility np series w =
      Inl (ValueError ''volatility requires strictly positive baseline prices'')
    else (\<exists>v. rolling_volatility np series w = Inr (Some v) \<and> 0 \<le> v \<and>
        ((\<forall>x \<in> set (slice_last w series). x = c) \<longrightarrow> v = 0))"
proof -
  note np = numpy_okD [OF assms(1)]
  let ?w = "slice_last w series"
  let ?returns = "map2 (/) (diffs_of ?w) (butlast ?w)"
  have "length ?w = nat w" using assms(2,3) by (simp add: length_slice_last)
  then have ne: "?returns \<noteq> []"
    using assms(2) by (simp add: length_diffs zip_eq_Nil_iff flip: length_0_conv)
  have zero: "variance_of ?returns = 0" if "\<forall>x \<in> set ?w. x = c"
  proof (rule variance_of_const)
    have "\<forall>d \<in> set (diffs_of ?w). d = 0" by (rule diffs_const [OF that])
    then show "\<forall>x \<in> set ?returns. x = 0" by (auto dest: set_zip_leftD)
  qed
  show ?thesis
    using assms(2,3) variance_nonneg [of ?returns] zero
    by (auto simp: rolling_volatility_def Let_def list_ex_iff np(3) np(2) [OF ne])
qed

theorem volatility_nonneg_witness:
  "\<exists>v. rolling_volatility std_numpy [5, 5, 5] 2 = Inr (Some v) \<and> v = 0"
proof -
  have w: "slice_last 2 [5, 5, 5 :: real] = [5, 5]" by (simp add: slice_last_def)
  from volatility_nonneg [OF std_numpy_ok, of 2 "[5, 5, 5]" 5] show ?thesis by (auto simp: w)
qed

section \<open>How much history the indicators need\<close>

lemma newest_newest: "w \<le> h \<Longrightarrow> newest w (newest h xs) = newest w xs"
  by (cases "h \<le> length xs") (auto simp: newest_def)

lemma slice_last_of_newest: "0 < w \<Longrightarrow> w \<le> int h \<Longrightarrow> slice_last w (newest h xs) = slice_last w xs"
  by (simp add: slice_last_newest newest_newest nat_le_iff)

lemma length_newest_less: "w \<le> int h \<Longrightarrow> int (length (newest h xs)) < w \<longleftrightarrow> int (length xs) < w"
  by (auto simp: length_newest)

lemma last_newest: "0 < h \<Longrightarrow> xs \<noteq> [] \<Longrightarrow> last (newest h xs) = last xs"
  by (cases "h \<le> length xs") (auto simp: newest_def last_drop)

text \<open>
  retaining the newest prices loses nothing for the windowed indicators: on the newest
  \<open>h\<close> prices the simple average, the volatility, the trend and the z-score flag are what they
  are on the whole history, errors included, as soon as \<open>h\<close> covers their window (and one
  price more for the z-score).
\<close>

theorem windowed_indicators_exact:
  assumes "0 < h" "w \<le> int h" "z + 1 \<le> int h"
  shows "simple_moving_average np (newest h series) w = simple_moving_average np series w \<and>
    rolling_volatility np (newest h series) w = rolling_volatility np series w \<and>
    detect_trend np (newest h series) w tol = detect_trend np series w tol \<and>
    z_score_anomaly np (newest h series) z thr = z_score_anomaly np series z thr"
proof (intro conjI)
  note len = length_newest_less [OF assms(2), of series]
  show "simple_moving_average np (newest h series) w = simple_moving_average np series w"
    using assms(2) by (cases "0 < w")
      (simp_all add: simple_moving_average_def len slice_last_of_newest validate_window_bad)
  show "rolling_volatility np (newest h series) w = rolling_volatility np series w"
    using assms(2) by (cases "0 < w")
      (simp_all add: rolling_volatility_def len slice_last_of_newest validate_window_bad)
  show "detect_trend np (newest h series) w tol = detect_trend np series w tol"
    using assms(2) by (cases "0 < w")
      (simp_all add: detect_trend_def len slice_last_of_newest validate_window_bad)
  show "z_score_anomaly np (newest h series) z thr = z_score_anomaly np series z thr"
  proof (cases "0 < z \<and> \<not> int (length series) < z + 1")
    case True
    then have "series \<noteq> []" by auto
    then show ?thesis
      using True assms last_newest [of h series] length_newest_less [OF assms(3), of series]
      by (simp add: z_score_anomaly_def slice_last_of_newest)
  next
    case False
    then show ?thesis
      using length_newest_less [OF assms(3), of series]
      by (auto simp: z_score_anomaly_def validate_window_def checked_def)
  qed
qed

theorem windowed_indicators_exact_witness:
  "simple_moving_average std_numpy (newest 3 [9, 1, 2, 3]) 2 = simple_moving_average std_numpy [9, 1, 2, 3] 2"
  using windowed_indicators_exact [of 3 2 2 std_numpy "[9, 1, 2, 3]"] by simp

lemma drop_replicate_newest: "newest h (x # replicate h y) = replicate h y"
  by (simp add: newest_def)

lemma diffs_replicate: "diffs_of (replicate n c) = replicate (n - 1) 0"
proof (cases n)
  case (Suc m)
  have "set (diffs_of (replicate n c)) \<subseteq> {0}"
    using diffs_const [of "replicate n c" c] by auto
  moreover have "length (diffs_of (replicate n c)) = n - 1" by (simp add: length_diffs)
  ultimately show ?thesis by (metis replicate_eqI singletonD subsetD)
qed (simp add: diffs_of_def)

lemma mean_replicate: "0 < n \<Longrightarrow> mean_of (replicate n c) = c"
  by (simp add: mean_of_def sum_list_replicate)

lemma fold_wilder_zeros:
  assumes "0 < p" "0 < m"
  shows "p = 1 \<longrightarrow> n = 0 \<Longrightarrow> 0 < fold (wilder_step p) (replicate n 0) m"
  using assms(2)
proof (induction n arbitrary: m)
  case (Suc n)
  then have "1 < p" using assms(1) by auto
  then have "0 < wilder_step p 0 m" using Suc.prems by (simp add: wilder_step_def)
  moreover have "p = 1 \<longrightarrow> n = 0" using \<open>1 < p\<close> by simp
  ultimately show ?case using Suc.IH by simp
qed simp

lemma fold_wilder_zero [simp]: "fold (wilder_step p) (replicate n 0) 0 = 0"
  by (induction n) (simp_all add: wilder_step_def)

text \<open>
  RSI is not windowed: however many prices are retained, there is a history on which the
  index of the retained prices differs from that of the whole history by fifty points; one
  rise followed by a flat price scores 100, its flat retained part the neutral 50.
\<close>

theorem rsi_needs_whole_history:
  assumes "numpy_ok np" "1 < p" "p < int h"
  shows "relative_strength_index np (1 # replicate h 2) p = Inr (Some 100) \<and>
    relative_strength_index np (newest h (1 # replicate h 2)) p = Inr (Some 50)"
proof -
  note np = numpy_okD [OF assms(1)]
  have h: "0 < h" "nat p < h" "0 < nat p" using assms(2,3) by auto
  define Z where "Z = replicate (h - 1) (0 :: real)"
  have d: "diffs_of (1 # replicate h 2) = 1 # Z"
  proof -
    have "diffs_of (1 # replicate h 2) = 1 # diffs_of (replicate h 2)"
      using h by (cases h) (auto simp: diffs_of_def)
    then show ?thesis by (simp add: diffs_replicate Z_def)
  qed
  have mz: "map (max 0) Z = Z" "map uminus Z = Z" by (simp_all add: Z_def)
  have lz: "length Z = h - 1" by (simp add: Z_def)
  obtain k where k: "nat p = Suc k" using h by (cases "nat p") auto
  define G where "G = fold (wilder_step p) (drop (nat p) (1 # Z)) (mean_of (take (nat p) (1 # Z)))"
  have "take (nat p) (1 # Z) = 1 # replicate k 0" "drop (nat p) (1 # Z) = replicate (h - 1 - k) 0"
    using h k by (simp_all add: min_def Z_def)
  moreover have "mean_of (1 # replicate k (0::real)) > 0"
    by (simp add: mean_of_def sum_list_replicate)
  ultimately have G: "0 < G"
    using assms(2) unfolding G_def by (simp only:) (intro fold_wilder_zeros; simp)
  have L: "fold (wilder_step p) (drop (nat p) (0 # Z)) (mean_of (take (nat p) (0 # Z))) = 0"
  proof -
    have "0 # Z = replicate h 0" using h by (cases h) (simp_all add: Z_def)
    then show ?thesis using h by (simp add: mean_replicate min_def del: fold_replicate)
  qed
  have ne: "take (nat p) (1 # Z) \<noteq> []" "take (nat p) (0 # Z) \<noteq> []" using h by auto
  have len: "length (drop (nat p) (1 # Z)) = length (drop (nat p) (0 # Z))" by simp
  have full: "relative_strength_index np (1 # replicate h 2) p = Inr (Some 100)"
    unfolding relative_strength_index_def np(3,4) d
    using assms(2,3) G by (simp add: mz np(1) [OF ne(1)] np(1) [OF ne(2)] G_def [symmetric] L Let_def del: drop_Cons take_Cons map_map)
  have Z0: "take (nat p) Z = replicate (nat p) 0" "drop (nat p) Z = replicate (h - 1 - nat p) 0"
    using h by (simp_all add: min_def Z_def)
  have ne': "take (nat p) Z \<noteq> []" using h lz by auto
  have L0: "fold (wilder_step p) (drop (nat p) Z) (mean_of (take (nat p) Z)) = 0"
    using h by (simp add: Z0 mean_replicate del: fold_replicate)
  have dz: "diffs_of (replicate h (2::real)) = Z" by (simp add: diffs_replicate Z_def)
  have "relative_strength_index np (replicate h 2) p = Inr (Some 50)"
    unfolding relative_strength_index_def np(3,4) dz
    using assms(2,3) by (simp add: mz np(1) [OF ne'] L0 Let_def del: map_map)
  then show ?thesis using full by (simp add: drop_replicate_newest)
qed

theorem rsi_needs_whole_history_witness:
  "relative_strength_index std_numpy (1 # replicate 49 2) 5 = Inr (Some 100) \<and>
   relative_strength_index std_numpy (newest 49 (1 # replicate 49 2)) 5 = Inr (Some 50)"
  by (rule rsi_needs_whole_history [OF std_numpy_ok]) simp_all

section \<open>Trend\<close>

lemma sum_sq_pos:
  assumes "2 \<le> length ys"
  shows "0 < sum_list (map (\<lambda>x. (x - m)\<^sup>2) (abscissae ys))"
proof -
  obtain n where n: "length ys = Suc (Suc n)"
    using assms le_Suc_ex [of 2 "length ys"] by auto
  have e: "abscissae ys = 0 # 1 # map real [2..<length ys]"
    using n by (simp add: abscissae_def upt_conv_Cons numeral_2_eq_2)
  have "0 < (0 - m)\<^sup>2 + (1 - m)\<^sup>2"
    by (cases "m = 0") (auto intro: add_pos_nonneg)
  moreover have "0 \<le> sum_list (map (\<lambda>x. (x - m)\<^sup>2) (map real [2..<length ys]))"
    by (rule sum_list_nonneg) auto
  ultimately show ?thesis by (simp add: e)
qed

lemma mean_affine:
  "xs \<noteq> [] \<Longrightarrow> mean_of (map (\<lambda>x. a + b * x) xs) = a + b * mean_of xs"
proof -
  have "sum_list (map (\<lambda>x. a + b * x) xs) = real (length xs) * a + b * sum_list xs"
    by (induction xs) (auto simp: algebra_simps)
  then show "xs \<noteq> [] \<Longrightarrow> ?thesis" by (simp add: mean_of_def field_simps)
qed

lemma slope_linear:
  assumes "2 \<le> n"
  shows "slope_of (map (\<lambda>i. a + b * real i) [0..<n]) = b"
proof -
  let ?ys = "map (\<lambda>i. a + b * real i) [0..<n]"
  let ?xs = "map real [0..<n]"
  have abs: "abscissae ?ys = ?xs" by (simp add: abscissae_def)
  have ys: "?ys = map (\<lambda>x. a + b * x) ?xs" by simp
  have my: "mean_of ?ys = a + b * mean_of ?xs"
    unfolding ys using assms by (intro mean_affine) auto
  have num: "sum_list (map2 (\<lambda>x y. (x - m) * (y - (a + b * m))) xs (map (\<lambda>x. a + b * x) xs))
      = b * sum_list (map (\<lambda>x. (x - m)\<^sup>2) xs)" for m and xs :: "real list"
    by (induction xs) (simp_all add: power2_eq_square algebra_simps)
  have "sum_list (map2 (\<lambda>x y. (x - mean_of ?xs) * (y - mean_of ?ys)) ?xs ?ys)
      = b * sum_list (map (\<lambda>x. (x - mean_of ?xs)\<^sup>2) ?xs)"
    using num [of "mean_of ?xs" ?xs] unfolding my by (simp only: ys)
  moreover have "0 < sum_list (map (\<lambda>x. (x - mean_of ?xs)\<^sup>2) ?xs)"
    using sum_sq_pos [of ?ys "mean_of ?xs"] assms unfolding abs by simp
  ultimately show ?thesis by (simp add: slope_of_def abs Let_def)
qed

text \<open>
  the trend label is the sign of the fitted slope: a window on a straight line is labelled
  flat, uptrend or downtrend as its slope is within the tolerance, above it or below minus
  it; a window under two prices is refused and a series shorter than the window has no label.
\<close>

theorem trend_of_line:
  assumes "numpy_ok np" "2 \<le> w" "slice_last w series = map (\<lambda>i. a + b * real i) [0..<nat w]" "0 \<le> tol"
    and "w \<le> int (length series)"
  shows "detect_trend np series w tol =
      Inr (Some (if \<bar>b\<bar> \<le> tol then ''flat'' else if b > 0 then ''uptrend'' else ''downtrend'')) \<and>
    detect_trend np series 1 tol = Inl (ValueError ''window must be at least 2 for trend detection'') \<and>
    (int (length series) < v \<longrightarrow> detect_trend np series v tol = Inr None)"
proof (intro conjI impI)
  have "np_slope np (slice_last w series) = b"
    using assms(2) numpy_okD(5) [OF assms(1), of "slice_last w series"]
    by (simp add: assms(3) slope_linear)
  then show "detect_trend np series w tol =
      Inr (Some (if \<bar>b\<bar> \<le> tol then ''flat'' else if b > 0 then ''uptrend'' else ''downtrend''))"
    using assms(2,5) by (simp add: detect_trend_def Let_def)
  show "detect_trend np series 1 tol = Inl (ValueError ''window must be at least 2 for trend detection'')"
    by (simp add: detect_trend_def)
  show "detect_trend np series v tol = Inr None" if "int (length series) < v"
    using that assms(2,5) by (simp add: detect_trend_def)
qed

theorem trend_of_line_witness:
  "detect_trend std_numpy [7, 10, 12, 14] 3 (1 / 10) = Inr (Some ''uptrend'')"
proof -
  have "slice_last 3 [7, 10, 12, 14] = map (\<lambda>i. 10 + 2 * real i) [0..<nat 3]"
    by (simp add: slice_last_def upt_conv_Cons)
  from trend_of_line [OF std_numpy_ok _ this, of "1 / 10" 9] show ?thesis by simp
qed

end
