(* ===== verification/StreamService.thy ===== *)
theory StreamService
  imports Cache Resilience TimeSeries Indicators
begin

text \<open>
  \<open>services/stream/service.py\<close>: the per-symbol indicator processor and the service that
  consumes market events, writes ticks and indicators, keeps the snapshot and the history
  mirror, publishes signals and suppresses duplicates.  The service is generic in its
  backends (a bus, a cache, a time-series store, each a record of operations); the state
  holds them side by side.  The invariant of the consumer is proved once over the contract of
  the bus and holds for \<open>InMemoryBus\<close> by interpretation.
\<close>

section \<open>Configuration and metrics\<close>

definition HISTORY_WINDOW_MULTIPLIER :: int where "HISTORY_WINDOW_MULTIPLIER = 8"
definition STREAM_SUBSCRIPTION :: string where "STREAM_SUBSCRIPTION = ''stream''"
definition IDEMPOTENCY_PREFIX :: string where "IDEMPOTENCY_PREFIX = ''stream:processed''"
definition MAX_CACHED_HISTORY_ROWS :: int where "MAX_CACHED_HISTORY_ROWS = 500"

record indicator_config =
  sma_window :: int
  ema_window :: int
  rsi_period :: int
  volatility_window :: int
  trend_window :: int
  zscore_window :: int
  zscore_threshold :: real
  ewma_span :: int
  ewma_threshold :: real

definition default_indicator_config :: indicator_config where
  "default_indicator_config =
     \<lparr>sma_window = 5, ema_window = 5, rsi_period = 5, volatility_window = 5, trend_window = 5,
      zscore_window = 5, zscore_threshold = 2, ewma_span = 5, ewma_threshold = 3\<rparr>"

definition history_maxlen :: "indicator_config \<Rightarrow> int" where
  "history_maxlen c =
     (let longest = Max {sma_window c, ema_window c, rsi_period c + 1, volatility_window c,
                         trend_window c, zscore_window c, ewma_span c}
      in longest * HISTORY_WINDOW_MULTIPLIER + 1)"

record stream_metrics = worker_metrics +
  sm_messages_seen :: int
  sm_messages_processed :: int
  sm_duplicates_suppressed :: int
  sm_signals_published :: int
  sm_dead_lettered :: int
  sm_tick_rows_ingested :: int
  sm_indicator_rows_ingested :: int

definition stream_render :: "stream_metrics \<Rightarrow> string" where
  "stream_render m = str_join [CHR 0x0A]
     (render_counters ''stream''
        [(''messages_seen'', int_str (sm_messages_seen m)),
         (''messages_processed'', int_str (sm_messages_processed m)),
         (''duplicates_suppressed'', int_str (sm_duplicates_suppressed m)),
         (''signals_published'', int_str (sm_signals_published m)),
         (''dead_lettered'', int_str (sm_dead_lettered m)),
         (''tick_rows_ingested'', int_str (sm_tick_rows_ingested m)),
         (''indicator_rows_ingested'', int_str (sm_indicator_rows_ingested m))]
      @ render_http ''stream'' (http m)) @ [CHR 0x0A]"

section \<open>The processor\<close>

record processed_signal =
  ps_tick_row :: pydict
  ps_indicator_row :: pydict
  ps_snapshot :: pydict
  ps_signal :: signal_event

definition trend_score :: "string option \<Rightarrow> real option" where
  "trend_score t = (case t of None \<Rightarrow> None
     | Some s \<Rightarrow> map_of [(''uptrend'', 1), (''flat'', 0), (''downtrend'', -1)] s)"

record indicator_values =
  iv_sma :: "real option"
  iv_ema :: "real option"
  iv_rsi :: "real option"
  iv_volatility :: "real option"
  iv_trend :: "string option"
  iv_zscore :: "bool option"
  iv_ewma :: "bool option"

text \<open>The indicators in the order the code computes them; the first exception wins.\<close>

definition compute_indicators :: "numpy \<Rightarrow> indicator_config \<Rightarrow> real list \<Rightarrow> indicator_values result" where
  "compute_indicators np c prices =
     bindR (simple_moving_average np prices (sma_window c)) (\<lambda>sma.
     bindR (exponential_moving_average np prices (ema_window c)) (\<lambda>ema.
     bindR (relative_strength_index np prices (rsi_period c)) (\<lambda>rsi.
     bindR (rolling_volatility np prices (volatility_window c)) (\<lambda>vol.
     bindR (detect_trend np prices (trend_window c) (1 / 10 ^ 9)) (\<lambda>trend.
     bindR (z_score_anomaly np prices (zscore_window c) (zscore_threshold c)) (\<lambda>zs.
     bindR (ewma_anomaly prices (ewma_span c) (ewma_threshold c)) (\<lambda>ew.
       Inr \<lparr>iv_sma = sma, iv_ema = ema, iv_rsi = rsi, iv_volatility = vol, iv_trend = trend,
            iv_zscore = zs, iv_ewma = ew\<rparr>)))))))"

text \<open>\<open>bool(zscore_flag or ewma_flag)\<close>.\<close>

definition anomaly_flag :: "indicator_values \<Rightarrow> bool" where
  "anomaly_flag iv \<longleftrightarrow> iv_zscore iv = Some True \<or> iv_ewma iv = Some True"

definition make_snapshot :: "pylib \<Rightarrow> market_event \<Rightarrow> indicator_values \<Rightarrow> pydict" where
  "make_snapshot lib ev iv =
     [(''symbol'', PStr (me_symbol ev)),
      (''ts'', PStr (isoformat lib (event_ts ev))),
      (''source'', PStr (me_source ev)),
      (''event_type'', PStr (me_type ev)),
      (''price'', PFloat (me_price ev)),
      (''volume'', opt_float (me_volume ev)),
      (''bid'', opt_float (me_bid ev)),
      (''ask'', opt_float (me_ask ev)),
      (''sma'', opt_float (iv_sma iv)),
      (''ema'', opt_float (iv_ema iv)),
      (''rsi'', opt_float (iv_rsi iv)),
      (''volatility'', opt_float (iv_volatility iv)),
      (''trend'', opt_str (iv_trend iv)),
      (''trend_score'', opt_float (trend_score (iv_trend iv))),
      (''zscore_anomaly'', opt_bool (iv_zscore iv)),
      (''ewma_anomaly'', opt_bool (iv_ewma iv)),
      (''anomaly'', PBool (anomaly_flag iv))]"

definition make_tick_row :: "pylib \<Rightarrow> market_event \<Rightarrow> pydict" where
  "make_tick_row lib ev =
     [(''_table'', PStr ''ticks''),
      (''event_id'', PStr (event_id ev)),
      (''ts'', PStr (isoformat lib (event_ts ev))),
      (''symbol'', PStr (me_symbol ev)),
      (''source'', PStr (me_source ev)),
      (''event_type'', PStr (me_type ev)),
      (''price'', PFloat (me_price ev)),
      (''volume'', opt_float (me_volume ev)),
      (''bid'', opt_float (me_bid ev)),
      (''ask'', opt_float (me_ask ev)),
      (''correlation_id'', opt_str (correlation_id ev)),
      (''trace_id'', opt_str (trace_id ev))]"

definition make_indicator_row :: "pylib \<Rightarrow> market_event \<Rightarrow> indicator_values \<Rightarrow> pydict" where
  "make_indicator_row lib ev iv =
     [(''_table'', PStr ''indicators''),
      (''event_id'', PStr (event_id ev)),
      (''ts'', PStr (isoformat lib (event_ts ev))),
      (''symbol'', PStr (me_symbol ev)),
      (''source'', PStr (me_source ev)),
      (''price'', PFloat (me_price ev)),
      (''sma'', opt_float (iv_sma iv)),
      (''ema'', opt_float (iv_ema iv)),
      (''rsi'', opt_float (iv_rsi iv)),
      (''volatility'', opt_float (iv_volatility iv)),
      (''trend'', opt_str (iv_trend iv)),
      (''trend_score'', opt_float (trend_score (iv_trend iv))),
      (''zscore_anomaly'', opt_bool (iv_zscore iv)),
      (''ewma_anomaly'', opt_bool (iv_ewma iv)),
      (''anomaly'', PBool (anomaly_flag iv)),
      (''correlation_id'', opt_str (correlation_id ev)),
      (''trace_id'', opt_str (trace_id ev))]"

definition make_signal :: "string \<Rightarrow> market_event \<Rightarrow> indicator_values \<Rightarrow> signal_event" where
  "make_signal uid ev iv =
     \<lparr>event_id = uid, event_ts = event_ts ev, correlation_id = correlation_id ev, trace_id = trace_id ev,
      sg_symbol = me_symbol ev, sg_source = ''stream'',
      sg_indicators = [(''sma'', iv_sma iv), (''ema'', iv_ema iv), (''rsi'', iv_rsi iv),
        (''volatility'', iv_volatility iv), (''trend'', trend_score (iv_trend iv))],
      sg_anomaly = anomaly_flag iv\<rparr>"

definition candidate_history :: "(string \<Rightarrow> real list) \<Rightarrow> market_event \<Rightarrow> real list" where
  "candidate_history h ev = h (me_symbol ev) @ [me_price ev]"

definition processor_process ::
  "pylib \<Rightarrow> numpy \<Rightarrow> indicator_config \<Rightarrow> (string \<Rightarrow> real list) \<Rightarrow> string \<Rightarrow> market_event \<Rightarrow>
   processed_signal result" where
  "processor_process lib np c h uid ev =
     bindR (compute_indicators np c (candidate_history h ev)) (\<lambda>iv.
       Inr \<lparr>ps_tick_row = make_tick_row lib ev, ps_indicator_row = make_indicator_row lib ev iv,
            ps_snapshot = make_snapshot lib ev iv, ps_signal = make_signal uid ev iv\<rparr>)"

definition processor_commit ::
  "indicator_config \<Rightarrow> market_event \<Rightarrow> (string \<Rightarrow> real list) \<Rightarrow> (string \<Rightarrow> real list)" where
  "processor_commit c ev h =
     h(me_symbol ev := deque_append (nat (history_maxlen c)) (h (me_symbol ev)) (me_price ev))"

section \<open>The service\<close>

record ('b, 'c, 't) stream_state =
  ss_bus :: 'b
  ss_cache :: 'c
  ss_store :: 't
  ss_history :: "string \<Rightarrow> real list"
  ss_metrics :: stream_metrics
  ss_uuids :: "nat \<Rightarrow> string"
  ss_next :: nat

record ('b, 'c, 't) stream_env =
  se_bus :: "'b bus_ops"
  se_cache :: "'c cache_ops"
  se_store :: "'t ts_ops"
  se_lib :: pylib
  se_np :: numpy
  se_config :: indicator_config
  se_topic :: string
  se_subscription :: string
  se_signal_topic :: string

definition ss_on_bus :: "('b, 'x) pm \<Rightarrow> (('b, 'c, 't) stream_state, 'x) pm" where
  "ss_on_bus = zoomM ss_bus (\<lambda>b s. s\<lparr>ss_bus := b\<rparr>)"

definition ss_on_cache :: "('c, 'x) pm \<Rightarrow> (('b, 'c, 't) stream_state, 'x) pm" where
  "ss_on_cache = zoomM ss_cache (\<lambda>c s. s\<lparr>ss_cache := c\<rparr>)"

definition ss_on_store :: "('t, 'x) pm \<Rightarrow> (('b, 'c, 't) stream_state, 'x) pm" where
  "ss_on_store = zoomM ss_store (\<lambda>t s. s\<lparr>ss_store := t\<rparr>)"

definition ss_count :: "(stream_metrics \<Rightarrow> stream_metrics) \<Rightarrow> (('b, 'c, 't) stream_state, unit) pm" where
  "ss_count f = modifyM (\<lambda>s. s\<lparr>ss_metrics := f (ss_metrics s)\<rparr>)"

text \<open>The processor on the retained history; the signal it makes takes a fresh event id.\<close>

definition run_processor ::
  "('b, 'c, 't) stream_env \<Rightarrow> market_event \<Rightarrow> (('b, 'c, 't) stream_state, processed_signal) pm" where
  "run_processor env ev = (\<lambda>s.
     case processor_process (se_lib env) (se_np env) (se_config env) (ss_history s)
            (ss_uuids s (ss_next s)) ev of
       Inl e \<Rightarrow> (Inl e, s)
     | Inr p \<Rightarrow> (Inr p, s\<lparr>ss_next := Suc (ss_next s)\<rparr>))"

definition stream_dead_letter ::
  "('b, 'c, 't) stream_env \<Rightarrow> message \<Rightarrow> string \<Rightarrow> (('b, 'c, 't) stream_state, unit) pm" where
  "stream_dead_letter env m reason =
     dead_letter_message (se_bus env) ss_bus (\<lambda>b s. s\<lparr>ss_bus := b\<rparr>)
       (\<lambda>s. s\<lparr>ss_metrics := (ss_metrics s)\<lparr>sm_dead_lettered := sm_dead_lettered (ss_metrics s) + 1\<rparr>\<rparr>)
       (\<lambda>r s. s\<lparr>ss_metrics := (ss_metrics s)\<lparr>last_error := Some r\<rparr>\<rparr>) m reason"

definition stream_append_history ::
  "('b, 'c, 't) stream_env \<Rightarrow> string \<Rightarrow> pydict \<Rightarrow> (('b, 'c, 't) stream_state, unit) pm" where
  "stream_append_history env symbol row =
     ss_on_cache (cache_append_history (se_cache env) symbol (dict_pop row ''_table'') MAX_CACHED_HISTORY_ROWS)"

definition stream_dedupe_key :: "pylib \<Rightarrow> market_event \<Rightarrow> string" where
  "stream_dedupe_key lib ev =
     IDEMPOTENCY_PREFIX @ '':'' @ market_event_key lib (me_symbol ev) (event_ts ev) (me_source ev)"

text \<open>The body of the \<open>try\<close> block, from processing to the completion of the message.\<close>

definition stream_process_event ::
  "('b, 'c, 't) stream_env \<Rightarrow> message \<Rightarrow> market_event \<Rightarrow> (('b, 'c, 't) stream_state, unit) pm" where
  "stream_process_event env m ev =
     bindM (run_processor env ev) (\<lambda>p.
     thenM (ss_on_store (ts_ingest (se_store env) [ps_tick_row p, ps_indicator_row p]))
     (thenM (ss_count (\<lambda>x. x\<lparr>sm_tick_rows_ingested := sm_tick_rows_ingested x + 1\<rparr>))
     (thenM (ss_count (\<lambda>x. x\<lparr>sm_indicator_rows_ingested := sm_indicator_rows_ingested x + 1\<rparr>))
     (thenM (ss_on_cache (cache_set_snapshot (se_cache env) (me_symbol ev) (ps_snapshot p)))
     (thenM (stream_append_history env (me_symbol ev) (ps_tick_row p))
     (thenM (ss_on_bus (bus_publish (se_bus env) (se_signal_topic env) (signal_dump (se_lib env) (ps_signal p))
               (Some (stream_dedupe_key (se_lib env) ev)) (correlation_id ev)))
     (thenM (ss_count (\<lambda>x. x\<lparr>sm_signals_published := sm_signals_published x + 1\<rparr>))
     (thenM (ss_on_cache (cache_set (se_cache env) (stream_dedupe_key (se_lib env) ev) (PBool True)
               (Some IDEMPOTENCY_TTL_SECONDS)))
     (thenM (modifyM (\<lambda>s. s\<lparr>ss_history := processor_commit (se_config env) ev (ss_history s)\<rparr>))
     (thenM (ss_count (\<lambda>x. x\<lparr>sm_messages_processed := sm_messages_processed x + 1\<rparr>))
       (ss_on_bus (bus_complete (se_bus env) m))))))))))))"

definition stream_suppress_duplicate ::
  "('b, 'c, 't) stream_env \<Rightarrow> message \<Rightarrow> (('b, 'c, 't) stream_state, unit) pm" where
  "stream_suppress_duplicate env m =
     thenM (ss_count (\<lambda>x. x\<lparr>sm_duplicates_suppressed := sm_duplicates_suppressed x + 1\<rparr>))
       (ss_on_bus (bus_complete (se_bus env) m))"

definition stream_failed_text :: "exn \<Rightarrow> string" where
  "stream_failed_text e = ''stream processing failed: '' @ exn_name e @ '': '' @ exn_str e"

definition stream_handle_message ::
  "('b, 'c, 't) stream_env \<Rightarrow> message \<Rightarrow> (('b, 'c, 't) stream_state, unit) pm" where
  "stream_handle_message env m =
     (case validate_market (se_lib env) (msg_body m) of
        Inl detail \<Rightarrow>
          stream_dead_letter env m (validation_reason ''invalid market event payload'' detail)
      | Inr ev \<Rightarrow>
          bindM (ss_on_cache (cache_get (se_cache env) (stream_dedupe_key (se_lib env) ev))) (\<lambda>seen.
            if truthy seen then stream_suppress_duplicate env m
            else catchM (stream_process_event env m ev)
                   (\<lambda>e. stream_dead_letter env m (stream_failed_text e))))"

definition stream_seen_then_handle ::
  "('b, 'c, 't) stream_env \<Rightarrow> message \<Rightarrow> (('b, 'c, 't) stream_state, unit) pm" where
  "stream_seen_then_handle env m =
     thenM (ss_count (\<lambda>x. x\<lparr>sm_messages_seen := sm_messages_seen x + 1\<rparr>)) (stream_handle_message env m)"

definition stream_poll_once ::
  "('b, 'c, 't) stream_env \<Rightarrow> int \<Rightarrow> (('b, 'c, 't) stream_state, int) pm" where
  "stream_poll_once env max_messages =
     bindM (ss_on_bus (bus_receive (se_bus env) (se_topic env) (se_subscription env) max_messages)) (\<lambda>ms.
       thenM (for_each (stream_seen_then_handle env) ms) (returnM (int (length ms))))"

definition stream_close :: "('s, unit) pm option \<Rightarrow> ('s, unit) pm option \<Rightarrow> ('s, unit) pm option \<Rightarrow> ('s, unit) pm" where
  "stream_close sc cc bc = close_backends [sc, cc, bc]"

definition stream_run_forever ::
  "nat \<Rightarrow> ('b, 'c, 't) stream_env \<Rightarrow> int \<Rightarrow> (('b, 'c, 't) stream_state, bool list) pm" where
  "stream_run_forever fuel env max_messages =
     run_poll_loop fuel (stream_poll_once env) ''stream''
       (\<lambda>t s. s\<lparr>ss_metrics := (ss_metrics s)\<lparr>last_error := Some t\<rparr>\<rparr>) max_messages"

definition stream_health :: "('b, 'c, 't) stream_env \<Rightarrow> ('b, 'c, 't) stream_state \<Rightarrow> pydict" where
  "stream_health env s =
     [(''status'', PStr ''ok''), (''service'', PStr ''stream''),
      (''topic'', PStr (se_topic env)), (''subscription'', PStr (se_subscription env)),
      (''messages_processed'', PInt (sm_messages_processed (ss_metrics s))),
      (''duplicates_suppressed'', PInt (sm_duplicates_suppressed (ss_metrics s))),
      (''dead_lettered'', PInt (sm_dead_lettered (ss_metrics s)))]"

section \<open>Settlement\<close>

lemmas ss_zoom_defs = ss_on_bus_def ss_on_cache_def ss_on_store_def

lemma ss_cache_frame: "triple (\<lambda>s. P (ss_bus s)) (ss_on_cache m) (\<lambda>_ s. P (ss_bus s)) (\<lambda>_ s. P (ss_bus s))"
  unfolding ss_on_cache_def by (rule triple_zoom_frame) simp

lemma ss_store_frame: "triple (\<lambda>s. P (ss_bus s)) (ss_on_store m) (\<lambda>_ s. P (ss_bus s)) (\<lambda>_ s. P (ss_bus s))"
  unfolding ss_on_store_def by (rule triple_zoom_frame) simp

lemma ss_count_frame: "triple (\<lambda>s. P (ss_bus s)) (ss_count f) (\<lambda>_ s. P (ss_bus s)) E"
  unfolding ss_count_def by (rule triple_modify) simp

lemma ss_bus_triple:
  "triple P m Q E \<Longrightarrow> triple (\<lambda>s. P (ss_bus s)) (ss_on_bus m) (\<lambda>x s. Q x (ss_bus s)) (\<lambda>e s. E e (ss_bus s))"
  unfolding ss_on_bus_def by (rule triple_zoom) simp

lemma run_processor_frame:
  "triple (\<lambda>s. P (ss_bus s)) (run_processor env ev) (\<lambda>_ s. P (ss_bus s)) (\<lambda>_ s. P (ss_bus s))"
  by (rule tripleI) (auto simp: run_processor_def split: sum.splits)

context message_bus
begin

lemma stream_process_settles:
  assumes "se_bus env = bus" "m \<in> X"
  shows "triple (\<lambda>s. awaits binv pending X (ss_bus s)) (stream_process_event env m ev)
    (\<lambda>_ s. awaits binv pending (X - {m}) (ss_bus s)) (\<lambda>_ s. awaits binv pending X (ss_bus s))"
  unfolding stream_process_event_def stream_append_history_def assms(1)
  by (intro triple_bind [OF run_processor_frame] triple_then [OF ss_store_frame] triple_then [OF ss_count_frame]
      triple_then [OF ss_cache_frame] triple_then [OF ss_bus_triple [OF publish_triple]]
      triple_then [OF triple_modify_frame] ss_bus_triple [OF complete_triple [OF assms(2)]]) simp

lemma stream_dead_letter_settles:
  assumes "se_bus env = bus" "m \<in> X"
  shows "triple (\<lambda>s. awaits binv pending X (ss_bus s)) (stream_dead_letter env m reason)
    (\<lambda>_ s. awaits binv pending (X - {m}) (ss_bus s)) (\<lambda>_ _. True)"
  unfolding stream_dead_letter_def dead_letter_message_def assms(1)
  by (rule triple_then [OF triple_modify_frame], simp, rule triple_then [OF triple_modify_frame], simp)
     (rule ss_bus_triple [unfolded ss_on_bus_def, OF dead_letter_triple [OF assms(2)]])

lemma stream_handle_settles:
  assumes "se_bus env = bus" "m \<in> X"
  shows "triple (\<lambda>s. awaits binv pending X (ss_bus s)) (stream_handle_message env m)
    (\<lambda>_ s. awaits binv pending (X - {m}) (ss_bus s)) (\<lambda>_ _. True)"
proof (cases "validate_market (se_lib env) (msg_body m)")
  case (Inl detail)
  then show ?thesis by (simp add: stream_handle_message_def stream_dead_letter_settles [OF assms])
next
  case (Inr ev)
  have dup: "triple (\<lambda>s. awaits binv pending X (ss_bus s)) (stream_suppress_duplicate env m)
      (\<lambda>_ s. awaits binv pending (X - {m}) (ss_bus s)) (\<lambda>_ _. True)"
    unfolding stream_suppress_duplicate_def assms(1)
    by (rule triple_then [OF ss_count_frame],
        rule triple_weaken [OF ss_bus_triple [OF complete_triple [OF assms(2)]]]) auto
  have body: "triple (\<lambda>s. awaits binv pending X (ss_bus s))
      (catchM (stream_process_event env m ev) (\<lambda>e. stream_dead_letter env m (stream_failed_text e)))
      (\<lambda>_ s. awaits binv pending (X - {m}) (ss_bus s)) (\<lambda>_ _. True)"
    by (rule triple_catch [OF stream_process_settles [OF assms] stream_dead_letter_settles [OF assms]])
  have get: "triple (\<lambda>s. awaits binv pending X (ss_bus s)) (ss_on_cache (cache_get (se_cache env) (stream_dedupe_key (se_lib env) ev)))
      (\<lambda>_ s. awaits binv pending X (ss_bus s)) (\<lambda>_ _. True)"
    by (rule triple_weaken [OF ss_cache_frame]) auto
  show ?thesis
    unfolding stream_handle_message_def Inr sum.case
    by (rule triple_bind [OF get]) (simp add: dup body)
qed

lemma stream_seen_settles:
  assumes "se_bus env = bus" "m \<in> X"
  shows "triple (\<lambda>s. awaits binv pending X (ss_bus s)) (stream_seen_then_handle env m)
    (\<lambda>_ s. awaits binv pending (X - {m}) (ss_bus s)) (\<lambda>_ _. True)"
  unfolding stream_seen_then_handle_def
  by (rule triple_then [OF ss_count_frame stream_handle_settles [OF assms]])

end

text \<open>The service on the in-memory backends, as it is built without connection strings.\<close>

definition inmem_stream_env :: "pylib \<Rightarrow> numpy \<Rightarrow> indicator_config \<Rightarrow> (inmem_bus, inmem_cache, inmem_ts) stream_env" where
  "inmem_stream_env lib np cfg =
     \<lparr>se_bus = inmem_bus_ops, se_cache = inmem_cache_ops, se_store = inmem_ts_ops lib, se_lib = lib,
      se_np = np, se_config = cfg, se_topic = TOPIC_MARKET_RAW, se_subscription = STREAM_SUBSCRIPTION,
      se_signal_topic = TOPIC_SIGNALS\<rparr>"

lemma inmem_stream_env_sel [simp]:
  "se_bus (inmem_stream_env lib np cfg) = inmem_bus_ops"
  "se_cache (inmem_stream_env lib np cfg) = inmem_cache_ops"
  "se_store (inmem_stream_env lib np cfg) = inmem_ts_ops lib"
  "se_lib (inmem_stream_env lib np cfg) = lib" "se_np (inmem_stream_env lib np cfg) = np"
  "se_config (inmem_stream_env lib np cfg) = cfg"
  "se_topic (inmem_stream_env lib np cfg) = TOPIC_MARKET_RAW"
  "se_subscription (inmem_stream_env lib np cfg) = STREAM_SUBSCRIPTION"
  "se_signal_topic (inmem_stream_env lib np cfg) = TOPIC_SIGNALS"
  by (simp_all add: inmem_stream_env_def)

interpretation stream: consumer inmem_bus_ops queue_of pending_of dlqs bus_inv ss_bus
  "stream_seen_then_handle (inmem_stream_env lib np cfg)" "\<lambda>_. True" for lib np cfg
proof
  fix s s' :: "(inmem_bus, inmem_cache, inmem_ts) stream_state" and m
  assume "bus_inv (ss_bus s)" and m: "m \<in> pending_of (ss_bus s)"
    and h: "stream_seen_then_handle (inmem_stream_env lib np cfg) m s = (Inr (), s')"
  have "awaits bus_inv pending_of (pending_of (ss_bus s)) (ss_bus s)"
    using \<open>bus_inv (ss_bus s)\<close> by (simp add: awaits_def)
  from tripleD_ok [OF ib.stream_seen_settles [OF _ m] this h]
  show "bus_inv (ss_bus s') \<and> pending_of (ss_bus s') = pending_of (ss_bus s) - {m}"
    by (simp add: awaits_def)
qed

end
