(* ===== verification/StreamProps.thy ===== *)
theory StreamProps
  imports StreamService "HOL-Library.Sublist"
begin

text \<open>
  What the stream service guarantees on the in-memory backends: every polled message is
  settled and counted once, the effects of each outcome of a message, suppression of
  redeliveries, and the retained price history as the newest processed prices.
\<close>

section \<open>Every poll returns and settles its batch\<close>

type_synonym inmem_stream = "(inmem_bus, inmem_cache, inmem_ts) stream_state"

definition never_raises :: "('s, 'a) pm \<Rightarrow> bool" where
  "never_raises m \<longleftrightarrow> (\<forall>s. \<exists>x. fst (m s) = Inr x)"

lemma never_raisesE:
  assumes "never_raises m" obtains x s' where "m s = (Inr x, s')"
  using assms unfolding never_raises_def by (metis prod.collapse)

lemma never_raises_bind: "never_raises m \<Longrightarrow> (\<And>x. never_raises (f x)) \<Longrightarrow> never_raises (bindM m f)"
  unfolding never_raises_def by (simp add: bindM_apply) (metis old.sum.simps(6))

lemma never_raises_then: "never_raises m \<Longrightarrow> never_raises n \<Longrightarrow> never_raises (thenM m n)"
  unfolding thenM_def by (rule never_raises_bind)

lemma never_raises_catch: "(\<And>e. never_raises (h e)) \<Longrightarrow> never_raises (catchM m h)"
  unfolding never_raises_def by (auto simp: catchM_apply split: sum.split)

lemma never_raises_zoom: "never_raises m \<Longrightarrow> never_raises (zoomM get put m)"
  unfolding never_raises_def by (simp add: zoomM_apply)

lemma never_raises_basic: "never_raises (returnM x)" "never_raises (modifyM f)" "never_raises (getM g)"
  unfolding never_raises_def by (simp_all add: pm_simps)

lemma never_raises_for_each: "(\<And>x. never_raises (f x)) \<Longrightarrow> never_raises (for_each f xs)"
  by (induction xs) (auto intro: never_raises_then never_raises_basic)

lemma never_raises_inmem:
  "never_raises (ib_complete m)" "never_raises (ib_dead_letter m r)" "never_raises (ib_receive t s n)"
  "never_raises (ib_publish t body mid corr)"
  "never_raises (ic_get k)" "never_raises (ic_set k v ttl)"
  unfolding never_raises_def
  by (simp_all add: ib_complete_def ib_dead_letter_def Let_def receive_parts ic_get_eq)

lemmas never_raises_intros = never_raises_bind never_raises_then never_raises_catch never_raises_zoom
  never_raises_basic never_raises_for_each never_raises_inmem

lemma stream_handle_total: "never_raises (stream_seen_then_handle (inmem_stream_env lib np cfg) m)"
proof -
  have dl: "never_raises (stream_dead_letter (inmem_stream_env lib np cfg) m r)" for r
    unfolding stream_dead_letter_def dead_letter_message_def
    by (auto intro!: never_raises_intros)
  have dup: "never_raises (stream_suppress_duplicate (inmem_stream_env lib np cfg) m)"
    unfolding stream_suppress_duplicate_def ss_count_def ss_on_bus_def
    by (auto intro!: never_raises_intros)
  show ?thesis
    unfolding stream_seen_then_handle_def stream_handle_message_def ss_count_def ss_on_cache_def
    by (auto intro!: never_raises_bind never_raises_then never_raises_basic never_raises_zoom
        never_raises_catch never_raises_inmem dl dup split: sum.split)
qed

lemma stream_poll_runs:
  fixes n :: int and s :: inmem_stream
  assumes "bus_inv (ss_bus s)"
  defines "ms \<equiv> take (nat n) (queue_of (ss_bus s) TOPIC_MARKET_RAW STREAM_SUBSCRIPTION)"
    and "s1 \<equiv> s\<lparr>ss_bus := snd (ib_receive TOPIC_MARKET_RAW STREAM_SUBSCRIPTION n (ss_bus s))\<rparr>"
  shows "\<exists>s'. stream_poll_once (inmem_stream_env lib np cfg) n s = (Inr (int (length ms)), s') \<and>
    for_each (stream_seen_then_handle (inmem_stream_env lib np cfg)) ms s1 = (Inr (), s') \<and>
    bus_inv (ss_bus s') \<and> pending_of (ss_bus s') = pending_of (ss_bus s)"
proof -
  let ?env = "inmem_stream_env lib np cfg"
  let ?b = "snd (ib_receive TOPIC_MARKET_RAW STREAM_SUBSCRIPTION n (ss_bus s))"
  have rcv: "bus_receive inmem_bus_ops TOPIC_MARKET_RAW STREAM_SUBSCRIPTION n (ss_bus s) = (Inr ms, ?b)"
    by (simp add: prod_eq_iff receive_parts ms_def)
  have total: "never_raises (for_each (stream_seen_then_handle ?env) ms)"
    by (intro never_raises_for_each stream_handle_total)
  obtain u s' where run: "for_each (stream_seen_then_handle ?env) ms s1 = (Inr u, s')"
    by (rule never_raisesE [OF total])
  have poll: "stream_poll_once ?env n s = (Inr (int (length ms)), s')"
    using run by (simp add: stream_poll_once_def ss_on_bus_def pm_simps receive_parts ms_def s1_def)
  have run': "for_each (stream_seen_then_handle ?env) ms s1 = (Inr (), s')" using run by simp
  have "bus_inv (ss_bus s') \<and> pending_of (ss_bus s') = pending_of (ss_bus s)"
    by (rule stream.poll_settled [OF assms(1) rcv _ run'[unfolded s1_def]]) simp_all
  then show ?thesis using poll run' by blast
qed

text \<open>
  every poll of the stream service returns and settles what it took: on the in-memory
  backends a poll answers the number of messages it received, whatever their payloads and
  whatever the indicators or the store raise, and afterwards exactly the messages that were
  awaiting settlement before are still awaiting it.
\<close>

theorem stream_poll_settles:
  assumes "bus_inv (ss_bus s)"
  shows "fst (stream_poll_once (inmem_stream_env lib np cfg) n s) =
           Inr (int (min (nat n) (length (queue_of (ss_bus s) ''market.raw'' ''stream'')))) \<and>
    (let b' = ss_bus (snd (stream_poll_once (inmem_stream_env lib np cfg) n s)) in
       bus_inv b' \<and> pending_of b' = pending_of (ss_bus s))"
  using stream_poll_runs [OF assms, of lib np cfg n]
  by (auto simp: min.commute TOPIC_MARKET_RAW_def STREAM_SUBSCRIPTION_def)

section \<open>Every message is counted once\<close>

text \<open>Messages accounted for, less messages seen.\<close>

definition balance :: "stream_metrics \<Rightarrow> int" where
  "balance m = sm_messages_processed m + sm_duplicates_suppressed m + sm_dead_lettered m
     - sm_messages_seen m"

definition tally :: "int \<Rightarrow> inmem_stream \<Rightarrow> bool" where
  "tally k s \<longleftrightarrow> balance (ss_metrics s) = k"

lemma tally_zooms:
  "triple (tally k) (ss_on_bus m) (\<lambda>_. tally k) (\<lambda>_. tally k)"
  "triple (tally k) (ss_on_cache c) (\<lambda>_. tally k) (\<lambda>_. tally k)"
  "triple (tally k) (ss_on_store t) (\<lambda>_. tally k) (\<lambda>_. tally k)"
  unfolding ss_zoom_defs by (rule triple_zoom_frame; simp add: tally_def)+

lemma tally_run_processor: "triple (tally k) (run_processor env ev) (\<lambda>_. tally k) (\<lambda>_. tally k)"
  by (rule tripleI) (auto simp: run_processor_def tally_def split: sum.splits)

lemma tally_count:
  "(\<And>m. balance (f m) = balance m + d) \<Longrightarrow> triple (tally k) (ss_count f) (\<lambda>_. tally (k + d)) E"
  unfolding ss_count_def by (rule triple_modify) (simp add: tally_def)

lemma tally_count_same:
  "(\<And>m. balance (f m) = balance m) \<Longrightarrow> triple (tally k) (ss_count f) (\<lambda>_. tally k) E"
  using tally_count [of f 0 k E] by simp

lemma tally_complete:
  "triple (tally k) (ss_on_bus (bus_complete inmem_bus_ops m)) (\<lambda>_. tally k) E"
  by (rule tripleI) (auto simp: ss_on_bus_def zoomM_def ib_complete_def tally_def)

lemma tally_process:
  "triple (tally k) (stream_process_event (inmem_stream_env lib np cfg) m ev) (\<lambda>_. tally (k + 1)) (\<lambda>_. tally k)"
  unfolding stream_process_event_def stream_append_history_def inmem_stream_env_sel
  by (intro triple_bind [OF tally_run_processor] triple_then [OF tally_zooms(3)]
      triple_then [OF tally_count_same] triple_then [OF tally_zooms(2)] triple_then [OF tally_zooms(1)]
      triple_then [OF triple_modify_frame] triple_then [OF tally_count [where d = 1]] tally_complete)
     (simp_all add: balance_def tally_def)

lemma tally_dead_letter:
  "triple (tally k) (stream_dead_letter (inmem_stream_env lib np cfg) m r) (\<lambda>_. tally (k + 1)) (\<lambda>_ _. False)"
  by (rule tripleI)
     (auto simp: stream_dead_letter_def dead_letter_message_def pm_simps ib_dead_letter_def Let_def
       tally_def balance_def)

lemma tally_handle:
  "triple (tally k) (stream_handle_message (inmem_stream_env lib np cfg) m) (\<lambda>_. tally (k + 1)) (\<lambda>_ _. True)"
proof (cases "validate_market lib (msg_body m)")
  case (Inl detail)
  then show ?thesis
    by (simp add: stream_handle_message_def) (rule triple_weaken [OF tally_dead_letter]; simp)
next
  case (Inr ev)
  have dup: "triple (tally k) (stream_suppress_duplicate (inmem_stream_env lib np cfg) m) (\<lambda>_. tally (k + 1)) (\<lambda>_ _. True)"
    unfolding stream_suppress_duplicate_def inmem_stream_env_sel
    by (rule triple_then [OF tally_count [where d = 1] tally_complete]) (simp add: balance_def)
  have body: "triple (tally k)
      (catchM (stream_process_event (inmem_stream_env lib np cfg) m ev)
        (\<lambda>e. stream_dead_letter (inmem_stream_env lib np cfg) m (stream_failed_text e)))
      (\<lambda>_. tally (k + 1)) (\<lambda>_ _. True)"
    by (rule triple_catch [OF tally_process], rule triple_weaken [OF tally_dead_letter]) simp_all
  have get: "triple (tally k) (ss_on_cache c) (\<lambda>_. tally k) (\<lambda>_ _. True)" for c :: "(inmem_cache, pyval) pm"
    by (rule triple_weaken [OF tally_zooms(2)]) simp_all
  show ?thesis
    unfolding stream_handle_message_def inmem_stream_env_sel Inr sum.case
    by (rule triple_bind [OF get]) (simp add: dup body)
qed

lemma tally_seen:
  "triple (tally k) (stream_seen_then_handle (inmem_stream_env lib np cfg) m) (\<lambda>_. tally k) (\<lambda>_ _. True)"
proof -
  have "triple (tally k) (ss_count (\<lambda>x. x\<lparr>sm_messages_seen := sm_messages_seen x + 1\<rparr>)) (\<lambda>_. tally (k - 1)) (\<lambda>_ _. True)"
    using tally_count [of _ "-1" k] by (simp add: balance_def)
  from triple_then [OF this, of "stream_handle_message (inmem_stream_env lib np cfg) m"]
    tally_handle [of "k - 1" lib np cfg m] show ?thesis
    by (simp add: stream_seen_then_handle_def)
qed


section \<open>The effects of each outcome\<close>

definition stream_init :: "(nat \<Rightarrow> string) \<Rightarrow> clock \<Rightarrow> inmem_stream" where
  "stream_init us clk =
     \<lparr>ss_bus = inmem_bus_init us, ss_cache = inmem_cache_init clk, ss_store = inmem_ts_init,
      ss_history = (\<lambda>_. []),
      ss_metrics = \<lparr>http = http_metrics_init, last_error = None, sm_messages_seen = 0,
        sm_messages_processed = 0, sm_duplicates_suppressed = 0, sm_signals_published = 0,
        sm_dead_lettered = 0, sm_tick_rows_ingested = 0, sm_indicator_rows_ingested = 0\<rparr>,
      ss_uuids = us, ss_next = 0\<rparr>"

theorem stream_poll_settles_witness:
  "fst (stream_poll_once (inmem_stream_env null_lib std_numpy default_indicator_config) 10
      (stream_init (\<lambda>_. ''u'') second_clock)) = Inr 0"
proof -
  have "bus_inv (ss_bus (stream_init (\<lambda>_. ''u'') second_clock))"
    by (simp add: stream_init_def bus_inv_init)
  from stream_poll_settles [OF this, of null_lib std_numpy default_indicator_config 10] show ?thesis
    by (simp add: stream_init_def queue_of_def inmem_bus_init_def)
qed

text \<open>
  a malformed payload is only dead-lettered: a message whose body fails validation is
  appended to the dead-letter queue of its subscription with a bounded reason; the store, the
  cache, the price history and the published signals are untouched.
\<close>

theorem stream_invalid_only_dead_lettered:
  assumes "validate_market lib (msg_body m) = Inl detail"
    and "stream_handle_message (inmem_stream_env lib np cfg) m s = (r, s')"
  shows "r = Inr () \<and> ss_store s' = ss_store s \<and> ss_cache s' = ss_cache s \<and> ss_history s' = ss_history s \<and>
    queue_of (ss_bus s') = queue_of (ss_bus s) \<and>
    dlqs (ss_bus s') (msg_topic m) (msg_sub m) = dlqs (ss_bus s) (msg_topic m) (msg_sub m) @ [m\<lparr>msg_dlq := True\<rparr>] \<and>
    sm_dead_lettered (ss_metrics s') = sm_dead_lettered (ss_metrics s) + 1 \<and>
    (\<exists>reason. last_error (ss_metrics s') = Some reason \<and> length reason \<le> 600)"
proof -
  have "length (validation_reason ''invalid market event payload'' detail) \<le> 600"
    by (simp add: validation_reason_def MAX_DEAD_LETTER_REASON_CHARS_def Let_def)
  then show ?thesis using assms
    by (auto simp: stream_handle_message_def stream_dead_letter_def dead_letter_message_def pm_simps
        ib_dead_letter_def Let_def)
qed

lemma ic_append_history_ok [simp]: "fst (ic_append_history s row n c) = Inr ()"
  by (simp add: ic_append_history_eq)

lemma ic_set_snapshot_ok [simp]: "fst (ic_set_snapshot s d c) = Inr ()"
  by (simp add: ic_set_snapshot_def)

lemma ic_get_ok [simp]: "fst (ic_get k c) = Inr (found (lookup c k))"
  by (simp add: ic_get_eq)

lemma tick_table [simp]: "default_table (make_tick_row lib ev) = PStr ''ticks''"
  by (simp add: default_table_def make_tick_row_def)

lemma indicator_table [simp]: "default_table (make_indicator_row lib ev iv) = PStr ''indicators''"
  by (simp add: default_table_def make_indicator_row_def)

lemma processor_process_rows:
  assumes "processor_process lib np c h uid ev = Inr p"
  shows "ps_tick_row p = make_tick_row lib ev"
    "\<exists>iv. ps_indicator_row p = make_indicator_row lib ev iv \<and> ps_snapshot p = make_snapshot lib ev iv \<and>
       ps_signal p = make_signal uid ev iv"
  using assms by (auto simp: processor_process_def bindR_def split: sum.splits)

lemma ingest_two_ok:
  assumes "processor_process lib np c h uid ev = Inr p"
  shows "fst (it_ingest [ps_tick_row p, ps_indicator_row p] st) = Inr ()"
    "table_rows (snd (it_ingest [ps_tick_row p, ps_indicator_row p] st)) (PStr ''ticks'') =
       table_rows st (PStr ''ticks'') @ [dict_pop (ps_tick_row p) ''_table'']"
    "table_rows (snd (it_ingest [ps_tick_row p, ps_indicator_row p] st)) (PStr ''indicators'') =
       table_rows st (PStr ''indicators'') @ [dict_pop (ps_indicator_row p) ''_table'']"
  using processor_process_rows [OF assms]
  by (auto simp: it_ingest_def thenM_apply ingest_one returnM_def)

text \<open>The state in which the processing of an event ends on the in-memory backends.\<close>

definition processed_cache :: "pylib \<Rightarrow> market_event \<Rightarrow> processed_signal \<Rightarrow> inmem_cache \<Rightarrow> inmem_cache" where
  "processed_cache lib ev p c =
     snd (ic_set (stream_dedupe_key lib ev) (PBool True) (Some IDEMPOTENCY_TTL_SECONDS)
       (snd (ic_append_history (me_symbol ev) (dict_pop (ps_tick_row p) ''_table'') MAX_CACHED_HISTORY_ROWS
         (snd (ic_set_snapshot (me_symbol ev) (ps_snapshot p) c)))))"

definition processed_state :: "pylib \<Rightarrow> indicator_config \<Rightarrow> message \<Rightarrow> market_event \<Rightarrow> processed_signal \<Rightarrow> inmem_stream \<Rightarrow> inmem_stream" where
  "processed_state lib cfg m ev p s = s\<lparr>
     ss_next := Suc (ss_next s),
     ss_store := snd (it_ingest [ps_tick_row p, ps_indicator_row p] (ss_store s)),
     ss_cache := processed_cache lib ev p (ss_cache s),
     ss_bus := snd (ib_complete m (snd (ib_publish TOPIC_SIGNALS (signal_dump lib (ps_signal p))
                 (Some (stream_dedupe_key lib ev)) (correlation_id ev) (ss_bus s)))),
     ss_history := processor_commit cfg ev (ss_history s),
     ss_metrics := (ss_metrics s)\<lparr>
       sm_tick_rows_ingested := sm_tick_rows_ingested (ss_metrics s) + 1,
       sm_indicator_rows_ingested := sm_indicator_rows_ingested (ss_metrics s) + 1,
       sm_signals_published := sm_signals_published (ss_metrics s) + 1,
       sm_messages_processed := sm_messages_processed (ss_metrics s) + 1\<rparr>\<rparr>"

lemma ib_complete_ok [simp]: "fst (ib_complete m b) = Inr ()"
  by (simp add: ib_complete_def)

lemma stream_process_inmem:
  assumes "processor_process lib np cfg (ss_history s) (ss_uuids s (ss_next s)) ev = Inr p"
  shows "stream_process_event (inmem_stream_env lib np cfg) m ev s = (Inr (), processed_state lib cfg m ev p s)"
  unfolding stream_process_event_def
  by (simp add: pm_simps run_processor_def assms ss_zoom_defs ss_count_def stream_append_history_def
      ingest_two_ok(1) [OF assms] processed_state_def processed_cache_def)

lemma stream_process_fails:
  assumes "processor_process lib np cfg (ss_history s) (ss_uuids s (ss_next s)) ev = Inl e"
  shows "stream_process_event (inmem_stream_env lib np cfg) m ev s = (Inl e, s)"
  unfolding stream_process_event_def by (simp add: pm_simps run_processor_def assms)

lemma key_shapes [simp]:
  "stream_dedupe_key lib ev \<noteq> snapshot_key s" "snapshot_key s \<noteq> stream_dedupe_key lib ev"
  "stream_dedupe_key lib ev \<noteq> history_key s" "history_key s \<noteq> stream_dedupe_key lib ev"
  by (simp_all add: stream_dedupe_key_def IDEMPOTENCY_PREFIX_def cache_key_defs)

lemma processed_cache_entries:
  "map_of (c_store (processed_cache lib ev p c)) (stream_dedupe_key lib ev) = Some (PBool True)"
  "\<exists>d. c_expiry (processed_cache lib ev p c) (stream_dedupe_key lib ev) = Some d"
  "lookup (processed_cache lib ev p c) (snapshot_key (me_symbol ev)) = Some (PDict (ps_snapshot p))"
proof -
  let ?c1 = "snd (ic_set_snapshot (me_symbol ev) (ps_snapshot p) c)"
  have "lookup ?c1 (snapshot_key (me_symbol ev)) = Some (PDict (ps_snapshot p))"
    "c_expiry ?c1 (snapshot_key (me_symbol ev)) = None"
    by (simp_all add: ic_set_snapshot_def ic_set_lookup_None)
  then show "lookup (processed_cache lib ev p c) (snapshot_key (me_symbol ev)) = Some (PDict (ps_snapshot p))"
    by (simp add: processed_cache_def lookup_def ic_set_expiry ic_append_history_eq ic_get_entry)
qed (simp_all add: processed_cache_def ic_set_expiry)

lemma signal_published:
  "queue_of (snd (ib_complete m (snd (ib_publish t body (Some mid) corr b)))) t' s =
     queue_of b t' s @
     (if t' = t \<and> mid \<noteq> [] \<and> mid \<notin> seen_ids b t \<and> queues b t s \<noteq> None
      then [published_message t s body mid corr (next_sequence b t)] else
      if t' = t \<and> mid = [] \<and> uuids b (uuid_next b) \<notin> seen_ids b t \<and> queues b t s \<noteq> None
      then [published_message t s body (uuids b (uuid_next b)) corr (next_sequence b t)] else [])"
proof (cases "fst (pick_message_id (Some mid) b) \<in> seen_ids b t")
  case True
  have "queue_of (snd (pick_message_id (Some mid) b)) = queue_of b"
    by (simp add: queue_of_def fun_eq_iff)
  then show ?thesis using True
    by (auto simp: ib_complete_def ib_publish_dup pick_message_id_def split: if_splits)
next
  case False
  then show ?thesis
    by (auto simp: ib_complete_def ib_publish_new [OF False] pick_message_id_def split: if_splits)
qed

text \<open>A valid, unseen event whose indicators compute is handled to the end.\<close>

lemma stream_handled_inmem:
  assumes "validate_market lib (msg_body m) = Inr ev" "lookup (ss_cache s) (stream_dedupe_key lib ev) = None"
    and "processor_process lib np cfg (ss_history s) (ss_uuids s (ss_next s)) ev = Inr p"
  shows "stream_handle_message (inmem_stream_env lib np cfg) m s = (Inr (), processed_state lib cfg m ev p
    (s\<lparr>ss_cache := snd (ic_get (stream_dedupe_key lib ev) (ss_cache s))\<rparr>))" (is "_ = (_, processed_state _ _ _ _ _ ?s1)")
proof -
  have "processor_process lib np cfg (ss_history ?s1) (ss_uuids ?s1 (ss_next ?s1)) ev = Inr p" using assms(3) by simp
  from stream_process_inmem [OF this, of m] show ?thesis
    using assms(1,2) by (simp add: stream_handle_message_def ss_on_cache_def pm_simps)
qed

text \<open>The cache afterwards: its invariant holds, and no key but those of the event appears.\<close>

lemma processed_cache_inv: "cache_inv c \<Longrightarrow> cache_inv (processed_cache lib ev p c)"
  by (simp add: processed_cache_def ic_set_snapshot_def ic_append_history_eq ic_set_inv ic_get_inv)

lemma processed_cache_other:
  assumes "cache_inv c" "lookup c k = None" "k \<noteq> stream_dedupe_key lib ev" "k \<noteq> history_key (me_symbol ev)"
    "k \<noteq> snapshot_key (me_symbol ev)"
  shows "lookup (processed_cache lib ev p c) k = None"
proof -
  have le: "lookup c' k = None" if "lookup c' \<subseteq>\<^sub>m (lookup d)(k' \<mapsto> v)" "k \<noteq> k'" "lookup d k = None" for c' d k' v
    using that by (metis domIff fun_upd_other map_le_def)
  let ?c1 = "snd (ic_set_snapshot (me_symbol ev) (ps_snapshot p) c)"
  let ?c2 = "snd (ic_append_history (me_symbol ev) (dict_pop (ps_tick_row p) ''_table'') MAX_CACHED_HISTORY_ROWS ?c1)"
  have inv1: "cache_inv ?c1" using assms(1) by (simp add: ic_set_snapshot_def ic_set_inv)
  have 1: "lookup ?c1 k = None" using assms(2,5) by (simp add: ic_set_snapshot_def ic_set_lookup_None)
  have 2: "lookup ?c2 k = None" by (rule le [OF ic_append_history_lookup [OF inv1] assms(4) 1])
  have inv2: "cache_inv ?c2" using inv1 by (simp add: ic_append_history_eq ic_set_inv ic_get_inv)
  show ?thesis unfolding processed_cache_def by (rule le [OF ic_set_lookup [OF inv2] assms(3) 2])
qed

text \<open>
  C16: the effects of a processed event: a valid, unseen event whose indicators compute is
  written as one tick and one indicator row, replaces the symbol's snapshot, is published as
  one signal (identified by the event's key) to every signal subscription, is marked as seen
  with an expiry, extends the symbol's price history, and settles its message.
\<close>

theorem stream_success_effects:
  assumes "validate_market lib (msg_body m) = Inr ev"
    and "lookup (ss_cache s) (stream_dedupe_key lib ev) = None"
    and "processor_process lib np cfg (ss_history s) (ss_uuids s (ss_next s)) ev = Inr p"
    and "stream_handle_message (inmem_stream_env lib np cfg) m s = (r, s')"
  shows "r = Inr () \<and>
    table_rows (ss_store s') (PStr ''ticks'') =
      table_rows (ss_store s) (PStr ''ticks'') @ [dict_pop (ps_tick_row p) ''_table''] \<and>
    table_rows (ss_store s') (PStr ''indicators'') =
      table_rows (ss_store s) (PStr ''indicators'') @ [dict_pop (ps_indicator_row p) ''_table''] \<and>
    lookup (ss_cache s') (snapshot_key (me_symbol ev)) = Some (PDict (ps_snapshot p)) \<and>
    (stream_dedupe_key lib ev \<in> seen_ids (ss_bus s) ''signals'' \<or>
     queue_of (ss_bus s') ''signals'' sub = queue_of (ss_bus s) ''signals'' sub @
       (if queues (ss_bus s) ''signals'' sub = None then []
        else [published_message ''signals'' sub (signal_dump lib (ps_signal p)) (stream_dedupe_key lib ev)
                (correlation_id ev) (next_sequence (ss_bus s) ''signals'')])) \<and>
    map_of (c_store (ss_cache s')) (stream_dedupe_key lib ev) = Some (PBool True) \<and>
    (\<exists>d. c_expiry (ss_cache s') (stream_dedupe_key lib ev) = Some d) \<and>
    ss_history s' (me_symbol ev) =
      deque_append (nat (history_maxlen cfg)) (ss_history s (me_symbol ev)) (me_price ev) \<and>
    in_flight (ss_bus s') (msg_ref m) = None \<and>
    sm_messages_processed (ss_metrics s') = sm_messages_processed (ss_metrics s) + 1"
proof -
  let ?s1 = "s\<lparr>ss_cache := snd (ic_get (stream_dedupe_key lib ev) (ss_cache s))\<rparr>"
  have "stream_handle_message (inmem_stream_env lib np cfg) m s = (Inr (), processed_state lib cfg m ev p ?s1)"
    by (rule stream_handled_inmem [OF assms(1-3)])
  then have r: "r = Inr ()" and s': "s' = processed_state lib cfg m ev p ?s1" using assms(4) by auto
  have ne: "stream_dedupe_key lib ev \<noteq> []" by (simp add: stream_dedupe_key_def IDEMPOTENCY_PREFIX_def)
  show ?thesis
    using ingest_two_ok(2,3) [OF assms(3), of "ss_store s"] ne
      processed_cache_entries [of lib ev p "ss_cache ?s1"]
    by (simp add: r s' processed_state_def processor_commit_def signal_published TOPIC_SIGNALS_def)
       (simp add: ib_complete_def)
qed

text \<open>
  C17: a redelivered event has no second effect: as long as the marker of a processed event is
  held and its deadline has not passed, any message with an event of the same key is completed
  as a duplicate; store, price history and every queue stay as they are.
\<close>

theorem stream_redelivery_suppressed:
  assumes "validate_market lib (msg_body m) = Inr ev"
    and "lookup (ss_cache s) (stream_dedupe_key lib ev) = None"
    and "processor_process lib np cfg (ss_history s) (ss_uuids s (ss_next s)) ev = Inr p"
    and "stream_handle_message (inmem_stream_env lib np cfg) m s = (Inr (), s1)"
    and "cache_inv (ss_cache s1)" "\<forall>a \<in> set as. \<not> overwrites (stream_dedupe_key lib ev) a"
    and "ss_cache t = cache_run as (ss_cache s1)"
    and "c_expiry (ss_cache s1) (stream_dedupe_key lib ev) = Some d" "clock_now (ss_cache t) \<le> d"
    and "validate_market lib (msg_body m') = Inr ev'" "stream_dedupe_key lib ev' = stream_dedupe_key lib ev"
    and "stream_handle_message (inmem_stream_env lib np cfg) m' t = (r, t')"
  shows "r = Inr () \<and> ss_store t' = ss_store t \<and> ss_history t' = ss_history t \<and>
    queue_of (ss_bus t') = queue_of (ss_bus t) \<and> in_flight (ss_bus t') (msg_ref m') = None \<and>
    sm_duplicates_suppressed (ss_metrics t') = sm_duplicates_suppressed (ss_metrics t) + 1"
proof -
  let ?s1 = "s\<lparr>ss_cache := snd (ic_get (stream_dedupe_key lib ev) (ss_cache s))\<rparr>"
  have "s1 = processed_state lib cfg m ev p ?s1"
    using stream_handled_inmem [OF assms(1-3)] assms(4) by simp
  then have "holds_until (stream_dedupe_key lib ev) (PBool True) d (ss_cache s1)"
    using assms(8) by (simp add: holds_until_def processed_state_def processed_cache_entries)
  from holds_run [OF assms(5) this assms(6)]
  have "lookup (ss_cache t) (stream_dedupe_key lib ev) = Some (PBool True)"
    using holds_get(1) assms(7,9) by metis
  then show ?thesis using assms(10,11,12)
    by (auto simp: stream_handle_message_def ss_on_cache_def pm_simps stream_suppress_duplicate_def
        ss_count_def ss_on_bus_def ib_complete_def)
qed

text \<open>
  a failed computation has no effect: when an indicator raises, the message is
  dead-lettered with the exception's name and message; nothing is written to the store, no
  signal is published, and the price history stays as it was, so the event can be replayed.
\<close>

theorem stream_failure_no_effect:
  assumes "validate_market lib (msg_body m) = Inr ev"
    and "lookup (ss_cache s) (stream_dedupe_key lib ev) = None"
    and "processor_process lib np cfg (ss_history s) (ss_uuids s (ss_next s)) ev = Inl e"
    and "stream_handle_message (inmem_stream_env lib np cfg) m s = (r, s')"
  shows "r = Inr () \<and> ss_store s' = ss_store s \<and> ss_history s' = ss_history s \<and>
    queue_of (ss_bus s') = queue_of (ss_bus s) \<and> lookup (ss_cache s') (stream_dedupe_key lib ev) = None \<and>
    dlqs (ss_bus s') (msg_topic m) (msg_sub m) = dlqs (ss_bus s) (msg_topic m) (msg_sub m) @ [m\<lparr>msg_dlq := True\<rparr>] \<and>
    last_error (ss_metrics s') = Some (''stream processing failed: '' @ exn_name e @ '': '' @ exn_str e)"
proof -
  let ?s1 = "s\<lparr>ss_cache := snd (ic_get (stream_dedupe_key lib ev) (ss_cache s))\<rparr>"
  have p1: "processor_process lib np cfg (ss_history ?s1) (ss_uuids ?s1 (ss_next ?s1)) ev = Inl e"
    using assms(3) by simp
  have fst_none: "lookup (snd (ic_get (stream_dedupe_key lib ev) (ss_cache s))) (stream_dedupe_key lib ev) = None"
    using assms(2) by (auto simp: ic_get_eq is_expired_def lookup_def read_clock_def split: option.splits)
  show ?thesis
    using assms(1,2,4) stream_process_fails [OF p1, of m] fst_none
    by (auto simp: stream_handle_message_def ss_on_cache_def pm_simps stream_dead_letter_def
        dead_letter_message_def ib_dead_letter_def Let_def stream_failed_text_def)
qed

section \<open>A concrete run\<close>

definition example_event :: market_event where
  "example_event =
     \<lparr>event_id = ''e1'', event_ts = utc_datetime 0, correlation_id = Some ''c1'', trace_id = None,
      me_symbol = ''BTCUSDT'', me_source = ''binance'', me_type = ''trade'', me_price = 100,
      me_volume = None, me_bid = None, me_ask = None\<rparr>"

definition example_lib :: pylib where
  "example_lib = null_lib\<lparr>validate_market :=
     (\<lambda>v. if v = PNone then Inl ''Field required'' else Inr example_event)\<rparr>"

definition example_message :: "pyval \<Rightarrow> message" where
  "example_message body =
     \<lparr>msg_topic = ''market.raw'', msg_sub = ''stream'', msg_body = body, msg_id = ''m1'', msg_corr = None,
      msg_seq = Some 1, msg_dlq = False\<rparr>"

definition no_indicators :: indicator_values where
  "no_indicators = \<lparr>iv_sma = None, iv_ema = None, iv_rsi = None, iv_volatility = None, iv_trend = None,
     iv_zscore = None, iv_ewma = None\<rparr>"

definition example_processed :: "string \<Rightarrow> processed_signal" where
  "example_processed uid =
     \<lparr>ps_tick_row = make_tick_row example_lib example_event,
      ps_indicator_row = make_indicator_row example_lib example_event no_indicators,
      ps_snapshot = make_snapshot example_lib example_event no_indicators,
      ps_signal = make_signal uid example_event no_indicators\<rparr>"

lemma example_valid: "validate_market example_lib (msg_body (example_message (PInt 1))) = Inr example_event"
  by (simp add: example_lib_def example_message_def)

lemma example_process:
  "processor_process example_lib std_numpy default_indicator_config (\<lambda>_. []) uid example_event
     = Inr (example_processed uid)"
  by (simp add: processor_process_def compute_indicators_def default_indicator_config_def candidate_history_def
      simple_moving_average_def exponential_moving_average_def relative_strength_index_def
      rolling_volatility_def detect_trend_def z_score_anomaly_def ewma_anomaly_def bindR_def
      example_processed_def no_indicators_def)

abbreviation example_start :: inmem_stream where
  "example_start \<equiv> stream_init (\<lambda>_. ''u'') second_clock"

lemma example_start_sel [simp]:
  "ss_history example_start = (\<lambda>_. [])" "ss_uuids example_start = (\<lambda>_. ''u'')" "ss_next example_start = 0"
  "ss_cache example_start = inmem_cache_init second_clock" "ss_store example_start = inmem_ts_init"
  by (simp_all add: stream_init_def)

lemma lookup_init [simp]: "lookup (inmem_cache_init c) k = None"
  by (simp add: lookup_def inmem_cache_init_def)

abbreviation example_env :: "(inmem_bus, inmem_cache, inmem_ts) stream_env" where
  "example_env \<equiv> inmem_stream_env example_lib std_numpy default_indicator_config"

abbreviation example_after :: inmem_stream where
  "example_after \<equiv> processed_state example_lib default_indicator_config (example_message (PInt 1)) example_event
     (example_processed ''u'') example_start"

lemma example_cache_get: "snd (ic_get k (inmem_cache_init c)) = inmem_cache_init c"
  by (simp add: ic_get_def is_expired_def inmem_cache_init_def)

lemma example_handled:
  "stream_handle_message example_env (example_message (PInt 1)) example_start = (Inr (), example_after)"
proof -
  have "example_start\<lparr>ss_cache := snd (ic_get k (ss_cache example_start))\<rparr> = example_start" for k
    by (simp add: example_cache_get stream_init_def)
  then show ?thesis
    using stream_process_inmem [of example_lib std_numpy default_indicator_config example_start example_event
        "example_processed ''u''" "example_message (PInt 1)"]
    by (simp add: stream_handle_message_def ss_on_cache_def pm_simps example_valid example_process)
qed

theorem stream_success_effects_witness:
  "table_rows (ss_store (snd (stream_handle_message example_env (example_message (PInt 1)) example_start)))
     (PStr ''ticks'') = [dict_pop (make_tick_row example_lib example_event) ''_table'']"
  using stream_success_effects [OF example_valid _ _ example_handled, of "example_processed ''u''"]
  by (simp add: example_process example_handled table_rows_def inmem_ts_init_def example_processed_def)

theorem stream_invalid_only_dead_lettered_witness:
  "ss_store (snd (stream_handle_message example_env (example_message PNone) example_start)) = inmem_ts_init"
proof -
  have "validate_market example_lib (msg_body (example_message PNone)) = Inl ''Field required''"
    by (simp add: example_lib_def example_message_def)
  from stream_invalid_only_dead_lettered [OF this prod.collapse [symmetric], of std_numpy default_indicator_config example_start]
  show ?thesis by simp
qed

theorem stream_failure_no_effect_witness:
  "ss_store (snd (stream_handle_message
      (inmem_stream_env example_lib std_numpy (default_indicator_config\<lparr>sma_window := 0\<rparr>))
      (example_message (PInt 1)) example_start)) = inmem_ts_init"
proof -
  let ?cfg = "default_indicator_config\<lparr>sma_window := 0\<rparr>"
  have "processor_process example_lib std_numpy ?cfg (ss_history example_start)
      (ss_uuids example_start (ss_next example_start)) example_event
      = Inl (ValueError ''window must be positive'')"
    by (simp add: processor_process_def compute_indicators_def simple_moving_average_def
        validate_window_bad bindR_def)
  from stream_failure_no_effect [OF example_valid _ this prod.collapse [symmetric]]
  show ?thesis by simp
qed

lemma example_marker:
  "c_expiry (ss_cache example_after) (stream_dedupe_key example_lib example_event) = Some 86400"
  "clock_now (ss_cache example_after) \<le> 86400" "cache_inv (ss_cache example_after)"
proof -
  have e: "ic_get k c = (Inr (found (lookup c k)), c)" if "c_expiry c k = None" for k c
    using that by (simp add: ic_get_eq is_expired_def)
  have c: "processed_cache example_lib example_event (example_processed ''u'') (inmem_cache_init second_clock)
     = snd (ic_set (stream_dedupe_key example_lib example_event) (PBool True) (Some 86400) c1)"
    if "c1 = snd (ic_append_history (me_symbol example_event)
        (dict_pop (ps_tick_row (example_processed ''u'')) ''_table'') MAX_CACHED_HISTORY_ROWS
        (snd (ic_set_snapshot (me_symbol example_event) (ps_snapshot (example_processed ''u''))
          (inmem_cache_init second_clock))))" for c1
    by (simp add: that processed_cache_def IDEMPOTENCY_TTL_SECONDS_def)
  let ?c1 = "snd (ic_append_history (me_symbol example_event)
        (dict_pop (ps_tick_row (example_processed ''u'')) ''_table'') MAX_CACHED_HISTORY_ROWS
        (snd (ic_set_snapshot (me_symbol example_event) (ps_snapshot (example_processed ''u''))
          (inmem_cache_init second_clock))))"
  have clk: "c_clock ?c1 = second_clock"
    by (simp add: ic_append_history_eq ic_set_snapshot_def e inmem_cache_init_def)
  have inv: "cache_inv ?c1"
    by (simp add: ic_append_history_eq ic_set_snapshot_def ic_set_inv ic_get_inv second_clock_inv)
  have ssc: "ss_cache example_after =
      snd (ic_set (stream_dedupe_key example_lib example_event) (PBool True) (Some 86400) ?c1)"
    by (simp add: processed_state_def c [OF refl])
  show "c_expiry (ss_cache example_after) (stream_dedupe_key example_lib example_event) = Some 86400"
    unfolding ssc by (simp add: ic_set_expiry clk) (simp add: second_clock_def)
  show "clock_now (ss_cache example_after) \<le> 86400"
    unfolding ssc by (simp add: clock_now_def ic_set_def Let_def read_clock_def clk)
       (simp add: second_clock_def)
  show "cache_inv (ss_cache example_after)"
    unfolding ssc by (simp add: ic_set_inv inv)
qed

theorem stream_redelivery_suppressed_witness:
  "ss_store (snd (stream_handle_message example_env (example_message (PInt 2)) example_after))
     = ss_store example_after"
proof -
  have v2: "validate_market example_lib (msg_body (example_message (PInt 2))) = Inr example_event"
    by (simp add: example_lib_def example_message_def)
  have run: "ss_cache example_after = cache_run [] (ss_cache example_after)" by (simp add: cache_run_def)
  have p: "processor_process example_lib std_numpy default_indicator_config (ss_history example_start)
      (ss_uuids example_start (ss_next example_start)) example_event = Inr (example_processed ''u'')"
    by (simp add: example_process)
  have none: "lookup (ss_cache example_start) (stream_dedupe_key example_lib example_event) = None" by simp
  have no: "\<forall>a \<in> set []. \<not> overwrites (stream_dedupe_key example_lib example_event) a" by simp
  from stream_redelivery_suppressed [OF example_valid none p example_handled example_marker(3) no run
      example_marker(1,2) v2 refl prod.collapse [symmetric]]
  show ?thesis by simp
qed

section \<open>The retained price history\<close>

text \<open>The prices of the valid events of a symbol among some messages, in order.\<close>

definition prices_of :: "pylib \<Rightarrow> string \<Rightarrow> message list \<Rightarrow> real list" where
  "prices_of lib symbol ms = concat (map (\<lambda>m. case validate_market lib (msg_body m) of
       Inl _ \<Rightarrow> [] | Inr ev \<Rightarrow> (if me_symbol ev = symbol then [me_price ev] else [])) ms)"

lemma history_after_handle:
  "\<exists>ps. subseq ps (prices_of lib symbol [m]) \<and>
     ss_history (snd (stream_seen_then_handle (inmem_stream_env lib np cfg) m s)) symbol
       = deque_extend (nat (history_maxlen cfg)) (ss_history s symbol) ps"
proof (cases "validate_market lib (msg_body m)")
  case (Inl d)
  then show ?thesis
    by (intro exI [of _ "[]"])
       (simp add: stream_seen_then_handle_def stream_handle_message_def pm_simps ss_count_def
         stream_dead_letter_def dead_letter_message_def deque_extend_def prices_of_def)
next
  case (Inr ev)
  let ?key = "stream_dedupe_key lib ev"
  let ?s0 = "s\<lparr>ss_metrics := (ss_metrics s)\<lparr>sm_messages_seen := sm_messages_seen (ss_metrics s) + 1\<rparr>\<rparr>"
  let ?s1 = "?s0\<lparr>ss_cache := snd (ic_get ?key (ss_cache s))\<rparr>"
  have h: "stream_seen_then_handle (inmem_stream_env lib np cfg) m s =
    (if truthy (found (lookup (ss_cache s) ?key)) then stream_suppress_duplicate (inmem_stream_env lib np cfg) m ?s1
     else catchM (stream_process_event (inmem_stream_env lib np cfg) m ev)
            (\<lambda>e. stream_dead_letter (inmem_stream_env lib np cfg) m (stream_failed_text e)) ?s1)"
    by (simp add: stream_seen_then_handle_def stream_handle_message_def pm_simps ss_count_def ss_on_cache_def Inr)
  show ?thesis
  proof (cases "truthy (found (lookup (ss_cache s) ?key))")
    case True
    then show ?thesis
      by (intro exI [of _ "[]"])
         (simp add: h stream_suppress_duplicate_def pm_simps ss_count_def ss_on_bus_def deque_extend_def)
  next
    case False
    show ?thesis
    proof (cases "processor_process lib np cfg (ss_history ?s1) (ss_uuids ?s1 (ss_next ?s1)) ev")
      case (Inl e)
      from False stream_process_fails [OF this, of m] show ?thesis
        by (intro exI [of _ "[]"])
           (simp add: h pm_simps stream_dead_letter_def dead_letter_message_def deque_extend_def)
    next
      case (Inr p)
      from False stream_process_inmem [OF this, of m]
      have "snd (stream_seen_then_handle (inmem_stream_env lib np cfg) m s) = processed_state lib cfg m ev p ?s1"
        by (simp add: h pm_simps)
      then show ?thesis
        by (intro exI [of _ "if me_symbol ev = symbol then [me_price ev] else []"])
           (simp add: \<open>validate_market lib (msg_body m) = Inr ev\<close> prices_of_def processed_state_def
             processor_commit_def deque_extend_def)
    qed
  qed
qed

text \<open>
  the retained history is a window over what was processed: starting empty, after any
  batch of messages the history of a symbol is the newest prices, at most the configured
  length, of a subsequence (the processed ones, in order) of the valid events of the symbol
  in the batch; malformed, duplicate and failed messages leave no trace in it.
\<close>

theorem stream_history_window:
  "\<exists>ps. subseq ps (prices_of lib symbol ms) \<and>
     ss_history (snd (for_each (stream_seen_then_handle (inmem_stream_env lib np cfg)) ms (stream_init us clk))) symbol
       = newest (nat (history_maxlen cfg)) ps"
proof -
  let ?f = "stream_seen_then_handle (inmem_stream_env lib np cfg)"
  let ?n = "nat (history_maxlen cfg)"
  have "\<exists>ps. subseq ps (prices_of lib symbol ms) \<and>
     ss_history (snd (for_each ?f ms s)) symbol = newest ?n (old @ ps)"
    if "ss_history s symbol = newest ?n old" for s :: inmem_stream and old
    using that
  proof (induction ms arbitrary: s old)
    case Nil
    then show ?case by (intro exI [of _ "[]"]) (simp add: returnM_def)
  next
    case (Cons m ms)
    obtain u s1 where run: "?f m s = (Inr u, s1)" by (rule never_raisesE [OF stream_handle_total])
    obtain ps where ps: "subseq ps (prices_of lib symbol [m])"
      "ss_history s1 symbol = deque_extend ?n (ss_history s symbol) ps"
      using history_after_handle [of lib symbol m np cfg s] run by auto
    then have "ss_history s1 symbol = newest ?n (old @ ps)"
      using Cons.prems by (simp add: newest_append)
    from Cons.IH [OF this] obtain ps' where ps': "subseq ps' (prices_of lib symbol ms)"
      "ss_history (snd (for_each ?f ms s1)) symbol = newest ?n ((old @ ps) @ ps')" by blast
    have "prices_of lib symbol (m # ms) = prices_of lib symbol [m] @ prices_of lib symbol ms"
      by (simp add: prices_of_def)
    then have "subseq (ps @ ps') (prices_of lib symbol (m # ms))"
      using list_emb_append_mono [OF ps(1) ps'(1)] by simp
    then show ?case using ps'(2) run
      by (intro exI [of _ "ps @ ps'"]) (simp add: thenM_apply)
  qed
  from this [of "stream_init us clk" "[]"] show ?thesis by (simp add: stream_init_def)
qed

end
