(* ===== verification/AlertRules.thy ===== *)
theory AlertRules
  imports Schema
begin

text \<open>
  The deterministic rules of \<open>services/alerting/rules.py\<close>: which alerts a signal or an insight
  raises.  Each alert takes a fresh event id (\<open>Alert\<close>'s default), given as the supply
  \<open>us\<close> from position \<open>n\<close> on.
\<close>

section \<open>Rules\<close>

record alert_rule_config =
  rsi_overbought_threshold :: real
  rsi_oversold_threshold :: real
  volatility_threshold :: real
  sentiment_spike_threshold :: real
  high_severity_sentiment_threshold :: real

definition default_alert_rules :: alert_rule_config where
  "default_alert_rules =
     \<lparr>rsi_overbought_threshold = 70, rsi_oversold_threshold = 30, volatility_threshold = 1 / 20,
      sentiment_spike_threshold = 3 / 4, high_severity_sentiment_threshold = 9 / 10\<rparr>"

definition alert_raw :: "string \<Rightarrow> string \<Rightarrow> string \<Rightarrow> string \<Rightarrow> string \<Rightarrow> string" where
  "alert_raw source_kind source_event_id symbol rule ts_text =
     source_kind @ '':'' @ source_event_id @ '':'' @ symbol @ '':'' @ rule @ '':'' @ ts_text"

definition alert_dedupe_key :: "pylib \<Rightarrow> string \<Rightarrow> string \<Rightarrow> string \<Rightarrow> string \<Rightarrow> string \<Rightarrow> string" where
  "alert_dedupe_key lib source_kind source_event_id symbol rule ts_text =
     sha256_hex lib (alert_raw source_kind source_event_id symbol rule ts_text)"

text \<open>A rule that fired: its name, severity and message.\<close>

type_synonym firing = "string \<times> string \<times> string"

definition build_alert ::
  "pylib \<Rightarrow> string \<Rightarrow> 'a event_base_scheme \<Rightarrow> string \<Rightarrow> string \<Rightarrow> firing \<Rightarrow> alert_event" where
  "build_alert lib source_kind ev symbol uid = (\<lambda>(rule, severity, msg).
     \<lparr>event_id = uid, event_ts = event_ts ev, correlation_id = correlation_id ev, trace_id = trace_id ev,
      al_symbol = symbol, al_rule = rule, al_severity = severity, al_message = msg,
      al_dedupe_key = alert_dedupe_key lib source_kind (event_id ev) symbol rule (isoformat lib (event_ts ev))\<rparr>)"

definition build_alerts ::
  "pylib \<Rightarrow> string \<Rightarrow> 'a event_base_scheme \<Rightarrow> string \<Rightarrow> (nat \<Rightarrow> string) \<Rightarrow> nat \<Rightarrow> firing list \<Rightarrow> alert_event list" where
  "build_alerts lib kind ev symbol us n fs =
     map (\<lambda>(i, f). build_alert lib kind ev symbol (us (n + i)) f) (enumerate 0 fs)"

text \<open>\<open>_float_or_none(indicators.get(name))\<close>: an indicator that is absent or \<open>None\<close> is absent.\<close>

definition indicator :: "signal_event \<Rightarrow> string \<Rightarrow> real option" where
  "indicator sg k = (case map_of (sg_indicators sg) k of Some (Some x) \<Rightarrow> Some x | _ \<Rightarrow> None)"

definition anomaly_firing :: "signal_event \<Rightarrow> firing list" where
  "anomaly_firing sg =
     (if sg_anomaly sg then [(''anomaly_flag'', ''critical'', sg_symbol sg @ '' posted an anomalous technical move.'')]
      else [])"

definition rsi_firing :: "alert_rule_config \<Rightarrow> signal_event \<Rightarrow> firing list" where
  "rsi_firing c sg =
     (case indicator sg ''rsi'' of
        None \<Rightarrow> []
      | Some rsi \<Rightarrow>
          (if rsi \<ge> rsi_overbought_threshold c
           then [(''rsi_overbought'', ''high'', sg_symbol sg @ '' RSI reached '' @ fmt_fixed 2 rsi @ '', above ''
                   @ fmt_fixed 0 (rsi_overbought_threshold c) @ ''.'')]
           else if rsi \<le> rsi_oversold_threshold c
           then [(''rsi_oversold'', ''medium'', sg_symbol sg @ '' RSI dropped to '' @ fmt_fixed 2 rsi @ '', below ''
                   @ fmt_fixed 0 (rsi_oversold_threshold c) @ ''.'')]
           else []))"

definition volatility_firing :: "alert_rule_config \<Rightarrow> signal_event \<Rightarrow> firing list" where
  "volatility_firing c sg =
     (case indicator sg ''volatility'' of
        None \<Rightarrow> []
      | Some v \<Rightarrow>
          (if v \<ge> volatility_threshold c
           then [(''volatility_threshold_breach'', ''high'', sg_symbol sg @ '' volatility reached ''
                   @ fmt_fixed 4 v @ '', above '' @ fmt_fixed 4 (volatility_threshold c) @ ''.'')]
           else []))"

definition signal_firings :: "alert_rule_config \<Rightarrow> signal_event \<Rightarrow> firing list" where
  "signal_firings c sg = anomaly_firing sg @ rsi_firing c sg @ volatility_firing c sg"

definition evaluate_signal ::
  "pylib \<Rightarrow> alert_rule_config \<Rightarrow> (nat \<Rightarrow> string) \<Rightarrow> nat \<Rightarrow> signal_event \<Rightarrow> alert_event list" where
  "evaluate_signal lib c us n sg =
     build_alerts lib ''signal'' sg (sg_symbol sg) us n (signal_firings c sg)"

definition insight_firings :: "alert_rule_config \<Rightarrow> insight_event \<Rightarrow> firing list" where
  "insight_firings c ins =
     (let sentiment = in_sentiment_score ins in
      if \<bar>sentiment\<bar> < sentiment_spike_threshold c then []
      else
        (let severity = (if \<bar>sentiment\<bar> \<ge> high_severity_sentiment_threshold c then ''critical'' else ''high'');
             direction = (if sentiment > 0 then ''positive'' else ''negative'')
         in [(''sentiment_spike'', severity, in_symbol ins @ '' sentiment spiked '' @ direction @ '' at ''
               @ fmt_fixed 2 sentiment @ '' ('' @ in_sentiment_label ins @ '').'')]))"

definition evaluate_insight ::
  "pylib \<Rightarrow> alert_rule_config \<Rightarrow> (nat \<Rightarrow> string) \<Rightarrow> nat \<Rightarrow> insight_event \<Rightarrow> alert_event list" where
  "evaluate_insight lib c us n ins =
     build_alerts lib ''insight'' ins (in_symbol ins) us n (insight_firings c ins)"

section \<open>Lemmas\<close>

lemma build_alert_sel [simp]:
  "al_rule (build_alert lib k ev s u (r, sv, ms)) = r" "al_severity (build_alert lib k ev s u (r, sv, ms)) = sv"
  "al_symbol (build_alert lib k ev s u f) = s"
  "correlation_id (build_alert lib k ev s u f) = correlation_id ev"
  "al_dedupe_key (build_alert lib k ev s u (r, sv, ms)) =
     alert_dedupe_key lib k (event_id ev) s r (isoformat lib (event_ts ev))"
  by (simp_all add: build_alert_def split: prod.split)

lemma map_rule_build:
  "map al_rule (build_alerts lib k ev s us n fs) = map fst fs"
  "map al_severity (build_alerts lib k ev s us n fs) = map (fst \<circ> snd) fs"
  "map al_dedupe_key (build_alerts lib k ev s us n fs) =
     map (\<lambda>f. alert_dedupe_key lib k (event_id ev) s (fst f) (isoformat lib (event_ts ev))) fs"
  "length (build_alerts lib k ev s us n fs) = length fs"
proof -
  have snds: "map (\<lambda>(i, f). g f) (enumerate m fs) = map g fs" for g :: "firing \<Rightarrow> 'b" and m
    by (induction fs arbitrary: m) simp_all
  have each: "map al_rule (build_alerts lib k ev s us n fs) = map (\<lambda>(i, f). fst f) (enumerate 0 fs)"
    "map al_severity (build_alerts lib k ev s us n fs) = map (\<lambda>(i, f). (fst \<circ> snd) f) (enumerate 0 fs)"
    "map al_dedupe_key (build_alerts lib k ev s us n fs) =
       map (\<lambda>(i, f). alert_dedupe_key lib k (event_id ev) s (fst f) (isoformat lib (event_ts ev))) (enumerate 0 fs)"
    by (simp_all add: build_alerts_def split_beta build_alert_def)
  show "map al_rule (build_alerts lib k ev s us n fs) = map fst fs"
    "map al_severity (build_alerts lib k ev s us n fs) = map (fst \<circ> snd) fs"
    "map al_dedupe_key (build_alerts lib k ev s us n fs) =
       map (\<lambda>f. alert_dedupe_key lib k (event_id ev) s (fst f) (isoformat lib (event_ts ev))) fs"
    "length (build_alerts lib k ev s us n fs) = length fs"
    using snds [of fst 0] snds [of "fst \<circ> snd" 0]
      snds [of "\<lambda>f. alert_dedupe_key lib k (event_id ev) s (fst f) (isoformat lib (event_ts ev))" 0] each
    by (simp_all add: build_alerts_def)
qed

text \<open>
  which alerts a signal raises: a critical one exactly when it is flagged anomalous, an
  RSI alert exactly when the index is present and at or beyond one of the thresholds (never
  both, overbought winning), a volatility alert exactly when volatility is present and at or
  above its threshold; at most three, in this order.
\<close>

theorem signal_alert_rules:
  "map (\<lambda>a. (al_rule a, al_severity a)) (evaluate_signal lib c us n sg) =
     (if sg_anomaly sg then [(''anomaly_flag'', ''critical'')] else []) @
     (case indicator sg ''rsi'' of None \<Rightarrow> [] | Some r \<Rightarrow>
        (if r \<ge> rsi_overbought_threshold c then [(''rsi_overbought'', ''high'')]
         else if r \<le> rsi_oversold_threshold c then [(''rsi_oversold'', ''medium'')] else [])) @
     (case indicator sg ''volatility'' of None \<Rightarrow> [] | Some v \<Rightarrow>
        (if v \<ge> volatility_threshold c then [(''volatility_threshold_breach'', ''high'')] else []))
   \<and> length (evaluate_signal lib c us n sg) \<le> 3"
proof -
  have pair: "map (\<lambda>a. (al_rule a, al_severity a)) as = zip (map al_rule as) (map al_severity as)" for as
    by (simp add: zip_map_map) (simp add: zip_same_conv_map)
  show ?thesis
    unfolding pair evaluate_signal_def map_rule_build
    by (auto simp: signal_firings_def anomaly_firing_def rsi_firing_def volatility_firing_def split: option.split)
qed

text \<open>
  a sentiment alert is raised exactly when the score's magnitude reaches the spike
  threshold, and is critical exactly when it reaches the high one.
\<close>

theorem insight_alert_rules:
  "map (\<lambda>a. (al_rule a, al_severity a)) (evaluate_insight lib c us n ins) =
     (if \<bar>in_sentiment_score ins\<bar> < sentiment_spike_threshold c then []
      else [(''sentiment_spike'',
             if \<bar>in_sentiment_score ins\<bar> \<ge> high_severity_sentiment_threshold c then ''critical'' else ''high'')])"
  by (simp add: evaluate_insight_def build_alerts_def insight_firings_def Let_def)

lemma signal_rule_names:
  "distinct (map fst (signal_firings c sg)) \<and>
   (\<forall>f \<in> set (signal_firings c sg). CHR '':'' \<notin> set (fst f))"
  by (auto simp: signal_firings_def anomaly_firing_def rsi_firing_def volatility_firing_def split: option.split)

lemma alert_raw_rule:
  assumes "alert_raw k i s r t = alert_raw k i s r' t" "CHR '':'' \<notin> set r" "CHR '':'' \<notin> set r'"
  shows "r = r'"
  using assms sep_split_first [of r "CHR '':''" t r' t] by (simp add: alert_raw_def)

text \<open>
  no alert hides another: the alerts of one signal carry pairwise different dedupe keys,
  so neither the bus nor the published markers can suppress one as a duplicate of another,
  provided SHA-256 does not collide on the keys' texts for this signal.
\<close>

theorem signal_alert_keys_distinct:
  assumes "inj_on (sha256_hex lib)
    ((\<lambda>r. alert_raw ''signal'' (event_id sg) (sg_symbol sg) r (isoformat lib (event_ts sg)))
       ` set (map fst (signal_firings c sg)))"
  shows "distinct (map al_dedupe_key (evaluate_signal lib c us n sg))"
proof -
  define R where "R = (\<lambda>r. alert_raw ''signal'' (event_id sg) (sg_symbol sg) r (isoformat lib (event_ts sg)))"
  have inj: "inj_on (sha256_hex lib) (R ` set (map fst (signal_firings c sg)))"
    using assms by (simp only: R_def)
  let ?key = "\<lambda>f. alert_dedupe_key lib ''signal'' (event_id sg) (sg_symbol sg) (fst f) (isoformat lib (event_ts sg))"
  have "inj_on ?key (set (signal_firings c sg))"
  proof (rule inj_onI)
    fix f g
    assume f: "f \<in> set (signal_firings c sg)" and g: "g \<in> set (signal_firings c sg)" and e: "?key f = ?key g"
    have mem: "fst f \<in> set (map fst (signal_firings c sg))" "fst g \<in> set (map fst (signal_firings c sg))"
      using imageI [OF f, of fst] imageI [OF g, of fst] by simp_all
    have m: "R (fst f) \<in> R ` set (map fst (signal_firings c sg))" "R (fst g) \<in> R ` set (map fst (signal_firings c sg))"
      using mem by (blast intro: imageI)+
    have k: "sha256_hex lib (R (fst f)) = sha256_hex lib (R (fst g))"
      using e by (simp add: alert_dedupe_key_def R_def)
    have "alert_raw ''signal'' (event_id sg) (sg_symbol sg) (fst f) (isoformat lib (event_ts sg))
        = alert_raw ''signal'' (event_id sg) (sg_symbol sg) (fst g) (isoformat lib (event_ts sg))"
      using inj_onD [OF inj k m] by (simp only: R_def)
    moreover have "CHR '':'' \<notin> set (fst f)" "CHR '':'' \<notin> set (fst g)"
      using f g signal_rule_names [of c sg] by blast+
    ultimately have eq: "fst f = fst g" by (rule alert_raw_rule)
    have "inj_on fst (set (signal_firings c sg))"
      using signal_rule_names [of c sg] by (simp only: distinct_map)
    from inj_onD [OF this eq f g] show "f = g" .
  qed
  then show ?thesis
    using signal_rule_names [of c sg]
    by (simp add: evaluate_signal_def map_rule_build distinct_map)
qed

definition example_signal :: signal_event where
  "example_signal =
     \<lparr>event_id = ''s1'', event_ts = utc_datetime 0, correlation_id = None, trace_id = None,
      sg_symbol = ''BTC'', sg_source = ''stream'', sg_indicators = [(''rsi'', Some 75)], sg_anomaly = True\<rparr>"

theorem signal_alert_keys_distinct_witness:
  "distinct (map al_dedupe_key (evaluate_signal (undefined\<lparr>sha256_hex := id\<rparr>) default_alert_rules (\<lambda>_. ''u'') 0 example_signal))
   \<and> map al_rule (evaluate_signal (undefined\<lparr>sha256_hex := id\<rparr>) default_alert_rules (\<lambda>_. ''u'') 0 example_signal)
       = [''anomaly_flag'', ''rsi_overbought'']"
proof -
  have "inj_on (sha256_hex (undefined\<lparr>sha256_hex := id\<rparr>)) A" for A by simp
  from signal_alert_keys_distinct [OF this] show ?thesis
    by (intro conjI) (assumption, simp add: evaluate_signal_def map_rule_build signal_firings_def anomaly_firing_def rsi_firing_def
        volatility_firing_def indicator_def example_signal_def default_alert_rules_def)
qed

end
