(* ===== verification/Alerting.thy ===== *)
theory Alerting
  imports AlertRules Cache Resilience StreamProps
begin

text \<open>
  \<open>services/alerting/service.py\<close> and \<open>replay.py\<close>: the worker that turns signals and insights
  into alerts behind a per-event lock, a circuit breaker and a bounded retry, and the replay
  of its dead letters.  As for the stream service, settlement is proved once over the
  contract of the bus and used on \<open>InMemoryBus\<close>.
\<close>

section \<open>Keys and metrics\<close>

definition ALERTING_SUBSCRIPTION :: string where "ALERTING_SUBSCRIPTION = ''alerting''"
definition ALERT_PROCESSED_PREFIX :: string where "ALERT_PROCESSED_PREFIX = ''alerting:processed''"
definition ALERT_PUBLISHED_PREFIX :: string where "ALERT_PUBLISHED_PREFIX = ''alerting:published''"
definition ALERT_LOCK_PREFIX :: string where "ALERT_LOCK_PREFIX = ''alerting:lock''"

definition alert_processed_key :: "string \<Rightarrow> string \<Rightarrow> string" where
  "alert_processed_key topic eid = ALERT_PROCESSED_PREFIX @ '':'' @ topic @ '':'' @ eid"

definition alert_lock_key :: "string \<Rightarrow> string \<Rightarrow> string" where
  "alert_lock_key topic eid = ALERT_LOCK_PREFIX @ '':'' @ topic @ '':'' @ eid"

definition alert_published_key :: "string \<Rightarrow> string" where
  "alert_published_key k = ALERT_PUBLISHED_PREFIX @ '':'' @ k"

lemmas alert_key_defs = alert_processed_key_def alert_lock_key_def alert_published_key_def
  ALERT_PROCESSED_PREFIX_def ALERT_PUBLISHED_PREFIX_def ALERT_LOCK_PREFIX_def

lemma alert_keys_disjoint [simp]:
  "alert_processed_key t i \<noteq> alert_lock_key t' i'" "alert_lock_key t i \<noteq> alert_processed_key t' i'"
  "alert_processed_key t i \<noteq> alert_published_key k" "alert_published_key k \<noteq> alert_processed_key t i"
  "alert_lock_key t i \<noteq> alert_published_key k" "alert_published_key k \<noteq> alert_lock_key t i"
  "alert_published_key k = alert_published_key k' \<longleftrightarrow> k = k'"
  by (simp_all add: alert_key_defs)

record alerting_metrics = worker_metrics +
  am_messages_seen :: int
  am_messages_processed :: int
  am_duplicates_suppressed :: int
  am_alerts_published :: int
  am_processing_retries :: int
  am_circuit_open_rejections :: int
  am_dead_lettered :: int

definition alerting_render :: "alerting_metrics \<Rightarrow> string" where
  "alerting_render m = str_join [CHR 0x0A]
     (render_counters ''alerting''
        [(''messages_seen'', int_str (am_messages_seen m)),
         (''messages_processed'', int_str (am_messages_processed m)),
         (''duplicates_suppressed'', int_str (am_duplicates_suppressed m)),
         (''alerts_published'', int_str (am_alerts_published m)),
         (''processing_retries'', int_str (am_processing_retries m)),
         (''circuit_open_rejections'', int_str (am_circuit_open_rejections m)),
         (''dead_lettered'', int_str (am_dead_lettered m))]
      @ render_http ''alerting'' (http m)) @ [CHR 0x0A]"

section \<open>The service\<close>

record ('b, 'c) alerting_state =
  as_bus :: 'b
  as_cache :: 'c
  as_breaker :: breaker
  as_metrics :: alerting_metrics
  as_uuids :: "nat \<Rightarrow> string"
  as_next :: nat

record ('b, 'c) alerting_env =
  ae_bus :: "'b bus_ops"
  ae_cache :: "'c cache_ops"
  ae_lib :: pylib
  ae_rules :: alert_rule_config
  ae_retrying :: retrying
  ae_signal_topic :: string
  ae_insight_topic :: string
  ae_alert_topic :: string
  ae_subscription :: string
  ae_max_attempts :: int

text \<open>\<open>self._max_processing_attempts = max(1, max_processing_attempts)\<close>.\<close>

definition processing_attempts :: "('b, 'c) alerting_env \<Rightarrow> int" where
  "processing_attempts env = max 1 (ae_max_attempts env)"

definition as_on_bus :: "('b, 'x) pm \<Rightarrow> (('b, 'c) alerting_state, 'x) pm" where
  "as_on_bus = zoomM as_bus (\<lambda>b s. s\<lparr>as_bus := b\<rparr>)"

definition as_on_cache :: "('c, 'x) pm \<Rightarrow> (('b, 'c) alerting_state, 'x) pm" where
  "as_on_cache = zoomM as_cache (\<lambda>c s. s\<lparr>as_cache := c\<rparr>)"

definition as_count :: "(alerting_metrics \<Rightarrow> alerting_metrics) \<Rightarrow> (('b, 'c) alerting_state, unit) pm" where
  "as_count f = modifyM (\<lambda>s. s\<lparr>as_metrics := f (as_metrics s)\<rparr>)"

text \<open>The wrapped operation works on the state, the breaker next to it.\<close>

definition as_guarded :: "pylib \<Rightarrow> (('b, 'c) alerting_state, 'x) pm \<Rightarrow> (('b, 'c) alerting_state, 'x) pm" where
  "as_guarded lib m = (\<lambda>s. case cb_call lib m (as_breaker s, s) of
       (r, (b, s')) \<Rightarrow> (r, s'\<lparr>as_breaker := b\<rparr>))"

definition alerting_dead_letter ::
  "('b, 'c) alerting_env \<Rightarrow> message \<Rightarrow> string \<Rightarrow> (('b, 'c) alerting_state, unit) pm" where
  "alerting_dead_letter env m reason =
     dead_letter_message (ae_bus env) as_bus (\<lambda>b s. s\<lparr>as_bus := b\<rparr>)
       (\<lambda>s. s\<lparr>as_metrics := (as_metrics s)\<lparr>am_dead_lettered := am_dead_lettered (as_metrics s) + 1\<rparr>\<rparr>)
       (\<lambda>r s. s\<lparr>as_metrics := (as_metrics s)\<lparr>last_error := Some r\<rparr>\<rparr>) m reason"

text \<open>One alert: published unless its marker says it was, then marked.\<close>

definition publish_alert ::
  "('b, 'c) alerting_env \<Rightarrow> alert_event \<Rightarrow> (('b, 'c) alerting_state, unit) pm" where
  "publish_alert env a =
     bindM (as_on_cache (cache_get (ae_cache env) (alert_published_key (al_dedupe_key a)))) (\<lambda>published.
       if truthy published then returnM ()
       else thenM (as_on_bus (bus_publish (ae_bus env) (ae_alert_topic env) (alert_dump (ae_lib env) a)
                      (Some (al_dedupe_key a)) (correlation_id a)))
              (as_on_cache (cache_set (ae_cache env) (alert_published_key (al_dedupe_key a)) (PBool True)
                      (Some IDEMPOTENCY_TTL_SECONDS))))"

definition publish_alerts ::
  "('b, 'c) alerting_env \<Rightarrow> alert_event list \<Rightarrow> string \<Rightarrow> (('b, 'c) alerting_state, unit) pm" where
  "publish_alerts env alerts processed_key =
     thenM (for_each (publish_alert env) alerts)
       (as_on_cache (cache_set (ae_cache env) processed_key (PBool True) (Some IDEMPOTENCY_TTL_SECONDS)))"

text \<open>The retried operation, with the counter of attempts it closes over.\<close>

definition count_retry :: "nat \<Rightarrow> ('b, 'c) alerting_state \<Rightarrow> ('b, 'c) alerting_state" where
  "count_retry attempt s =
     (if attempt > 1
      then s\<lparr>as_metrics := (as_metrics s)\<lparr>am_processing_retries := am_processing_retries (as_metrics s) + 1\<rparr>\<rparr>
      else s)"

definition alert_operation ::
  "('b, 'c) alerting_env \<Rightarrow> alert_event list \<Rightarrow> string \<Rightarrow> (nat \<times> ('b, 'c) alerting_state, unit) pm" where
  "alert_operation env alerts processed_key = (\<lambda>(n, s).
     case publish_alerts env alerts processed_key (count_retry (n + 1) s) of (r, s') \<Rightarrow> (r, (n + 1, s')))"

text \<open>\<open>raise last_exc from exc\<close>: the exception of the last attempt, not the wrapper.\<close>

definition unwrap_retry :: "'a result \<Rightarrow> 'a result" where
  "unwrap_retry r = (case r of Inl (RetryError e) \<Rightarrow> Inl e | _ \<Rightarrow> r)"

definition process_with_retry ::
  "('b, 'c) alerting_env \<Rightarrow> alert_event list \<Rightarrow> string \<Rightarrow> (('b, 'c) alerting_state, unit) pm" where
  "process_with_retry env alerts processed_key = (\<lambda>s.
     case retry_async (ae_retrying env) (processing_attempts env) (alert_operation env alerts processed_key) (0, s) of
       (r, (_, s')) \<Rightarrow> (unwrap_retry r, s'))"

definition alerting_suppress ::
  "('b, 'c) alerting_env \<Rightarrow> message \<Rightarrow> (('b, 'c) alerting_state, unit) pm" where
  "alerting_suppress env m =
     thenM (as_count (\<lambda>x. x\<lparr>am_duplicates_suppressed := am_duplicates_suppressed x + 1\<rparr>))
       (as_on_bus (bus_complete (ae_bus env) m))"

definition open_circuit_text :: "string \<Rightarrow> string" where
  "open_circuit_text t = ''alerting processing blocked by open circuit: '' @ t"

definition alerting_failed_text :: "exn \<Rightarrow> string" where
  "alerting_failed_text e = ''alerting processing failed: '' @ exn_name e @ '': '' @ exn_str e"

text \<open>The handlers after the guarded call failed, by the class of its exception.\<close>

definition alerting_on_failure ::
  "('b, 'c) alerting_env \<Rightarrow> message \<Rightarrow> string \<Rightarrow> exn \<Rightarrow> (('b, 'c) alerting_state, unit) pm" where
  "alerting_on_failure env m lock_key e =
     (case e of
        CircuitOpenError t \<Rightarrow>
          thenM (as_count (\<lambda>x. x\<lparr>am_circuit_open_rejections := am_circuit_open_rejections x + 1\<rparr>))
            (thenM (as_on_cache (cache_delete (ae_cache env) lock_key))
              (alerting_dead_letter env m (open_circuit_text t)))
      | _ \<Rightarrow> thenM (as_on_cache (cache_delete (ae_cache env) lock_key))
              (alerting_dead_letter env m (alerting_failed_text e)))"

definition alerting_finish ::
  "('b, 'c) alerting_env \<Rightarrow> message \<Rightarrow> alert_event list \<Rightarrow> string \<Rightarrow> (('b, 'c) alerting_state, unit) pm" where
  "alerting_finish env m alerts lock_key =
     thenM (as_on_cache (cache_delete (ae_cache env) lock_key))
     (thenM (as_count (\<lambda>x. x\<lparr>am_messages_processed := am_messages_processed x + 1\<rparr>))
     (thenM (as_count (\<lambda>x. x\<lparr>am_alerts_published := am_alerts_published x + int (length alerts)\<rparr>))
       (as_on_bus (bus_complete (ae_bus env) m))))"

text \<open>
  \<open>try: call  except ...: handler; return\<close> followed by the rest: the rest runs only when the
  call returned, and its own exceptions are not handled.
\<close>

definition try_else :: "('s, 'a) pm \<Rightarrow> (exn \<Rightarrow> ('s, 'b) pm) \<Rightarrow> ('s, 'b) pm \<Rightarrow> ('s, 'b) pm" where
  "try_else m h k = (\<lambda>s. case m s of (Inl e, s') \<Rightarrow> h e s' | (Inr _, s') \<Rightarrow> k s')"

definition alerting_process_event ::
  "('b, 'c) alerting_env \<Rightarrow> message \<Rightarrow> string \<Rightarrow> string \<Rightarrow> alert_event list \<Rightarrow> (('b, 'c) alerting_state, unit) pm" where
  "alerting_process_event env m topic eid alerts =
     (let processed_key = alert_processed_key topic eid; lock_key = alert_lock_key topic eid in
      bindM (as_on_cache (cache_get (ae_cache env) processed_key)) (\<lambda>seen.
        if truthy seen then alerting_suppress env m
        else bindM (as_on_cache (cache_set_if_absent (ae_cache env) lock_key (PBool True) (Some 300))) (\<lambda>locked.
          if \<not> locked then alerting_suppress env m
          else try_else (as_guarded (ae_lib env) (process_with_retry env alerts processed_key))
                 (alerting_on_failure env m lock_key) (alerting_finish env m alerts lock_key))))"

text \<open>Evaluating the rules takes one fresh event id per alert.\<close>

definition with_alerts ::
  "((nat \<Rightarrow> string) \<Rightarrow> nat \<Rightarrow> alert_event list) \<Rightarrow> (alert_event list \<Rightarrow> (('b, 'c) alerting_state, unit) pm) \<Rightarrow>
   (('b, 'c) alerting_state, unit) pm" where
  "with_alerts ev k = (\<lambda>s. let alerts = ev (as_uuids s) (as_next s)
                           in k alerts (s\<lparr>as_next := as_next s + length alerts\<rparr>))"

definition handle_signal ::
  "('b, 'c) alerting_env \<Rightarrow> message \<Rightarrow> (('b, 'c) alerting_state, unit) pm" where
  "handle_signal env m =
     (case validate_signal (ae_lib env) (msg_body m) of
        Inl detail \<Rightarrow> alerting_dead_letter env m (validation_reason ''invalid signal payload'' detail)
      | Inr sg \<Rightarrow> with_alerts (\<lambda>us n. evaluate_signal (ae_lib env) (ae_rules env) us n sg)
                   (alerting_process_event env m (ae_signal_topic env) (event_id sg)))"

definition handle_insight ::
  "('b, 'c) alerting_env \<Rightarrow> message \<Rightarrow> (('b, 'c) alerting_state, unit) pm" where
  "handle_insight env m =
     (case validate_insight (ae_lib env) (msg_body m) of
        Inl detail \<Rightarrow> alerting_dead_letter env m (validation_reason ''invalid insight payload'' detail)
      | Inr ins \<Rightarrow> with_alerts (\<lambda>us n. evaluate_insight (ae_lib env) (ae_rules env) us n ins)
                    (alerting_process_event env m (ae_insight_topic env) (event_id ins)))"

definition alerting_handle_message ::
  "('b, 'c) alerting_env \<Rightarrow> message \<Rightarrow> (('b, 'c) alerting_state, unit) pm" where
  "alerting_handle_message env m =
     (if msg_topic m = ae_signal_topic env then handle_signal env m
      else if msg_topic m = ae_insight_topic env then handle_insight env m
      else alerting_dead_letter env m (''unsupported topic: '' @ msg_topic m))"

definition alerting_seen_then_handle ::
  "('b, 'c) alerting_env \<Rightarrow> message \<Rightarrow> (('b, 'c) alerting_state, unit) pm" where
  "alerting_seen_then_handle env m =
     thenM (as_count (\<lambda>x. x\<lparr>am_messages_seen := am_messages_seen x + 1\<rparr>)) (alerting_handle_message env m)"

definition alerting_poll_topic ::
  "('b, 'c) alerting_env \<Rightarrow> int \<Rightarrow> string \<Rightarrow> (('b, 'c) alerting_state, int) pm" where
  "alerting_poll_topic env max_messages topic =
     bindM (as_on_bus (bus_receive (ae_bus env) topic (ae_subscription env) max_messages)) (\<lambda>ms.
       thenM (for_each (alerting_seen_then_handle env) ms) (returnM (int (length ms))))"

definition alerting_poll_once ::
  "('b, 'c) alerting_env \<Rightarrow> int \<Rightarrow> (('b, 'c) alerting_state, int) pm" where
  "alerting_poll_once env max_messages =
     bindM (alerting_poll_topic env max_messages (ae_signal_topic env)) (\<lambda>a.
     bindM (alerting_poll_topic env max_messages (ae_insight_topic env)) (\<lambda>b. returnM (a + b)))"

definition alerting_run_forever ::
  "nat \<Rightarrow> ('b, 'c) alerting_env \<Rightarrow> int \<Rightarrow> (('b, 'c) alerting_state, bool list) pm" where
  "alerting_run_forever fuel env max_messages =
     run_poll_loop fuel (alerting_poll_once env) ''alerting''
       (\<lambda>t s. s\<lparr>as_metrics := (as_metrics s)\<lparr>last_error := Some t\<rparr>\<rparr>) max_messages"

definition alerting_close :: "('s, unit) pm option \<Rightarrow> ('s, unit) pm option \<Rightarrow> ('s, unit) pm" where
  "alerting_close cc bc = close_backends [cc, bc]"

text \<open>Reading the breaker's state for the health answer may move it to half open.\<close>

definition circuit_state_name :: "circuit_state \<Rightarrow> string" where
  "circuit_state_name c = (case c of CLOSED \<Rightarrow> ''CLOSED'' | OPEN \<Rightarrow> ''OPEN'' | HALF_OPEN \<Rightarrow> ''HALF_OPEN'')"

definition alerting_health :: "('b, 'c) alerting_env \<Rightarrow> (('b, 'c) alerting_state, pydict) pm" where
  "alerting_health env = (\<lambda>s. let (st, b) = breaker_state (as_breaker s); m = as_metrics s in
     (Inr [(''status'', PStr ''ok''), (''service'', PStr ''alerting''),
           (''topics'', PList [PStr (ae_signal_topic env), PStr (ae_insight_topic env)]),
           (''subscription'', PStr (ae_subscription env)),
           (''messages_processed'', PInt (am_messages_processed m)),
           (''duplicates_suppressed'', PInt (am_duplicates_suppressed m)),
           (''dead_lettered'', PInt (am_dead_lettered m)),
           (''circuit_state'', PStr (circuit_state_name st))], s\<lparr>as_breaker := b\<rparr>))"

section \<open>Replay of dead letters\<close>

record replay_result =
  rr_topic :: string
  rr_subscription :: string
  rr_replayed :: int

definition replay_id :: "string \<Rightarrow> string \<Rightarrow> nat \<Rightarrow> string" where
  "replay_id mid sfx index = mid @ '':'' @ sfx @ '':'' @ int_str (int index)"

definition replay_one :: "'b bus_ops \<Rightarrow> string \<Rightarrow> string \<Rightarrow> nat \<times> message \<Rightarrow> ('b, unit) pm" where
  "replay_one bus topic sfx = (\<lambda>(index, m).
     thenM (bus_publish bus topic (msg_body m) (Some (replay_id (msg_id m) sfx index)) (msg_corr m))
       (bus_complete bus m))"

definition replay_dead_letters ::
  "'b bus_ops \<Rightarrow> string \<Rightarrow> string \<Rightarrow> string \<Rightarrow> ('b, replay_result) pm" where
  "replay_dead_letters bus topic subscription sfx =
     bindM (bus_receive_dead_letter bus topic subscription) (\<lambda>ms.
       thenM (for_each (replay_one bus topic sfx) (enumerate 1 ms))
         (returnM \<lparr>rr_topic = topic, rr_subscription = subscription, rr_replayed = int (length ms)\<rparr>))"

section \<open>Settlement\<close>

lemma as_cache_frame: "triple (\<lambda>s. P (as_bus s)) (as_on_cache m) (\<lambda>_ s. P (as_bus s)) (\<lambda>_ s. P (as_bus s))"
  unfolding as_on_cache_def by (rule triple_zoom_frame) simp

lemma as_count_frame: "triple (\<lambda>s. P (as_bus s)) (as_count f) (\<lambda>_ s. P (as_bus s)) E"
  unfolding as_count_def by (rule triple_modify) simp

lemma as_bus_triple:
  "triple P m Q E \<Longrightarrow> triple (\<lambda>s. P (as_bus s)) (as_on_bus m) (\<lambda>x s. Q x (as_bus s)) (\<lambda>e s. E e (as_bus s))"
  unfolding as_on_bus_def by (rule triple_zoom) simp

text \<open>What an operation keeps, the call of it through the breaker keeps.\<close>

lemma do_call_snd: "do_call op (b, s) = (fst (op s), (case fst (op s) of
    Inl _ \<Rightarrow> record_failure b | Inr _ \<Rightarrow> record_success b, snd (op s)))"
  by (auto simp: do_call_def split: prod.split sum.split)

lemma cb_call_state:
  "(\<exists>t. fst (cb_call lib op (b, s)) = Inl (CircuitOpenError t)) \<and> snd (snd (cb_call lib op (b, s))) = s
   \<or> fst (cb_call lib op (b, s)) = fst (op s) \<and> snd (snd (cb_call lib op (b, s))) = snd (op s)"
  by (auto simp: cb_call_def Let_def do_call_snd set_lock_def split: circuit_state.split)

lemma as_guarded_frame:
  assumes op: "triple (\<lambda>s. P (as_bus s)) m (\<lambda>_ s. P (as_bus s)) (\<lambda>_ s. P (as_bus s))"
  shows "triple (\<lambda>s. P (as_bus s)) (as_guarded lib m) (\<lambda>_ s. P (as_bus s)) (\<lambda>_ s. P (as_bus s))"
proof -
  have "P (as_bus (snd (as_guarded lib m s)))" if "P (as_bus s)" for s
  proof -
    have "P (as_bus (snd (m s)))" using op that by (simp add: triple_keep)
    then show ?thesis
      using cb_call_state [of lib m "as_breaker s" s] that
      by (auto simp: as_guarded_def split_beta)
  qed
  then show ?thesis by (simp add: triple_keep)
qed

lemma try_else_triple:
  assumes "triple P m (\<lambda>_. P) (\<lambda>_. P)" "\<And>e. triple P (h e) Q E" "triple P k Q E"
  shows "triple P (try_else m h k) Q E"
  using assms unfolding triple_def try_else_def by (fastforce split: prod.splits sum.splits)

context message_bus
begin

lemma publish_alerts_frame:
  assumes "ae_bus env = bus"
  shows "triple (\<lambda>s. awaits binv pending X (as_bus s)) (publish_alerts env alerts k)
    (\<lambda>_ s. awaits binv pending X (as_bus s)) (\<lambda>_ s. awaits binv pending X (as_bus s))"
proof -
  have "triple (\<lambda>s. awaits binv pending X (as_bus s)) (publish_alert env a)
    (\<lambda>_ s. awaits binv pending X (as_bus s)) (\<lambda>_ s. awaits binv pending X (as_bus s))" for a
    unfolding publish_alert_def assms
    by (rule triple_bind [OF as_cache_frame], simp, intro conjI impI triple_return
        triple_then [OF as_bus_triple [OF publish_triple]] as_cache_frame)
  then show ?thesis
    unfolding publish_alerts_def by (intro triple_then [OF triple_for_each] as_cache_frame)
qed

lemma process_with_retry_frame:
  assumes "ae_bus env = bus" "stops_after_attempt (ae_retrying env)"
  shows "triple (\<lambda>s. awaits binv pending X (as_bus s)) (process_with_retry env alerts k)
    (\<lambda>_ s. awaits binv pending X (as_bus s)) (\<lambda>_ s. awaits binv pending X (as_bus s))"
proof -
  let ?P = "\<lambda>ns :: nat \<times> ('b, 'e) alerting_state. awaits binv pending X (as_bus (snd ns))"
  have "triple ?P (alert_operation env alerts k) (\<lambda>_. ?P) (\<lambda>_. ?P)"
    using publish_alerts_frame [OF assms(1), of X alerts k]
    by (auto simp: triple_keep alert_operation_def split_beta count_retry_def)
  from triple_retry [OF assms(2) this]
  show ?thesis
    by (simp add: triple_keep process_with_retry_def split_beta)
qed

lemma alerting_dead_letter_settles:
  assumes "ae_bus env = bus" "m \<in> X"
  shows "triple (\<lambda>s. awaits binv pending X (as_bus s)) (alerting_dead_letter env m reason)
    (\<lambda>_ s. awaits binv pending (X - {m}) (as_bus s)) (\<lambda>_ _. True)"
  unfolding alerting_dead_letter_def dead_letter_message_def assms(1)
  by (rule triple_then [OF triple_modify_frame], simp, rule triple_then [OF triple_modify_frame], simp)
     (rule as_bus_triple [unfolded as_on_bus_def, OF dead_letter_triple [OF assms(2)]])

lemma complete_settles:
  assumes "m \<in> X"
  shows "triple (\<lambda>s. awaits binv pending X (as_bus s)) (as_on_bus (bus_complete bus m))
    (\<lambda>_ s. awaits binv pending (X - {m}) (as_bus s)) (\<lambda>_ _. True)"
  by (rule triple_weaken [OF as_bus_triple [OF complete_triple [OF assms]]]) auto

lemma as_cache_any: "triple (\<lambda>s. P (as_bus s)) (as_on_cache m) (\<lambda>_ s. P (as_bus s)) (\<lambda>_ _. True)"
  by (rule triple_weaken [OF as_cache_frame]) auto

lemma alerting_process_settles:
  assumes "ae_bus env = bus" "stops_after_attempt (ae_retrying env)" "m \<in> X"
  shows "triple (\<lambda>s. awaits binv pending X (as_bus s)) (alerting_process_event env m topic eid alerts)
    (\<lambda>_ s. awaits binv pending (X - {m}) (as_bus s)) (\<lambda>_ _. True)"
proof -
  have sup: "triple (\<lambda>s. awaits binv pending X (as_bus s)) (alerting_suppress env m)
      (\<lambda>_ s. awaits binv pending (X - {m}) (as_bus s)) (\<lambda>_ _. True)"
    unfolding alerting_suppress_def assms(1)
    by (rule triple_then [OF as_count_frame complete_settles [OF assms(3)]])
  have fin: "triple (\<lambda>s. awaits binv pending X (as_bus s)) (alerting_finish env m alerts lk)
      (\<lambda>_ s. awaits binv pending (X - {m}) (as_bus s)) (\<lambda>_ _. True)" for lk
    unfolding alerting_finish_def assms(1)
    by (intro triple_then [OF as_cache_any] triple_then [OF as_count_frame] complete_settles [OF assms(3)])
  have fail: "triple (\<lambda>s. awaits binv pending X (as_bus s)) (alerting_on_failure env m lk e)
      (\<lambda>_ s. awaits binv pending (X - {m}) (as_bus s)) (\<lambda>_ _. True)" for lk e
    unfolding alerting_on_failure_def
    by (cases e; simp; intro triple_then [OF as_count_frame] triple_then [OF as_cache_any]
        alerting_dead_letter_settles [OF assms(1,3)])
  note call = as_guarded_frame [OF process_with_retry_frame [OF assms(1,2)]]
  show ?thesis
    unfolding alerting_process_event_def Let_def
    by (rule triple_bind [OF as_cache_any], simp add: sup, intro impI triple_bind [OF as_cache_any])
       (simp add: sup, intro impI try_else_triple [OF call fail fin])
qed

lemma alerting_handle_settles:
  assumes "ae_bus env = bus" "stops_after_attempt (ae_retrying env)" "m \<in> X"
  shows "triple (\<lambda>s. awaits binv pending X (as_bus s)) (alerting_seen_then_handle env m)
    (\<lambda>_ s. awaits binv pending (X - {m}) (as_bus s)) (\<lambda>_ _. True)"
proof -
  let ?Q = "\<lambda>_ s. awaits binv pending (X - {m}) (as_bus s)"
  have w: "triple (\<lambda>s. awaits binv pending X (as_bus s))
      (with_alerts ev (alerting_process_event env m topic eid)) ?Q (\<lambda>_ _. True)" for ev topic eid
  proof (rule tripleI)
    fix s x s'
    assume "awaits binv pending X (as_bus s)" and run: "with_alerts ev (alerting_process_event env m topic eid) s = (Inr x, s')"
    then have "awaits binv pending X (as_bus (s\<lparr>as_next := as_next s + length (ev (as_uuids s) (as_next s))\<rparr>))" by simp
    from tripleD_ok [OF alerting_process_settles [OF assms] this] run
    show "?Q x s'" by (simp add: with_alerts_def Let_def)
  qed simp
  note dl = alerting_dead_letter_settles [OF assms(1,3)]
  have "triple (\<lambda>s. awaits binv pending X (as_bus s)) (handle_signal env m) ?Q (\<lambda>_ _. True)"
    unfolding handle_signal_def by (cases "validate_signal (ae_lib env) (msg_body m)") (simp_all add: dl w)
  moreover have "triple (\<lambda>s. awaits binv pending X (as_bus s)) (handle_insight env m) ?Q (\<lambda>_ _. True)"
    unfolding handle_insight_def by (cases "validate_insight (ae_lib env) (msg_body m)") (simp_all add: dl w)
  ultimately have "triple (\<lambda>s. awaits binv pending X (as_bus s)) (alerting_handle_message env m) ?Q (\<lambda>_ _. True)"
    by (simp add: alerting_handle_message_def dl)
  then show ?thesis
    unfolding alerting_seen_then_handle_def by (rule triple_then [OF as_count_frame])
qed

end

end
