(* ===== verification/AlertingProps.thy ===== *)
theory AlertingProps
  imports Alerting
begin

text \<open>
  What the alerting worker guarantees on the in-memory backends: every poll settles what it
  took, the alerts of an event are published once and in order, an open circuit turns events
  away without losing them, and what a replay of dead letters publishes.
\<close>

section \<open>The worker on the in-memory backends\<close>

type_synonym inmem_alerting = "(inmem_bus, inmem_cache) alerting_state"

definition inmem_alerting_env :: "pylib \<Rightarrow> alert_rule_config \<Rightarrow> int \<Rightarrow> (inmem_bus, inmem_cache) alerting_env" where
  "inmem_alerting_env lib rules n =
     \<lparr>ae_bus = inmem_bus_ops, ae_cache = inmem_cache_ops, ae_lib = lib, ae_rules = rules, ae_retrying = attempt_iter,
      ae_signal_topic = TOPIC_SIGNALS, ae_insight_topic = TOPIC_INSIGHTS, ae_alert_topic = TOPIC_ALERTS,
      ae_subscription = ALERTING_SUBSCRIPTION, ae_max_attempts = n\<rparr>"

lemma inmem_alerting_env_sel [simp]:
  "ae_bus (inmem_alerting_env lib rules n) = inmem_bus_ops"
  "ae_cache (inmem_alerting_env lib rules n) = inmem_cache_ops"
  "ae_lib (inmem_alerting_env lib rules n) = lib" "ae_rules (inmem_alerting_env lib rules n) = rules"
  "ae_retrying (inmem_alerting_env lib rules n) = attempt_iter"
  "ae_signal_topic (inmem_alerting_env lib rules n) = TOPIC_SIGNALS"
  "ae_insight_topic (inmem_alerting_env lib rules n) = TOPIC_INSIGHTS"
  "ae_alert_topic (inmem_alerting_env lib rules n) = TOPIC_ALERTS"
  "ae_subscription (inmem_alerting_env lib rules n) = ALERTING_SUBSCRIPTION"
  "ae_max_attempts (inmem_alerting_env lib rules n) = n"
  by (simp_all add: inmem_alerting_env_def)

interpretation alerting: consumer inmem_bus_ops queue_of pending_of dlqs bus_inv as_bus
  "alerting_seen_then_handle (inmem_alerting_env lib rules n)" "\<lambda>_. True" for lib rules n
proof
  fix s s' :: inmem_alerting and m
  assume "bus_inv (as_bus s)" and m: "m \<in> pending_of (as_bus s)"
    and h: "alerting_seen_then_handle (inmem_alerting_env lib rules n) m s = (Inr (), s')"
  have "awaits bus_inv pending_of (pending_of (as_bus s)) (as_bus s)"
    using \<open>bus_inv (as_bus s)\<close> by (simp add: awaits_def)
  from tripleD_ok [OF ib.alerting_handle_settles [OF _ _ m] this h]
  show "bus_inv (as_bus s') \<and> pending_of (as_bus s') = pending_of (as_bus s) - {m}"
    by (simp add: awaits_def attempt_iter_rule)
qed

lemma never_raises_cache: "never_raises (ic_set_if_absent k v ttl)" "never_raises (ic_delete k)"
  unfolding never_raises_def by (auto simp: ic_set_if_absent_eq Let_def ic_delete_eq)

lemma never_raises_try_else:
  "(\<And>e. never_raises (h e)) \<Longrightarrow> never_raises k \<Longrightarrow> never_raises (try_else m h k)"
  unfolding never_raises_def try_else_def by (auto split: prod.split sum.split)

lemma alerting_handle_total: "never_raises (alerting_seen_then_handle (inmem_alerting_env lib rules n) m)"
proof -
  let ?env = "inmem_alerting_env lib rules n"
  have dl: "never_raises (alerting_dead_letter ?env m r)" for r
    unfolding alerting_dead_letter_def dead_letter_message_def by (auto intro!: never_raises_intros)
  have sup: "never_raises (alerting_suppress ?env m)"
    unfolding alerting_suppress_def as_count_def as_on_bus_def by (auto intro!: never_raises_intros)
  have fin: "never_raises (alerting_finish ?env m alerts k)" for alerts k
    unfolding alerting_finish_def as_count_def as_on_bus_def as_on_cache_def
    by (auto intro!: never_raises_intros never_raises_cache)
  have fail: "never_raises (alerting_on_failure ?env m k e)" for k e
    unfolding alerting_on_failure_def as_count_def as_on_cache_def
    by (cases e) (auto intro!: never_raises_then never_raises_basic never_raises_zoom never_raises_cache dl)
  have pe: "never_raises (alerting_process_event ?env m topic eid alerts)" for topic eid alerts
    unfolding alerting_process_event_def Let_def as_on_cache_def
    by (auto intro!: never_raises_bind never_raises_zoom never_raises_inmem never_raises_cache sup
        never_raises_try_else fin fail)
  have "never_raises (with_alerts ev (alerting_process_event ?env m topic eid))" for ev topic eid
    using pe unfolding never_raises_def with_alerts_def Let_def by blast
  then show ?thesis
    unfolding alerting_seen_then_handle_def alerting_handle_message_def handle_signal_def handle_insight_def as_count_def
    by (auto intro!: never_raises_then never_raises_basic dl split: sum.split)
qed

lemma poll_topic_settles:
  assumes "bus_inv (as_bus s)"
  shows "\<exists>k s'. alerting_poll_topic (inmem_alerting_env lib rules n) j t s = (Inr k, s') \<and>
    bus_inv (as_bus s') \<and> pending_of (as_bus s') = pending_of (as_bus s)"
proof -
  let ?f = "alerting_seen_then_handle (inmem_alerting_env lib rules n)"
  let ?ms = "take (nat j) (queue_of (as_bus s) t ALERTING_SUBSCRIPTION)"
  let ?b = "snd (ib_receive t ALERTING_SUBSCRIPTION j (as_bus s))"
  have rcv: "bus_receive inmem_bus_ops t ALERTING_SUBSCRIPTION j (as_bus s) = (Inr ?ms, ?b)"
    by (simp add: prod_eq_iff receive_parts)
  have total: "never_raises (for_each ?f ?ms)" by (intro never_raises_for_each alerting_handle_total)
  obtain u s' where run: "for_each ?f ?ms (s\<lparr>as_bus := ?b\<rparr>) = (Inr u, s')"
    by (rule never_raisesE [OF total])
  then have run': "for_each ?f ?ms (s\<lparr>as_bus := ?b\<rparr>) = (Inr (), s')" by simp
  have "bus_inv (as_bus s') \<and> pending_of (as_bus s') = pending_of (as_bus s)"
    by (rule alerting.poll_settled [OF assms rcv _ run']) simp_all
  moreover have "alerting_poll_topic (inmem_alerting_env lib rules n) j t s = (Inr (int (length ?ms)), s')"
    by (simp add: alerting_poll_topic_def as_on_bus_def pm_simps receive_parts run)
  ultimately show ?thesis by blast
qed

text \<open>
  every poll of the alerting worker returns and settles what it took from both topics:
  whatever the payloads, the state of the breaker and the locks held by others, afterwards
  exactly the messages that were awaiting settlement before are still awaiting it.
\<close>

theorem alerting_poll_settles:
  assumes "bus_inv (as_bus s)"
  shows "\<exists>k s'. alerting_poll_once (inmem_alerting_env lib rules n) j s = (Inr k, s') \<and>
    bus_inv (as_bus s') \<and> pending_of (as_bus s') = pending_of (as_bus s)"
proof -
  let ?env = "inmem_alerting_env lib rules n"
  obtain a s1 where a: "alerting_poll_topic ?env j TOPIC_SIGNALS s = (Inr a, s1)"
    "bus_inv (as_bus s1)" "pending_of (as_bus s1) = pending_of (as_bus s)"
    using poll_topic_settles [OF assms] by blast
  obtain b s2 where b: "alerting_poll_topic ?env j TOPIC_INSIGHTS s1 = (Inr b, s2)"
    "bus_inv (as_bus s2)" "pending_of (as_bus s2) = pending_of (as_bus s1)"
    using poll_topic_settles [OF a(2)] by blast
  show ?thesis using a b by (simp add: alerting_poll_once_def pm_simps)
qed

definition alerting_init :: "(nat \<Rightarrow> string) \<Rightarrow> clock \<Rightarrow> inmem_alerting" where
  "alerting_init us clk =
     \<lparr>as_bus = inmem_bus_init us, as_cache = inmem_cache_init clk, as_breaker = breaker_init 3 60 clk,
      as_metrics = \<lparr>http = http_metrics_init, last_error = None, am_messages_seen = 0,
        am_messages_processed = 0, am_duplicates_suppressed = 0, am_alerts_published = 0,
        am_processing_retries = 0, am_circuit_open_rejections = 0, am_dead_lettered = 0\<rparr>,
      as_uuids = us, as_next = 0\<rparr>"

theorem alerting_poll_settles_witness:
  "\<exists>k s'. alerting_poll_once (inmem_alerting_env null_lib default_alert_rules 3) 10
     (alerting_init (\<lambda>_. ''u'') second_clock) = (Inr k, s') \<and> pending_of (as_bus s') = {}"
proof -
  have "bus_inv (as_bus (alerting_init (\<lambda>_. ''u'') second_clock))" by (simp add: alerting_init_def bus_inv_init)
  from alerting_poll_settles [OF this, of null_lib default_alert_rules 3 10] show ?thesis
    by (auto simp: alerting_init_def pending_of_def inmem_bus_init_def)
qed

section \<open>Publishing the alerts of an event\<close>

text \<open>The messages an alert topic's subscription gained, by the alerts they carry.\<close>

lemma publish_alert_new:
  assumes "cache_inv (as_cache s)" "lookup (as_cache s) (alert_published_key (al_dedupe_key a)) = None"
    and "al_dedupe_key a \<noteq> []" "al_dedupe_key a \<notin> seen_ids (as_bus s) TOPIC_ALERTS"
  shows "\<exists>s'. publish_alert (inmem_alerting_env lib rules n) a s = (Inr (), s') \<and> cache_inv (as_cache s') \<and>
    lookup (as_cache s') \<subseteq>\<^sub>m (lookup (as_cache s))(alert_published_key (al_dedupe_key a) \<mapsto> PBool True) \<and>
    as_bus s' = snd (ib_publish TOPIC_ALERTS (alert_dump lib a) (Some (al_dedupe_key a)) (correlation_id a) (as_bus s)) \<and>
    as_breaker s' = as_breaker s \<and> as_metrics s' = as_metrics s \<and> as_next s' = as_next s"
proof -
  let ?k = "alert_published_key (al_dedupe_key a)"
  let ?c1 = "snd (ic_get ?k (as_cache s))"
  let ?c2 = "snd (ic_set ?k (PBool True) (Some IDEMPOTENCY_TTL_SECONDS) ?c1)"
  have le: "lookup ?c2 \<subseteq>\<^sub>m (lookup (as_cache s))(?k \<mapsto> PBool True)"
  proof -
    have 1: "lookup ?c2 \<subseteq>\<^sub>m (lookup ?c1)(?k \<mapsto> PBool True)"
      by (rule ic_set_lookup [OF ic_get_inv [OF assms(1)]])
    have 2: "lookup ?c1 \<subseteq>\<^sub>m lookup (as_cache s)" by (rule ic_get_lookup [OF assms(1)])
    show ?thesis
      using map_le_trans [OF 1, of "(lookup (as_cache s))(?k \<mapsto> PBool True)"] 2
      by (simp add: map_le_def)
  qed
  show ?thesis
    using assms le ic_set_inv [OF ic_get_inv [OF assms(1)]]
    by (simp add: publish_alert_def pm_simps as_on_cache_def as_on_bus_def)
qed

lemma publish_all_new:
  assumes "cache_inv (as_cache s)" "distinct (map al_dedupe_key alerts)"
    and "\<forall>a \<in> set alerts. lookup (as_cache s) (alert_published_key (al_dedupe_key a)) = None \<and>
           al_dedupe_key a \<noteq> [] \<and> al_dedupe_key a \<notin> seen_ids (as_bus s) TOPIC_ALERTS"
    and sub: "queues (as_bus s) TOPIC_ALERTS sub \<noteq> None"
  shows "\<exists>s' new. for_each (publish_alert (inmem_alerting_env lib rules n)) alerts s = (Inr (), s') \<and>
    cache_inv (as_cache s') \<and> as_breaker s' = as_breaker s \<and> as_metrics s' = as_metrics s \<and>
    in_flight (as_bus s') = in_flight (as_bus s) \<and> dlqs (as_bus s') = dlqs (as_bus s) \<and>
    queue_of (as_bus s') TOPIC_ALERTS sub = queue_of (as_bus s) TOPIC_ALERTS sub @ new \<and>
    map msg_id new = map al_dedupe_key alerts \<and> map msg_body new = map (alert_dump lib) alerts"
  using assms
proof (induction alerts arbitrary: s)
  case Nil
  then show ?case by (simp add: returnM_def)
next
  case (Cons a alerts)
  obtain s1 where s1: "publish_alert (inmem_alerting_env lib rules n) a s = (Inr (), s1)" "cache_inv (as_cache s1)"
    "lookup (as_cache s1) \<subseteq>\<^sub>m (lookup (as_cache s))(alert_published_key (al_dedupe_key a) \<mapsto> PBool True)"
    "as_bus s1 = snd (ib_publish TOPIC_ALERTS (alert_dump lib a) (Some (al_dedupe_key a)) (correlation_id a) (as_bus s))"
    "as_breaker s1 = as_breaker s" "as_metrics s1 = as_metrics s"
    using publish_alert_new [of s a lib rules n] Cons.prems by auto
  have new: "fst (pick_message_id (Some (al_dedupe_key a)) (as_bus s)) \<notin> seen_ids (as_bus s) TOPIC_ALERTS"
    using Cons.prems by simp
  note pub = ib_publish_new [OF new, of "alert_dump lib a" "correlation_id a", folded s1(4)]
  have rest: "\<forall>b \<in> set alerts. lookup (as_cache s1) (alert_published_key (al_dedupe_key b)) = None \<and>
      al_dedupe_key b \<noteq> [] \<and> al_dedupe_key b \<notin> seen_ids (as_bus s1) TOPIC_ALERTS"
  proof
    fix b assume b: "b \<in> set alerts"
    have "al_dedupe_key b \<in> al_dedupe_key ` set alerts" using b by (rule imageI)
    then have ne: "al_dedupe_key b \<noteq> al_dedupe_key a" using Cons.prems(2) by force
    have "lookup (as_cache s1) (alert_published_key (al_dedupe_key b)) = None"
    proof (rule ccontr)
      assume "lookup (as_cache s1) (alert_published_key (al_dedupe_key b)) \<noteq> None"
      then have "((lookup (as_cache s))(alert_published_key (al_dedupe_key a) \<mapsto> PBool True))
          (alert_published_key (al_dedupe_key b)) \<noteq> None"
        using s1(3) unfolding map_le_def by (metis domIff)
      then show False using ne Cons.prems(3) b by auto
    qed
    then show "lookup (as_cache s1) (alert_published_key (al_dedupe_key b)) = None \<and>
      al_dedupe_key b \<noteq> [] \<and> al_dedupe_key b \<notin> seen_ids (as_bus s1) TOPIC_ALERTS"
      using Cons.prems(3) b ne pub(4) by auto
  qed
  have "queues (as_bus s1) TOPIC_ALERTS sub \<noteq> None" using pub(3) Cons.prems(4) by simp
  from Cons.IH [OF s1(2) _ rest this] Cons.prems(2) obtain s' new where s':
    "for_each (publish_alert (inmem_alerting_env lib rules n)) alerts s1 = (Inr (), s')"
    "cache_inv (as_cache s')" "as_breaker s' = as_breaker s1" "as_metrics s' = as_metrics s1"
    "in_flight (as_bus s') = in_flight (as_bus s1)" "dlqs (as_bus s') = dlqs (as_bus s1)"
    "queue_of (as_bus s') TOPIC_ALERTS sub = queue_of (as_bus s1) TOPIC_ALERTS sub @ new"
    "map msg_id new = map al_dedupe_key alerts" "map msg_body new = map (alert_dump lib) alerts"
    by auto
  let ?m = "published_message TOPIC_ALERTS sub (alert_dump lib a) (al_dedupe_key a) (correlation_id a)
      (next_sequence (as_bus s) TOPIC_ALERTS)"
  show ?case
    using s1 s' pub(2) [of TOPIC_ALERTS sub] Cons.prems(3,4) pub(6,7)
    by (intro exI [of _ s'] exI [of _ "?m # new"]) (simp add: thenM_apply published_message_def)
qed

lemma first_attempt:
  assumes "publish_alerts env alerts k s = (Inr (), s')" "stops_after_attempt (ae_retrying env)"
  shows "process_with_retry env alerts k s = (Inr (), s')"
proof -
  have op: "alert_operation env alerts k (0, s) = (Inr (), (1, s'))"
    using assms(1) by (simp add: alert_operation_def count_retry_def)
  have "attempts n (alert_operation env alerts k) (0, s) = (Inr (), (1, s'))" for n
    by (cases n) (simp_all add: catchM_apply op)
  then show ?thesis
    by (simp add: process_with_retry_def retry_is_attempts [OF assms(2)] unwrap_retry_def)
qed

text \<open>Taking the lock of an event leaves every alert that was new a new one.\<close>

lemma lock_taken:
  fixes topic eid pk
  assumes "cache_inv c" "lookup c (alert_lock_key topic eid) = None"
  defines "c2 \<equiv> snd (ic_set_if_absent (alert_lock_key topic eid) (PBool True) (Some 300) (snd (ic_get pk c)))"
  shows "fst (ic_set_if_absent (alert_lock_key topic eid) (PBool True) (Some 300) (snd (ic_get pk c))) = Inr True"
    and "cache_inv c2" and "lookup c (alert_published_key k) = None \<Longrightarrow> lookup c2 (alert_published_key k) = None"
proof -
  let ?lk = "alert_lock_key topic eid" and ?c1 = "snd (ic_get pk c)"
  have inv1: "cache_inv ?c1" by (rule ic_get_inv [OF assms(1)])
  have le1: "lookup ?c1 \<subseteq>\<^sub>m lookup c" by (rule ic_get_lookup [OF assms(1)])
  have lk1: "lookup ?c1 ?lk = None" using le1 assms(2) by (metis domIff map_le_def)
  have set2: "ic_set_if_absent ?lk (PBool True) (Some 300) ?c1 = (Inr True, c2)"
    by (simp add: c2_def ic_set_if_absent_eq Let_def lk1)
  then show "fst (ic_set_if_absent ?lk (PBool True) (Some 300) ?c1) = Inr True" by simp
  have law: "cache_inv c2 \<and> lookup c2 \<subseteq>\<^sub>m (lookup ?c1)(?lk \<mapsto> PBool True)"
    using ic.absent_law [OF inv1, of ?lk "PBool True" "Some 300" True c2] set2 by auto
  then show "cache_inv c2" by blast
  show "lookup c2 (alert_published_key k) = None" if "lookup c (alert_published_key k) = None"
    using that law le1 alert_keys_disjoint(6) unfolding map_le_def by (metis domIff fun_upd_other)
qed

text \<open>The run of an event that is met by a closed breaker and publishes what it raised.\<close>

lemma event_alerts_run:
  fixes topic eid
  defines "pk \<equiv> alert_processed_key topic eid" and "lk \<equiv> alert_lock_key topic eid"
  assumes "cb_state (as_breaker s) = CLOSED" "lookup (as_cache s) pk = None"
    and "fst (ic_set_if_absent lk (PBool True) (Some 300) (snd (ic_get pk (as_cache s)))) = Inr True"
    and "for_each (publish_alert (inmem_alerting_env lib rules n)) alerts
      (s\<lparr>as_cache := snd (ic_set_if_absent lk (PBool True) (Some 300) (snd (ic_get pk (as_cache s))))\<rparr>) = (Inr (), s3)"
    and "as_breaker s3 = as_breaker s" "as_metrics s3 = as_metrics s"
  defines "c4 \<equiv> snd (ic_set pk (PBool True) (Some IDEMPOTENCY_TTL_SECONDS) (as_cache s3))"
  shows "alerting_process_event (inmem_alerting_env lib rules n) m topic eid alerts s = (Inr (), s3\<lparr>as_cache := forget lk c4,
      as_breaker := record_success (as_breaker s),
      as_metrics := (as_metrics s)\<lparr>am_messages_processed := am_messages_processed (as_metrics s) + 1,
        am_alerts_published := am_alerts_published (as_metrics s) + int (length alerts)\<rparr>,
      as_bus := snd (ib_complete m (as_bus s3))\<rparr>)"
proof -
  let ?env = "inmem_alerting_env lib rules n"
  let ?s2 = "s\<lparr>as_cache := snd (ic_set_if_absent lk (PBool True) (Some 300) (snd (ic_get pk (as_cache s))))\<rparr>"
  let ?s4 = "s3\<lparr>as_cache := c4\<rparr>"
  have "publish_alerts ?env alerts pk ?s2 = (Inr (), ?s4)"
    by (simp add: publish_alerts_def thenM_apply assms(6) as_on_cache_def zoomM_apply c4_def)
  from first_attempt [OF this] have retry: "process_with_retry ?env alerts pk ?s2 = (Inr (), ?s4)" by (simp add: attempt_iter_rule)
  have "as_guarded lib (process_with_retry ?env alerts pk) ?s2 = (Inr (), ?s4\<lparr>as_breaker := record_success (as_breaker s)\<rparr>)"
    using assms(3) by (simp add: as_guarded_def cb_call_closed do_call_snd retry)
  then show ?thesis
    using assms(4,5,8) unfolding pk_def lk_def
    by (simp add: alerting_process_event_def Let_def bindM_apply as_on_cache_def zoomM_apply try_else_def
        alerting_finish_def thenM_apply as_count_def modifyM_def as_on_bus_def ic_delete_eq)
qed

lemma event_alerts_published:
  assumes "cache_inv (as_cache s)" "cb_state (as_breaker s) = CLOSED"
    and "lookup (as_cache s) (alert_processed_key topic eid) = None"
    and "lookup (as_cache s) (alert_lock_key topic eid) = None"
    and "distinct (map al_dedupe_key alerts)"
    and "\<forall>a \<in> set alerts. lookup (as_cache s) (alert_published_key (al_dedupe_key a)) = None \<and>
           al_dedupe_key a \<noteq> [] \<and> al_dedupe_key a \<notin> seen_ids (as_bus s) ''alerts''"
    and "queues (as_bus s) ''alerts'' sub \<noteq> None"
  shows "\<exists>s' new. alerting_process_event (inmem_alerting_env lib rules n) m topic eid alerts s = (Inr (), s') \<and>
    queue_of (as_bus s') ''alerts'' sub = queue_of (as_bus s) ''alerts'' sub @ new \<and>
    map msg_id new = map al_dedupe_key alerts \<and> map msg_body new = map (alert_dump lib) alerts \<and>
    map_of (c_store (as_cache s')) (alert_processed_key topic eid) = Some (PBool True) \<and>
    lookup (as_cache s') (alert_lock_key topic eid) = None \<and>
    in_flight (as_bus s') (msg_ref m) = None \<and> dlqs (as_bus s') = dlqs (as_bus s) \<and>
    am_messages_processed (as_metrics s') = am_messages_processed (as_metrics s) + 1 \<and>
    cb_state (as_breaker s') = CLOSED \<and> failure_count (as_breaker s') = 0"
proof -
  let ?env = "inmem_alerting_env lib rules n"
  let ?pk = "alert_processed_key topic eid" and ?lk = "alert_lock_key topic eid"
  let ?s2 = "s\<lparr>as_cache := snd (ic_set_if_absent ?lk (PBool True) (Some 300) (snd (ic_get ?pk (as_cache s))))\<rparr>"
  note lock = lock_taken [OF assms(1,4), where pk = ?pk]
  have fresh: "\<forall>a \<in> set alerts. lookup (as_cache ?s2) (alert_published_key (al_dedupe_key a)) = None \<and>
      al_dedupe_key a \<noteq> [] \<and> al_dedupe_key a \<notin> seen_ids (as_bus ?s2) TOPIC_ALERTS"
    using assms(6) lock(3) by (simp add: TOPIC_ALERTS_def)
  obtain s3 new where s3: "for_each (publish_alert ?env) alerts ?s2 = (Inr (), s3)"
    "as_breaker s3 = as_breaker s" "as_metrics s3 = as_metrics s"
    "in_flight (as_bus s3) = in_flight (as_bus s)" "dlqs (as_bus s3) = dlqs (as_bus s)"
    "queue_of (as_bus s3) TOPIC_ALERTS sub = queue_of (as_bus s) TOPIC_ALERTS sub @ new"
    "map msg_id new = map al_dedupe_key alerts" "map msg_body new = map (alert_dump lib) alerts"
    using publish_all_new [of ?s2 alerts sub lib rules n] lock(2) assms(5,7) fresh
    by (auto simp: TOPIC_ALERTS_def)
  note run = event_alerts_run [OF assms(2,3) lock(1) s3(1-3), of m]
  have q: "queue_of (snd (ib_complete m b)) = queue_of b" "in_flight (snd (ib_complete m b)) (msg_ref m) = None"
    "dlqs (snd (ib_complete m b)) = dlqs b" for b
    by (simp_all add: ib_complete_def)
  show ?thesis
    by (rule exI, rule exI [of _ new], rule conjI, rule run)
       (use s3(5-8) q in \<open>simp add: TOPIC_ALERTS_def\<close>)
qed

text \<open>
  C21: the alerts of an event are published once, in order, and its lock is released: a new
  event whose alerts have distinct new keys, met by a closed breaker, appends to every
  subscription of the alert topic one message per alert, in the order of the alerts and
  identified by their keys; afterwards the event is marked processed, its lock is free and
  its message is settled.
\<close>

theorem alerting_publishes_once:
  assumes "cache_inv (as_cache s)" "cb_state (as_breaker s) = CLOSED"
    and "lookup (as_cache s) (alert_processed_key topic eid) = None"
    and "lookup (as_cache s) (alert_lock_key topic eid) = None"
    and "distinct (map al_dedupe_key alerts)"
    and "\<forall>a \<in> set alerts. lookup (as_cache s) (alert_published_key (al_dedupe_key a)) = None \<and>
           al_dedupe_key a \<noteq> [] \<and> al_dedupe_key a \<notin> seen_ids (as_bus s) ''alerts''"
    and "queues (as_bus s) ''alerts'' sub \<noteq> None"
  shows "\<exists>s' new. alerting_process_event (inmem_alerting_env lib rules n) m topic eid alerts s = (Inr (), s') \<and>
    queue_of (as_bus s') ''alerts'' sub = queue_of (as_bus s) ''alerts'' sub @ new \<and>
    map msg_id new = map al_dedupe_key alerts \<and> map msg_body new = map (alert_dump lib) alerts \<and>
    map_of (c_store (as_cache s')) (alert_processed_key topic eid) = Some (PBool True) \<and>
    lookup (as_cache s') (alert_lock_key topic eid) = None \<and>
    in_flight (as_bus s') (msg_ref m) = None \<and> dlqs (as_bus s') = dlqs (as_bus s) \<and>
    am_messages_processed (as_metrics s') = am_messages_processed (as_metrics s) + 1 \<and>
    cb_state (as_breaker s') = CLOSED \<and> failure_count (as_breaker s') = 0"
  using event_alerts_published [OF assms] .

definition example_alert :: alert_event where
  "example_alert = build_alert null_lib ''signal'' example_signal ''BTC'' ''a1'' (''anomaly_flag'', ''critical'', ''move'')"

text \<open>A worker whose alert topic has one subscription.\<close>

definition alerting_start :: inmem_alerting where
  "alerting_start = (alerting_init (\<lambda>_. ''u'') second_clock)\<lparr>as_bus :=
     snd (ib_peek ''alerts'' ''api'' 0 None (inmem_bus_init (\<lambda>_. ''u'')))\<rparr>"

lemma alerting_start_sel [simp]:
  "as_cache alerting_start = inmem_cache_init second_clock" "as_breaker alerting_start = breaker_init 3 60 second_clock"
  "queue_of (as_bus alerting_start) t u = []" "seen_ids (as_bus alerting_start) t = {}"
  "queues (as_bus alerting_start) ''alerts'' ''api'' \<noteq> None"
  by (simp_all add: alerting_start_def alerting_init_def ib_peek_def Let_def inmem_bus_init_def set_queue_def queue_of_def)

theorem alerting_publishes_once_witness:
  "\<exists>s' new. alerting_process_event (inmem_alerting_env null_lib default_alert_rules 3)
      (example_message PNone) ''signals'' ''s1'' [example_alert] alerting_start = (Inr (), s') \<and>
    queue_of (as_bus s') ''alerts'' ''api'' = new \<and> map msg_id new = [al_dedupe_key example_alert]"
proof -
  have key: "al_dedupe_key example_alert \<noteq> []"
    by (simp add: example_alert_def null_lib_def alert_dedupe_key_def alert_raw_def)
  have closed: "cb_state (as_breaker alerting_start) = CLOSED" by (simp add: breaker_init_def)
  from alerting_publishes_once [of alerting_start "''signals''" "''s1''" "[example_alert]" "''api''" null_lib default_alert_rules 3 "example_message PNone"]
  show ?thesis using key closed second_clock_inv by auto
qed

text \<open>
  C22: An open circuit turns an event away without losing it: while the breaker is open and its
  timeout has not passed, a new event (neither its processed marker nor its lock is in the
  cache) publishes nothing; its message goes to the dead-letter queue, the event is not marked
  processed and its lock is free again, so that a replay can process it later.
\<close>

theorem alerting_open_circuit:
  assumes "cache_inv (as_cache s)"
    and "cb_state (as_breaker s) = OPEN" "opened_at (as_breaker s) = Some t0"
    and "ticks (cb_clock (as_breaker s)) (reads (cb_clock (as_breaker s))) - t0 < reset_timeout (as_breaker s)"
    and "lookup (as_cache s) (alert_processed_key topic eid) = None"
    and "lookup (as_cache s) (alert_lock_key topic eid) = None"
  shows "\<exists>s'. alerting_process_event (inmem_alerting_env lib rules n) m topic eid alerts s = (Inr (), s') \<and>
    queue_of (as_bus s') = queue_of (as_bus s) \<and>
    dlqs (as_bus s') (msg_topic m) (msg_sub m) = dlqs (as_bus s) (msg_topic m) (msg_sub m) @ [m\<lparr>msg_dlq := True\<rparr>] \<and>
    lookup (as_cache s') (alert_processed_key topic eid) = None \<and>
    lookup (as_cache s') (alert_lock_key topic eid) = None \<and>
    am_circuit_open_rejections (as_metrics s') = am_circuit_open_rejections (as_metrics s) + 1 \<and>
    am_messages_processed (as_metrics s') = am_messages_processed (as_metrics s)"
proof -
  let ?env = "inmem_alerting_env lib rules n"
  let ?pk = "alert_processed_key topic eid" and ?lk = "alert_lock_key topic eid"
  let ?c1 = "snd (ic_get ?pk (as_cache s))"
  let ?c2 = "snd (ic_set_if_absent ?lk (PBool True) (Some 300) ?c1)"
  let ?s2 = "s\<lparr>as_cache := ?c2\<rparr>"
  have inv1: "cache_inv ?c1" by (rule ic_get_inv [OF assms(1)])
  have le1: "lookup ?c1 \<subseteq>\<^sub>m lookup (as_cache s)" by (rule ic_get_lookup [OF assms(1)])
  have none1: "lookup ?c1 ?lk = None" "lookup ?c1 ?pk = None" using le1 assms(5,6) by (metis domIff map_le_def)+
  have set2: "ic_set_if_absent ?lk (PBool True) (Some 300) ?c1 = (Inr True, ?c2)"
    by (simp add: ic_set_if_absent_eq Let_def none1)
  have fst2: "fst (ic_set_if_absent ?lk (PBool True) (Some 300) ?c1) = Inr True"
    by (simp add: ic_set_if_absent_eq Let_def none1)
  have "lookup ?c2 \<subseteq>\<^sub>m (lookup ?c1)(?lk \<mapsto> PBool True)"
    using ic.absent_law [OF inv1, of ?lk "PBool True" "Some 300" True ?c2] set2 by auto
  then have none2: "lookup ?c2 ?pk = None" using none1(2) unfolding map_le_def by (metis alert_keys_disjoint(1) domIff fun_upd_other)
  let ?b = "maybe_transition_half_open (as_breaker s)"
  have "cb_state ?b = OPEN" using assms(2-4) by (simp add: maybe_transition_state)
  from cb_call_open [OF this, of lib "process_with_retry ?env alerts ?pk" ?s2]
  have guard: "as_guarded lib (process_with_retry ?env alerts ?pk) ?s2 =
      (Inl (CircuitOpenError (open_message lib ?b)), ?s2\<lparr>as_breaker := ?b\<rparr>)"
    by (simp add: as_guarded_def)
  show ?thesis
    using assms(5) fst2 guard none2
    by (simp add: alerting_process_event_def Let_def bindM_apply as_on_cache_def zoomM_apply try_else_def
        alerting_on_failure_def alerting_dead_letter_def dead_letter_message_def thenM_apply as_count_def
        modifyM_def ic_delete_eq ib_dead_letter_def)
qed

definition tripped_start :: inmem_alerting where
  "tripped_start = alerting_start\<lparr>as_breaker := opened_breaker\<rparr>"

theorem alerting_open_circuit_witness:
  "\<exists>s'. alerting_process_event (inmem_alerting_env null_lib default_alert_rules 3)
      (example_message PNone) ''signals'' ''s1'' [example_alert] tripped_start = (Inr (), s') \<and>
    queue_of (as_bus s') ''alerts'' ''api'' = []"
proof -
  have t: "ticks (cb_clock (as_breaker tripped_start)) (reads (cb_clock (as_breaker tripped_start))) - 0
      < reset_timeout (as_breaker tripped_start)"
    "cb_state (as_breaker tripped_start) = OPEN" "opened_at (as_breaker tripped_start) = Some 0"
    by (simp_all add: tripped_start_def opened_breaker_def open_now_def breaker_init_def second_clock_def
        read_clock_def Let_def)
  have c: "as_cache tripped_start = inmem_cache_init second_clock" "as_bus tripped_start = as_bus alerting_start"
    by (simp_all add: tripped_start_def)
  from alerting_open_circuit [OF _ t(2,3,1), of "''signals''" "''s1''" null_lib default_alert_rules 3 "example_message PNone" "[example_alert]"]
  show ?thesis using second_clock_inv c by auto
qed

section \<open>Replay\<close>

lemma replay_one_new:
  assumes "replay_id (msg_id m) sfx i \<notin> seen_ids b t"
  shows "\<exists>b'. replay_one inmem_bus_ops t sfx (i, m) b = (Inr (), b') \<and>
    (\<forall>s. queue_of b' t s = queue_of b t s @
      (if queues b t s \<noteq> None
       then [published_message t s (msg_body m) (replay_id (msg_id m) sfx i) (msg_corr m) (next_sequence b t)] else [])) \<and>
    seen_ids b' t = insert (replay_id (msg_id m) sfx i) (seen_ids b t) \<and> dlqs b' = dlqs b \<and>
    (\<forall>s. queues b' t s = None \<longleftrightarrow> queues b t s = None)"
proof -
  have ne: "replay_id (msg_id m) sfx i \<noteq> []" by (simp add: replay_id_def)
  have new: "fst (pick_message_id (Some (replay_id (msg_id m) sfx i)) b) \<notin> seen_ids b t"
    using assms ne by simp
  note pub = ib_publish_new [OF new, of "msg_body m" "msg_corr m"]
  let ?b1 = "snd (ib_publish t (msg_body m) (Some (replay_id (msg_id m) sfx i)) (msg_corr m) b)"
  have q: "queue_of (snd (ib_complete m b)) = queue_of b" "seen_ids (snd (ib_complete m b)) = seen_ids b"
    "dlqs (snd (ib_complete m b)) = dlqs b" "queues (snd (ib_complete m b)) = queues b" for b
    by (simp_all add: ib_complete_def)
  have "replay_one inmem_bus_ops t sfx (i, m) b = (Inr (), snd (ib_complete m ?b1))"
    by (simp add: replay_one_def thenM_apply prod_eq_iff)
  then show ?thesis using ne pub by (simp add: q)
qed

lemma replay_all_new:
  assumes "distinct (map (\<lambda>(i, m). replay_id (msg_id m) sfx i) ims)"
    and "\<forall>(i, m) \<in> set ims. replay_id (msg_id m) sfx i \<notin> seen_ids b t"
  shows "\<exists>b'. for_each (replay_one inmem_bus_ops t sfx) ims b = (Inr (), b') \<and> dlqs b' = dlqs b \<and>
    (\<forall>s. queues b t s \<noteq> None \<longrightarrow> (\<exists>new. queue_of b' t s = queue_of b t s @ new \<and>
       map msg_body new = map (\<lambda>im. msg_body (snd im)) ims \<and>
       map msg_id new = map (\<lambda>(i, m). replay_id (msg_id m) sfx i) ims))"
  using assms
proof (induction ims arbitrary: b)
  case Nil
  then show ?case by (simp add: returnM_def)
next
  case (Cons im ims)
  obtain i m where im: "im = (i, m)" by (cases im)
  obtain b1 where b1: "replay_one inmem_bus_ops t sfx (i, m) b = (Inr (), b1)"
    "\<And>s. queue_of b1 t s = queue_of b t s @
      (if queues b t s \<noteq> None
       then [published_message t s (msg_body m) (replay_id (msg_id m) sfx i) (msg_corr m) (next_sequence b t)] else [])"
    "seen_ids b1 t = insert (replay_id (msg_id m) sfx i) (seen_ids b t)" "dlqs b1 = dlqs b"
    "\<And>s. queues b1 t s = None \<longleftrightarrow> queues b t s = None"
    using replay_one_new [of m sfx i b t] Cons.prems(2) im by auto
  have d: "distinct (map (\<lambda>(i, m). replay_id (msg_id m) sfx i) ims)" using Cons.prems(1) by simp
  have nd: "replay_id (msg_id m) sfx i \<notin> set (map (\<lambda>(i, m). replay_id (msg_id m) sfx i) ims)"
    using Cons.prems(1) by (simp add: im)
  have "\<forall>(j, n) \<in> set ims. replay_id (msg_id n) sfx j \<notin> seen_ids b1 t"
  proof clarify
    fix j n assume jn: "(j, n) \<in> set ims" and seen: "replay_id (msg_id n) sfx j \<in> seen_ids b1 t"
    have "replay_id (msg_id n) sfx j \<in> set (map (\<lambda>(i, m). replay_id (msg_id m) sfx i) ims)"
      using rev_image_eqI [OF jn, of "replay_id (msg_id n) sfx j" "\<lambda>(i, m). replay_id (msg_id m) sfx i"] by simp
    with nd have "replay_id (msg_id n) sfx j \<noteq> replay_id (msg_id m) sfx i" by metis
    moreover have "replay_id (msg_id n) sfx j \<notin> seen_ids b t"
      using Cons.prems(2) jn by auto
    ultimately show False using seen b1(3) by simp
  qed
  from Cons.IH [OF d this] obtain b' where b': "for_each (replay_one inmem_bus_ops t sfx) ims b1 = (Inr (), b')"
    "dlqs b' = dlqs b1"
    "\<And>s. queues b1 t s \<noteq> None \<Longrightarrow> \<exists>new. queue_of b' t s = queue_of b1 t s @ new \<and>
       map msg_body new = map (\<lambda>im. msg_body (snd im)) ims \<and>
       map msg_id new = map (\<lambda>(i, m). replay_id (msg_id m) sfx i) ims"
    by blast
  have "\<exists>new. queue_of b' t s = queue_of b t s @ new \<and>
       map msg_body new = map (\<lambda>im. msg_body (snd im)) (im # ims) \<and>
       map msg_id new = map (\<lambda>(i, m). replay_id (msg_id m) sfx i) (im # ims)"
    if s: "queues b t s \<noteq> None" for s
  proof -
    let ?p = "published_message t s (msg_body m) (replay_id (msg_id m) sfx i) (msg_corr m) (next_sequence b t)"
    have "queues b1 t s \<noteq> None" using s b1(5) [of s] by simp
    from b'(3) [OF this] obtain new where "queue_of b' t s = queue_of b1 t s @ new"
      "map msg_body new = map (\<lambda>im. msg_body (snd im)) ims"
      "map msg_id new = map (\<lambda>(i, m). replay_id (msg_id m) sfx i) ims"
      by (elim exE conjE) rule
    then show ?thesis using s b1(2) [of s] im
      by (intro exI [of _ "?p # new"]) (simp add: published_message_def)
  qed
  then show ?case using b1(1,4) b'(1,2) im by (intro exI [of _ b']) (simp add: thenM_apply)
qed

text \<open>
  C23: What a replay does, when its numbered replay ids are distinct and new to the topic: it
  empties the dead-letter queue of the one subscription and publishes each of its messages
  again, in order and under its replay id, to every existing subscription of the topic, not
  only to the one whose messages had failed; every other dead-letter queue is untouched.
\<close>

theorem replay_reaches_every_subscription:
  assumes "distinct (map (\<lambda>(i, m). replay_id (msg_id m) sfx i) (enumerate 1 (dlqs b t sub)))"
    and "\<forall>(i, m) \<in> set (enumerate 1 (dlqs b t sub)). replay_id (msg_id m) sfx i \<notin> seen_ids b t"
  shows "\<exists>b'. replay_dead_letters inmem_bus_ops t sub sfx b =
      (Inr \<lparr>rr_topic = t, rr_subscription = sub, rr_replayed = int (length (dlqs b t sub))\<rparr>, b') \<and>
    dlqs b' = (dlqs b)(t := (dlqs b t)(sub := [])) \<and>
    (queues b t other \<noteq> None \<longrightarrow> (\<exists>new. queue_of b' t other = queue_of b t other @ new \<and>
       map msg_body new = map msg_body (dlqs b t sub) \<and>
       map msg_id new = map (\<lambda>(i, m). replay_id (msg_id m) sfx i) (enumerate 1 (dlqs b t sub))))"
proof -
  let ?b1 = "b\<lparr>dlqs := (dlqs b)(t := (dlqs b t)(sub := []))\<rparr>"
  obtain b' where b': "for_each (replay_one inmem_bus_ops t sfx) (enumerate 1 (dlqs b t sub)) ?b1 = (Inr (), b')"
    "dlqs b' = dlqs ?b1"
    "\<forall>s. queues ?b1 t s \<noteq> None \<longrightarrow> (\<exists>new. queue_of b' t s = queue_of ?b1 t s @ new \<and>
       map msg_body new = map (\<lambda>im. msg_body (snd im)) (enumerate 1 (dlqs b t sub)) \<and>
       map msg_id new = map (\<lambda>(i, m). replay_id (msg_id m) sfx i) (enumerate 1 (dlqs b t sub)))"
    using replay_all_new [of sfx "enumerate 1 (dlqs b t sub)" ?b1 t] assms by auto
  have bodies: "map (\<lambda>im. msg_body (snd im)) (enumerate n ms) = map msg_body ms" for n ms
    by (induction ms arbitrary: n) simp_all
  have run: "replay_dead_letters inmem_bus_ops t sub sfx b =
      (Inr \<lparr>rr_topic = t, rr_subscription = sub, rr_replayed = int (length (dlqs b t sub))\<rparr>, b')"
    using b'(1) by (simp add: replay_dead_letters_def bindM_apply thenM_apply ib_receive_dead_letter_def returnM_def)
  then show ?thesis
    using b'(2,3) by (intro exI [of _ b']) (simp add: bodies)
qed

text \<open>A bus with one dead letter of the alerting subscription and another reader of the topic.\<close>

definition dead_letter_bus :: inmem_bus where
  "dead_letter_bus = snd (bus_run
     [Peek ''signals'' ''ai'' 0 None, DeadLetter \<lparr>msg_topic = ''signals'', msg_sub = ''alerting'',
        msg_body = PInt 1, msg_id = ''m1'', msg_corr = None, msg_seq = Some 1, msg_dlq = False\<rparr> ''bad'']
     (inmem_bus_init (\<lambda>_. ''u'')))"

theorem replay_reaches_every_subscription_witness:
  "\<exists>b' new. replay_dead_letters inmem_bus_ops ''signals'' ''alerting'' ''replay'' dead_letter_bus =
      (Inr \<lparr>rr_topic = ''signals'', rr_subscription = ''alerting'', rr_replayed = 1\<rparr>, b') \<and>
    queue_of b' ''signals'' ''ai'' = new \<and> map msg_body new = [PInt 1]"
proof -
  have d: "dlqs dead_letter_bus ''signals'' ''alerting'' = [\<lparr>msg_topic = ''signals'', msg_sub = ''alerting'',
        msg_body = PInt 1, msg_id = ''m1'', msg_corr = None, msg_seq = Some 1, msg_dlq = True\<rparr>]"
    "seen_ids dead_letter_bus t = {}" "queues dead_letter_bus ''signals'' ''ai'' \<noteq> None"
    "queue_of dead_letter_bus ''signals'' ''ai'' = []" for t
    by (simp_all add: dead_letter_bus_def ib_peek_def ib_dead_letter_def Let_def inmem_bus_init_def
        set_queue_def queue_of_def)
  from replay_reaches_every_subscription [of "''replay''" dead_letter_bus "''signals''" "''alerting''" "''ai''"]
  show ?thesis using d by auto
qed

end
