(* ===== verification/Chunking.thy ===== *)
theory Chunking
  imports Schema "HOL-Library.Sublist"
begin

text \<open>
  The documents of \<open>services/ai/rag/models.py\<close> and the deterministic chunker of
  \<open>services/ai/rag/chunking.py\<close>: paragraphs, sentences and word runs with their offsets,
  the greedy packing of segments into chunks, and the overlap carried from one chunk to
  the next.  The regular expressions are written out as the scans they perform.
\<close>

section \<open>Documents\<close>

record source_document =
  sd_doc_id :: string
  sd_text :: string
  sd_title :: "string option"
  sd_url :: "string option"
  sd_metadata :: pydict

text \<open>\<open>self.url or str(self.metadata.get("citation") or fallback)\<close>, the citation property.\<close>

definition citation_of :: "pylib \<Rightarrow> string option \<Rightarrow> pydict \<Rightarrow> string \<Rightarrow> string" where
  "citation_of lib url metadata fallback =
     (case url of
        Some (c # cs) \<Rightarrow> c # cs
      | _ \<Rightarrow> py_str lib (py_or (dget metadata ''citation'') (PStr fallback)))"

definition source_citation :: "pylib \<Rightarrow> source_document \<Rightarrow> string" where
  "source_citation lib d = citation_of lib (sd_url d) (sd_metadata d) (sd_doc_id d)"

record chunking_config =
  max_chars :: int
  max_tokens :: int
  overlap_chars :: int
  overlap_tokens :: int

definition default_chunking :: chunking_config where
  "default_chunking = \<lparr>max_chars = 700, max_tokens = 180, overlap_chars = 120, overlap_tokens = 30\<rparr>"

record chunk_document =
  ck_id :: string
  ck_source :: string
  ck_index :: int
  ck_text :: string
  ck_title :: "string option"
  ck_url :: "string option"
  ck_metadata :: pydict
  ck_start :: int
  ck_end :: int
  ck_tokens :: int

section \<open>Scanning\<close>

record text_segment =
  seg_text :: string
  seg_start :: int
  seg_end :: int
  seg_overlap :: bool

definition count_tokens :: "string \<Rightarrow> int" where
  "count_tokens text = int (length (str_words text))"

definition newline :: char where "newline = CHR 0x0A"
definition carriage_return :: char where "carriage_return = CHR 0x0D"

text \<open>\<open>text.replace("\r\n", "\n")\<close>.\<close>

fun crlf_to_lf :: "string \<Rightarrow> string" where
  "crlf_to_lf (a # b # s) =
     (if a = carriage_return \<and> b = newline then newline # crlf_to_lf s else a # crlf_to_lf (b # s))"
| "crlf_to_lf s = s"

definition normalize_text :: "string \<Rightarrow> string" where
  "normalize_text text = str_strip (crlf_to_lf text)"

text \<open>
  A match of \<open>\n\s*\n\<close> at the head of a string: the run of spaces after the first line
  feed is taken up to its last line feed.
\<close>

definition paragraph_gap :: "string \<Rightarrow> (string \<times> string) option" where
  "paragraph_gap s = (case s of [] \<Rightarrow> None | c # cs \<Rightarrow>
     (let run = takeWhile is_space cs in
      if c = newline \<and> newline \<in> set run
      then Some (c # rev (dropWhile (\<lambda>x. x \<noteq> newline) (rev run)),
                 rev (takeWhile (\<lambda>x. x \<noteq> newline) (rev run)) @ dropWhile is_space cs)
      else None))"

lemma paragraph_gap_append: "paragraph_gap s = Some (sep, rest) \<Longrightarrow> s = sep @ rest"
proof (cases s)
  case (Cons c cs)
  assume "paragraph_gap s = Some (sep, rest)"
  then have "s = c # cs" and sep: "sep = c # rev (dropWhile (\<lambda>x. x \<noteq> newline) (rev (takeWhile is_space cs)))"
    and rest: "rest = rev (takeWhile (\<lambda>x. x \<noteq> newline) (rev (takeWhile is_space cs))) @ dropWhile is_space cs"
    using Cons by (auto simp: paragraph_gap_def Let_def split: if_splits)
  have "rev (dropWhile (\<lambda>x. x \<noteq> newline) (rev run)) @ rev (takeWhile (\<lambda>x. x \<noteq> newline) (rev run)) = run" for run
    by (metis rev_append rev_rev_ident takeWhile_dropWhile_id)
  then show ?thesis unfolding sep rest using \<open>s = c # cs\<close>
    by (metis append.assoc append_Cons takeWhile_dropWhile_id)
qed (simp add: paragraph_gap_def)

lemma paragraph_gap_shorter [termination_simp]:
  "paragraph_gap s = Some (sep, rest) \<Longrightarrow> length rest < length s"
proof -
  assume g: "paragraph_gap s = Some (sep, rest)"
  then have "sep \<noteq> []" by (auto simp: paragraph_gap_def Let_def split: list.splits if_splits)
  with paragraph_gap_append [OF g] show ?thesis by simp
qed

text \<open>
  \<open>re.split(r"(\n\s*\n)", s)\<close>: the pieces between the gaps, and the gaps, in order
  (\<open>acc\<close> holds the current piece reversed).
\<close>

function split_gaps :: "string \<Rightarrow> string \<Rightarrow> string list" where
  "split_gaps acc s = (case paragraph_gap s of
       Some (sep, rest) \<Rightarrow> rev acc # sep # split_gaps [] rest
     | None \<Rightarrow> (case s of [] \<Rightarrow> [rev acc] | c # cs \<Rightarrow> split_gaps (c # acc) cs))"
  by pat_completeness auto
termination
  by (relation "measure (\<lambda>(acc, s). length s)") (auto simp: paragraph_gap_shorter)

declare split_gaps.simps [simp del]

definition plain_segment :: "string \<Rightarrow> int \<Rightarrow> text_segment" where
  "plain_segment t start =
     \<lparr>seg_text = t, seg_start = start, seg_end = start + int (length t), seg_overlap = False\<rparr>"

fun place_paragraphs :: "int \<Rightarrow> string list \<Rightarrow> text_segment list" where
  "place_paragraphs position [] = []"
| "place_paragraphs position (part # parts) =
     (let next = place_paragraphs (position + int (length part)) parts;
          stripped = str_strip part;
          leading = int (length part) - int (length (str_lstrip part))
      in if part = [] \<or> starts_with [newline] part \<or> stripped = [] then next
         else plain_segment stripped (position + leading) # next)"

definition split_paragraphs :: "string \<Rightarrow> text_segment list" where
  "split_paragraphs text =
     (let normalized = normalize_text text in
      if normalized = [] then [] else place_paragraphs 0 (split_gaps [] normalized))"

text \<open>
  \<open>_SENTENCE_BOUNDARY.split\<close>: a run of spaces is a boundary when the character before it
  ends a sentence (\<open>after\<close> says so for the head of the string).
\<close>

definition ends_sentence :: "char \<Rightarrow> bool" where
  "ends_sentence c \<longleftrightarrow> c \<in> set ''.!?''"

function split_boundaries :: "string \<Rightarrow> bool \<Rightarrow> string \<Rightarrow> string list" where
  "split_boundaries acc after s = (case s of
       [] \<Rightarrow> [rev acc]
     | c # cs \<Rightarrow>
         if after \<and> is_space c then rev acc # split_boundaries [] False (dropWhile is_space cs)
         else split_boundaries (c # acc) (ends_sentence c) cs)"
  by pat_completeness auto
termination
  by (relation "measure (\<lambda>(acc, b, s). length s)") (auto simp: le_imp_less_Suc length_dropWhile_le)

declare split_boundaries.simps [simp del]

text \<open>\<open>s.find(sub)\<close> and \<open>s.find(sub, start)\<close>.\<close>

fun str_index :: "string \<Rightarrow> string \<Rightarrow> nat option" where
  "str_index sub s =
     (if starts_with sub s then Some 0
      else case s of [] \<Rightarrow> None | _ # t \<Rightarrow> map_option Suc (str_index sub t))"

definition str_find :: "string \<Rightarrow> string \<Rightarrow> nat \<Rightarrow> nat option" where
  "str_find sub s start =
     (if start \<le> length s then map_option (\<lambda>k. start + k) (str_index sub (drop start s)) else None)"

definition sentence_start :: "string \<Rightarrow> string \<Rightarrow> nat \<Rightarrow> nat" where
  "sentence_start text stripped search_from =
     (case str_find stripped text search_from of
        Some i \<Rightarrow> i
      | None \<Rightarrow> (case str_find stripped text 0 of Some i \<Rightarrow> i | None \<Rightarrow> search_from))"

fun place_sentences :: "text_segment \<Rightarrow> nat \<Rightarrow> string list \<Rightarrow> text_segment list" where
  "place_sentences segment search_from [] = []"
| "place_sentences segment search_from (part # parts) =
     (let stripped = str_strip part in
      if stripped = [] then place_sentences segment (search_from + length part) parts
      else let local_start = sentence_start (seg_text segment) stripped search_from;
               local_end = local_start + length stripped
           in plain_segment stripped (seg_start segment + int local_start)
                # place_sentences segment local_end parts)"

definition split_sentences :: "text_segment \<Rightarrow> text_segment list" where
  "split_sentences segment =
     (if str_strip (seg_text segment) = [] then []
      else let sentences = place_sentences segment 0 (split_boundaries [] False (seg_text segment))
           in if sentences = [] then [segment] else sentences)"

text \<open>\<open>re.finditer(r"\S+", s)\<close>: each word with its offset.\<close>

function word_matches :: "nat \<Rightarrow> string \<Rightarrow> (string \<times> nat) list" where
  "word_matches i s =
     (let t = dropWhile is_space s; start = i + (length s - length t);
          w = takeWhile (\<lambda>c. \<not> is_space c) t
      in if t = [] then []
         else (w, start) # word_matches (start + length w) (dropWhile (\<lambda>c. \<not> is_space c) t))"
  by pat_completeness auto
termination
proof (relation "measure (\<lambda>(i, s). length s)")
  fix i start :: nat and s t w :: string
  assume t: "t = dropWhile is_space s" and ne: "t \<noteq> []"
  then have hd: "\<not> is_space (hd t)"
    using hd_dropWhile [of is_space s] by simp
  have "length (dropWhile (\<lambda>c. \<not> is_space c) t) < length t"
    using ne hd by (cases t) (auto simp: le_imp_less_Suc length_dropWhile_le)
  also have "\<dots> \<le> length s"
    using t by (simp add: length_dropWhile_le)
  finally show "((start + length w, dropWhile (\<lambda>c. \<not> is_space c) t), i, s) \<in> measure (\<lambda>(i, s). length s)"
    by simp
qed simp

declare word_matches.simps [simp del]

definition word_piece :: "text_segment \<Rightarrow> (string \<times> nat) list \<Rightarrow> text_segment" where
  "word_piece sentence current =
     \<lparr>seg_text = str_join '' '' (map fst current),
      seg_start = seg_start sentence + int (snd (hd current)),
      seg_end = seg_start sentence + int (snd (last current) + length (fst (last current))),
      seg_overlap = False\<rparr>"

fun pack_words ::
  "text_segment \<Rightarrow> int \<Rightarrow> int \<Rightarrow> (string \<times> nat) list \<Rightarrow> (string \<times> nat) list \<Rightarrow> text_segment list" where
  "pack_words sentence mc mt current [] = (if current = [] then [] else [word_piece sentence current])"
| "pack_words sentence mc mt current (m # ms) =
     (let candidate = str_join '' '' (map fst (current @ [m])) in
      if current \<noteq> [] \<and> (int (length candidate) > mc \<or> count_tokens candidate > mt)
      then word_piece sentence current # pack_words sentence mc mt [m] ms
      else pack_words sentence mc mt (current @ [m]) ms)"

definition split_long_sentence :: "text_segment \<Rightarrow> int \<Rightarrow> int \<Rightarrow> text_segment list" where
  "split_long_sentence sentence mc mt =
     pack_words sentence mc mt [] (word_matches 0 (seg_text sentence))"

definition within_limits :: "string \<Rightarrow> chunking_config \<Rightarrow> bool" where
  "within_limits text config \<longleftrightarrow>
     int (length text) \<le> max_chars config \<and> count_tokens text \<le> max_tokens config"

definition split_sentence :: "chunking_config \<Rightarrow> text_segment \<Rightarrow> text_segment list" where
  "split_sentence config sentence =
     (if within_limits (seg_text sentence) config then [sentence]
      else split_long_sentence sentence (max_chars config) (max_tokens config))"

definition split_paragraph :: "chunking_config \<Rightarrow> text_segment \<Rightarrow> text_segment list" where
  "split_paragraph config paragraph =
     (if within_limits (seg_text paragraph) config then [paragraph]
      else concat (map (split_sentence config) (split_sentences paragraph)))"

definition split_segments :: "string \<Rightarrow> chunking_config \<Rightarrow> text_segment list" where
  "split_segments text config = concat (map (split_paragraph config) (split_paragraphs text))"

section \<open>Packing segments into chunks\<close>

fun take_overlap :: "chunking_config \<Rightarrow> string list \<Rightarrow> string list \<Rightarrow> string list" where
  "take_overlap config acc [] = acc"
| "take_overlap config acc (w # ws) =
     (let candidate_words = w # acc; candidate = str_join '' '' candidate_words in
      if overlap_tokens config \<noteq> 0 \<and> int (length candidate_words) > overlap_tokens config then acc
      else if overlap_chars config \<noteq> 0 \<and> int (length candidate) > overlap_chars config then acc
      else take_overlap config candidate_words ws)"

definition overlap_text :: "string \<Rightarrow> chunking_config \<Rightarrow> string" where
  "overlap_text text config = str_strip (str_join '' '' (take_overlap config [] (rev (str_words text))))"

definition join_segments :: "text_segment list \<Rightarrow> string" where
  "join_segments segments =
     str_strip (str_join '' '' (filter (\<lambda>t. t \<noteq> []) (map (\<lambda>s. str_strip (seg_text s)) segments)))"

definition validate_config :: "chunking_config \<Rightarrow> unit result" where
  "validate_config config =
     (if max_chars config \<le> 0 then Inl (ValueError ''max_chars must be positive'')
      else if max_tokens config \<le> 0 then Inl (ValueError ''max_tokens must be positive'')
      else if overlap_chars config < 0 then Inl (ValueError ''overlap_chars must be non-negative'')
      else if overlap_tokens config < 0 then Inl (ValueError ''overlap_tokens must be non-negative'')
      else Inr ())"

definition overlap_segment ::
  "string \<Rightarrow> text_segment list \<Rightarrow> chunking_config \<Rightarrow> text_segment option" where
  "overlap_segment chunk_text segments config =
     (let overlap = overlap_text chunk_text config in
      if overlap = [] \<or> overlap = chunk_text then None
      else Some \<lparr>seg_text = overlap,
                 seg_start = max (seg_start (hd segments)) (seg_end (last segments) - int (length overlap)),
                 seg_end = seg_end (last segments), seg_overlap = True\<rparr>)"

definition min_start :: "text_segment list \<Rightarrow> int" where
  "min_start segments = fold min (map seg_start (tl segments)) (seg_start (hd segments))"

definition max_end :: "text_segment list \<Rightarrow> int" where
  "max_end segments = fold max (map seg_end (tl segments)) (seg_end (hd segments))"

definition chunk_id_of :: "string \<Rightarrow> nat \<Rightarrow> string" where
  "chunk_id_of doc_id n = doc_id @ ''::chunk-'' @ nat_digits n"

record chunk_state =
  cs_chunks :: "chunk_document list"
  cs_current :: "text_segment list"

definition new_chunk ::
  "pylib \<Rightarrow> source_document \<Rightarrow> nat \<Rightarrow> string \<Rightarrow> text_segment list \<Rightarrow> chunk_document" where
  "new_chunk lib d n chunk_text segments =
     \<lparr>ck_id = chunk_id_of (sd_doc_id d) n, ck_source = sd_doc_id d, ck_index = int n,
      ck_text = chunk_text, ck_title = sd_title d, ck_url = sd_url d,
      ck_metadata = dict_setdefault (sd_metadata d) ''citation'' (PStr (source_citation lib d)),
      ck_start = min_start segments, ck_end = max_end segments, ck_tokens = count_tokens chunk_text\<rparr>"

definition flush :: "pylib \<Rightarrow> source_document \<Rightarrow> chunking_config \<Rightarrow> chunk_state \<Rightarrow> chunk_state" where
  "flush lib d config st =
     (let chunk_text = join_segments (cs_current st) in
      if cs_current st = [] then st
      else if chunk_text = [] then st\<lparr>cs_current := []\<rparr>
      else \<lparr>cs_chunks = cs_chunks st @ [new_chunk lib d (length (cs_chunks st)) chunk_text (cs_current st)],
            cs_current = (case overlap_segment chunk_text (cs_current st) config of
                         None \<Rightarrow> [] | Some overlap \<Rightarrow> [overlap])\<rparr>)"

text \<open>
  One turn of the loop over segments: the candidate after the first guard, then after the
  second, then what becomes the current run.
\<close>

definition over_limits :: "chunking_config \<Rightarrow> text_segment list \<Rightarrow> text_segment list \<Rightarrow> bool" where
  "over_limits config cur candidate \<longleftrightarrow> cur \<noteq> [] \<and> \<not> within_limits (join_segments candidate) config"

definition refill ::
  "pylib \<Rightarrow> source_document \<Rightarrow> chunking_config \<Rightarrow> text_segment \<Rightarrow> chunk_state \<Rightarrow> chunk_state \<times> text_segment list" where
  "refill lib d config segment st =
     (let st' = flush lib d config st; candidate = cs_current st' @ [segment] in
      (st', if over_limits config (cs_current st') candidate then [segment] else candidate))"

definition first_guard ::
  "pylib \<Rightarrow> source_document \<Rightarrow> chunking_config \<Rightarrow> text_segment \<Rightarrow> chunk_state \<Rightarrow> chunk_state \<times> text_segment list" where
  "first_guard lib d config segment st =
     (let candidate = cs_current st @ [segment] in
      if over_limits config (cs_current st) candidate
      then if list_all seg_overlap (cs_current st) then (st, [segment]) else refill lib d config segment st
      else (st, candidate))"

definition second_guard ::
  "pylib \<Rightarrow> source_document \<Rightarrow> chunking_config \<Rightarrow> text_segment \<Rightarrow> chunk_state \<times> text_segment list
     \<Rightarrow> chunk_state \<times> text_segment list" where
  "second_guard lib d config segment p =
     (case p of (st, candidate) \<Rightarrow>
        if over_limits config (cs_current st) candidate then refill lib d config segment st
        else (st, candidate))"

definition add_segment ::
  "pylib \<Rightarrow> source_document \<Rightarrow> chunking_config \<Rightarrow> text_segment \<Rightarrow> chunk_state \<Rightarrow> chunk_state" where
  "add_segment lib d config segment st =
     (case second_guard lib d config segment (first_guard lib d config segment st) of
        (st', candidate) \<Rightarrow>
          if join_segments candidate \<noteq> [] then st'\<lparr>cs_current := candidate\<rparr> else st')"

definition chunk_source ::
  "pylib \<Rightarrow> source_document \<Rightarrow> chunking_config option \<Rightarrow> chunk_document list result" where
  "chunk_source lib d config =
     (let resolved = (case config of None \<Rightarrow> default_chunking | Some c \<Rightarrow> c);
          text = normalize_text (sd_text d);
          segments = split_segments text resolved
      in case validate_config resolved of
           Inl e \<Rightarrow> Inl e
         | Inr _ \<Rightarrow>
             if text = [] \<or> segments = [] then Inr []
             else Inr (cs_chunks (flush lib d resolved
                    (fold (add_segment lib d resolved) segments \<lparr>cs_chunks = [], cs_current = []\<rparr>))))"

end
