(* ===== verification/ChunkingProps.thy ===== *)
theory ChunkingProps
  imports Chunking
begin

text \<open>
  What the chunker promises: every chunk respects the limits (or is one word that cannot),
  the words of the document reach the chunks in order and none is lost, what a chunk
  repeats is the end of the chunk before it and respects the overlap bounds, and the
  chunk identifiers are distinct.
\<close>

section \<open>Words of a text\<close>

fun scan_words :: "string \<Rightarrow> string \<Rightarrow> string list" where
  "scan_words cur [] = (if cur = [] then [] else [cur])"
| "scan_words cur (c # cs) =
     (if is_space c then (if cur = [] then [] else [cur]) @ scan_words [] cs
      else scan_words (cur @ [c]) cs)"

lemma scan_words_run:
  "scan_words cur s =
     (let w = cur @ takeWhile (\<lambda>c. \<not> is_space c) s in
      (if w = [] then [] else [w]) @ scan_words [] (dropWhile (\<lambda>c. \<not> is_space c) s))"
  by (induction s arbitrary: cur) (auto simp: Let_def)

lemma scan_words_space: "scan_words [] (dropWhile is_space s) = scan_words [] s"
  by (induction s) auto

lemma str_words_scan: "str_words s = scan_words [] s"
proof (induction s rule: str_words.induct)
  case (1 s)
  define t where "t = dropWhile is_space s"
  show ?case
  proof (cases "t = []")
    case True
    have "scan_words [] s = scan_words [] t" by (simp only: scan_words_space t_def)
    with True have "scan_words [] s = []" by simp
    then show ?thesis using True by (subst str_words.simps) (simp add: t_def [symmetric] Let_def)
  next
    case False
    then have hd: "\<not> is_space (hd t)" using hd_dropWhile [of is_space s] by (simp add: t_def)
    have "str_words s = takeWhile (\<lambda>c. \<not> is_space c) t # str_words (dropWhile (\<lambda>c. \<not> is_space c) t)"
      using False by (subst str_words.simps) (simp add: t_def [symmetric] Let_def)
    also have "\<dots> = takeWhile (\<lambda>c. \<not> is_space c) t # scan_words [] (dropWhile (\<lambda>c. \<not> is_space c) t)"
      using 1 [OF t_def False] by simp
    also have "\<dots> = scan_words [] t"
      using hd False by (subst (2) scan_words_run) (cases t; simp add: Let_def)
    finally show ?thesis using scan_words_space [of s] by (simp add: t_def)
  qed
qed

lemma scan_words_split: "is_space c \<Longrightarrow> scan_words cur (a @ c # b) = scan_words cur a @ scan_words [] b"
  by (induction a arbitrary: cur) auto

lemma words_split: "is_space c \<Longrightarrow> str_words (a @ c # b) = str_words a @ str_words b"
  by (simp add: str_words_scan scan_words_split)

lemma words_Nil [simp]: "str_words [] = []"
  by (simp add: str_words_scan)

lemma words_space [simp]: "is_space c \<Longrightarrow> str_words (c # s) = str_words s"
  by (simp add: str_words_scan)

lemma words_blank_prefix: "list_all is_space a \<Longrightarrow> str_words (a @ b) = str_words b"
  by (induction a) auto

lemma words_blank_suffix: "list_all is_space b \<Longrightarrow> str_words (a @ b) = str_words a"
proof (cases b)
  case (Cons c cs)
  assume "list_all is_space b"
  then show ?thesis using Cons words_blank_prefix [of cs "[]"] by (simp add: words_split)
qed simp

lemma words_blank: "list_all is_space a \<Longrightarrow> str_words a = []"
  using words_blank_prefix [of a "[]"] by simp

lemma takeWhile_all: "list_all P (takeWhile P s)"
  by (induction s) auto

lemma words_lstrip [simp]: "str_words (str_lstrip s) = str_words s"
proof -
  have "s = takeWhile is_space s @ str_lstrip s" by (simp add: str_lstrip_def)
  then show ?thesis using words_blank_prefix [OF takeWhile_all [of is_space s]] by metis
qed

lemma words_rstrip [simp]: "str_words (str_rstrip s) = str_words s"
proof -
  have "s = str_rstrip s @ rev (takeWhile is_space (rev s))"
    unfolding str_rstrip_def by (metis rev_append rev_rev_ident takeWhile_dropWhile_id)
  moreover have "list_all is_space (rev (takeWhile is_space (rev s)))"
    using takeWhile_all [of is_space "rev s"] by simp
  ultimately show ?thesis using words_blank_suffix by metis
qed

lemma words_strip [simp]: "str_words (str_strip s) = str_words s"
  by (simp add: str_strip_def)

definition solid :: "string \<Rightarrow> bool" where
  "solid w \<longleftrightarrow> w \<noteq> [] \<and> list_all (\<lambda>c. \<not> is_space c) w"

lemma scan_words_solid:
  "list_all (\<lambda>c. \<not> is_space c) cur \<Longrightarrow> list_all solid (scan_words cur s)"
  by (induction s arbitrary: cur) (auto simp: solid_def)

lemma words_solid: "list_all solid (str_words s)"
  using scan_words_solid [of "[]" s] by (simp add: str_words_scan)

lemma scan_words_nonspace: "list_all (\<lambda>c. \<not> is_space c) w \<Longrightarrow> scan_words cur (w @ s) = scan_words (cur @ w) s"
  by (induction w arbitrary: cur) auto

lemma words_of_solid: "solid w \<Longrightarrow> str_words w = [w]"
  using scan_words_nonspace [of w "[]" "[]"] by (simp add: str_words_scan solid_def)

lemma space_is_space [simp]: "is_space (CHR '' '')"
  by (simp add: is_space_def chars_between_def)

lemma words_join: "str_words (str_join '' '' xs) = concat (map str_words xs)"
proof (induction xs rule: induct_list012)
  case (3 x y zs)
  then show ?case by (simp add: words_split)
qed simp_all

lemma words_join_solid: "list_all solid ws \<Longrightarrow> str_words (str_join '' '' ws) = ws"
proof -
  assume s: "list_all solid ws"
  have "concat (map str_words ws) = ws" using s by (induction ws) (auto simp: words_of_solid)
  then show ?thesis by (simp add: words_join)
qed

lemma newline_space [simp]: "is_space newline" "is_space carriage_return"
  by (simp_all add: is_space_def chars_between_def newline_def carriage_return_def)

lemma scan_crlf: "scan_words cur (crlf_to_lf s) = scan_words cur s"
proof (induction s arbitrary: cur rule: crlf_to_lf.induct)
  case (1 a b s)
  show ?case
  proof (cases "a = carriage_return \<and> b = newline")
    case True
    then show ?thesis using 1(1) by simp
  next
    case False
    then have "crlf_to_lf (a # b # s) = a # crlf_to_lf (b # s)" by auto
    then show ?thesis using 1(2) [OF False] by (simp del: crlf_to_lf.simps)
  qed
qed simp_all

lemma words_normalize [simp]: "str_words (normalize_text s) = str_words s"
  by (simp add: normalize_text_def) (simp add: str_words_scan scan_crlf)

lemma rstrip_prefix: "prefix (str_rstrip s) s"
  unfolding str_rstrip_def prefix_def
  by (metis rev_append rev_rev_ident takeWhile_dropWhile_id)

lemma hd_strip: "str_strip s \<noteq> [] \<Longrightarrow> \<not> is_space (hd (str_strip s))"
proof -
  assume ne: "str_strip s \<noteq> []"
  then obtain z where z: "str_lstrip s = str_strip s @ z"
    using rstrip_prefix [of "str_lstrip s"] by (auto simp: str_strip_def prefix_def)
  then have "hd (str_strip s) = hd (str_lstrip s)" "str_lstrip s \<noteq> []" using ne by auto
  then show ?thesis using hd_dropWhile [of is_space s] by (simp add: str_lstrip_def)
qed

section \<open>No segment loses words\<close>

abbreviation seg_words :: "text_segment \<Rightarrow> string list" where
  "seg_words s \<equiv> str_words (seg_text s)"

definition all_words :: "text_segment list \<Rightarrow> string list" where
  "all_words segs = concat (map seg_words segs)"

lemma all_words_simps [simp]:
  "all_words [] = []" "all_words (s # ss) = seg_words s @ all_words ss"
  "all_words (xs @ ys) = all_words xs @ all_words ys"
  by (simp_all add: all_words_def)

lemma plain_segment_sel [simp]:
  "seg_text (plain_segment t i) = t" "seg_overlap (plain_segment t i) = False"
  "seg_start (plain_segment t i) = i" "seg_end (plain_segment t i) = i + int (length t)"
  by (simp_all add: plain_segment_def)

definition starts_newline :: "string \<Rightarrow> bool" where
  "starts_newline s \<longleftrightarrow> starts_with [newline] s"

lemma starts_newline_simps [simp]:
  "\<not> starts_newline []" "starts_newline (c # s) \<longleftrightarrow> c = newline"
  by (auto simp: starts_newline_def)

lemma starts_newline_append: "starts_newline (a @ b) = (if a = [] then starts_newline b else starts_newline a)"
  by (cases a) auto

lemma blank_words_strip: "str_strip s = [] \<Longrightarrow> str_words s = []"
  using words_strip [of s] by simp

lemma place_paragraphs_words:
  "all_words (place_paragraphs i parts) = concat (map str_words (filter (\<lambda>p. \<not> starts_newline p) parts))"
  by (induction i parts rule: place_paragraphs.induct)
    (auto simp: Let_def starts_newline_def blank_words_strip)

lemma paragraph_gap_parts:
  assumes "paragraph_gap s = Some (sep, rest)"
  shows "starts_newline sep" "list_all is_space sep" "\<not> starts_newline rest"
proof -
  obtain c cs where s: "s = c # cs" using assms by (cases s) (auto simp: paragraph_gap_def)
  let ?run = "takeWhile is_space cs" and ?P = "\<lambda>x. x \<noteq> newline"
  have c: "c = newline" and sep: "sep = c # rev (dropWhile ?P (rev ?run))"
    and rest: "rest = rev (takeWhile ?P (rev ?run)) @ dropWhile is_space cs"
    using assms by (auto simp: s paragraph_gap_def Let_def split: if_splits)
  show "starts_newline sep" by (simp add: sep c)
  have "set (rev (dropWhile ?P (rev ?run))) \<subseteq> set ?run" by (auto dest: set_dropWhileD)
  then show "list_all is_space sep"
    by (auto simp: sep c list_all_iff dest: set_takeWhileD)
  have "\<not> starts_newline (rev (takeWhile ?P (rev ?run)))"
  proof (cases "rev (takeWhile ?P (rev ?run))")
    case (Cons x xs)
    then have "x \<in> set (takeWhile ?P (rev ?run))" by (metis list.set_intros(1) set_rev)
    then have "x \<noteq> newline" using set_takeWhileD by metis
    then show ?thesis using Cons by simp
  qed simp
  moreover have "\<not> starts_newline (dropWhile is_space cs)"
  proof (cases "dropWhile is_space cs")
    case (Cons y ys)
    then have "\<not> is_space y" using hd_dropWhile [of is_space cs] by simp
    then show ?thesis using Cons newline_space by auto
  qed (simp only: starts_newline_simps not_False_eq_True)
  ultimately show "\<not> starts_newline rest" by (simp add: rest starts_newline_append)
qed

lemma words_blank_middle:
  "list_all is_space b \<Longrightarrow> b \<noteq> [] \<Longrightarrow> str_words (a @ b @ c) = str_words a @ str_words c"
  by (cases b) (auto simp: words_split words_blank_prefix)

lemma split_gaps_words:
  "\<not> starts_newline (rev acc @ s) \<Longrightarrow>
     concat (map str_words (filter (\<lambda>p. \<not> starts_newline p) (split_gaps acc s))) = str_words (rev acc @ s)"
proof (induction acc s rule: split_gaps.induct)
  case (1 acc s)
  show ?case
  proof (cases "paragraph_gap s")
    case None
    show ?thesis
    proof (cases s)
      case Nil
      with None 1(3) show ?thesis by (subst split_gaps.simps) simp
    next
      case (Cons c cs)
      with None have "split_gaps acc s = split_gaps (c # acc) cs" by (subst split_gaps.simps) simp
      then show ?thesis using 1(1) [OF None Cons] 1(3) Cons by simp
    qed
  next
    case (Some p)
    obtain sep rest where p: "paragraph_gap s = Some (sep, rest)" using Some by (cases p) simp
    note parts = paragraph_gap_parts [OF p] and app = paragraph_gap_append [OF p]
    have ne: "sep \<noteq> []" using parts(1) by auto
    have acc: "\<not> starts_newline (rev acc)" using 1(3) by (auto simp: starts_newline_append split: if_splits)
    have "split_gaps acc s = rev acc # sep # split_gaps [] rest"
      using p by (subst split_gaps.simps) simp
    then show ?thesis
      using 1(2) [OF p refl] parts acc ne by (simp add: app words_blank_middle)
  qed
qed

lemma split_paragraphs_words: "all_words (split_paragraphs s) = str_words s"
proof -
  have "\<not> starts_newline (normalize_text s)"
    using hd_strip [of "crlf_to_lf s"] by (cases "normalize_text s") (auto simp: normalize_text_def)
  then show ?thesis
    using split_gaps_words [of "[]" "normalize_text s"] words_normalize [of s]
    by (auto simp: split_paragraphs_def Let_def place_paragraphs_words simp del: words_normalize)
qed

lemma split_boundaries_words:
  "concat (map str_words (split_boundaries acc after s)) = str_words (rev acc @ s)"
proof (induction acc after s rule: split_boundaries.induct)
  case (1 acc after s)
  show ?case
  proof (cases s)
    case Nil
    then show ?thesis by (subst split_boundaries.simps) simp
  next
    case (Cons c cs)
    show ?thesis
    proof (cases "after \<and> is_space c")
      case True
      have "str_words (dropWhile is_space cs) = str_words cs"
        using words_lstrip [of cs] by (simp add: str_lstrip_def)
      then show ?thesis using 1(1) [OF Cons True] Cons True
        by (subst split_boundaries.simps) (simp add: words_split)
    next
      case False
      then have "split_boundaries acc after s = split_boundaries (c # acc) (ends_sentence c) cs"
        using Cons by (subst split_boundaries.simps) auto
      then show ?thesis using 1(2) [OF Cons False] Cons by simp
    qed
  qed
qed

lemma place_sentences_words: "all_words (place_sentences seg i parts) = concat (map str_words parts)"
  by (induction seg i parts rule: place_sentences.induct) (auto simp: Let_def blank_words_strip)

lemma split_sentences_words: "all_words (split_sentences seg) = seg_words seg"
proof -
  have "all_words (place_sentences seg 0 (split_boundaries [] False (seg_text seg))) = seg_words seg"
    by (simp add: place_sentences_words split_boundaries_words)
  then show ?thesis by (auto simp: split_sentences_def Let_def blank_words_strip)
qed

lemma word_matches_words: "map fst (word_matches i s) = str_words s"
proof (induction i s rule: word_matches.induct)
  case (1 i s)
  then show ?case by (subst word_matches.simps, subst str_words.simps) (simp add: Let_def)
qed

lemma pack_words_words:
  "list_all solid (map fst (cur @ ms)) \<Longrightarrow>
     all_words (pack_words sen mc mt cur ms) = map fst (cur @ ms)"
proof (induction sen mc mt cur ms rule: pack_words.induct)
  case (1 sen mc mt cur)
  then show ?case by (simp add: word_piece_def words_join_solid)
next
  case (2 sen mc mt cur m ms)
  show ?case
  proof (cases "cur \<noteq> [] \<and> (int (length (str_join '' '' (map fst (cur @ [m])))) > mc
      \<or> count_tokens (str_join '' '' (map fst (cur @ [m]))) > mt)")
    case True
    then have "pack_words sen mc mt cur (m # ms) = word_piece sen cur # pack_words sen mc mt [m] ms"
      by (auto simp: Let_def)
    moreover have "all_words (pack_words sen mc mt [m] ms) = map fst (m # ms)"
      using 2(1) [OF refl True] 2(3) by simp
    moreover have "seg_words (word_piece sen cur) = map fst cur"
      using 2(3) by (simp add: word_piece_def words_join_solid)
    ultimately show ?thesis by simp
  next
    case False
    then have "pack_words sen mc mt cur (m # ms) = pack_words sen mc mt (cur @ [m]) ms"
      by (auto simp: Let_def)
    then show ?thesis using 2(2) [OF refl False] 2(3) by simp
  qed
qed

lemma split_long_words: "all_words (split_long_sentence sen mc mt) = seg_words sen"
  using pack_words_words [of "[]" "word_matches 0 (seg_text sen)" sen mc mt] words_solid [of "seg_text sen"]
  by (simp add: split_long_sentence_def word_matches_words)

lemma all_words_concat: "all_words (concat xss) = concat (map all_words xss)"
  by (induction xss) auto

lemma split_sentence_words: "all_words (split_sentence cfg s) = seg_words s"
  by (simp add: split_sentence_def split_long_words)

lemma split_paragraph_words: "all_words (split_paragraph cfg s) = seg_words s"
proof -
  have "all_words (concat (map (split_sentence cfg) (split_sentences s))) = all_words (split_sentences s)"
    by (simp add: all_words_concat all_words_def [of "split_sentences s"] o_def split_sentence_words)
  then show ?thesis by (simp add: split_paragraph_def split_sentences_words)
qed

lemma split_segments_words: "all_words (split_segments s cfg) = str_words s"
proof -
  have "all_words (split_segments s cfg) = all_words (split_paragraphs s)"
    by (simp add: split_segments_def all_words_concat all_words_def [of "split_paragraphs s"] o_def
        split_paragraph_words)
  then show ?thesis by (simp add: split_paragraphs_words)
qed

section \<open>Sizes\<close>

lemma length_strip: "length (str_strip s) \<le> length s"
  by (simp add: str_strip_def str_rstrip_def str_lstrip_def)
    (metis length_dropWhile_le length_rev le_trans)

lemma length_join_Cons: "length (str_join '' '' (x # xs)) \<le> Suc (length x + length (str_join '' '' xs))"
  by (cases xs) auto

lemma length_join_scan: "length (str_join '' '' (scan_words cur s)) \<le> length cur + length s"
proof (induction s arbitrary: cur)
  case (Cons c cs)
  show ?case
  proof (cases "is_space c \<and> cur \<noteq> []")
    case True
    then show ?thesis
      using length_join_Cons [of cur "scan_words [] cs"] Cons.IH [of "[]"] by simp
  next
    case False
    then show ?thesis using Cons.IH [of "[]"] Cons.IH [of "cur @ [c]"] by auto
  qed
qed simp

lemma length_join_words: "length (str_join '' '' (str_words s)) \<le> length s"
  using length_join_scan [of "[]" s] by (simp add: str_words_scan)

lemma length_join_suffix: "length (str_join '' '' ys) \<le> length (str_join '' '' (xs @ ys))"
proof (induction xs)
  case (Cons x xs)
  then show ?case by (cases "xs @ ys") auto
qed simp

lemma solid_join_ends:
  "list_all solid ws \<Longrightarrow> ws \<noteq> [] \<Longrightarrow>
     str_join '' '' ws \<noteq> [] \<and> \<not> is_space (hd (str_join '' '' ws)) \<and> \<not> is_space (last (str_join '' '' ws))"
proof (induction ws rule: induct_list012)
  case (2 x)
  then show ?case by (cases x) (auto simp: solid_def list_all_iff)
next
  case (3 x y zs)
  then have "solid x" "str_join '' '' (y # zs) \<noteq> []" "\<not> is_space (last (str_join '' '' (y # zs)))"
    by simp_all
  then show ?case by (cases x) (auto simp: solid_def)
qed simp

lemma strip_tight: "s = [] \<or> (\<not> is_space (hd s) \<and> \<not> is_space (last s)) \<Longrightarrow> str_strip s = s"
proof (cases s)
  case (Cons c cs)
  assume t: "s = [] \<or> (\<not> is_space (hd s) \<and> \<not> is_space (last s))"
  with Cons have "str_lstrip s = s" by (simp add: str_lstrip_def)
  moreover have "dropWhile is_space (rev s) = rev s"
    using t Cons by (metis dropWhile_eq_self_iff hd_rev list.distinct(1) rev_is_Nil_conv)
  ultimately show ?thesis by (simp add: str_strip_def str_rstrip_def)
qed (simp add: str_strip_def str_rstrip_def str_lstrip_def)

lemma strip_join_solid: "list_all solid ws \<Longrightarrow> str_strip (str_join '' '' ws) = str_join '' '' ws"
  using solid_join_ends by (cases "ws = []") (auto intro: strip_tight)

lemma words_Nil_blank: "str_words s = [] \<longleftrightarrow> list_all is_space s"
proof
  have "scan_words cur s = [] \<Longrightarrow> cur = [] \<and> list_all is_space s" for cur
    by (induction s arbitrary: cur) (auto split: if_splits)
  then show "str_words s = [] \<Longrightarrow> list_all is_space s" by (auto simp: str_words_scan)
qed (rule words_blank)

lemma strip_single_word: "str_words s = [w] \<Longrightarrow> str_strip s = w"
proof -
  assume w: "str_words s = [w]"
  define t where "t = str_lstrip s"
  have "str_words t = [w]" using w by (simp add: t_def)
  have "t \<noteq> []" using \<open>str_words t = [w]\<close> by auto
  then have hd: "\<not> is_space (hd t)" using hd_dropWhile [of is_space s] by (simp add: t_def str_lstrip_def)
  then have dt: "dropWhile is_space t = t" using \<open>t \<noteq> []\<close> by (cases t) auto
  have "str_words t = takeWhile (\<lambda>c. \<not> is_space c) t # str_words (dropWhile (\<lambda>c. \<not> is_space c) t)"
    using \<open>t \<noteq> []\<close> dt by (subst str_words.simps) (simp add: Let_def)
  with \<open>str_words t = [w]\<close> have tw: "takeWhile (\<lambda>c. \<not> is_space c) t = w"
    and blank: "list_all is_space (dropWhile (\<lambda>c. \<not> is_space c) t)"
    by (simp_all add: words_Nil_blank)
  obtain r where r: "t = w @ r" "list_all is_space r" using tw blank by (metis takeWhile_dropWhile_id)
  have "solid w" using words_solid [of s] w by simp
  then have wl: "dropWhile is_space (rev w) = rev w"
    by (cases w rule: rev_cases) (auto simp: solid_def)
  have "str_rstrip t = rev (dropWhile is_space (rev r @ rev w))"
    by (simp add: r(1) str_rstrip_def)
  also have "\<dots> = w"
    using r(2) wl by (subst dropWhile_append2) (auto simp: list_all_iff)
  finally show ?thesis by (simp add: str_strip_def t_def)
qed

definition chunk_fits :: "chunking_config \<Rightarrow> string \<Rightarrow> bool" where
  "chunk_fits cfg t \<longleftrightarrow> within_limits t cfg \<or> length (str_words t) = 1"

lemma pack_words_fit:
  "list_all solid (map fst (cur @ ms)) \<Longrightarrow> cur = [] \<or> chunk_fits cfg (str_join '' '' (map fst cur)) \<Longrightarrow>
     s \<in> set (pack_words sen (max_chars cfg) (max_tokens cfg) cur ms) \<Longrightarrow>
     \<not> seg_overlap s \<and> chunk_fits cfg (seg_text s)"
proof (induction ms arbitrary: cur)
  case Nil
  then show ?case by (auto simp: word_piece_def split: if_splits)
next
  case (Cons m ms)
  let ?over = "cur \<noteq> [] \<and> (int (length (str_join '' '' (map fst (cur @ [m])))) > max_chars cfg
      \<or> count_tokens (str_join '' '' (map fst (cur @ [m]))) > max_tokens cfg)"
  have one: "chunk_fits cfg (str_join '' '' (map fst [m]))"
    using Cons.prems(1) by (simp add: chunk_fits_def words_of_solid)
  show ?case
  proof (cases ?over)
    case True
    then have "s = word_piece sen cur \<or> s \<in> set (pack_words sen (max_chars cfg) (max_tokens cfg) [m] ms)"
      using Cons.prems(3) by (auto simp: Let_def)
    then show ?thesis using Cons.IH [of "[m]"] Cons.prems True one by (auto simp: word_piece_def)
  next
    case False
    then have mem: "s \<in> set (pack_words sen (max_chars cfg) (max_tokens cfg) (cur @ [m]) ms)"
      using Cons.prems(3) by (auto simp: Let_def)
    have "chunk_fits cfg (str_join '' '' (map fst (cur @ [m])))"
      using False one by (cases "cur = []") (auto simp: chunk_fits_def within_limits_def)
    then show ?thesis using Cons.IH [of "cur @ [m]"] Cons.prems(1) mem by simp
  qed
qed

definition segment_ok :: "chunking_config \<Rightarrow> text_segment \<Rightarrow> bool" where
  "segment_ok cfg s \<longleftrightarrow> \<not> seg_overlap s \<and> chunk_fits cfg (seg_text s)"

lemma place_sentences_fresh: "s \<in> set (place_sentences seg i parts) \<Longrightarrow> \<not> seg_overlap s"
  by (induction seg i parts rule: place_sentences.induct) (auto simp: Let_def split: if_splits)

lemma split_sentences_fresh: "s \<in> set (split_sentences seg) \<Longrightarrow> \<not> seg_overlap seg \<Longrightarrow> \<not> seg_overlap s"
  by (auto simp: split_sentences_def Let_def split: if_splits dest: place_sentences_fresh)

lemma split_sentence_ok: "s \<in> set (split_sentence cfg sen) \<Longrightarrow> \<not> seg_overlap sen \<Longrightarrow> segment_ok cfg s"
  using pack_words_fit [of "[]" "word_matches 0 (seg_text sen)" cfg s sen] words_solid [of "seg_text sen"]
  by (cases "within_limits (seg_text sen) cfg")
    (simp_all add: split_sentence_def split_long_sentence_def segment_ok_def word_matches_words,
      simp add: chunk_fits_def)

lemma place_paragraphs_fresh: "s \<in> set (place_paragraphs i parts) \<Longrightarrow> \<not> seg_overlap s"
  by (induction i parts rule: place_paragraphs.induct) (auto simp: Let_def split: if_splits)

lemma split_segments_ok: "s \<in> set (split_segments t cfg) \<Longrightarrow> segment_ok cfg s"
proof -
  assume "s \<in> set (split_segments t cfg)"
  then obtain par where par: "par \<in> set (split_paragraphs t)" and s: "s \<in> set (split_paragraph cfg par)"
    by (auto simp: split_segments_def)
  from par have fresh: "\<not> seg_overlap par"
    by (auto simp: split_paragraphs_def Let_def dest: place_paragraphs_fresh split: if_splits)
  show ?thesis
  proof (cases "within_limits (seg_text par) cfg")
    case True
    then show ?thesis using s fresh by (simp add: split_paragraph_def segment_ok_def chunk_fits_def)
  next
    case False
    then obtain sen where "sen \<in> set (split_sentences par)" "s \<in> set (split_sentence cfg sen)"
      using s by (auto simp: split_paragraph_def)
    then show ?thesis using split_sentences_fresh [OF _ fresh] split_sentence_ok by blast
  qed
qed

section \<open>Joining and overlap\<close>

lemma words_filter_strip:
  "concat (map str_words (filter (\<lambda>t. t \<noteq> []) (map (\<lambda>s. str_strip (seg_text s)) segs))) = all_words segs"
  by (induction segs) (auto dest: blank_words_strip)

lemma words_join_segments: "str_words (join_segments segs) = all_words segs"
  by (simp add: join_segments_def words_join words_filter_strip)

lemma join_segments_empty: "join_segments segs = [] \<Longrightarrow> all_words segs = []"
  using words_join_segments [of segs] by simp

lemma join_segments_Nil [simp]: "join_segments [] = []"
  by (simp add: join_segments_def str_strip_def str_rstrip_def str_lstrip_def)

lemma length_join_single: "length (join_segments [s]) \<le> length (seg_text s)"
proof -
  have "join_segments [s] = str_strip (str_strip (seg_text s)) \<or> join_segments [s] = str_strip []"
    by (simp add: join_segments_def)
  then show ?thesis
    using length_strip [of "str_strip (seg_text s)"] length_strip [of "seg_text s"] length_strip [of "[]"]
    by auto
qed

lemma chunk_fits_single: "chunk_fits cfg (seg_text s) \<Longrightarrow> chunk_fits cfg (join_segments [s])"
  using length_join_single [of s]
  by (auto simp: chunk_fits_def within_limits_def words_join_segments count_tokens_def)

lemma strip_idem: "str_strip (str_strip s) = str_strip s"
proof -
  have "str_rstrip t \<noteq> [] \<Longrightarrow> \<not> is_space (last (str_rstrip t))" for t
    using hd_dropWhile [of is_space "rev t"] by (simp add: str_rstrip_def last_rev)
  then show ?thesis
    using hd_strip [of s] by (intro strip_tight) (auto simp: str_strip_def)
qed

lemma join_segments_strip: "str_strip (join_segments segs) = join_segments segs"
  by (simp add: join_segments_def strip_idem)

lemma take_overlap_suffix: "\<exists>n. take_overlap cfg acc ws = rev (take n ws) @ acc"
proof (induction ws arbitrary: acc)
  case (Cons w ws)
  obtain n where "take_overlap cfg (w # acc) ws = rev (take n ws) @ w # acc"
    using Cons.IH by blast
  then have "take_overlap cfg acc (w # ws) = rev (take (Suc n) (w # ws)) @ acc \<or>
      take_overlap cfg acc (w # ws) = rev (take 0 (w # ws)) @ acc"
    by (simp add: Let_def)
  then show ?case by blast
qed simp

lemma overlap_words_suffix: "suffix (take_overlap cfg [] (rev ws)) ws"
proof -
  obtain n where "take_overlap cfg [] (rev ws) = rev (take n (rev ws))"
    using take_overlap_suffix [of cfg "[]" "rev ws"] by auto
  then show ?thesis by (metis rev_rev_ident suffix_to_prefix take_is_prefix)
qed

definition overlap_bounded :: "chunking_config \<Rightarrow> string list \<Rightarrow> bool" where
  "overlap_bounded cfg ws \<longleftrightarrow>
     (overlap_tokens cfg = 0 \<or> int (length ws) \<le> overlap_tokens cfg) \<and>
     (overlap_chars cfg = 0 \<or> int (length (str_join '' '' ws)) \<le> overlap_chars cfg)"

lemma take_overlap_bounded: "overlap_bounded cfg acc \<Longrightarrow> overlap_bounded cfg (take_overlap cfg acc ws)"
proof (induction ws arbitrary: acc)
  case (Cons w ws)
  have "take_overlap cfg acc (w # ws) = (if overlap_bounded cfg (w # acc)
      then take_overlap cfg (w # acc) ws else acc)"
    by (auto simp: Let_def overlap_bounded_def)
  then show ?case using Cons by simp
qed simp

definition valid_config :: "chunking_config \<Rightarrow> bool" where
  "valid_config cfg \<longleftrightarrow> validate_config cfg = Inr ()"

lemma valid_config_iff:
  "valid_config cfg \<longleftrightarrow>
     0 < max_chars cfg \<and> 0 < max_tokens cfg \<and> 0 \<le> overlap_chars cfg \<and> 0 \<le> overlap_tokens cfg"
  by (auto simp: valid_config_def validate_config_def)

lemma overlap_bounded_Nil: "valid_config cfg \<Longrightarrow> overlap_bounded cfg []"
  by (simp add: overlap_bounded_def valid_config_iff)

lemma list_all_suffix: "suffix xs ys \<Longrightarrow> list_all P ys \<Longrightarrow> list_all P xs"
  by (auto simp: suffix_def)

lemma overlap_text_words:
  "str_words (overlap_text t cfg) = take_overlap cfg [] (rev (str_words t))"
  "overlap_text t cfg = str_join '' '' (take_overlap cfg [] (rev (str_words t)))"
proof -
  have s: "list_all solid (take_overlap cfg [] (rev (str_words t)))"
    using list_all_suffix [OF overlap_words_suffix words_solid] .
  show "overlap_text t cfg = str_join '' '' (take_overlap cfg [] (rev (str_words t)))"
    by (simp add: overlap_text_def strip_join_solid [OF s])
  then show "str_words (overlap_text t cfg) = take_overlap cfg [] (rev (str_words t))"
    by (simp add: words_join_solid [OF s])
qed

text \<open>What a chunk passes on: the end of its words, bounded, and within the limits when it exists.\<close>

lemma overlap_segment_carries:
  assumes "overlap_segment t segs cfg = Some ov" "valid_config cfg" "chunk_fits cfg t" "str_strip t = t"
  shows "seg_overlap ov" "suffix (seg_words ov) (str_words t)" "overlap_bounded cfg (seg_words ov)"
    "chunk_fits cfg (seg_text ov)"
proof -
  let ?ws = "take_overlap cfg [] (rev (str_words t))"
  have ov: "seg_text ov = overlap_text t cfg" "seg_overlap ov" "overlap_text t cfg \<noteq> []" "overlap_text t cfg \<noteq> t"
    using assms(1) by (auto simp: overlap_segment_def Let_def split: if_splits)
  show "seg_overlap ov" by (rule ov)
  show suf: "suffix (seg_words ov) (str_words t)"
    by (simp only: ov overlap_text_words(1) overlap_words_suffix)
  show "overlap_bounded cfg (seg_words ov)"
    using take_overlap_bounded [OF overlap_bounded_Nil [OF assms(2)]] by (simp only: ov overlap_text_words(1))
  show "chunk_fits cfg (seg_text ov)"
  proof (cases "within_limits t cfg")
    case True
    obtain pre where pre: "str_words t = pre @ ?ws" using overlap_words_suffix by (auto simp: suffix_def)
    have "length (overlap_text t cfg) \<le> length (str_join '' '' (str_words t))"
      using length_join_suffix [of ?ws pre] by (simp add: overlap_text_words(2) pre [symmetric])
    also have "\<dots> \<le> length t" by (rule length_join_words)
    finally have "length (overlap_text t cfg) \<le> length t" .
    moreover have "count_tokens (overlap_text t cfg) \<le> count_tokens t"
      using arg_cong [OF pre, of length] by (simp add: count_tokens_def overlap_text_words(1))
    ultimately show ?thesis using True by (simp add: chunk_fits_def within_limits_def ov)
  next
    case False
    then obtain w where w: "str_words t = [w]" using assms(3) by (auto simp: chunk_fits_def length_Suc_conv)
    then have "?ws = [] \<or> ?ws = [w]" using overlap_words_suffix [of cfg "str_words t"] by (auto simp: suffix_Cons)
    moreover have "t = w" using strip_single_word [OF w] assms(4) by simp
    ultimately show ?thesis using ov(3,4) by (auto simp: overlap_text_words(2))
  qed
qed

section \<open>The loop over segments\<close>

definition carried :: "chunk_state \<Rightarrow> text_segment list" where
  "carried st = takeWhile seg_overlap (cs_current st)"

definition fresh_run :: "chunk_state \<Rightarrow> text_segment list" where
  "fresh_run st = dropWhile seg_overlap (cs_current st)"

definition carried_ok :: "chunking_config \<Rightarrow> chunk_document list \<Rightarrow> string list \<Rightarrow> bool" where
  "carried_ok cfg cks ws \<longleftrightarrow> overlap_bounded cfg ws \<and>
     (if cks = [] then ws = [] else suffix ws (str_words (ck_text (last cks))))"

definition covers :: "chunking_config \<Rightarrow> chunk_document list \<Rightarrow> string list list \<Rightarrow> bool" where
  "covers cfg cks fr \<longleftrightarrow> length fr = length cks \<and>
     (\<forall>i<length cks. chunk_fits cfg (ck_text (cks ! i)) \<and>
        (\<exists>ov. str_words (ck_text (cks ! i)) = ov @ fr ! i \<and> carried_ok cfg (take i cks) ov))"

definition numbered :: "source_document \<Rightarrow> chunk_document list \<Rightarrow> bool" where
  "numbered d cks \<longleftrightarrow>
     (\<forall>i<length cks. ck_id (cks ! i) = chunk_id_of (sd_doc_id d) i \<and> ck_index (cks ! i) = int i
        \<and> ck_source (cks ! i) = sd_doc_id d \<and> ck_tokens (cks ! i) = count_tokens (ck_text (cks ! i))
        \<and> map_of (ck_metadata (cks ! i)) ''citation'' \<noteq> None)"

definition chunk_inv ::
  "source_document \<Rightarrow> chunking_config \<Rightarrow> string list \<Rightarrow> chunk_state \<Rightarrow> bool" where
  "chunk_inv d cfg ws st \<longleftrightarrow>
     (\<exists>fr. covers cfg (cs_chunks st) fr \<and> concat fr @ all_words (fresh_run st) = ws) \<and>
     carried_ok cfg (cs_chunks st) (all_words (carried st)) \<and>
     chunk_fits cfg (join_segments (cs_current st)) \<and> numbered d (cs_chunks st)"

lemma carried_fresh: "all_words (carried st) @ all_words (fresh_run st) = all_words (cs_current st)"
  by (metis all_words_simps(3) carried_def fresh_run_def takeWhile_dropWhile_id)

lemma covers_snoc:
  assumes "covers cfg cks fr" "chunk_fits cfg (ck_text c)" "str_words (ck_text c) = ov @ f" "carried_ok cfg cks ov"
  shows "covers cfg (cks @ [c]) (fr @ [f])"
  using assms by (auto simp: covers_def nth_append less_Suc_eq)

lemma fits_Nil: "valid_config cfg \<Longrightarrow> chunk_fits cfg []"
  by (simp add: chunk_fits_def within_limits_def valid_config_iff count_tokens_def)

lemma carried_ok_Nil: "valid_config cfg \<Longrightarrow> carried_ok cfg cks []"
  by (simp add: carried_ok_def overlap_bounded_Nil)

lemma flush_overlap: "valid_config cfg \<Longrightarrow> list_all seg_overlap (cs_current (flush lib d cfg st))"
  by (auto simp: flush_def Let_def overlap_segment_def split: option.split if_splits)

lemma flush_inv:
  assumes inv: "chunk_inv d cfg ws st" and v: "valid_config cfg"
  shows "chunk_inv d cfg ws (flush lib d cfg st)"
proof (cases "join_segments (cs_current st) = []")
  case True
  have none: "all_words (carried st) = []" "all_words (fresh_run st) = []"
    using carried_fresh [of st] join_segments_empty [OF True] by simp_all
  show ?thesis
  proof (cases "cs_current st = []")
    case False
    with True have "flush lib d cfg st = st\<lparr>cs_current := []\<rparr>" by (simp add: flush_def)
    then show ?thesis using inv none v
      by (auto simp: chunk_inv_def fresh_run_def carried_def fits_Nil carried_ok_Nil)
  qed (use inv in \<open>simp add: flush_def\<close>)
next
  case False
  let ?t = "join_segments (cs_current st)"
  let ?c = "new_chunk lib d (length (cs_chunks st)) ?t (cs_current st)"
  let ?cur = "case overlap_segment ?t (cs_current st) cfg of None \<Rightarrow> [] | Some overlap \<Rightarrow> [overlap]"
  obtain fr where fr: "covers cfg (cs_chunks st) fr" "concat fr @ all_words (fresh_run st) = ws"
    using inv by (auto simp: chunk_inv_def)
  have fits: "chunk_fits cfg ?t" and ok: "carried_ok cfg (cs_chunks st) (all_words (carried st))"
    using inv by (simp_all add: chunk_inv_def)
  have flush: "flush lib d cfg st = \<lparr>cs_chunks = cs_chunks st @ [?c], cs_current = ?cur\<rparr>"
    using False by (auto simp: flush_def Let_def)
  have c: "ck_text ?c = ?t" by (simp add: new_chunk_def)
  have cov: "covers cfg (cs_chunks st @ [?c]) (fr @ [all_words (fresh_run st)])"
    using fr(1) ok fits by (intro covers_snoc) (simp_all add: c words_join_segments carried_fresh)
  have num: "numbered d (cs_chunks st @ [?c])"
    using inv by (auto simp: chunk_inv_def numbered_def nth_append less_Suc_eq new_chunk_def)
  show ?thesis
  proof (cases "overlap_segment ?t (cs_current st) cfg")
    case None
    then show ?thesis using cov fr(2) v num
      by (auto simp: chunk_inv_def flush fresh_run_def carried_def fits_Nil carried_ok_Nil
          intro!: exI [of _ "fr @ [all_words (fresh_run st)]"])
  next
    case (Some ov)
    note carries = overlap_segment_carries [OF Some v fits join_segments_strip]
    have "carried_ok cfg (cs_chunks st @ [?c]) (seg_words ov)"
      using carries by (simp add: carried_ok_def c)
    then show ?thesis using cov fr(2) Some carries chunk_fits_single [OF carries(4)] num
      by (auto simp: chunk_inv_def flush fresh_run_def carried_def
          intro!: exI [of _ "fr @ [all_words (fresh_run st)]"])
  qed
qed

text \<open>Putting a segment into the current run, in either way the loop does it.\<close>

definition extends :: "text_segment \<Rightarrow> chunk_state \<Rightarrow> text_segment list \<Rightarrow> bool" where
  "extends seg st candidate \<longleftrightarrow>
     candidate = cs_current st @ [seg] \<or> candidate = [seg] \<and> list_all seg_overlap (cs_current st)"

lemma carried_fresh_snoc:
  "\<not> P x \<Longrightarrow> takeWhile P (xs @ [x]) = takeWhile P xs" "\<not> P x \<Longrightarrow> dropWhile P (xs @ [x]) = dropWhile P xs @ [x]"
  by (induction xs) auto

lemma all_overlap_fresh: "list_all seg_overlap xs \<Longrightarrow> dropWhile seg_overlap xs = []"
  by (induction xs) auto

lemma extend_inv:
  assumes inv: "chunk_inv d cfg ws st" and v: "valid_config cfg" and seg: "\<not> seg_overlap seg"
    and ext: "extends seg st candidate" and fits: "chunk_fits cfg (join_segments candidate)"
  shows "chunk_inv d cfg (ws @ seg_words seg) (st\<lparr>cs_current := candidate\<rparr>)"
  using ext unfolding extends_def
proof (elim disjE conjE)
  assume c: "candidate = cs_current st @ [seg]"
  show ?thesis using inv fits seg
    by (auto simp: chunk_inv_def c fresh_run_def carried_def carried_fresh_snoc)
next
  assume c: "candidate = [seg]" and "list_all seg_overlap (cs_current st)"
  then have "all_words (dropWhile seg_overlap (cs_current st)) = []"
    by (simp only: all_overlap_fresh all_words_simps)
  then show ?thesis using inv fits seg v
    by (simp add: chunk_inv_def c fresh_run_def carried_def carried_ok_Nil)
qed

definition guarded :: "source_document \<Rightarrow> chunking_config \<Rightarrow> string list \<Rightarrow> text_segment
    \<Rightarrow> chunk_state \<times> text_segment list \<Rightarrow> bool" where
  "guarded d cfg ws seg p \<longleftrightarrow> chunk_inv d cfg ws (fst p) \<and> extends seg (fst p) (snd p)"

lemma refill_guarded:
  "chunk_inv d cfg ws st \<Longrightarrow> valid_config cfg \<Longrightarrow> guarded d cfg ws seg (refill lib d cfg seg st)"
  using flush_inv [of d cfg ws st lib] flush_overlap [of cfg lib d st]
  by (auto simp: refill_def guarded_def extends_def Let_def)

lemma first_guarded:
  "chunk_inv d cfg ws st \<Longrightarrow> valid_config cfg \<Longrightarrow> guarded d cfg ws seg (first_guard lib d cfg seg st)"
  by (simp add: first_guard_def Let_def refill_guarded) (simp add: guarded_def extends_def)

lemma within_fits: "\<not> over_limits cfg (cs_current st) candidate \<Longrightarrow> cs_current st \<noteq> [] \<Longrightarrow>
    chunk_fits cfg (join_segments candidate)"
  by (simp add: over_limits_def chunk_fits_def)

lemma candidate_fits:
  assumes "segment_ok cfg seg" "extends seg st candidate" "\<not> over_limits cfg (cs_current st) candidate"
  shows "chunk_fits cfg (join_segments candidate)"
proof (cases "cs_current st = []")
  case True
  then have "candidate = [seg]" using assms(2) by (auto simp: extends_def)
  then show ?thesis using assms(1) by (simp add: segment_ok_def chunk_fits_single)
qed (use within_fits assms(3) in blast)

lemma refill_fits:
  assumes "segment_ok cfg seg"
  shows "chunk_fits cfg (join_segments (snd (refill lib d cfg seg st)))"
proof -
  have "chunk_fits cfg (join_segments [seg])" using assms by (simp add: segment_ok_def chunk_fits_single)
  moreover have "extends seg (flush lib d cfg st) (cs_current (flush lib d cfg st) @ [seg])"
    by (simp add: extends_def)
  ultimately show ?thesis using candidate_fits [OF assms] by (simp add: refill_def Let_def)
qed

lemma second_guarded:
  assumes p: "guarded d cfg ws seg p" and v: "valid_config cfg" and ok: "segment_ok cfg seg"
  shows "guarded d cfg ws seg (second_guard lib d cfg seg p)"
    "chunk_fits cfg (join_segments (snd (second_guard lib d cfg seg p)))"
proof -
  obtain st cand where p': "p = (st, cand)" by (cases p)
  have inv: "chunk_inv d cfg ws st" and ext: "extends seg st cand" using p by (simp_all add: p' guarded_def)
  show "guarded d cfg ws seg (second_guard lib d cfg seg p)"
    using p refill_guarded [OF inv v] by (simp add: second_guard_def p')
  show "chunk_fits cfg (join_segments (snd (second_guard lib d cfg seg p)))"
    using refill_fits [OF ok] candidate_fits [OF ok ext] by (simp add: second_guard_def p')
qed

lemma extends_words: "extends seg st candidate \<Longrightarrow> all_words candidate = [] \<Longrightarrow> seg_words seg = []"
  by (auto simp: extends_def)

lemma add_segment_inv:
  assumes inv: "chunk_inv d cfg ws st" and v: "valid_config cfg" and ok: "segment_ok cfg seg"
  shows "chunk_inv d cfg (ws @ seg_words seg) (add_segment lib d cfg seg st)"
proof -
  obtain st' cand where sg: "second_guard lib d cfg seg (first_guard lib d cfg seg st) = (st', cand)"
    by fastforce
  note g = second_guarded [OF first_guarded [OF inv v] v ok, of lib lib, unfolded sg]
  have inv': "chunk_inv d cfg ws st'" and ext: "extends seg st' cand" and fits: "chunk_fits cfg (join_segments cand)"
    using g by (simp_all add: guarded_def)
  show ?thesis
  proof (cases "join_segments cand = []")
    case True
    then have "seg_words seg = []" using extends_words [OF ext] join_segments_empty by blast
    then show ?thesis using True inv' by (simp add: add_segment_def sg)
  next
    case False
    then show ?thesis using extend_inv [OF inv' v _ ext fits] ok
      by (simp add: add_segment_def sg segment_ok_def)
  qed
qed

lemma add_segments_inv:
  "chunk_inv d cfg ws st \<Longrightarrow> valid_config cfg \<Longrightarrow> \<forall>s\<in>set segs. segment_ok cfg s \<Longrightarrow>
     chunk_inv d cfg (ws @ all_words segs) (fold (add_segment lib d cfg) segs st)"
proof (induction segs arbitrary: ws st)
  case (Cons s segs)
  then show ?case using Cons.IH [OF add_segment_inv [OF Cons.prems(1,2)]] by simp
qed simp

definition chunking_result :: "source_document \<Rightarrow> chunking_config \<Rightarrow> chunk_document list \<Rightarrow> bool" where
  "chunking_result d cfg cks \<longleftrightarrow>
     (\<exists>fr. covers cfg cks fr \<and> concat fr = str_words (sd_text d)) \<and> numbered d cks"

lemma chunk_source_result:
  assumes v: "valid_config cfg"
  obtains cks where "chunk_source lib d (Some cfg) = Inr cks" "chunking_result d cfg cks"
proof -
  let ?text = "normalize_text (sd_text d)"
  let ?segs = "split_segments ?text cfg" and ?st0 = "\<lparr>cs_chunks = [], cs_current = []\<rparr>"
  have words: "all_words ?segs = str_words (sd_text d)" by (simp add: split_segments_words)
  have valid: "validate_config cfg = Inr ()" using v by (simp add: valid_config_def)
  show thesis
  proof (cases "?text = [] \<or> ?segs = []")
    case True
    then have "str_words (sd_text d) = []" using words words_normalize [of "sd_text d"]
      by (metis all_words_simps(1) words_Nil)
    then have "chunking_result d cfg []" by (simp add: chunking_result_def covers_def numbered_def)
    moreover have "chunk_source lib d (Some cfg) = Inr []" using True valid by (simp add: chunk_source_def Let_def)
    ultimately show thesis using that by blast
  next
    case False
    define st where "st = flush lib d cfg (fold (add_segment lib d cfg) ?segs ?st0)"
    have "chunk_inv d cfg [] ?st0"
      using v by (auto simp: chunk_inv_def covers_def fresh_run_def carried_def carried_ok_Nil fits_Nil numbered_def)
    from flush_inv [OF add_segments_inv [OF this v, of ?segs lib] v, of lib]
    have inv: "chunk_inv d cfg (str_words (sd_text d)) st"
      using split_segments_ok words by (auto simp: st_def)
    have "all_words (fresh_run st) = []"
      unfolding fresh_run_def st_def by (simp only: all_overlap_fresh [OF flush_overlap [OF v]] all_words_simps)
    with inv have "chunking_result d cfg (cs_chunks st)"
      by (auto simp: chunk_inv_def chunking_result_def)
    moreover have "chunk_source lib d (Some cfg) = Inr (cs_chunks st)"
      using False valid by (simp add: chunk_source_def Let_def st_def)
    ultimately show thesis using that by blast
  qed
qed

lemma chunk_source_numbered:
  assumes "chunk_source lib d (Some cfg) = Inr cks"
  shows "numbered d cks"
proof -
  have "valid_config cfg"
    using assms by (auto simp: chunk_source_def valid_config_def Let_def split: sum.splits)
  then show ?thesis
    using chunk_source_result [of cfg lib d] assms by (auto simp: chunking_result_def)
qed

lemma chunk_source_fields:
  assumes "chunk_source lib d (Some cfg) = Inr cks" "c \<in> set cks"
  shows "ck_id c \<noteq> [] \<and> ck_source c = sd_doc_id d \<and> map_of (ck_metadata c) ''citation'' \<noteq> None"
  using chunk_source_numbered [OF assms(1)] assms(2)
  by (auto simp: numbered_def in_set_conv_nth chunk_id_of_def)

lemma chunk_source_distinct: "chunk_source lib d (Some cfg) = Inr cks \<Longrightarrow> distinct (map ck_id cks)"
  using chunk_source_numbered [of lib d cfg cks]
  by (auto simp: distinct_conv_nth numbered_def chunk_id_of_def dest: nat_digits_inj)

section \<open>The promises\<close>

text \<open>
  C19: Chunking a document with a valid configuration succeeds, no word of the document is
  lost, reordered or invented, and what a chunk repeats is bounded: each chunk's words are
  an overlap followed by fresh words, the fresh words of all chunks together are exactly
  the words of the document in order, the overlap is empty for the first chunk and
  otherwise ends the previous chunk, and it respects both overlap bounds that are set.
\<close>

theorem chunks_cover_document:
  assumes "validate_config cfg = Inr ()"
  shows "\<exists>cks ov fr. chunk_source lib d (Some cfg) = Inr cks \<and>
      length ov = length cks \<and> length fr = length cks \<and> concat fr = str_words (sd_text d) \<and>
      (\<forall>i<length cks.
         str_words (ck_text (cks ! i)) = ov ! i @ fr ! i \<and>
         (if i = 0 then ov ! i = [] else suffix (ov ! i) (str_words (ck_text (cks ! (i - 1))))) \<and>
         (overlap_tokens cfg \<noteq> 0 \<longrightarrow> int (length (ov ! i)) \<le> overlap_tokens cfg) \<and>
         (overlap_chars cfg \<noteq> 0 \<longrightarrow> int (length (str_join '' '' (ov ! i))) \<le> overlap_chars cfg))"
proof -
  have "valid_config cfg" using assms by (simp add: valid_config_def)
  then obtain cks where cks: "chunk_source lib d (Some cfg) = Inr cks" "chunking_result d cfg cks"
    by (rule chunk_source_result)
  then obtain fr where fr: "covers cfg cks fr" "concat fr = str_words (sd_text d)"
    by (auto simp: chunking_result_def)
  then have "\<forall>i<length cks. \<exists>o'. str_words (ck_text (cks ! i)) = o' @ fr ! i \<and> carried_ok cfg (take i cks) o'"
    by (simp add: covers_def)
  then obtain f where f: "\<And>i. i < length cks \<Longrightarrow> str_words (ck_text (cks ! i)) = f i @ fr ! i"
    "\<And>i. i < length cks \<Longrightarrow> carried_ok cfg (take i cks) (f i)"
    by metis
  have prev: "if i = 0 then f i = [] else suffix (f i) (str_words (ck_text (cks ! (i - 1))))"
    if "i < length cks" for i
  proof (cases "i = 0")
    case False
    then have "last (take i cks) = cks ! (i - 1)" "take i cks \<noteq> []"
      using that by (cases i; auto simp: take_Suc_conv_app_nth)+
    then show ?thesis using f(2) [OF that] False by (simp only: carried_ok_def if_False)
  qed (use f(2) [OF that] in \<open>simp add: carried_ok_def\<close>)
  have bounds: "overlap_bounded cfg (f i)" if "i < length cks" for i
    using f(2) [OF that] by (simp only: carried_ok_def)
  have len: "length fr = length cks" using fr(1) by (simp add: covers_def)
  let ?ov = "map f [0..<length cks]"
  have "\<forall>i<length cks.
         str_words (ck_text (cks ! i)) = ?ov ! i @ fr ! i \<and>
         (if i = 0 then ?ov ! i = [] else suffix (?ov ! i) (str_words (ck_text (cks ! (i - 1))))) \<and>
         (overlap_tokens cfg \<noteq> 0 \<longrightarrow> int (length (?ov ! i)) \<le> overlap_tokens cfg) \<and>
         (overlap_chars cfg \<noteq> 0 \<longrightarrow> int (length (str_join '' '' (?ov ! i))) \<le> overlap_chars cfg)"
    (is "\<forall>i<_. ?P i")
  proof (intro allI impI)
    fix i assume i: "i < length cks"
    then have "?ov ! i = f i" by simp
    then show "?P i" using f(1) [OF i] prev [OF i] bounds [OF i]
      by (simp only: overlap_bounded_def) blast
  qed
  then show ?thesis using cks(1) len fr(2) length_map [of f] length_upt by (metis diff_zero)
qed

text \<open>
  C20: Chunking respects its limits: every chunk is within \<open>max_chars\<close> and \<open>max_tokens\<close>,
  unless it is a single word, which cannot be split; the recorded token count is that of
  the text, and the chunks are numbered in order under pairwise distinct identifiers.
\<close>

theorem chunks_within_limits:
  assumes "validate_config cfg = Inr ()" "chunk_source lib d (Some cfg) = Inr cks"
  shows "(\<forall>c\<in>set cks. (int (length (ck_text c)) \<le> max_chars cfg \<and> count_tokens (ck_text c) \<le> max_tokens cfg)
           \<or> length (str_words (ck_text c)) = 1)
       \<and> (\<forall>c\<in>set cks. ck_tokens c = count_tokens (ck_text c))
       \<and> map ck_index cks = map int [0..<length cks] \<and> distinct (map ck_id cks)"
proof -
  have "valid_config cfg" using assms by (simp add: valid_config_def)
  then have res: "chunking_result d cfg cks"
    using chunk_source_result [of cfg lib d] assms(2) by (metis sum.inject(2))
  then have num: "numbered d cks" by (simp add: chunking_result_def)
  have "map ck_index cks = map int [0..<length cks]"
    using num by (auto simp: numbered_def intro: nth_equalityI)
  moreover have "distinct (map ck_id cks)"
    using num by (auto simp: distinct_conv_nth numbered_def chunk_id_of_def dest: nat_digits_inj)
  moreover have "\<forall>c\<in>set cks. chunk_fits cfg (ck_text c)"
    using res by (auto simp: chunking_result_def covers_def in_set_conv_nth)
  moreover have "\<forall>c\<in>set cks. ck_tokens c = count_tokens (ck_text c)"
    using num by (auto simp: numbered_def in_set_conv_nth)
  ultimately show ?thesis by (simp add: chunk_fits_def within_limits_def)
qed

definition example_config :: chunking_config where
  "example_config = \<lparr>max_chars = 5, max_tokens = 4, overlap_chars = 2, overlap_tokens = 2\<rparr>"

definition example_document :: source_document where
  "example_document =
     \<lparr>sd_doc_id = ''d'', sd_text = ''aa bb cccccc'', sd_title = None, sd_url = Some ''u'', sd_metadata = []\<rparr>"

lemmas chunk_eval = chunk_source_def validate_config_def normalize_text_def str_strip_def str_rstrip_def
  str_lstrip_def is_space_def chars_between_def newline_def carriage_return_def split_segments_def
  split_paragraphs_def split_paragraph_def split_gaps.simps paragraph_gap_def plain_segment_def
  within_limits_def count_tokens_def str_words.simps split_sentences_def split_boundaries.simps
  ends_sentence_def sentence_start_def str_find_def split_sentence_def split_long_sentence_def
  word_matches.simps word_piece_def add_segment_def second_guard_def first_guard_def over_limits_def
  refill_def flush_def join_segments_def overlap_segment_def overlap_text_def new_chunk_def
  chunk_id_of_def nat_digits.simps digit_char_def min_start_def max_end_def source_citation_def
  citation_of_def dict_setdefault_def

lemma example_chunks:
  "\<exists>cks. chunk_source lib example_document (Some example_config) = Inr cks \<and>
     map ck_text cks = [''aa bb'', ''bb'', ''cccccc'']"
  by (simp add: example_document_def example_config_def chunk_eval Let_def)

text \<open>
  In this example the second chunk only repeats the end of the first: the second guard of
  the loop flushes a run that holds nothing but the overlap when the next segment alone
  exceeds the limits.
\<close>

theorem chunks_cover_document_witness:
  "\<exists>cks ov fr. chunk_source null_lib example_document (Some example_config) = Inr cks \<and>
      length ov = length cks \<and> length fr = length cks \<and>
      concat fr = [''aa'', ''bb'', ''cccccc''] \<and>
      (\<forall>i<length cks. str_words (ck_text (cks ! i)) = ov ! i @ fr ! i)"
proof -
  have "validate_config example_config = Inr ()"
    by (simp add: validate_config_def example_config_def)
  from chunks_cover_document [OF this, of null_lib example_document]
  obtain cks ov fr where "chunk_source null_lib example_document (Some example_config) = Inr cks"
      "length ov = length cks" "length fr = length cks"
      "concat fr = str_words (sd_text example_document)"
      "\<forall>i<length cks. str_words (ck_text (cks ! i)) = ov ! i @ fr ! i"
    by auto
  moreover have "str_words (sd_text example_document) = [''aa'', ''bb'', ''cccccc'']"
    by (simp add: example_document_def str_words.simps is_space_def chars_between_def)
  ultimately show ?thesis by auto
qed

theorem chunks_within_limits_witness:
  "\<exists>cks. chunk_source null_lib example_document (Some example_config) = Inr cks \<and>
     map ck_text cks = [''aa bb'', ''bb'', ''cccccc''] \<and> distinct (map ck_id cks)"
proof -
  obtain cks where cks: "chunk_source null_lib example_document (Some example_config) = Inr cks"
      "map ck_text cks = [''aa bb'', ''bb'', ''cccccc'']"
    using example_chunks [of null_lib] by (elim exE conjE) (rule that)
  have "validate_config example_config = Inr ()"
    by (simp add: validate_config_def example_config_def)
  from chunks_within_limits [OF this cks(1)] have "distinct (map ck_id cks)" by (elim conjE)
  then show ?thesis using cks by (intro exI [of _ cks] conjI)
qed

end
