(* ===== verification/SearchStore.thy ===== *)
theory SearchStore
  imports Schema
begin

text \<open>
  The search port of \<open>libs/common/es.py\<close>: cosine similarity in its two branches, the
  in-memory store with its kNN ranking, and the Elasticsearch store over an abstract
  client.  The interface that the retrieval pipeline relies on is the locale
  \<open>vector_store\<close>, interpreted here on the in-memory store.
\<close>

section \<open>Cosine similarity\<close>

text \<open>
  The numpy functions of the first branch; the second branch is plain Python.  \<open>None\<close>
  stands for an environment without numpy.
\<close>

record np_linalg =
  np_norm :: "real list \<Rightarrow> real"
  np_dot :: "real list \<Rightarrow> real list \<Rightarrow> real result"

definition sum_sq :: "real list \<Rightarrow> real" where
  "sum_sq v = sum_list (map (\<lambda>x. x * x) v)"

definition dot_list :: "real list \<Rightarrow> real list \<Rightarrow> real" where
  "dot_list a b = sum_list (map (\<lambda>(x, y). x * y) (zip a b))"

definition strict_zip_error :: "nat \<Rightarrow> nat \<Rightarrow> exn" where
  "strict_zip_error m n = ValueError
     (if n < m then ''zip() argument 2 is shorter than argument 1''
      else ''zip() argument 2 is longer than argument 1'')"

definition cosine_python :: "real list \<Rightarrow> real list \<Rightarrow> real result" where
  "cosine_python a b =
     (if length a \<noteq> length b then Inl (strict_zip_error (length a) (length b))
      else let dot = dot_list a b; norm_a = sqrt (sum_sq a); norm_b = sqrt (sum_sq b)
           in if norm_a = 0 \<or> norm_b = 0 then Inr 0 else Inr (dot / (norm_a * norm_b)))"

definition cosine_numpy :: "np_linalg \<Rightarrow> real list \<Rightarrow> real list \<Rightarrow> real result" where
  "cosine_numpy np a b =
     (let norm_a = np_norm np a; norm_b = np_norm np b in
      if norm_a = 0 \<or> norm_b = 0 then Inr 0
      else bindR (np_dot np a b) (\<lambda>d. Inr (d / (norm_a * norm_b))))"

definition cosine_similarity :: "np_linalg option \<Rightarrow> real list \<Rightarrow> real list \<Rightarrow> real result" where
  "cosine_similarity np a b =
     (case np of Some n \<Rightarrow> cosine_numpy n a b | None \<Rightarrow> cosine_python a b)"

text \<open>What numpy documents of the two functions on vectors.\<close>

definition np_linalg_ok :: "np_linalg \<Rightarrow> bool" where
  "np_linalg_ok np \<longleftrightarrow>
     (\<forall>v. np_norm np v = sqrt (sum_sq v)) \<and>
     (\<forall>a b. if length a = length b then np_dot np a b = Inr (dot_list a b)
            else \<exists>e. np_dot np a b = Inl e)"

definition std_linalg :: np_linalg where
  "std_linalg = \<lparr>np_norm = (\<lambda>v. sqrt (sum_sq v)),
     np_dot = (\<lambda>a b. if length a = length b then Inr (dot_list a b)
                     else Inl (ValueError ''shapes not aligned''))\<rparr>"

lemma std_linalg_ok: "np_linalg_ok std_linalg"
  by (simp add: np_linalg_ok_def std_linalg_def)

section \<open>The port\<close>

record 's search_ops =
  so_ensure :: "string \<Rightarrow> int \<Rightarrow> string \<Rightarrow> ('s, unit) pm"
  so_index :: "string \<Rightarrow> string \<Rightarrow> pydict \<Rightarrow> real list option \<Rightarrow> ('s, unit) pm"
  so_knn :: "string \<Rightarrow> real list \<Rightarrow> int \<Rightarrow> ('s, pydict list) pm"
  so_index_log :: "string \<Rightarrow> pydict \<Rightarrow> ('s, unit) pm"
  so_search :: "string \<Rightarrow> pydict \<Rightarrow> ('s, pydict list) pm"

section \<open>InMemorySearchStore\<close>

record entry =
  en_doc :: pydict
  en_vector :: "real list option"

record inmem_search =
  se_indices :: "(string, (string, entry) dict) dict"
  se_vectors :: "(string, int \<times> string) dict"
  se_logs :: "(string, pydict list) dict"

definition inmem_search_init :: inmem_search where
  "inmem_search_init = \<lparr>se_indices = [], se_vectors = [], se_logs = []\<rparr>"

definition vector_config :: "int \<times> string \<Rightarrow> pyval" where
  "vector_config c = PDict [(''dimensions'', PInt (fst c)), (''similarity'', PStr (snd c))]"

definition configured_text :: "pylib \<Rightarrow> string \<Rightarrow> int \<times> string \<Rightarrow> int \<times> string \<Rightarrow> string" where
  "configured_text lib index existing expected =
     ''Vector index '' @ repr_of lib (PStr index) @ '' already configured as ''
       @ repr_of lib (vector_config existing) @ '', expected '' @ repr_of lib (vector_config expected)"

definition im_ensure :: "pylib \<Rightarrow> string \<Rightarrow> int \<Rightarrow> string \<Rightarrow> (inmem_search, unit) pm" where
  "im_ensure lib index dimensions similarity =
     (\<lambda>st. if dimensions \<le> 0 then (Inl (ValueError ''vector dimensions must be positive''), st)
           else let expected = (dimensions, similarity) in
             case map_of (se_vectors st) index of
               Some existing \<Rightarrow>
                 if existing \<noteq> expected
                 then (Inl (ValueError (configured_text lib index existing expected)), st)
                 else (Inr (), st\<lparr>se_vectors := dict_set (se_vectors st) index expected\<rparr>)
             | None \<Rightarrow> (Inr (), st\<lparr>se_vectors := dict_set (se_vectors st) index expected\<rparr>))"

definition dimension_text :: "pylib \<Rightarrow> string \<Rightarrow> nat \<Rightarrow> int \<Rightarrow> string" where
  "dimension_text lib index n expected =
     ''Vector for index '' @ repr_of lib (PStr index) @ '' has '' @ int_str (int n)
       @ '' dimensions, expected '' @ int_str expected"

definition validate_vector :: "pylib \<Rightarrow> inmem_search \<Rightarrow> string \<Rightarrow> real list \<Rightarrow> unit result" where
  "validate_vector lib st index vector =
     (case map_of (se_vectors st) index of
        None \<Rightarrow> Inr ()
      | Some config \<Rightarrow>
          if int (length vector) \<noteq> fst config
          then Inl (ValueError (dimension_text lib index (length vector) (fst config)))
          else Inr ())"

definition store_of :: "inmem_search \<Rightarrow> string \<Rightarrow> (string, entry) dict" where
  "store_of st index = (case map_of (se_indices st) index of None \<Rightarrow> [] | Some d \<Rightarrow> d)"

definition put_entry :: "string \<Rightarrow> string \<Rightarrow> entry \<Rightarrow> inmem_search \<Rightarrow> inmem_search" where
  "put_entry index doc_id en st =
     st\<lparr>se_indices := dict_set (se_indices st) index (dict_set (store_of st index) doc_id en)\<rparr>"

definition im_index ::
  "pylib \<Rightarrow> string \<Rightarrow> string \<Rightarrow> pydict \<Rightarrow> real list option \<Rightarrow> (inmem_search, unit) pm" where
  "im_index lib index doc_id doc vector =
     (\<lambda>st. case (case vector of None \<Rightarrow> Inr () | Some v \<Rightarrow> validate_vector lib st index v) of
             Inl e \<Rightarrow> (Inl e, st)
           | Inr _ \<Rightarrow> (Inr (), put_entry index doc_id \<lparr>en_doc = doc, en_vector = vector\<rparr> st))"

text \<open>The documents that carry a vector, scored in insertion order.\<close>

fun score_entries ::
  "np_linalg option \<Rightarrow> real list \<Rightarrow> (string, entry) dict \<Rightarrow> (real \<times> string \<times> pydict) list result" where
  "score_entries np q [] = Inr []"
| "score_entries np q ((doc_id, en) # rest) =
     (case en_vector en of
        None \<Rightarrow> score_entries np q rest
      | Some vec \<Rightarrow>
          bindR (cosine_similarity np q vec) (\<lambda>score.
          bindR (score_entries np q rest) (\<lambda>scored. Inr ((score, doc_id, en_doc en) # scored))))"

definition result_row :: "real \<times> string \<times> pydict \<Rightarrow> pydict" where
  "result_row t = (case t of (score, doc_id, doc) \<Rightarrow>
     dict_set (dict_set doc ''_score'' (PFloat score)) ''_id'' (PStr doc_id))"

text \<open>\<open>list.sort(key=score, reverse=True)\<close> keeps the order of equal scores.\<close>

definition by_score :: "(real \<times> string \<times> pydict) list \<Rightarrow> (real \<times> string \<times> pydict) list" where
  "by_score scored = sort_key (\<lambda>t. - fst t) scored"

definition im_knn ::
  "pylib \<Rightarrow> np_linalg option \<Rightarrow> string \<Rightarrow> real list \<Rightarrow> int \<Rightarrow> (inmem_search, pydict list) pm" where
  "im_knn lib np index query k =
     (\<lambda>st. (bindR (validate_vector lib st index query) (\<lambda>_.
            bindR (score_entries np query (store_of st index)) (\<lambda>scored.
              Inr (map result_row (slice_first k (by_score scored))))), st))"

definition im_record_log :: "string \<Rightarrow> pydict \<Rightarrow> inmem_search \<Rightarrow> inmem_search" where
  "im_record_log index line st =
     st\<lparr>se_logs := dict_set (se_logs st) index
          ((case map_of (se_logs st) index of None \<Rightarrow> [] | Some l \<Rightarrow> l) @ [line])\<rparr>"

definition im_logs :: "string \<Rightarrow> inmem_search \<Rightarrow> pydict list" where
  "im_logs index st = (case map_of (se_logs st) index of None \<Rightarrow> [] | Some l \<Rightarrow> l)"

definition im_index_log :: "string \<Rightarrow> pydict \<Rightarrow> (inmem_search, unit) pm" where
  "im_index_log index line = modifyM (im_record_log index line)"

definition im_search :: "string \<Rightarrow> pydict \<Rightarrow> (inmem_search, pydict list) pm" where
  "im_search index query =
     getM (\<lambda>st. map (\<lambda>(doc_id, en). dict_set (en_doc en) ''_id'' (PStr doc_id)) (store_of st index))"

definition inmem_search_ops :: "pylib \<Rightarrow> np_linalg option \<Rightarrow> inmem_search search_ops" where
  "inmem_search_ops lib np =
     \<lparr>so_ensure = im_ensure lib, so_index = im_index lib, so_knn = im_knn lib np,
      so_index_log = im_index_log, so_search = im_search\<rparr>"

section \<open>ElasticsearchStore\<close>

text \<open>
  The calls of \<open>elasticsearch.AsyncElasticsearch\<close> the store makes, over the state of the
  cluster; their results are JSON values.
\<close>

record 's es_client =
  es_exists :: "string \<Rightarrow> ('s, bool) pm"
  es_create :: "string \<Rightarrow> pyval \<Rightarrow> ('s, unit) pm"
  es_get_mapping :: "string \<Rightarrow> ('s, pydict) pm"
  es_index :: "string \<Rightarrow> string option \<Rightarrow> pydict \<Rightarrow> ('s, unit) pm"
  es_knn :: "string \<Rightarrow> pyval \<Rightarrow> int \<Rightarrow> ('s, (pydict \<times> pyval \<times> pyval) list) pm"
  es_query :: "string \<Rightarrow> pydict \<Rightarrow> ('s, (pydict \<times> pyval \<times> pyval) list) pm"

text \<open>A hit is its \<open>_source\<close>, \<open>_score\<close> and \<open>_id\<close>.  \<open>(v or {}).get(k)\<close> on a JSON value.\<close>

definition sub_dict :: "pyval \<Rightarrow> string \<Rightarrow> pyval" where
  "sub_dict v k = (case v of PDict d \<Rightarrow> dget d k | _ \<Rightarrow> PNone)"

definition embedding_mapping :: "int \<Rightarrow> string \<Rightarrow> pyval" where
  "embedding_mapping dimensions similarity =
     PDict [(''properties'', PDict [(''embedding'', PDict
       [(''type'', PStr ''dense_vector''), (''dims'', PInt dimensions), (''index'', PBool True),
        (''similarity'', PStr similarity)])])]"

definition index_mapping :: "pydict \<Rightarrow> string \<Rightarrow> pyval" where
  "index_mapping mapping index =
     (let m = dget mapping index in
      if m = PNone \<and> mapping \<noteq> [] then snd (hd mapping) else m)"

definition mapped_embedding :: "pydict \<Rightarrow> string \<Rightarrow> pyval" where
  "mapped_embedding mapping index =
     sub_dict (sub_dict (sub_dict (index_mapping mapping index) ''mappings'') ''properties'') ''embedding''"

text \<open>\<open>int(embedding.get("dims", 0))\<close>; the mapping API returns an integer.\<close>

definition mapped_dims :: "pyval \<Rightarrow> int" where
  "mapped_dims embedding = (case sub_dict embedding ''dims'' of PInt n \<Rightarrow> n | _ \<Rightarrow> 0)"

definition mapped_similarity :: "pyval \<Rightarrow> string \<Rightarrow> pyval" where
  "mapped_similarity embedding similarity =
     (case embedding of PDict d \<Rightarrow> dget_or d ''similarity'' (PStr similarity) | _ \<Rightarrow> PStr similarity)"

definition mapping_text :: "pylib \<Rightarrow> string \<Rightarrow> int \<Rightarrow> string \<Rightarrow> pyval \<Rightarrow> string" where
  "mapping_text lib index dimensions similarity embedding =
     ''Elasticsearch index '' @ repr_of lib (PStr index) @ '' must define embedding dense_vector with ''
       @ int_str dimensions @ '' '' @ similarity @ '' dimensions; found ''
       @ py_str lib (sub_dict embedding ''type'') @ '' with '' @ int_str (mapped_dims embedding) @ '' ''
       @ py_str lib (mapped_similarity embedding similarity) @ '' dimensions''"

definition el_check_mapping :: "pylib \<Rightarrow> string \<Rightarrow> int \<Rightarrow> string \<Rightarrow> pydict \<Rightarrow> unit result" where
  "el_check_mapping lib index dimensions similarity mapping =
     (let embedding = mapped_embedding mapping index in
      if sub_dict embedding ''type'' \<noteq> PStr ''dense_vector'' \<or> mapped_dims embedding \<noteq> dimensions
         \<or> mapped_similarity embedding similarity \<noteq> PStr similarity
      then Inl (ValueError (mapping_text lib index dimensions similarity embedding)) else Inr ())"

definition el_ensure :: "pylib \<Rightarrow> 's es_client \<Rightarrow> string \<Rightarrow> int \<Rightarrow> string \<Rightarrow> ('s, unit) pm" where
  "el_ensure lib es index dimensions similarity =
     (if dimensions \<le> 0 then raiseM (ValueError ''vector dimensions must be positive'')
      else bindM (es_exists es index) (\<lambda>found.
        if \<not> found then es_create es index (embedding_mapping dimensions similarity)
        else bindM (es_get_mapping es index) (\<lambda>mapping.
               liftR (el_check_mapping lib index dimensions similarity mapping))))"

definition el_index ::
  "'s es_client \<Rightarrow> string \<Rightarrow> string \<Rightarrow> pydict \<Rightarrow> real list option \<Rightarrow> ('s, unit) pm" where
  "el_index es index doc_id doc vector =
     es_index es index (Some doc_id)
       (case vector of None \<Rightarrow> doc | Some v \<Rightarrow> dict_set doc ''embedding'' (PList (map PFloat v)))"

definition knn_query :: "real list \<Rightarrow> int \<Rightarrow> pyval" where
  "knn_query query k = PDict
     [(''field'', PStr ''embedding''), (''query_vector'', PList (map PFloat query)), (''k'', PInt k),
      (''num_candidates'', PInt (k * 10))]"

definition el_knn :: "'s es_client \<Rightarrow> string \<Rightarrow> real list \<Rightarrow> int \<Rightarrow> ('s, pydict list) pm" where
  "el_knn es index query k =
     bindM (es_knn es index (knn_query query k) k) (\<lambda>hits.
       returnM (map (\<lambda>(source, score, hit_id). dict_set (dict_set source ''_score'' score) ''_id'' hit_id) hits))"

definition el_index_log :: "'s es_client \<Rightarrow> string \<Rightarrow> pydict \<Rightarrow> ('s, unit) pm" where
  "el_index_log es index line = es_index es index None line"

definition el_search :: "'s es_client \<Rightarrow> string \<Rightarrow> pydict \<Rightarrow> ('s, pydict list) pm" where
  "el_search es index query =
     bindM (es_query es index query) (\<lambda>hits.
       returnM (map (\<lambda>(source, score, hit_id). dict_set (dict_set source ''_id'' hit_id) ''_score'' score) hits))"

definition es_search_ops :: "pylib \<Rightarrow> 's es_client \<Rightarrow> 's search_ops" where
  "es_search_ops lib es =
     \<lparr>so_ensure = el_ensure lib es, so_index = el_index es, so_knn = el_knn es,
      so_index_log = el_index_log es, so_search = el_search es\<rparr>"

end
