(* ===== verification/SearchProps.thy ===== *)
theory SearchProps
  imports SearchStore
begin

text \<open>
  What the search port promises: the two branches of the similarity agree, a score lies
  between -1 and 1, the ranking returns the best scored documents, vectors of the wrong
  dimension are refused, and the contract \<open>vector_store\<close> that the retrieval pipeline
  uses.
\<close>

lemma list_all2_source: "list_all2 P xs ys \<Longrightarrow> y \<in> set ys \<Longrightarrow> \<exists>x\<in>set xs. P x y"
  by (induction rule: list_all2_induct) auto

lemma list_all2_target: "list_all2 P xs ys \<Longrightarrow> x \<in> set xs \<Longrightarrow> \<exists>y\<in>set ys. P x y"
  by (induction rule: list_all2_induct) auto

section \<open>Cosine similarity\<close>

lemma sum_sq_nonneg: "0 \<le> sum_sq v"
  by (induction v) (auto simp: sum_sq_def)

lemma sum_sq_Cons [simp]: "sum_sq (x # v) = x * x + sum_sq v" "sum_sq [] = 0"
  by (simp_all add: sum_sq_def)

lemma dot_list_Cons [simp]: "dot_list (x # a) (y # b) = x * y + dot_list a b" "dot_list [] b = 0"
  by (simp_all add: dot_list_def)

lemma cauchy_step:
  assumes "(d::real) * d \<le> A * B" "0 \<le> A" "0 \<le> B"
  shows "(x * y + d) * (x * y + d) \<le> (x * x + A) * (y * y + B)"
proof -
  define p where "p = x * sqrt B" define q where "q = y * sqrt A"
  have p: "p * p = x * x * B" and q: "q * q = y * y * A"
    using assms(2,3) by (simp_all add: p_def q_def algebra_simps)
  have "\<bar>d\<bar> \<le> sqrt (A * B)"
    by (rule real_le_rsqrt) (simp add: assms(1) power2_eq_square)
  then have "\<bar>x * y\<bar> * \<bar>d\<bar> \<le> \<bar>x * y\<bar> * sqrt (A * B)" by (intro mult_left_mono) simp_all
  moreover have "\<bar>p\<bar> * \<bar>q\<bar> = \<bar>x * y\<bar> * sqrt (A * B)"
    using assms(2,3) by (simp add: p_def q_def abs_mult real_sqrt_mult)
  moreover have "x * y * d \<le> \<bar>x * y\<bar> * \<bar>d\<bar>" by (metis abs_ge_self abs_mult)
  ultimately have "x * y * d \<le> \<bar>p\<bar> * \<bar>q\<bar>" by linarith
  moreover have "2 * (\<bar>p\<bar> * \<bar>q\<bar>) \<le> p * p + q * q"
    using sum_squares_bound [of "\<bar>p\<bar>" "\<bar>q\<bar>"] by (simp add: power2_eq_square)
  ultimately have "2 * (x * y * d) \<le> x * x * B + y * y * A" by (simp add: p q)
  then show ?thesis using assms(1) by (simp add: algebra_simps)
qed

lemma cauchy_schwarz: "length a = length b \<Longrightarrow> dot_list a b * dot_list a b \<le> sum_sq a * sum_sq b"
  by (induction a b rule: list_induct2) (auto intro: cauchy_step sum_sq_nonneg)

lemma dot_self: "dot_list v v = sum_sq v"
  by (induction v) auto

lemma cosine_python_ok:
  "length a = length b \<Longrightarrow> \<exists>c. cosine_python a b = Inr c \<and> -1 \<le> c \<and> c \<le> 1"
proof -
  assume len: "length a = length b"
  let ?n = "sqrt (sum_sq a) * sqrt (sum_sq b)"
  have n: "?n = sqrt (sum_sq a * sum_sq b)" by (simp add: real_sqrt_mult)
  have "\<bar>dot_list a b\<bar> \<le> ?n"
    unfolding n by (rule real_le_rsqrt) (simp add: cauchy_schwarz [OF len] power2_eq_square)
  moreover have "0 \<le> ?n" by (simp add: sum_sq_nonneg)
  ultimately have "?n \<noteq> 0 \<Longrightarrow> -1 \<le> dot_list a b / ?n \<and> dot_list a b / ?n \<le> 1"
    by (auto simp: divide_le_eq le_divide_eq abs_le_iff)
  then show ?thesis
    using len by (cases "?n = 0") (auto simp: cosine_python_def Let_def)
qed

lemma cosine_branch_eq:
  assumes "np_linalg_ok np" "length a = length b"
  shows "cosine_numpy np a b = cosine_python a b"
  using assms by (simp add: np_linalg_ok_def cosine_numpy_def cosine_python_def Let_def)

definition np_ok :: "np_linalg option \<Rightarrow> bool" where
  "np_ok np \<longleftrightarrow> (case np of None \<Rightarrow> True | Some n \<Rightarrow> np_linalg_ok n)"

lemma cosine_ok:
  assumes "np_ok np" "length a = length b"
  shows "\<exists>c. cosine_similarity np a b = Inr c \<and> -1 \<le> c \<and> c \<le> 1"
  using cosine_python_ok [OF assms(2)] cosine_branch_eq [OF _ assms(2)] assms(1)
  by (auto simp: cosine_similarity_def np_ok_def split: option.split)

lemma cosine_self:
  assumes "np_ok np" "sum_sq v \<noteq> 0"
  shows "cosine_similarity np v v = Inr 1"
proof -
  have "cosine_python v v = Inr 1"
    using assms(2) sum_sq_nonneg [of v] by (simp add: cosine_python_def Let_def dot_self)
  then show ?thesis using assms(1) cosine_branch_eq [of _ v v]
    by (auto simp: cosine_similarity_def np_ok_def split: option.split)
qed

text \<open>
  the numpy and the plain branch of \<open>_cosine_similarity\<close> agree on vectors of one
  length, where the value lies between -1 and 1; on different lengths both raise when
  neither vector is zero.
\<close>

theorem cosine_branches_agree:
  assumes "np_linalg_ok np"
  shows "(length a = length b \<longrightarrow>
            (\<exists>c. cosine_similarity (Some np) a b = Inr c \<and> cosine_similarity None a b = Inr c \<and> -1 \<le> c \<and> c \<le> 1))
       \<and> (length a \<noteq> length b \<and> sum_sq a \<noteq> 0 \<and> sum_sq b \<noteq> 0 \<longrightarrow>
            (\<exists>e. cosine_similarity (Some np) a b = Inl e) \<and> (\<exists>e. cosine_similarity None a b = Inl e))"
proof (intro conjI impI)
  assume len: "length a = length b"
  show "\<exists>c. cosine_similarity (Some np) a b = Inr c \<and> cosine_similarity None a b = Inr c \<and> -1 \<le> c \<and> c \<le> 1"
    using cosine_python_ok [OF len] cosine_branch_eq [OF assms len] by (simp add: cosine_similarity_def)
next
  assume ne: "length a \<noteq> length b \<and> sum_sq a \<noteq> 0 \<and> sum_sq b \<noteq> 0"
  have "\<forall>a b. if length a = length b then np_dot np a b = Inr (dot_list a b) else \<exists>e. np_dot np a b = Inl e"
    using assms unfolding np_linalg_ok_def by (elim conjE)
  with ne obtain e where "np_dot np a b = Inl e" by metis
  then show "\<exists>e. cosine_similarity (Some np) a b = Inl e"
    using assms ne by (auto simp: cosine_similarity_def cosine_numpy_def np_linalg_ok_def Let_def)
  show "\<exists>e. cosine_similarity None a b = Inl e"
    using ne by (simp add: cosine_similarity_def cosine_python_def)
qed

theorem cosine_branches_agree_witness:
  "\<exists>c. cosine_similarity (Some std_linalg) [3, 4] [1, 0] = Inr c \<and> cosine_similarity None [3, 4] [1, 0] = Inr c"
  using cosine_branches_agree [OF std_linalg_ok, of "[3, 4]" "[1, 0]"] by auto

text \<open>
  The comment on the plain branch asks that both branches agree on mismatched lengths; a
  zero vector of another length is where they do not.
\<close>

lemma cosine_zero_mismatch:
  "cosine_similarity (Some std_linalg) [0] [1, 2] = Inr 0"
  "cosine_similarity None [0] [1, 2] = Inl (strict_zip_error 1 2)"
  by (simp_all add: cosine_similarity_def cosine_numpy_def cosine_python_def std_linalg_def Let_def numeral_2_eq_2)

section \<open>Ranking\<close>

definition vectors_of :: "(string, entry) dict \<Rightarrow> (string \<times> pydict \<times> real list) list" where
  "vectors_of d = map (\<lambda>(i, en). (i, en_doc en, the (en_vector en))) (filter (\<lambda>(i, en). en_vector en \<noteq> None) d)"

lemma score_entries_Inr:
  "score_entries np q d = Inr scored \<Longrightarrow>
     list_all2 (\<lambda>(i, doc, v) (sc, i', doc'). i' = i \<and> doc' = doc \<and> cosine_similarity np q v = Inr sc)
       (vectors_of d) scored"
proof (induction np q d arbitrary: scored rule: score_entries.induct)
  case (2 np q i en rest)
  then show ?case
    by (cases "en_vector en") (auto simp: vectors_of_def bindR_Inr_iff)
qed (simp add: vectors_of_def)

lemma score_entries_total:
  "np_ok np \<Longrightarrow> \<forall>(i, doc, v) \<in> set (vectors_of d). length q = length v \<Longrightarrow> \<exists>scored. score_entries np q d = Inr scored"
proof (induction np q d rule: score_entries.induct)
  case (2 np q i en rest)
  show ?case
  proof (cases "en_vector en")
    case None
    then show ?thesis using 2 by (simp add: vectors_of_def)
  next
    case (Some v)
    then have "\<exists>scored. score_entries np q rest = Inr scored"
      using 2 by (cases "cosine_similarity np q v") (auto simp: vectors_of_def dest: cosine_ok)
    moreover have "\<exists>c. cosine_similarity np q v = Inr c"
      using cosine_ok [OF 2(3), of q v] 2(4) Some by (auto simp: vectors_of_def)
    ultimately show ?thesis using Some by auto
  qed
qed simp

text \<open>
  The dimension discipline: in a configured index every stored vector has the configured
  length.
\<close>

definition dims_ok :: "inmem_search \<Rightarrow> string \<Rightarrow> bool" where
  "dims_ok st index \<longleftrightarrow>
     (\<exists>c. map_of (se_vectors st) index = Some c \<and>
          (\<forall>(i, doc, v) \<in> set (vectors_of (store_of st index)). int (length v) = fst c))"

definition score_of :: "pydict \<Rightarrow> real" where
  "score_of row = (case dget row ''_score'' of PFloat x \<Rightarrow> x | _ \<Rightarrow> 0)"

lemma result_row_sel [simp]:
  "score_of (result_row (sc, i, doc)) = sc" "dget (result_row (sc, i, doc)) ''_id'' = PStr i"
  by (simp_all add: result_row_def score_of_def)

lemma dims_lengths:
  "dims_ok st index \<Longrightarrow> map_of (se_vectors st) index = Some c \<Longrightarrow> int (length q) = fst c \<Longrightarrow>
     \<forall>(i, doc, v) \<in> set (vectors_of (store_of st index)). length q = length v"
  by (fastforce simp: dims_ok_def)

lemma by_score_sorted: "sorted_wrt (\<lambda>t t'. fst t' \<le> fst t) (by_score scored)"
proof -
  have "sorted (map (\<lambda>t. - fst t) (by_score scored))" by (simp add: by_score_def)
  then show ?thesis by (simp add: sorted_map)
qed

lemma set_by_score [simp]: "set (by_score scored) = set scored" "length (by_score scored) = length scored"
  by (simp_all add: by_score_def)

lemma im_knn_shape:
  assumes "np_ok np" "dims_ok st index" "map_of (se_vectors st) index = Some c" "int (length q) = fst c"
  obtains scored where "im_knn lib np index q k st = (Inr (map result_row (slice_first k (by_score scored))), st)"
    "list_all2 (\<lambda>(i, doc, v) (sc, i', doc'). i' = i \<and> doc' = doc \<and> cosine_similarity np q v = Inr sc)
       (vectors_of (store_of st index)) scored"
proof -
  obtain scored where sc: "score_entries np q (store_of st index) = Inr scored"
    using score_entries_total [OF assms(1) dims_lengths [OF assms(2-4)]] by blast
  have "validate_vector lib st index q = Inr ()" using assms(3,4) by (simp add: validate_vector_def)
  then have "im_knn lib np index q k st = (Inr (map result_row (slice_first k (by_score scored))), st)"
    by (simp add: im_knn_def sc)
  with score_entries_Inr [OF sc] show thesis using that by blast
qed

text \<open>
  C24: kNN search is exact: in an index whose vectors have the configured dimension, a
  query of that dimension never raises, returns as many documents as there are (at most
  \<open>k\<close>) in descending order of cosine similarity, each a stored document with its score and
  identifier, and a document it leaves out scores no higher than any it returns.
\<close>

theorem knn_ranked:
  assumes "np_ok np" "dims_ok st index" "map_of (se_vectors st) index = Some c" "int (length q) = fst c" "0 \<le> k"
  shows "\<exists>rows. im_knn lib np index q k st = (Inr rows, st)
    \<and> length rows = min (nat k) (length (vectors_of (store_of st index)))
    \<and> sorted_wrt (\<lambda>r r'. score_of r' \<le> score_of r) rows
    \<and> (\<forall>row\<in>set rows. \<exists>i doc v. (i, doc, v) \<in> set (vectors_of (store_of st index))
          \<and> row = dict_set (dict_set doc ''_score'' (PFloat (score_of row))) ''_id'' (PStr i)
          \<and> cosine_similarity np q v = Inr (score_of row))
    \<and> (\<forall>(i, doc, v)\<in>set (vectors_of (store_of st index)).
          (\<exists>row\<in>set rows. dget row ''_id'' = PStr i)
          \<or> (\<forall>row\<in>set rows. \<exists>s. cosine_similarity np q v = Inr s \<and> s \<le> score_of row))"
proof -
  obtain scored where knn: "im_knn lib np index q k st = (Inr (map result_row (slice_first k (by_score scored))), st)"
    and sc: "list_all2 (\<lambda>(i, doc, v) (sc, i', doc'). i' = i \<and> doc' = doc \<and> cosine_similarity np q v = Inr sc)
       (vectors_of (store_of st index)) scored"
    using assms(1-4) by (rule im_knn_shape)
  let ?top = "take (nat k) (by_score scored)"
  have top: "slice_first k (by_score scored) = ?top" using assms(5) by (simp add: slice_first_def)
  have src: "\<exists>i doc v. (i, doc, v) \<in> set (vectors_of (store_of st index)) \<and> t = (fst t, i, doc)
      \<and> cosine_similarity np q v = Inr (fst t)" if "t \<in> set scored" for t
    using list_all2_source [OF sc that] by (cases t) auto
  have img: "\<exists>s. (s, i, doc) \<in> set scored \<and> cosine_similarity np q v = Inr s"
    if "(i, doc, v) \<in> set (vectors_of (store_of st index))" for i doc v
    using list_all2_target [OF sc that] by auto
  have sorted: "sorted_wrt (\<lambda>t t'. fst t' \<le> fst t) (?top @ drop (nat k) (by_score scored))"
    using by_score_sorted by simp
  have lower: "s \<le> fst t" if "(s, i, doc) \<in> set scored" "(s, i, doc) \<notin> set ?top" "t \<in> set ?top" for s i doc t
  proof -
    have "(s, i, doc) \<in> set (drop (nat k) (by_score scored))"
      using that(1,2) by (metis append_take_drop_id set_by_score(1) Un_iff set_append)
    with sorted that(3) show ?thesis unfolding sorted_wrt_append by force
  qed
  have score: "score_of (result_row t) = fst t" for t by (cases t) simp
  let ?rows = "map result_row ?top"
  have "length ?rows = min (nat k) (length (vectors_of (store_of st index)))"
    using list_all2_lengthD [OF sc] by simp
  moreover have "sorted_wrt (\<lambda>r r'. score_of r' \<le> score_of r) ?rows"
    using sorted unfolding sorted_wrt_append by (simp add: sorted_wrt_map score)
  moreover have "\<forall>row\<in>set ?rows. \<exists>i doc v. (i, doc, v) \<in> set (vectors_of (store_of st index))
          \<and> row = dict_set (dict_set doc ''_score'' (PFloat (score_of row))) ''_id'' (PStr i)
          \<and> cosine_similarity np q v = Inr (score_of row)"
  proof
    fix row assume "row \<in> set ?rows"
    then obtain sc' i doc where t: "(sc', i, doc) \<in> set scored" "row = result_row (sc', i, doc)"
      using set_take_subset [of "nat k" "by_score scored"] by auto
    then obtain v where v: "(i, doc, v) \<in> set (vectors_of (store_of st index))"
      "cosine_similarity np q v = Inr sc'" using src [OF t(1)] by auto
    moreover have "score_of row = sc'" using t(2) by simp
    moreover have "row = dict_set (dict_set doc ''_score'' (PFloat sc')) ''_id'' (PStr i)"
      unfolding t(2) by (simp add: result_row_def)
    ultimately show "\<exists>i doc v. (i, doc, v) \<in> set (vectors_of (store_of st index))
          \<and> row = dict_set (dict_set doc ''_score'' (PFloat (score_of row))) ''_id'' (PStr i)
          \<and> cosine_similarity np q v = Inr (score_of row)"
      by blast
  qed
  moreover have "\<forall>(i, doc, v)\<in>set (vectors_of (store_of st index)).
          (\<exists>row\<in>set ?rows. dget row ''_id'' = PStr i)
          \<or> (\<forall>row\<in>set ?rows. \<exists>s. cosine_similarity np q v = Inr s \<and> s \<le> score_of row)"
  proof (clarify)
    fix i doc v row
    assume v: "(i, doc, v) \<in> set (vectors_of (store_of st index))"
      and no: "\<not> (\<exists>row\<in>set ?rows. dget row ''_id'' = PStr i)" and row: "row \<in> set ?rows"
    obtain s where s: "(s, i, doc) \<in> set scored" "cosine_similarity np q v = Inr s" using img [OF v] by blast
    have "(s, i, doc) \<notin> set ?top"
    proof
      assume "(s, i, doc) \<in> set ?top"
      then have "result_row (s, i, doc) \<in> set ?rows" by simp
      moreover have "dget (result_row (s, i, doc)) ''_id'' = PStr i" by simp
      ultimately show False using no by blast
    qed
    moreover obtain t where "t \<in> set ?top" "row = result_row t" using row by auto
    ultimately show "\<exists>s. cosine_similarity np q v = Inr s \<and> s \<le> score_of row"
      using lower [OF s(1)] s(2) score by metis
  qed
  ultimately show ?thesis using knn top by (intro exI [of _ ?rows]) simp
qed

definition example_search :: inmem_search where
  "example_search =
     put_entry ''i'' ''b'' \<lparr>en_doc = [], en_vector = Some [0, 2]\<rparr>
       (put_entry ''i'' ''a'' \<lparr>en_doc = [], en_vector = Some [3, 4]\<rparr>
         (inmem_search_init\<lparr>se_vectors := [(''i'', 2, ''cosine'')]\<rparr>))"

theorem knn_ranked_witness:
  "\<exists>rows. im_knn null_lib None ''i'' [1, 0] 1 example_search = (Inr rows, example_search) \<and> length rows = 1"
proof -
  have vec: "map_of (se_vectors example_search) ''i'' = Some (2, ''cosine'')"
    by (simp add: example_search_def put_entry_def)
  have store: "vectors_of (store_of example_search ''i'') = [(''a'', [], [3, 4]), (''b'', [], [0, 2])]"
    by (simp add: example_search_def put_entry_def store_of_def inmem_search_init_def vectors_of_def)
  have dims: "dims_ok example_search ''i''" by (simp add: dims_ok_def vec store)
  have np: "np_ok None" by (simp add: np_ok_def)
  have len: "int (length [1, 0 :: real]) = fst (2 :: int, ''cosine'')" by simp
  from knn_ranked [OF np dims vec len, of 1 null_lib] show ?thesis
    unfolding store by force
qed

section \<open>The dimension discipline\<close>

lemma store_of_put: "store_of (put_entry index i en st) index' =
    (if index' = index then dict_set (store_of st index) i en else store_of st index')"
  by (simp add: put_entry_def store_of_def)

lemma se_vectors_put [simp]: "se_vectors (put_entry index i en st) = se_vectors st"
  by (simp add: put_entry_def)

lemma in_vectors_of: "(i, doc, v) \<in> set (vectors_of d) \<longleftrightarrow>
    (\<exists>en. (i, en) \<in> set d \<and> en_vector en = Some v \<and> doc = en_doc en)"
  by (force simp: vectors_of_def)

lemma set_dict_set: "set (dict_set d k v) \<subseteq> insert (k, v) (set d)"
  by (induction d k v rule: dict_set.induct) auto

lemma vectors_of_set:
  "(j, doc, v) \<in> set (vectors_of (dict_set d i en)) \<Longrightarrow>
     (j, doc, v) \<in> set (vectors_of d) \<or> (en_vector en = Some v \<and> j = i \<and> doc = en_doc en)"
  using set_dict_set [of d i en] by (auto simp: in_vectors_of)

lemma dims_ok_index: "dims_ok st index \<Longrightarrow> dims_ok (snd (im_index lib index' i doc v st)) index"
proof -
  assume ok: "dims_ok st index"
  show ?thesis
  proof (cases "case v of None \<Rightarrow> Inr () | Some w \<Rightarrow> validate_vector lib st index' w")
    case (Inl e)
    then show ?thesis using ok by (simp add: im_index_def)
  next
    case (Inr u)
    then show ?thesis
      using ok by (cases v)
        (fastforce simp: im_index_def dims_ok_def store_of_put validate_vector_def split: if_splits
          dest!: vectors_of_set)+
  qed
qed

lemma dims_ok_ensure: "dims_ok st index \<Longrightarrow> dims_ok (snd (im_ensure lib index' n sim st)) index"
  by (auto simp: im_ensure_def dims_ok_def store_of_def Let_def split: option.split)

section \<open>The contract of the port\<close>

definition documents :: "inmem_search \<Rightarrow> string \<Rightarrow> string \<Rightarrow> pydict option" where
  "documents st index i = map_option en_doc (map_of (store_of st index) i)"

locale vector_store =
  fixes sops :: "'s search_ops"
    and docs :: "'s \<Rightarrow> string \<Rightarrow> string \<Rightarrow> pydict option"
    and sinv :: "'s \<Rightarrow> bool"
  assumes ensure_keeps: "docs (snd (so_ensure sops index n sim s)) = docs s"
    and index_done: "fst (so_index sops index i doc v s) = Inr () \<Longrightarrow>
      docs (snd (so_index sops index i doc v s)) = (docs s)(index := (docs s index)(i \<mapsto> doc))"
    and index_refused: "fst (so_index sops index i doc v s) = Inl e \<Longrightarrow>
      docs (snd (so_index sops index i doc v s)) = docs s"
    and knn_keeps: "docs (snd (so_knn sops index q k s)) = docs s"
    and knn_rows: "sinv s \<Longrightarrow> fst (so_knn sops index q k s) = Inr rows \<Longrightarrow> 0 \<le> k \<Longrightarrow>
      int (length rows) \<le> k \<and>
      (\<forall>row\<in>set rows. \<exists>i doc sc. docs s index i = Some doc \<and>
         row = dict_set (dict_set doc ''_score'' (PFloat sc)) ''_id'' (PStr i))"
    and inv_ensure: "sinv s \<Longrightarrow> sinv (snd (so_ensure sops index n sim s))"
    and inv_index: "sinv s \<Longrightarrow> sinv (snd (so_index sops index i doc v s))"
    and inv_knn: "sinv s \<Longrightarrow> sinv (snd (so_knn sops index q k s))"

text \<open>A store that also promises to accept vectors of the configured dimension.\<close>

locale sized_store = vector_store +
  fixes dims :: "'a \<Rightarrow> string \<Rightarrow> (int \<times> string) option"
  assumes ensure_dims: "0 < n \<Longrightarrow> dims s index = None \<or> dims s index = Some (n, sim) \<Longrightarrow>
      fst (so_ensure sops index n sim s) = Inr () \<and>
      dims (snd (so_ensure sops index n sim s)) = (dims s)(index \<mapsto> (n, sim))"
    and ensure_conflict: "dims s index = Some c \<Longrightarrow> c \<noteq> (n, sim) \<Longrightarrow>
      \<exists>msg. so_ensure sops index n sim s = (Inl (ValueError msg), s)"
    and index_accepts: "dims s index = Some c \<Longrightarrow> int (length v) = fst c \<Longrightarrow>
      fst (so_index sops index i doc (Some v) s) = Inr ()"
    and index_keeps_dims: "dims (snd (so_index sops index i doc w s)) = dims s"

definition vector_configs :: "inmem_search \<Rightarrow> string \<Rightarrow> (int \<times> string) option" where
  "vector_configs st = map_of (se_vectors st)"

definition search_inv :: "inmem_search \<Rightarrow> bool" where
  "search_inv st \<longleftrightarrow> (\<forall>index. dict_ok (store_of st index))"

lemma search_inv_init: "search_inv inmem_search_init"
  by (simp add: search_inv_def store_of_def inmem_search_init_def dict_ok_def)

lemma vectors_of_docs: "dict_ok d \<Longrightarrow> (i, doc, v) \<in> set (vectors_of d) \<Longrightarrow> map_option en_doc (map_of d i) = Some doc"
  by (auto simp: vectors_of_def dict_ok_def)

lemma im_knn_rows:
  assumes inv: "search_inv st" and rows: "fst (im_knn lib np index q k st) = Inr rows" and k: "0 \<le> k"
  shows "int (length rows) \<le> k \<and>
      (\<forall>row\<in>set rows. \<exists>i doc sc. documents st index i = Some doc \<and>
         row = dict_set (dict_set doc ''_score'' (PFloat sc)) ''_id'' (PStr i))"
proof -
  obtain scored where sc: "score_entries np q (store_of st index) = Inr scored"
    and rows': "rows = map result_row (slice_first k (by_score scored))"
    using rows by (auto simp: im_knn_def bindR_Inr_iff)
  have "\<exists>i doc sc. documents st index i = Some doc \<and>
      row = dict_set (dict_set doc ''_score'' (PFloat sc)) ''_id'' (PStr i)" if "row \<in> set rows" for row
  proof -
    have "row \<in> result_row ` set (slice_first k (by_score scored))" using that rows' by simp
    then obtain t where t: "t \<in> set scored" "row = result_row t"
      using set_slice_first [of k "by_score scored"] unfolding set_by_score by blast
    obtain s i doc where t3: "t = (s, i, doc)" by (cases t)
    then obtain v where "(i, doc, v) \<in> set (vectors_of (store_of st index))"
      using list_all2_source [OF score_entries_Inr [OF sc] t(1)] by auto
    then have "documents st index i = Some doc"
      using inv vectors_of_docs by (auto simp: search_inv_def documents_def)
    then show ?thesis using t(2) t3 by (auto simp: result_row_def)
  qed
  moreover have "int (length rows) \<le> k" using k by (simp add: rows' slice_first_def)
  ultimately show ?thesis by blast
qed

lemma documents_put:
  "documents (put_entry index i en st) =
     (documents st)(index := (documents st index)(i \<mapsto> en_doc en))"
  by (intro ext) (simp add: documents_def store_of_put)

lemma documents_ensure: "documents (snd (im_ensure lib index n sim st)) = documents st"
  by (intro ext) (simp add: im_ensure_def documents_def store_of_def Let_def split: option.split)

lemma search_inv_ensure: "search_inv st \<Longrightarrow> search_inv (snd (im_ensure lib index n sim st))"
  by (simp add: im_ensure_def search_inv_def store_of_def Let_def split: option.split)

lemma im_index_cases:
  "im_index lib index i doc v st = (Inr (), put_entry index i \<lparr>en_doc = doc, en_vector = v\<rparr> st) \<or>
   (\<exists>e. im_index lib index i doc v st = (Inl e, st))"
  by (auto simp: im_index_def split: sum.split)

lemma search_inv_put: "search_inv st \<Longrightarrow> search_inv (put_entry index i en st)"
  by (simp add: search_inv_def store_of_put)

lemma search_inv_index: "search_inv st \<Longrightarrow> search_inv (snd (im_index lib index i doc v st))"
  using im_index_cases [of lib index i doc v st] by (auto simp: search_inv_put)

interpretation im: sized_store "inmem_search_ops lib np" documents search_inv vector_configs
  for lib np
proof (unfold_locales, unfold inmem_search_ops_def search_ops.simps)
  fix st index i doc v
  show "fst (im_index lib index i doc v st) = Inr () \<Longrightarrow>
      documents (snd (im_index lib index i doc v st)) = (documents st)(index := (documents st index)(i \<mapsto> doc))"
    using im_index_cases [of lib index i doc v st] by (auto simp: documents_put)
  show "fst (im_index lib index i doc v st) = Inl e \<Longrightarrow> documents (snd (im_index lib index i doc v st)) = documents st" for e
    using im_index_cases [of lib index i doc v st] by auto
  show "vector_configs (snd (im_index lib index i doc v st)) = vector_configs st"
    using im_index_cases [of lib index i doc v st] by (auto simp: vector_configs_def)
next
  show "documents (snd (im_ensure lib index n sim st)) = documents st" for index n sim st
    by (rule documents_ensure)
next
  show "documents (snd (im_knn lib np index q k st)) = documents st" for index q k st
    by (simp add: im_knn_def)
next
  show "search_inv st \<Longrightarrow> fst (im_knn lib np index q k st) = Inr rows \<Longrightarrow> 0 \<le> k \<Longrightarrow>
      int (length rows) \<le> k \<and> (\<forall>row\<in>set rows. \<exists>i doc sc. documents st index i = Some doc \<and>
         row = dict_set (dict_set doc ''_score'' (PFloat sc)) ''_id'' (PStr i))" for st index q k rows
    by (rule im_knn_rows)
next
  show "search_inv st \<Longrightarrow> search_inv (snd (im_ensure lib index n sim st))" for st index n sim
    by (rule search_inv_ensure)
  show "search_inv st \<Longrightarrow> search_inv (snd (im_index lib index i doc v st))" for st index i doc v
    by (rule search_inv_index)
  show "search_inv st \<Longrightarrow> search_inv (snd (im_knn lib np index q k st))" for st index q k
    by (simp add: im_knn_def)
next
  show "fst (im_ensure lib index n sim st) = Inr () \<and>
      vector_configs (snd (im_ensure lib index n sim st)) = (vector_configs st)(index \<mapsto> (n, sim))"
    if "0 < n" "vector_configs st index = None \<or> vector_configs st index = Some (n, sim)"
    for n st index sim
    using that by (auto simp: im_ensure_def Let_def vector_configs_def)
  show "\<exists>msg. im_ensure lib index n sim st = (Inl (ValueError msg), st)"
    if "vector_configs st index = Some c" "c \<noteq> (n, sim)" for st index c n sim
    using that by (auto simp: im_ensure_def Let_def vector_configs_def)
  show "fst (im_index lib index i doc (Some v) st) = Inr ()"
    if "vector_configs st index = Some c" "int (length v) = fst c" for st index c v i doc
    using that by (auto simp: im_index_def validate_vector_def vector_configs_def split: sum.split)
qed

section \<open>Indexing and refusing\<close>

text \<open>
  indexing is an upsert that keeps the dimension discipline: a vector of the configured
  dimension is accepted, the document is then the only one changed, a search of the index
  returns it under its identifier, and every vector of the index still has the configured
  dimension; a vector of another dimension is refused and nothing changes.
\<close>

theorem index_upserts:
  assumes inv: "search_inv st" and dims: "dims_ok st index" and c: "map_of (se_vectors st) index = Some c"
  shows "(int (length v) = fst c \<longrightarrow>
      fst (im_index lib index i doc (Some v) st) = Inr () \<and>
      documents (snd (im_index lib index i doc (Some v) st)) = (documents st)(index := (documents st index)(i \<mapsto> doc)) \<and>
      (\<exists>rows. fst (im_search index [] (snd (im_index lib index i doc (Some v) st))) = Inr rows
              \<and> dict_set doc ''_id'' (PStr i) \<in> set rows) \<and>
      dims_ok (snd (im_index lib index i doc (Some v) st)) index)
    \<and> (int (length v) \<noteq> fst c \<longrightarrow> (\<exists>msg. im_index lib index i doc (Some v) st = (Inl (ValueError msg), st)))"
proof (intro conjI impI)
  assume len: "int (length v) = fst c"
  note ok = im.index_accepts [OF c [folded vector_configs_def] len, of lib _ i doc, unfolded inmem_search_ops_def search_ops.simps]
  show "fst (im_index lib index i doc (Some v) st) = Inr ()" by (rule ok)
  let ?st = "put_entry index i \<lparr>en_doc = doc, en_vector = Some v\<rparr> st"
  have put: "snd (im_index lib index i doc (Some v) st) = ?st"
    using im_index_cases [of lib index i doc "Some v" st] ok by auto
  show "documents (snd (im_index lib index i doc (Some v) st)) = (documents st)(index := (documents st index)(i \<mapsto> doc))"
    by (simp add: put documents_put)
  have "map_of (store_of ?st index) i = Some \<lparr>en_doc = doc, en_vector = Some v\<rparr>"
    by (simp add: store_of_put)
  from map_of_SomeD [OF this]
  show "\<exists>rows. fst (im_search index [] (snd (im_index lib index i doc (Some v) st))) = Inr rows
              \<and> dict_set doc ''_id'' (PStr i) \<in> set rows"
    by (force simp: put im_search_def getM_def)
  show "dims_ok (snd (im_index lib index i doc (Some v) st)) index" by (rule dims_ok_index [OF dims])
next
  assume "int (length v) \<noteq> fst c"
  then show "\<exists>msg. im_index lib index i doc (Some v) st = (Inl (ValueError msg), st)"
    using c by (simp add: im_index_def validate_vector_def)
qed

theorem index_upserts_witness:
  "fst (im_index null_lib ''i'' ''c'' [] (Some [1, 1]) example_search) = Inr ()
   \<and> (\<exists>msg. im_index null_lib ''i'' ''c'' [] (Some [1]) example_search = (Inl (ValueError msg), example_search))"
proof -
  have vec: "map_of (se_vectors example_search) ''i'' = Some (2, ''cosine'')"
    by (simp add: example_search_def put_entry_def)
  have store: "vectors_of (store_of example_search ''i'') = [(''a'', [], [3, 4]), (''b'', [], [0, 2])]"
    by (simp add: example_search_def put_entry_def store_of_def inmem_search_init_def vectors_of_def)
  have dims: "dims_ok example_search ''i''" by (simp add: dims_ok_def vec store)
  have "search_inv (inmem_search_init\<lparr>se_vectors := [(''i'', 2, ''cosine'')]\<rparr>)"
    by (simp add: search_inv_def store_of_def inmem_search_init_def dict_ok_def)
  then have inv: "search_inv example_search" unfolding example_search_def by (intro search_inv_put)
  show ?thesis
    using index_upserts [OF inv dims vec, of "[1, 1]" null_lib "''c''" "[]"]
      index_upserts [OF inv dims vec, of "[1]" null_lib "''c''" "[]"] by auto
qed

end
