(* ===== verification/Guardrails.thy ===== *)
theory Guardrails
  imports Chunking
begin

text \<open>
  The provider-neutral models of \<open>services/ai/llm/models.py\<close> and the groundedness checks
  of \<open>services/ai/llm/guardrails.py\<close>, with what they promise: no citation that is not in
  the context leaves them, a result is accepted exactly when no reason is recorded, and
  what a second application of them loses.
\<close>

section \<open>Requests and results\<close>

record context_document =
  cd_doc_id :: string
  cd_text :: string
  cd_title :: "string option"
  cd_url :: "string option"
  cd_metadata :: pydict

definition context_citation :: "pylib \<Rightarrow> context_document \<Rightarrow> string" where
  "context_citation lib d = citation_of lib (cd_url d) (cd_metadata d) (cd_doc_id d)"

datatype role = System | User | Assistant

record chat_message =
  ch_role :: role
  ch_content :: string

record generation_request =
  gr_prompt :: string
  gr_system_prompt :: "string option"
  gr_context :: "context_document list"
  gr_messages :: "chat_message list"
  gr_temperature :: real
  gr_max_tokens :: int
  gr_metadata :: pydict

definition generation_request_of :: "string \<Rightarrow> context_document list \<Rightarrow> pydict \<Rightarrow> generation_request" where
  "generation_request_of prompt context metadata =
     \<lparr>gr_prompt = prompt, gr_system_prompt = None, gr_context = context, gr_messages = [],
      gr_temperature = 0, gr_max_tokens = 500, gr_metadata = metadata\<rparr>"

record embedding_request =
  er_texts :: "string list"
  er_dimensions :: int

record embedding_result =
  ev_vectors :: "real list list"
  ev_provider :: string
  ev_model :: string
  ev_dimensions :: int

record generation_result =
  gn_summary :: string
  gn_explanation :: string
  gn_sentiment_score :: real
  gn_sentiment_label :: string
  gn_citations :: "string list"
  gn_confidence :: real
  gn_grounded :: bool
  gn_provider :: string
  gn_model :: string
  gn_raw_text :: string
  gn_metadata :: pydict

record guardrail_report =
  rp_accepted :: bool
  rp_grounded :: bool
  rp_confidence_ok :: bool
  rp_citations_ok :: bool
  rp_overlap_ok :: bool
  rp_refusal_detected :: bool
  rp_empty_output :: bool
  rp_reasons :: "string list"

section \<open>Tokens\<close>

text \<open>
  The maximal runs of the characters of a class, as \<open>re.findall("[...]+", s)\<close> returns
  them (\<open>cur\<close> holds the current run reversed).
\<close>

fun class_runs :: "(char \<Rightarrow> bool) \<Rightarrow> string \<Rightarrow> string \<Rightarrow> string list" where
  "class_runs P cur [] = (if cur = [] then [] else [rev cur])"
| "class_runs P cur (c # cs) =
     (if P c then class_runs P (c # cur) cs
      else (if cur = [] then [] else [rev cur]) @ class_runs P [] cs)"

definition alnum_lower :: "char \<Rightarrow> bool" where
  "alnum_lower c \<longleftrightarrow> chars_between 97 122 c \<or> chars_between 48 57 c"

text \<open>\<open>TOKEN_RE\<close> takes runs of at least four characters; a shorter run has no match.\<close>

definition guard_tokens :: "string \<Rightarrow> string list" where
  "guard_tokens text = filter (\<lambda>t. 4 \<le> length t) (class_runs alnum_lower [] (str_lower text))"

definition or_empty :: "string option \<Rightarrow> string" where
  "or_empty t = (case t of None \<Rightarrow> [] | Some s \<Rightarrow> s)"

definition context_tokens :: "generation_request \<Rightarrow> string list" where
  "context_tokens request =
     concat (map (\<lambda>d. guard_tokens (or_empty (cd_title d)) @ guard_tokens (cd_text d)) (gr_context request))"

definition output_text :: "generation_result \<Rightarrow> string" where
  "output_text r = gn_summary r @ '' '' @ gn_explanation r"

definition output_tokens :: "generation_result \<Rightarrow> string list" where
  "output_tokens r = guard_tokens (output_text r)"

definition REFUSAL_PATTERNS :: "string list" where
  "REFUSAL_PATTERNS =
     [''i can'' @ [CHR 0x27] @ ''t help'', ''i cannot help'',
      ''i don'' @ [CHR 0x27] @ ''t have enough information'', ''i do not have enough information'',
      ''insufficient context'', ''not enough context'']"

section \<open>The checks\<close>

definition overlap_ratio :: "generation_request \<Rightarrow> generation_result \<Rightarrow> real" where
  "overlap_ratio request r =
     real (card (set (context_tokens request) \<inter> set (output_tokens r)))
       / real (max 1 (card (set (output_tokens r))))"

definition allowed_citations :: "pylib \<Rightarrow> generation_request \<Rightarrow> string list" where
  "allowed_citations lib request = map (context_citation lib) (gr_context request)"

definition evaluate_result ::
  "pylib \<Rightarrow> generation_request \<Rightarrow> generation_result \<Rightarrow> real \<Rightarrow> real \<Rightarrow> guardrail_report" where
  "evaluate_result lib request r min_confidence min_overlap_ratio =
     (let text = str_strip (output_text r);
          empty = (text = []);
          refused = (\<exists>pattern \<in> set REFUSAL_PATTERNS. str_contains pattern (str_lower text));
          confident = (min_confidence \<le> gn_confidence r);
          allowed = allowed_citations lib request;
          cited = (gn_citations r \<noteq> [] \<and> list_all (\<lambda>c. c \<in> set allowed) (gn_citations r));
          overlaps = (if gr_context request \<noteq> [] then min_overlap_ratio \<le> overlap_ratio request r else True);
          grounded = (gr_context request \<noteq> [] \<and> cited \<and> overlaps \<and> \<not> refused)
      in \<lparr>rp_accepted = (grounded \<and> confident \<and> \<not> empty), rp_grounded = grounded,
          rp_confidence_ok = confident, rp_citations_ok = cited, rp_overlap_ok = overlaps,
          rp_refusal_detected = refused, rp_empty_output = empty,
          rp_reasons =
            (if empty then [''empty_output''] else []) @
            (if refused then [''refusal_detected''] else []) @
            (if \<not> confident then [''low_confidence''] else []) @
            (if \<not> cited then [''citation_mismatch''] else []) @
            (if \<not> overlaps then [''context_overlap_too_low''] else []) @
            (if gr_context request = [] then [''no_context''] else [])\<rparr>)"

definition apply_guardrails_with ::
  "pylib \<Rightarrow> generation_request \<Rightarrow> generation_result \<Rightarrow> real \<Rightarrow> real \<Rightarrow> generation_result \<times> guardrail_report" where
  "apply_guardrails_with lib request r min_confidence min_overlap_ratio =
     (let report = evaluate_result lib request r min_confidence min_overlap_ratio;
          allowed = allowed_citations lib request;
          kept = filter (\<lambda>c. c \<in> set allowed) (gn_citations r)
      in (r\<lparr>gn_citations := kept, gn_grounded := rp_grounded report,
            gn_metadata := dict_set (gn_metadata r) ''guardrail_reasons'' (PList (map PStr (rp_reasons report)))\<rparr>,
          report))"

definition apply_guardrails :: "pylib \<Rightarrow> generation_request \<Rightarrow> generation_result \<Rightarrow> generation_result \<times> guardrail_report" where
  "apply_guardrails lib request r = apply_guardrails_with lib request r (45 / 100) (8 / 100)"

section \<open>What they promise\<close>

lemma class_runs_class:
  "list_all P cur \<Longrightarrow> list_all (\<lambda>w. w \<noteq> [] \<and> list_all P w) (class_runs P cur s)"
  by (induction s arbitrary: cur) auto

lemma report_sel:
  "rp_citations_ok (evaluate_result lib request r minc mino) =
     (gn_citations r \<noteq> [] \<and> list_all (\<lambda>c. c \<in> set (allowed_citations lib request)) (gn_citations r))"
  "rp_grounded (evaluate_result lib request r minc mino) =
     (gr_context request \<noteq> [] \<and> gn_citations r \<noteq> []
      \<and> list_all (\<lambda>c. c \<in> set (allowed_citations lib request)) (gn_citations r)
      \<and> mino \<le> overlap_ratio request r \<and> \<not> rp_refusal_detected (evaluate_result lib request r minc mino))"
  by (simp_all only: evaluate_result_def Let_def guardrail_report.simps, auto)

lemma reasons_of_checks:
  assumes "rp = \<lparr>rp_accepted = (g \<and> f \<and> \<not> e), rp_grounded = g, rp_confidence_ok = f, rp_citations_ok = c,
      rp_overlap_ok = v, rp_refusal_detected = rf, rp_empty_output = e,
      rp_reasons = (if e then [''empty_output''] else []) @ (if rf then [''refusal_detected''] else []) @
        (if \<not> f then [''low_confidence''] else []) @ (if \<not> c then [''citation_mismatch''] else []) @
        (if \<not> v then [''context_overlap_too_low''] else []) @ (if n then [''no_context''] else [])\<rparr>"
    and "g = (\<not> n \<and> c \<and> v \<and> \<not> rf)"
  shows "rp_accepted rp = (rp_reasons rp = [])"
proof -
  have one: "((if b then [x] else []) = []) = (\<not> b)" for b and x :: string by simp
  show ?thesis unfolding assms guardrail_report.simps append_is_Nil_conv one by blast
qed

lemma accepted_no_reasons:
  "rp_accepted (evaluate_result lib request r minc mino) = (rp_reasons (evaluate_result lib request r minc mino) = [])"
  by (rule reasons_of_checks [where n = "gr_context request = []"])
    (simp only: evaluate_result_def Let_def not_not refl, rule refl)

lemma apply_guardrails_with_eq:
  "apply_guardrails_with lib request r minc mino =
     (r\<lparr>gn_citations := filter (\<lambda>c. c \<in> set (allowed_citations lib request)) (gn_citations r),
        gn_grounded := rp_grounded (evaluate_result lib request r minc mino),
        gn_metadata := dict_set (gn_metadata r) ''guardrail_reasons''
          (PList (map PStr (rp_reasons (evaluate_result lib request r minc mino))))\<rparr>,
      evaluate_result lib request r minc mino)"
  by (simp only: apply_guardrails_with_def Let_def)

text \<open>
  C25: no fabricated citation passes: whatever the model returned, the guarded result
  cites only documents of the context, in the order and with the multiplicity the model
  gave them; it is marked grounded only if every citation was allowed, there was one, the
  context overlaps the output and no refusal was detected; and the evaluation accepts
  exactly the results for which it records no reason.
\<close>

theorem guardrails_no_fabrication:
  "\<exists>guarded report. apply_guardrails_with lib request r minc mino = (guarded, report)
   \<and> gn_citations guarded = filter (\<lambda>c. c \<in> context_citation lib ` set (gr_context request)) (gn_citations r)
   \<and> gn_grounded guarded = rp_grounded report
   \<and> rp_grounded report = (gr_context request \<noteq> [] \<and> gn_citations r \<noteq> [] \<and> gn_citations guarded = gn_citations r
        \<and> mino \<le> overlap_ratio request r \<and> \<not> rp_refusal_detected report)
   \<and> rp_accepted report = (rp_reasons report = [])
   \<and> dget (gn_metadata guarded) ''guardrail_reasons'' = PList (map PStr (rp_reasons report))
   \<and> gn_summary guarded = gn_summary r \<and> gn_explanation guarded = gn_explanation r
   \<and> gn_confidence guarded = gn_confidence r"
proof -
  let ?rp = "evaluate_result lib request r minc mino" and ?ok = "\<lambda>c. c \<in> set (allowed_citations lib request)"
  have allowed: "set (allowed_citations lib request) = context_citation lib ` set (gr_context request)"
    by (simp add: allowed_citations_def)
  have kept: "(filter ?ok (gn_citations r) = gn_citations r) = list_all ?ok (gn_citations r)"
    by (simp add: filter_id_conv list_all_iff)
  show ?thesis
    by (auto simp: apply_guardrails_with_eq report_sel kept accepted_no_reasons simp flip: allowed)
qed

text \<open>
  Applying the guardrails to an already guarded result, as the analysis service does with
  the result of a provider that guards its own output, forgets a citation mismatch: when
  one citation was allowed, the second report finds all citations in order.
\<close>

theorem second_pass_forgets_mismatch:
  assumes "apply_guardrails_with lib request r minc mino = (guarded, report)"
    and "\<exists>c\<in>set (gn_citations r). c \<in> context_citation lib ` set (gr_context request)"
  shows "rp_citations_ok (snd (apply_guardrails_with lib request guarded minc mino))"
proof -
  have g: "gn_citations guarded = filter (\<lambda>c. c \<in> set (allowed_citations lib request)) (gn_citations r)"
    using assms(1) by (auto simp: apply_guardrails_with_eq)
  show ?thesis using assms(2)
    by (auto simp: apply_guardrails_with_eq report_sel g list_all_iff filter_empty_conv allowed_citations_def)
qed

end
