(* ===== verification/Providers.thy ===== *)
theory Providers
  imports Guardrails
begin

text \<open>
  The providers of \<open>services/ai/llm/providers.py\<close>: the deterministic offline provider, the
  OpenAI-compatible one over an abstract client, and the helpers they share.  The client's
  response, whether an SDK object or a dictionary, is a JSON value (\<open>_get_attr\<close> reads both
  the same way); JSON text, SHA-256 and float parsing are parameters.  \<open>json.loads\<close> raises
  \<open>JSONDecodeError\<close>, a \<open>ValueError\<close>, on text that is not JSON, and \<open>RecursionError\<close> on text
  nested too deeply.
\<close>

record llm_lib =
  json_loads :: "string \<Rightarrow> pyval result"
  sha256_bytes :: "nat list \<Rightarrow> nat list"
  parse_float :: "string \<Rightarrow> real option"

section \<open>Sentiment\<close>

definition POSITIVE_HINTS :: "string list" where
  "POSITIVE_HINTS =
     [''surge'', ''surges'', ''surged'', ''surging'', ''rally'', ''rallies'', ''rallied'', ''gain'',
      ''gains'', ''gained'', ''growth'', ''upbeat'', ''strong'', ''stronger'', ''bullish'', ''beat'', ''beats'']"

definition NEGATIVE_HINTS :: "string list" where
  "NEGATIVE_HINTS =
     [''drop'', ''drops'', ''dropped'', ''selloff'', ''selloffs'', ''loss'', ''losses'', ''weak'',
      ''weaker'', ''bearish'', ''risk'', ''risks'', ''risky'', ''lawsuit'', ''lawsuits'', ''hack'', ''hacks'',
      ''hacked'', ''decline'', ''declines'', ''declined'']"

definition SENTIMENT_LABELS :: "string list" where
  "SENTIMENT_LABELS = [''positive'', ''negative'', ''neutral'']"

definition word_char :: "char \<Rightarrow> bool" where
  "word_char c \<longleftrightarrow> chars_between 97 122 c \<or> c = CHR 0x27"

definition clamp :: "real \<Rightarrow> real \<Rightarrow> real \<Rightarrow> real" where
  "clamp v low high = max low (min high v)"

definition normalize_label :: "real \<Rightarrow> string" where
  "normalize_label score =
     (if 2 / 10 \<le> score then ''positive'' else if score \<le> - (2 / 10) then ''negative'' else ''neutral'')"

definition hits :: "string list \<Rightarrow> string \<Rightarrow> nat" where
  "hits hints text = card (set hints \<inter> set (class_runs word_char [] (str_lower text)))"

definition fake_sentiment :: "string \<Rightarrow> real" where
  "fake_sentiment text =
     (let pos = hits POSITIVE_HINTS text; neg = hits NEGATIVE_HINTS text;
          score = (real pos - real neg) / real (max (max 1 (pos + neg)) 3)
      in py_round 3 (clamp score (-1) 1))"

section \<open>Stable embeddings\<close>

text \<open>\<open>int.from_bytes(pair, "big")\<close> of the pairs of a block, scaled to -1..1.\<close>

fun block_values :: "nat list \<Rightarrow> real list" where
  "block_values (a # b # bs) = ((real (a * 256 + b) / 65535) * 2 - 1) # block_values bs"
| "block_values [a] = [(real a / 65535) * 2 - 1]"
| "block_values [] = []"

text \<open>\<open>bytes([index])\<close> raises for an index above 255.\<close>

function embedding_values ::
  "(nat list \<Rightarrow> nat list) \<Rightarrow> nat list \<Rightarrow> int \<Rightarrow> nat \<Rightarrow> real list \<Rightarrow> real list result" where
  "embedding_values sha digest dimensions index vals =
     (if dimensions \<le> int (length vals) then Inr vals
      else if 255 < index then Inl (ValueError ''bytes must be in range(0, 256)'')
      else embedding_values sha digest dimensions (Suc index)
             (vals @ take (nat dimensions - length vals) (block_values (sha (digest @ [index])))))"
  by pat_completeness auto
termination
  by (relation "measure (\<lambda>(sha, digest, dimensions, index, vals). 256 - index)") auto

declare embedding_values.simps [simp del]

definition unit_vector :: "real list \<Rightarrow> real list" where
  "unit_vector vals =
     (let n = sqrt (sum_list (map (\<lambda>v. v * v) vals)); norm = (if n \<noteq> 0 then n else 1)
      in map (\<lambda>v. py_round 6 (v / norm)) vals)"

definition stable_embedding :: "llm_lib \<Rightarrow> string \<Rightarrow> int \<Rightarrow> real list result" where
  "stable_embedding ll text dimensions =
     bindR (embedding_values (sha256_bytes ll) (sha256_bytes ll (utf8 text)) dimensions 0 [])
       (\<lambda>vals. Inr (unit_vector vals))"

definition coerce_embedding_dimensions :: "real list \<Rightarrow> int \<Rightarrow> real list" where
  "coerce_embedding_dimensions vector dimensions =
     (if int (length vector) = dimensions then vector
      else if int (length vector) > dimensions then slice_first dimensions vector
      else vector @ replicate (nat (dimensions - int (length vector))) 0)"

definition stable_digest :: "llm_lib \<Rightarrow> string list \<Rightarrow> nat list" where
  "stable_digest ll parts = sha256_bytes ll (utf8 (str_join [newline] parts))"

section \<open>Prompts\<close>

definition context_blob :: "pylib \<Rightarrow> context_document list \<Rightarrow> string" where
  "context_blob lib context =
     str_join [newline] (map (\<lambda>d. json_dumps_sorted lib (PDict
       [(''doc_id'', PStr (cd_doc_id d)), (''title'', opt_str (cd_title d)), (''url'', opt_str (cd_url d)),
        (''text'', PStr (cd_text d))])) context)"

definition role_name :: "role \<Rightarrow> string" where
  "role_name r = (case r of System \<Rightarrow> ''system'' | User \<Rightarrow> ''user'' | Assistant \<Rightarrow> ''assistant'')"

text \<open>\<open>a or b\<close> on an optional string and a string.\<close>

definition str_or :: "string option \<Rightarrow> string \<Rightarrow> string" where
  "str_or a b = (case a of Some (c # cs) \<Rightarrow> c # cs | _ \<Rightarrow> b)"

definition context_line :: "pylib \<Rightarrow> context_document \<Rightarrow> string" where
  "context_line lib d =
     ''['' @ context_citation lib d @ ''] '' @ str_or (cd_title d) (cd_doc_id d) @ '': '' @ cd_text d"

definition message_payload :: "pylib \<Rightarrow> generation_request \<Rightarrow> (string \<times> string) list" where
  "message_payload lib request =
     (case gr_system_prompt request of
        Some (c # cs) \<Rightarrow> [(''system'', c # cs)] | _ \<Rightarrow> []) @
     (if gr_messages request \<noteq> []
      then map (\<lambda>m. (role_name (ch_role m), ch_content m)) (gr_messages request)
      else [(''user'',
             if gr_context request = [] then gr_prompt request
             else gr_prompt request @ [newline, newline] @ ''Context:'' @ [newline]
                    @ str_join [newline] (map (context_line lib) (gr_context request)))])"

text \<open>\<open>s.strip(chars)\<close>.\<close>

definition strip_of :: "string \<Rightarrow> string \<Rightarrow> string" where
  "strip_of cs s = rev (dropWhile (\<lambda>c. c \<in> set cs) (rev (dropWhile (\<lambda>c. c \<in> set cs) s)))"

definition before_separator :: "string \<Rightarrow> string \<Rightarrow> string option" where
  "before_separator sep s = map_option (\<lambda>n. take n s) (str_index sep s)"

definition first_sentence :: "string \<Rightarrow> string" where
  "first_sentence text =
     (let normalized = str_join '' '' (str_words text) in
      if normalized = [] then []
      else case before_separator ''. '' normalized of Some p \<Rightarrow> strip_of '' .!?'' p
      | None \<Rightarrow> (case before_separator ''! '' normalized of Some p \<Rightarrow> strip_of '' .!?'' p
      | None \<Rightarrow> (case before_separator ''? '' normalized of Some p \<Rightarrow> strip_of '' .!?'' p
      | None \<Rightarrow> str_strip (slice_first 180 normalized))))"

section \<open>Reading a response\<close>

definition get_attr :: "pyval \<Rightarrow> string \<Rightarrow> pyval \<Rightarrow> pyval" where
  "get_attr v name dflt = (case v of PDict d \<Rightarrow> dget_or d name dflt | _ \<Rightarrow> dflt)"

definition part_text :: "pylib \<Rightarrow> pyval \<Rightarrow> string list" where
  "part_text lib item =
     (let t = get_attr item ''text'' PNone in if truthy t then [py_str lib t] else [])"

definition extract_text :: "pylib \<Rightarrow> pyval \<Rightarrow> string" where
  "extract_text lib v =
     (case v of
        PStr s \<Rightarrow> s
      | PList items \<Rightarrow> str_join '' '' (concat (map (part_text lib) items))
      | _ \<Rightarrow> if truthy v then py_str lib v else [])"

text \<open>\<open>raw_text.find("{")\<close> and \<open>raw_text.rfind("}")\<close>, and the text between them.\<close>

definition last_index :: "char \<Rightarrow> string \<Rightarrow> nat option" where
  "last_index c s = (case str_index [c] (rev s) of None \<Rightarrow> None | Some i \<Rightarrow> Some (length s - Suc i))"

definition json_slice :: "string \<Rightarrow> string option" where
  "json_slice raw = (case (str_index [CHR 0x7B] raw, last_index (CHR 0x7D) raw) of
      (Some i, Some j) \<Rightarrow> if j < i then None else Some (take (Suc j - i) (drop i raw))
    | _ \<Rightarrow> None)"

definition parse_json_result :: "llm_lib \<Rightarrow> string \<Rightarrow> pyval result" where
  "parse_json_result ll raw =
     (case json_slice raw of
        None \<Rightarrow> Inl (ValueError ''provider response did not contain JSON'')
      | Some t \<Rightarrow> json_loads ll t)"

text \<open>\<open>payload[k]\<close>, \<open>payload.get(k, default)\<close>, \<open>float(v)\<close> and iteration over a value.\<close>

definition getitem :: "pyval \<Rightarrow> string \<Rightarrow> pyval result" where
  "getitem v k = (case v of
      PDict d \<Rightarrow> (case map_of d k of None \<Rightarrow> Inl (KeyError (CHR 0x27 # k @ [CHR 0x27])) | Some x \<Rightarrow> Inr x)
    | _ \<Rightarrow> Inl (TypeError ''indices must be integers''))"

text \<open>The integers that round to no double: \<open>float(n)\<close> raises for them.\<close>

definition float_overflows :: "int \<Rightarrow> bool" where
  "float_overflows n \<longleftrightarrow> 2 ^ 1024 - 2 ^ 970 \<le> \<bar>n\<bar>"

definition to_float :: "llm_lib \<Rightarrow> pyval \<Rightarrow> real result" where
  "to_float ll v = (case v of
      PFloat x \<Rightarrow> Inr x
    | PInt n \<Rightarrow> (if float_overflows n then Inl (OverflowError ''int too large to convert to float'')
                else Inr (of_int n))
    | PBool b \<Rightarrow> Inr (if b then 1 else 0)
    | PStr s \<Rightarrow> (case parse_float ll s of
          None \<Rightarrow> Inl (ValueError ''could not convert string to float'') | Some x \<Rightarrow> Inr x)
    | _ \<Rightarrow> Inl (TypeError ''float() argument must be a string or a real number''))"

definition iterate :: "pyval \<Rightarrow> pyval list result" where
  "iterate v = (case v of
      PList xs \<Rightarrow> Inr xs
    | PStr s \<Rightarrow> Inr (map (\<lambda>c. PStr [c]) s)
    | PDict d \<Rightarrow> Inr (map (\<lambda>e. PStr (fst e)) d)
    | _ \<Rightarrow> Inl (TypeError ''object is not iterable''))"

definition known_label :: "pylib \<Rightarrow> pyval \<Rightarrow> real \<Rightarrow> string" where
  "known_label lib v score =
     (let raw = str_lower (str_strip (py_str lib (py_or v (PStr [])))) in
      if raw \<in> set SENTIMENT_LABELS then raw else normalize_label score)"

definition structured_from_payload ::
  "pylib \<Rightarrow> llm_lib \<Rightarrow> string \<Rightarrow> string \<Rightarrow> pyval \<Rightarrow> string \<Rightarrow> generation_result result" where
  "structured_from_payload lib ll provider model payload raw_text =
     bindR (getitem payload ''sentiment_score'') (\<lambda>score_v.
     bindR (to_float ll score_v) (\<lambda>score.
     bindR (iterate (get_attr payload ''citations'' (PList []))) (\<lambda>cites.
     bindR (to_float ll (get_attr payload ''confidence'' (PFloat 0))) (\<lambda>confidence.
       Inr \<lparr>gn_summary = str_strip (py_str lib (get_attr payload ''summary'' (PStr []))),
            gn_explanation = str_strip (py_str lib (get_attr payload ''explanation'' (PStr []))),
            gn_sentiment_score = py_round 3 (clamp score (-1) 1),
            gn_sentiment_label = known_label lib (get_attr payload ''sentiment_label'' PNone) score,
            gn_citations = map (py_str lib) cites,
            gn_confidence = py_round 3 (clamp confidence 0 1),
            gn_grounded = (cites \<noteq> []), gn_provider = provider, gn_model = model,
            gn_raw_text = raw_text, gn_metadata = []\<rparr>))))"

text \<open>\<open>s.title()\<close>: a letter after a non-letter is upper case, after a letter lower case.\<close>

definition is_letter :: "char \<Rightarrow> bool" where
  "is_letter c \<longleftrightarrow> chars_between 65 90 c \<or> chars_between 97 122 c"

fun title_from :: "bool \<Rightarrow> string \<Rightarrow> string" where
  "title_from after [] = []"
| "title_from after (c # cs) = (if after then lower_char c else upper_char c) # title_from (is_letter c) cs"

definition first_of :: "string list \<Rightarrow> string" where
  "first_of xs = (case filter (\<lambda>x. x \<noteq> []) xs of [] \<Rightarrow> last xs | x # _ \<Rightarrow> x)"

definition outlook :: "pylib \<Rightarrow> generation_request \<Rightarrow> string \<Rightarrow> string \<Rightarrow> string" where
  "outlook lib request label topic =
     title_from False label @ '' outlook for ''
       @ py_str lib (dget_or (gr_metadata request) ''symbol'' (PStr ''the asset''))
       @ '': '' @ topic @ ''.''"

definition top_document :: "generation_request \<Rightarrow> context_document option" where
  "top_document request = (case gr_context request of [] \<Rightarrow> None | d # _ \<Rightarrow> Some d)"

definition structured_from_text ::
  "pylib \<Rightarrow> string \<Rightarrow> string \<Rightarrow> string \<Rightarrow> generation_request \<Rightarrow> generation_result" where
  "structured_from_text lib provider model raw_text request =
     (let citations = filter (\<lambda>c. c \<noteq> []) (map (context_citation lib) (gr_context request));
          context_summary = (case top_document request of None \<Rightarrow> [] | Some d \<Rightarrow> first_sentence (cd_text d));
          prompt_summary = first_sentence (gr_prompt request);
          score = fake_sentiment (str_join [newline]
                    (filter (\<lambda>p. p \<noteq> []) [gr_prompt request, raw_text, context_summary]));
          label = normalize_label score;
          summary = (if first_sentence raw_text \<noteq> [] then first_sentence raw_text
                     else outlook lib request label
                            (first_of [context_summary, prompt_summary, ''retrieved context is limited'']));
          explanation = (if str_strip raw_text \<noteq> [] then str_strip raw_text
                         else case top_document request of
                           Some d \<Rightarrow> ''Grounded in '' @ context_citation lib d @ '', the main context is ''
                             @ first_of [context_summary, or_empty (cd_title d), ''the retrieved document''] @ ''.''
                         | None \<Rightarrow> first_of [prompt_summary, summary])
      in \<lparr>gn_summary = summary, gn_explanation = explanation, gn_sentiment_score = score,
          gn_sentiment_label = label, gn_citations = citations,
          gn_confidence = (if citations \<noteq> [] then 5 / 10 else 25 / 100), gn_grounded = (citations \<noteq> []),
          gn_provider = provider, gn_model = model, gn_raw_text = raw_text, gn_metadata = []\<rparr>)"

section \<open>MockLLMProvider\<close>

text \<open>\<open>f"{x:+.2f}"\<close>.\<close>

definition fmt_signed :: "real \<Rightarrow> string" where
  "fmt_signed x = (if x < 0 then [] else ''+'') @ fmt_fixed 2 x"

definition source_parts :: "pylib \<Rightarrow> generation_request \<Rightarrow> string list" where
  "source_parts lib request =
     [gr_prompt request, or_empty (gr_system_prompt request), context_blob lib (gr_context request)]"

definition mock_confidence :: "pylib \<Rightarrow> llm_lib \<Rightarrow> generation_request \<Rightarrow> real" where
  "mock_confidence lib ll request =
     (let c = 55 / 100 + (real (hd (stable_digest ll (source_parts lib request))) / 255) * (35 / 100)
      in if gr_context request = [] then min c (42 / 100) else c)"

definition mock_generate :: "pylib \<Rightarrow> llm_lib \<Rightarrow> string \<Rightarrow> generation_request \<Rightarrow> generation_result" where
  "mock_generate lib ll model request =
     (let combined = str_join '' '' (filter (\<lambda>p. p \<noteq> []) (source_parts lib request));
          score = fake_sentiment combined;
          label = normalize_label score;
          prompt_summary = first_sentence (gr_prompt request);
          context_summary = (case top_document request of
              None \<Rightarrow> prompt_summary | Some d \<Rightarrow> first_sentence (cd_text d));
          summary = str_strip (outlook lib request label (first_of [context_summary, prompt_summary]));
          explanation = str_join '' ''
            ((case top_document request of None \<Rightarrow> [] | Some d \<Rightarrow>
                [''Grounded in '' @ context_citation lib d @ '', the key driver is ''
                   @ first_of [context_summary, ''the retrieved context''] @ ''.'']) @
             (if prompt_summary \<noteq> [] then [''Prompt focus: '' @ prompt_summary @ ''.''] else []) @
             [''Overall sentiment is '' @ label @ '' ('' @ fmt_signed score @ '').'']);
          confidence = py_round 3 (mock_confidence lib ll request);
          citations = (case top_document request of None \<Rightarrow> [] | Some d \<Rightarrow> [context_citation lib d])
      in fst (apply_guardrails lib request
        \<lparr>gn_summary = summary, gn_explanation = explanation, gn_sentiment_score = score,
         gn_sentiment_label = label, gn_citations = citations, gn_confidence = confidence,
         gn_grounded = (gr_context request \<noteq> []), gn_provider = ''mock'', gn_model = model,
         gn_raw_text = json_dumps_sorted lib (PDict
           [(''summary'', PStr summary), (''explanation'', PStr explanation), (''sentiment_score'', PFloat score),
            (''sentiment_label'', PStr label), (''citations'', PList (map PStr citations)),
            (''confidence'', PFloat confidence)]),
         gn_metadata = []\<rparr>))"

definition mock_embed :: "llm_lib \<Rightarrow> string \<Rightarrow> embedding_request \<Rightarrow> embedding_result result" where
  "mock_embed ll model request =
     bindR (mapR (\<lambda>t. stable_embedding ll t (er_dimensions request)) (er_texts request)) (\<lambda>vectors.
       Inr \<lparr>ev_vectors = vectors, ev_provider = ''mock'', ev_model = model,
            ev_dimensions = er_dimensions request\<rparr>)"

section \<open>OpenAIProvider\<close>

record 's openai_client =
  oc_chat :: "string \<Rightarrow> (string \<times> string) list \<Rightarrow> real \<Rightarrow> int \<Rightarrow> ('s, pyval) pm"
  oc_embed :: "string \<Rightarrow> string list \<Rightarrow> int \<Rightarrow> ('s, pyval) pm"

record 's openai_provider =
  op_chat_model :: string
  op_embedding_model :: string
  op_client :: "'s openai_client"

definition caught_by_generate :: "exn \<Rightarrow> bool" where
  "caught_by_generate e =
     (case e of KeyError _ \<Rightarrow> True | TypeError _ \<Rightarrow> True | ValueError _ \<Rightarrow> True | _ \<Rightarrow> False)"

definition first_choice :: "pyval \<Rightarrow> pyval result" where
  "first_choice choices =
     (if \<not> truthy choices then Inl (ValueError ''provider response contained no choices'')
      else case choices of
        PList (c # _) \<Rightarrow> Inr c
      | PStr (c # _) \<Rightarrow> Inr (PStr [c])
      | PDict _ \<Rightarrow> Inl (KeyError ''0'')
      | _ \<Rightarrow> Inl (TypeError ''object is not subscriptable''))"

text \<open>
  The body of the \<open>try\<close>: the raw text read so far, empty if the choices could not be read,
  and the structured result.
\<close>

definition read_response ::
  "pylib \<Rightarrow> llm_lib \<Rightarrow> string \<Rightarrow> pyval \<Rightarrow> string \<times> generation_result result" where
  "read_response lib ll model response =
     (case first_choice (get_attr response ''choices'' (PList [])) of
        Inl e \<Rightarrow> ([], Inl e)
      | Inr choice \<Rightarrow>
          let raw = extract_text lib (get_attr (get_attr choice ''message'' (PDict [])) ''content'' (PStr []))
          in (raw, bindR (parse_json_result ll raw) (\<lambda>payload.
                structured_from_payload lib ll ''openai'' model payload raw)))"

definition openai_generate ::
  "pylib \<Rightarrow> llm_lib \<Rightarrow> 's openai_provider \<Rightarrow> generation_request \<Rightarrow> ('s, generation_result) pm" where
  "openai_generate lib ll p request =
     bindM (oc_chat (op_client p) (op_chat_model p) (message_payload lib request)
              (gr_temperature request) (gr_max_tokens request)) (\<lambda>response.
       case read_response lib ll (op_chat_model p) response of
         (raw, Inr r) \<Rightarrow> returnM (fst (apply_guardrails lib request r))
       | (raw, Inl e) \<Rightarrow>
           if caught_by_generate e
           then returnM (fst (apply_guardrails lib request
                  (structured_from_text lib ''openai'' (op_chat_model p) raw request)))
           else raiseM e)"

definition row_vector :: "llm_lib \<Rightarrow> int \<Rightarrow> pyval \<Rightarrow> real list result" where
  "row_vector ll dimensions row =
     bindR (iterate (get_attr row ''embedding'' (PList []))) (\<lambda>xs.
     bindR (mapR (to_float ll) xs) (\<lambda>v. Inr (coerce_embedding_dimensions v dimensions)))"

definition openai_embed ::
  "llm_lib \<Rightarrow> 's openai_provider \<Rightarrow> embedding_request \<Rightarrow> ('s, embedding_result) pm" where
  "openai_embed ll p request =
     bindM (oc_embed (op_client p) (op_embedding_model p) (er_texts request) (er_dimensions request)) (\<lambda>response.
     bindM (liftR (bindR (iterate (get_attr response ''data'' (PList []))) (mapR (row_vector ll (er_dimensions request)))))
       (\<lambda>vectors. returnM \<lparr>ev_vectors = vectors, ev_provider = ''openai'', ev_model = op_embedding_model p,
          ev_dimensions = er_dimensions request\<rparr>))"

end
