(* ===== verification/ProviderProps.thy ===== *)
theory ProviderProps
  imports Providers
begin

text \<open>
  What the providers promise whatever the model or the client returns: bounded scores, a
  label of the known vocabulary, citations of the context only, and no exceptions but the
  client's own and two of the response; and the size and range of the deterministic embedding.
\<close>

section \<open>Bounds\<close>

lemma clamp_bounds: "low \<le> high \<Longrightarrow> low \<le> clamp v low high \<and> clamp v low high \<le> high"
  by (auto simp: clamp_def)

lemma round_clamp_unit: "-1 \<le> py_round n (clamp v (-1) 1) \<and> py_round n (clamp v (-1) 1) \<le> 1"
  using py_round_bounds [of "-1" "clamp v (-1) 1" 1 n] clamp_bounds [of "-1" 1 v] by simp

lemma round_clamp_prob: "0 \<le> py_round n (clamp v 0 1) \<and> py_round n (clamp v 0 1) \<le> 1"
  using py_round_bounds [of 0 "clamp v 0 1" 1 n] clamp_bounds [of 0 1 v] by simp

lemma fake_sentiment_bounds: "-1 \<le> fake_sentiment t \<and> fake_sentiment t \<le> 1"
  unfolding fake_sentiment_def Let_def by (rule round_clamp_unit)

lemma normalize_label_known: "normalize_label v \<in> set SENTIMENT_LABELS"
  by (simp add: normalize_label_def SENTIMENT_LABELS_def)

lemma known_label_known: "known_label lib v score \<in> set SENTIMENT_LABELS"
  using normalize_label_known [of score] by (simp add: known_label_def Let_def)

definition sane :: "generation_result \<Rightarrow> bool" where
  "sane r \<longleftrightarrow> -1 \<le> gn_sentiment_score r \<and> gn_sentiment_score r \<le> 1 \<and> 0 \<le> gn_confidence r
     \<and> gn_confidence r \<le> 1 \<and> gn_sentiment_label r \<in> set SENTIMENT_LABELS"

lemma sane_payload: "structured_from_payload lib ll pr m payload raw = Inr r \<Longrightarrow> sane r"
  using round_clamp_unit [of 3] round_clamp_prob [of 3] known_label_known
  by (auto simp: structured_from_payload_def bindR_Inr_iff sane_def)

lemma sane_text: "sane (structured_from_text lib pr m raw request)"
  using fake_sentiment_bounds normalize_label_known
  by (simp add: structured_from_text_def Let_def sane_def)

lemma sane_guarded: "sane (fst (apply_guardrails lib request r)) = sane r"
  by (simp add: sane_def apply_guardrails_def apply_guardrails_with_eq)

lemma guarded_citations:
  "set (gn_citations (fst (apply_guardrails lib request r))) \<subseteq> context_citation lib ` set (gr_context request)"
  by (auto simp: apply_guardrails_def apply_guardrails_with_eq allowed_citations_def)

section \<open>Errors of a response are contained\<close>

lemma caught_iff [simp]:
  "caught_by_generate (KeyError x)" "caught_by_generate (TypeError x)" "caught_by_generate (ValueError x)"
  "\<not> caught_by_generate (OverflowError x)"
  by (simp_all add: caught_by_generate_def)

text \<open>The exceptions of each step that the \<open>except\<close> clause lets through.\<close>

definition passes :: "exn \<Rightarrow> 'a result \<Rightarrow> bool" where
  "passes e r \<longleftrightarrow> r = Inl e \<and> \<not> caught_by_generate e"

lemma passes_bindR: "passes e (bindR r f) \<longleftrightarrow> passes e r \<or> (\<exists>x. r = Inr x \<and> passes e (f x))"
  by (cases r) (auto simp: passes_def)

lemma passes_steps:
  "\<not> passes e (getitem v k)" "\<not> passes e (iterate v)" "\<not> passes e (first_choice v)" "\<not> passes e (Inr x)"
  by (auto simp: passes_def getitem_def iterate_def first_choice_def
      split: pyval.splits option.splits if_splits list.splits)

lemma passes_to_float:
  "passes e (to_float ll v) \<longleftrightarrow>
     (\<exists>n. v = PInt n \<and> float_overflows n \<and> e = OverflowError ''int too large to convert to float'')"
  by (auto simp: passes_def to_float_def split: pyval.splits option.splits if_splits)

text \<open>What a payload raises through the clause: a score or a confidence that is no double.\<close>

definition unfit :: "exn \<Rightarrow> pyval \<Rightarrow> bool" where
  "unfit e payload \<longleftrightarrow> e = OverflowError ''int too large to convert to float'' \<and>
     (\<exists>d k n. payload = PDict d \<and> k \<in> {''sentiment_score'', ''confidence''} \<and>
        map_of d k = Some (PInt n) \<and> 2 ^ 1024 - 2 ^ 970 \<le> \<bar>n\<bar>)"

lemma payload_passes: "passes e (structured_from_payload lib ll pr m payload raw) \<Longrightarrow> unfit e payload"
proof -
  assume a: "passes e (structured_from_payload lib ll pr m payload raw)"
  then obtain v where v: "getitem payload ''sentiment_score'' = Inr v"
    by (auto simp: structured_from_payload_def passes_bindR passes_steps)
  then obtain d where d: "payload = PDict d" "map_of d ''sentiment_score'' = Some v"
    by (auto simp: getitem_def split: pyval.splits option.splits)
  have "passes e (to_float ll v) \<or> passes e (to_float ll (dget_or d ''confidence'' (PFloat 0)))"
    using a v d(1) by (auto simp: structured_from_payload_def passes_bindR passes_steps get_attr_def)
  then obtain n where n: "float_overflows n" "e = OverflowError ''int too large to convert to float''"
    "map_of d ''sentiment_score'' = Some (PInt n) \<or> map_of d ''confidence'' = Some (PInt n)"
    using d(2) by (auto simp: passes_to_float dget_or_def split: option.splits)
  then show ?thesis using d(1) by (auto simp: unfit_def float_overflows_def)
qed

lemma read_response_passes:
  assumes "read_response lib ll m response = (raw, Inl e)" "\<not> caught_by_generate e"
  shows "\<exists>t. json_slice raw = Some t \<and> (json_loads ll t = Inl e \<or> (\<exists>payload. json_loads ll t = Inr payload \<and> unfit e payload))"
proof -
  from assms obtain choice where c: "first_choice (get_attr response ''choices'' (PList [])) = Inr choice"
    using passes_steps(3) [of e] by (auto simp: read_response_def passes_def split: sum.splits)
  then have "passes e (bindR (parse_json_result ll raw) (\<lambda>payload. structured_from_payload lib ll ''openai'' m payload raw))"
    using assms by (auto simp: read_response_def Let_def passes_def)
  then consider "passes e (parse_json_result ll raw)"
    | payload where "parse_json_result ll raw = Inr payload" "unfit e payload"
    using payload_passes by (auto simp: passes_bindR)
  then show ?thesis
    by cases (auto simp: parse_json_result_def passes_def split: option.splits)
qed

lemma read_response_sane: "read_response lib ll m response = (raw, Inr r) \<Longrightarrow> sane r"
  by (auto simp: read_response_def Let_def bindR_Inr_iff split: sum.splits intro: sane_payload)

text \<open>
  C26: What a model answers breaks generation in two ways only.  An exception of the client itself
  leaves it unchanged.  Once the client has answered, whatever the response is, generation
  returns a result whose sentiment lies between -1 and 1, whose confidence lies between 0 and
  1, whose label is one of the three known ones and whose citations all name documents of the
  request's context; or the text between the outer braces of the response makes \<open>json.loads\<close>
  raise something else than a \<open>ValueError\<close>, \<open>KeyError\<close> or \<open>TypeError\<close> (\<open>RecursionError\<close> on deep
  nesting), or it is an object whose score or confidence is an integer beyond the range of a
  double (\<open>OverflowError\<close>), and then that exception leaves it.
\<close>

theorem generation_contained:
  "(\<forall>e s'. oc_chat (op_client p) (op_chat_model p) (message_payload lib request)
        (gr_temperature request) (gr_max_tokens request) s = (Inl e, s') \<longrightarrow>
      openai_generate lib ll p request s = (Inl e, s'))
   \<and> (\<forall>response s'. oc_chat (op_client p) (op_chat_model p) (message_payload lib request)
        (gr_temperature request) (gr_max_tokens request) s = (Inr response, s') \<longrightarrow>
      (\<exists>r. openai_generate lib ll p request s = (Inr r, s')
         \<and> -1 \<le> gn_sentiment_score r \<and> gn_sentiment_score r \<le> 1
         \<and> 0 \<le> gn_confidence r \<and> gn_confidence r \<le> 1
         \<and> gn_sentiment_label r \<in> {''positive'', ''negative'', ''neutral''}
         \<and> set (gn_citations r) \<subseteq> context_citation lib ` set (gr_context request))
      \<or> (\<exists>t e. json_slice (fst (read_response lib ll (op_chat_model p) response)) = Some t
         \<and> openai_generate lib ll p request s = (Inl e, s')
         \<and> (json_loads ll t = Inl e \<and> \<not> caught_by_generate e
            \<or> (\<exists>payload. json_loads ll t = Inr payload \<and> unfit e payload))))"
proof (intro conjI allI impI)
  fix e s'
  assume "oc_chat (op_client p) (op_chat_model p) (message_payload lib request)
        (gr_temperature request) (gr_max_tokens request) s = (Inl e, s')"
  then show "openai_generate lib ll p request s = (Inl e, s')"
    by (simp add: openai_generate_def bindM_apply)
next
  fix response s'
  assume answer: "oc_chat (op_client p) (op_chat_model p) (message_payload lib request)
        (gr_temperature request) (gr_max_tokens request) s = (Inr response, s')" (is "?chat = _")
  let ?ok = "\<lambda>r. openai_generate lib ll p request s = (Inr r, s')
         \<and> -1 \<le> gn_sentiment_score r \<and> gn_sentiment_score r \<le> 1
         \<and> 0 \<le> gn_confidence r \<and> gn_confidence r \<le> 1
         \<and> gn_sentiment_label r \<in> {''positive'', ''negative'', ''neutral''}
         \<and> set (gn_citations r) \<subseteq> context_citation lib ` set (gr_context request)"
  obtain raw out where rr: "read_response lib ll (op_chat_model p) response = (raw, out)" by fastforce
  have fine: "\<exists>r. ?ok r"
    if gen: "openai_generate lib ll p request s = (Inr (fst (apply_guardrails lib request r0)), s')" and "sane r0" for r0
  proof -
    have "sane (fst (apply_guardrails lib request r0))" by (simp add: sane_guarded that(2))
    then show ?thesis using guarded_citations [of lib request r0] gen
      by (intro exI [of _ "fst (apply_guardrails lib request r0)"]) (simp add: sane_def SENTIMENT_LABELS_def)
  qed
  show "(\<exists>r. ?ok r) \<or> (\<exists>t e. json_slice (fst (read_response lib ll (op_chat_model p) response)) = Some t
         \<and> openai_generate lib ll p request s = (Inl e, s')
         \<and> (json_loads ll t = Inl e \<and> \<not> caught_by_generate e
            \<or> (\<exists>payload. json_loads ll t = Inr payload \<and> unfit e payload)))"
  proof (cases out)
    case (Inr r)
    then show ?thesis using answer rr read_response_sane fine [of r]
      by (auto simp: openai_generate_def bindM_apply returnM_def)
  next
    case (Inl e)
    show ?thesis
    proof (cases "caught_by_generate e")
      case True
      then show ?thesis
        using answer rr Inl sane_text fine [of "structured_from_text lib ''openai'' (op_chat_model p) raw request"]
        by (auto simp: openai_generate_def bindM_apply returnM_def)
    next
      case False
      then have "openai_generate lib ll p request s = (Inl e, s')"
        using answer rr Inl by (simp add: openai_generate_def bindM_apply raiseM_def)
      then show ?thesis using read_response_passes [of lib ll "op_chat_model p" response raw e] rr Inl False by auto
    qed
  qed
qed

text \<open>Such a response does end the generation.\<close>

lemma huge_score_escapes:
  assumes "oc_chat (op_client p) (op_chat_model p) (message_payload lib request)
      (gr_temperature request) (gr_max_tokens request) s = (Inr response, s')"
    and "response = PDict [(''choices'', PList [PDict [(''message'', PDict [(''content'', PStr raw)])]])]"
    and "json_slice raw = Some t" "json_loads ll t = Inr (PDict d)"
    and "map_of d ''sentiment_score'' = Some (PInt n)" "float_overflows n"
  shows "openai_generate lib ll p request s = (Inl (OverflowError ''int too large to convert to float''), s')"
proof -
  have "first_choice (get_attr response ''choices'' (PList [])) = Inr (PDict [(''message'', PDict [(''content'', PStr raw)])])"
    by (simp add: assms(2) get_attr_def first_choice_def dget_or_def)
  then have "read_response lib ll (op_chat_model p) response =
      (raw, Inl (OverflowError ''int too large to convert to float''))"
    using assms(3-6)
    by (simp add: read_response_def Let_def parse_json_result_def structured_from_payload_def getitem_def to_float_def
        get_attr_def dget_or_def extract_text_def)
  then show ?thesis using assms(1) by (simp add: openai_generate_def bindM_apply raiseM_def)
qed

section \<open>Embeddings\<close>

definition sha_ok :: "(nat list \<Rightarrow> nat list) \<Rightarrow> bool" where
  "sha_ok sha \<longleftrightarrow> (\<forall>x. length (sha x) = 32)"

lemma block_values_length: "length (block_values bs) = (length bs + 1) div 2"
  by (induction bs rule: block_values.induct) auto

lemma embedding_values_length:
  "sha_ok sha \<Longrightarrow> length vals = min (nat dims) (16 * index) \<Longrightarrow> index \<le> 256 \<Longrightarrow>
     (dims \<le> 4096 \<longrightarrow> (\<exists>vs. embedding_values sha digest dims index vals = Inr vs \<and> length vs = nat dims)) \<and>
     (4096 < dims \<longrightarrow> (\<exists>msg. embedding_values sha digest dims index vals = Inl (ValueError msg)))"
proof (induction sha digest dims index vals rule: embedding_values.induct)
  case (1 sha digest dims index vals)
  have block: "length (block_values (sha (digest @ [index]))) = 16"
    using 1(2) by (simp add: block_values_length sha_ok_def)
  show ?case
  proof (cases "dims \<le> int (length vals)")
    case True
    then show ?thesis using 1(3,4) by (subst (1 2) embedding_values.simps) auto
  next
    case more: False
    then have len: "length vals = 16 * index" using 1(3) by simp
    show ?thesis
    proof (cases "255 < index")
      case True
      then show ?thesis using more len 1(4) by (subst (1 2) embedding_values.simps) auto
    next
      case False
      have "length (vals @ take (nat dims - length vals) (block_values (sha (digest @ [index]))))
          = min (nat dims) (16 * Suc index)"
        using more by (simp add: block len)
      with 1(1) [OF more False 1(2)] show ?thesis
        using more False by (subst (1 2) embedding_values.simps) simp
    qed
  qed
qed

lemma unit_vector_bounds: "x \<in> set (unit_vector vals) \<Longrightarrow> \<bar>x\<bar> \<le> 1"
proof -
  assume x: "x \<in> set (unit_vector vals)"
  define n where "n = sqrt (sum_list (map (\<lambda>v. v * v) vals))"
  define norm where "norm = (if n \<noteq> 0 then n else 1)"
  obtain v where v: "v \<in> set vals" "x = py_round 6 (v / norm)"
    using x by (auto simp: unit_vector_def Let_def n_def norm_def)
  have sq: "v * v \<le> sum_list (map (\<lambda>v. v * v) vals)"
    by (rule member_le_sum_list) (use v(1) in auto)
  then have "\<bar>v\<bar> \<le> n" unfolding n_def by (intro real_le_rsqrt) (simp add: power2_eq_square)
  then have "\<bar>v / norm\<bar> \<le> 1" by (auto simp: norm_def abs_divide divide_le_eq)
  then have "of_int (-1) \<le> v / norm" "v / norm \<le> of_int 1" unfolding abs_le_iff by simp_all
  from py_round_bounds [OF this, of 6] show ?thesis by (simp add: v(2) abs_le_iff)
qed

text \<open>
  the deterministic embedding has the requested size and range: for up to 4096
  dimensions it returns exactly that many components, all between -1 and 1; beyond that it
  raises, because the block counter no longer fits a byte.
\<close>

theorem stable_embedding_size:
  assumes "\<forall>x. length (sha256_bytes ll x) = 32"
  shows "(dims \<le> 4096 \<longrightarrow> (\<exists>v. stable_embedding ll text dims = Inr v \<and> length v = nat dims \<and> (\<forall>x\<in>set v. \<bar>x\<bar> \<le> 1)))
       \<and> (4096 < dims \<longrightarrow> (\<exists>msg. stable_embedding ll text dims = Inl (ValueError msg)))"
proof -
  have "sha_ok (sha256_bytes ll)" using assms by (simp add: sha_ok_def)
  from embedding_values_length [OF this, of "[]" dims 0 "sha256_bytes ll (utf8 text)"]
  have "(dims \<le> 4096 \<longrightarrow> (\<exists>vs. embedding_values (sha256_bytes ll) (sha256_bytes ll (utf8 text)) dims 0 [] = Inr vs
          \<and> length vs = nat dims)) \<and>
      (4096 < dims \<longrightarrow> (\<exists>msg. embedding_values (sha256_bytes ll) (sha256_bytes ll (utf8 text)) dims 0 [] = Inl (ValueError msg)))"
    by simp
  then show ?thesis
    using unit_vector_bounds by (auto simp: stable_embedding_def unit_vector_def Let_def)
qed

definition example_llm :: llm_lib where
  "example_llm = \<lparr>json_loads = (\<lambda>_. Inl (ValueError ''Expecting value'')), sha256_bytes = (\<lambda>_. replicate 32 7), parse_float = (\<lambda>_. None)\<rparr>"

theorem stable_embedding_size_witness:
  "\<exists>v. stable_embedding example_llm ''btc'' 16 = Inr v \<and> length v = 16"
proof -
  have "\<forall>x. length (sha256_bytes example_llm x) = 32" by (simp add: example_llm_def)
  from stable_embedding_size [OF this, of 16 "''btc''"] show ?thesis by force
qed

lemma coerce_length: "0 \<le> dims \<Longrightarrow> length (coerce_embedding_dimensions v dims) = nat dims"
  by (auto simp: coerce_embedding_dimensions_def slice_first_def)

definition example_client :: "unit openai_client" where
  "example_client = \<lparr>oc_chat = (\<lambda>_ _ _ _. returnM PNone), oc_embed = (\<lambda>_ _ _. returnM PNone)\<rparr>"

definition example_provider :: "unit openai_provider" where
  "example_provider =
     \<lparr>op_chat_model = ''m'', op_embedding_model = ''e'', op_client = example_client\<rparr>"

theorem generation_contained_witness:
  "\<exists>r. openai_generate null_lib example_llm example_provider (generation_request_of ''BTC?'' [] []) () = (Inr r, ())
     \<and> gn_citations r = []"
proof -
  have "fst (read_response null_lib example_llm ''m'' PNone) = []"
    by (simp add: read_response_def get_attr_def first_choice_def)
  moreover have "json_slice [] = None" by (simp add: json_slice_def last_index_def)
  ultimately show ?thesis
    using generation_contained [of example_provider null_lib "generation_request_of ''BTC?'' [] []" "()" example_llm]
    by (auto simp: example_provider_def example_client_def returnM_def generation_request_of_def)
qed

end
