(* ===== verification/Rag.thy ===== *)
theory Rag
  imports ChunkingProps SearchProps Providers
begin

text \<open>
  The retrieval pipeline: the chunk model's conversions of \<open>services/ai/rag/models.py\<close>
  and \<open>services/ai/rag/pipeline.py\<close>, over any search store and embedding provider.
  A title or URL read back from the store is a string or null.
\<close>

section \<open>Chunks as documents of the store\<close>

definition chunk_citation :: "pylib \<Rightarrow> chunk_document \<Rightarrow> string" where
  "chunk_citation lib c = citation_of lib (ck_url c) (ck_metadata c) (ck_source c)"

definition to_search_document :: "pylib \<Rightarrow> chunk_document \<Rightarrow> pydict" where
  "to_search_document lib c =
     [(''chunk_id'', PStr (ck_id c)), (''source_doc_id'', PStr (ck_source c)),
      (''chunk_index'', PInt (ck_index c)), (''text'', PStr (ck_text c)), (''title'', opt_str (ck_title c)),
      (''url'', opt_str (ck_url c)), (''citation'', PStr (chunk_citation lib c)),
      (''metadata'', PDict (ck_metadata c)), (''start_char'', PInt (ck_start c)),
      (''end_char'', PInt (ck_end c)), (''token_count'', PInt (ck_tokens c))]"

text \<open>\<open>dict(v)\<close> of a value that may be missing, \<open>int(v)\<close>, \<open>d[k]\<close>.\<close>

definition to_dict :: "pyval \<Rightarrow> pydict result" where
  "to_dict v = (if \<not> truthy v then Inr [] else case v of PDict d \<Rightarrow> Inr d
     | _ \<Rightarrow> Inl (TypeError ''object is not a mapping''))"

fun digits_value :: "nat \<Rightarrow> bool \<Rightarrow> string \<Rightarrow> nat option" where
  "digits_value acc after [] = (if after then Some acc else None)"
| "digits_value acc after (c # cs) =
     (if chars_between 48 57 c then digits_value (acc * 10 + (of_char c - 48)) True cs
      else if c = CHR ''_'' \<and> after then digits_value acc False cs
      else None)"

definition parse_int :: "string \<Rightarrow> int option" where
  "parse_int s = (case str_strip s of
      [] \<Rightarrow> None
    | c # cs \<Rightarrow>
        if c = CHR ''-'' then map_option (\<lambda>n. - int n) (digits_value 0 False cs)
        else if c = CHR ''+'' then map_option int (digits_value 0 False cs)
        else map_option int (digits_value 0 False (c # cs)))"

definition to_int :: "pyval \<Rightarrow> int result" where
  "to_int v = (case v of
      PInt i \<Rightarrow> Inr i
    | PBool b \<Rightarrow> Inr (if b then 1 else 0)
    | PFloat x \<Rightarrow> Inr (if 0 \<le> x then \<lfloor>x\<rfloor> else \<lceil>x\<rceil>)
    | PStr s \<Rightarrow> (case parse_int s of
        None \<Rightarrow> Inl (ValueError ''invalid literal for int()'') | Some i \<Rightarrow> Inr i)
    | _ \<Rightarrow> Inl (TypeError ''int() argument must be a string or a real number''))"

definition to_opt_str :: "pyval \<Rightarrow> string option" where
  "to_opt_str v = (case v of PStr s \<Rightarrow> Some s | _ \<Rightarrow> None)"

definition id_field :: "pydict \<Rightarrow> pyval \<Rightarrow> pyval result" where
  "id_field row v = (if truthy v then Inr v else
     case map_of row ''_id'' of None \<Rightarrow> Inl (KeyError (CHR 0x27 # ''_id'' @ [CHR 0x27])) | Some x \<Rightarrow> Inr x)"

definition row_metadata :: "pydict \<Rightarrow> pydict \<Rightarrow> pydict" where
  "row_metadata row metadata =
     (let citation = dget row ''citation'' in
      if truthy citation \<and> map_of metadata ''citation'' = None
      then dict_set metadata ''citation'' citation else metadata)"

definition from_search_result :: "pylib \<Rightarrow> pydict \<Rightarrow> chunk_document result" where
  "from_search_result lib row =
     bindR (to_dict (dget row ''metadata'')) (\<lambda>metadata.
     bindR (id_field row (dget row ''chunk_id'')) (\<lambda>cid.
     bindR (id_field row (py_or (dget row ''source_doc_id'') (dget row ''doc_id''))) (\<lambda>src.
     bindR (to_int (dget_or row ''chunk_index'' (PInt 0))) (\<lambda>idx.
     bindR (to_int (dget_or row ''start_char'' (PInt 0))) (\<lambda>sc.
     bindR (to_int (dget_or row ''end_char'' (PInt 0))) (\<lambda>ec.
     bindR (to_int (dget_or row ''token_count'' (PInt 0))) (\<lambda>tc.
       Inr \<lparr>ck_id = py_str lib cid, ck_source = py_str lib src, ck_index = idx,
            ck_text = py_str lib (dget_or row ''text'' (PStr [])),
            ck_title = to_opt_str (dget row ''title''), ck_url = to_opt_str (dget row ''url''),
            ck_metadata = row_metadata row metadata, ck_start = sc, ck_end = ec, ck_tokens = tc\<rparr>)))))))"

record retrieved_chunk =
  rt_chunk :: chunk_document
  rt_knn :: real
  rt_lexical :: real
  rt_ranking :: real

definition to_context_document :: "pylib \<Rightarrow> retrieved_chunk \<Rightarrow> context_document" where
  "to_context_document lib r =
     (let c = rt_chunk r in
      \<lparr>cd_doc_id = ck_id c, cd_text = ck_text c, cd_title = ck_title c, cd_url = ck_url c,
       cd_metadata = dict_update (ck_metadata c)
         [(''source_doc_id'', PStr (ck_source c)), (''chunk_id'', PStr (ck_id c)),
          (''chunk_index'', PInt (ck_index c)), (''citation'', PStr (chunk_citation lib c)),
          (''knn_score'', PFloat (rt_knn r)), (''lexical_score'', PFloat (rt_lexical r)),
          (''ranking_score'', PFloat (rt_ranking r)), (''start_char'', PInt (ck_start c)),
          (''end_char'', PInt (ck_end c)), (''token_count'', PInt (ck_tokens c))]\<rparr>)"

section \<open>Reranking\<close>

definition rag_tokens :: "string \<Rightarrow> string set" where
  "rag_tokens text = set (class_runs alnum_lower [] (str_lower text))"

definition lexical_fields :: "pylib \<Rightarrow> chunk_document \<Rightarrow> string list" where
  "lexical_fields lib c =
     [ck_text c] @ (case ck_title c of Some (x # xs) \<Rightarrow> [x # xs] | _ \<Rightarrow> []) @
     (let source = dget (ck_metadata c) ''source'' in if truthy source then [py_str lib source] else [])"

definition title_bonus :: "string set \<Rightarrow> chunk_document \<Rightarrow> real" where
  "title_bonus query_terms c =
     (if query_terms \<inter> rag_tokens (or_empty (ck_title c)) \<noteq> {} then 1 / 10 else 0)"

definition lexical_overlap_score :: "pylib \<Rightarrow> string \<Rightarrow> chunk_document \<Rightarrow> real" where
  "lexical_overlap_score lib query c =
     (let query_terms = rag_tokens query;
          content_terms = rag_tokens (str_join '' '' (lexical_fields lib c))
      in if query_terms = {} \<or> content_terms = {} then 0
         else min 1 (py_round 6
                (real (card (query_terms \<inter> content_terms)) / real (card query_terms) + title_bonus query_terms c)))"

definition raw_score :: "pydict \<Rightarrow> real" where
  "raw_score row = (case as_number (dget_or row ''_score'' (PFloat 0)) of Some x \<Rightarrow> x | None \<Rightarrow> 0)"

definition score_row :: "pylib \<Rightarrow> string \<Rightarrow> real \<Rightarrow> pydict \<Rightarrow> retrieved_chunk result" where
  "score_row lib query weight row =
     bindR (from_search_result lib row) (\<lambda>c.
       let lexical = lexical_overlap_score lib query c
       in Inr \<lparr>rt_chunk = c, rt_knn = raw_score row, rt_lexical = lexical,
               rt_ranking = raw_score row + lexical * weight\<rparr>)"

text \<open>
  The sort key: ranking, kNN and lexical scores, highest first, then the identifier in
  ascending order of its characters.
\<close>

fun str_less :: "string \<Rightarrow> string \<Rightarrow> bool" where
  "str_less [] [] = False"
| "str_less [] (d # ds) = True"
| "str_less (c # cs) [] = False"
| "str_less (c # cs) (d # ds) =
     ((of_char c :: nat) < of_char d \<or> (c = d \<and> str_less cs ds))"

definition ranked_before :: "retrieved_chunk \<Rightarrow> retrieved_chunk \<Rightarrow> bool" where
  "ranked_before a b \<longleftrightarrow>
     rt_ranking b < rt_ranking a \<or> (rt_ranking a = rt_ranking b \<and>
      (rt_knn b < rt_knn a \<or> (rt_knn a = rt_knn b \<and>
       (rt_lexical b < rt_lexical a \<or> (rt_lexical a = rt_lexical b \<and>
        str_less (ck_id (rt_chunk a)) (ck_id (rt_chunk b)))))))"

text \<open>A stable sort by a strict order: an element goes after every element it does not precede.\<close>

fun insert_ranked :: "retrieved_chunk \<Rightarrow> retrieved_chunk list \<Rightarrow> retrieved_chunk list" where
  "insert_ranked x [] = [x]"
| "insert_ranked x (y # ys) = (if ranked_before y x then y # insert_ranked x ys else x # y # ys)"

definition sort_ranked :: "retrieved_chunk list \<Rightarrow> retrieved_chunk list" where
  "sort_ranked xs = foldr insert_ranked xs []"

definition rerank_retrieved_chunks ::
  "pylib \<Rightarrow> string \<Rightarrow> pydict list \<Rightarrow> real \<Rightarrow> retrieved_chunk list result" where
  "rerank_retrieved_chunks lib query rows weight =
     bindR (mapR (score_row lib query weight) rows) (\<lambda>scored. Inr (sort_ranked scored))"

section \<open>RAGPipeline\<close>

record 's rag_pipeline =
  rg_store :: "'s search_ops"
  rg_embed :: "embedding_request \<Rightarrow> ('s, embedding_result) pm"
  rg_index :: string
  rg_chunking :: chunking_config
  rg_dimensions :: int
  rg_weight :: real

definition COSINE :: string where "COSINE = ''cosine''"

definition count_text :: "nat \<Rightarrow> int \<Rightarrow> string" where
  "count_text got expected =
     ''Embedding provider returned '' @ int_str (int got) @ '' vectors, expected '' @ int_str expected"

definition reported_text :: "int \<Rightarrow> int \<Rightarrow> string" where
  "reported_text got expected =
     ''Embedding provider reported '' @ int_str got @ '' dimensions, expected '' @ int_str expected"

definition vector_text :: "nat \<Rightarrow> int \<Rightarrow> string" where
  "vector_text got expected =
     ''Embedding vector has '' @ int_str (int got) @ '' dimensions, expected '' @ int_str expected"

definition validate_embeddings :: "int \<Rightarrow> embedding_result \<Rightarrow> nat \<Rightarrow> unit result" where
  "validate_embeddings dimensions embeddings expected_count =
     (if length (ev_vectors embeddings) \<noteq> expected_count
      then Inl (ValueError (count_text (length (ev_vectors embeddings)) (int expected_count)))
      else if ev_dimensions embeddings \<noteq> dimensions
      then Inl (ValueError (reported_text (ev_dimensions embeddings) dimensions))
      else case filter (\<lambda>v. int (length v) \<noteq> dimensions) (ev_vectors embeddings) of
        [] \<Rightarrow> Inr ()
      | v # _ \<Rightarrow> Inl (ValueError (vector_text (length v) dimensions)))"

definition embed_texts :: "'s rag_pipeline \<Rightarrow> string list \<Rightarrow> ('s, embedding_result) pm" where
  "embed_texts rag texts =
     bindM (rg_embed rag \<lparr>er_texts = texts, er_dimensions = rg_dimensions rag\<rparr>) (\<lambda>embeddings.
     bindM (liftR (validate_embeddings (rg_dimensions rag) embeddings (length texts))) (\<lambda>_.
       returnM embeddings))"

text \<open>
  \<open>asyncio.gather\<close> of the writes: each runs, in order, whatever the others do; the first
  exception is the one raised.
\<close>

primrec gather_all :: "('s, unit) pm list \<Rightarrow> ('s, unit) pm" where
  "gather_all [] = returnM ()"
| "gather_all (m # ms) = (\<lambda>s. case m s of
      (Inl e, s') \<Rightarrow> (Inl e, snd (gather_all ms s'))
    | (Inr _, s') \<Rightarrow> gather_all ms s')"

definition index_chunk :: "pylib \<Rightarrow> 's rag_pipeline \<Rightarrow> chunk_document \<times> real list \<Rightarrow> ('s, unit) pm" where
  "index_chunk lib rag p =
     so_index (rg_store rag) (rg_index rag) (ck_id (fst p)) (to_search_document lib (fst p)) (Some (snd p))"

definition index_source_document ::
  "pylib \<Rightarrow> 's rag_pipeline \<Rightarrow> source_document \<Rightarrow> ('s, chunk_document list) pm" where
  "index_source_document lib rag d =
     bindM (liftR (chunk_source lib d (Some (rg_chunking rag)))) (\<lambda>chunks.
       if chunks = [] then returnM []
       else thenM (so_ensure (rg_store rag) (rg_index rag) (rg_dimensions rag) COSINE)
         (bindM (embed_texts rag (map ck_text chunks)) (\<lambda>embeddings.
            thenM (gather_all (map (index_chunk lib rag) (zip chunks (ev_vectors embeddings))))
              (returnM chunks))))"

definition retrieve_chunks ::
  "pylib \<Rightarrow> 's rag_pipeline \<Rightarrow> string \<Rightarrow> int \<Rightarrow> int option \<Rightarrow> ('s, retrieved_chunk list) pm" where
  "retrieve_chunks lib rag query top_k candidate_k =
     (if top_k \<le> 0 then returnM []
      else thenM (so_ensure (rg_store rag) (rg_index rag) (rg_dimensions rag) COSINE)
        (bindM (embed_texts rag [query]) (\<lambda>embeddings.
           let wanted = (case candidate_k of Some k \<Rightarrow> if k \<noteq> 0 then k else top_k | None \<Rightarrow> top_k) in
           bindM (so_knn (rg_store rag) (rg_index rag) (hd (ev_vectors embeddings)) (max top_k wanted)) (\<lambda>rows.
           bindM (liftR (rerank_retrieved_chunks lib query rows (rg_weight rag))) (\<lambda>reranked.
             returnM (slice_first top_k reranked))))))"

definition build_context_documents ::
  "pylib \<Rightarrow> 's rag_pipeline \<Rightarrow> string \<Rightarrow> int \<Rightarrow> int option \<Rightarrow> ('s, context_document list) pm" where
  "build_context_documents lib rag query top_k candidate_k =
     bindM (retrieve_chunks lib rag query top_k candidate_k) (\<lambda>retrieved.
       returnM (map (to_context_document lib) retrieved))"

end
