(* ===== verification/RagProps.thy ===== *)
theory RagProps
  imports Rag ProviderProps "HOL-Library.Multiset"
begin

text \<open>
  What the retrieval pipeline promises: a chunk read back from the store is the chunk that
  was indexed, reranking permutes the rows and moves a chunk by at most the lexical
  weight, and retrieval returns only chunks that were indexed.  The last is proved once
  over the contract of the search port and interpreted on the in-memory store with the
  offline provider.
\<close>

section \<open>Round trip through the store\<close>

definition storable :: "chunk_document \<Rightarrow> bool" where
  "storable c \<longleftrightarrow> ck_id c \<noteq> [] \<and> ck_source c \<noteq> [] \<and> map_of (ck_metadata c) ''citation'' \<noteq> None"

lemma to_opt_str_opt [simp]: "to_opt_str (opt_str t) = t"
  by (simp add: to_opt_str_def opt_str_def split: option.split)

lemma from_to_search:
  assumes "storable c"
  shows "from_search_result lib (dict_set (dict_set (to_search_document lib c) ''_score'' sc) ''_id'' i) = Inr c"
proof -
  have "to_dict (PDict (ck_metadata c)) = Inr (ck_metadata c)" by (simp add: to_dict_def)
  then show ?thesis using assms
    by (cases c) (auto simp: from_search_result_def to_search_document_def id_field_def to_int_def py_or_def
        row_metadata_def storable_def Let_def)
qed

text \<open>
  indexing and reading back are inverse: a chunk written with
  \<open>to_search_document\<close>, returned by the store with a score and an identifier and read with
  \<open>from_search_result\<close>, is the same chunk in every field, provided its identifiers are not
  empty and its metadata carries a citation, as the chunker ensures.
\<close>

theorem chunk_roundtrip:
  assumes "ck_id c \<noteq> []" "ck_source c \<noteq> []" "map_of (ck_metadata c) ''citation'' \<noteq> None"
  shows "from_search_result lib (result_row (sc, i, to_search_document lib c)) = Inr c"
  using from_to_search [of c lib "PFloat sc" "PStr i"] assms by (simp add: result_row_def storable_def)

section \<open>Reranking\<close>

lemma mset_insert_ranked: "mset (insert_ranked x ys) = add_mset x (mset ys)"
  by (induction ys) auto

lemma mset_sort_ranked: "mset (sort_ranked xs) = mset xs"
  unfolding sort_ranked_def by (induction xs) (auto simp: mset_insert_ranked)

lemma str_less_irrefl: "\<not> str_less a a"
  by (induction a) auto

lemma str_less_trans: "str_less a b \<Longrightarrow> str_less b c \<Longrightarrow> str_less a c"
proof (induction a b arbitrary: c rule: str_less.induct)
  case (2 d ds)
  then show ?case by (cases c) auto
next
  case (4 x xs y ys)
  then show ?case by (cases c) auto
qed auto

lemma str_less_total: "str_less a b \<or> a = b \<or> str_less b a"
proof (induction a b rule: str_less.induct)
  case (4 x xs y ys)
  have "(of_char x :: nat) < of_char y \<or> x = y \<or> (of_char y :: nat) < of_char x"
    by (metis linorder_less_linear of_char_eq_iff)
  then show ?case using 4 by auto
qed auto

lemma ranked_before_trans: "ranked_before a b \<Longrightarrow> ranked_before b c \<Longrightarrow> ranked_before a c"
  by (auto simp: ranked_before_def dest: str_less_trans)

lemma not_ranked_before_trans: "\<not> ranked_before b a \<Longrightarrow> \<not> ranked_before c b \<Longrightarrow> \<not> ranked_before c a"
  using str_less_total str_less_trans by (smt (verit) ranked_before_def)

lemma ranked_before_asym: "ranked_before a b \<Longrightarrow> \<not> ranked_before b a"
  by (auto simp: ranked_before_def dest: str_less_trans simp: str_less_irrefl)

abbreviation in_rank_order :: "retrieved_chunk list \<Rightarrow> bool" where
  "in_rank_order xs \<equiv> sorted_wrt (\<lambda>a b. \<not> ranked_before b a) xs"

lemma set_insert_ranked [simp]: "set (insert_ranked x ys) = insert x (set ys)"
  by (induction ys) auto

lemma insert_ranked_sorted: "in_rank_order ys \<Longrightarrow> in_rank_order (insert_ranked x ys)"
proof (induction ys)
  case (Cons y ys)
  show ?case
  proof (cases "ranked_before y x")
    case True
    then show ?thesis using Cons ranked_before_asym by auto
  next
    case False
    then show ?thesis using Cons.prems not_ranked_before_trans by fastforce
  qed
qed simp

lemma sort_ranked_sorted: "in_rank_order (sort_ranked xs)"
  unfolding sort_ranked_def by (induction xs) (auto intro: insert_ranked_sorted)

lemma card_ratio: "finite B \<Longrightarrow> real (card (A \<inter> B)) / real (card A) \<ge> 0"
  by simp

lemma lexical_bounds: "0 \<le> lexical_overlap_score lib q c \<and> lexical_overlap_score lib q c \<le> 1"
proof -
  have "of_int 0 \<le> real (card (rag_tokens q \<inter> T)) / real (card (rag_tokens q)) + title_bonus (rag_tokens q) c" for T
    by (simp add: title_bonus_def)
  then have pos: "0 \<le> py_round 6 (real (card (rag_tokens q \<inter> T)) / real (card (rag_tokens q)) + title_bonus (rag_tokens q) c)" for T
    using py_round_bounds [of 0 _ "\<lceil>real (card (rag_tokens q \<inter> T)) / real (card (rag_tokens q)) + title_bonus (rag_tokens q) c\<rceil>" 6]
      le_of_int_ceiling by fastforce
  show ?thesis by (simp add: lexical_overlap_score_def Let_def pos)
qed

lemma score_row_parts:
  "score_row lib q w row = Inr r \<Longrightarrow>
     from_search_result lib row = Inr (rt_chunk r) \<and> rt_knn r = raw_score row \<and>
     rt_ranking r = rt_knn r + lexical_overlap_score lib q (rt_chunk r) * w"
  by (auto simp: score_row_def bindR_Inr_iff Let_def)

lemma rerank_parts:
  assumes "rerank_retrieved_chunks lib q rows w = Inr rs"
  obtains scored where "list_all2 (\<lambda>row r. score_row lib q w row = Inr r) rows scored" "rs = sort_ranked scored"
  using assms by (auto simp: rerank_retrieved_chunks_def bindR_Inr_iff mapR_Inr_iff)

text \<open>
  reranking only reorders close neighbours: it returns one chunk per row, in
  descending order of the ranking score, and no chunk is placed after one whose kNN score
  is lower by more than the lexical weight.
\<close>

theorem rerank_is_close:
  assumes "rerank_retrieved_chunks lib q rows w = Inr rs" "0 \<le> w"
  shows "length rs = length rows
    \<and> mset (map rt_knn rs) = mset (map raw_score rows)
    \<and> sorted_wrt (\<lambda>a b. rt_ranking b \<le> rt_ranking a) rs
    \<and> sorted_wrt (\<lambda>a b. rt_knn b \<le> rt_knn a + w) rs"
proof -
  from assms(1) obtain scored where sc: "list_all2 (\<lambda>row r. score_row lib q w row = Inr r) rows scored"
    and rs: "rs = sort_ranked scored" by (rule rerank_parts)
  have "length rs = length rows"
    using arg_cong [OF mset_sort_ranked [of scored], of size] list_all2_lengthD [OF sc] by (simp add: rs)
  moreover have "mset (map rt_knn rs) = mset (map raw_score rows)"
  proof -
    have "map rt_knn scored = map raw_score rows"
      using sc by (induction rule: list_all2_induct) (auto dest: score_row_parts)
    then show ?thesis unfolding rs by (metis mset_map mset_sort_ranked)
  qed
  moreover have rank: "sorted_wrt (\<lambda>a b. rt_ranking b \<le> rt_ranking a) rs"
    unfolding rs by (rule sorted_wrt_mono_rel [OF _ sort_ranked_sorted]) (auto simp: ranked_before_def)
  moreover have "sorted_wrt (\<lambda>a b. rt_knn b \<le> rt_knn a + w) rs"
  proof (rule sorted_wrt_mono_rel [OF _ rank])
    fix a b assume ab: "a \<in> set rs" "b \<in> set rs" "rt_ranking b \<le> rt_ranking a"
    have "set rs = set scored" by (metis mset_sort_ranked rs set_mset_mset)
    then have near: "rt_knn r \<le> rt_ranking r \<and> rt_ranking r \<le> rt_knn r + w" if "r \<in> set rs" for r
      using list_all2_source [OF sc, of r] that lexical_bounds [of lib q "rt_chunk r"] assms(2)
      by (auto dest!: score_row_parts simp: mult_left_le_one_le)
    show "rt_knn b \<le> rt_knn a + w" using near [OF ab(1)] near [OF ab(2)] ab(3) by linarith
  qed
  ultimately show ?thesis by blast
qed

section \<open>Retrieval over the contract of the port\<close>

text \<open>The chunks an index holds, as the abstract state of the pipeline.\<close>

definition holds_chunks ::
  "pylib \<Rightarrow> ('s \<Rightarrow> string \<Rightarrow> string \<Rightarrow> pydict option) \<Rightarrow> string \<Rightarrow> chunk_document set \<Rightarrow> 's \<Rightarrow> bool" where
  "holds_chunks lib docs index C s \<longleftrightarrow>
     (\<forall>i doc. docs s index i = Some doc \<longrightarrow> (\<exists>c\<in>C. storable c \<and> doc = to_search_document lib c))"

lemma holds_chunks_mono: "holds_chunks lib docs index C s \<Longrightarrow> C \<subseteq> D \<Longrightarrow> holds_chunks lib docs index D s"
  unfolding holds_chunks_def by blast

definition chunks_of :: "pylib \<Rightarrow> chunking_config \<Rightarrow> source_document \<Rightarrow> chunk_document set" where
  "chunks_of lib cfg d = (case chunk_source lib d (Some cfg) of Inl _ \<Rightarrow> {} | Inr cks \<Rightarrow> set cks)"

locale retrieval = vector_store "rg_store rag" docs sinv
  for rag :: "'s rag_pipeline" and docs :: "'s \<Rightarrow> string \<Rightarrow> string \<Rightarrow> pydict option" and sinv :: "'s \<Rightarrow> bool" +
  assumes embed_keeps: "docs (snd (rg_embed rag r s)) = docs s"
    and embed_inv: "sinv s \<Longrightarrow> sinv (snd (rg_embed rag r s))"
begin

abbreviation holds where
  "holds lib C s \<equiv> sinv s \<and> holds_chunks lib docs (rg_index rag) C s"

lemma ensure_holds: "triple (holds lib C) (so_ensure (rg_store rag) i n sim) (\<lambda>_. holds lib C) (\<lambda>_. holds lib C)"
  by (auto simp: triple_keep inv_ensure holds_chunks_def ensure_keeps)

lemma embed_texts_holds: "triple (holds lib C) (embed_texts rag ts) (\<lambda>_. holds lib C) (\<lambda>_. holds lib C)"
proof -
  have "triple (holds lib C) (rg_embed rag r) (\<lambda>_. holds lib C) (\<lambda>_. holds lib C)" for r
    by (auto simp: triple_keep embed_inv holds_chunks_def embed_keeps)
  then show ?thesis
    unfolding embed_texts_def by (intro triple_bind triple_liftR triple_return) auto
qed

lemma knn_holds:
  assumes "0 \<le> k"
  shows "triple (holds lib C) (so_knn (rg_store rag) (rg_index rag) q k)
    (\<lambda>rows s. int (length rows) \<le> k \<and> (\<forall>row\<in>set rows. \<exists>c\<in>C. from_search_result lib row = Inr c))
    (\<lambda>_ _. True)"
proof (rule tripleI)
  fix s rows s'
  assume h: "holds lib C s" and run: "so_knn (rg_store rag) (rg_index rag) q k s = (Inr rows, s')"
  then have rows: "int (length rows) \<le> k"
    "\<forall>row\<in>set rows. \<exists>i doc sc. docs s (rg_index rag) i = Some doc \<and>
        row = dict_set (dict_set doc ''_score'' (PFloat sc)) ''_id'' (PStr i)"
    using knn_rows [of s "rg_index rag" q k rows] assms by simp_all
  have "\<exists>c\<in>C. from_search_result lib row = Inr c" if row_in: "row \<in> set rows" for row
  proof -
    obtain i doc sc where "docs s (rg_index rag) i = Some doc"
      and row: "row = dict_set (dict_set doc ''_score'' (PFloat sc)) ''_id'' (PStr i)"
      using bspec [OF rows(2) row_in] by (elim exE conjE)
    then obtain c where "c \<in> C" "storable c" "doc = to_search_document lib c"
      using h unfolding holds_chunks_def by blast
    then show ?thesis using from_to_search row by blast
  qed
  with rows(1) show "int (length rows) \<le> k \<and> (\<forall>row\<in>set rows. \<exists>c\<in>C. from_search_result lib row = Inr c)"
    by blast
qed simp

lemma retrieve_from_index:
  "triple (holds lib C) (retrieve_chunks lib rag query top_k candidate_k)
     (\<lambda>rs s. int (length rs) \<le> max 0 top_k \<and> rt_chunk ` set rs \<subseteq> C) (\<lambda>_ _. True)"
proof (cases "top_k \<le> 0")
  case True
  then show ?thesis by (simp add: retrieve_chunks_def triple_return)
next
  case False
  let ?k = "max top_k (case candidate_k of Some k \<Rightarrow> if k \<noteq> 0 then k else top_k | None \<Rightarrow> top_k)"
  have rerank: "int (length (slice_first top_k rs)) \<le> max 0 top_k \<and> rt_chunk ` set (slice_first top_k rs) \<subseteq> C"
    if "\<forall>row\<in>set rows. \<exists>c\<in>C. from_search_result lib row = Inr c"
      "rerank_retrieved_chunks lib query rows w = Inr rs" for rows rs w
  proof -
    from that(2) obtain scored where sc: "list_all2 (\<lambda>row r. score_row lib query w row = Inr r) rows scored"
      and rs: "rs = sort_ranked scored" by (rule rerank_parts)
    have "set rs = set scored" by (metis mset_sort_ranked rs set_mset_mset)
    then have "rt_chunk r \<in> C" if "r \<in> set rs" for r
      using list_all2_source [OF sc, of r] that \<open>\<forall>row\<in>set rows. _ row\<close> by (auto dest!: score_row_parts)
    then show ?thesis using False set_slice_first [of top_k rs] by (auto simp: slice_first_def)
  qed
  let ?post = "\<lambda>rs (s :: 's). int (length rs) \<le> max 0 top_k \<and> rt_chunk ` set rs \<subseteq> C"
  have tail: "triple (holds lib C)
      (bindM (so_knn (rg_store rag) (rg_index rag) q ?k) (\<lambda>rows.
       bindM (liftR (rerank_retrieved_chunks lib query rows (rg_weight rag))) (\<lambda>reranked.
         returnM (slice_first top_k reranked)))) ?post (\<lambda>_ _. True)" for q
  proof (rule triple_bind [OF knn_holds])
    show "0 \<le> ?k" using False by simp
    show "triple (\<lambda>s. int (length rows) \<le> ?k \<and> (\<forall>row\<in>set rows. \<exists>c\<in>C. from_search_result lib row = Inr c))
      (bindM (liftR (rerank_retrieved_chunks lib query rows (rg_weight rag))) (\<lambda>reranked.
         returnM (slice_first top_k reranked))) ?post (\<lambda>_ _. True)" for rows
      by (rule triple_bind [OF triple_liftR [where Q = "\<lambda>rs _. int (length (slice_first top_k rs)) \<le> max 0 top_k
            \<and> rt_chunk ` set (slice_first top_k rs) \<subseteq> C"]])
        (auto dest: rerank intro: triple_return)
  qed
  have embed: "triple (holds lib C) (embed_texts rag ts) (\<lambda>_. holds lib C) (\<lambda>_ _. True)" for ts
    by (rule triple_weaken [OF embed_texts_holds]) auto
  have ensure: "triple (holds lib C) (so_ensure (rg_store rag) i n sim) (\<lambda>_. holds lib C) (\<lambda>_ _. True)" for i n sim
    by (rule triple_weaken [OF ensure_holds]) auto
  show ?thesis
    using False triple_then [OF ensure triple_bind [OF embed tail]]
    by (simp add: retrieve_chunks_def Let_def)
qed

lemma index_chunk_holds:
  assumes "fst p \<in> C" "storable (fst p)"
  shows "holds lib C s \<Longrightarrow> holds lib C (snd (index_chunk lib rag p s))"
proof -
  assume h: "holds lib C s"
  let ?op = "so_index (rg_store rag) (rg_index rag) (ck_id (fst p)) (to_search_document lib (fst p)) (Some (snd p))"
  have "holds_chunks lib docs (rg_index rag) C (snd (?op s))"
  proof (cases "fst (?op s)")
    case (Inl e)
    then show ?thesis using h index_refused by (simp add: holds_chunks_def)
  next
    case (Inr u)
    then have "docs (snd (?op s)) (rg_index rag) = (docs s (rg_index rag))(ck_id (fst p) \<mapsto> to_search_document lib (fst p))"
      using index_done [of "rg_index rag" "ck_id (fst p)" "to_search_document lib (fst p)" "Some (snd p)" s] by simp
    then show ?thesis using h assms unfolding holds_chunks_def by auto
  qed
  then show ?thesis using h inv_index by (simp add: index_chunk_def)
qed

lemma gather_holds:
  "\<forall>p\<in>set ps. fst p \<in> C \<and> storable (fst p) \<Longrightarrow> holds lib C s \<Longrightarrow>
     holds lib C (snd (gather_all (map (index_chunk lib rag) ps) s))"
proof (induction ps arbitrary: s)
  case (Cons p ps)
  then have "holds lib C (snd (index_chunk lib rag p s))" using index_chunk_holds [of p C s lib] by simp
  with Cons show ?case by (simp split: prod.split sum.split) (metis snd_conv)
qed (simp_all add: returnM_def)

lemma gather_keeps:
  "k \<notin> ck_id ` fst ` set ps \<Longrightarrow> fst (gather_all (map (index_chunk lib rag) ps) s) = Inr () \<Longrightarrow>
     docs (snd (gather_all (map (index_chunk lib rag) ps) s)) (rg_index rag) k = docs s (rg_index rag) k"
proof (induction ps arbitrary: s)
  case (Cons p ps)
  obtain r s1 where p: "index_chunk lib rag p s = (r, s1)" by fastforce
  have r: "r = Inr ()" using Cons.prems(2) p by (cases r) auto
  have "docs s1 (rg_index rag) = (docs s (rg_index rag))(ck_id (fst p) \<mapsto> to_search_document lib (fst p))"
    using index_done [of "rg_index rag" "ck_id (fst p)" "to_search_document lib (fst p)" "Some (snd p)" s] p r
    by (simp add: index_chunk_def)
  then show ?case using Cons p r by simp
qed (simp add: returnM_def)

lemma gather_stores:
  "distinct (map (\<lambda>p. ck_id (fst p)) ps) \<Longrightarrow> fst (gather_all (map (index_chunk lib rag) ps) s) = Inr () \<Longrightarrow>
     p \<in> set ps \<Longrightarrow>
     docs (snd (gather_all (map (index_chunk lib rag) ps) s)) (rg_index rag) (ck_id (fst p))
       = Some (to_search_document lib (fst p))"
proof (induction ps arbitrary: s)
  case (Cons q ps)
  obtain r s1 where q: "index_chunk lib rag q s = (r, s1)" by fastforce
  have r: "r = Inr ()" using Cons.prems(2) q by (cases r) auto
  have d: "docs s1 (rg_index rag) = (docs s (rg_index rag))(ck_id (fst q) \<mapsto> to_search_document lib (fst q))"
    using index_done [of "rg_index rag" "ck_id (fst q)" "to_search_document lib (fst q)" "Some (snd q)" s] q r
    by (simp add: index_chunk_def)
  have rest: "fst (gather_all (map (index_chunk lib rag) ps) s1) = Inr ()" using Cons.prems(2) q r by simp
  show ?case
  proof (cases "p = q")
    case True
    have "ck_id (fst q) \<notin> ck_id ` fst ` set ps" using Cons.prems(1) by (auto simp: image_image)
    from gather_keeps [OF this rest] show ?thesis using q r d True by simp
  next
    case False
    then show ?thesis using Cons.IH [OF _ rest] Cons.prems q r by simp
  qed
qed simp

lemma index_stores:
  assumes src: "sd_doc_id d \<noteq> []"
  shows "triple (holds lib C) (index_source_document lib rag d)
    (\<lambda>cks s. holds lib (C \<union> chunks_of lib (rg_chunking rag) d) s \<and>
       (\<forall>c\<in>set cks. docs s (rg_index rag) (ck_id c) = Some (to_search_document lib c)))
    (\<lambda>_. holds lib (C \<union> chunks_of lib (rg_chunking rag) d))"
proof (cases "chunk_source lib d (Some (rg_chunking rag))")
  case (Inl e)
  then show ?thesis
    by (simp add: index_source_document_def liftR_def bindM_def triple_def chunks_of_def)
next
  case (Inr cks)
  let ?D = "C \<union> chunks_of lib (rg_chunking rag) d"
  let ?good = "\<lambda>cks' s. holds lib ?D s \<and> (\<forall>c\<in>set cks'. docs s (rg_index rag) (ck_id c) = Some (to_search_document lib c))"
  have grow: "holds lib C s \<Longrightarrow> holds lib ?D s" for s by (auto intro: holds_chunks_mono)
  have fields: "\<forall>c\<in>set cks. c \<in> ?D \<and> storable c"
    using chunk_source_fields [OF Inr] src by (auto simp: storable_def chunks_of_def Inr)
  have gather: "triple (holds lib ?D) (gather_all (map (index_chunk lib rag) (zip cks (ev_vectors emb))))
      (\<lambda>_. ?good cks) (\<lambda>_. holds lib ?D)" if len: "length (ev_vectors emb) = length cks" for emb
  proof -
    let ?ps = "zip cks (ev_vectors emb)"
    have ps: "\<forall>p\<in>set ?ps. fst p \<in> ?D \<and> storable (fst p)" using fields by (auto dest: set_zip_leftD)
    have ids: "map (\<lambda>p. ck_id (fst p)) ?ps = map ck_id cks"
      using len by (simp flip: map_map [of ck_id fst, unfolded o_def])
    have "distinct (map (\<lambda>p. ck_id (fst p)) ?ps)" unfolding ids by (rule chunk_source_distinct [OF Inr])
    note stores = gather_stores [OF this]
    have mem: "\<exists>p\<in>set ?ps. fst p = c" if "c \<in> set cks" for c
      using that len by (auto simp: in_set_conv_nth set_zip intro!: bexI)
    show ?thesis
    proof (rule tripleI)
      fix s x s' assume h: "holds lib ?D s" and run: "gather_all (map (index_chunk lib rag) ?ps) s = (Inr x, s')"
      have "holds lib ?D s'" using gather_holds [OF ps h] run by simp
      moreover have "docs s' (rg_index rag) (ck_id c) = Some (to_search_document lib c)" if "c \<in> set cks" for c
        using mem [OF that] stores [of lib s] run by auto
      ultimately show "?good cks s'" by blast
    next
      fix s e s' assume h: "holds lib ?D s" and run: "gather_all (map (index_chunk lib rag) ?ps) s = (Inl e, s')"
      then show "holds lib ?D s'" using gather_holds [OF ps h] by simp
    qed
  qed
  have embed: "triple (holds lib C) (embed_texts rag (map ck_text cks))
      (\<lambda>emb s. holds lib ?D s \<and> length (ev_vectors emb) = length cks) (\<lambda>_. holds lib ?D)"
  proof -
    have "triple (holds lib C) (rg_embed rag r) (\<lambda>_. holds lib ?D) (\<lambda>_. holds lib ?D)" for r
      by (rule triple_weaken [where P' = "holds lib ?D" and Q' = "\<lambda>_. holds lib ?D" and E' = "\<lambda>_. holds lib ?D"])
        (auto simp: triple_keep embed_inv holds_chunks_def embed_keeps)
    then show ?thesis unfolding embed_texts_def
      by (rule triple_bind)
        (intro triple_bind [OF triple_liftR [where Q = "\<lambda>_ s. holds lib ?D s \<and> _ s"]] triple_return,
          auto simp: validate_embeddings_def split: if_splits)
  qed
  have stored: "triple (\<lambda>s. holds lib ?D s \<and> length (ev_vectors emb) = length cks)
      (thenM (gather_all (map (index_chunk lib rag) (zip cks (ev_vectors emb)))) (returnM cks))
      ?good (\<lambda>_. holds lib ?D)" for emb
  proof (cases "length (ev_vectors emb) = length cks")
    case True
    have "triple (holds lib ?D)
      (thenM (gather_all (map (index_chunk lib rag) (zip cks (ev_vectors emb)))) (returnM cks)) ?good (\<lambda>_. holds lib ?D)"
      by (rule triple_then [OF gather [OF True] triple_return]) simp
    then show ?thesis using True by simp
  qed (simp add: triple_def)
  have ensure: "triple (holds lib C) (so_ensure (rg_store rag) i n sim) (\<lambda>_. holds lib C) (\<lambda>_. holds lib ?D)" for i n sim
    by (rule triple_weaken [OF ensure_holds [where C = C and lib = lib]]) (auto intro: holds_chunks_mono)
  show ?thesis
  proof (cases "cks = []")
    case True
    then show ?thesis using grow by (simp add: index_source_document_def Inr liftR_def bindM_def triple_def returnM_def)
  next
    case False
    have "index_source_document lib rag d = thenM (so_ensure (rg_store rag) (rg_index rag) (rg_dimensions rag) COSINE)
        (bindM (embed_texts rag (map ck_text cks)) (\<lambda>emb.
          thenM (gather_all (map (index_chunk lib rag) (zip cks (ev_vectors emb)))) (returnM cks)))"
      using False by (intro ext) (simp add: index_source_document_def Inr liftR_def bindM_apply)
    then show ?thesis using triple_then [OF ensure triple_bind [OF embed stored]] by simp
  qed
qed

end

section \<open>The in-memory store with the offline provider\<close>

definition mock_rag :: "pylib \<Rightarrow> llm_lib \<Rightarrow> np_linalg option \<Rightarrow> string \<Rightarrow> int \<Rightarrow> inmem_search rag_pipeline" where
  "mock_rag lib ll np model dims =
     \<lparr>rg_store = inmem_search_ops lib np, rg_embed = (\<lambda>r s. (mock_embed ll model r, s)),
      rg_index = ''rag-documents'', rg_chunking = default_chunking, rg_dimensions = dims, rg_weight = 4 / 100\<rparr>"

lemma mock_rag_sel [simp]:
  "rg_store (mock_rag lib ll np model dims) = inmem_search_ops lib np"
  "rg_embed (mock_rag lib ll np model dims) r s = (mock_embed ll model r, s)"
  "rg_index (mock_rag lib ll np model dims) = ''rag-documents''"
  "rg_chunking (mock_rag lib ll np model dims) = default_chunking"
  by (simp_all add: mock_rag_def)

interpretation mock: retrieval "mock_rag lib ll np model dims" documents search_inv
  for lib ll np model dims
  by (intro retrieval.intro retrieval_axioms.intro)
    (simp_all add: im.vector_store_axioms)

text \<open>
  C27: retrieval returns what was indexed, and only that: on the in-memory store with the
  offline provider, an index that holds chunks of a set \<open>C\<close> holds, after a document is
  indexed (even when that raises), chunks of \<open>C\<close> and of the document only, and when
  indexing returns every chunk is stored under its identifier; and a retrieval returns at
  most \<open>top_k\<close> chunks, each equal in every field to one of \<open>C\<close>.
\<close>

theorem retrieval_sound:
  assumes inv: "search_inv st" and idx: "holds_chunks lib documents ''rag-documents'' C st" and id: "sd_doc_id d \<noteq> []"
  shows "(\<forall>r st'. index_source_document lib (mock_rag lib ll np model dims) d st = (r, st') \<longrightarrow>
            search_inv st' \<and>
            holds_chunks lib documents ''rag-documents'' (C \<union> chunks_of lib default_chunking d) st' \<and>
            (\<forall>cks. r = Inr cks \<longrightarrow> (\<forall>c\<in>set cks. documents st' ''rag-documents'' (ck_id c) = Some (to_search_document lib c))))
       \<and> (\<forall>rs st'. retrieve_chunks lib (mock_rag lib ll np model dims) query top_k candidate_k st = (Inr rs, st') \<longrightarrow>
            int (length rs) \<le> max 0 top_k \<and> rt_chunk ` set rs \<subseteq> C)"
proof (intro conjI allI impI)
  fix r st' assume run: "index_source_document lib (mock_rag lib ll np model dims) d st = (r, st')"
  have pre: "search_inv st \<and> holds_chunks lib documents (rg_index (mock_rag lib ll np model dims)) C st"
    using inv idx by simp
  note ok = mock.index_stores [OF id, THEN tripleD_ok, OF pre] and err = mock.index_stores [OF id, THEN tripleD_err, OF pre]
  have "search_inv st' \<and> holds_chunks lib documents ''rag-documents'' (C \<union> chunks_of lib default_chunking d) st'
    \<and> (\<forall>cks. r = Inr cks \<longrightarrow> (\<forall>c\<in>set cks. documents st' ''rag-documents'' (ck_id c) = Some (to_search_document lib c)))"
  proof (cases r)
    case (Inl e)
    then show ?thesis using err [of e st'] run by simp
  next
    case (Inr cks)
    then show ?thesis using ok [of cks st'] run by simp
  qed
  then show "search_inv st'"
    "holds_chunks lib documents ''rag-documents'' (C \<union> chunks_of lib default_chunking d) st'"
    "\<And>cks. r = Inr cks \<Longrightarrow> \<forall>c\<in>set cks. documents st' ''rag-documents'' (ck_id c) = Some (to_search_document lib c)"
    by auto
next
  fix rs st' assume run: "retrieve_chunks lib (mock_rag lib ll np model dims) query top_k candidate_k st = (Inr rs, st')"
  have pre: "search_inv st \<and> holds_chunks lib documents (rg_index (mock_rag lib ll np model dims)) C st"
    using inv idx by simp
  show "int (length rs) \<le> max 0 top_k" "rt_chunk ` set rs \<subseteq> C"
    using tripleD_ok [OF mock.retrieve_from_index pre run] by simp_all
qed

definition example_chunk :: chunk_document where
  "example_chunk =
     \<lparr>ck_id = ''d::chunk-0'', ck_source = ''d'', ck_index = 0, ck_text = ''btc gains'', ck_title = Some ''BTC'',
      ck_url = None, ck_metadata = [(''citation'', PStr ''d'')], ck_start = 0, ck_end = 9, ck_tokens = 2\<rparr>"

lemma example_read: "from_search_result null_lib (result_row (sc, i, to_search_document null_lib example_chunk)) = Inr example_chunk"
  using from_to_search [of example_chunk null_lib "PFloat sc" "PStr i"]
  by (simp add: result_row_def storable_def example_chunk_def)

theorem chunk_roundtrip_witness:
  "from_search_result null_lib (result_row (1, ''d::chunk-0'', to_search_document null_lib example_chunk)) = Inr example_chunk"
  by (rule chunk_roundtrip) (simp_all add: example_chunk_def)

theorem rerank_is_close_witness:
  "\<exists>rs. rerank_retrieved_chunks null_lib ''btc''
      [result_row (1 / 2, ''a'', to_search_document null_lib example_chunk),
       result_row (3 / 4, ''b'', to_search_document null_lib example_chunk)] (4 / 100) = Inr rs
    \<and> length rs = 2 \<and> sorted_wrt (\<lambda>a b. rt_knn b \<le> rt_knn a + 4 / 100) rs"
proof -
  let ?rows = "[result_row (1 / 2, ''a'', to_search_document null_lib example_chunk),
       result_row (3 / 4, ''b'', to_search_document null_lib example_chunk)]"
  obtain rs where rs: "rerank_retrieved_chunks null_lib ''btc'' ?rows (4 / 100) = Inr rs"
    by (simp add: rerank_retrieved_chunks_def score_row_def example_read Let_def)
  from rerank_is_close [OF rs] show ?thesis using rs by auto
qed

theorem retrieval_sound_witness:
  "\<exists>r st'. index_source_document null_lib (mock_rag null_lib example_llm None ''m'' 16)
      (example_document) inmem_search_init = (r, st') \<and> search_inv st' \<and>
      holds_chunks null_lib documents ''rag-documents'' (chunks_of null_lib default_chunking example_document) st'"
proof -
  obtain r st' where run: "index_source_document null_lib (mock_rag null_lib example_llm None ''m'' 16)
      (example_document) inmem_search_init = (r, st')" by fastforce
  have "holds_chunks null_lib documents ''rag-documents'' {} inmem_search_init"
    by (simp add: holds_chunks_def documents_def store_of_def inmem_search_init_def)
  from retrieval_sound [OF search_inv_init this, of example_document example_llm None "''m''" 16]
  show ?thesis using run by (force simp: example_document_def)
qed

end
