(* ===== verification/AIService.thy ===== *)
theory AIService
  imports Rag Cache Resilience StreamProps AlertRules
    "HOL-Library.Char_ord" "HOL-Library.List_Lexorder" "HOL-Library.Product_Lexorder"
begin

text \<open>
  \<open>services/ai/service.py\<close>: the worker that indexes news and signals, classifies them,
  generates an insight over the retrieved context (with a cache of generations), publishes
  it once per source event and symbol, and dead-letters what keeps failing.  The search
  store, the embedding provider and the language model act on one external state.
\<close>

section \<open>Keys and hashes\<close>

definition AI_SUBSCRIPTION :: string where "AI_SUBSCRIPTION = ''ai''"
definition AI_PROCESSED_PREFIX :: string where "AI_PROCESSED_PREFIX = ''ai-analysis:processed''"
definition LLM_CACHE_PREFIX :: string where "LLM_CACHE_PREFIX = ''ai-analysis:llm''"

definition stable_hash :: "pylib \<Rightarrow> pydict \<Rightarrow> string" where
  "stable_hash lib payload = sha256_hex lib (json_dumps_compact lib (PDict payload))"

definition news_content_hash :: "pylib \<Rightarrow> news_event \<Rightarrow> string \<Rightarrow> string" where
  "news_content_hash lib ev symbol = stable_hash lib
     [(''kind'', PStr ''news''), (''symbol'', PStr symbol), (''source'', PStr (ne_source ev)),
      (''title'', PStr (ne_title ev)), (''body'', PStr (ne_body ev)), (''url'', opt_str (ne_url ev)),
      (''author'', opt_str (ne_author ev))]"

definition news_processed_key :: "news_event \<Rightarrow> string \<Rightarrow> string" where
  "news_processed_key ev symbol = AI_PROCESSED_PREFIX @ '':news:'' @ event_id ev @ '':'' @ symbol"

definition indicators_value :: "signal_event \<Rightarrow> pyval" where
  "indicators_value sg = PDict (map (\<lambda>(k, v). (k, opt_float v)) (sg_indicators sg))"

definition signal_content_hash :: "pylib \<Rightarrow> signal_event \<Rightarrow> string" where
  "signal_content_hash lib sg = stable_hash lib
     [(''kind'', PStr ''signal''), (''symbol'', PStr (sg_symbol sg)), (''source'', PStr (sg_source sg)),
      (''ts'', PStr (isoformat lib (event_ts sg))), (''anomaly'', PBool (sg_anomaly sg)),
      (''indicators'', indicators_value sg)]"

definition signal_processed_key :: "signal_event \<Rightarrow> string" where
  "signal_processed_key sg = AI_PROCESSED_PREFIX @ '':signal:'' @ event_id sg"

text \<open>\<open>sorted({(citation, hash of the text)})\<close>: tuples of strings in code-point order.\<close>

definition context_payload :: "pylib \<Rightarrow> context_document list \<Rightarrow> pyval" where
  "context_payload lib context = PList (map (\<lambda>(c, h). PList [PStr c, PStr h])
     (sort (remdups (map (\<lambda>d. (context_citation lib d, sha256_hex lib (cd_text d))) context))))"

definition llm_cache_key ::
  "pylib \<Rightarrow> string \<Rightarrow> string \<Rightarrow> string \<Rightarrow> pydict \<Rightarrow> context_document list \<Rightarrow> string \<Rightarrow> string" where
  "llm_cache_key lib content_hash prompt query metadata context provider_name =
     LLM_CACHE_PREFIX @ '':'' @ stable_hash lib
       [(''content_hash'', PStr content_hash), (''prompt'', PStr prompt), (''query'', PStr query),
        (''metadata'', PDict (filter (\<lambda>(k, _). k \<noteq> ''source_event_id'') metadata)),
        (''context'', context_payload lib context), (''provider'', PStr provider_name)]"

section \<open>Event detection\<close>

record detection =
  ed_category :: string
  ed_label :: string
  ed_rationale :: string
  ed_framework :: string

definition detected :: "string \<Rightarrow> string \<Rightarrow> string \<Rightarrow> detection" where
  "detected category label rationale =
     \<lparr>ed_category = category, ed_label = label, ed_rationale = rationale, ed_framework = ''deterministic''\<rparr>"

definition mentions :: "string list \<Rightarrow> string \<Rightarrow> bool" where
  "mentions terms text \<longleftrightarrow> (\<exists>t \<in> set terms. str_contains t text)"

definition detect_news :: "news_event \<Rightarrow> string \<Rightarrow> detection" where
  "detect_news ev symbol =
     (let text = str_lower (ne_title ev @ '' '' @ ne_body ev) in
      if mentions [''hack'', ''exploit'', ''breach'', ''lawsuit''] text
      then detected ''risk_event'' ''Risk event''
             (symbol @ '' coverage highlights a risk-heavy news catalyst.'')
      else if mentions [''earnings'', ''revenue'', ''margin'', ''profit'', ''beat''] text
      then detected ''fundamental_update'' ''Fundamental update''
             (symbol @ '' coverage points to a fundamentals-driven repricing event.'')
      else if mentions [''etf'', ''flows'', ''inflow'', ''outflow'', ''adoption''] text
      then detected ''flow_event'' ''Flow event''
             (symbol @ '' coverage emphasizes allocation and demand-flow signals.'')
      else detected ''market_update'' ''Market update''
             (symbol @ '' coverage looks like a general market-moving update.''))"

definition detect_signal :: "signal_event \<Rightarrow> detection" where
  "detect_signal sg =
     (let trend = indicator sg ''trend''; rsi = indicator sg ''rsi'' in
      if sg_anomaly sg
      then detected ''anomaly_event'' ''Anomaly event''
             (sg_symbol sg @ '' triggered an anomalous technical move.'')
      else if (case trend of Some t \<Rightarrow> t > 0 | None \<Rightarrow> False)
      then detected ''bullish_technical_shift'' ''Bullish technical shift''
             (sg_symbol sg @ '' indicators lean constructive with an upward trend.'')
      else if (case trend of Some t \<Rightarrow> t < 0 | None \<Rightarrow> False)
      then detected ''bearish_technical_shift'' ''Bearish technical shift''
             (sg_symbol sg @ '' indicators lean defensive with a downward trend.'')
      else if (case rsi of Some r \<Rightarrow> r \<ge> 70 | None \<Rightarrow> False)
      then detected ''overbought_signal'' ''Overbought signal''
             (sg_symbol sg @ '' momentum is elevated enough to look stretched.'')
      else detected ''technical_update'' ''Technical update''
             (sg_symbol sg @ '' posted a routine indicator refresh.''))"

text \<open>The import-guarded adapter: only the framework's name depends on whether AutoGen is installed.\<close>

definition with_framework :: "bool \<Rightarrow> detection \<Rightarrow> detection" where
  "with_framework autogen d = (if autogen then d\<lparr>ed_framework := ''autogen-compatible''\<rparr> else d)"

section \<open>Texts\<close>

definition yes_no :: "bool \<Rightarrow> string" where
  "yes_no b = (if b then ''yes'' else ''no'')"

definition indicator_bit :: "pylib \<Rightarrow> string \<times> real option \<Rightarrow> string" where
  "indicator_bit lib p = fst p @ ''='' @ py_str lib (opt_float (snd p))"

definition signal_context_text :: "pylib \<Rightarrow> signal_event \<Rightarrow> string" where
  "signal_context_text lib sg = str_join '' ''
     ([''Signal for '' @ sg_symbol sg @ '' from '' @ sg_source sg @ ''.'',
       ''Anomaly flag: '' @ yes_no (sg_anomaly sg) @ ''.''] @
      (if sg_indicators sg = [] then []
       else [''Indicators: '' @ str_join '', '' (map (indicator_bit lib) (sort_key fst (sg_indicators sg))) @ ''.'']))"

definition signal_query :: "pylib \<Rightarrow> signal_event \<Rightarrow> string" where
  "signal_query lib sg =
     sg_symbol sg @ '' technical signal anomaly '' @ py_str lib (PBool (sg_anomaly sg))
       @ '' trend '' @ py_str lib (opt_float (indicator sg ''trend''))
       @ '' rsi '' @ py_str lib (opt_float (indicator sg ''rsi''))"

definition news_prompt :: "news_event \<Rightarrow> string \<Rightarrow> detection \<Rightarrow> string" where
  "news_prompt ev symbol d =
     ''Analyze the market impact of this news for '' @ symbol @ ''. Detected event category: '' @ ed_label d
       @ ''. Event rationale: '' @ ed_rationale d @ '' Headline: '' @ ne_title ev
       @ ''. Explain the sentiment, summarize the catalyst, and ground the explanation in citations.''"

definition signal_prompt :: "pylib \<Rightarrow> signal_event \<Rightarrow> detection \<Rightarrow> string" where
  "signal_prompt lib sg d =
     ''Explain the latest technical picture for '' @ sg_symbol sg @ ''. Detected event category: '' @ ed_label d
       @ ''. Event rationale: '' @ ed_rationale d @ '' Signal anomaly: '' @ py_str lib (PBool (sg_anomaly sg))
       @ ''. Indicators: '' @ json_dumps_sorted lib (indicators_value sg)
       @ ''. Summarize the sentiment and explain the likely market interpretation with citations.''"

section \<open>Generations as cached values\<close>

definition generation_payload :: "generation_result \<Rightarrow> pydict" where
  "generation_payload r =
     [(''summary'', PStr (gn_summary r)), (''explanation'', PStr (gn_explanation r)),
      (''sentiment_score'', PFloat (gn_sentiment_score r)), (''sentiment_label'', PStr (gn_sentiment_label r)),
      (''citations'', PList (map PStr (gn_citations r))), (''confidence'', PFloat (gn_confidence r)),
      (''grounded'', PBool (gn_grounded r)), (''provider'', PStr (gn_provider r)), (''model'', PStr (gn_model r)),
      (''raw_text'', PStr (gn_raw_text r)), (''metadata'', PDict (gn_metadata r))]"

text \<open>
  \<open>GenerationResult(**cached)\<close>: a missing or an unknown keyword is a \<open>TypeError\<close>.  The
  constructor does not look at the values; one of another type than the field's is read
  here as a \<open>TypeError\<close> too (the service writes only payloads).
\<close>

definition generation_fields :: "string list" where
  "generation_fields = [''summary'', ''explanation'', ''sentiment_score'', ''sentiment_label'', ''citations'',
     ''confidence'', ''grounded'', ''provider'', ''model'', ''raw_text'', ''metadata'']"

definition str_field :: "pydict \<Rightarrow> string \<Rightarrow> string result" where
  "str_field d k = (case dget d k of PStr s \<Rightarrow> Inr s | _ \<Rightarrow> Inl (TypeError k))"

definition float_field :: "pydict \<Rightarrow> string \<Rightarrow> real result" where
  "float_field d k = (case as_number (dget d k) of Some x \<Rightarrow> Inr x | None \<Rightarrow> Inl (TypeError k))"

definition bool_field :: "pydict \<Rightarrow> string \<Rightarrow> bool result" where
  "bool_field d k = (case dget d k of PBool b \<Rightarrow> Inr b | _ \<Rightarrow> Inl (TypeError k))"

definition as_str :: "pyval \<Rightarrow> string result" where
  "as_str v = (case v of PStr s \<Rightarrow> Inr s | _ \<Rightarrow> Inl (TypeError ''str''))"

definition strs_field :: "pydict \<Rightarrow> string \<Rightarrow> string list result" where
  "strs_field d k = (case dget d k of PList xs \<Rightarrow> mapR as_str xs | _ \<Rightarrow> Inl (TypeError k))"

definition metadata_field :: "pydict \<Rightarrow> pydict result" where
  "metadata_field d =
     (case dget_or d ''metadata'' (PDict []) of PDict m \<Rightarrow> Inr m | _ \<Rightarrow> Inl (TypeError ''metadata''))"

definition generation_of :: "pyval \<Rightarrow> generation_result result" where
  "generation_of v = (case v of
      PDict d \<Rightarrow>
        if \<not> set (map fst d) \<subseteq> set generation_fields then Inl (TypeError ''unexpected keyword argument'')
        else
          bindR (str_field d ''summary'') (\<lambda>summary.
          bindR (str_field d ''explanation'') (\<lambda>explanation.
          bindR (float_field d ''sentiment_score'') (\<lambda>score.
          bindR (str_field d ''sentiment_label'') (\<lambda>label.
          bindR (strs_field d ''citations'') (\<lambda>citations.
          bindR (float_field d ''confidence'') (\<lambda>confidence.
          bindR (bool_field d ''grounded'') (\<lambda>grounded.
          bindR (str_field d ''provider'') (\<lambda>provider.
          bindR (str_field d ''model'') (\<lambda>model.
          bindR (str_field d ''raw_text'') (\<lambda>raw_text.
          bindR (metadata_field d) (\<lambda>metadata.
            Inr \<lparr>gn_summary = summary, gn_explanation = explanation, gn_sentiment_score = score,
                 gn_sentiment_label = label, gn_citations = citations, gn_confidence = confidence,
                 gn_grounded = grounded, gn_provider = provider, gn_model = model, gn_raw_text = raw_text,
                 gn_metadata = metadata\<rparr>)))))))))))
    | _ \<Rightarrow> Inl (TypeError ''argument after ** must be a mapping''))"

definition with_event_detection :: "generation_result \<Rightarrow> detection \<Rightarrow> generation_result" where
  "with_event_detection r d =
     r\<lparr>gn_explanation := str_strip (''Detected '' @ str_lower (ed_label d) @ '' via '' @ ed_framework d @ '': ''
          @ ed_rationale d @ '' '' @ gn_explanation r),
       gn_metadata := dict_update (gn_metadata r)
         [(''event_category'', PStr (ed_category d)), (''event_label'', PStr (ed_label d)),
          (''event_framework'', PStr (ed_framework d))]\<rparr>"

definition insight_from_result ::
  "string \<Rightarrow> string \<Rightarrow> datetime \<Rightarrow> string option \<Rightarrow> string option \<Rightarrow> generation_result \<Rightarrow> insight_event" where
  "insight_from_result eid symbol t corr trace r =
     \<lparr>event_id = eid, event_ts = t, correlation_id = corr, trace_id = trace, in_symbol = symbol,
      in_sentiment_score = gn_sentiment_score r, in_sentiment_label = gn_sentiment_label r,
      in_summary = gn_summary r, in_explanation = gn_explanation r, in_citations = gn_citations r,
      in_confidence = gn_confidence r, in_grounded = gn_grounded r, in_model = gn_model r\<rparr>"

section \<open>Metrics\<close>

record ai_metrics = worker_metrics +
  im_messages_seen :: int
  im_messages_processed :: int
  im_duplicates_suppressed :: int
  im_insights_published :: int
  im_llm_cache_hits :: int
  im_processing_retries :: int
  im_news_indexed :: int
  im_signal_contexts_indexed :: int
  im_dead_lettered :: int

definition ai_render :: "ai_metrics \<Rightarrow> string" where
  "ai_render m = str_join [CHR 0x0A]
     (render_counters ''ai''
        [(''messages_seen'', int_str (im_messages_seen m)),
         (''messages_processed'', int_str (im_messages_processed m)),
         (''duplicates_suppressed'', int_str (im_duplicates_suppressed m)),
         (''insights_published'', int_str (im_insights_published m)),
         (''llm_cache_hits'', int_str (im_llm_cache_hits m)),
         (''processing_retries'', int_str (im_processing_retries m)),
         (''news_indexed'', int_str (im_news_indexed m)),
         (''signal_contexts_indexed'', int_str (im_signal_contexts_indexed m)),
         (''dead_lettered'', int_str (im_dead_lettered m))]
      @ render_http ''ai'' (http m)) @ [CHR 0x0A]"

section \<open>The service\<close>

record ('b, 'c, 'r) ai_state =
  ai_bus :: 'b
  ai_cache :: 'c
  ai_ext :: 'r
  ai_metrics :: ai_metrics
  ai_uuids :: "nat \<Rightarrow> string"
  ai_next :: nat

record ('b, 'c, 'r) ai_env =
  an_bus :: "'b bus_ops"
  an_cache :: "'c cache_ops"
  an_rag :: "'r rag_pipeline"
  an_llm :: "generation_request \<Rightarrow> ('r, generation_result) pm"
  an_provider :: string
  an_autogen :: bool
  an_lib :: pylib
  an_retrying :: retrying
  an_news_topic :: string
  an_signal_topic :: string
  an_insight_topic :: string
  an_subscription :: string
  an_max_attempts :: int

definition ai_attempts :: "('b, 'c, 'r) ai_env \<Rightarrow> int" where
  "ai_attempts env = max 1 (an_max_attempts env)"

definition ai_on_bus :: "('b, 'x) pm \<Rightarrow> (('b, 'c, 'r) ai_state, 'x) pm" where
  "ai_on_bus = zoomM ai_bus (\<lambda>b s. s\<lparr>ai_bus := b\<rparr>)"

definition ai_on_cache :: "('c, 'x) pm \<Rightarrow> (('b, 'c, 'r) ai_state, 'x) pm" where
  "ai_on_cache = zoomM ai_cache (\<lambda>c s. s\<lparr>ai_cache := c\<rparr>)"

definition ai_on_ext :: "('r, 'x) pm \<Rightarrow> (('b, 'c, 'r) ai_state, 'x) pm" where
  "ai_on_ext = zoomM ai_ext (\<lambda>r s. s\<lparr>ai_ext := r\<rparr>)"

definition ai_count :: "(ai_metrics \<Rightarrow> ai_metrics) \<Rightarrow> (('b, 'c, 'r) ai_state, unit) pm" where
  "ai_count f = modifyM (\<lambda>s. s\<lparr>ai_metrics := f (ai_metrics s)\<rparr>)"

definition ai_dead_letter ::
  "('b, 'c, 'r) ai_env \<Rightarrow> message \<Rightarrow> string \<Rightarrow> (('b, 'c, 'r) ai_state, unit) pm" where
  "ai_dead_letter env m reason =
     dead_letter_message (an_bus env) ai_bus (\<lambda>b s. s\<lparr>ai_bus := b\<rparr>)
       (\<lambda>s. s\<lparr>ai_metrics := (ai_metrics s)\<lparr>im_dead_lettered := im_dead_lettered (ai_metrics s) + 1\<rparr>\<rparr>)
       (\<lambda>r s. s\<lparr>ai_metrics := (ai_metrics s)\<lparr>last_error := Some r\<rparr>\<rparr>) m reason"

definition news_document :: "news_event \<Rightarrow> source_document" where
  "news_document ev =
     \<lparr>sd_doc_id = event_id ev, sd_text = ne_title ev @ [newline, newline] @ ne_body ev,
      sd_title = Some (ne_title ev), sd_url = ne_url ev,
      sd_metadata =
        [(''source'', PStr (ne_source ev)), (''symbols'', PList (map PStr (ne_symbols ev))),
         (''author'', opt_str (ne_author ev)), (''correlation_id'', opt_str (correlation_id ev)),
         (''trace_id'', opt_str (trace_id ev)),
         (''citation'', PStr (str_or (ne_url ev) (event_id ev)))]\<rparr>"

definition signal_document :: "pylib \<Rightarrow> signal_event \<Rightarrow> source_document" where
  "signal_document lib sg =
     \<lparr>sd_doc_id = ''signal:'' @ event_id sg, sd_text = signal_context_text lib sg,
      sd_title = Some (sg_symbol sg @ '' technical signal''), sd_url = None,
      sd_metadata =
        [(''source'', PStr (sg_source sg)), (''symbol'', PStr (sg_symbol sg)),
         (''anomaly'', PBool (sg_anomaly sg)), (''indicators'', indicators_value sg),
         (''citation'', PStr (''signal:'' @ event_id sg)), (''correlation_id'', opt_str (correlation_id sg)),
         (''trace_id'', opt_str (trace_id sg))]\<rparr>"

definition ai_index_document ::
  "('b, 'c, 'r) ai_env \<Rightarrow> source_document \<Rightarrow> (('b, 'c, 'r) ai_state, unit) pm" where
  "ai_index_document env d =
     bindM (ai_on_ext (index_source_document (an_lib env) (an_rag env) d)) (\<lambda>_. returnM ())"

definition index_news_event ::
  "('b, 'c, 'r) ai_env \<Rightarrow> news_event \<Rightarrow> (('b, 'c, 'r) ai_state, unit) pm" where
  "index_news_event env ev =
     thenM (ai_index_document env (news_document ev))
       (ai_count (\<lambda>x. x\<lparr>im_news_indexed := im_news_indexed x + 1\<rparr>))"

definition index_signal_context ::
  "('b, 'c, 'r) ai_env \<Rightarrow> signal_event \<Rightarrow> (('b, 'c, 'r) ai_state, unit) pm" where
  "index_signal_context env sg =
     thenM (ai_index_document env (signal_document (an_lib env) sg))
       (ai_count (\<lambda>x. x\<lparr>im_signal_contexts_indexed := im_signal_contexts_indexed x + 1\<rparr>))"

section \<open>Generation behind the cache\<close>

text \<open>What the two publishing methods hand to their shared tail.\<close>

record insight_task =
  it_symbol :: string
  it_content_hash :: string
  it_processed_key :: string
  it_prompt :: string
  it_query :: string
  it_metadata :: pydict
  it_ts :: datetime
  it_correlation :: "string option"
  it_trace :: "string option"
  it_detection :: detection

definition task_metadata :: "string \<Rightarrow> detection \<Rightarrow> string \<Rightarrow> pydict" where
  "task_metadata symbol d eid =
     [(''symbol'', PStr symbol), (''event_category'', PStr (ed_category d)),
      (''event_framework'', PStr (ed_framework d)), (''source_event_id'', PStr eid)]"

definition use_cached ::
  "('b, 'c, 'r) ai_env \<Rightarrow> generation_request \<Rightarrow> pyval \<Rightarrow> (('b, 'c, 'r) ai_state, generation_result) pm" where
  "use_cached env request cached =
     thenM (ai_count (\<lambda>x. x\<lparr>im_llm_cache_hits := im_llm_cache_hits x + 1\<rparr>))
       (liftR (bindR (generation_of cached) (\<lambda>r. Inr (fst (apply_guardrails (an_lib env) request r)))))"

definition generate_fresh ::
  "('b, 'c, 'r) ai_env \<Rightarrow> generation_request \<Rightarrow> string \<Rightarrow> (('b, 'c, 'r) ai_state, generation_result) pm" where
  "generate_fresh env request cache_key =
     bindM (ai_on_ext (an_llm env request)) (\<lambda>r.
       let guarded = fst (apply_guardrails (an_lib env) request r) in
       thenM (ai_on_cache (cache_set (an_cache env) cache_key (PDict (generation_payload guarded))
                (Some IDEMPOTENCY_TTL_SECONDS)))
         (returnM guarded))"

definition task_request :: "insight_task \<Rightarrow> context_document list \<Rightarrow> generation_request" where
  "task_request k context = generation_request_of (it_prompt k) context (it_metadata k)"

definition task_cache_key :: "('b, 'c, 'r) ai_env \<Rightarrow> insight_task \<Rightarrow> context_document list \<Rightarrow> string" where
  "task_cache_key env k context =
     llm_cache_key (an_lib env) (it_content_hash k) (it_prompt k) (it_query k) (it_metadata k) context (an_provider env)"

definition generate_with_cache ::
  "('b, 'c, 'r) ai_env \<Rightarrow> insight_task \<Rightarrow> (('b, 'c, 'r) ai_state, generation_result) pm" where
  "generate_with_cache env k =
     bindM (ai_on_ext (build_context_documents (an_lib env) (an_rag env) (it_query k) 4 (Some 6))) (\<lambda>context.
     bindM (ai_on_cache (cache_get (an_cache env) (task_cache_key env k context))) (\<lambda>cached.
       if cached \<noteq> PNone then use_cached env (task_request k context) cached
       else generate_fresh env (task_request k context) (task_cache_key env k context)))"

section \<open>Publishing\<close>

text \<open>The insight takes a fresh event id.\<close>

definition make_insight ::
  "insight_task \<Rightarrow> generation_result \<Rightarrow> (('b, 'c, 'r) ai_state, insight_event) pm" where
  "make_insight k r = (\<lambda>s.
     (Inr (insight_from_result (ai_uuids s (ai_next s)) (it_symbol k) (it_ts k) (it_correlation k) (it_trace k)
             (with_event_detection r (it_detection k))), s\<lparr>ai_next := Suc (ai_next s)\<rparr>))"

definition publish_insight ::
  "('b, 'c, 'r) ai_env \<Rightarrow> insight_event \<Rightarrow> string \<Rightarrow> (('b, 'c, 'r) ai_state, unit) pm" where
  "publish_insight env ins mid =
     thenM (ai_on_bus (bus_publish (an_bus env) (an_insight_topic env) (insight_dump (an_lib env) ins)
              (Some mid) (correlation_id ins)))
       (ai_count (\<lambda>x. x\<lparr>im_insights_published := im_insights_published x + 1\<rparr>))"

definition insight_cache_key :: "string \<Rightarrow> string" where
  "insight_cache_key symbol = INSIGHT_CACHE_PREFIX @ '':'' @ symbol"

definition publish_insight_for ::
  "('b, 'c, 'r) ai_env \<Rightarrow> insight_task \<Rightarrow> (('b, 'c, 'r) ai_state, unit) pm" where
  "publish_insight_for env k =
     bindM (generate_with_cache env k) (\<lambda>r.
     bindM (make_insight k r) (\<lambda>ins.
     thenM (publish_insight env ins (it_processed_key k))
     (thenM (ai_on_cache (cache_set (an_cache env) (insight_cache_key (it_symbol k)) (insight_dump (an_lib env) ins) None))
       (ai_on_cache (cache_set (an_cache env) (it_processed_key k) (PBool True) (Some IDEMPOTENCY_TTL_SECONDS))))))"

text \<open>The dedupe check both publishing methods start with.\<close>

definition unless_processed ::
  "('b, 'c, 'r) ai_env \<Rightarrow> insight_task \<Rightarrow> (('b, 'c, 'r) ai_state, unit) pm" where
  "unless_processed env k =
     bindM (ai_on_cache (cache_get (an_cache env) (it_processed_key k))) (\<lambda>seen.
       if truthy seen then ai_count (\<lambda>x. x\<lparr>im_duplicates_suppressed := im_duplicates_suppressed x + 1\<rparr>)
       else publish_insight_for env k)"

definition news_task :: "('b, 'c, 'r) ai_env \<Rightarrow> news_event \<Rightarrow> string \<Rightarrow> insight_task" where
  "news_task env ev symbol =
     (let d = with_framework (an_autogen env) (detect_news ev symbol) in
      \<lparr>it_symbol = symbol, it_content_hash = news_content_hash (an_lib env) ev symbol,
       it_processed_key = news_processed_key ev symbol, it_prompt = news_prompt ev symbol d,
       it_query = symbol @ '' '' @ ne_title ev @ '' '' @ ne_body ev,
       it_metadata = task_metadata symbol d (event_id ev), it_ts = event_ts ev,
       it_correlation = correlation_id ev, it_trace = trace_id ev, it_detection = d\<rparr>)"

definition signal_task :: "('b, 'c, 'r) ai_env \<Rightarrow> signal_event \<Rightarrow> insight_task" where
  "signal_task env sg =
     (let d = with_framework (an_autogen env) (detect_signal sg) in
      \<lparr>it_symbol = sg_symbol sg, it_content_hash = signal_content_hash (an_lib env) sg,
       it_processed_key = signal_processed_key sg, it_prompt = signal_prompt (an_lib env) sg d,
       it_query = signal_query (an_lib env) sg,
       it_metadata = task_metadata (sg_symbol sg) d (event_id sg), it_ts = event_ts sg,
       it_correlation = correlation_id sg, it_trace = trace_id sg, it_detection = d\<rparr>)"

definition publish_news_insight ::
  "('b, 'c, 'r) ai_env \<Rightarrow> news_event \<Rightarrow> string \<Rightarrow> (('b, 'c, 'r) ai_state, unit) pm" where
  "publish_news_insight env ev symbol = unless_processed env (news_task env ev symbol)"

definition publish_signal_insight ::
  "('b, 'c, 'r) ai_env \<Rightarrow> signal_event \<Rightarrow> (('b, 'c, 'r) ai_state, unit) pm" where
  "publish_signal_insight env sg = unless_processed env (signal_task env sg)"

section \<open>Handling a message\<close>

definition ai_finish :: "('b, 'c, 'r) ai_env \<Rightarrow> message \<Rightarrow> (('b, 'c, 'r) ai_state, unit) pm" where
  "ai_finish env m =
     thenM (ai_count (\<lambda>x. x\<lparr>im_messages_processed := im_messages_processed x + 1\<rparr>))
       (ai_on_bus (bus_complete (an_bus env) m))"

definition process_news_event ::
  "('b, 'c, 'r) ai_env \<Rightarrow> message \<Rightarrow> news_event \<Rightarrow> (('b, 'c, 'r) ai_state, unit) pm" where
  "process_news_event env m ev =
     thenM (index_news_event env ev)
     (thenM (for_each (publish_news_insight env ev) (ne_symbols ev)) (ai_finish env m))"

definition process_signal_event ::
  "('b, 'c, 'r) ai_env \<Rightarrow> message \<Rightarrow> signal_event \<Rightarrow> (('b, 'c, 'r) ai_state, unit) pm" where
  "process_signal_event env m sg =
     thenM (index_signal_context env sg) (thenM (publish_signal_insight env sg) (ai_finish env m))"

text \<open>The retried operation, with the counter of attempts it closes over.\<close>

definition ai_count_retry :: "nat \<Rightarrow> ('b, 'c, 'r) ai_state \<Rightarrow> ('b, 'c, 'r) ai_state" where
  "ai_count_retry attempt s =
     (if attempt > 1
      then s\<lparr>ai_metrics := (ai_metrics s)\<lparr>im_processing_retries := im_processing_retries (ai_metrics s) + 1\<rparr>\<rparr>
      else s)"

definition ai_attempt ::
  "(('b, 'c, 'r) ai_state, unit) pm \<Rightarrow> (nat \<times> ('b, 'c, 'r) ai_state, unit) pm" where
  "ai_attempt operation = (\<lambda>(n, s).
     case operation (ai_count_retry (n + 1) s) of (r, s') \<Rightarrow> (r, (n + 1, s')))"

definition ai_failed_text :: "exn \<Rightarrow> string" where
  "ai_failed_text e = ''ai analysis failed: '' @ exn_name e @ '': '' @ exn_str e"

definition ai_give_up :: "('b, 'c, 'r) ai_env \<Rightarrow> message \<Rightarrow> exn \<Rightarrow> (('b, 'c, 'r) ai_state, unit) pm" where
  "ai_give_up env m e =
     thenM (ai_count (\<lambda>x. x\<lparr>last_error := Some (ai_failed_text e)\<rparr>)) (ai_dead_letter env m (ai_failed_text e))"

definition ai_process_with_retries ::
  "('b, 'c, 'r) ai_env \<Rightarrow> message \<Rightarrow> (('b, 'c, 'r) ai_state, unit) pm \<Rightarrow> (('b, 'c, 'r) ai_state, unit) pm" where
  "ai_process_with_retries env m operation = (\<lambda>s.
     case retry_async (an_retrying env) (ai_attempts env) (ai_attempt operation) (0, s) of
       (Inl (RetryError e), (_, s')) \<Rightarrow> ai_give_up env m e s'
     | (r, (_, s')) \<Rightarrow> (r, s'))"

definition handle_news_message ::
  "('b, 'c, 'r) ai_env \<Rightarrow> message \<Rightarrow> (('b, 'c, 'r) ai_state, unit) pm" where
  "handle_news_message env m =
     (case validate_news (an_lib env) (msg_body m) of
        Inl detail \<Rightarrow> ai_dead_letter env m (validation_reason ''invalid news event payload'' detail)
      | Inr ev \<Rightarrow> ai_process_with_retries env m (process_news_event env m ev))"

definition handle_signal_message ::
  "('b, 'c, 'r) ai_env \<Rightarrow> message \<Rightarrow> (('b, 'c, 'r) ai_state, unit) pm" where
  "handle_signal_message env m =
     (case validate_signal (an_lib env) (msg_body m) of
        Inl detail \<Rightarrow> ai_dead_letter env m (validation_reason ''invalid signal payload'' detail)
      | Inr sg \<Rightarrow> ai_process_with_retries env m (process_signal_event env m sg))"

definition ai_handle_message ::
  "('b, 'c, 'r) ai_env \<Rightarrow> message \<Rightarrow> (('b, 'c, 'r) ai_state, unit) pm" where
  "ai_handle_message env m =
     (if msg_topic m = an_news_topic env then handle_news_message env m
      else if msg_topic m = an_signal_topic env then handle_signal_message env m
      else ai_dead_letter env m (''unsupported topic: '' @ msg_topic m))"

definition ai_seen_then_handle ::
  "('b, 'c, 'r) ai_env \<Rightarrow> message \<Rightarrow> (('b, 'c, 'r) ai_state, unit) pm" where
  "ai_seen_then_handle env m =
     thenM (ai_count (\<lambda>x. x\<lparr>im_messages_seen := im_messages_seen x + 1\<rparr>)) (ai_handle_message env m)"

definition ai_poll_topic :: "('b, 'c, 'r) ai_env \<Rightarrow> int \<Rightarrow> string \<Rightarrow> (('b, 'c, 'r) ai_state, int) pm" where
  "ai_poll_topic env max_messages topic =
     bindM (ai_on_bus (bus_receive (an_bus env) topic (an_subscription env) max_messages)) (\<lambda>ms.
       thenM (for_each (ai_seen_then_handle env) ms) (returnM (int (length ms))))"

definition ai_poll_once :: "('b, 'c, 'r) ai_env \<Rightarrow> int \<Rightarrow> (('b, 'c, 'r) ai_state, int) pm" where
  "ai_poll_once env max_messages =
     bindM (ai_poll_topic env max_messages (an_news_topic env)) (\<lambda>a.
     bindM (ai_poll_topic env max_messages (an_signal_topic env)) (\<lambda>b. returnM (a + b)))"

definition ai_run_forever :: "nat \<Rightarrow> ('b, 'c, 'r) ai_env \<Rightarrow> int \<Rightarrow> (('b, 'c, 'r) ai_state, bool list) pm" where
  "ai_run_forever fuel env max_messages =
     run_poll_loop fuel (ai_poll_once env) ''ai''
       (\<lambda>t s. s\<lparr>ai_metrics := (ai_metrics s)\<lparr>last_error := Some t\<rparr>\<rparr>) max_messages"

text \<open>The backends in the order they are closed: the store, the cache, the bus, the provider.\<close>

definition ai_close :: "('s, unit) pm option \<Rightarrow> ('s, unit) pm option \<Rightarrow> ('s, unit) pm option \<Rightarrow>
    ('s, unit) pm option \<Rightarrow> ('s, unit) pm" where
  "ai_close sc cc bc lc = close_backends [sc, cc, bc, lc]"

definition ai_health :: "('b, 'c, 'r) ai_env \<Rightarrow> ('b, 'c, 'r) ai_state \<Rightarrow> pydict" where
  "ai_health env s = (let m = ai_metrics s in
     [(''status'', PStr ''ok''), (''service'', PStr ''ai-analysis''),
      (''topics'', PList [PStr (an_news_topic env), PStr (an_signal_topic env)]),
      (''subscription'', PStr (an_subscription env)),
      (''messages_processed'', PInt (im_messages_processed m)),
      (''duplicates_suppressed'', PInt (im_duplicates_suppressed m)),
      (''dead_lettered'', PInt (im_dead_lettered m)),
      (''event_detection_mode'', PStr ''AutoGenCompatibleEventDetector'')])"

text \<open>\<open>indexed_symbols\<close>: the symbols of the documents of an in-memory index.\<close>

definition indexed_symbols :: "pylib \<Rightarrow> inmem_search \<Rightarrow> string \<Rightarrow> string list" where
  "indexed_symbols lib st index_name =
     map (py_str lib) (filter (\<lambda>v. v \<noteq> PNone)
       (map (\<lambda>p. get_attr (dget_or (en_doc (snd p)) ''metadata'' (PDict [])) ''symbol'' PNone)
         (store_of st index_name)))"

end
