(* ===== verification/AIProps.thy ===== *)
theory AIProps
  imports AIService AlertingProps RagProps
begin

text \<open>
  What the analysis worker guarantees: every poll settles what it took whatever the search
  store, the embedding provider and the language model do; an insight is published once per
  source event and symbol and cites only what was retrieved; a cached generation equals the
  fresh one; an event that keeps failing is dead-lettered after the configured attempts.
\<close>

section \<open>Frames\<close>

lemma ai_cache_frame: "triple (\<lambda>s. P (ai_bus s)) (ai_on_cache m) (\<lambda>_ s. P (ai_bus s)) (\<lambda>_ s. P (ai_bus s))"
  unfolding ai_on_cache_def by (rule triple_zoom_frame) simp

lemma ai_ext_frame: "triple (\<lambda>s. P (ai_bus s)) (ai_on_ext m) (\<lambda>_ s. P (ai_bus s)) (\<lambda>_ s. P (ai_bus s))"
  unfolding ai_on_ext_def by (rule triple_zoom_frame) simp

lemma ai_count_frame: "triple (\<lambda>s. P (ai_bus s)) (ai_count f) (\<lambda>_ s. P (ai_bus s)) E"
  unfolding ai_count_def by (rule triple_modify) simp

lemma ai_make_frame: "triple (\<lambda>s. P (ai_bus s)) (make_insight k r) (\<lambda>_ s. P (ai_bus s)) E"
  by (simp add: make_insight_def triple_def)

lemma ai_bus_triple:
  "triple P m Q E \<Longrightarrow> triple (\<lambda>s. P (ai_bus s)) (ai_on_bus m) (\<lambda>x s. Q x (ai_bus s)) (\<lambda>e s. E e (ai_bus s))"
  unfolding ai_on_bus_def by (rule triple_zoom) simp

lemmas ai_frames = ai_cache_frame ai_ext_frame ai_count_frame ai_make_frame

lemma index_frame:
  "triple (\<lambda>s. P (ai_bus s)) (ai_index_document env d) (\<lambda>_ s. P (ai_bus s)) (\<lambda>_ s. P (ai_bus s))"
  unfolding ai_index_document_def by (rule triple_bind [OF ai_ext_frame]) (rule triple_return)

lemma generate_frame:
  "triple (\<lambda>s. P (ai_bus s)) (generate_with_cache env k) (\<lambda>_ s. P (ai_bus s)) (\<lambda>_ s. P (ai_bus s))"
proof -
  have hit: "triple (\<lambda>s. P (ai_bus s)) (use_cached env r c) (\<lambda>_ s. P (ai_bus s)) (\<lambda>_ s. P (ai_bus s))" for r c
    unfolding use_cached_def by (rule triple_then [OF ai_count_frame], rule triple_liftR)
  have miss: "triple (\<lambda>s. P (ai_bus s)) (generate_fresh env r c) (\<lambda>_ s. P (ai_bus s)) (\<lambda>_ s. P (ai_bus s))" for r c
    unfolding generate_fresh_def Let_def
    by (rule triple_bind [OF ai_ext_frame], rule triple_then [OF ai_cache_frame], rule triple_return)
  show ?thesis
    unfolding generate_with_cache_def
    by (rule triple_bind [OF ai_ext_frame], rule triple_bind [OF ai_cache_frame]) (simp add: hit miss)
qed

text \<open>The retried operation: what an attempt keeps while it fails, the retry keeps.\<close>

lemma ai_retry_triple:
  fixes P Q :: "'b \<Rightarrow> bool" and env :: "('b, 'c, 'r) ai_env"
  assumes stop: "stops_after_attempt (an_retrying env)"
    and op: "triple (\<lambda>s. P (ai_bus s)) op (\<lambda>_ s. Q (ai_bus s)) (\<lambda>_ s. P (ai_bus s))"
    and give_up: "\<And>e. triple (\<lambda>s. P (ai_bus s)) (ai_give_up env m e) (\<lambda>_ s. Q (ai_bus s)) (\<lambda>_ _. True)"
  shows "triple (\<lambda>s. P (ai_bus s)) (ai_process_with_retries env m op) (\<lambda>_ s. Q (ai_bus s)) (\<lambda>_ _. True)"
proof -
  let ?P = "\<lambda>ns :: nat \<times> ('b, 'c, 'r) ai_state. P (ai_bus (snd ns))"
  have "triple ?P (ai_attempt op) (\<lambda>_ ns. Q (ai_bus (snd ns))) (\<lambda>_. ?P)"
  proof -
    have "case ai_attempt op (n, t) of (Inl e, ns') \<Rightarrow> P (ai_bus (snd ns')) | (Inr x, ns') \<Rightarrow> Q (ai_bus (snd ns'))"
      if P: "P (ai_bus t)" for n t
    proof -
      have "P (ai_bus (ai_count_retry (n + 1) t))" using P by (simp add: ai_count_retry_def)
      note step = op [unfolded triple_def, rule_format, OF this]
      obtain r u where o': "op (ai_count_retry (n + 1) t) = (r, u)" by (rule prod.exhaust)
      show ?thesis using step unfolding ai_attempt_def prod.case o' by (cases r) simp_all
    qed
    then show ?thesis unfolding triple_def split_paired_All snd_conv by (intro allI impI)
  qed
  from triple_retry [OF stop this, of "ai_attempts env"]
  have retry: "triple ?P (retry_async (an_retrying env) (ai_attempts env) (ai_attempt op)) (\<lambda>_ ns. Q (ai_bus (snd ns))) (\<lambda>_. ?P)" .
  show ?thesis
  proof (rule tripleI)
    fix s x s'
    assume P: "P (ai_bus s)" and run: "ai_process_with_retries env m op s = (Inr x, s')"
    obtain r n t where r: "retry_async (an_retrying env) (ai_attempts env) (ai_attempt op) (0, s) = (r, (n, t))"
      by (cases "retry_async (an_retrying env) (ai_attempts env) (ai_attempt op) (0, s)") auto
    show "Q (ai_bus s')"
    proof (cases r)
      case (Inl e)
      then have t: "P (ai_bus t)" using tripleD_err [OF retry, of "(0, s)" e "(n, t)"] P r by simp
      obtain e' where e: "e = RetryError e'" and "ai_give_up env m e' t = (Inr x, s')"
        using run r Inl by (cases e) (auto simp: ai_process_with_retries_def)
      from tripleD_ok [OF give_up t this(2)] show ?thesis .
    next
      case (Inr y)
      then have "Q (ai_bus t)" using tripleD_ok [OF retry, of "(0, s)" y "(n, t)"] P r by simp
      then show ?thesis using run r Inr by (simp add: ai_process_with_retries_def)
    qed
  qed simp
qed

section \<open>Settlement\<close>

context message_bus
begin

abbreviation ai_awaits where
  "ai_awaits X s \<equiv> awaits binv pending X (ai_bus s)"

lemma publish_insight_for_frame:
  assumes "an_bus env = bus"
  shows "triple (ai_awaits X) (publish_insight_for env k) (\<lambda>_. ai_awaits X) (\<lambda>_. ai_awaits X)"
  unfolding publish_insight_for_def publish_insight_def assms
  by (rule triple_bind [OF generate_frame], rule triple_bind [OF ai_make_frame],
      rule triple_then [OF triple_then [OF ai_bus_triple [OF publish_triple] ai_count_frame]],
      rule triple_then [OF ai_cache_frame ai_cache_frame])

lemma unless_processed_frame:
  assumes "an_bus env = bus"
  shows "triple (ai_awaits X) (unless_processed env k) (\<lambda>_. ai_awaits X) (\<lambda>_. ai_awaits X)"
  unfolding unless_processed_def
  by (rule triple_bind [OF ai_cache_frame])
     (simp add: ai_count_frame publish_insight_for_frame [OF assms])

lemma ai_dead_letter_settles:
  assumes "an_bus env = bus" "m \<in> X"
  shows "triple (ai_awaits X) (ai_dead_letter env m reason) (\<lambda>_. ai_awaits (X - {m})) (\<lambda>_ _. True)"
  unfolding ai_dead_letter_def dead_letter_message_def assms(1)
  by (rule triple_then [OF triple_modify_frame], simp, rule triple_then [OF triple_modify_frame], simp)
     (rule ai_bus_triple [unfolded ai_on_bus_def, OF dead_letter_triple [OF assms(2)]])

lemma ai_finish_settles:
  assumes "an_bus env = bus" "m \<in> X"
  shows "triple (ai_awaits X) (ai_finish env m) (\<lambda>_. ai_awaits (X - {m})) (\<lambda>_. ai_awaits X)"
  unfolding ai_finish_def assms(1)
  by (rule triple_then [OF ai_count_frame ai_bus_triple [OF complete_triple [OF assms(2)]]])

lemma process_news_settles:
  assumes "an_bus env = bus" "m \<in> X"
  shows "triple (ai_awaits X) (process_news_event env m ev) (\<lambda>_. ai_awaits (X - {m})) (\<lambda>_. ai_awaits X)"
  unfolding process_news_event_def index_news_event_def publish_news_insight_def
  by (rule triple_then [OF triple_then [OF index_frame ai_count_frame]],
      rule triple_then [OF triple_for_each ai_finish_settles [OF assms]])
     (rule unless_processed_frame [OF assms(1)])

lemma process_signal_settles:
  assumes "an_bus env = bus" "m \<in> X"
  shows "triple (ai_awaits X) (process_signal_event env m sg) (\<lambda>_. ai_awaits (X - {m})) (\<lambda>_. ai_awaits X)"
  unfolding process_signal_event_def index_signal_context_def publish_signal_insight_def
  by (rule triple_then [OF triple_then [OF index_frame ai_count_frame]],
      rule triple_then [OF unless_processed_frame [OF assms(1)] ai_finish_settles [OF assms]])

lemma ai_handle_settles:
  assumes "an_bus env = bus" "stops_after_attempt (an_retrying env)" "m \<in> X"
  shows "triple (ai_awaits X) (ai_seen_then_handle env m) (\<lambda>_. ai_awaits (X - {m})) (\<lambda>_ _. True)"
proof -
  note dl = ai_dead_letter_settles [OF assms(1,3)]
  have give_up: "triple (ai_awaits X) (ai_give_up env m e) (\<lambda>_. ai_awaits (X - {m})) (\<lambda>_ _. True)" for e
    unfolding ai_give_up_def by (rule triple_then [OF ai_count_frame dl])
  note retry = ai_retry_triple [OF assms(2) _ give_up]
  have "triple (ai_awaits X) (handle_news_message env m) (\<lambda>_. ai_awaits (X - {m})) (\<lambda>_ _. True)"
    unfolding handle_news_message_def
    by (cases "validate_news (an_lib env) (msg_body m)")
       (simp_all add: dl retry [OF process_news_settles [OF assms(1,3)]])
  moreover have "triple (ai_awaits X) (handle_signal_message env m) (\<lambda>_. ai_awaits (X - {m})) (\<lambda>_ _. True)"
    unfolding handle_signal_message_def
    by (cases "validate_signal (an_lib env) (msg_body m)")
       (simp_all add: dl retry [OF process_signal_settles [OF assms(1,3)]])
  ultimately have "triple (ai_awaits X) (ai_handle_message env m) (\<lambda>_. ai_awaits (X - {m})) (\<lambda>_ _. True)"
    by (simp add: ai_handle_message_def dl)
  then show ?thesis
    unfolding ai_seen_then_handle_def by (rule triple_then [OF ai_count_frame])
qed

end

section \<open>The worker on the in-memory bus and cache\<close>

type_synonym 'r inmem_ai = "(inmem_bus, inmem_cache, 'r) ai_state"

definition inmem_ai_env ::
  "pylib \<Rightarrow> 'r rag_pipeline \<Rightarrow> (generation_request \<Rightarrow> ('r, generation_result) pm) \<Rightarrow> int \<Rightarrow>
   (inmem_bus, inmem_cache, 'r) ai_env" where
  "inmem_ai_env lib rag llm n =
     \<lparr>an_bus = inmem_bus_ops, an_cache = inmem_cache_ops, an_rag = rag, an_llm = llm,
      an_provider = ''MockLLMProvider'', an_autogen = False, an_lib = lib, an_retrying = attempt_iter,
      an_news_topic = TOPIC_NEWS_RAW, an_signal_topic = TOPIC_SIGNALS, an_insight_topic = TOPIC_INSIGHTS,
      an_subscription = AI_SUBSCRIPTION, an_max_attempts = n\<rparr>"

lemma inmem_ai_env_sel [simp]:
  "an_bus (inmem_ai_env lib rag llm n) = inmem_bus_ops"
  "an_cache (inmem_ai_env lib rag llm n) = inmem_cache_ops"
  "an_rag (inmem_ai_env lib rag llm n) = rag" "an_llm (inmem_ai_env lib rag llm n) = llm"
  "an_provider (inmem_ai_env lib rag llm n) = ''MockLLMProvider''"
  "an_autogen (inmem_ai_env lib rag llm n) = False"
  "an_lib (inmem_ai_env lib rag llm n) = lib" "an_retrying (inmem_ai_env lib rag llm n) = attempt_iter"
  "an_news_topic (inmem_ai_env lib rag llm n) = TOPIC_NEWS_RAW"
  "an_signal_topic (inmem_ai_env lib rag llm n) = TOPIC_SIGNALS"
  "an_insight_topic (inmem_ai_env lib rag llm n) = TOPIC_INSIGHTS"
  "an_subscription (inmem_ai_env lib rag llm n) = AI_SUBSCRIPTION"
  "an_max_attempts (inmem_ai_env lib rag llm n) = n"
  by (simp_all add: inmem_ai_env_def)

interpretation ai: consumer inmem_bus_ops queue_of pending_of dlqs bus_inv ai_bus
  "ai_seen_then_handle (inmem_ai_env lib rag llm n)" "\<lambda>_. True"
  for lib and rag :: "'r rag_pipeline" and llm n
proof
  fix s s' :: "'r inmem_ai" and m
  assume "bus_inv (ai_bus s)" and m: "m \<in> pending_of (ai_bus s)"
    and h: "ai_seen_then_handle (inmem_ai_env lib rag llm n) m s = (Inr (), s')"
  have "awaits bus_inv pending_of (pending_of (ai_bus s)) (ai_bus s)"
    using \<open>bus_inv (ai_bus s)\<close> by (simp add: awaits_def)
  from tripleD_ok [OF ib.ai_handle_settles [OF _ _ m] this h]
  show "bus_inv (ai_bus s') \<and> pending_of (ai_bus s') = pending_of (ai_bus s) - {m}"
    by (simp add: awaits_def attempt_iter_rule)
qed

lemma retry_raises_retry_error:
  "stops_after_attempt stop \<Longrightarrow> fst (retry_async stop n op s) = Inl e \<Longrightarrow> \<exists>e'. e = RetryError e'"
proof -
  assume "stops_after_attempt stop" and e: "fst (retry_async stop n op s) = Inl e"
  moreover have "fst (attempts k op s) = Inl e \<Longrightarrow> \<exists>e'. e = RetryError e'" for k
    by (induction k arbitrary: s) (auto simp: pm_simps split: sum.splits)
  ultimately show ?thesis by (simp add: retry_is_attempts)
qed

lemma ai_handle_total: "never_raises (ai_seen_then_handle (inmem_ai_env lib rag llm n) m)"
proof -
  let ?env = "inmem_ai_env lib rag llm n"
  have dl: "never_raises (ai_dead_letter ?env m r)" for r
    unfolding ai_dead_letter_def dead_letter_message_def by (auto intro!: never_raises_intros)
  have give_up: "never_raises (ai_give_up ?env m e)" for e
    unfolding ai_give_up_def ai_count_def by (auto intro!: never_raises_then never_raises_basic dl)
  have retry: "never_raises (ai_process_with_retries ?env m op)" for op
  proof (unfold never_raises_def, rule allI)
    fix s
    obtain r n t where r: "retry_async attempt_iter (ai_attempts ?env) (ai_attempt op) (0, s) = (r, (n, t))"
      by (cases "retry_async attempt_iter (ai_attempts ?env) (ai_attempt op) (0, s)") auto
    show "\<exists>x. fst (ai_process_with_retries ?env m op s) = Inr x"
    proof (cases r)
      case (Inl e)
      then obtain e' where "e = RetryError e'"
        using retry_raises_retry_error [OF attempt_iter_rule, of "ai_attempts ?env" "ai_attempt op" "(0, s)" e] r by auto
      then show ?thesis
        using Inl r give_up [of e'] by (auto simp: ai_process_with_retries_def never_raises_def)
    qed (simp add: r ai_process_with_retries_def)
  qed
  show ?thesis
    unfolding ai_seen_then_handle_def ai_handle_message_def handle_news_message_def handle_signal_message_def ai_count_def
    by (auto intro!: never_raises_then never_raises_basic dl retry split: sum.split)
qed

lemma ai_poll_topic_settles:
  assumes "bus_inv (ai_bus s)"
  shows "\<exists>k s'. ai_poll_topic (inmem_ai_env lib rag llm n) j t s = (Inr k, s') \<and>
    bus_inv (ai_bus s') \<and> pending_of (ai_bus s') = pending_of (ai_bus s)"
proof -
  let ?f = "ai_seen_then_handle (inmem_ai_env lib rag llm n)"
  let ?ms = "take (nat j) (queue_of (ai_bus s) t AI_SUBSCRIPTION)"
  let ?b = "snd (ib_receive t AI_SUBSCRIPTION j (ai_bus s))"
  have rcv: "bus_receive inmem_bus_ops t AI_SUBSCRIPTION j (ai_bus s) = (Inr ?ms, ?b)"
    by (simp add: prod_eq_iff receive_parts)
  have total: "never_raises (for_each ?f ?ms)" by (intro never_raises_for_each ai_handle_total)
  obtain u s' where run: "for_each ?f ?ms (s\<lparr>ai_bus := ?b\<rparr>) = (Inr u, s')"
    by (rule never_raisesE [OF total])
  then have run': "for_each ?f ?ms (s\<lparr>ai_bus := ?b\<rparr>) = (Inr (), s')" by simp
  have "bus_inv (ai_bus s') \<and> pending_of (ai_bus s') = pending_of (ai_bus s)"
    by (rule ai.poll_settled [OF assms rcv _ run']) simp_all
  moreover have "ai_poll_topic (inmem_ai_env lib rag llm n) j t s = (Inr (int (length ?ms)), s')"
    by (simp add: ai_poll_topic_def ai_on_bus_def pm_simps receive_parts run)
  ultimately show ?thesis by blast
qed

text \<open>
  Every poll of the analysis worker returns and settles what it took from both topics:
  whatever the payloads and whatever the search store, the embedding provider and the
  language model do (they may raise on every call), afterwards exactly the messages that
  were awaiting settlement before are still awaiting it.
\<close>

theorem ai_poll_settles:
  assumes "bus_inv (ai_bus s)"
  shows "\<exists>k s'. ai_poll_once (inmem_ai_env lib rag llm n) j s = (Inr k, s') \<and>
    bus_inv (ai_bus s') \<and> pending_of (ai_bus s') = pending_of (ai_bus s)"
proof -
  let ?env = "inmem_ai_env lib rag llm n"
  obtain a s1 where a: "ai_poll_topic ?env j TOPIC_NEWS_RAW s = (Inr a, s1)"
    "bus_inv (ai_bus s1)" "pending_of (ai_bus s1) = pending_of (ai_bus s)"
    using ai_poll_topic_settles [OF assms] by blast
  obtain b s2 where b: "ai_poll_topic ?env j TOPIC_SIGNALS s1 = (Inr b, s2)"
    "bus_inv (ai_bus s2)" "pending_of (ai_bus s2) = pending_of (ai_bus s1)"
    using ai_poll_topic_settles [OF a(2)] by blast
  show ?thesis using a b by (simp add: ai_poll_once_def pm_simps)
qed

definition ai_init :: "(nat \<Rightarrow> string) \<Rightarrow> clock \<Rightarrow> 'r \<Rightarrow> 'r inmem_ai" where
  "ai_init us clk ext =
     \<lparr>ai_bus = inmem_bus_init us, ai_cache = inmem_cache_init clk, ai_ext = ext,
      ai_metrics = \<lparr>http = http_metrics_init, last_error = None, im_messages_seen = 0,
        im_messages_processed = 0, im_duplicates_suppressed = 0, im_insights_published = 0,
        im_llm_cache_hits = 0, im_processing_retries = 0, im_news_indexed = 0,
        im_signal_contexts_indexed = 0, im_dead_lettered = 0\<rparr>, ai_uuids = us, ai_next = 0\<rparr>"

text \<open>A language model that is down.\<close>

definition broken_llm :: "generation_request \<Rightarrow> (inmem_search, generation_result) pm" where
  "broken_llm request = raiseM (BackendError ''down'')"

definition ai_example_rag :: "inmem_search rag_pipeline" where
  "ai_example_rag = mock_rag null_lib example_llm (Some std_linalg) ''mock'' 4"

theorem ai_poll_settles_witness:
  "\<exists>k s'. ai_poll_once (inmem_ai_env null_lib ai_example_rag broken_llm 3) 10
     (ai_init (\<lambda>_. ''u'') second_clock inmem_search_init) = (Inr k, s') \<and> pending_of (ai_bus s') = {}"
proof -
  have "bus_inv (ai_bus (ai_init (\<lambda>_. ''u'') second_clock inmem_search_init))" by (simp add: ai_init_def bus_inv_init)
  from ai_poll_settles [OF this, of null_lib ai_example_rag broken_llm 3 10] show ?thesis
    by (auto simp: ai_init_def pending_of_def inmem_bus_init_def)
qed

section \<open>Cached generations\<close>

lemma generation_of_payload: "generation_of (PDict (generation_payload r)) = Inr r"
proof -
  have "mapR as_str (map PStr xs) = Inr xs" for xs
    by (induction xs) (simp_all add: as_str_def bindR_def)
  then show ?thesis
    by (cases r) (simp add: generation_of_def generation_payload_def generation_fields_def str_field_def
        float_field_def bool_field_def strs_field_def metadata_field_def)
qed

definition example_generation :: generation_result where
  "example_generation =
     \<lparr>gn_summary = ''up'', gn_explanation = ''rally'', gn_sentiment_score = 1 / 2, gn_sentiment_label = ''positive'',
      gn_citations = [], gn_confidence = 1 / 2, gn_grounded = False, gn_provider = ''mock'', gn_model = ''m'',
      gn_raw_text = [], gn_metadata = []\<rparr>"

text \<open>
  A generation survives the cache: reading back the payload the service stores rebuilds the
  very result, with every field and the metadata, and a payload with a field the result
  does not have is refused.
\<close>

theorem generation_roundtrip:
  "generation_of (PDict (generation_payload r)) = Inr r \<and>
   (k \<notin> set generation_fields \<longrightarrow>
      generation_of (PDict (generation_payload r @ [(k, v)])) = Inl (TypeError ''unexpected keyword argument''))"
  by (simp add: generation_of_payload) (simp add: generation_of_def)

theorem generation_roundtrip_witness:
  "generation_of (PDict (generation_payload example_generation @ [(''score'', PInt 1)]))
     = Inl (TypeError ''unexpected keyword argument'')"
  using generation_roundtrip [of example_generation "''score''" "PInt 1"] by (simp add: generation_fields_def)

lemma dict_set_same: "dict_set (dict_set d k v) k v = dict_set d k v"
  by (induction d) auto

lemma evaluate_result_frame:
  "evaluate_result lib request (r\<lparr>gn_grounded := g, gn_metadata := m\<rparr>) minc mino =
   evaluate_result lib request r minc mino"
proof -
  have sel: "gn_summary (r\<lparr>gn_grounded := g, gn_metadata := m\<rparr>) = gn_summary r"
    "gn_explanation (r\<lparr>gn_grounded := g, gn_metadata := m\<rparr>) = gn_explanation r"
    "gn_confidence (r\<lparr>gn_grounded := g, gn_metadata := m\<rparr>) = gn_confidence r"
    "gn_citations (r\<lparr>gn_grounded := g, gn_metadata := m\<rparr>) = gn_citations r"
    by simp_all
  show ?thesis
    by (simp only: evaluate_result_def output_text_def output_tokens_def overlap_ratio_def sel)
qed

lemma guardrails_stable:
  assumes "set (gn_citations r) \<subseteq> context_citation lib ` set (gr_context request)"
  shows "fst (apply_guardrails lib request (fst (apply_guardrails lib request r))) =
    fst (apply_guardrails lib request r)"
proof -
  have c: "filter (\<lambda>c. c \<in> set (allowed_citations lib request)) (gn_citations r) = gn_citations r"
    using assms by (auto simp: filter_id_conv allowed_citations_def)
  let ?rp = "evaluate_result lib request r (45 / 100) (8 / 100)"
  have one: "fst (apply_guardrails lib request q) =
      q\<lparr>gn_grounded := rp_grounded (evaluate_result lib request q (45 / 100) (8 / 100)),
        gn_metadata := dict_set (gn_metadata q) ''guardrail_reasons''
          (PList (map PStr (rp_reasons (evaluate_result lib request q (45 / 100) (8 / 100)))))\<rparr>"
    if "gn_citations q = gn_citations r" for q
    unfolding apply_guardrails_def apply_guardrails_with_eq fst_conv that c
    by (cases q) (use that in simp)
  show ?thesis
    unfolding one [OF refl] by (subst one) (simp_all add: evaluate_result_frame dict_set_same)
qed

lemma generate_miss:
  assumes "fst (build_context_documents lib rag (it_query k) 4 (Some 6) (ai_ext s)) = Inr ctx"
    and "lookup (ai_cache s) (task_cache_key (inmem_ai_env lib rag llm n) k ctx) = None"
    and "generate_with_cache (inmem_ai_env lib rag llm n) k s = (Inr r, s1)"
  shows "\<exists>raw ext1 ext2. llm (task_request k ctx) ext1 = (Inr raw, ext2) \<and>
    ext1 = snd (build_context_documents lib rag (it_query k) 4 (Some 6) (ai_ext s)) \<and>
    r = fst (apply_guardrails lib (task_request k ctx) raw) \<and>
    s1 = s\<lparr>ai_ext := ext2, ai_cache := snd (ic_set (task_cache_key (inmem_ai_env lib rag llm n) k ctx)
      (PDict (generation_payload r)) (Some IDEMPOTENCY_TTL_SECONDS)
      (snd (ic_get (task_cache_key (inmem_ai_env lib rag llm n) k ctx) (ai_cache s))))\<rparr>"
proof -
  let ?x = "snd (build_context_documents lib rag (it_query k) 4 (Some 6) (ai_ext s))"
  obtain q ext2 where q: "llm (task_request k ctx) ?x = (q, ext2)" by (rule prod.exhaust)
  show ?thesis
    using assms q
    by (cases q) (auto simp: generate_with_cache_def pm_simps ai_on_ext_def ai_on_cache_def generate_fresh_def
        Let_def ic_get_eq)
qed

lemma generate_hit:
  assumes "fst (build_context_documents lib rag (it_query k) 4 (Some 6) (ai_ext s)) = Inr ctx"
    and "lookup (ai_cache s) (task_cache_key (inmem_ai_env lib rag llm n) k ctx) = Some (PDict (generation_payload r))"
  shows "\<exists>s1. generate_with_cache (inmem_ai_env lib rag llm n) k s =
      (Inr (fst (apply_guardrails lib (task_request k ctx) r)), s1) \<and>
    ai_ext s1 = snd (build_context_documents lib rag (it_query k) 4 (Some 6) (ai_ext s)) \<and>
    ai_bus s1 = ai_bus s \<and>
    ai_metrics s1 = (ai_metrics s)\<lparr>im_llm_cache_hits := im_llm_cache_hits (ai_metrics s) + 1\<rparr>"
  using assms
  by (simp add: generate_with_cache_def pm_simps ai_on_ext_def ai_on_cache_def use_cached_def ai_count_def
      generation_of_payload ic_get_eq)

text \<open>
  The cache of generations is transparent: for a provider that cites only the context it was
  given, a generation computed afresh and then asked for again over the same context, while
  its entry is alive, is the same result, and the second time the model is not called (the
  external state is the one retrieval left) and the hit is counted.
\<close>

theorem cached_generation_same:
  assumes inv: "cache_inv (ai_cache s)"
    and ctx: "fst (build_context_documents lib rag (it_query k) 4 (Some 6) (ai_ext s)) = Inr ctx"
    and miss: "lookup (ai_cache s) (task_cache_key (inmem_ai_env lib rag llm n) k ctx) = None"
    and cites: "\<forall>ext raw ext'. llm (task_request k ctx) ext = (Inr raw, ext') \<longrightarrow>
          set (gn_citations raw) \<subseteq> context_citation lib ` set ctx"
    and run: "generate_with_cache (inmem_ai_env lib rag llm n) k s = (Inr r, s1)"
    and later: "lookup (ai_cache t) \<subseteq>\<^sub>m lookup (ai_cache s1)"
      "lookup (ai_cache t) (task_cache_key (inmem_ai_env lib rag llm n) k ctx) \<noteq> None"
    and ctx': "fst (build_context_documents lib rag (it_query k) 4 (Some 6) (ai_ext t)) = Inr ctx"
  shows "\<exists>t'. generate_with_cache (inmem_ai_env lib rag llm n) k t = (Inr r, t') \<and>
    ai_ext t' = snd (build_context_documents lib rag (it_query k) 4 (Some 6) (ai_ext t)) \<and>
    ai_bus t' = ai_bus t \<and>
    im_llm_cache_hits (ai_metrics t') = im_llm_cache_hits (ai_metrics t) + 1"
proof -
  let ?key = "task_cache_key (inmem_ai_env lib rag llm n) k ctx"
  let ?c = "snd (ic_get ?key (ai_cache s))"
  obtain raw ext1 ext2 where g: "llm (task_request k ctx) ext1 = (Inr raw, ext2)"
    "r = fst (apply_guardrails lib (task_request k ctx) raw)"
    "ai_cache s1 = snd (ic_set ?key (PDict (generation_payload r)) (Some IDEMPOTENCY_TTL_SECONDS) ?c)"
    using generate_miss [OF ctx miss run] by auto
  have "lookup (ai_cache s1) \<subseteq>\<^sub>m (lookup ?c)(?key \<mapsto> PDict (generation_payload r))"
    unfolding g(3) by (rule ic_set_lookup [OF ic_get_inv [OF inv]])
  with later have "lookup (ai_cache t) ?key = Some (PDict (generation_payload r))"
    unfolding map_le_def by (metis domIff fun_upd_same)
  from generate_hit [OF ctx' this]
  have "\<exists>t'. generate_with_cache (inmem_ai_env lib rag llm n) k t =
      (Inr (fst (apply_guardrails lib (task_request k ctx) r)), t') \<and>
    ai_ext t' = snd (build_context_documents lib rag (it_query k) 4 (Some 6) (ai_ext t)) \<and>
    ai_bus t' = ai_bus t \<and>
    im_llm_cache_hits (ai_metrics t') = im_llm_cache_hits (ai_metrics t) + 1" by fastforce
  moreover have "fst (apply_guardrails lib (task_request k ctx) r) = r"
    unfolding g(2) by (rule guardrails_stable)
      (use cites g(1) in \<open>auto simp: task_request_def generation_request_of_def\<close>)
  ultimately show ?thesis by simp
qed

section \<open>One insight per event and symbol\<close>

lemma generate_result:
  assumes "generate_with_cache (inmem_ai_env lib rag llm n) k s = (Inr r, s1)"
  obtains ctx q where "fst (build_context_documents lib rag (it_query k) 4 (Some 6) (ai_ext s)) = Inr ctx"
    "r = fst (apply_guardrails lib (task_request k ctx) q)" "ai_bus s1 = ai_bus s"
    "im_insights_published (ai_metrics s1) = im_insights_published (ai_metrics s)"
proof -
  obtain ctx where ctx: "fst (build_context_documents lib rag (it_query k) 4 (Some 6) (ai_ext s)) = Inr ctx"
    using assms by (auto simp: generate_with_cache_def pm_simps ai_on_ext_def split: sum.splits)
  show ?thesis
    using assms ctx that [OF ctx]
    by (auto simp: generate_with_cache_def pm_simps ai_on_ext_def ai_on_cache_def use_cached_def generate_fresh_def
        ai_count_def Let_def ic_get_eq bindR_Inr_iff split: if_splits sum.splits)
qed

lemma apply_guardrails_citations:
  "set (gn_citations (fst (apply_guardrails lib (task_request k ctx) q))) \<subseteq> context_citation lib ` set ctx"
  by (auto simp: apply_guardrails_def apply_guardrails_with_eq allowed_citations_def task_request_def
      generation_request_of_def)

lemma dedup_keeps_bus:
  assumes "it_processed_key k \<noteq> []" "it_processed_key k \<in> seen_ids (ai_bus t) ''insights''"
  shows "ai_bus (snd (unless_processed (inmem_ai_env lib rag llm n) k t)) = ai_bus t"
proof -
  let ?P = "\<lambda>s. ai_bus s = ai_bus t"
  note count = ai_count_frame [where P = "\<lambda>b. b = ai_bus t"]
  have pub: "triple ?P (publish_insight (inmem_ai_env lib rag llm n) ins (it_processed_key k)) (\<lambda>_. ?P) (\<lambda>_. ?P)" for ins
  proof -
    have "triple (\<lambda>b. b = ai_bus t) (ib_publish TOPIC_INSIGHTS body (Some (it_processed_key k)) corr)
        (\<lambda>_ b. b = ai_bus t) (\<lambda>_ b. b = ai_bus t)" for body corr
      using assms ib_publish_dup [of "Some (it_processed_key k)" "ai_bus t" TOPIC_INSIGHTS]
      by (simp add: triple_keep TOPIC_INSIGHTS_def)
    then show ?thesis
      unfolding publish_insight_def by (auto intro: triple_then [OF ai_bus_triple count])
  qed
  have "triple ?P (unless_processed (inmem_ai_env lib rag llm n) k) (\<lambda>_. ?P) (\<lambda>_. ?P)"
    unfolding unless_processed_def publish_insight_for_def
    by (rule triple_bind [OF ai_cache_frame], simp add: count, intro impI)
       (rule triple_bind [OF generate_frame], rule triple_bind [OF ai_make_frame],
        rule triple_then [OF pub], rule triple_then [OF ai_cache_frame ai_cache_frame])
  then show ?thesis by (simp add: triple_keep)
qed

text \<open>A task whose event is not marked processed.\<close>

lemma insight_task_once:
  assumes run: "unless_processed (inmem_ai_env lib rag llm n) k s = (Inr (), s')"
    and fresh: "lookup (ai_cache s) (it_processed_key k) = None"
    and key: "it_processed_key k \<noteq> []"
    and sub: "queues (ai_bus s) ''insights'' sub \<noteq> None"
  shows "\<exists>ctx ins m.
    fst (build_context_documents lib rag (it_query k) 4 (Some 6) (ai_ext s)) = Inr ctx \<and>
    queue_of (ai_bus s') ''insights'' sub = queue_of (ai_bus s) ''insights'' sub @
      (if it_processed_key k \<in> seen_ids (ai_bus s) ''insights'' then [] else [m]) \<and>
    msg_id m = it_processed_key k \<and> msg_body m = insight_dump lib ins \<and>
    in_symbol ins = it_symbol k \<and> event_ts ins = it_ts k \<and>
    set (in_citations ins) \<subseteq> context_citation lib ` set ctx \<and>
    map_of (c_store (ai_cache s')) (it_processed_key k) = Some (PBool True) \<and>
    im_insights_published (ai_metrics s') = im_insights_published (ai_metrics s) + 1 \<and>
    it_processed_key k \<in> seen_ids (ai_bus s') ''insights''"
proof -
  let ?env = "inmem_ai_env lib rag llm n" and ?t = "s\<lparr>ai_cache := snd (ic_get (it_processed_key k) (ai_cache s))\<rparr>"
  have "publish_insight_for ?env k ?t = (Inr (), s')"
    using run fresh by (simp add: unless_processed_def pm_simps ai_on_cache_def ic_get_eq)
  then obtain r s1 where g: "generate_with_cache ?env k ?t = (Inr r, s1)"
    and rest: "bindM (make_insight k r) (\<lambda>ins.
        thenM (publish_insight ?env ins (it_processed_key k))
        (thenM (ai_on_cache (ic_set (insight_cache_key (it_symbol k)) (insight_dump lib ins) None))
          (ai_on_cache (ic_set (it_processed_key k) (PBool True) (Some IDEMPOTENCY_TTL_SECONDS))))) s1 = (Inr (), s')"
    by (cases "generate_with_cache ?env k ?t")
       (auto simp: publish_insight_for_def bindM_def split: sum.splits)
  obtain ctx q where c: "fst (build_context_documents lib rag (it_query k) 4 (Some 6) (ai_ext ?t)) = Inr ctx"
    "r = fst (apply_guardrails lib (task_request k ctx) q)" "ai_bus s1 = ai_bus ?t"
    "im_insights_published (ai_metrics s1) = im_insights_published (ai_metrics ?t)"
    by (rule generate_result [OF g])
  let ?ins = "insight_from_result (ai_uuids s1 (ai_next s1)) (it_symbol k) (it_ts k) (it_correlation k) (it_trace k)
      (with_event_detection r (it_detection k))"
  let ?b = "snd (ib_publish ''insights'' (insight_dump lib ?ins) (Some (it_processed_key k)) (correlation_id ?ins) (ai_bus s))"
  have s': "ai_bus s' = ?b" "map_of (c_store (ai_cache s')) (it_processed_key k) = Some (PBool True)"
    "im_insights_published (ai_metrics s') = im_insights_published (ai_metrics s) + 1"
    using rest c(3,4)
    by (auto simp: pm_simps make_insight_def publish_insight_def ai_on_bus_def ai_on_cache_def ai_count_def
        TOPIC_INSIGHTS_def)
  let ?m = "published_message ''insights'' sub (insight_dump lib ?ins) (it_processed_key k) (correlation_id ?ins)
      (next_sequence (ai_bus s) ''insights'')"
  have q: "queue_of (ai_bus s') ''insights'' sub = queue_of (ai_bus s) ''insights'' sub @
        (if it_processed_key k \<in> seen_ids (ai_bus s) ''insights'' then [] else [?m]) \<and>
      it_processed_key k \<in> seen_ids (ai_bus s') ''insights''"
  proof (cases "it_processed_key k \<in> seen_ids (ai_bus s) ''insights''")
    case True
    then show ?thesis using key ib_publish_dup [of "Some (it_processed_key k)" "ai_bus s" "''insights''"] by (simp add: s'(1))
  next
    case False
    then have new: "fst (pick_message_id (Some (it_processed_key k)) (ai_bus s)) \<notin> seen_ids (ai_bus s) ''insights''"
      using key by simp
    note pub = ib_publish_new [OF new, of "insight_dump lib ?ins" "correlation_id ?ins"]
    show ?thesis using pub(2) [of "''insights''" sub] pub(4) sub key False by (simp add: s'(1))
  qed
  have cites: "set (in_citations ?ins) \<subseteq> context_citation lib ` set ctx"
    using apply_guardrails_citations [of lib k ctx q] c(2)
    by (simp add: insight_from_result_def with_event_detection_def)
  show ?thesis
    using c(1) q cites s'(2,3)
    by (intro exI [of _ ctx] exI [of _ ?ins] exI [of _ ?m])
       (simp add: insight_from_result_def published_message_def)
qed

text \<open>The two publishing methods, with the key, the symbol, the time and the query of their insight.\<close>

definition insight_jobs ::
  "pylib \<Rightarrow> news_event \<Rightarrow> string \<Rightarrow> signal_event \<Rightarrow>
   (((inmem_bus, inmem_cache, 'r) ai_env \<Rightarrow> ('r inmem_ai, unit) pm) \<times> string \<times> string \<times> datetime \<times> string) list" where
  "insight_jobs lib ev symbol sg =
     [(\<lambda>env. publish_news_insight env ev symbol,
       ''ai-analysis:processed:news:'' @ event_id ev @ '':'' @ symbol, symbol, event_ts ev,
       symbol @ '' '' @ ne_title ev @ '' '' @ ne_body ev),
      (\<lambda>env. publish_signal_insight env sg,
       ''ai-analysis:processed:signal:'' @ event_id sg, sg_symbol sg, event_ts sg, signal_query lib sg)]"

lemma insight_job_task:
  assumes "(job, key, symbol, ts, query) \<in> set (insight_jobs lib ev ticker sg)"
  shows "\<exists>k. job (inmem_ai_env lib rag llm n) = unless_processed (inmem_ai_env lib rag llm n) k \<and>
    it_processed_key k = key \<and> it_symbol k = symbol \<and> it_ts k = ts \<and> it_query k = query"
proof -
  let ?env = "inmem_ai_env lib rag llm n"
  from assms consider "job = (\<lambda>env. publish_news_insight env ev ticker)" "key = news_processed_key ev ticker"
      "symbol = ticker" "ts = event_ts ev" "query = ticker @ '' '' @ ne_title ev @ '' '' @ ne_body ev"
    | "job = (\<lambda>env. publish_signal_insight env sg)" "key = signal_processed_key sg"
      "symbol = sg_symbol sg" "ts = event_ts sg" "query = signal_query lib sg"
    by (auto simp: insight_jobs_def news_processed_key_def signal_processed_key_def AI_PROCESSED_PREFIX_def)
  then show ?thesis
  proof cases
    case 1
    then show ?thesis
      by (intro exI [of _ "news_task ?env ev ticker"]) (simp add: publish_news_insight_def news_task_def Let_def)
  next
    case 2
    then show ?thesis
      by (intro exI [of _ "signal_task ?env sg"]) (simp add: publish_signal_insight_def signal_task_def Let_def)
  qed
qed

text \<open>
  C34: An insight is published once per source event and symbol: a news event gives one insight
  for each symbol under the key of the event and the symbol, a signal one under its own key.
  When the event was not marked processed and the job returns, every subscription of the
  insight topic gained one message, identified by that key and carrying the dump of an
  insight of the job's symbol and time that cites only the documents retrieved for its query,
  or none when the topic had already taken a message of that key (the marker had expired); the
  marker is written; and the job run again on that bus or any later one, with any cache, any
  model and any store, leaves the bus as it is.
\<close>

theorem insight_published_once:
  fixes s s' :: "'r inmem_ai"
  assumes job: "(job, key, symbol, ts, query) \<in> set (insight_jobs lib ev ticker sg)"
    and run: "job (inmem_ai_env lib rag llm n) s = (Inr (), s')"
    and fresh: "lookup (ai_cache s) key = None"
    and sub: "queues (ai_bus s) ''insights'' sub \<noteq> None"
  shows "\<exists>ctx ins m.
    fst (build_context_documents lib rag query 4 (Some 6) (ai_ext s)) = Inr ctx \<and>
    queue_of (ai_bus s') ''insights'' sub = queue_of (ai_bus s) ''insights'' sub @
      (if key \<in> seen_ids (ai_bus s) ''insights'' then [] else [m]) \<and>
    msg_id m = key \<and> msg_body m = insight_dump lib ins \<and> in_symbol ins = symbol \<and> event_ts ins = ts \<and>
    set (in_citations ins) \<subseteq> context_citation lib ` set ctx \<and>
    map_of (c_store (ai_cache s')) key = Some (PBool True) \<and>
    im_insights_published (ai_metrics s') = im_insights_published (ai_metrics s) + 1 \<and>
    (\<forall>(t :: 'r inmem_ai) rag' llm' n'. seen_ids (ai_bus s') ''insights'' \<subseteq> seen_ids (ai_bus t) ''insights'' \<longrightarrow>
       ai_bus (snd (job (inmem_ai_env lib rag' llm' n') t)) = ai_bus t)"
proof -
  obtain k where k: "job (inmem_ai_env lib rag llm n) = unless_processed (inmem_ai_env lib rag llm n) k"
    "it_processed_key k = key" "it_symbol k = symbol" "it_ts k = ts" "it_query k = query"
    using insight_job_task [OF job, of rag llm n] by blast
  have key: "key \<noteq> []" using job by (auto simp: insight_jobs_def)
  note once = insight_task_once [OF run [unfolded k(1)], unfolded k(2-5), OF fresh key sub]
  have again: "ai_bus (snd (job (inmem_ai_env lib rag' llm' n') t)) = ai_bus t"
    if t: "seen_ids (ai_bus s') ''insights'' \<subseteq> seen_ids (ai_bus t) ''insights''" for t :: "'r inmem_ai" and rag' llm' n'
  proof -
    obtain k' where "job (inmem_ai_env lib rag' llm' n') = unless_processed (inmem_ai_env lib rag' llm' n') k'"
      "it_processed_key k' = key"
      using insight_job_task [OF job, of rag' llm' n'] by blast
    then show ?thesis using dedup_keeps_bus [of k' t] key once t by auto
  qed
  from once again show ?thesis by blast
qed

section \<open>Giving up\<close>

lemma failing_attempts:
  assumes "\<forall>t. \<exists>e t'. op t = (Inl e, t') \<and> ai_bus t' = ai_bus t \<and> ai_metrics t' = ai_metrics t"
  shows "\<exists>e t'. attempts k (ai_attempt op) (j, t) = (Inl (RetryError e), (j + k + 1, t')) \<and>
    ai_bus t' = ai_bus t \<and>
    ai_metrics t' = (ai_metrics t)\<lparr>im_processing_retries :=
      im_processing_retries (ai_metrics t) + int k + (if j = 0 then 0 else 1)\<rparr>"
proof (induction k arbitrary: j t)
  case 0
  obtain e t' where "op (ai_count_retry (j + 1) t) = (Inl e, t')"
    "ai_bus t' = ai_bus (ai_count_retry (j + 1) t)" "ai_metrics t' = ai_metrics (ai_count_retry (j + 1) t)"
    using assms by blast
  then show ?case by (auto simp: pm_simps ai_attempt_def ai_count_retry_def)
next
  case (Suc k)
  obtain e t' where op: "op (ai_count_retry (j + 1) t) = (Inl e, t')"
    "ai_bus t' = ai_bus (ai_count_retry (j + 1) t)" "ai_metrics t' = ai_metrics (ai_count_retry (j + 1) t)"
    using assms by blast
  from Suc.IH [of "j + 1" t'] show ?case
    using op by (auto simp: pm_simps ai_attempt_def ai_count_retry_def)
qed

text \<open>
  An event that keeps failing is given up after the configured attempts and never lost: if
  every attempt raises, exactly \<open>max(1, max_processing_attempts) - 1\<close> retries are counted, the
  message is moved to the dead letters with the exception of the last attempt recorded, it is
  no longer in flight, and the handler returns.
\<close>

theorem ai_gives_up:
  assumes "\<forall>t. \<exists>e t'. op t = (Inl e, t') \<and> ai_bus t' = ai_bus t \<and> ai_metrics t' = ai_metrics t"
  shows "\<exists>e s'. ai_process_with_retries (inmem_ai_env lib rag llm n) m op s = (Inr (), s') \<and>
    ai_metrics s' = (ai_metrics s)\<lparr>
      im_processing_retries := im_processing_retries (ai_metrics s) + (max 1 n - 1),
      im_dead_lettered := im_dead_lettered (ai_metrics s) + 1,
      last_error := Some (''ai analysis failed: '' @ exn_name e @ '': '' @ exn_str e)\<rparr> \<and>
    in_flight (ai_bus s') (msg_ref m) = None \<and>
    dlqs (ai_bus s') = (dlqs (ai_bus s))(msg_topic m := (dlqs (ai_bus s) (msg_topic m))(msg_sub m :=
      dlqs (ai_bus s) (msg_topic m) (msg_sub m) @ [m\<lparr>msg_dlq := True\<rparr>]))"
proof -
  let ?k = "nat (max 1 n - 1)"
  obtain e t' where a: "attempts ?k (ai_attempt op) (0, s) = (Inl (RetryError e), (0 + ?k + 1, t'))"
    "ai_bus t' = ai_bus s"
    "ai_metrics t' = (ai_metrics s)\<lparr>im_processing_retries := im_processing_retries (ai_metrics s) + int ?k\<rparr>"
    using failing_attempts [OF assms, of ?k 0 s] by auto
  have "ai_process_with_retries (inmem_ai_env lib rag llm n) m op s = ai_give_up (inmem_ai_env lib rag llm n) m e t'"
    using a(1) by (simp add: ai_process_with_retries_def ai_attempts_def retry_is_attempts [OF attempt_iter_rule])
  then show ?thesis
    using a(2,3)
    by (auto simp: ai_give_up_def ai_dead_letter_def dead_letter_message_def pm_simps ai_count_def ai_failed_text_def
        ib_dead_letter_def Let_def)
qed

section \<open>Concrete runs\<close>

text \<open>A pipeline over an empty in-memory index with a constant embedding, and a constant model.\<close>

definition flat_rag :: "inmem_search rag_pipeline" where
  "flat_rag =
     \<lparr>rg_store = inmem_search_ops null_lib None,
      rg_embed = (\<lambda>r s. (Inr \<lparr>ev_vectors = map (\<lambda>_. [1]) (er_texts r), ev_provider = ''x'', ev_model = ''m'',
                         ev_dimensions = 1\<rparr>, s)),
      rg_index = ''i'', rg_chunking = default_chunking, rg_dimensions = 1, rg_weight = 0\<rparr>"

definition echo_llm :: "generation_request \<Rightarrow> (inmem_search, generation_result) pm" where
  "echo_llm request = returnM example_generation"

lemma flat_context:
  assumes "se_indices st = []" "se_vectors st = [] \<or> se_vectors st = [(''i'', (1, COSINE))]"
  shows "build_context_documents null_lib flat_rag q 4 (Some 6) st
    = (Inr [], st\<lparr>se_vectors := [(''i'', (1, COSINE))]\<rparr>)"
  using assms
  by (auto simp: build_context_documents_def retrieve_chunks_def flat_rag_def pm_simps inmem_search_ops_def
      im_ensure_def embed_texts_def validate_embeddings_def im_knn_def store_of_def validate_vector_def
      rerank_retrieved_chunks_def sort_ranked_def by_score_def slice_first_def COSINE_def)

definition flat_env :: "(inmem_bus, inmem_cache, inmem_search) ai_env" where
  "flat_env = inmem_ai_env null_lib flat_rag echo_llm 3"

definition flat_task :: insight_task where
  "flat_task = \<lparr>it_symbol = ''BTC'', it_content_hash = [], it_processed_key = ''k'', it_prompt = ''p'', it_query = ''q'',
     it_metadata = [], it_ts = utc_datetime 0, it_correlation = None, it_trace = None,
     it_detection = detected ''c'' ''L'' ''r''\<rparr>"

text \<open>A worker whose insight topic has one subscription.\<close>

definition flat_start :: "inmem_search inmem_ai" where
  "flat_start = (ai_init (\<lambda>_. ''u'') second_clock inmem_search_init)\<lparr>ai_bus :=
     snd (ib_peek ''insights'' ''api'' 0 None (inmem_bus_init (\<lambda>_. ''u'')))\<rparr>"

lemma flat_start_sel:
  "lookup (ai_cache flat_start) k = None" "seen_ids (ai_bus flat_start) t = {}"
  "queues (ai_bus flat_start) ''insights'' ''api'' \<noteq> None" "ai_ext flat_start = inmem_search_init"
  "cache_inv (ai_cache flat_start)" "queue_of (ai_bus flat_start) ''insights'' ''api'' = []"
  "c_clock (ai_cache flat_start) = second_clock"
  by (simp_all add: flat_start_def ai_init_def ib_peek_def Let_def inmem_bus_init_def set_queue_def queue_of_def
      lookup_def second_clock_inv [unfolded inmem_cache_init_def] inmem_cache_init_def)

lemma flat_context_start:
  "build_context_documents null_lib flat_rag q 4 (Some 6) inmem_search_init
    = (Inr [], inmem_search_init\<lparr>se_vectors := [(''i'', (1, COSINE))]\<rparr>)"
  by (rule flat_context) (simp_all add: inmem_search_init_def)

lemma flat_generate:
  assumes "lookup (ai_cache s) (task_cache_key flat_env k []) = None" "ai_ext s = inmem_search_init"
  shows "\<exists>r s1. generate_with_cache flat_env k s = (Inr r, s1) \<and>
    ai_ext s1 = inmem_search_init\<lparr>se_vectors := [(''i'', (1, COSINE))]\<rparr> \<and>
    ai_cache s1 = snd (ic_set (task_cache_key flat_env k []) (PDict (generation_payload r)) (Some IDEMPOTENCY_TTL_SECONDS)
      (snd (ic_get (task_cache_key flat_env k []) (ai_cache s))))"
  using assms
  by (simp add: flat_env_def generate_with_cache_def pm_simps ai_on_ext_def ai_on_cache_def flat_context_start
      ic_get_eq generate_fresh_def Let_def echo_llm_def)

lemma flat_run: "\<exists>s'. unless_processed flat_env k flat_start = (Inr (), s')"
proof -
  let ?t = "flat_start\<lparr>ai_cache := snd (ic_get (it_processed_key k) (ai_cache flat_start))\<rparr>"
  have none: "lookup (ai_cache ?t) x = None" for x
    using ic_get_lookup [OF flat_start_sel(5), of "it_processed_key k"] flat_start_sel(1) [of x]
    by (simp add: map_le_def) (metis domIff)
  obtain r s1 where g: "generate_with_cache flat_env k ?t = (Inr r, s1)"
    using flat_generate [of ?t k] none flat_start_sel(4) by auto
  then show ?thesis
    using flat_start_sel(1)
    by (cases "unless_processed flat_env k flat_start")
       (auto simp: unless_processed_def pm_simps ai_on_cache_def ic_get_eq publish_insight_for_def
        make_insight_def publish_insight_def ai_on_bus_def ai_count_def flat_env_def)
qed

definition flat_signal :: signal_event where
  "flat_signal = \<lparr>event_id = ''e1'', event_ts = utc_datetime 0, correlation_id = None, trace_id = None,
     sg_symbol = ''BTC'', sg_source = ''x'', sg_indicators = [], sg_anomaly = False\<rparr>"

definition flat_news :: news_event where
  "flat_news = \<lparr>event_id = ''n1'', event_ts = utc_datetime 0, correlation_id = None, trace_id = None,
     ne_source = ''x'', ne_title = ''t'', ne_body = ''b'', ne_url = None, ne_symbols = [''BTC''], ne_author = None\<rparr>"

theorem insight_published_once_witness:
  "\<exists>s' m. publish_news_insight flat_env flat_news ''BTC'' flat_start = (Inr (), s') \<and>
     queue_of (ai_bus s') ''insights'' ''api'' = [m] \<and> msg_id m = ''ai-analysis:processed:news:n1:BTC''"
proof -
  obtain s' where run: "publish_news_insight flat_env flat_news ''BTC'' flat_start = (Inr (), s')"
    using flat_run unfolding publish_news_insight_def by blast
  have "(\<lambda>env. publish_news_insight env flat_news ''BTC'', ''ai-analysis:processed:news:n1:BTC'', ''BTC'',
      event_ts flat_news, ''BTC'' @ '' '' @ ne_title flat_news @ '' '' @ ne_body flat_news)
      \<in> set (insight_jobs null_lib flat_news ''BTC'' flat_signal)"
    by (simp add: insight_jobs_def flat_news_def)
  from insight_published_once [OF this run [unfolded flat_env_def], of "''api''"] run
  show ?thesis by (auto simp: flat_start_sel)
qed

theorem cached_generation_same_witness:
  "\<exists>r s1 t'. generate_with_cache flat_env flat_task flat_start = (Inr r, s1) \<and>
     generate_with_cache flat_env flat_task s1 = (Inr r, t') \<and>
     im_llm_cache_hits (ai_metrics t') = im_llm_cache_hits (ai_metrics s1) + 1"
proof -
  let ?key = "task_cache_key flat_env flat_task []"
  obtain r s1 where g: "generate_with_cache flat_env flat_task flat_start = (Inr r, s1)"
    "ai_ext s1 = inmem_search_init\<lparr>se_vectors := [(''i'', (1, COSINE))]\<rparr>"
    "ai_cache s1 = snd (ic_set ?key (PDict (generation_payload r)) (Some IDEMPOTENCY_TTL_SECONDS)
      (snd (ic_get ?key (ai_cache flat_start))))"
    using flat_generate [of flat_start flat_task] flat_start_sel(1,4) by auto
  have live: "lookup (ai_cache s1) ?key \<noteq> None"
    unfolding g(3)
    by (simp add: lookup_def ic_set_expiry ic_get_eq flat_start_sel(7) ic_set_def Let_def read_clock_def
        second_clock_def IDEMPOTENCY_TTL_SECONDS_def forget_def is_expired_def split: prod.split option.split)
  have ctx: "fst (build_context_documents null_lib flat_rag (it_query flat_task) 4 (Some 6) (ai_ext s1)) = Inr []"
    unfolding g(2) by (subst flat_context) (simp_all add: inmem_search_init_def)
  from cached_generation_same [of flat_start null_lib flat_rag flat_task "[]" echo_llm 3 r s1 s1]
  show ?thesis
    using g(1) live ctx flat_start_sel(1,4,5)
    by (auto simp: flat_env_def flat_context_start echo_llm_def returnM_def example_generation_def)
qed

theorem ai_gives_up_witness:
  "\<exists>e s'. ai_process_with_retries (inmem_ai_env null_lib flat_rag broken_llm 3) (example_message PNone)
       (raiseM (BackendError ''down'')) flat_start = (Inr (), s') \<and>
     im_processing_retries (ai_metrics s') = im_processing_retries (ai_metrics flat_start) + 2 \<and>
     in_flight (ai_bus s') (msg_ref (example_message PNone)) = None"
proof -
  have "\<forall>t. \<exists>e t'. raiseM (BackendError ''down'') t = (Inl e, t') \<and>
      ai_bus t' = ai_bus (t :: inmem_search inmem_ai) \<and> ai_metrics t' = ai_metrics t"
    by (simp add: raiseM_def)
  from ai_gives_up [OF this, of null_lib flat_rag broken_llm 3 "example_message PNone" flat_start]
  show ?thesis by auto
qed

end
