(* ===== verification/Sources.thy ===== *)
theory Sources
  imports Providers TimeSeries
begin

text \<open>
  The news collectors of \<open>services/ingestion/sources\<close>: the shared helpers of \<open>base.py\<close>
  (timestamps, symbols, content hash), the JSON collector of \<open>rest.py\<close> and the feed
  collector of \<open>rss.py\<close> with its refusal of document type declarations.  XML and date
  parsing, URL joining and decoding of bytes are parameters; fetching, the clock and fresh
  identifiers are operations on an external state.
\<close>

section \<open>Parameters\<close>

text \<open>A parsed element: its tag, attributes, text and children, in document order.\<close>

datatype xml = Element (xml_tag: string) (xml_attrib: "(string \<times> string) list")
  (xml_text: "string option") (xml_children: "xml list")

datatype feed_payload = Text string | Bytes "nat list"

record feed_lib =
  fl_llm :: llm_lib
  fl_iso :: "string \<Rightarrow> datetime option"
  fl_http_date :: "string \<Rightarrow> datetime option"
  fl_urljoin :: "string \<Rightarrow> string \<Rightarrow> string"
  fl_xml :: "feed_payload \<Rightarrow> xml option"
  fl_decode :: "string \<Rightarrow> nat list \<Rightarrow> string"

record 'x source_ops =
  so_fetch :: "string \<Rightarrow> ('x, pyval) pm"
  so_fetch_feed :: "string \<Rightarrow> ('x, feed_payload) pm"
  so_now :: "('x, datetime) pm"
  so_uuid :: "('x, string) pm"

section \<open>Timestamps\<close>

definition unsupported_timestamp :: "pylib \<Rightarrow> pyval \<Rightarrow> exn" where
  "unsupported_timestamp lib v = ValueError (''Unsupported timestamp value: '' @ repr_of lib v)"

definition with_offset :: "string \<Rightarrow> string" where
  "with_offset s = replace_char (CHR ''Z'') ''+00:00'' s"

definition coerce_datetime :: "pylib \<Rightarrow> feed_lib \<Rightarrow> pyval \<Rightarrow> datetime result" where
  "coerce_datetime lib fl v =
     (case v of
        PTime d \<Rightarrow> Inr (as_utc d)
      | PStr s \<Rightarrow> (case fl_iso fl (with_offset (str_strip s)) of
            Some d \<Rightarrow> Inr (as_utc d)
          | None \<Rightarrow> (case fl_http_date fl s of
                Some d \<Rightarrow> Inr (as_utc d)
              | None \<Rightarrow> Inl (ValueError ''Invalid date value'')))
      | _ \<Rightarrow> (case as_number v of
            Some x \<Rightarrow> bindR (from_timestamp x) (\<lambda>d. Inr (as_utc d))
          | None \<Rightarrow> Inl (unsupported_timestamp lib v)))"

section \<open>Symbols\<close>

definition DEFAULT_NEWS_SYMBOLS :: "string list" where
  "DEFAULT_NEWS_SYMBOLS = [''BTC'', ''ETH'', ''BTCUSDT'', ''ETHUSD'']"

definition add_new :: "'a list \<Rightarrow> 'a \<Rightarrow> 'a list" where
  "add_new xs x = (if x \<in> set xs then xs else xs @ [x])"

definition normalize_symbols :: "string list \<Rightarrow> string list" where
  "normalize_symbols symbols = foldl (\<lambda>acc s. add_new acc (str_upper s)) [] symbols"

text \<open>The candidates to look for, each with the symbol it stands for; the first entry of a name stays.\<close>

definition add_candidate :: "(string \<times> string) list \<Rightarrow> string \<times> string \<Rightarrow> (string \<times> string) list" where
  "add_candidate cs p = (if fst p \<in> fst ` set cs then cs else cs @ [p])"

definition symbol_candidates :: "string list \<Rightarrow> (string \<times> string) list \<Rightarrow> (string \<times> string) list" where
  "symbol_candidates symbol_list symbol_map =
     foldl (\<lambda>cs (alias, canonical).
         add_candidate (add_candidate cs (str_upper alias, str_upper canonical)) (str_upper canonical, str_upper canonical))
       (foldl (\<lambda>cs s. add_candidate cs (str_upper s, str_upper s)) [] symbol_list) symbol_map"

definition symbol_char :: "char \<Rightarrow> bool" where
  "symbol_char c \<longleftrightarrow> chars_between 65 90 c \<or> chars_between 48 57 c"

text \<open>\<open>(?<![A-Z0-9])candidate(?![A-Z0-9])\<close>, the first argument telling whether a symbol character precedes.\<close>

fun bounded_match :: "bool \<Rightarrow> string \<Rightarrow> string \<Rightarrow> bool" where
  "bounded_match after cand s =
     (\<not> after \<and> starts_with cand s
        \<and> (case drop (length cand) s of [] \<Rightarrow> True | c # _ \<Rightarrow> \<not> symbol_char c)
      \<or> (case s of [] \<Rightarrow> False | c # cs \<Rightarrow> bounded_match (symbol_char c) cand cs))"

declare bounded_match.simps [simp del]

definition symbol_matches :: "string \<Rightarrow> (string \<times> string) list \<Rightarrow> string list" where
  "symbol_matches upper_text candidates =
     foldl (\<lambda>ms (cand, canonical).
        if canonical \<notin> set ms \<and> bounded_match False cand upper_text then ms @ [canonical] else ms) [] candidates"

text \<open>\<open>" ".join(text for text in texts if text)\<close> raises on a truthy value that is not a string.\<close>

definition join_texts :: "pyval list \<Rightarrow> string result" where
  "join_texts texts =
     bindR (mapR (\<lambda>v. case v of PStr s \<Rightarrow> Inr s | _ \<Rightarrow> Inl (TypeError ''sequence item: expected str instance''))
              (filter truthy texts))
       (\<lambda>ss. Inr (str_join '' '' ss))"

definition extract_symbols ::
  "pyval list \<Rightarrow> string list \<Rightarrow> (string \<times> string) list \<Rightarrow> string list result" where
  "extract_symbols texts symbol_list symbol_map =
     bindR (join_texts texts) (\<lambda>combined.
       if combined = [] then Inr []
       else Inr (symbol_matches (str_upper combined) (symbol_candidates symbol_list symbol_map)))"

section \<open>Content hash\<close>

definition hash_payload :: "pylib \<Rightarrow> news_event \<Rightarrow> pydict" where
  "hash_payload lib ev =
     [(''source'', PStr (ne_source ev)), (''title'', PStr (ne_title ev)), (''body'', PStr (ne_body ev)),
      (''url'', opt_str (ne_url ev)), (''symbols'', PList (map PStr (normalize_symbols (ne_symbols ev)))),
      (''author'', opt_str (ne_author ev))]"

definition hash_news_event :: "pylib \<Rightarrow> news_event \<Rightarrow> string" where
  "hash_news_event lib ev = sha256_hex lib (json_dumps_compact lib (PDict (hash_payload lib ev)))"

section \<open>The JSON collector\<close>

record social_feed =
  sf_url :: string
  sf_source :: string
  sf_symbol_list :: "string list"
  sf_symbol_map :: "(string \<times> string) list"
  sf_base_url :: "string option"

fun first_value :: "pydict \<Rightarrow> string list \<Rightarrow> pyval" where
  "first_value payload [] = PNone"
| "first_value payload (k # ks) =
     (if dget payload k \<notin> {PNone, PStr []} then dget payload k else first_value payload ks)"

fun mappings_of :: "pyval list \<Rightarrow> pydict list" where
  "mappings_of [] = []"
| "mappings_of (PDict d # vs) = d # mappings_of vs"
| "mappings_of (_ # vs) = mappings_of vs"

definition nested_posts :: "pydict list \<Rightarrow> pydict list" where
  "nested_posts children = mappings_of (map (\<lambda>d. dget d ''data'') children)"

definition child_post :: "pydict \<Rightarrow> pydict" where
  "child_post d = (case dget d ''data'' of PDict n \<Rightarrow> n | _ \<Rightarrow> d)"

definition children_of :: "pyval \<Rightarrow> pyval list option" where
  "children_of v = (case v of PDict d \<Rightarrow> (case dget d ''children'' of PList cs \<Rightarrow> Some cs | _ \<Rightarrow> None) | _ \<Rightarrow> None)"

definition extract_posts :: "pyval \<Rightarrow> pydict list" where
  "extract_posts payload =
     (case payload of
        PList items \<Rightarrow> mappings_of items
      | PDict d \<Rightarrow>
          (case dget d ''hits'' of PList items \<Rightarrow> mappings_of items
           | _ \<Rightarrow> (case dget d ''items'' of PList items \<Rightarrow> mappings_of items
           | _ \<Rightarrow> (case children_of (dget d ''data'') of Some cs \<Rightarrow> nested_posts (mappings_of cs)
           | None \<Rightarrow> (case dget d ''children'' of PList cs \<Rightarrow> map child_post (mappings_of cs)
           | _ \<Rightarrow> [d]))))
      | _ \<Rightarrow> [])"

text \<open>Pydantic accepts only a string for a text field.\<close>

definition str_value :: "pyval \<Rightarrow> string result" where
  "str_value v = (case v of PStr s \<Rightarrow> Inr s | _ \<Rightarrow> Inl (ValidationError ''Input should be a valid string''))"

definition string_or_none :: "pyval \<Rightarrow> string option" where
  "string_or_none v = (case v of PStr s \<Rightarrow> Some s | _ \<Rightarrow> None)"

text \<open>The event, with a fresh id and, without a timestamp, the current time.\<close>

definition new_news_event ::
  "'x source_ops \<Rightarrow> string \<Rightarrow> pyval \<Rightarrow> pyval \<Rightarrow> string option \<Rightarrow> string list \<Rightarrow> string option \<Rightarrow>
   datetime option \<Rightarrow> ('x, news_event) pm" where
  "new_news_event ops source title body url symbols author ts =
     bindM (case ts of Some t \<Rightarrow> returnM t | None \<Rightarrow> so_now ops) (\<lambda>t.
     bindM (so_uuid ops) (\<lambda>eid.
     liftR (bindR (str_value title) (\<lambda>ti. bindR (str_value body) (\<lambda>bo.
       Inr \<lparr>event_id = eid, event_ts = t, correlation_id = None, trace_id = None, ne_source = source,
            ne_title = ti, ne_body = bo, ne_url = url, ne_symbols = symbols, ne_author = author\<rparr>)))))"

definition post_url :: "feed_lib \<Rightarrow> string option \<Rightarrow> pyval \<Rightarrow> string option" where
  "post_url fl base_url v =
     (case v of
        PStr u \<Rightarrow> (case base_url of
            Some (b # bs) \<Rightarrow> if starts_with ''/'' u then Some (fl_urljoin fl (b # bs) u) else Some u
          | _ \<Rightarrow> Some u)
      | _ \<Rightarrow> None)"

definition post_ts :: "pylib \<Rightarrow> feed_lib \<Rightarrow> pydict \<Rightarrow> datetime option result" where
  "post_ts lib fl post =
     (let v = first_value post [''created_utc'', ''created_at'', ''published_at'', ''published'', ''timestamp'', ''time'']
      in if v = PNone then Inr None else bindR (coerce_datetime lib fl v) (\<lambda>d. Inr (Some d)))"

definition event_symbols ::
  "pyval \<Rightarrow> pyval \<Rightarrow> string list \<Rightarrow> (string \<times> string) list \<Rightarrow> string list result" where
  "event_symbols title body symbol_list symbol_map =
     bindR (extract_symbols [py_or title (PStr []), py_or body (PStr [])] symbol_list symbol_map)
       (\<lambda>ss. Inr (normalize_symbols ss))"

definition normalize_post ::
  "pylib \<Rightarrow> feed_lib \<Rightarrow> 'x source_ops \<Rightarrow> social_feed \<Rightarrow> pydict \<Rightarrow> ('x, news_event option) pm" where
  "normalize_post lib fl ops feed post =
     (let title = first_value post [''title'', ''story_title'', ''name'', ''headline''];
          body = first_value post [''selftext'', ''story_text'', ''text'', ''body'', ''summary'', ''description''];
          source = PStr (sf_source feed) in
      if title = PNone \<and> body = PNone then returnM None
      else bindM (liftR (post_ts lib fl post)) (\<lambda>ts.
           bindM (liftR (event_symbols title body (sf_symbol_list feed) (sf_symbol_map feed))) (\<lambda>symbols.
           bindM (new_news_event ops (sf_source feed) (py_or title (py_or body source)) (py_or body (py_or title source))
                    (post_url fl (sf_base_url feed) (first_value post [''url'', ''link'', ''story_url'', ''permalink'']))
                    symbols
                    (string_or_none (first_value post [''author'', ''username'', ''user'', ''display_name''])) ts)
             (\<lambda>ev. returnM (Some ev)))))"

text \<open>\<open>for x in xs: e = f(x); if e is not None: events.append(e)\<close>; the first exception ends the poll.\<close>

primrec collect :: "('a \<Rightarrow> ('x, 'e option) pm) \<Rightarrow> 'a list \<Rightarrow> ('x, 'e list) pm" where
  "collect f [] = returnM []"
| "collect f (x # xs) = bindM (f x) (\<lambda>e. bindM (collect f xs) (\<lambda>es.
     returnM (case e of None \<Rightarrow> es | Some v \<Rightarrow> v # es)))"

primrec collect_feeds :: "('f \<Rightarrow> ('x, 'e list) pm) \<Rightarrow> 'f list \<Rightarrow> ('x, 'e list) pm" where
  "collect_feeds f [] = returnM []"
| "collect_feeds f (x # xs) = bindM (f x) (\<lambda>es. bindM (collect_feeds f xs) (\<lambda>rest. returnM (es @ rest)))"

definition rest_poll_once ::
  "pylib \<Rightarrow> feed_lib \<Rightarrow> 'x source_ops \<Rightarrow> social_feed list \<Rightarrow> ('x, news_event list) pm" where
  "rest_poll_once lib fl ops feeds =
     collect_feeds (\<lambda>feed. bindM (so_fetch ops (sf_url feed)) (\<lambda>payload.
        collect (normalize_post lib fl ops feed) (extract_posts payload))) feeds"

section \<open>The feed collector\<close>

definition MAX_FEED_BYTES :: nat where "MAX_FEED_BYTES = 5 * 1024 * 1024"
definition MAX_ENTRIES_PER_FEED :: nat where "MAX_ENTRIES_PER_FEED = 500"
definition PROLOG_SCAN_LIMIT :: nat where "PROLOG_SCAN_LIMIT = 64 * 1024"

record rss_feed =
  rs_url :: string
  rs_source :: string
  rs_symbol_list :: "string list"
  rs_symbol_map :: "(string \<times> string) list"

definition local_name :: "string \<Rightarrow> string" where
  "local_name tag = str_lower (rev (takeWhile (\<lambda>c. c \<noteq> CHR 0x7D) (rev tag)))"

text \<open>The stripped text of an element, if it is not blank.\<close>

definition text_of :: "string option \<Rightarrow> string option" where
  "text_of t = (case t of None \<Rightarrow> None | Some s \<Rightarrow> if str_strip s = [] then None else Some (str_strip s))"

fun first_some :: "'a option list \<Rightarrow> 'a option" where
  "first_some [] = None"
| "first_some (Some x # vs) = Some x"
| "first_some (None # vs) = first_some vs"

definition text_in :: "string list \<Rightarrow> xml list \<Rightarrow> string option" where
  "text_in names es = first_some (map (\<lambda>e. if local_name (xml_tag e) \<in> set names then text_of (xml_text e) else None) es)"

fun xml_iter :: "xml \<Rightarrow> xml list" where
  "xml_iter (Element t a x cs) = Element t a x cs # concat (map xml_iter cs)"

definition child_text :: "xml \<Rightarrow> string list \<Rightarrow> string option" where
  "child_text e names = text_in names (xml_children e)"

definition descendant_text :: "xml \<Rightarrow> string list \<Rightarrow> string option" where
  "descendant_text e names = text_in names (tl (xml_iter e))"

definition link_of :: "xml \<Rightarrow> string option" where
  "link_of e =
     (if local_name (xml_tag e) \<noteq> ''link'' then None
      else case map_of (xml_attrib e) ''href'' of
        Some (c # cs) \<Rightarrow> Some (c # cs) | _ \<Rightarrow> text_of (xml_text e))"

definition child_link :: "xml \<Rightarrow> string option" where
  "child_link e = first_some (map link_of (xml_children e))"

definition first_text :: "string option list \<Rightarrow> string option" where
  "first_text vs = first_some (map text_of vs)"

text \<open>
  One leading processing instruction or comment, after white space: what follows its first
  end mark.
\<close>

definition after_mark :: "string \<Rightarrow> string \<Rightarrow> string option" where
  "after_mark m s = map_option (\<lambda>i. drop (i + length m) s) (str_index m s)"

definition leading_misc :: "string \<Rightarrow> string option" where
  "leading_misc head =
     (let t = dropWhile is_space head in
      if starts_with ''<?'' t then after_mark ''?>'' (drop 2 t)
      else if starts_with ''<!--'' t then after_mark ''-->'' (drop 4 t)
      else None)"

lemma length_after_mark: "after_mark m s = Some r \<Longrightarrow> length r \<le> length s"
  by (auto simp: after_mark_def)

lemma length_leading_misc: "leading_misc head = Some r \<Longrightarrow> length r < length head"
proof -
  assume r: "leading_misc head = Some r"
  have le: "length (dropWhile is_space head) \<le> length head" by (rule length_dropWhile_le)
  have "length r < length (dropWhile is_space head)"
    using r by (auto simp: leading_misc_def Let_def starts_with_iff split: if_splits dest!: length_after_mark)
  with le show ?thesis by simp
qed

function strip_leading_misc :: "string \<Rightarrow> string" where
  "strip_leading_misc head =
     (case leading_misc head of None \<Rightarrow> head | Some r \<Rightarrow> strip_leading_misc r)"
  by pat_completeness auto
termination
  by (relation "measure length") (auto dest: length_leading_misc)

declare strip_leading_misc.simps [simp del]

text \<open>Where \<open><[A-Za-z_]\<close> first matches.\<close>

definition name_start :: "char \<Rightarrow> bool" where
  "name_start c \<longleftrightarrow> chars_between 65 90 c \<or> chars_between 97 122 c \<or> c = CHR ''_''"

fun root_start :: "string \<Rightarrow> nat option" where
  "root_start (a # b # cs) = (if a = CHR ''<'' \<and> name_start b then Some 0 else map_option Suc (root_start (b # cs)))"
| "root_start _ = None"

definition prolog_of :: "string \<Rightarrow> string" where
  "prolog_of head =
     (let stripped = strip_leading_misc head; consumed = length head - length stripped in
      case root_start stripped of Some i \<Rightarrow> take (consumed + i) head | None \<Rightarrow> head)"

definition declares_doctype :: "string \<Rightarrow> bool" where
  "declares_doctype head \<longleftrightarrow> str_contains ''<!doctype'' (str_lower (prolog_of head))"

definition scan_head :: "feed_lib \<Rightarrow> feed_payload \<Rightarrow> string" where
  "scan_head fl p = (case p of
      Text s \<Rightarrow> take PROLOG_SCAN_LIMIT s
    | Bytes b \<Rightarrow> fl_decode fl ''utf-8'' (take PROLOG_SCAN_LIMIT b))"

definition reject_doctype :: "feed_lib \<Rightarrow> feed_payload \<Rightarrow> unit result" where
  "reject_doctype fl p =
     (if declares_doctype (scan_head fl p)
      then Inl (ValueError ''feed declares a DOCTYPE; refusing to parse untrusted DTD'') else Inr ())"

definition payload_bytes :: "feed_payload \<Rightarrow> nat" where
  "payload_bytes p = (case p of Text s \<Rightarrow> length (utf8 s) | Bytes b \<Rightarrow> length b)"

definition feed_entries :: "xml \<Rightarrow> xml list" where
  "feed_entries doc =
     (if local_name (xml_tag doc) = ''feed''
      then filter (\<lambda>e. local_name (xml_tag e) = ''entry'') (xml_children doc)
      else filter (\<lambda>e. local_name (xml_tag e) = ''item'') (xml_iter doc))"

definition parse_feed_entries :: "feed_lib \<Rightarrow> feed_payload \<Rightarrow> xml list result" where
  "parse_feed_entries fl p =
     (if payload_bytes p > MAX_FEED_BYTES
      then Inl (ValueError (''feed payload exceeds '' @ int_str (int MAX_FEED_BYTES) @ '' bytes''))
      else bindR (reject_doctype fl p) (\<lambda>_.
        case fl_xml fl p of
          None \<Rightarrow> Inl (BackendError ''ParseError'')
        | Some e \<Rightarrow> Inr (take MAX_ENTRIES_PER_FEED (feed_entries e))))"

definition opt_or :: "string option \<Rightarrow> string option \<Rightarrow> string \<Rightarrow> pyval" where
  "opt_or a b c = py_or (opt_str a) (py_or (opt_str b) (PStr c))"

definition entry_ts :: "pylib \<Rightarrow> feed_lib \<Rightarrow> xml \<Rightarrow> datetime option result" where
  "entry_ts lib fl e =
     (let names = [''pubdate'', ''updated'', ''published'', ''created''] in
      case first_text [child_text e names, descendant_text e names] of
        None \<Rightarrow> Inr None
      | Some s \<Rightarrow> bindR (coerce_datetime lib fl (PStr s)) (\<lambda>d. Inr (Some d)))"

definition normalize_rss_entry ::
  "pylib \<Rightarrow> feed_lib \<Rightarrow> 'x source_ops \<Rightarrow> rss_feed \<Rightarrow> xml \<Rightarrow> ('x, news_event option) pm" where
  "normalize_rss_entry lib fl ops feed e =
     (let title = first_text [child_text e [''title''], descendant_text e [''title'']];
          body = first_text [child_text e [''description'', ''summary''], descendant_text e [''encoded'', ''content''], title];
          link = first_text [child_link e, descendant_text e [''link'']];
          author = first_text [child_text e [''author'', ''creator''], descendant_text e [''author'', ''creator'']] in
      if title = None \<and> body = None then returnM None
      else bindM (liftR (entry_ts lib fl e)) (\<lambda>ts.
           bindM (liftR (event_symbols (opt_str title) (opt_str body) (rs_symbol_list feed) (rs_symbol_map feed))) (\<lambda>symbols.
           bindM (new_news_event ops (rs_source feed) (opt_or title body (rs_source feed)) (opt_or body title (rs_source feed))
                    link symbols author ts)
             (\<lambda>ev. returnM (Some ev)))))"

definition rss_poll_once ::
  "pylib \<Rightarrow> feed_lib \<Rightarrow> 'x source_ops \<Rightarrow> rss_feed list \<Rightarrow> ('x, news_event list) pm" where
  "rss_poll_once lib fl ops feeds =
     collect_feeds (\<lambda>feed. bindM (so_fetch_feed ops (rs_url feed)) (\<lambda>payload.
        bindM (liftR (parse_feed_entries fl payload)) (\<lambda>entries.
          collect (normalize_rss_entry lib fl ops feed) entries))) feeds"

text \<open>Reading a response chunk by chunk under the cap.\<close>

fun read_capped :: "string \<Rightarrow> nat list \<Rightarrow> nat list list \<Rightarrow> nat list result" where
  "read_capped url buffer [] = Inr buffer"
| "read_capped url buffer (chunk # chunks) =
     (if length (buffer @ chunk) > MAX_FEED_BYTES
      then Inl (ValueError (''feed at '' @ url @ '' exceeds '' @ int_str (int MAX_FEED_BYTES) @ '' bytes''))
      else read_capped url (buffer @ chunk) chunks)"

definition fetch_rss_text :: "feed_lib \<Rightarrow> string \<Rightarrow> nat list list \<Rightarrow> string option \<Rightarrow> string result" where
  "fetch_rss_text fl url chunks charset =
     bindR (read_capped url [] chunks) (\<lambda>buffer. Inr (fl_decode fl (str_or charset ''utf-8'') buffer))"

end
