(* ===== verification/SourcesProps.thy ===== *)
theory SourcesProps
  imports Sources ProviderProps
begin

text \<open>
  What the collectors guarantee on untrusted input: a declared document type is refused
  wherever XML allows it, a response is read whole or refused at the cap, and the symbols
  of an event are distinct, canonical and really mentioned.
\<close>

section \<open>Document type declarations\<close>

text \<open>An end mark is found where it stands when its text does not occur before.\<close>

lemma starts_with_split:
  assumes "starts_with (m @ [c]) (b @ (m @ [c]) @ r)" "b \<noteq> []" "c \<notin> set m"
  shows "str_contains (m @ [c]) b"
proof -
  obtain t where "b @ ((m @ [c]) @ r) = (m @ [c]) @ t" using assms(1) by (auto simp: starts_with_iff)
  then obtain us where "b = (m @ [c]) @ us \<or> b @ us = m @ [c] \<and> (m @ [c]) @ r = us @ t"
    unfolding append_eq_append_conv2 by blast
  then show ?thesis
  proof
    assume "b = (m @ [c]) @ us"
    then show ?thesis unfolding str_contains_iff by (intro exI [of _ "[]"] exI [of _ us]) simp
  next
    assume two: "b @ us = m @ [c] \<and> (m @ [c]) @ r = us @ t"
    show ?thesis
    proof (cases us rule: rev_cases)
      case Nil
      then have "b = m @ [c]" using two by simp
      then show ?thesis unfolding str_contains_iff by (intro exI [of _ "[]"]) simp
    next
      case (snoc vs x)
      then have x: "x = c" and m: "m = b @ vs" using two by (simp_all flip: append_assoc)
      then have vs: "length vs < length m" using assms(2) by simp
      have "m @ c # r = vs @ c # t" using two snoc x by simp
      then have "(m @ c # r) ! length vs = c" by simp
      then have "m ! length vs = c" using vs by (simp add: nth_append)
      then show ?thesis using vs assms(3) nth_mem by blast
    qed
  qed
qed

lemma index_of_mark:
  "\<not> str_contains (m @ [c]) b \<Longrightarrow> c \<notin> set m \<Longrightarrow> str_index (m @ [c]) (b @ (m @ [c]) @ r) = Some (length b)"
proof (induction b)
  case Nil
  have "starts_with (m @ [c]) ((m @ [c]) @ r)" by (rule starts_with_append)
  then show ?case by (subst str_index.simps) simp
next
  case (Cons x b)
  have no: "\<not> starts_with (m @ [c]) ((x # b) @ (m @ [c]) @ r)"
    using starts_with_split [of m c "x # b" r] Cons.prems by blast
  have "\<not> str_contains (m @ [c]) b" using Cons.prems(1) by simp
  from Cons.IH [OF this Cons.prems(2)] show ?case using no by (subst str_index.simps) simp
qed

lemma after_mark_at:
  "\<not> str_contains (m @ [c]) b \<Longrightarrow> c \<notin> set m \<Longrightarrow> after_mark (m @ [c]) (b @ (m @ [c]) @ r) = Some r"
  using index_of_mark [of m c b r] by (simp add: after_mark_def)

text \<open>What XML allows before the root element besides the declaration.\<close>

definition misc_item :: "string \<Rightarrow> bool" where
  "misc_item s \<longleftrightarrow> (\<exists>ws b. list_all is_space ws \<and>
     (s = ws @ ''<?'' @ b @ ''?>'' \<and> \<not> str_contains ''?>'' b \<or>
      s = ws @ ''<!--'' @ b @ ''-->'' \<and> \<not> str_contains ''-->'' b))"

lemma dropWhile_spaces: "list_all is_space ws \<Longrightarrow> \<not> is_space c \<Longrightarrow> dropWhile is_space (ws @ c # t) = c # t"
  by (induction ws) auto

lemma mark_not_space: "\<not> is_space (CHR ''<'')"
  by (simp add: is_space_def chars_between_def)

lemma leading_misc_item:
  assumes "misc_item s"
  shows "leading_misc (s @ t) = Some t"
proof -
  obtain ws b where ws: "list_all is_space ws"
    and s: "s = ws @ ''<?'' @ b @ ''?>'' \<and> \<not> str_contains ''?>'' b \<or>
      s = ws @ ''<!--'' @ b @ ''-->'' \<and> \<not> str_contains ''-->'' b"
    using assms unfolding misc_item_def by blast
  from s show ?thesis
  proof
    assume pi: "s = ws @ ''<?'' @ b @ ''?>'' \<and> \<not> str_contains ''?>'' b"
    then have "dropWhile is_space (s @ t) = ''<?'' @ b @ ''?>'' @ t"
      using dropWhile_spaces [OF ws mark_not_space, of "''?'' @ b @ ''?>'' @ t"] by simp
    moreover have "after_mark ''?>'' (b @ ''?>'' @ t) = Some t"
      using after_mark_at [of "''?''" "CHR ''>''" b t] pi by simp
    ultimately show ?thesis by (simp add: leading_misc_def Let_def)
  next
    assume co: "s = ws @ ''<!--'' @ b @ ''-->'' \<and> \<not> str_contains ''-->'' b"
    then have "dropWhile is_space (s @ t) = ''<!--'' @ b @ ''-->'' @ t"
      using dropWhile_spaces [OF ws mark_not_space, of "''!--'' @ b @ ''-->'' @ t"] by simp
    moreover have "after_mark ''-->'' (b @ ''-->'' @ t) = Some t"
      using after_mark_at [of "''--''" "CHR ''>''" b t] co by simp
    ultimately show ?thesis by (simp add: leading_misc_def Let_def)
  qed
qed

lemma strip_misc_items:
  "\<forall>s\<in>set items. misc_item s \<Longrightarrow> leading_misc t = None \<Longrightarrow> strip_leading_misc (concat items @ t) = t"
proof (induction items)
  case Nil
  then show ?case by (subst strip_leading_misc.simps) simp
next
  case (Cons s items)
  then have "leading_misc (s @ concat items @ t) = Some (concat items @ t)"
    by (intro leading_misc_item) simp
  then show ?case using Cons by (subst strip_leading_misc.simps) simp
qed

lemma root_start_skip: "CHR ''<'' \<notin> set u \<Longrightarrow> root_start (u @ r) = map_option (\<lambda>i. length u + i) (root_start r)"
proof (induction u)
  case Nil
  then show ?case by (simp add: option.map_ident)
next
  case (Cons a u)
  show ?case
  proof (cases "u @ r")
    case Nil
    then show ?thesis by simp
  next
    case tail: (Cons b cs)
    moreover have "a \<noteq> CHR ''<''" using Cons.prems by auto
    ultimately have "root_start ((a # u) @ r) = map_option Suc (root_start (u @ r))" by simp
    then show ?thesis using Cons.IH Cons.prems by (simp add: option.map_comp comp_def)
  qed
qed

lemma lower_char_symbol: "lower_char c = d \<Longrightarrow> \<not> chars_between 97 122 d \<Longrightarrow> c = d"
proof -
  assume l: "lower_char c = d" and d: "\<not> chars_between 97 122 d"
  show "c = d"
  proof (cases "chars_between 65 90 c")
    case True
    then have "(of_char d :: nat) = of_char c + 32"
      using l by (auto simp: lower_char_def chars_between_def of_char_of)
    with True d show ?thesis by (simp add: chars_between_def)
  qed (use l in \<open>simp add: lower_char_def\<close>)
qed

text \<open>
  C37: A declared document type never reaches the parser: whatever processing instructions and
  comments come before it (a comment may contain markup), in any case of its letters and
  whatever follows, a text whose declaration lies within the first 64K characters is refused
  with an error before parsing.
\<close>

theorem doctype_never_parsed:
  assumes items: "\<forall>s\<in>set items. misc_item s"
    and ws: "list_all is_space ws"
    and d: "str_lower d = ''<!doctype''"
    and bound: "length (concat items @ ws @ d) \<le> 64 * 1024"
  shows "\<exists>t. parse_feed_entries fl (Text (concat items @ ws @ d @ rest)) = Inl (ValueError t)"
proof -
  let ?r = "take (64 * 1024 - length (concat items @ ws @ d)) rest"
  let ?head = "concat items @ ws @ d @ ?r"
  have head: "scan_head fl (Text (concat items @ ws @ d @ rest)) = ?head"
    using bound by (simp add: scan_head_def PROLOG_SCAN_LIMIT_def add.assoc)
  obtain w where dw: "d = CHR ''<'' # CHR ''!'' # w" and w: "str_lower w = ''doctype''"
  proof -
    obtain a b w where "d = a # b # w" "lower_char a = CHR ''<''" "lower_char b = CHR ''!''" "str_lower w = ''doctype''"
      using d unfolding str_lower_def by (cases d; simp; cases "tl d"; simp)
    then show ?thesis using that lower_char_symbol [of a "CHR ''<''"] lower_char_symbol [of b "CHR ''!''"]
      by (simp add: chars_between_def)
  qed
  have w_lt: "CHR ''<'' \<notin> set w"
  proof
    assume "CHR ''<'' \<in> set w"
    then have "lower_char (CHR ''<'') \<in> set (str_lower w)" unfolding str_lower_def by simp
    then show False unfolding w by (simp add: lower_char_def chars_between_def)
  qed
  have ws_lt: "CHR ''<'' \<notin> set ws" using ws mark_not_space by (auto simp: list_all_iff)
  obtain x v where wx: "w = x # v" "lower_char x = CHR ''d''" using w unfolding str_lower_def by (cases w) auto
  have "x \<noteq> CHR ''-''" using wx(2) by (auto simp: lower_char_def chars_between_def)
  then have "leading_misc (ws @ d @ ?r) = None"
    using dropWhile_spaces [OF ws mark_not_space, of "tl d @ ?r"] dw wx(1)
    by (simp add: leading_misc_def Let_def)
  from strip_misc_items [OF items this] have strip: "strip_leading_misc ?head = ws @ d @ ?r" .
  have "root_start (ws @ d @ ?r) = map_option (\<lambda>i. length ws + i) (root_start (d @ ?r))"
    by (rule root_start_skip [OF ws_lt])
  also have "root_start (d @ ?r) = map_option Suc (root_start ((CHR ''!'' # w) @ ?r))"
    by (simp add: dw name_start_def chars_between_def)
  also have "root_start ((CHR ''!'' # w) @ ?r) = map_option (\<lambda>i. length (CHR ''!'' # w) + i) (root_start ?r)"
    by (rule root_start_skip) (simp add: w_lt)
  finally have start: "root_start (ws @ d @ ?r) = map_option (\<lambda>i. length ws + length d + i) (root_start ?r)"
    by (simp add: option.map_comp comp_def dw add.assoc)
  obtain p where p: "prolog_of ?head = concat items @ ws @ d @ p"
  proof (cases "root_start ?r")
    case None
    then show ?thesis using that [of ?r] start strip by (simp add: prolog_of_def Let_def)
  next
    case (Some i)
    have "prolog_of ?head = take (length (concat items) + (length ws + length d + i)) ?head"
      using Some start strip by (simp add: prolog_of_def Let_def)
    then show ?thesis using that [of "take i ?r"] by simp
  qed
  have "declares_doctype ?head"
    unfolding declares_doctype_def p str_contains_iff
    by (rule exI [of _ "str_lower (concat items @ ws)"], rule exI [of _ "str_lower p"])
       (simp add: str_lower_def d [unfolded str_lower_def])
  then show ?thesis by (simp add: parse_feed_entries_def reject_doctype_def head bindR_def)
qed

theorem doctype_never_parsed_witness:
  "\<exists>t. parse_feed_entries \<lparr>fl_llm = example_llm, fl_iso = (\<lambda>_. None), fl_http_date = (\<lambda>_. None),
       fl_urljoin = (\<lambda>_ u. u), fl_xml = (\<lambda>_. Some (Element ''rss'' [] None [])), fl_decode = (\<lambda>_ _. [])\<rparr>
     (Text ''<?xml version?><!-- <a --> <!DocType rss><rss/>'') = Inl (ValueError t)"
proof -
  have 1: "misc_item ''<?xml version?>''"
    unfolding misc_item_def by (intro exI [of _ "[]"] exI [of _ "''xml version''"]) simp
  have 2: "misc_item ''<!-- <a -->''"
    unfolding misc_item_def by (intro exI [of _ "[]"] exI [of _ "'' <a ''"]) simp
  have 3: "str_lower ''<!DocType'' = ''<!doctype''" by code_simp
  from doctype_never_parsed [of "[''<?xml version?>'', ''<!-- <a -->'']" "'' ''" "''<!DocType''" _ "'' rss><rss/>''"]
  show ?thesis using 1 2 3 by (simp add: is_space_def chars_between_def)
qed

section \<open>Reading under the cap\<close>

lemma read_capped_from:
  "length buffer \<le> MAX_FEED_BYTES \<Longrightarrow>
   read_capped url buffer chunks =
     (if length (buffer @ concat chunks) \<le> MAX_FEED_BYTES then Inr (buffer @ concat chunks)
      else Inl (ValueError (''feed at '' @ url @ '' exceeds '' @ int_str (int MAX_FEED_BYTES) @ '' bytes'')))"
  by (induction url buffer chunks rule: read_capped.induct) auto

text \<open>
  A feed is read whole or refused: however the response is cut into chunks, the bytes handed
  to the decoder are all of the body in order when it has at most 5 MiB, and otherwise the
  read fails with an error; a truncated body is never parsed.
\<close>

theorem feed_read_whole:
  "fetch_rss_text fl url chunks charset =
     (if length (concat chunks) \<le> 5242880
      then Inr (fl_decode fl (case charset of Some (c # cs) \<Rightarrow> c # cs | _ \<Rightarrow> ''utf-8'') (concat chunks))
      else Inl (ValueError (''feed at '' @ url @ '' exceeds '' @ int_str 5242880 @ '' bytes'')))"
  using read_capped_from [of "[]" url chunks]
  by (simp add: fetch_rss_text_def str_or_def MAX_FEED_BYTES_def bindR_def)

section \<open>Symbols\<close>

lemma add_new_props: "distinct xs \<Longrightarrow> distinct (add_new xs x)" "set (add_new xs x) = insert x (set xs)"
  by (auto simp: add_new_def)

lemma normalize_symbols_props:
  "distinct (normalize_symbols ss) \<and> set (normalize_symbols ss) = str_upper ` set ss"
proof -
  have "distinct acc \<Longrightarrow> distinct (foldl (\<lambda>acc s. add_new acc (str_upper s)) acc ss) \<and>
      set (foldl (\<lambda>acc s. add_new acc (str_upper s)) acc ss) = set acc \<union> str_upper ` set ss" for acc
    by (induction ss arbitrary: acc) (auto simp: add_new_props)
  from this [of "[]"] show ?thesis by (simp add: normalize_symbols_def)
qed

lemma symbol_matches_props:
  "distinct (symbol_matches t cs) \<and>
   set (symbol_matches t cs) = {canonical. \<exists>cand. (cand, canonical) \<in> set cs \<and> bounded_match False cand t}"
proof -
  let ?f = "\<lambda>ms (cand, canonical). if canonical \<notin> set ms \<and> bounded_match False cand t then ms @ [canonical] else ms"
  have "distinct ms \<Longrightarrow> distinct (foldl ?f ms cs) \<and>
     set (foldl ?f ms cs) = set ms \<union> {canonical. \<exists>cand. (cand, canonical) \<in> set cs \<and> bounded_match False cand t}" for ms
    by (induction cs arbitrary: ms) (auto split: prod.splits)
  from this [of "[]"] show ?thesis by (simp add: symbol_matches_def)
qed

text \<open>A bounded match is an occurrence with no symbol character on either side.\<close>

lemma bounded_match_iff:
  "bounded_match after cand s \<longleftrightarrow> (\<exists>a b. s = a @ cand @ b \<and>
     (if a = [] then \<not> after else \<not> symbol_char (last a)) \<and> (b = [] \<or> \<not> symbol_char (hd b)))"
proof (induction s arbitrary: after)
  case Nil
  show ?case by (subst bounded_match.simps) (auto simp: starts_with_iff)
next
  case (Cons c s)
  have here: "starts_with cand (c # s) \<and> (case drop (length cand) (c # s) of [] \<Rightarrow> True | d # _ \<Rightarrow> \<not> symbol_char d)
      \<longleftrightarrow> (\<exists>b. c # s = cand @ b \<and> (b = [] \<or> \<not> symbol_char (hd b)))"
  proof (cases "\<exists>b. c # s = cand @ b")
    case True
    then obtain b where b: "c # s = cand @ b" ..
    show ?thesis unfolding b by (cases b) (simp_all add: starts_with_append [of cand "[]", simplified])
  qed (simp add: starts_with_iff)
  have "bounded_match after cand (c # s) \<longleftrightarrow>
      \<not> after \<and> (\<exists>b. c # s = cand @ b \<and> (b = [] \<or> \<not> symbol_char (hd b))) \<or> bounded_match (symbol_char c) cand s"
    unfolding here [symmetric] by (subst bounded_match.simps) auto
  also have "bounded_match (symbol_char c) cand s \<longleftrightarrow> (\<exists>a b. s = a @ cand @ b \<and>
     \<not> symbol_char (last (c # a)) \<and> (b = [] \<or> \<not> symbol_char (hd b)))"
    unfolding Cons.IH last.simps if_not_P by (simp only: if_distrib [of Not] if_distrib [of symbol_char])
  also have "\<not> after \<and> (\<exists>b. c # s = cand @ b \<and> (b = [] \<or> \<not> symbol_char (hd b))) \<or>
      (\<exists>a b. s = a @ cand @ b \<and> \<not> symbol_char (last (c # a)) \<and> (b = [] \<or> \<not> symbol_char (hd b))) \<longleftrightarrow>
    (\<exists>a b. c # s = a @ cand @ b \<and>
     (if a = [] then \<not> after else \<not> symbol_char (last a)) \<and> (b = [] \<or> \<not> symbol_char (hd b)))" (is "?l \<longleftrightarrow> ?r")
  proof
    assume ?l
    then show ?r
    proof
      assume "\<not> after \<and> (\<exists>b. c # s = cand @ b \<and> (b = [] \<or> \<not> symbol_char (hd b)))"
      then obtain b where "\<not> after" "c # s = cand @ b" "b = [] \<or> \<not> symbol_char (hd b)" by (elim conjE exE)
      then show ?r by (intro exI [of _ "[]"] exI [of _ b]) simp
    next
      assume "\<exists>a b. s = a @ cand @ b \<and> \<not> symbol_char (last (c # a)) \<and> (b = [] \<or> \<not> symbol_char (hd b))"
      then obtain a b where "s = a @ cand @ b" "\<not> symbol_char (last (c # a))" "b = [] \<or> \<not> symbol_char (hd b)"
        by (elim exE conjE)
      then show ?r by (intro exI [of _ "c # a"] exI [of _ b]) simp
    qed
  next
    assume ?r
    then obtain a b where ab: "c # s = a @ cand @ b" "if a = [] then \<not> after else \<not> symbol_char (last a)"
      "b = [] \<or> \<not> symbol_char (hd b)" by (elim exE conjE)
    show ?l
    proof (cases a)
      case Nil
      then show ?l using ab by (intro disjI1) auto
    next
      case (Cons x a')
      then show ?l using ab by (intro disjI2 exI [of _ a'] exI [of _ b]) simp
    qed
  qed
  finally show ?case .
qed

lemma bounded_match_mention:
  "bounded_match False cand s \<longleftrightarrow> (\<exists>a b. s = a @ cand @ b \<and>
     (a = [] \<or> \<not> symbol_char (last a)) \<and> (b = [] \<or> \<not> symbol_char (hd b)))"
proof -
  have "(if a = [] then \<not> False else \<not> symbol_char (last a)) \<longleftrightarrow> (a = [] \<or> \<not> symbol_char (last a))" for a
    by simp
  then show ?thesis by (simp only: bounded_match_iff)
qed

lemma join_texts_strings: "join_texts [PStr a, PStr b] = Inr (str_join '' '' (filter (\<lambda>s. s \<noteq> []) [a, b]))"
  by (simp add: join_texts_def bindR_def)

lemma add_candidate_names: "distinct (map fst cs) \<Longrightarrow> distinct (map fst (add_candidate cs p))"
  by (auto simp: add_candidate_def)

lemma candidates_unique: "distinct (map fst (symbol_candidates ss mp))"
proof -
  have 1: "distinct (map fst cs) \<Longrightarrow> distinct (map fst (foldl (\<lambda>cs s. add_candidate cs (str_upper s, str_upper s)) cs ss))" for cs
    by (induction ss arbitrary: cs) (simp_all add: add_candidate_names)
  have "distinct (map fst cs) \<Longrightarrow> distinct (map fst (foldl (\<lambda>cs (alias, canonical).
      add_candidate (add_candidate cs (str_upper alias, str_upper canonical)) (str_upper canonical, str_upper canonical)) cs mp))" for cs
    by (induction mp arbitrary: cs) (auto simp: add_candidate_names)
  from this [OF 1 [of "[]"]] show ?thesis by (simp add: symbol_candidates_def)
qed

text \<open>
  The symbols of an event are distinct, and each of them is really mentioned: a name that
  stands for it (the symbol itself or one of its aliases) occurs in the upper-cased text with
  no letter or digit on either side, and every symbol mentioned so is found; no name stands
  for two symbols.
\<close>

theorem symbols_mentioned:
  assumes "extract_symbols [PStr title, PStr body] symbol_list symbol_map = Inr found"
    and "title \<noteq> [] \<or> body \<noteq> []"
  shows "distinct found \<and>
    (\<forall>sym. sym \<in> set found \<longleftrightarrow> (\<exists>name a b.
       map_of (symbol_candidates symbol_list symbol_map) name = Some sym \<and>
       str_upper (str_join '' '' (filter (\<lambda>s. s \<noteq> []) [title, body])) = a @ name @ b \<and>
       (a = [] \<or> \<not> symbol_char (last a)) \<and> (b = [] \<or> \<not> symbol_char (hd b))))"
proof -
  let ?text = "str_join '' '' (filter (\<lambda>s. s \<noteq> []) [title, body])"
  have "?text \<noteq> []" using assms(2) by auto
  then have found: "found = symbol_matches (str_upper ?text) (symbol_candidates symbol_list symbol_map)"
    using assms(1) by (simp only: extract_symbols_def join_texts_strings bindR_simps if_False sum.inject)
  have named: "map_of (symbol_candidates symbol_list symbol_map) name = Some sym \<longleftrightarrow>
      (name, sym) \<in> set (symbol_candidates symbol_list symbol_map)" for name sym
    using candidates_unique by (rule map_of_eq_Some_iff)
  have "sym \<in> set found \<longleftrightarrow> (\<exists>name. map_of (symbol_candidates symbol_list symbol_map) name = Some sym \<and>
      bounded_match False name (str_upper ?text))" for sym
    using symbol_matches_props [of "str_upper ?text" "symbol_candidates symbol_list symbol_map"]
    unfolding found named by simp
  then have mention: "sym \<in> set found \<longleftrightarrow> (\<exists>name a b. map_of (symbol_candidates symbol_list symbol_map) name = Some sym \<and>
      str_upper ?text = a @ name @ b \<and>
      (a = [] \<or> \<not> symbol_char (last a)) \<and> (b = [] \<or> \<not> symbol_char (hd b)))" for sym
    unfolding bounded_match_mention by (simp only: ex_simps)
  have "distinct found" unfolding found using symbol_matches_props by (rule conjunct1)
  with mention show ?thesis by (intro conjI allI)
qed

theorem symbols_mentioned_witness:
  "\<exists>found. extract_symbols [PStr ''Bitcoin and eth up'', PStr ''the BTCX''] [''btc'', ''eth''] [(''bitcoin'', ''btc'')]
      = Inr found \<and> distinct found \<and> found = [''ETH'', ''BTC'']"
proof -
  have run: "extract_symbols [PStr ''Bitcoin and eth up'', PStr ''the BTCX''] [''btc'', ''eth''] [(''bitcoin'', ''btc'')]
      = Inr [''ETH'', ''BTC'']"
    by code_simp
  from symbols_mentioned [OF run] run show ?thesis by simp
qed

end
