(* ===== verification/Ingestion.thy ===== *)
theory Ingestion
  imports SourcesProps Resilience
    "HOL-Library.Char_ord" "HOL-Library.List_Lexorder"
begin

text \<open>
  The ingestion service: the normalizer of exchange and replay payloads
  (\<open>services/ingestion/normalizer.py\<close>), the replay feed with its simulated disconnects
  (\<open>replay.py\<close>), the ingestion loop (\<open>service.py\<close>), the news polling service
  (\<open>sources/service.py\<close>) and the local news endpoint (\<open>app.py\<close>).
\<close>

section \<open>Normalizer\<close>

definition norm_datetime :: "pylib \<Rightarrow> feed_lib \<Rightarrow> pyval \<Rightarrow> datetime result" where
  "norm_datetime lib fl v =
     (case v of
        PTime d \<Rightarrow> Inr (as_utc d)
      | PStr s \<Rightarrow> (case fl_iso fl (with_offset s) of
            Some d \<Rightarrow> Inr (as_utc d)
          | None \<Rightarrow> Inl (ValueError (''Invalid isoformat string: '' @ repr_of lib (PStr (with_offset s)))))
      | _ \<Rightarrow> (case as_number v of
            Some x \<Rightarrow> bindR (from_timestamp x) (\<lambda>d. Inr (as_utc d))
          | None \<Rightarrow> Inl (unsupported_timestamp lib v)))"

definition optional_float :: "feed_lib \<Rightarrow> pyval \<Rightarrow> real option result" where
  "optional_float fl v = (if v = PNone then Inr None else bindR (to_float (fl_llm fl) v) (\<lambda>x. Inr (Some x)))"

text \<open>Pydantic accepts a string or null for an optional text field.\<close>

definition opt_str_value :: "pyval \<Rightarrow> string option result" where
  "opt_str_value v = (case v of PNone \<Rightarrow> Inr None | PStr s \<Rightarrow> Inr (Some s)
     | _ \<Rightarrow> Inl (ValidationError ''Input should be a valid string''))"

definition market_event_of ::
  "string \<Rightarrow> datetime \<Rightarrow> string \<Rightarrow> string \<Rightarrow> string \<Rightarrow> real \<Rightarrow> real option \<Rightarrow> real option \<Rightarrow> real option \<Rightarrow> market_event" where
  "market_event_of eid t symbol source kind price volume bid ask =
     \<lparr>event_id = eid, event_ts = t, correlation_id = None, trace_id = None, me_symbol = symbol,
      me_source = source, me_type = kind, me_price = price, me_volume = volume, me_bid = bid, me_ask = ask\<rparr>"

definition upper_field :: "pylib \<Rightarrow> pydict \<Rightarrow> string \<Rightarrow> string result" where
  "upper_field lib payload k = bindR (getitem (PDict payload) k) (\<lambda>v. Inr (str_upper (py_str lib v)))"

definition float_item :: "feed_lib \<Rightarrow> pydict \<Rightarrow> string \<Rightarrow> real result" where
  "float_item fl payload k = bindR (getitem (PDict payload) k) (to_float (fl_llm fl))"

definition normalize_replay ::
  "pylib \<Rightarrow> feed_lib \<Rightarrow> string \<Rightarrow> pydict \<Rightarrow> string option \<Rightarrow> market_event result" where
  "normalize_replay lib fl eid payload override =
     bindR (upper_field lib payload ''symbol'') (\<lambda>symbol.
     bindR (float_item fl payload ''price'') (\<lambda>price.
     bindR (optional_float fl (dget payload ''volume'')) (\<lambda>volume.
     bindR (optional_float fl (dget payload ''bid'')) (\<lambda>bid.
     bindR (optional_float fl (dget payload ''ask'')) (\<lambda>ask.
     bindR (bindR (getitem (PDict payload) ''ts'') (norm_datetime lib fl)) (\<lambda>t.
     bindR (opt_str_value (dget payload ''correlation_id'')) (\<lambda>corr.
     bindR (opt_str_value (dget payload ''trace_id'')) (\<lambda>trace.
       Inr ((market_event_of eid t symbol
               (str_or override (py_str lib (dget_or payload ''source'' (PStr ''replay''))))
               (py_str lib (dget_or payload ''event_type'' (PStr ''trade''))) price volume bid ask)
             \<lparr>correlation_id := corr, trace_id := trace\<rparr>)))))))))"

text \<open>
  Binance reuses field letters: on a trade frame \<open>p\<close> and \<open>q\<close> are price and volume and \<open>b\<close>,
  \<open>a\<close> order numbers; on a ticker frame price and volume are \<open>c\<close> and \<open>v\<close>, and \<open>b\<close>, \<open>a\<close> quotes.
\<close>

definition binance_ts :: "pylib \<Rightarrow> feed_lib \<Rightarrow> pyval \<Rightarrow> datetime result" where
  "binance_ts lib fl v = bindR (to_float (fl_llm fl) v) (\<lambda>x. norm_datetime lib fl (PFloat (x / 1000)))"

definition normalize_binance ::
  "pylib \<Rightarrow> feed_lib \<Rightarrow> string \<Rightarrow> pydict \<Rightarrow> string option \<Rightarrow> market_event result" where
  "normalize_binance lib fl eid payload override =
     (let is_trade = (dget payload ''e'' = PStr ''trade'');
          event_ts_v = dget_or payload ''T'' (dget payload ''E'') in
      bindR (upper_field lib payload ''s'') (\<lambda>symbol.
      bindR (float_item fl payload (if is_trade then ''p'' else ''c'')) (\<lambda>price.
      bindR (optional_float fl (dget payload (if is_trade then ''q'' else ''v''))) (\<lambda>volume.
      bindR (if is_trade then Inr None else optional_float fl (dget payload ''b'')) (\<lambda>bid.
      bindR (if is_trade then Inr None else optional_float fl (dget payload ''a'')) (\<lambda>ask.
      bindR (binance_ts lib fl event_ts_v) (\<lambda>t.
        Inr (market_event_of eid t symbol (str_or override ''binance'')
               (if is_trade then ''trade'' else ''ticker'') price volume bid ask))))))))"

definition normalize_coinbase ::
  "pylib \<Rightarrow> feed_lib \<Rightarrow> string \<Rightarrow> pydict \<Rightarrow> string option \<Rightarrow> market_event result" where
  "normalize_coinbase lib fl eid payload override =
     bindR (upper_field lib payload ''product_id'') (\<lambda>product.
     bindR (float_item fl payload ''price'') (\<lambda>price.
     bindR (optional_float fl (py_or (dget payload ''last_size'') (dget payload ''volume_24h''))) (\<lambda>volume.
     bindR (optional_float fl (dget payload ''best_bid'')) (\<lambda>bid.
     bindR (optional_float fl (dget payload ''best_ask'')) (\<lambda>ask.
     bindR (bindR (getitem (PDict payload) ''time'') (norm_datetime lib fl)) (\<lambda>t.
       Inr (market_event_of eid t (replace_char (CHR ''-'') [] product) (str_or override ''coinbase'')
              ''ticker'' price volume bid ask)))))))"

text \<open>A list or an object as the value of \<open>e\<close> cannot be looked up in the set of event names.\<close>

definition normalize_market_payload ::
  "pylib \<Rightarrow> feed_lib \<Rightarrow> string \<Rightarrow> pydict \<Rightarrow> string option \<Rightarrow> market_event result" where
  "normalize_market_payload lib fl eid payload override =
     (if dget payload ''kind'' = PStr ''replay'' then normalize_replay lib fl eid payload override
      else if \<not> hashable (dget payload ''e'') then Inl (TypeError ''unhashable type'')
      else if dget payload ''e'' \<in> {PStr ''trade'', PStr ''24hrTicker''} then normalize_binance lib fl eid payload override
      else if dget payload ''type'' = PStr ''ticker'' then normalize_coinbase lib fl eid payload override
      else Inl (ValueError (''Unsupported market payload shape: '' @ repr_of lib (PDict payload))))"

section \<open>Replay feed\<close>

definition replay_payload :: "string \<Rightarrow> string \<Rightarrow> string \<Rightarrow> (string \<times> real) list \<Rightarrow> string \<Rightarrow> pydict" where
  "replay_payload source symbol kind numbers ts =
     [(''kind'', PStr ''replay''), (''source'', PStr source), (''symbol'', PStr symbol), (''event_type'', PStr kind)]
       @ map (\<lambda>(k, x). (k, PFloat x)) numbers @ [(''ts'', PStr ts)]"

definition default_replay_events :: "pydict list" where
  "default_replay_events =
     [replay_payload ''replay.binance'' ''BTCUSDT'' ''trade'' [(''price'', 4200025 / 100), (''volume'', 15 / 100)]
        ''2024-01-01T00:00:00+00:00'',
      replay_payload ''replay.coinbase'' ''ETHUSD'' ''ticker''
        [(''price'', 22505 / 10), (''bid'', 22501 / 10), (''ask'', 22509 / 10)] ''2024-01-01T00:00:01+00:00'',
      replay_payload ''replay.binance'' ''BTCUSDT'' ''trade'' [(''price'', 4200025 / 100), (''volume'', 15 / 100)]
        ''2024-01-01T00:00:00+00:00'']"

record replay_feed =
  rf_events :: "pydict list"
  rf_disconnect_at :: "int option"
  rf_disconnect_once :: bool
  rf_emitted :: bool

definition replay_feed_of :: "pydict list \<Rightarrow> int option \<Rightarrow> bool \<Rightarrow> replay_feed" where
  "replay_feed_of events disconnect_at once =
     \<lparr>rf_events = events, rf_disconnect_at = disconnect_at, rf_disconnect_once = once, rf_emitted = False\<rparr>"

text \<open>What an iteration yields from an index on, and whether it then raises the disconnect.\<close>

fun feed_from :: "replay_feed \<Rightarrow> int \<Rightarrow> pydict list \<Rightarrow> pydict list \<times> bool" where
  "feed_from f index [] = ([], False)"
| "feed_from f index (e # es) =
     (if rf_disconnect_at f = Some index \<and> (\<not> rf_disconnect_once f \<or> \<not> rf_emitted f) then ([], True)
      else case feed_from f (index + 1) es of (ys, d) \<Rightarrow> (e # ys, d))"

definition iterate_feed :: "replay_feed \<Rightarrow> (pydict list \<times> bool) \<times> replay_feed" where
  "iterate_feed f = (let r = feed_from f 0 (rf_events f) in (r, f\<lparr>rf_emitted := rf_emitted f \<or> snd r\<rparr>))"

record feed_factory =
  ff_events :: "pydict list"
  ff_disconnect_at :: "int option"
  ff_remaining :: "int option"

definition build_replay_feed_factory :: "pydict list option \<Rightarrow> int option \<Rightarrow> bool \<Rightarrow> feed_factory" where
  "build_replay_feed_factory events disconnect_at once =
     \<lparr>ff_events = (case events of None \<Rightarrow> default_replay_events | Some es \<Rightarrow> es), ff_disconnect_at = disconnect_at,
      ff_remaining = (if disconnect_at \<noteq> None \<and> once then Some 1 else None)\<rparr>"

definition factory_next :: "feed_factory \<Rightarrow> replay_feed \<times> feed_factory" where
  "factory_next ff =
     (case ff_remaining ff of
        None \<Rightarrow> (replay_feed_of (ff_events ff) (ff_disconnect_at ff) False, ff)
      | Some r \<Rightarrow>
          if r \<le> 0 then (replay_feed_of (ff_events ff) None False, ff)
          else (replay_feed_of (ff_events ff) (ff_disconnect_at ff) False, ff\<lparr>ff_remaining := Some (r - 1)\<rparr>))"

section \<open>IngestionService\<close>

record ingestion_metrics = worker_metrics +
  gm_events_seen :: int
  gm_events_normalized :: int
  gm_publish_attempts :: int
  gm_unique_publishes :: int
  gm_news_publishes :: int
  gm_duplicate_events :: int
  gm_reconnects :: int
  gm_disconnects :: int
  gm_published_ids :: "string set"

definition ingestion_metrics_init :: ingestion_metrics where
  "ingestion_metrics_init =
     \<lparr>http = http_metrics_init, last_error = None, gm_events_seen = 0, gm_events_normalized = 0,
      gm_publish_attempts = 0, gm_unique_publishes = 0, gm_news_publishes = 0, gm_duplicate_events = 0,
      gm_reconnects = 0, gm_disconnects = 0, gm_published_ids = {}\<rparr>"

definition ingestion_render :: "ingestion_metrics \<Rightarrow> string" where
  "ingestion_render m = str_join [CHR 0x0A]
     (render_counters ''ingestion''
        [(''events_seen'', int_str (gm_events_seen m)),
         (''events_normalized'', int_str (gm_events_normalized m)),
         (''publish_attempts'', int_str (gm_publish_attempts m)),
         (''unique_publishes'', int_str (gm_unique_publishes m)),
         (''news_publishes'', int_str (gm_news_publishes m)),
         (''duplicate_events'', int_str (gm_duplicate_events m)),
         (''reconnects'', int_str (gm_reconnects m)),
         (''disconnects'', int_str (gm_disconnects m))]
      @ render_http ''ingestion'' (http m)) @ [CHR 0x0A]"

record ('b, 'f) ingest_state =
  gi_bus :: 'b
  gi_factory :: 'f
  gi_metrics :: ingestion_metrics
  gi_uuids :: "nat \<Rightarrow> string"
  gi_next :: nat

record ('b, 'f) ingest_env =
  gn_bus :: "'b bus_ops"
  gn_factory :: "'f \<Rightarrow> replay_feed \<times> 'f"
  gn_lib :: pylib
  gn_feed :: feed_lib
  gn_topic :: string
  gn_news_topic :: string

definition gi_count :: "(ingestion_metrics \<Rightarrow> ingestion_metrics) \<Rightarrow> (('b, 'f) ingest_state, unit) pm" where
  "gi_count f = modifyM (\<lambda>s. s\<lparr>gi_metrics := f (gi_metrics s)\<rparr>)"

definition gi_on_bus :: "('b, 'x) pm \<Rightarrow> (('b, 'f) ingest_state, 'x) pm" where
  "gi_on_bus = zoomM gi_bus (\<lambda>b s. s\<lparr>gi_bus := b\<rparr>)"

definition gi_normalize ::
  "('b, 'f) ingest_env \<Rightarrow> pydict \<Rightarrow> (('b, 'f) ingest_state, market_event) pm" where
  "gi_normalize env payload = (\<lambda>s.
     case normalize_market_payload (gn_lib env) (gn_feed env) (gi_uuids s (gi_next s)) payload None of
       Inl e \<Rightarrow> (Inl e, s)
     | Inr ev \<Rightarrow> (Inr ev, s\<lparr>gi_next := Suc (gi_next s)\<rparr>))"

definition event_key :: "pylib \<Rightarrow> market_event \<Rightarrow> string" where
  "event_key lib ev = market_event_key lib (me_symbol ev) (event_ts ev) (me_source ev)"

definition count_publish :: "string \<Rightarrow> ingestion_metrics \<Rightarrow> ingestion_metrics" where
  "count_publish mid m =
     (let m' = m\<lparr>gm_publish_attempts := gm_publish_attempts m + 1\<rparr> in
      if mid \<in> gm_published_ids m then m'\<lparr>gm_duplicate_events := gm_duplicate_events m + 1\<rparr>
      else m'\<lparr>gm_published_ids := insert mid (gm_published_ids m),
              gm_unique_publishes := gm_unique_publishes m + 1\<rparr>)"

definition ingest_payload :: "('b, 'f) ingest_env \<Rightarrow> pydict \<Rightarrow> (('b, 'f) ingest_state, unit) pm" where
  "ingest_payload env payload =
     thenM (gi_count (\<lambda>m. m\<lparr>gm_events_seen := gm_events_seen m + 1\<rparr>))
     (bindM (gi_normalize env payload) (\<lambda>ev.
      thenM (gi_count (\<lambda>m. m\<lparr>gm_events_normalized := gm_events_normalized m + 1\<rparr>))
      (thenM (gi_count (count_publish (event_key (gn_lib env) ev)))
        (gi_on_bus (bus_publish (gn_bus env) (gn_topic env) (market_dump (gn_lib env) ev)
           (Some (event_key (gn_lib env) ev)) (correlation_id ev))))))"

text \<open>
  The payloads of one connection: the number processed so far, and whether the run is
  complete because \<open>max_events\<close> were.
\<close>

fun ingest_items ::
  "('b, 'f) ingest_env \<Rightarrow> int option \<Rightarrow> int \<Rightarrow> pydict list \<Rightarrow> (('b, 'f) ingest_state, int \<times> bool) pm" where
  "ingest_items env max_events processed [] = returnM (processed, False)"
| "ingest_items env max_events processed (p # ps) =
     thenM (ingest_payload env p)
       (if (case max_events of Some n \<Rightarrow> processed + 1 \<ge> n | None \<Rightarrow> False) then returnM (processed + 1, True)
        else ingest_items env max_events (processed + 1) ps)"

definition next_feed :: "('b, 'f) ingest_env \<Rightarrow> (('b, 'f) ingest_state, pydict list \<times> bool) pm" where
  "next_feed env = (\<lambda>s. case gn_factory env (gi_factory s) of
     (feed, f) \<Rightarrow> (Inr (fst (iterate_feed feed)), s\<lparr>gi_factory := f\<rparr>))"

definition disconnect_error :: exn where
  "disconnect_error = ReplayDisconnectError ''deterministic replay disconnect''"

definition count_disconnect :: "(('b, 'f) ingest_state, unit) pm" where
  "count_disconnect = gi_count (\<lambda>m. m\<lparr>gm_disconnects := gm_disconnects m + 1,
     last_error := Some (exn_str disconnect_error)\<rparr>)"

text \<open>
  The reconnect loop, by the reconnects left (\<open>max_reconnects - reconnects_used\<close>): it
  returns when a feed ends or enough events were processed, and raises the disconnect when
  no reconnect is left.
\<close>

fun ingest_run ::
  "('b, 'f) ingest_env \<Rightarrow> int option \<Rightarrow> int \<Rightarrow> nat \<Rightarrow> (('b, 'f) ingest_state, unit) pm" where
  "ingest_run env max_events processed left =
     (if (case max_events of Some n \<Rightarrow> processed \<ge> n | None \<Rightarrow> False) then returnM ()
      else bindM (next_feed env) (\<lambda>(items, disconnected).
           bindM (ingest_items env max_events processed items) (\<lambda>(processed', complete).
             if complete \<or> \<not> disconnected then returnM ()
             else thenM count_disconnect
               (case left of
                  0 \<Rightarrow> raiseM disconnect_error
                | Suc k \<Rightarrow> thenM (gi_count (\<lambda>m. m\<lparr>gm_reconnects := gm_reconnects m + 1\<rparr>))
                             (ingest_run env max_events processed' k)))))"

declare ingest_run.simps [simp del]

definition ingestion_run ::
  "('b, 'f) ingest_env \<Rightarrow> int option \<Rightarrow> int \<Rightarrow> (('b, 'f) ingest_state, unit) pm" where
  "ingestion_run env max_events max_reconnects = ingest_run env max_events 0 (nat max_reconnects)"

definition ingestion_health :: "('b, 'f) ingest_env \<Rightarrow> ('b, 'f) ingest_state \<Rightarrow> pydict" where
  "ingestion_health env s =
     [(''status'', PStr ''ok''), (''service'', PStr ''ingestion''), (''topic'', PStr (gn_topic env)),
      (''news_topic'', PStr (gn_news_topic env)), (''events_seen'', PInt (gm_events_seen (gi_metrics s))),
      (''reconnects'', PInt (gm_reconnects (gi_metrics s)))]"

text \<open>The bus is the only backend the service owns; it may have no \<open>close\<close>.\<close>

definition ingestion_close :: "('s, unit) pm option \<Rightarrow> ('s, unit) pm" where
  "ingestion_close bc = close_backends [bc]"

definition publish_news_event ::
  "('b, 'f) ingest_env \<Rightarrow> news_event \<Rightarrow> (('b, 'f) ingest_state, string) pm" where
  "publish_news_event env ev =
     thenM (gi_count (\<lambda>m. m\<lparr>gm_publish_attempts := gm_publish_attempts m + 1,
                             gm_news_publishes := gm_news_publishes m + 1\<rparr>))
     (thenM (gi_on_bus (bus_publish (gn_bus env) (gn_news_topic env) (news_dump (gn_lib env) ev)
               (Some (event_id ev)) (correlation_id ev)))
       (returnM (event_id ev)))"

section \<open>NewsPollingService\<close>

record news_metrics =
  nm_collectors_polled :: int
  nm_events_seen :: int
  nm_publish_attempts :: int
  nm_unique_publishes :: int
  nm_duplicate_events :: int
  nm_last_error :: "string option"
  nm_published_ids :: "string set"

definition news_metrics_init :: news_metrics where
  "news_metrics_init =
     \<lparr>nm_collectors_polled = 0, nm_events_seen = 0, nm_publish_attempts = 0, nm_unique_publishes = 0,
      nm_duplicate_events = 0, nm_last_error = None, nm_published_ids = {}\<rparr>"

definition news_render :: "news_metrics \<Rightarrow> string" where
  "news_render m = str_join [CHR 0x0A]
     (render_counters ''news_polling''
        [(''collectors_polled'', int_str (nm_collectors_polled m)),
         (''events_seen'', int_str (nm_events_seen m)),
         (''publish_attempts'', int_str (nm_publish_attempts m)),
         (''unique_publishes'', int_str (nm_unique_publishes m)),
         (''duplicate_events'', int_str (nm_duplicate_events m))]) @ [CHR 0x0A]"

text \<open>A collector is its \<open>poll_once\<close> on the external state it reads from.\<close>

record ('b, 'x) news_state =
  nw_bus :: 'b
  nw_ext :: 'x
  nw_metrics :: news_metrics

definition nw_count :: "(news_metrics \<Rightarrow> news_metrics) \<Rightarrow> (('b, 'x) news_state, unit) pm" where
  "nw_count f = modifyM (\<lambda>s. s\<lparr>nw_metrics := f (nw_metrics s)\<rparr>)"

definition count_news :: "string \<Rightarrow> news_metrics \<Rightarrow> news_metrics" where
  "count_news mid m =
     (let m' = m\<lparr>nm_events_seen := nm_events_seen m + 1, nm_publish_attempts := nm_publish_attempts m + 1\<rparr> in
      if mid \<in> nm_published_ids m then m'\<lparr>nm_duplicate_events := nm_duplicate_events m + 1\<rparr>
      else m'\<lparr>nm_published_ids := insert mid (nm_published_ids m),
              nm_unique_publishes := nm_unique_publishes m + 1\<rparr>)"

definition publish_news ::
  "'b bus_ops \<Rightarrow> pylib \<Rightarrow> string \<Rightarrow> news_event \<Rightarrow> (('b, 'x) news_state, unit) pm" where
  "publish_news bus lib topic ev =
     thenM (nw_count (count_news (hash_news_event lib ev)))
       (zoomM nw_bus (\<lambda>b s. s\<lparr>nw_bus := b\<rparr>)
          (bus_publish bus topic (news_dump lib ev) (Some (hash_news_event lib ev)) (correlation_id ev)))"

text \<open>A failing collector is recorded and skipped; a failing publish is not caught.\<close>

definition poll_collector ::
  "'b bus_ops \<Rightarrow> pylib \<Rightarrow> string \<Rightarrow> ('x, news_event list) pm \<Rightarrow> (('b, 'x) news_state, unit) pm" where
  "poll_collector bus lib topic collector =
     thenM (nw_count (\<lambda>m. m\<lparr>nm_collectors_polled := nm_collectors_polled m + 1\<rparr>))
       (\<lambda>s. case collector (nw_ext s) of
          (Inl e, x) \<Rightarrow> nw_count (\<lambda>m. m\<lparr>nm_last_error := Some (exn_str e)\<rparr>) (s\<lparr>nw_ext := x\<rparr>)
        | (Inr events, x) \<Rightarrow> for_each (publish_news bus lib topic) events (s\<lparr>nw_ext := x\<rparr>))"

definition news_run_once ::
  "'b bus_ops \<Rightarrow> pylib \<Rightarrow> string \<Rightarrow> ('x, news_event list) pm list \<Rightarrow> (('b, 'x) news_state, unit) pm" where
  "news_run_once bus lib topic collectors = for_each (poll_collector bus lib topic) collectors"

definition news_health :: "string \<Rightarrow> 'c list \<Rightarrow> ('b, 'x) news_state \<Rightarrow> pydict" where
  "news_health topic collectors s =
     [(''status'', PStr ''ok''), (''service'', PStr ''ingestion.news''), (''topic'', PStr topic),
      (''collectors'', PInt (int (length collectors))), (''events_seen'', PInt (nm_events_seen (nw_metrics s)))]"

section \<open>The local news endpoint\<close>

record mock_news_request =
  mn_symbols :: "string list"
  mn_source :: string
  mn_title :: "string option"
  mn_body :: "string option"
  mn_url :: "string option"
  mn_author :: "string option"
  mn_event_id :: "string option"
  mn_ts :: "datetime option"
  mn_correlation :: "string option"
  mn_trace :: "string option"

definition default_mock_news :: mock_news_request where
  "default_mock_news =
     \<lparr>mn_symbols = [''BTCUSDT''], mn_source = ''mock.local'', mn_title = None, mn_body = None,
      mn_url = Some ''https://example.test/local-market-news'', mn_author = Some ''local-mock'', mn_event_id = None,
      mn_ts = None, mn_correlation = None, mn_trace = None\<rparr>"

definition sorted_symbols :: "string list \<Rightarrow> string list" where
  "sorted_symbols symbols =
     sort (remdups (map (\<lambda>s. str_upper (str_strip s)) (filter (\<lambda>s. str_strip s \<noteq> []) symbols)))"

definition default_mock_body :: "string list \<Rightarrow> string" where
  "default_mock_body symbols = str_join '', '' symbols
     @ '' local test coverage points to constructive ETF flow, improving liquidity, and stronger risk appetite. ''
     @ ''This mock item exists only to exercise the RAG and insight pipeline.''"

text \<open>The stamp of the current time and the time itself, where the request gives none.\<close>

definition mock_news_event :: "string \<Rightarrow> datetime \<Rightarrow> mock_news_request \<Rightarrow> string list \<Rightarrow> news_event" where
  "mock_news_event stamp now r symbols =
     \<lparr>event_id = str_or (mn_event_id r) (''mock-news-'' @ stamp),
      event_ts = (case mn_ts r of Some t \<Rightarrow> t | None \<Rightarrow> now),
      correlation_id = mn_correlation r, trace_id = mn_trace r, ne_source = mn_source r,
      ne_title = str_or (mn_title r) (hd symbols @ '' mock market catalyst''),
      ne_body = str_or (mn_body r) (default_mock_body symbols), ne_url = mn_url r, ne_symbols = symbols,
      ne_author = mn_author r\<rparr>"

text \<open>The answer, or the status and detail of an HTTP error.\<close>

definition publish_mock_news ::
  "('b, 'f) ingest_env \<Rightarrow> string \<Rightarrow> datetime \<Rightarrow> mock_news_request option \<Rightarrow>
   (('b, 'f) ingest_state, int \<times> string + pydict) pm" where
  "publish_mock_news env stamp now request =
     (let r = (case request of Some r \<Rightarrow> r | None \<Rightarrow> default_mock_news);
          symbols = sorted_symbols (mn_symbols r) in
      if symbols = [] then returnM (Inl (400, ''At least one symbol is required''))
      else let ev = mock_news_event stamp now r symbols in
        bindM (publish_news_event env ev) (\<lambda>mid.
          returnM (Inr
            [(''topic'', PStr TOPIC_NEWS_RAW), (''message_id'', PStr mid), (''event'', news_dump (gn_lib env) ev),
             (''insight_urls'', PList (map (\<lambda>s. PStr (''/insights/'' @ s)) symbols))])))"

end
