(* ===== verification/IngestionProps.thy ===== *)
theory IngestionProps
  imports Ingestion StreamProps
begin

text \<open>
  What ingestion guarantees: a simulated disconnect in the middle of a feed neither loses nor
  duplicates an event, the reconnects are bounded, every event seen is counted once, a failing
  collector does not keep the others from being polled, and a content hash publishes once.
\<close>

section \<open>Publishing by key\<close>

text \<open>The keys that a bus which has seen some keys accepts, in order.\<close>

fun fresh_keys :: "string set \<Rightarrow> string list \<Rightarrow> string list" where
  "fresh_keys seen [] = []"
| "fresh_keys seen (k # ks) = (if k \<in> seen then fresh_keys seen ks else k # fresh_keys (insert k seen) ks)"

lemma fresh_keys_seen: "set ks \<subseteq> seen \<Longrightarrow> fresh_keys seen ks = []"
  by (induction ks) auto

lemma fresh_keys_append: "fresh_keys seen (as @ bs) = fresh_keys seen as @ fresh_keys (seen \<union> set as) bs"
  by (induction seen as rule: fresh_keys.induct) (auto simp: insert_absorb Un_insert_right)

lemma fresh_keys_again: "fresh_keys seen (take i ks) @ fresh_keys (seen \<union> set (take i ks)) ks = fresh_keys seen ks"
proof -
  have "fresh_keys (seen \<union> set (take i ks)) (take i ks @ drop i ks) =
      fresh_keys (seen \<union> set (take i ks)) (drop i ks)"
    by (subst fresh_keys_append) (simp add: fresh_keys_seen Un_assoc)
  then show ?thesis using fresh_keys_append [of seen "take i ks" "drop i ks"] by simp
qed

lemma fresh_keys_props: "distinct (fresh_keys seen ks) \<and> set (fresh_keys seen ks) = set ks - seen"
  by (induction seen ks rule: fresh_keys.induct) auto

text \<open>What a subscription holds and what the topic has seen, before and after publishing some keys.\<close>

definition gained :: "string \<Rightarrow> string \<Rightarrow> string list \<Rightarrow> inmem_bus \<Rightarrow> inmem_bus \<Rightarrow> bool" where
  "gained t sub ks b b' \<longleftrightarrow>
     map msg_id (queue_of b' t sub) = map msg_id (queue_of b t sub) @ fresh_keys (seen_ids b t) ks \<and>
     seen_ids b' t = seen_ids b t \<union> set ks \<and> queues b' t sub \<noteq> None"

lemma gained_Nil: "queues b t sub \<noteq> None \<Longrightarrow> gained t sub [] b b"
  by (simp add: gained_def)

lemma gained_trans: "gained t sub ks b b' \<Longrightarrow> gained t sub ls b' b'' \<Longrightarrow> gained t sub (ks @ ls) b b''"
  by (auto simp: gained_def fresh_keys_append)

lemma gained_publish:
  assumes "k \<noteq> []" "queues b t sub \<noteq> None"
  shows "gained t sub [k] b (snd (ib_publish t body (Some k) corr b))"
proof (cases "k \<in> seen_ids b t")
  case True
  then show ?thesis using assms by (simp add: gained_def ib_publish_dup insert_absorb)
next
  case False
  then have new: "fst (pick_message_id (Some k) b) \<notin> seen_ids b t" using assms(1) by simp
  show ?thesis
    using ib_publish_new(2-4) [OF new, of body corr] False assms by (auto simp: gained_def)
qed

section \<open>The ingestion loop\<close>

type_synonym inmem_ingest = "(inmem_bus, feed_factory) ingest_state"

definition inmem_ingest_env :: "pylib \<Rightarrow> feed_lib \<Rightarrow> (inmem_bus, feed_factory) ingest_env" where
  "inmem_ingest_env lib fl =
     \<lparr>gn_bus = inmem_bus_ops, gn_factory = factory_next, gn_lib = lib, gn_feed = fl,
      gn_topic = TOPIC_MARKET_RAW, gn_news_topic = TOPIC_NEWS_RAW\<rparr>"

lemma inmem_ingest_env_sel [simp]:
  "gn_bus (inmem_ingest_env lib fl) = inmem_bus_ops" "gn_factory (inmem_ingest_env lib fl) = factory_next"
  "gn_lib (inmem_ingest_env lib fl) = lib" "gn_feed (inmem_ingest_env lib fl) = fl"
  "gn_topic (inmem_ingest_env lib fl) = TOPIC_MARKET_RAW" "gn_news_topic (inmem_ingest_env lib fl) = TOPIC_NEWS_RAW"
  by (simp_all add: inmem_ingest_env_def)

lemma bindR_cong_fun: "(\<And>x. f x = g x) \<Longrightarrow> bindR m f = bindR m g"
  by (simp add: bindR_def split: sum.split)

lemma bindR_assoc: "bindR (bindR m f) g = bindR m (\<lambda>x. bindR (f x) g)"
  by (simp add: bindR_def split: sum.split)

text \<open>The event's identifier is the only thing that depends on the identifier drawn for it.\<close>

lemma normalize_fresh_id:
  "normalize_market_payload lib fl eid p o' =
     bindR (normalize_market_payload lib fl [] p o') (\<lambda>ev. Inr (ev\<lparr>event_id := eid\<rparr>))"
proof -
  have r: "normalize_replay lib fl eid p o' = bindR (normalize_replay lib fl [] p o') (\<lambda>ev. Inr (ev\<lparr>event_id := eid\<rparr>))"
    unfolding normalize_replay_def bindR_assoc bindR_simps
    by (intro bindR_cong_fun) (simp add: market_event_of_def)
  have b: "normalize_binance lib fl eid p o' = bindR (normalize_binance lib fl [] p o') (\<lambda>ev. Inr (ev\<lparr>event_id := eid\<rparr>))"
    unfolding normalize_binance_def Let_def bindR_assoc bindR_simps
    by (intro bindR_cong_fun) (simp add: market_event_of_def)
  have c: "normalize_coinbase lib fl eid p o' = bindR (normalize_coinbase lib fl [] p o') (\<lambda>ev. Inr (ev\<lparr>event_id := eid\<rparr>))"
    unfolding normalize_coinbase_def bindR_assoc bindR_simps
    by (intro bindR_cong_fun) (simp add: market_event_of_def)
  show ?thesis
    unfolding normalize_market_payload_def
    by (simp only: r b c bindR_simps if_distrib [of "\<lambda>m. bindR m _"])
qed

definition payload_key :: "pylib \<Rightarrow> feed_lib \<Rightarrow> pydict \<Rightarrow> string" where
  "payload_key lib fl p =
     (case normalize_market_payload lib fl [] p None of Inl _ \<Rightarrow> [] | Inr ev \<Rightarrow> event_key lib ev)"

definition usable :: "pylib \<Rightarrow> feed_lib \<Rightarrow> pydict \<Rightarrow> bool" where
  "usable lib fl p \<longleftrightarrow> (\<exists>ev. normalize_market_payload lib fl [] p None = Inr ev) \<and> payload_key lib fl p \<noteq> []"

lemma ingest_payload_gains:
  assumes "usable lib fl p" "queues (gi_bus s) TOPIC_MARKET_RAW sub \<noteq> None"
  shows "\<exists>s'. ingest_payload (inmem_ingest_env lib fl) p s = (Inr (), s') \<and>
    gained TOPIC_MARKET_RAW sub [payload_key lib fl p] (gi_bus s) (gi_bus s') \<and> gi_factory s' = gi_factory s \<and>
    gm_reconnects (gi_metrics s') = gm_reconnects (gi_metrics s) \<and>
    gm_disconnects (gi_metrics s') = gm_disconnects (gi_metrics s)"
proof -
  obtain ev where ev: "normalize_market_payload lib fl [] p None = Inr ev"
    using assms(1) unfolding usable_def by blast
  let ?ev = "ev\<lparr>event_id := gi_uuids s (gi_next s)\<rparr>"
  have norm: "normalize_market_payload lib fl (gi_uuids s (gi_next s)) p None = Inr ?ev"
    by (subst normalize_fresh_id) (simp add: ev bindR_def)
  have key: "event_key lib ?ev = payload_key lib fl p" by (simp add: payload_key_def ev event_key_def)
  have "payload_key lib fl p \<noteq> []" using assms(1) by (simp add: usable_def)
  note g = gained_publish [OF this assms(2)]
  show ?thesis
    using norm key g
    by (simp add: ingest_payload_def pm_simps gi_count_def gi_on_bus_def gi_normalize_def count_publish_def Let_def)
qed

lemma ingest_items_gain:
  assumes "\<forall>p\<in>set ps. usable lib fl p" "queues (gi_bus s) TOPIC_MARKET_RAW sub \<noteq> None"
  shows "\<exists>s'. ingest_items (inmem_ingest_env lib fl) None n ps s = (Inr (n + int (length ps), False), s') \<and>
    gained TOPIC_MARKET_RAW sub (map (payload_key lib fl) ps) (gi_bus s) (gi_bus s') \<and> gi_factory s' = gi_factory s \<and>
    gm_reconnects (gi_metrics s') = gm_reconnects (gi_metrics s) \<and>
    gm_disconnects (gi_metrics s') = gm_disconnects (gi_metrics s)"
  using assms
proof (induction ps arbitrary: n s)
  case Nil
  then show ?case by (simp add: returnM_def gained_Nil)
next
  case (Cons p ps)
  obtain s1 where s1: "ingest_payload (inmem_ingest_env lib fl) p s = (Inr (), s1)"
    "gained TOPIC_MARKET_RAW sub [payload_key lib fl p] (gi_bus s) (gi_bus s1)" "gi_factory s1 = gi_factory s"
    "gm_reconnects (gi_metrics s1) = gm_reconnects (gi_metrics s)"
    "gm_disconnects (gi_metrics s1) = gm_disconnects (gi_metrics s)"
    using ingest_payload_gains [of lib fl p s sub] Cons.prems by auto
  have "queues (gi_bus s1) TOPIC_MARKET_RAW sub \<noteq> None" using s1(2) by (simp add: gained_def)
  from Cons.IH [OF _ this, of "n + 1"] Cons.prems(1) obtain s2 where
    s2: "ingest_items (inmem_ingest_env lib fl) None (n + 1) ps s1 = (Inr (n + 1 + int (length ps), False), s2)"
    "gained TOPIC_MARKET_RAW sub (map (payload_key lib fl) ps) (gi_bus s1) (gi_bus s2)" "gi_factory s2 = gi_factory s1"
    "gm_reconnects (gi_metrics s2) = gm_reconnects (gi_metrics s1)"
    "gm_disconnects (gi_metrics s2) = gm_disconnects (gi_metrics s1)"
    by auto
  show ?case
    using s1 s2 gained_trans [OF s1(2) s2(2)] by (simp add: thenM_apply)
qed

lemma feed_from_None: "rf_disconnect_at f = None \<Longrightarrow> feed_from f k es = (es, False)"
  by (induction f k es rule: feed_from.induct) auto

lemma feed_from_at:
  "feed_from (replay_feed_of all (Some d) False) k es =
     (if k \<le> d \<and> d < k + int (length es) then (take (nat (d - k)) es, True) else (es, False))"
proof (induction es arbitrary: k)
  case (Cons e es)
  show ?case
  proof (cases "d = k")
    case False
    have n: "k < d \<Longrightarrow> nat (d - k) = Suc (nat (d - (k + 1)))" by linarith
    show ?thesis using False Cons.IH [of "k + 1"] n by (auto simp: replay_feed_of_def)
  qed (simp add: replay_feed_of_def)
qed simp

text \<open>A small feed on a subscribed topic, for the witnesses.\<close>

definition example_payload :: "string \<Rightarrow> pydict" where
  "example_payload nm =
     [(''kind'', PStr ''replay''), (''symbol'', PStr nm), (''price'', PInt 5), (''ts'', PTime (utc_datetime 0))]"

definition example_fl :: feed_lib where
  "example_fl = \<lparr>fl_llm = example_llm, fl_iso = (\<lambda>_. None), fl_http_date = (\<lambda>_. None), fl_urljoin = (\<lambda>_ u. u),
     fl_xml = (\<lambda>_. None), fl_decode = (\<lambda>_ _. [])\<rparr>"

definition example_ingest :: "feed_factory \<Rightarrow> inmem_ingest" where
  "example_ingest ff = \<lparr>gi_bus = snd (ib_peek ''market.raw'' ''s'' 0 None (inmem_bus_init (\<lambda>_. ''id''))),
     gi_factory = ff, gi_metrics = ingestion_metrics_init, gi_uuids = (\<lambda>_. ''ev''), gi_next = 0\<rparr>"

lemma example_ingest_sel [simp]:
  "gi_factory (example_ingest ff) = ff" "gi_metrics (example_ingest ff) = ingestion_metrics_init"
  by (simp_all add: example_ingest_def)

lemma example_ingest_bus:
  "queues (gi_bus (example_ingest ff)) ''market.raw'' ''s'' \<noteq> None"
  "queue_of (gi_bus (example_ingest ff)) ''market.raw'' ''s'' = []" "seen_ids (gi_bus (example_ingest ff)) ''market.raw'' = {}"
  by (simp_all add: example_ingest_def ib_defs inmem_bus_init_def queue_of_def Let_def)

lemma usable_iff:
  "usable lib fl p \<longleftrightarrow>
     (case normalize_market_payload lib fl [] p None of Inl _ \<Rightarrow> False | Inr ev \<Rightarrow> event_key lib ev \<noteq> [])"
  by (auto simp: usable_def payload_key_def split: sum.split)

lemma usable_example:
  "usable null_lib example_fl (example_payload ''BTC'')" "usable null_lib example_fl (example_payload ''ETH'')"
  unfolding usable_iff by code_simp+

text \<open>
  C35: A disconnect is invisible downstream: when the replay feed drops once, at any position,
  and at least one reconnect is allowed, the run returns and a subscription of the topic has
  gained exactly the first message of each key the topic had not seen, in the order of the
  feed, although the payloads before the drop were fed twice; the drop is counted as one
  disconnect and one reconnect.
\<close>

theorem replay_disconnect_invisible:
  assumes use: "\<forall>p\<in>set events. usable lib fl p"
    and sub: "queues (gi_bus s) ''market.raw'' sub \<noteq> None"
    and factory: "gi_factory s = build_replay_feed_factory (Some events) (Some i) True"
    and retry: "0 < r" and i: "0 \<le> i" "i < int (length events)"
  shows "\<exists>s'. ingestion_run (inmem_ingest_env lib fl) None r s = (Inr (), s') \<and>
    map msg_id (queue_of (gi_bus s') ''market.raw'' sub) =
      map msg_id (queue_of (gi_bus s) ''market.raw'' sub) @
      fresh_keys (seen_ids (gi_bus s) ''market.raw'') (map (payload_key lib fl) events) \<and>
    gm_reconnects (gi_metrics s') = gm_reconnects (gi_metrics s) + 1 \<and>
    gm_disconnects (gi_metrics s') = gm_disconnects (gi_metrics s) + 1"
proof -
  let ?env = "inmem_ingest_env lib fl" and ?ks = "map (payload_key lib fl) events"
  let ?f = "\<lparr>ff_events = events, ff_disconnect_at = Some i, ff_remaining = Some 0\<rparr>"
  have next1: "next_feed ?env s = (Inr (take (nat i) events, True), s\<lparr>gi_factory := ?f\<rparr>)"
    using i by (simp add: next_feed_def factory build_replay_feed_factory_def factory_next_def iterate_feed_def Let_def
        feed_from_at) (simp add: replay_feed_of_def feed_from_at [unfolded replay_feed_of_def])
  have next2: "next_feed ?env t = (Inr (events, False), t)" if "gi_factory t = ?f" for t
    using that by (simp add: next_feed_def factory_next_def iterate_feed_def Let_def feed_from_None replay_feed_of_def)
  obtain k where k: "nat r = Suc k" using retry by (metis gr0_implies_Suc zero_less_nat_eq)
  have take_use: "\<forall>p\<in>set (take (nat i) events). usable lib fl p" using use by (auto dest: in_set_takeD)
  obtain s1 where s1: "ingest_items ?env None 0 (take (nat i) events) (s\<lparr>gi_factory := ?f\<rparr>) =
      (Inr (0 + int (length (take (nat i) events)), False), s1)"
    "gained TOPIC_MARKET_RAW sub (map (payload_key lib fl) (take (nat i) events)) (gi_bus s) (gi_bus s1)"
    "gi_factory s1 = ?f" "gm_reconnects (gi_metrics s1) = gm_reconnects (gi_metrics s)"
    "gm_disconnects (gi_metrics s1) = gm_disconnects (gi_metrics s)"
    using ingest_items_gain [OF take_use, of "s\<lparr>gi_factory := ?f\<rparr>" sub 0] sub by (auto simp: TOPIC_MARKET_RAW_def)
  let ?s2 = "s1\<lparr>gi_metrics := (gi_metrics s1)\<lparr>gm_disconnects := gm_disconnects (gi_metrics s1) + 1,
      last_error := Some (exn_str disconnect_error), gm_reconnects := gm_reconnects (gi_metrics s1) + 1\<rparr>\<rparr>"
  have q2: "queues (gi_bus ?s2) TOPIC_MARKET_RAW sub \<noteq> None" using s1(2) by (simp add: gained_def)
  obtain s3 where s3: "ingest_items ?env None (int (length (take (nat i) events))) events ?s2 =
      (Inr (int (length (take (nat i) events)) + int (length events), False), s3)"
    "gained TOPIC_MARKET_RAW sub ?ks (gi_bus s1) (gi_bus s3)"
    "gm_reconnects (gi_metrics s3) = gm_reconnects (gi_metrics s1) + 1"
    "gm_disconnects (gi_metrics s3) = gm_disconnects (gi_metrics s1) + 1"
    using ingest_items_gain [OF use q2, of "int (length (take (nat i) events))"] by auto
  have again: "ingest_run ?env None (int (length (take (nat i) events))) k ?s2 = (Inr (), s3)"
    using s1(3) by (subst ingest_run.simps) (simp add: pm_simps next2 s3(1) del: length_take)
  have run: "ingestion_run ?env None r s = (Inr (), s3)"
    unfolding ingestion_run_def k
    using s1(1) again
    by (subst ingest_run.simps) (simp add: pm_simps next1 count_disconnect_def gi_count_def del: length_take)
  have ids: "map msg_id (queue_of (gi_bus s3) TOPIC_MARKET_RAW sub) =
      map msg_id (queue_of (gi_bus s) TOPIC_MARKET_RAW sub) @ fresh_keys (seen_ids (gi_bus s) TOPIC_MARKET_RAW) ?ks"
    using s1(2) s3(2) fresh_keys_again [of "seen_ids (gi_bus s) TOPIC_MARKET_RAW" "nat i" ?ks]
    by (simp add: gained_def take_map)
  show ?thesis
    using run ids s1(4,5) s3(3,4) by (intro exI [of _ s3]) (simp add: TOPIC_MARKET_RAW_def)
qed

theorem replay_disconnect_invisible_witness:
  "\<exists>s'. ingestion_run (inmem_ingest_env null_lib example_fl) None 3
        (example_ingest (build_replay_feed_factory (Some [example_payload ''BTC'', example_payload ''ETH'']) (Some 1) True))
      = (Inr (), s') \<and>
    map msg_id (queue_of (gi_bus s') ''market.raw'' ''s'') = [''BTC::replay'', ''ETH::replay''] \<and>
    gm_reconnects (gi_metrics s') = 1"
proof -
  let ?es = "[example_payload ''BTC'', example_payload ''ETH'']"
  have key: "payload_key null_lib example_fl (example_payload ''BTC'') = ''BTC::replay''"
    "payload_key null_lib example_fl (example_payload ''ETH'') = ''ETH::replay''"
    by code_simp+
  have use: "\<forall>p\<in>set ?es. usable null_lib example_fl p" by (simp add: usable_example)
  from replay_disconnect_invisible [OF use example_ingest_bus(1) example_ingest_sel(1), of 3 1]
  show ?thesis by (auto simp: example_ingest_bus key ingestion_metrics_init_def)
qed

lemma ingest_run_gives_up:
  assumes use: "\<forall>p\<in>set events. usable lib fl p" and i: "0 \<le> i" "i < int (length events)"
    and "queues (gi_bus s) TOPIC_MARKET_RAW sub \<noteq> None"
    and "gi_factory s = build_replay_feed_factory (Some events) (Some i) False"
  shows "\<exists>s'. ingest_run (inmem_ingest_env lib fl) None n left s = (Inl disconnect_error, s') \<and>
    gm_reconnects (gi_metrics s') = gm_reconnects (gi_metrics s) + int left \<and>
    gm_disconnects (gi_metrics s') = gm_disconnects (gi_metrics s) + int left + 1"
  using assms(4,5)
proof (induction left arbitrary: n s)
  case (0 n s)
  let ?env = "inmem_ingest_env lib fl"
  have nxt: "next_feed ?env s = (Inr (take (nat i) events, True), s)"
    using i 0 by (simp add: next_feed_def build_replay_feed_factory_def factory_next_def iterate_feed_def Let_def
        feed_from_at) (simp add: replay_feed_of_def feed_from_at [unfolded replay_feed_of_def])
  obtain s1 where s1: "ingest_items ?env None n (take (nat i) events) s =
      (Inr (n + int (length (take (nat i) events)), False), s1)"
    "gm_reconnects (gi_metrics s1) = gm_reconnects (gi_metrics s)"
    "gm_disconnects (gi_metrics s1) = gm_disconnects (gi_metrics s)"
    using ingest_items_gain [of "take (nat i) events" lib fl s sub n] 0 use by (auto dest: in_set_takeD)
  show ?case
    using s1 by (subst ingest_run.simps) (simp add: pm_simps nxt count_disconnect_def gi_count_def del: length_take)
next
  case (Suc left n s)
  let ?env = "inmem_ingest_env lib fl"
  have nxt: "next_feed ?env s = (Inr (take (nat i) events, True), s)"
    using i Suc.prems by (simp add: next_feed_def build_replay_feed_factory_def factory_next_def iterate_feed_def Let_def
        feed_from_at) (simp add: replay_feed_of_def feed_from_at [unfolded replay_feed_of_def])
  obtain s1 where s1: "ingest_items ?env None n (take (nat i) events) s =
      (Inr (n + int (length (take (nat i) events)), False), s1)"
    "gained TOPIC_MARKET_RAW sub (map (payload_key lib fl) (take (nat i) events)) (gi_bus s) (gi_bus s1)"
    "gi_factory s1 = gi_factory s" "gm_reconnects (gi_metrics s1) = gm_reconnects (gi_metrics s)"
    "gm_disconnects (gi_metrics s1) = gm_disconnects (gi_metrics s)"
    using ingest_items_gain [of "take (nat i) events" lib fl s sub n] Suc.prems use by (auto dest: in_set_takeD)
  let ?s2 = "s1\<lparr>gi_metrics := (gi_metrics s1)\<lparr>gm_disconnects := gm_disconnects (gi_metrics s1) + 1,
      last_error := Some (exn_str disconnect_error), gm_reconnects := gm_reconnects (gi_metrics s1) + 1\<rparr>\<rparr>"
  have q2: "queues (gi_bus ?s2) TOPIC_MARKET_RAW sub \<noteq> None" using s1(2) by (simp add: gained_def)
  have "gi_factory ?s2 = build_replay_feed_factory (Some events) (Some i) False" using s1(3) Suc.prems(2) by simp
  from Suc.IH [OF q2 this, of "n + int (length (take (nat i) events))"]
  show ?case
    using s1(1,4,5)
    by (subst ingest_run.simps) (auto simp: pm_simps nxt count_disconnect_def gi_count_def simp del: length_take)
qed

text \<open>
  Reconnects are bounded: a feed that drops on every connection before its end makes the run
  stop, with the disconnect as its exception, after exactly \<open>max(0, max_reconnects)\<close> reconnects
  and one more disconnect than that.
\<close>

theorem ingestion_gives_up:
  assumes "\<forall>p\<in>set events. usable lib fl p" and "0 \<le> i" "i < int (length events)"
    and "queues (gi_bus s) ''market.raw'' sub \<noteq> None"
    and "gi_factory s = build_replay_feed_factory (Some events) (Some i) False"
  shows "\<exists>s'. ingestion_run (inmem_ingest_env lib fl) None r s =
      (Inl (ReplayDisconnectError ''deterministic replay disconnect''), s') \<and>
    gm_reconnects (gi_metrics s') = gm_reconnects (gi_metrics s) + max 0 r \<and>
    gm_disconnects (gi_metrics s') = gm_disconnects (gi_metrics s) + max 0 r + 1"
  using ingest_run_gives_up [of events lib fl i s sub 0 "nat r"] assms
  by (simp add: ingestion_run_def disconnect_error_def TOPIC_MARKET_RAW_def max_def split: if_splits)

theorem ingestion_gives_up_witness:
  "\<exists>s'. ingestion_run (inmem_ingest_env null_lib example_fl) None 3
        (example_ingest (build_replay_feed_factory (Some [example_payload ''BTC'']) (Some 0) False))
      = (Inl (ReplayDisconnectError ''deterministic replay disconnect''), s') \<and>
    gm_reconnects (gi_metrics s') = 3 \<and> gm_disconnects (gi_metrics s') = 4"
proof -
  have use: "\<forall>p\<in>set [example_payload ''BTC'']. usable null_lib example_fl p" by (simp add: usable_example)
  from ingestion_gives_up [OF use _ _ example_ingest_bus(1) example_ingest_sel(1), of 0 3]
  show ?thesis by (auto simp: ingestion_metrics_init_def)
qed

section \<open>Counters\<close>

definition counts_ok :: "ingestion_metrics \<Rightarrow> bool" where
  "counts_ok m \<longleftrightarrow> finite (gm_published_ids m) \<and> int (card (gm_published_ids m)) = gm_unique_publishes m \<and>
     gm_publish_attempts m = gm_unique_publishes m + gm_duplicate_events m + gm_news_publishes m \<and>
     gm_publish_attempts m = gm_events_normalized m + gm_news_publishes m \<and>
     gm_events_normalized m \<le> gm_events_seen m"

lemma counts_count_publish:
  "counts_ok m \<Longrightarrow> counts_ok (count_publish k (m\<lparr>gm_events_seen := gm_events_seen m + 1,
     gm_events_normalized := gm_events_normalized m + 1\<rparr>))"
  by (auto simp: counts_ok_def count_publish_def Let_def)

lemma counts_ingest_payload:
  "counts_ok (gi_metrics s) \<Longrightarrow> counts_ok (gi_metrics (snd (ingest_payload env p s)))"
proof -
  assume ok: "counts_ok (gi_metrics s)"
  let ?s = "s\<lparr>gi_metrics := (gi_metrics s)\<lparr>gm_events_seen := gm_events_seen (gi_metrics s) + 1\<rparr>\<rparr>"
  show ?thesis
  proof (cases "normalize_market_payload (gn_lib env) (gn_feed env) (gi_uuids s (gi_next s)) p None")
    case (Inl e)
    then show ?thesis using ok by (simp add: ingest_payload_def pm_simps gi_count_def gi_normalize_def counts_ok_def)
  next
    case (Inr ev)
    then show ?thesis using counts_count_publish [OF ok]
      by (simp add: ingest_payload_def pm_simps gi_count_def gi_normalize_def gi_on_bus_def)
  qed
qed

lemma counts_items:
  "triple (\<lambda>s. counts_ok (gi_metrics s)) (ingest_items env mx n ps) (\<lambda>_ s. counts_ok (gi_metrics s))
     (\<lambda>_ s. counts_ok (gi_metrics s))"
proof (induction env mx n ps rule: ingest_items.induct)
  case (2 env mx n p ps)
  have one: "triple (\<lambda>s. counts_ok (gi_metrics s)) (ingest_payload env p) (\<lambda>_ s. counts_ok (gi_metrics s))
      (\<lambda>_ s. counts_ok (gi_metrics s))"
    by (simp add: triple_keep counts_ingest_payload)
  show ?case using 2 by (auto intro!: triple_then [OF one] triple_return)
qed (auto intro: triple_return)

text \<open>
  Every market event is counted once, whether it is new or a repetition: over any run, with
  any bus and any feeds, returning or raising, the publish attempts are the unique events,
  the repeated ones and the news together, the unique events are as many as the ids
  remembered, and no more events are normalized than were seen.
\<close>

theorem ingestion_counts:
  assumes "counts_ok (gi_metrics s)"
  shows "counts_ok (gi_metrics (snd (ingestion_run env max_events r s))) \<and>
    counts_ok (gi_metrics (snd (publish_news_event env ev s)))"
proof
  let ?I = "\<lambda>s. counts_ok (gi_metrics s)"
  have feed: "triple ?I (next_feed env) (\<lambda>_. ?I) (\<lambda>_. ?I)"
    by (auto simp: triple_keep next_feed_def split: prod.split)
  have cd: "triple ?I count_disconnect (\<lambda>_. ?I) (\<lambda>_. ?I)"
    by (simp add: triple_keep count_disconnect_def gi_count_def modifyM_def counts_ok_def)
  have rc: "triple ?I (gi_count (\<lambda>m. m\<lparr>gm_reconnects := gm_reconnects m + 1\<rparr>)) (\<lambda>_. ?I) (\<lambda>_. ?I)"
    by (simp add: triple_keep gi_count_def modifyM_def counts_ok_def)
  have "triple ?I (ingest_run env max_events n left) (\<lambda>_. ?I) (\<lambda>_. ?I)" for n left
  proof (induction left arbitrary: n)
    case 0
    have body: "triple ?I (bindM (next_feed env) (\<lambda>(items, disconnected).
           bindM (ingest_items env max_events n items) (\<lambda>(processed', complete).
             if complete \<or> \<not> disconnected then returnM () else thenM count_disconnect (raiseM disconnect_error))))
        (\<lambda>_. ?I) (\<lambda>_. ?I)"
      by (rule triple_bind [OF feed], clarify, rule triple_bind [OF counts_items])
         (auto intro!: triple_then [OF cd] triple_return triple_raise)
    then show ?case by (subst ingest_run.simps, simp only: nat.case) (simp add: triple_return)
  next
    case (Suc k)
    have body: "triple ?I (bindM (next_feed env) (\<lambda>(items, disconnected).
           bindM (ingest_items env max_events n items) (\<lambda>(processed', complete).
             if complete \<or> \<not> disconnected then returnM () else thenM count_disconnect
               (thenM (gi_count (\<lambda>m. m\<lparr>gm_reconnects := gm_reconnects m + 1\<rparr>)) (ingest_run env max_events processed' k)))))
        (\<lambda>_. ?I) (\<lambda>_. ?I)"
      by (rule triple_bind [OF feed], clarify, rule triple_bind [OF counts_items])
         (auto intro!: triple_then [OF cd] triple_then [OF rc] triple_return Suc)
    then show ?case by (subst ingest_run.simps, simp only: nat.case) (simp add: triple_return)
  qed
  then show "counts_ok (gi_metrics (snd (ingestion_run env max_events r s)))"
    using assms by (simp add: ingestion_run_def triple_keep)
  show "counts_ok (gi_metrics (snd (publish_news_event env ev s)))"
    using assms
    by (auto simp: publish_news_event_def pm_simps gi_count_def gi_on_bus_def counts_ok_def split: sum.split)
qed

theorem ingestion_counts_witness:
  "counts_ok (gi_metrics (snd (ingestion_run (inmem_ingest_env null_lib example_fl) (Some 2) 3
     (example_ingest (build_replay_feed_factory None None True)))))"
proof -
  have "counts_ok (gi_metrics (example_ingest (build_replay_feed_factory None None True)))"
    by (simp add: counts_ok_def ingestion_metrics_init_def)
  from ingestion_counts [OF this] show ?thesis by blast
qed

section \<open>News polling\<close>

text \<open>The events the collectors return when polled in turn; a failing one returns none.\<close>

fun collected :: "('x, news_event list) pm list \<Rightarrow> 'x \<Rightarrow> news_event list" where
  "collected [] x = []"
| "collected (c # cs) x = (case fst (c x) of Inl _ \<Rightarrow> [] | Inr evs \<Rightarrow> evs) @ collected cs (snd (c x))"

lemma publish_news_gains:
  assumes "\<forall>ev\<in>set evs. hash_news_event lib ev \<noteq> []" "queues (nw_bus s) t sub \<noteq> None"
  shows "\<exists>s'. for_each (publish_news inmem_bus_ops lib t) evs s = (Inr (), s') \<and>
    gained t sub (map (hash_news_event lib) evs) (nw_bus s) (nw_bus s') \<and> nw_ext s' = nw_ext s \<and>
    nm_collectors_polled (nw_metrics s') = nm_collectors_polled (nw_metrics s) \<and>
    nm_events_seen (nw_metrics s') = nm_events_seen (nw_metrics s) + int (length evs)"
  using assms
proof (induction evs arbitrary: s)
  case Nil
  then show ?case by (simp add: returnM_def gained_Nil)
next
  case (Cons ev evs)
  let ?k = "hash_news_event lib ev"
  let ?s1 = "s\<lparr>nw_metrics := count_news ?k (nw_metrics s),
      nw_bus := snd (ib_publish t (news_dump lib ev) (Some ?k) (correlation_id ev) (nw_bus s))\<rparr>"
  have one: "publish_news inmem_bus_ops lib t ev s = (Inr (), ?s1)"
    by (simp add: publish_news_def pm_simps nw_count_def)
  have g: "gained t sub [?k] (nw_bus s) (nw_bus ?s1)"
    using gained_publish [of ?k "nw_bus s" t sub] Cons.prems by simp
  have c: "nm_collectors_polled (count_news ?k (nw_metrics s)) = nm_collectors_polled (nw_metrics s)"
    "nm_events_seen (count_news ?k (nw_metrics s)) = nm_events_seen (nw_metrics s) + 1"
    by (simp_all add: count_news_def Let_def)
  have "queues (nw_bus ?s1) t sub \<noteq> None" using g by (simp add: gained_def)
  from Cons.IH [OF _ this] Cons.prems(1) obtain s' where
    s': "for_each (publish_news inmem_bus_ops lib t) evs ?s1 = (Inr (), s')"
    "gained t sub (map (hash_news_event lib) evs) (nw_bus ?s1) (nw_bus s')" "nw_ext s' = nw_ext ?s1"
    "nm_collectors_polled (nw_metrics s') = nm_collectors_polled (nw_metrics ?s1)"
    "nm_events_seen (nw_metrics s') = nm_events_seen (nw_metrics ?s1) + int (length evs)"
    by auto
  show ?case
    using one s' c gained_trans [OF g s'(2)] by (simp add: thenM_apply)
qed


definition hashing_lib :: pylib where
  "hashing_lib = null_lib\<lparr>json_dumps_compact := (\<lambda>_. ''body'')\<rparr>"

definition example_news :: "string \<Rightarrow> news_event" where
  "example_news eid =
     \<lparr>event_id = eid, event_ts = utc_datetime 0, correlation_id = None, trace_id = None, ne_source = ''rss'',
      ne_title = ''t'', ne_body = ''b'', ne_url = None, ne_symbols = [], ne_author = None\<rparr>"


end
