(* ===== verification/Exchanges.thy ===== *)
theory Exchanges
  imports Ingestion
begin

text \<open>
  The exchange clients of \<open>services/ingestion/exchanges\<close>: the stream state and its staleness,
  the opening of a connection, the frame loop of one connection, the reconnect loop under the
  circuit breaker (\<open>base.py\<close>), and what the Binance and Coinbase clients plug into it.  The
  socket, the clock and the sleep are operations on an external state.  A socket may deliver
  frames for ever and a silent one may hang, so the frame loop and the reconnect loop are
  partial functions: \<open>None\<close> is the run that does not return.
\<close>

section \<open>ExchangeStreamState\<close>

record xstream_state =
  st_last_message :: "datetime option"
  st_last_heartbeat :: "datetime option"
  st_reconnects :: int
  st_messages_seen :: int
  st_events_published :: int
  st_connect_failures :: int
  st_malformed :: int
  st_last_error :: "string option"

definition xstream_state_init :: xstream_state where
  "xstream_state_init =
     \<lparr>st_last_message = None, st_last_heartbeat = None, st_reconnects = 0, st_messages_seen = 0,
      st_events_published = 0, st_connect_failures = 0, st_malformed = 0, st_last_error = None\<rparr>"

definition mark_message :: "datetime \<Rightarrow> xstream_state \<Rightarrow> xstream_state" where
  "mark_message now st = st\<lparr>st_last_message := Some now, st_messages_seen := st_messages_seen st + 1\<rparr>"

definition mark_heartbeat :: "datetime \<Rightarrow> xstream_state \<Rightarrow> xstream_state" where
  "mark_heartbeat now st = st\<lparr>st_last_heartbeat := Some now\<rparr>"

text \<open>The latest sign of life, as an instant in microseconds.\<close>

definition last_sign :: "xstream_state \<Rightarrow> int option" where
  "last_sign st =
     (case (st_last_heartbeat st, st_last_message st) of
        (None, None) \<Rightarrow> None
      | (Some h, None) \<Rightarrow> Some (instant h)
      | (None, Some m) \<Rightarrow> Some (instant m)
      | (Some h, Some m) \<Rightarrow> Some (max (instant h) (instant m)))"

definition is_stale :: "real \<Rightarrow> datetime \<Rightarrow> xstream_state \<Rightarrow> bool" where
  "is_stale stale_after now st =
     (case last_sign st of
        None \<Rightarrow> True
      | Some t \<Rightarrow> real_of_int (instant now - t) / 1000000 > stale_after)"

section \<open>The socket\<close>

text \<open>
  What a connect factory hands back: whether it is an async context manager, whether it can be
  awaited, and whether it has a \<open>close\<close>.
\<close>

record candidate =
  cd_handle :: nat
  cd_context :: bool
  cd_awaitable :: bool
  cd_closer :: bool

datatype received = Frame feed_payload | Ended | Silent

record 'x exchange_ops =
  xo_connect :: "string \<Rightarrow> ('x, candidate) pm"
  xo_await :: "candidate \<Rightarrow> ('x, candidate) pm"
  xo_enter :: "candidate \<Rightarrow> ('x, unit) pm"
  xo_exit :: "candidate \<Rightarrow> ('x, unit) pm"
  xo_close :: "candidate \<Rightarrow> ('x, unit) pm"
  xo_send :: "string \<Rightarrow> ('x, unit) pm"
  xo_next :: "('x, received) pm"
  xo_now :: "('x, datetime) pm"
  xo_sleep :: "real \<Rightarrow> 'x \<Rightarrow> 'x"

record ('b, 'x) exchange_env =
  xe_bus :: "'b bus_ops"
  xe_ops :: "'x exchange_ops"
  xe_lib :: pylib
  xe_feed :: feed_lib
  xe_utf8 :: "nat list \<Rightarrow> string option"
  xe_source :: string
  xe_url :: string
  xe_topic :: string
  xe_backoff :: real
  xe_max_reconnects :: int
  xe_timeout :: "real option"
  xe_on_connected :: "('x, unit) pm"
  xe_extract :: "pydict \<Rightarrow> pydict option result"
  xe_is_heartbeat :: "pydict \<Rightarrow> bool"

record ('b, 'x) exchange_state =
  xs_bus :: 'b
  xs_ext :: 'x
  xs_stream :: xstream_state
  xs_breaker :: breaker
  xs_uuids :: "nat \<Rightarrow> string"
  xs_next :: nat

definition xs_on_ext :: "('x, 'y) pm \<Rightarrow> (('b, 'x) exchange_state, 'y) pm" where
  "xs_on_ext = zoomM xs_ext (\<lambda>x s. s\<lparr>xs_ext := x\<rparr>)"

definition xs_on_bus :: "('b, 'y) pm \<Rightarrow> (('b, 'x) exchange_state, 'y) pm" where
  "xs_on_bus = zoomM xs_bus (\<lambda>b s. s\<lparr>xs_bus := b\<rparr>)"

definition xs_mark :: "(xstream_state \<Rightarrow> xstream_state) \<Rightarrow> (('b, 'x) exchange_state, unit) pm" where
  "xs_mark f = modifyM (\<lambda>s. s\<lparr>xs_stream := f (xs_stream s)\<rparr>)"

section \<open>Opening a connection\<close>

text \<open>The candidate that is used: an object that is both awaitable and a context is not awaited.\<close>

definition resolve_candidate :: "'x exchange_ops \<Rightarrow> string \<Rightarrow> ('x, candidate) pm" where
  "resolve_candidate ops url =
     bindM (xo_connect ops url) (\<lambda>c. if \<not> cd_context c \<and> cd_awaitable c then xo_await ops c else returnM c)"

definition enter_candidate :: "'x exchange_ops \<Rightarrow> candidate \<Rightarrow> ('x, unit) pm" where
  "enter_candidate ops c = (if cd_context c then xo_enter ops c else returnM ())"

definition leave_candidate :: "'x exchange_ops \<Rightarrow> candidate \<Rightarrow> ('x, unit) pm" where
  "leave_candidate ops c =
     (if cd_context c then xo_exit ops c else if cd_closer c then xo_close ops c else returnM ())"

text \<open>
  \<open>async with self._open_connection()\<close>: the body runs on the opened socket, which is left
  whether the body returns or raises; an exception of leaving replaces the body's.
\<close>

definition with_connection ::
  "('b, 'x) exchange_env \<Rightarrow>
   (('b, 'x) exchange_state \<Rightarrow> ('a result \<times> ('b, 'x) exchange_state) option) \<Rightarrow>
   ('b, 'x) exchange_state \<Rightarrow> ('a result \<times> ('b, 'x) exchange_state) option" where
  "with_connection env body s =
     (case xs_on_ext (resolve_candidate (xe_ops env) (xe_url env)) s of
        (Inl e, s1) \<Rightarrow> Some (Inl e, s1)
      | (Inr c, s1) \<Rightarrow>
          (case xs_on_ext (enter_candidate (xe_ops env) c) s1 of
             (Inl e, s2) \<Rightarrow> Some (Inl e, s2)
           | (Inr _, s2) \<Rightarrow>
               (case body s2 of
                  None \<Rightarrow> None
                | Some (r, s3) \<Rightarrow>
                    (case xs_on_ext (leave_candidate (xe_ops env) c) s3 of
                       (Inl e, s4) \<Rightarrow> Some (Inl e, s4)
                     | (Inr _, s4) \<Rightarrow> Some (r, s4)))))"

section \<open>One frame\<close>

definition decode_message :: "('b, 'x) exchange_env \<Rightarrow> feed_payload \<Rightarrow> pydict result" where
  "decode_message env raw =
     bindR (case raw of Text t \<Rightarrow> Inr t
            | Bytes b \<Rightarrow> (case xe_utf8 env b of None \<Rightarrow> Inl (ValueError ''invalid utf-8'') | Some t \<Rightarrow> Inr t))
       (\<lambda>t. case llm_lib.json_loads (fl_llm (xe_feed env)) t of
              Inl e \<Rightarrow> Inl e
            | Inr (PDict d) \<Rightarrow> Inr d
            | Inr v \<Rightarrow> Inl (ValueError (''Expected JSON object message, got '' @ repr_of (xe_lib env) v)))"

datatype frame_kind = Heartbeat | Ignored | Market market_event

text \<open>The body of the inner \<open>try\<close>: what a frame is, with the identifier its event would get.\<close>

definition read_frame :: "('b, 'x) exchange_env \<Rightarrow> string \<Rightarrow> feed_payload \<Rightarrow> frame_kind result" where
  "read_frame env eid raw =
     bindR (decode_message env raw) (\<lambda>payload.
       if xe_is_heartbeat env payload then Inr Heartbeat
       else bindR (xe_extract env payload) (\<lambda>q. case q of
              None \<Rightarrow> Inr Ignored
            | Some p \<Rightarrow> bindR (normalize_market_payload (xe_lib env) (xe_feed env) eid p (Some (xe_source env)))
                          (\<lambda>ev. Inr (Market ev))))"

text \<open>\<open>except (ValueError, KeyError, TypeError)\<close>; pydantic's error is a \<open>ValueError\<close>.\<close>

definition malformed :: "exn \<Rightarrow> bool" where
  "malformed e = (case e of ValueError _ \<Rightarrow> True | KeyError _ \<Rightarrow> True | TypeError _ \<Rightarrow> True
     | ValidationError _ \<Rightarrow> True | _ \<Rightarrow> False)"

definition count_malformed :: "exn \<Rightarrow> xstream_state \<Rightarrow> xstream_state" where
  "count_malformed e st = st\<lparr>st_malformed := st_malformed st + 1,
     st_last_error := Some (exn_name e @ '': '' @ exn_str e)\<rparr>"

definition publish_market :: "('b, 'x) exchange_env \<Rightarrow> market_event \<Rightarrow> (('b, 'x) exchange_state, bool) pm" where
  "publish_market env ev =
     thenM (xs_on_bus (bus_publish (xe_bus env) (xe_topic env) (market_dump (xe_lib env) ev)
              (Some (event_key (xe_lib env) ev)) (correlation_id ev)))
     (thenM (xs_mark (\<lambda>st. st\<lparr>st_events_published := st_events_published st + 1\<rparr>))
       (returnM True))"

text \<open>A received frame: whether it was published.\<close>

definition handle_frame :: "('b, 'x) exchange_env \<Rightarrow> feed_payload \<Rightarrow> (('b, 'x) exchange_state, bool) pm" where
  "handle_frame env raw =
     bindM (xs_on_ext (xo_now (xe_ops env))) (\<lambda>now.
     thenM (xs_mark (mark_message now)) (\<lambda>s.
       case read_frame env (xs_uuids s (xs_next s)) raw of
         Inl e \<Rightarrow> (if malformed e then thenM (xs_mark (count_malformed e)) (returnM False) s else (Inl e, s))
       | Inr Heartbeat \<Rightarrow> thenM (xs_mark (mark_heartbeat now)) (returnM False) s
       | Inr Ignored \<Rightarrow> (Inr False, s)
       | Inr (Market ev) \<Rightarrow> publish_market env ev (s\<lparr>xs_next := Suc (xs_next s)\<rparr>)))"

section \<open>One connection\<close>

text \<open>\<open>max_messages is not None and published >= max_messages\<close>.\<close>

definition enough :: "int option \<Rightarrow> nat \<Rightarrow> bool" where
  "enough mx published = (case mx of Some n \<Rightarrow> int published \<ge> n | None \<Rightarrow> False)"

definition stale_error :: "('b, 'x) exchange_env \<Rightarrow> real \<Rightarrow> exn" where
  "stale_error env t = StreamStale (xe_source env @ '' websocket stale for '' @ fmt_fixed 3 t @ ''s'')"

text \<open>
  The frame loop, by the events published so far.  A silent socket ends it only under a
  heartbeat timeout.
\<close>

partial_function (option) frame_loop ::
  "('b, 'x) exchange_env \<Rightarrow> int option \<Rightarrow> nat \<Rightarrow> ('b, 'x) exchange_state \<Rightarrow>
   (nat result \<times> ('b, 'x) exchange_state) option" where
  "frame_loop env mx published s =
     (case xs_on_ext (xo_next (xe_ops env)) s of
        (Inl e, s1) \<Rightarrow> Some (Inl e, s1)
      | (Inr Ended, s1) \<Rightarrow> Some (Inl (StreamClosed (xe_source env) published), s1)
      | (Inr Silent, s1) \<Rightarrow>
          (case xe_timeout env of None \<Rightarrow> None | Some t \<Rightarrow> Some (Inl (stale_error env t), s1))
      | (Inr (Frame raw), s1) \<Rightarrow>
          (case handle_frame env raw s1 of
             (Inl e, s2) \<Rightarrow> Some (Inl e, s2)
           | (Inr wrote, s2) \<Rightarrow>
               (if \<not> wrote then frame_loop env mx published s2
                else if enough mx (published + 1) then Some (Inr (published + 1), s2)
                else frame_loop env mx (published + 1) s2)))"

definition run_connection ::
  "('b, 'x) exchange_env \<Rightarrow> int option \<Rightarrow> ('b, 'x) exchange_state \<Rightarrow>
   (nat result \<times> ('b, 'x) exchange_state) option" where
  "run_connection env mx =
     with_connection env (\<lambda>s.
       case xs_on_ext (xe_on_connected env) s of
         (Inl e, s1) \<Rightarrow> Some (Inl e, s1)
       | (Inr _, s1) \<Rightarrow> frame_loop env mx 0 s1)"

text \<open>The outcome: the events published, and whether the socket closed after some were.\<close>

definition connection_outcome :: "nat result \<Rightarrow> (nat \<times> bool) result" where
  "connection_outcome r =
     (case r of
        Inr n \<Rightarrow> Inr (n, False)
      | Inl (StreamClosed src n) \<Rightarrow> if n = 0 then Inl (StreamClosed src n) else Inr (n, True)
      | Inl e \<Rightarrow> Inl e)"

definition attempt_connection ::
  "('b, 'x) exchange_env \<Rightarrow> int option \<Rightarrow> ('b, 'x) exchange_state \<Rightarrow>
   ((nat \<times> bool) result \<times> ('b, 'x) exchange_state) option" where
  "attempt_connection env mx s = map_option (map_prod connection_outcome id) (run_connection env mx s)"

section \<open>The reconnect loop\<close>

text \<open>\<open>CircuitBreaker.call\<close> in two halves, around an operation that may not return.\<close>

definition cb_enter :: "pylib \<Rightarrow> breaker \<Rightarrow> (exn \<times> breaker) + (bool \<times> breaker)" where
  "cb_enter lib b0 =
     (let b = maybe_transition_half_open b0 in
      case cb_state b of
        OPEN \<Rightarrow> Inl (CircuitOpenError (open_message lib b), b)
      | HALF_OPEN \<Rightarrow> (if half_open_locked b then Inl (CircuitOpenError probe_message, b)
                     else Inr (True, b\<lparr>half_open_locked := True\<rparr>))
      | CLOSED \<Rightarrow> Inr (False, b))"

definition cb_leave :: "bool \<Rightarrow> bool \<Rightarrow> breaker \<Rightarrow> breaker" where
  "cb_leave probe ok b =
     (let b' = (if ok then record_success b else record_failure b) in
      if probe then b'\<lparr>half_open_locked := False\<rparr> else b')"

lemma cb_call_halves:
  "cb_call lib op (b, s) =
     (case cb_enter lib b of
        Inl (e, b') \<Rightarrow> (Inl e, (b', s))
      | Inr (probe, b') \<Rightarrow> (case op s of (r, s') \<Rightarrow> (r, (cb_leave probe (\<not> isl r) b', s'))))"
  by (auto simp: cb_call_def cb_enter_def cb_leave_def do_call_def set_lock_def Let_def
      split: circuit_state.split prod.split sum.split)

definition backoff_delay :: "('b, 'x) exchange_env \<Rightarrow> int \<Rightarrow> real" where
  "backoff_delay env attempt = xe_backoff env * 2 ^ nat (max (attempt - 1) 0)"

definition xs_sleep :: "('b, 'x) exchange_env \<Rightarrow> real \<Rightarrow> ('b, 'x) exchange_state \<Rightarrow> ('b, 'x) exchange_state" where
  "xs_sleep env t s = s\<lparr>xs_ext := xo_sleep (xe_ops env) t (xs_ext s)\<rparr>"

definition record_reconnect :: "exn \<Rightarrow> xstream_state \<Rightarrow> xstream_state" where
  "record_reconnect e st = st\<lparr>st_connect_failures := st_connect_failures st + 1, st_last_error := Some (exn_str e)\<rparr>"

definition count_reconnect :: "('b, 'x) exchange_state \<Rightarrow> ('b, 'x) exchange_state" where
  "count_reconnect s = s\<lparr>xs_stream := (xs_stream s)\<lparr>st_reconnects := st_reconnects (xs_stream s) + 1\<rparr>\<rparr>"

definition note_circuit_open :: "('b, 'x) exchange_state \<Rightarrow> ('b, 'x) exchange_state" where
  "note_circuit_open s = s\<lparr>xs_stream := (xs_stream s)\<lparr>st_last_error := Some ''circuit open''\<rparr>\<rparr>"

definition is_circuit_open :: "exn \<Rightarrow> bool" where
  "is_circuit_open e = (case e of CircuitOpenError _ \<Rightarrow> True | _ \<Rightarrow> False)"

definition closed_after :: "exn \<Rightarrow> nat" where
  "closed_after e = (case e of StreamClosed _ n \<Rightarrow> n | _ \<Rightarrow> 0)"

partial_function (option) reconnect_loop ::
  "('b, 'x) exchange_env \<Rightarrow> int option \<Rightarrow> nat \<Rightarrow> int \<Rightarrow> ('b, 'x) exchange_state \<Rightarrow>
   (unit result \<times> ('b, 'x) exchange_state) option" where
  "reconnect_loop env mx published used s =
     (if enough mx published then Some (Inr (), s)
      else case cb_enter (xe_lib env) (xs_breaker s) of
        Inl (e, b) \<Rightarrow> Some (Inl e, note_circuit_open (s\<lparr>xs_breaker := b\<rparr>))
      | Inr (probe, b) \<Rightarrow>
          (case attempt_connection env (map_option (\<lambda>n. n - int published) mx) (s\<lparr>xs_breaker := b\<rparr>) of
             None \<Rightarrow> None
           | Some (Inr (n, productive), s1) \<Rightarrow>
               (let s2 = s1\<lparr>xs_breaker := cb_leave probe True (xs_breaker s1)\<rparr> in
                if productive
                then reconnect_loop env mx (published + n) 0 (xs_sleep env (backoff_delay env 1) (count_reconnect s2))
                else reconnect_loop env mx (published + n) used s2)
           | Some (Inl e, s1) \<Rightarrow>
               (let s2 = s1\<lparr>xs_breaker := cb_leave probe False (xs_breaker s1)\<rparr>;
                    s3 = s2\<lparr>xs_stream := record_reconnect e (xs_stream s2)\<rparr> in
                if is_circuit_open e then Some (Inl e, note_circuit_open s2)
                else if used \<ge> xe_max_reconnects env then Some (Inl e, s3)
                else reconnect_loop env mx (published + closed_after e) (used + 1)
                       (xs_sleep env (backoff_delay env (used + 1)) (count_reconnect s3)))))"

definition exchange_run ::
  "('b, 'x) exchange_env \<Rightarrow> int option \<Rightarrow> ('b, 'x) exchange_state \<Rightarrow>
   (unit result \<times> ('b, 'x) exchange_state) option" where
  "exchange_run env mx = reconnect_loop env mx 0 0"

section \<open>The clients\<close>

definition base_extract :: "pydict \<Rightarrow> pydict option result" where
  "base_extract payload = Inr (Some payload)"

definition base_heartbeat :: "pydict \<Rightarrow> bool" where
  "base_heartbeat payload = False"

definition BINANCE_WS_URL :: string where
  "BINANCE_WS_URL = ''wss://stream.binance.com:9443/ws''"

definition binance_url :: "string \<Rightarrow> string \<Rightarrow> string" where
  "binance_url url stream_name = (if ends_with stream_name url then url else url @ ''/'' @ stream_name)"

definition inner_data :: "pydict \<Rightarrow> pydict" where
  "inner_data payload = (case dget payload ''data'' of PDict d \<Rightarrow> d | _ \<Rightarrow> payload)"

definition binance_extract :: "pylib \<Rightarrow> pydict \<Rightarrow> pydict option result" where
  "binance_extract lib payload0 =
     (let payload = inner_data payload0; e = dget payload ''e'' in
      if \<not> hashable e then Inl (TypeError ''unhashable type'')
      else if e \<in> {PStr ''trade'', PStr ''24hrTicker''} then Inr (Some payload)
      else if map_of payload ''result'' \<noteq> None then Inr None
      else Inl (ValueError (''Unsupported Binance payload shape: '' @ repr_of lib (PDict payload))))"

definition binance_client ::
  "'b bus_ops \<Rightarrow> 'x exchange_ops \<Rightarrow> pylib \<Rightarrow> feed_lib \<Rightarrow> (nat list \<Rightarrow> string option) \<Rightarrow> string \<Rightarrow> string \<Rightarrow>
   real \<Rightarrow> int \<Rightarrow> real option \<Rightarrow> ('b, 'x) exchange_env" where
  "binance_client bus ops lib fl dec url stream_name backoff max_reconnects timeout =
     \<lparr>xe_bus = bus, xe_ops = ops, xe_lib = lib, xe_feed = fl, xe_utf8 = dec, xe_source = ''binance'',
      xe_url = binance_url url stream_name, xe_topic = TOPIC_MARKET_RAW, xe_backoff = backoff,
      xe_max_reconnects = max_reconnects, xe_timeout = timeout, xe_on_connected = returnM (),
      xe_extract = binance_extract lib, xe_is_heartbeat = base_heartbeat\<rparr>"

definition COINBASE_WS_URL :: string where
  "COINBASE_WS_URL = ''wss://ws-feed.exchange.coinbase.com''"

definition normalize_product_id :: "string \<Rightarrow> string" where
  "normalize_product_id value =
     (let v = str_upper value in
      if CHR ''-'' \<in> set v then v
      else if ends_with ''USD'' v then take (length v - 3) v @ ''-USD''
      else v)"

definition coinbase_extract :: "pylib \<Rightarrow> pydict \<Rightarrow> pydict option result" where
  "coinbase_extract lib payload =
     (let t = dget payload ''type'' in
      if t = PStr ''ticker'' then Inr (Some payload)
      else if \<not> hashable t then Inl (TypeError ''unhashable type'')
      else if t \<in> {PStr ''subscriptions'', PStr ''heartbeat''} then Inr None
      else Inl (ValueError (''Unsupported Coinbase payload shape: '' @ repr_of lib (PDict payload))))"

definition coinbase_heartbeat :: "pydict \<Rightarrow> bool" where
  "coinbase_heartbeat payload \<longleftrightarrow> dget payload ''type'' = PStr ''heartbeat''"

definition subscribe_message :: "string list \<Rightarrow> pyval" where
  "subscribe_message product_ids =
     PDict [(''type'', PStr ''subscribe''), (''product_ids'', PList (map (\<lambda>p. PStr (normalize_product_id p)) product_ids)),
            (''channels'', PList [PStr ''ticker''])]"

definition coinbase_client ::
  "'b bus_ops \<Rightarrow> 'x exchange_ops \<Rightarrow> pylib \<Rightarrow> feed_lib \<Rightarrow> (nat list \<Rightarrow> string option) \<Rightarrow> (pyval \<Rightarrow> string) \<Rightarrow>
   string list \<Rightarrow> string \<Rightarrow> real \<Rightarrow> int \<Rightarrow> real option \<Rightarrow> ('b, 'x) exchange_env" where
  "coinbase_client bus ops lib fl dec dumps product_ids url backoff max_reconnects timeout =
     \<lparr>xe_bus = bus, xe_ops = ops, xe_lib = lib, xe_feed = fl, xe_utf8 = dec, xe_source = ''coinbase'',
      xe_url = url, xe_topic = TOPIC_MARKET_RAW, xe_backoff = backoff,
      xe_max_reconnects = max_reconnects, xe_timeout = timeout,
      xe_on_connected = xo_send ops (dumps (subscribe_message product_ids)),
      xe_extract = coinbase_extract lib, xe_is_heartbeat = coinbase_heartbeat\<rparr>"

end
