(* ===== verification/ExchangesProps.thy ===== *)
theory ExchangesProps
  imports Exchanges IngestionProps
begin

text \<open>
  What the exchange clients guarantee: an unreachable exchange makes the run stop after the
  reconnect budget, with exponential delays; sockets that close after streaming something
  never use that budget up; a frame that cannot be read is counted and costs nothing else.
\<close>

section \<open>Frames\<close>

lemma read_frame_fresh_id:
  "read_frame env eid raw = bindR (read_frame env [] raw)
     (\<lambda>k. Inr (case k of Market ev \<Rightarrow> Market (ev\<lparr>event_id := eid\<rparr>) | _ \<Rightarrow> k))"
proof -
  have "bindR (normalize_market_payload lib fl eid p o') (\<lambda>ev. Inr (Market ev)) =
      bindR (bindR (normalize_market_payload lib fl [] p o') (\<lambda>ev. Inr (Market ev)))
        (\<lambda>k. Inr (case k of Market ev \<Rightarrow> Market (ev\<lparr>event_id := eid\<rparr>) | _ \<Rightarrow> k))" for lib fl p o'
    by (subst normalize_fresh_id) (simp add: bindR_assoc)
  then show ?thesis
    by (simp add: read_frame_def bindR_assoc if_distrib [of "\<lambda>m. bindR m _"] option.case_distrib [of "\<lambda>m. bindR m _"]
        cong: if_cong option.case_cong)
qed

text \<open>The key a frame publishes under, if it is a market event, and whether its failure stays local.\<close>

definition frame_key :: "('b, 'x) exchange_env \<Rightarrow> feed_payload \<Rightarrow> string option" where
  "frame_key env raw = (case read_frame env [] raw of Inr (Market ev) \<Rightarrow> Some (event_key (xe_lib env) ev) | _ \<Rightarrow> None)"

definition contained :: "('b, 'x) exchange_env \<Rightarrow> feed_payload \<Rightarrow> bool" where
  "contained env raw \<longleftrightarrow> (case read_frame env [] raw of Inl e \<Rightarrow> malformed e | Inr _ \<Rightarrow> frame_key env raw \<noteq> Some [])"

definition is_malformed :: "('b, 'x) exchange_env \<Rightarrow> feed_payload \<Rightarrow> bool" where
  "is_malformed env raw \<longleftrightarrow> isl (read_frame env [] raw)"

definition keys_of :: "('b, 'x) exchange_env \<Rightarrow> feed_payload list \<Rightarrow> string list" where
  "keys_of env raws = List.map_filter (frame_key env) raws"

lemma keys_of_simps [simp]:
  "keys_of env [] = []"
  "keys_of env (raw # raws) = (case frame_key env raw of None \<Rightarrow> keys_of env raws | Some k \<Rightarrow> k # keys_of env raws)"
  by (simp_all add: keys_of_def map_filter_simps split: option.split)

text \<open>What no step of a connection touches.\<close>

definition same_budget :: "xstream_state \<Rightarrow> xstream_state \<Rightarrow> bool" where
  "same_budget st st' \<longleftrightarrow> st_reconnects st' = st_reconnects st \<and> st_connect_failures st' = st_connect_failures st"

lemma same_budget_refl [simp]: "same_budget st st" by (simp add: same_budget_def)

lemma same_budget_trans: "same_budget a b \<Longrightarrow> same_budget b c \<Longrightarrow> same_budget a c"
  by (simp add: same_budget_def)

lemma handle_frame_gains:
  assumes bus: "xe_bus env = inmem_bus_ops"
    and now: "xo_now (xe_ops env) = returnM t"
    and ok: "contained env raw" and q: "queues (xs_bus s) (xe_topic env) sub \<noteq> None"
  shows "\<exists>s'. handle_frame env raw s = (Inr (frame_key env raw \<noteq> None), s') \<and>
    gained (xe_topic env) sub (case frame_key env raw of None \<Rightarrow> [] | Some k \<Rightarrow> [k]) (xs_bus s) (xs_bus s') \<and>
    xs_ext s' = xs_ext s \<and> xs_breaker s' = xs_breaker s \<and> same_budget (xs_stream s) (xs_stream s') \<and>
    st_events_published (xs_stream s') = st_events_published (xs_stream s) + of_bool (frame_key env raw \<noteq> None) \<and>
    st_malformed (xs_stream s') = st_malformed (xs_stream s) + of_bool (is_malformed env raw)"
proof (cases "read_frame env [] raw")
  case (Inl e)
  then have "malformed e" using ok by (simp add: contained_def)
  moreover have "read_frame env eid raw = Inl e" for eid by (subst read_frame_fresh_id) (simp add: Inl bindR_def)
  ultimately show ?thesis using Inl now q
    by (subst handle_frame_def) (simp add: pm_simps xs_on_ext_def xs_mark_def frame_key_def
        is_malformed_def gained_Nil same_budget_def mark_message_def count_malformed_def)
next
  case (Inr k)
  show ?thesis
  proof (cases k)
    case (Market ev)
    let ?key = "event_key (xe_lib env) ev"
    have rd: "read_frame env eid raw = Inr (Market (ev\<lparr>event_id := eid\<rparr>))" for eid
      by (subst read_frame_fresh_id) (simp add: Inr Market bindR_def)
    have key: "frame_key env raw = Some ?key" by (simp add: frame_key_def Inr Market)
    then have "?key \<noteq> []" using ok Inr by (simp add: contained_def)
    note g = gained_publish [OF this q]
    show ?thesis using Inr now bus key g rd
      by (subst handle_frame_def) (simp add: pm_simps xs_on_ext_def xs_on_bus_def xs_mark_def publish_market_def
          is_malformed_def same_budget_def mark_message_def event_key_def)
  next
    case Heartbeat
    have rd: "read_frame env eid raw = Inr Heartbeat" for eid
      by (subst read_frame_fresh_id) (simp add: Inr Heartbeat bindR_def)
    show ?thesis using now q
      by (subst handle_frame_def) (simp add: pm_simps xs_on_ext_def xs_mark_def rd frame_key_def is_malformed_def
          gained_Nil same_budget_def mark_message_def mark_heartbeat_def)
  next
    case Ignored
    have rd: "read_frame env eid raw = Inr Ignored" for eid
      by (subst read_frame_fresh_id) (simp add: Inr Ignored bindR_def)
    show ?thesis using now q
      by (subst handle_frame_def) (simp add: pm_simps xs_on_ext_def xs_mark_def rd frame_key_def is_malformed_def
          gained_Nil same_budget_def mark_message_def)
  qed
qed

section \<open>An exchange that recycles its sockets\<close>

text \<open>
  The external state: the frames left on the open socket, the sockets still to be opened with
  the frames each delivers before it closes, and the delays slept.
\<close>

record script =
  sc_current :: "feed_payload list"
  sc_rest :: "feed_payload list list"
  sc_slept :: "real list"

definition refused :: exn where "refused = OSError ''[Errno 111] Connection refused''"

text \<open>A connection is both awaitable and a context, as the one of the websockets library is.\<close>

definition script_ops :: "datetime \<Rightarrow> script exchange_ops" where
  "script_ops t =
     \<lparr>xo_connect = (\<lambda>_ x. case sc_rest x of [] \<Rightarrow> (Inl refused, x)
        | c # cs \<Rightarrow> (Inr \<lparr>cd_handle = 0, cd_context = True, cd_awaitable = True, cd_closer = True\<rparr>,
                     x\<lparr>sc_current := c, sc_rest := cs\<rparr>)),
      xo_await = (\<lambda>_. raiseM (TypeError ''a bare protocol has no __aenter__'')),
      xo_enter = (\<lambda>_. returnM ()), xo_exit = (\<lambda>_. returnM ()), xo_close = (\<lambda>_. returnM ()), xo_send = (\<lambda>_. returnM ()),
      xo_next = (\<lambda>x. case sc_current x of [] \<Rightarrow> (Inr Ended, x) | f # fs \<Rightarrow> (Inr (Frame f), x\<lparr>sc_current := fs\<rparr>)),
      xo_now = returnM t, xo_sleep = (\<lambda>d x. x\<lparr>sc_slept := sc_slept x @ [d]\<rparr>)\<rparr>"

text \<open>A client on the in-memory bus and such an exchange.\<close>

definition scripted :: "datetime \<Rightarrow> (inmem_bus, script) exchange_env \<Rightarrow> bool" where
  "scripted t env \<longleftrightarrow> xe_bus env = inmem_bus_ops \<and> xe_ops env = script_ops t \<and> xe_on_connected env = returnM ()"

lemma scripted_sel:
  assumes "scripted t env"
  shows "xe_bus env = inmem_bus_ops" "xe_ops env = script_ops t" "xe_on_connected env = returnM ()"
    "xo_now (xe_ops env) = returnM t"
  using assms by (simp_all add: scripted_def script_ops_def)

lemma frame_loop_scripted:
  assumes sc: "scripted t env" and ok: "\<forall>raw\<in>set raws. contained env raw"
    and q: "queues (xs_bus s) (xe_topic env) sub \<noteq> None" and cur: "sc_current (xs_ext s) = raws"
    and room: "int published < n"
  shows "\<exists>s'. frame_loop env (Some n) published s =
      Some (if n \<le> int published + int (length (keys_of env raws)) then Inr (nat n)
            else Inl (StreamClosed (xe_source env) (published + length (keys_of env raws))), s') \<and>
    gained (xe_topic env) sub (take (nat n - published) (keys_of env raws)) (xs_bus s) (xs_bus s') \<and>
    sc_rest (xs_ext s') = sc_rest (xs_ext s) \<and> sc_slept (xs_ext s') = sc_slept (xs_ext s) \<and>
    xs_breaker s' = xs_breaker s \<and> same_budget (xs_stream s) (xs_stream s') \<and>
    st_events_published (xs_stream s') =
      st_events_published (xs_stream s) + int (length (take (nat n - published) (keys_of env raws)))"
  using ok q cur room
proof (induction raws arbitrary: published s)
  case Nil
  have "xs_on_ext (xo_next (xe_ops env)) s = (Inr Ended, s)"
    using Nil.prems(3) scripted_sel [OF sc] by (simp add: xs_on_ext_def zoomM_apply script_ops_def)
  then show ?case using Nil.prems
    by (subst frame_loop.simps) (simp add: gained_Nil)
next
  case (Cons raw raws)
  let ?s1 = "s\<lparr>xs_ext := (xs_ext s)\<lparr>sc_current := raws\<rparr>\<rparr>"
  have nxt: "xs_on_ext (xo_next (xe_ops env)) s = (Inr (Frame raw), ?s1)"
    using Cons.prems(3) scripted_sel [OF sc] by (simp add: xs_on_ext_def zoomM_apply script_ops_def)
  have c1: "contained env raw" and q1: "queues (xs_bus ?s1) (xe_topic env) sub \<noteq> None" using Cons.prems by simp_all
  from handle_frame_gains [OF scripted_sel(1,4) [OF sc] c1 q1] obtain s2 where
    s2: "handle_frame env raw ?s1 = (Inr (frame_key env raw \<noteq> None), s2)"
    "gained (xe_topic env) sub (case frame_key env raw of None \<Rightarrow> [] | Some k \<Rightarrow> [k]) (xs_bus s) (xs_bus s2)"
    "xs_ext s2 = xs_ext ?s1" "xs_breaker s2 = xs_breaker s" "same_budget (xs_stream s) (xs_stream s2)"
    "st_events_published (xs_stream s2) = st_events_published (xs_stream s) + of_bool (frame_key env raw \<noteq> None)"
    by auto
  have q2: "queues (xs_bus s2) (xe_topic env) sub \<noteq> None" using s2(2) by (simp add: gained_def)
  have cur2: "sc_current (xs_ext s2) = raws" using s2(3) by simp
  show ?case
  proof (cases "frame_key env raw")
    case None
    then have run: "frame_loop env (Some n) published s = frame_loop env (Some n) published s2"
      using nxt s2(1) by (subst frame_loop.simps) simp
    have g: "gained (xe_topic env) sub [] (xs_bus s) (xs_bus s2)" using s2(2) None by simp
    from Cons.IH [OF _ q2 cur2 Cons.prems(4)] Cons.prems(1) obtain s3 where
      s3: "frame_loop env (Some n) published s2 =
        Some (if n \<le> int published + int (length (keys_of env raws)) then Inr (nat n)
              else Inl (StreamClosed (xe_source env) (published + length (keys_of env raws))), s3)"
      "gained (xe_topic env) sub (take (nat n - published) (keys_of env raws)) (xs_bus s2) (xs_bus s3)"
      "sc_rest (xs_ext s3) = sc_rest (xs_ext s2)" "sc_slept (xs_ext s3) = sc_slept (xs_ext s2)"
      "xs_breaker s3 = xs_breaker s2" "same_budget (xs_stream s2) (xs_stream s3)"
      "st_events_published (xs_stream s3) =
        st_events_published (xs_stream s2) + int (length (take (nat n - published) (keys_of env raws)))"
      by auto
    show ?thesis
      using None run s2 s3 gained_trans [OF g s3(2)] same_budget_trans [OF s2(5) s3(6)] by (intro exI [of _ s3]) simp
  next
    case (Some k)
    have g: "gained (xe_topic env) sub [k] (xs_bus s) (xs_bus s2)" using s2(2) Some by simp
    have pos: "0 < nat n - published" using Cons.prems(4) by linarith
    then have tk: "take (nat n - published) (k # ks) = k # take (nat n - (published + 1)) ks" for ks
      by (cases "nat n - published") (simp_all, metis Suc_eq_plus1 diff_Suc_eq_diff_pred diff_diff_left diff_add_inverse2)
    show ?thesis
    proof (cases "n \<le> int published + 1")
      case True
      then have "n = int published + 1" using Cons.prems(4) by simp
      then have nn: "nat n = published + 1" by simp
      have "frame_loop env (Some n) published s = Some (Inr (nat n), s2)"
        using nxt s2(1) Some True by (subst frame_loop.simps) (simp add: enough_def nn)
      moreover have "nat n - (published + 1) = 0" by (simp add: nn)
      ultimately
      show ?thesis using Some s2 g tk True by (intro exI [of _ s2]) simp
    next
      case False
      then have run: "frame_loop env (Some n) published s = frame_loop env (Some n) (published + 1) s2"
        using nxt s2(1) Some by (subst frame_loop.simps) (simp add: enough_def)
      have room2: "int (published + 1) < n" using False by simp
      from Cons.IH [OF _ q2 cur2 room2] Cons.prems(1) obtain s3 where
        s3: "frame_loop env (Some n) (published + 1) s2 =
          Some (if n \<le> int (published + 1) + int (length (keys_of env raws)) then Inr (nat n)
                else Inl (StreamClosed (xe_source env) (published + 1 + length (keys_of env raws))), s3)"
        "gained (xe_topic env) sub (take (nat n - (published + 1)) (keys_of env raws)) (xs_bus s2) (xs_bus s3)"
        "sc_rest (xs_ext s3) = sc_rest (xs_ext s2)" "sc_slept (xs_ext s3) = sc_slept (xs_ext s2)"
        "xs_breaker s3 = xs_breaker s2" "same_budget (xs_stream s2) (xs_stream s3)"
        "st_events_published (xs_stream s3) =
          st_events_published (xs_stream s2) + int (length (take (nat n - (published + 1)) (keys_of env raws)))"
        by auto
      show ?thesis
        using Some run s2 s3 gained_trans [OF g s3(2)] same_budget_trans [OF s2(5) s3(6)] tk
        by (intro exI [of _ s3]) (simp add: add.assoc)
    qed
  qed
qed

text \<open>One attempt on such an exchange, by the keys its next socket delivers.\<close>

lemma attempt_scripted:
  assumes sc: "scripted t env" and rest: "sc_rest (xs_ext s) = raws # later"
    and ok: "\<forall>raw\<in>set raws. contained env raw" and some: "keys_of env raws \<noteq> []"
    and q: "queues (xs_bus s) (xe_topic env) sub \<noteq> None" and room: "0 < n"
  shows "\<exists>s'. attempt_connection env (Some n) s =
      Some (if n \<le> int (length (keys_of env raws)) then Inr (nat n, False)
            else Inr (length (keys_of env raws), True), s') \<and>
    gained (xe_topic env) sub (take (nat n) (keys_of env raws)) (xs_bus s) (xs_bus s') \<and>
    sc_rest (xs_ext s') = later \<and> sc_slept (xs_ext s') = sc_slept (xs_ext s) \<and>
    xs_breaker s' = xs_breaker s \<and> same_budget (xs_stream s) (xs_stream s') \<and>
    st_events_published (xs_stream s') =
      st_events_published (xs_stream s) + int (length (take (nat n) (keys_of env raws)))"
proof -
  let ?s1 = "s\<lparr>xs_ext := (xs_ext s)\<lparr>sc_current := raws, sc_rest := later\<rparr>\<rparr>"
  have q1: "queues (xs_bus ?s1) (xe_topic env) sub \<noteq> None" and cur: "sc_current (xs_ext ?s1) = raws" using q by simp_all
  have room0: "int 0 < n" using room by simp
  from frame_loop_scripted [OF sc ok q1 cur room0] obtain s2 where
    s2: "frame_loop env (Some n) 0 ?s1 =
      Some (if n \<le> int (length (keys_of env raws)) then Inr (nat n)
            else Inl (StreamClosed (xe_source env) (length (keys_of env raws))), s2)"
    "gained (xe_topic env) sub (take (nat n) (keys_of env raws)) (xs_bus s) (xs_bus s2)"
    "sc_rest (xs_ext s2) = later" "sc_slept (xs_ext s2) = sc_slept (xs_ext s)"
    "xs_breaker s2 = xs_breaker s" "same_budget (xs_stream s) (xs_stream s2)"
    "st_events_published (xs_stream s2) =
      st_events_published (xs_stream s) + int (length (take (nat n) (keys_of env raws)))"
    by auto
  have "run_connection env (Some n) s =
      Some (if n \<le> int (length (keys_of env raws)) then Inr (nat n)
            else Inl (StreamClosed (xe_source env) (length (keys_of env raws))), s2)"
    using s2(1) rest scripted_sel [OF sc]
    by (simp add: run_connection_def with_connection_def resolve_candidate_def enter_candidate_def leave_candidate_def
        xs_on_ext_def pm_simps script_ops_def)
  then show ?thesis using s2(2-) some
    by (intro exI [of _ s2]) (simp add: attempt_connection_def connection_outcome_def)
qed

definition all_keys :: "('b, 'x) exchange_env \<Rightarrow> feed_payload list list \<Rightarrow> string list" where
  "all_keys env conns = concat (map (keys_of env) conns)"

lemma reconnects_scripted:
  assumes sc: "scripted t env"
    and "\<forall>raws\<in>set conns. keys_of env raws \<noteq> [] \<and> (\<forall>raw\<in>set raws. contained env raw)"
    and "sc_rest (xs_ext s) = conns" "cb_state (xs_breaker s) = CLOSED"
    and "queues (xs_bus s) (xe_topic env) sub \<noteq> None"
    and "int published < n" "n \<le> int published + int (length (all_keys env conns))"
  shows "\<exists>s' j. reconnect_loop env (Some n) published used s = Some (Inr (), s') \<and>
    gained (xe_topic env) sub (take (nat n - published) (all_keys env conns)) (xs_bus s) (xs_bus s') \<and>
    st_events_published (xs_stream s') = st_events_published (xs_stream s) + (n - int published) \<and>
    st_connect_failures (xs_stream s') = st_connect_failures (xs_stream s) \<and>
    st_reconnects (xs_stream s') = st_reconnects (xs_stream s) + int j \<and> j < length conns \<and>
    sc_slept (xs_ext s') = sc_slept (xs_ext s) @ replicate j (xe_backoff env) \<and>
    cb_state (xs_breaker s') = CLOSED \<and> failure_count (xs_breaker s') = 0"
  using assms(2-)
proof (induction conns arbitrary: s published used)
  case Nil
  then show ?case by (simp add: all_keys_def)
next
  case (Cons raws later)
  let ?ks = "keys_of env raws" and ?m = "n - int published"
  have ent: "cb_enter (xe_lib env) (xs_breaker s) = Inr (False, xs_breaker s)"
    using Cons.prems(3) by (simp add: cb_enter_def)
  have some: "?ks \<noteq> []" and ok: "\<forall>raw\<in>set raws. contained env raw" using Cons.prems(1) by simp_all
  have room: "0 < ?m" using Cons.prems(5) by simp
  from attempt_scripted [OF sc Cons.prems(2) ok some Cons.prems(4) room] obtain s1 where
    s1: "attempt_connection env (Some ?m) s =
      Some (if ?m \<le> int (length ?ks) then Inr (nat ?m, False) else Inr (length ?ks, True), s1)"
    "gained (xe_topic env) sub (take (nat ?m) ?ks) (xs_bus s) (xs_bus s1)"
    "sc_rest (xs_ext s1) = later" "sc_slept (xs_ext s1) = sc_slept (xs_ext s)"
    "xs_breaker s1 = xs_breaker s" "same_budget (xs_stream s) (xs_stream s1)"
    "st_events_published (xs_stream s1) = st_events_published (xs_stream s) + int (length (take (nat ?m) ?ks))"
    by auto
  have nm: "nat ?m = nat n - published" using Cons.prems(5) by linarith
  have keys: "all_keys env (raws # later) = ?ks @ all_keys env later" by (simp add: all_keys_def)
  have not_yet: "\<not> enough (Some n) published" using Cons.prems(5) by (simp add: enough_def)
  let ?b = "record_success (xs_breaker s)"
  show ?case
  proof (cases "?m \<le> int (length ?ks)")
    case True
    let ?s2 = "s1\<lparr>xs_breaker := ?b\<rparr>"
    have en: "enough (Some n) (published + nat ?m)" using room by (simp add: enough_def)
    have "reconnect_loop env (Some n) (published + nat ?m) used ?s2 = Some (Inr (), ?s2)"
      using en by (subst reconnect_loop.simps) simp
    then have run: "reconnect_loop env (Some n) published used s = Some (Inr (), ?s2)"
      using True not_yet ent s1(1,5) by (subst reconnect_loop.simps) (simp add: cb_leave_def Let_def)
    have tk: "take (nat n - published) (?ks @ all_keys env later) = take (nat ?m) ?ks"
      using True by (simp add: nm)
    have len: "int (length (take (nat ?m) ?ks)) = ?m" using True room by simp
    show ?thesis
      using run s1(2,4,6,7) tk len
      by (intro exI [of _ ?s2] exI [of _ 0]) (simp add: keys same_budget_def)
  next
    case False
    let ?s2 = "xs_sleep env (backoff_delay env 1) (count_reconnect (s1\<lparr>xs_breaker := ?b\<rparr>))"
    have run: "reconnect_loop env (Some n) published used s =
        reconnect_loop env (Some n) (published + length ?ks) 0 ?s2"
      using False not_yet ent s1(1,5) by (subst reconnect_loop.simps) (simp add: cb_leave_def Let_def)
    have full: "take (nat ?m) ?ks = ?ks" using False by simp
    have sel: "sc_rest (xs_ext ?s2) = later" "cb_state (xs_breaker ?s2) = CLOSED" "xs_bus ?s2 = xs_bus s1"
      "sc_slept (xs_ext ?s2) = sc_slept (xs_ext s) @ [xe_backoff env]"
      "st_events_published (xs_stream ?s2) = st_events_published (xs_stream s) + int (length ?ks)"
      "st_reconnects (xs_stream ?s2) = st_reconnects (xs_stream s) + 1"
      "st_connect_failures (xs_stream ?s2) = st_connect_failures (xs_stream s)"
      using s1(3,4,6,7) full scripted_sel [OF sc]
      by (simp_all add: xs_sleep_def count_reconnect_def script_ops_def backoff_delay_def same_budget_def)
    have q2: "queues (xs_bus ?s2) (xe_topic env) sub \<noteq> None" using s1(2) sel(3) by (simp add: gained_def)
    have lt: "int (published + length ?ks) < n" using False by simp
    have le: "n \<le> int (published + length ?ks) + int (length (all_keys env later))" using Cons.prems(6) by (simp add: keys)
    from Cons.IH [OF _ sel(1,2) q2 lt le] Cons.prems(1) obtain s3 j where
      s3: "reconnect_loop env (Some n) (published + length ?ks) 0 ?s2 = Some (Inr (), s3)"
      "gained (xe_topic env) sub (take (nat n - (published + length ?ks)) (all_keys env later)) (xs_bus ?s2) (xs_bus s3)"
      "st_events_published (xs_stream s3) = st_events_published (xs_stream ?s2) + (n - int (published + length ?ks))"
      "st_connect_failures (xs_stream s3) = st_connect_failures (xs_stream ?s2)"
      "st_reconnects (xs_stream s3) = st_reconnects (xs_stream ?s2) + int j" "j < length later"
      "sc_slept (xs_ext s3) = sc_slept (xs_ext ?s2) @ replicate j (xe_backoff env)"
      "cb_state (xs_breaker s3) = CLOSED" "failure_count (xs_breaker s3) = 0"
      by (metis list.set_intros(2))
    have tk: "take (nat n - published) (?ks @ all_keys env later) =
        ?ks @ take (nat n - (published + length ?ks)) (all_keys env later)"
      using full by (simp add: nm)
    have g: "gained (xe_topic env) sub ?ks (xs_bus s) (xs_bus ?s2)" using s1(2) full sel(3) by simp
    show ?thesis
      using run s3 sel tk gained_trans [OF g s3(2)] keys
      by (intro exI [of _ s3] exI [of _ "Suc j"]) (simp del: of_nat_add)
  qed
qed

text \<open>
  C32: A feed that keeps recycling its sockets is followed to the end, whatever the reconnect
  budget: if every socket delivers at least one market event before it closes, and each other
  frame either is not one or fails with an error that the frame loop contains, a run for \<open>n\<close>
  events returns as soon as the exchange has delivered \<open>n\<close>; exactly \<open>n\<close> are published, a
  subscription gains the first message of each new key in the order delivered, no failure is
  counted, each recycle sleeps the base delay once and the circuit ends closed.
\<close>

theorem recycled_sockets_complete:
  assumes "scripted t env"
    and "\<forall>raws\<in>set conns. keys_of env raws \<noteq> [] \<and> (\<forall>raw\<in>set raws. contained env raw)"
    and "sc_rest (xs_ext s) = conns" "cb_state (xs_breaker s) = CLOSED"
    and "queues (xs_bus s) (xe_topic env) sub \<noteq> None"
    and "0 < n" "n \<le> int (length (all_keys env conns))"
  shows "\<exists>s' j. exchange_run env (Some n) s = Some (Inr (), s') \<and>
    map msg_id (queue_of (xs_bus s') (xe_topic env) sub) = map msg_id (queue_of (xs_bus s) (xe_topic env) sub) @
      fresh_keys (seen_ids (xs_bus s) (xe_topic env)) (take (nat n) (all_keys env conns)) \<and>
    st_events_published (xs_stream s') = st_events_published (xs_stream s) + n \<and>
    st_connect_failures (xs_stream s') = st_connect_failures (xs_stream s) \<and>
    st_reconnects (xs_stream s') = st_reconnects (xs_stream s) + int j \<and> j < length conns \<and>
    sc_slept (xs_ext s') = sc_slept (xs_ext s) @ replicate j (xe_backoff env) \<and>
    cb_state (xs_breaker s') = CLOSED"
  using reconnects_scripted [OF assms(1-5), of 0 n 0] assms(6,7)
  unfolding exchange_run_def gained_def by auto

section \<open>An exchange that cannot be reached\<close>

lemma outcome_failure: "closed_after e = 0 \<Longrightarrow> connection_outcome (Inl e) = Inl e"
  by (cases e) (simp_all add: connection_outcome_def closed_after_def)

lemma attempt_unreachable:
  assumes "xo_connect (xe_ops env) (xe_url env) (xs_ext s) = (Inl e, x)" "closed_after e = 0"
  shows "attempt_connection env m s = Some (Inl e, s\<lparr>xs_ext := x\<rparr>)"
  using assms by (simp add: attempt_connection_def run_connection_def with_connection_def resolve_candidate_def
      xs_on_ext_def pm_simps outcome_failure)

lemma reconnects_unreachable:
  assumes down: "\<And>x. \<exists>e x'. xo_connect (xe_ops env) (xe_url env) x = (Inl e, x') \<and> closed_after e = 0"
    and "\<not> enough mx 0"
  shows "\<exists>e s'. reconnect_loop env mx 0 used s = Some (Inl e, s') \<and> xs_bus s' = xs_bus s \<and>
    st_events_published (xs_stream s') = st_events_published (xs_stream s) \<and>
    st_connect_failures (xs_stream s') \<le> st_connect_failures (xs_stream s) + max 0 (xe_max_reconnects env - used) + 1 \<and>
    st_reconnects (xs_stream s') \<le> st_reconnects (xs_stream s) + max 0 (xe_max_reconnects env - used)"
proof (induction "nat (xe_max_reconnects env - used)" arbitrary: used s)
  case (0 used s)
  show ?case
  proof (cases "cb_enter (xe_lib env) (xs_breaker s)")
    case (Inl eb)
    then show ?thesis using assms(2)
      by (subst reconnect_loop.simps) (cases eb, simp add: note_circuit_open_def)
  next
    case (Inr pb)
    obtain probe b where pb: "pb = (probe, b)" by (cases pb)
    obtain e x where e: "xo_connect (xe_ops env) (xe_url env) (xs_ext s) = (Inl e, x)" "closed_after e = 0"
      using down by blast
    have "xe_max_reconnects env \<le> used" using 0 by simp
    then show ?thesis using assms(2) Inr pb attempt_unreachable [of env "s\<lparr>xs_breaker := b\<rparr>" e x] e
      by (subst reconnect_loop.simps) (simp add: Let_def note_circuit_open_def record_reconnect_def)
  qed
next
  case (Suc k used s)
  show ?case
  proof (cases "cb_enter (xe_lib env) (xs_breaker s)")
    case (Inl eb)
    then show ?thesis using assms(2)
      by (subst reconnect_loop.simps) (cases eb, simp add: note_circuit_open_def)
  next
    case (Inr pb)
    obtain probe b where pb: "pb = (probe, b)" by (cases pb)
    obtain e x where e: "xo_connect (xe_ops env) (xe_url env) (xs_ext s) = (Inl e, x)" "closed_after e = 0"
      using down by blast
    let ?s2 = "s\<lparr>xs_ext := x, xs_breaker := cb_leave probe False b\<rparr>"
    let ?s3 = "?s2\<lparr>xs_stream := record_reconnect e (xs_stream s)\<rparr>"
    let ?next = "xs_sleep env (backoff_delay env (used + 1)) (count_reconnect ?s3)"
    have left: "k = nat (xe_max_reconnects env - (used + 1))" "used < xe_max_reconnects env" using Suc.hyps(2) by linarith+
    have run: "reconnect_loop env mx 0 used s =
        (if is_circuit_open e then Some (Inl e, note_circuit_open ?s2) else reconnect_loop env mx 0 (used + 1) ?next)"
      using assms(2) Inr pb attempt_unreachable [of env "s\<lparr>xs_breaker := b\<rparr>" e x] e left(2)
      by (subst reconnect_loop.simps) (simp add: Let_def)
    from Suc.hyps(1) [OF left(1), of ?next] obtain e' s' where
      s': "reconnect_loop env mx 0 (used + 1) ?next = Some (Inl e', s')" "xs_bus s' = xs_bus ?next"
      "st_events_published (xs_stream s') = st_events_published (xs_stream ?next)"
      "st_connect_failures (xs_stream s') \<le> st_connect_failures (xs_stream ?next) + max 0 (xe_max_reconnects env - (used + 1)) + 1"
      "st_reconnects (xs_stream s') \<le> st_reconnects (xs_stream ?next) + max 0 (xe_max_reconnects env - (used + 1))"
      by blast
    have sel: "xs_bus ?next = xs_bus s" "st_events_published (xs_stream ?next) = st_events_published (xs_stream s)"
      "st_connect_failures (xs_stream ?next) = st_connect_failures (xs_stream s) + 1"
      "st_reconnects (xs_stream ?next) = st_reconnects (xs_stream s) + 1"
      by (simp_all add: xs_sleep_def count_reconnect_def record_reconnect_def)
    show ?thesis
    proof (cases "is_circuit_open e")
      case True
      then show ?thesis using run by (simp add: note_circuit_open_def)
    next
      case False
      then show ?thesis using run s' sel left(2) by simp
    qed
  qed
qed

text \<open>
  C33: A run against an exchange that cannot be reached ends: whatever the breaker's state and the
  errors, it raises after at most \<open>max(0, max_reconnects)\<close> reconnects and one more failure,
  and nothing has been published.
\<close>

theorem unreachable_run_ends:
  assumes "\<And>x. \<exists>e x'. xo_connect (xe_ops env) (xe_url env) x = (Inl e, x') \<and> closed_after e = 0"
    and "\<not> enough mx 0"
  shows "\<exists>e s'. exchange_run env mx s = Some (Inl e, s') \<and> xs_bus s' = xs_bus s \<and>
    st_connect_failures (xs_stream s') \<le> st_connect_failures (xs_stream s) + max 0 (xe_max_reconnects env) + 1 \<and>
    st_reconnects (xs_stream s') \<le> st_reconnects (xs_stream s) + max 0 (xe_max_reconnects env)"
  using reconnects_unreachable [OF assms, of 0 s] unfolding exchange_run_def by auto

lemma backs_off:
  assumes sc: "scripted t env" and "\<not> enough mx 0"
    and "sc_rest (xs_ext s) = []" "cb_state (xs_breaker s) = CLOSED" "failure_count (xs_breaker s) = int used"
    and "int (used + k) < failure_threshold (xs_breaker s)" "xe_max_reconnects env = int (used + k)"
  shows "\<exists>s'. reconnect_loop env mx 0 (int used) s = Some (Inl refused, s') \<and>
    sc_slept (xs_ext s') = sc_slept (xs_ext s) @ map (\<lambda>i. xe_backoff env * 2 ^ i) [used..<used + k] \<and>
    st_reconnects (xs_stream s') = st_reconnects (xs_stream s) + int k \<and>
    st_connect_failures (xs_stream s') = st_connect_failures (xs_stream s) + int k + 1"
  using assms(3-)
proof (induction k arbitrary: used s)
  case (0 used s)
  have ent: "cb_enter (xe_lib env) (xs_breaker s) = Inr (False, xs_breaker s)" using 0 by (simp add: cb_enter_def)
  have conn: "xo_connect (xe_ops env) (xe_url env) (xs_ext s) = (Inl refused, xs_ext s)" "closed_after refused = 0"
    using 0 scripted_sel [OF sc] by (simp_all add: script_ops_def closed_after_def refused_def)
  show ?case
    using ent assms(2) attempt_unreachable [OF conn] 0
    by (subst reconnect_loop.simps) (simp add: Let_def is_circuit_open_def refused_def record_reconnect_def)
next
  case (Suc k used s)
  have ent: "cb_enter (xe_lib env) (xs_breaker s) = Inr (False, xs_breaker s)" using Suc.prems by (simp add: cb_enter_def)
  have conn: "xo_connect (xe_ops env) (xe_url env) (xs_ext s) = (Inl refused, xs_ext s)" "closed_after refused = 0"
    using Suc.prems scripted_sel [OF sc] by (simp_all add: script_ops_def closed_after_def refused_def)
  let ?b = "record_failure (xs_breaker s)"
  let ?s3 = "s\<lparr>xs_breaker := ?b, xs_stream := record_reconnect refused (xs_stream s)\<rparr>"
  let ?next = "xs_sleep env (backoff_delay env (int used + 1)) (count_reconnect ?s3)"
  have run: "reconnect_loop env mx 0 (int used) s = reconnect_loop env mx 0 (int (Suc used)) ?next"
    using ent assms(2) attempt_unreachable [OF conn] Suc.prems
    by (subst reconnect_loop.simps)
       (simp add: Let_def is_circuit_open_def refused_def cb_leave_def closed_after_def add.commute)
  have b: "cb_state ?b = CLOSED" "failure_count ?b = int (Suc used)"
    using Suc.prems by (simp_all add: record_failure_def Let_def)
  have sel: "sc_rest (xs_ext ?next) = []" "xs_breaker ?next = ?b"
    "sc_slept (xs_ext ?next) = sc_slept (xs_ext s) @ [xe_backoff env * 2 ^ used]"
    "st_reconnects (xs_stream ?next) = st_reconnects (xs_stream s) + 1"
    "st_connect_failures (xs_stream ?next) = st_connect_failures (xs_stream s) + 1"
    using Suc.prems scripted_sel [OF sc]
    by (simp_all add: xs_sleep_def count_reconnect_def record_reconnect_def script_ops_def backoff_delay_def)
  have "\<exists>s'. reconnect_loop env mx 0 (int (Suc used)) ?next = Some (Inl refused, s') \<and>
    sc_slept (xs_ext s') = sc_slept (xs_ext ?next) @ map (\<lambda>i. xe_backoff env * 2 ^ i) [Suc used..<Suc used + k] \<and>
    st_reconnects (xs_stream s') = st_reconnects (xs_stream ?next) + int k \<and>
    st_connect_failures (xs_stream s') = st_connect_failures (xs_stream ?next) + int k + 1"
    using Suc.prems sel b by (intro Suc.IH) simp_all
  moreover have "[used..<used + Suc k] = used # [Suc used..<Suc used + k]" by (simp add: upt_conv_Cons)
  ultimately show ?case unfolding run sel by auto
qed

text \<open>
  Reconnects back off exponentially: against an exchange that refuses every connection, under
  a fresh closed circuit whose threshold is above the reconnect budget \<open>r\<close>, the run sleeps
  \<open>b, 2b, 4b, ...\<close>, \<open>r\<close> delays in all, and then raises the refusal itself, with \<open>r\<close> reconnects
  and \<open>r + 1\<close> failures counted.
\<close>

theorem refused_backs_off:
  assumes "scripted t env" and "\<not> enough mx 0"
    and "sc_rest (xs_ext s) = []" "cb_state (xs_breaker s) = CLOSED" "failure_count (xs_breaker s) = 0"
    and "int r < failure_threshold (xs_breaker s)" "xe_max_reconnects env = int r"
  shows "\<exists>s'. exchange_run env mx s = Some (Inl refused, s') \<and>
    sc_slept (xs_ext s') = sc_slept (xs_ext s) @ map (\<lambda>i. xe_backoff env * 2 ^ i) [0..<r] \<and>
    st_reconnects (xs_stream s') = st_reconnects (xs_stream s) + int r \<and>
    st_connect_failures (xs_stream s') = st_connect_failures (xs_stream s) + int r + 1"
  using backs_off [of t env mx s 0 r] assms unfolding exchange_run_def by simp

section \<open>What the clients extract\<close>

text \<open>
  A frame either names the family its normalizer reads, or is skipped, or is an error the
  frame loop contains: the Binance client passes on only trade and ticker objects, the
  Coinbase client only tickers, and neither raises anything but the contained errors.
\<close>

theorem clients_extract_only_market_data:
  "(case binance_extract lib d of
      Inr (Some p) \<Rightarrow> p = inner_data d \<and> dget p ''e'' \<in> {PStr ''trade'', PStr ''24hrTicker''}
    | Inr None \<Rightarrow> map_of (inner_data d) ''result'' \<noteq> None
    | Inl e \<Rightarrow> malformed e) \<and>
   (case coinbase_extract lib d of
      Inr (Some p) \<Rightarrow> p = d \<and> dget p ''type'' = PStr ''ticker'' \<and> \<not> coinbase_heartbeat d
    | Inr None \<Rightarrow> dget d ''type'' \<in> {PStr ''subscriptions'', PStr ''heartbeat''}
    | Inl e \<Rightarrow> malformed e)"
  by (auto simp: binance_extract_def coinbase_extract_def coinbase_heartbeat_def malformed_def Let_def)

text \<open>
  One frame that is not contained: a timestamp no \<open>datetime\<close> can hold raises an
  \<open>OverflowError\<close>, which is not one of the exceptions the frame loop catches, and it ends the
  connection.
\<close>

definition huge_frame :: pydict where
  "huge_frame = [(''e'', PStr ''trade''), (''s'', PStr ''BTCUSDT''), (''p'', PFloat 1), (''T'', PFloat (10 ^ 300))]"

lemma huge_timestamp: "\<exists>msg. from_timestamp (10 ^ 300 / 1000) = Inl (OverflowError msg)"
proof -
  have "(10 ^ 300 / 1000 :: real) * 1000000 = of_int (10 ^ 303)" by simp
  then have us: "round_half_even ((10 ^ 300 / 1000 :: real) * 1000000) = 10 ^ 303" by (simp only: round_half_even_of_int)
  have big: "\<not> EPOCH_US + 10 ^ 303 \<le> MAX_US" by (simp add: EPOCH_US_def MAX_US_def)
  have "\<exists>msg. timestamp_error (10 ^ 300 / 1000) = OverflowError msg" by (simp add: timestamp_error_def)
  then show ?thesis by (simp only: from_timestamp_def us Let_def big simp_thms if_False sum.inject)
qed

lemma huge_frame_escapes:
  assumes "llm_lib.json_loads (fl_llm (xe_feed env)) raw = Inr (PDict huge_frame)"
    and "xe_extract env = binance_extract (xe_lib env)" "xe_is_heartbeat env = base_heartbeat"
  shows "\<exists>msg. read_frame env eid (Text raw) = Inl (OverflowError msg) \<and> \<not> malformed (OverflowError msg)"
proof -
  have ext: "binance_extract lib huge_frame = Inr (Some huge_frame)" for lib
    by (simp add: binance_extract_def huge_frame_def inner_data_def)
  obtain msg where msg: "from_timestamp (10 ^ 300 / 1000) = Inl (OverflowError msg)"
    using huge_timestamp by blast
  have "normalize_market_payload lib fl eid huge_frame src = Inl (OverflowError msg)" for lib fl src
    using msg by (simp add: huge_frame_def normalize_market_payload_def normalize_binance_def upper_field_def float_item_def
        optional_float_def binance_ts_def norm_datetime_def getitem_def to_float_def Let_def del: power_numeral)
  then show ?thesis
    using assms ext
    by (auto simp: read_frame_def decode_message_def base_heartbeat_def malformed_def)
qed

section \<open>Witnesses\<close>

text \<open>A Binance client whose frames are the names of their symbols, but for one that is not JSON.\<close>

definition frame_lib :: feed_lib where
  "frame_lib = example_fl\<lparr>fl_llm := example_llm\<lparr>llm_lib.json_loads := (\<lambda>t.
     if t = ''bad'' then Inl (ValueError ''Expecting value'')
     else Inr (PDict [(''e'', PStr ''trade''), (''s'', PStr t), (''p'', PInt 5), (''T'', PInt 0)]))\<rparr>\<rparr>"

definition binance_example :: "int \<Rightarrow> (inmem_bus, script) exchange_env" where
  "binance_example r = binance_client inmem_bus_ops (script_ops (utc_datetime 0)) null_lib frame_lib (\<lambda>_. None)
     BINANCE_WS_URL ''btcusdt@trade'' 1 r (Some 30)"

definition example_exchange :: "feed_payload list list \<Rightarrow> (inmem_bus, script) exchange_state" where
  "example_exchange conns =
     \<lparr>xs_bus = snd (ib_peek ''market.raw'' ''s'' 0 None (inmem_bus_init (\<lambda>_. ''id''))),
      xs_ext = \<lparr>sc_current = [], sc_rest = conns, sc_slept = []\<rparr>, xs_stream = xstream_state_init,
      xs_breaker = breaker_init 3 60 second_clock, xs_uuids = (\<lambda>_. ''ev''), xs_next = 0\<rparr>"

lemma binance_example_sel [simp]:
  "scripted (utc_datetime 0) (binance_example r)" "xe_topic (binance_example r) = ''market.raw''"
  "xe_backoff (binance_example r) = 1" "xe_max_reconnects (binance_example r) = r"
  by (simp_all add: scripted_def binance_example_def binance_client_def TOPIC_MARKET_RAW_def)

lemma example_exchange_sel [simp]:
  "sc_rest (xs_ext (example_exchange conns)) = conns" "sc_slept (xs_ext (example_exchange conns)) = []"
  "cb_state (xs_breaker (example_exchange conns)) = CLOSED" "failure_count (xs_breaker (example_exchange conns)) = 0"
  "failure_threshold (xs_breaker (example_exchange conns)) = 3"
  "xs_stream (example_exchange conns) = xstream_state_init"
  by (simp_all add: example_exchange_def breaker_init_def)

lemma example_exchange_bus:
  "queues (xs_bus (example_exchange conns)) ''market.raw'' ''s'' \<noteq> None"
  "queue_of (xs_bus (example_exchange conns)) ''market.raw'' ''s'' = []"
  "seen_ids (xs_bus (example_exchange conns)) ''market.raw'' = {}"
  by (simp_all add: example_exchange_def ib_defs inmem_bus_init_def queue_of_def Let_def)

theorem recycled_sockets_complete_witness:
  "\<exists>s'. exchange_run (binance_example 0) (Some 3)
      (example_exchange [[Text ''bad'', Text ''BTC''], [Text ''ETH'', Text ''BTC'']]) = Some (Inr (), s') \<and>
    map msg_id (queue_of (xs_bus s') ''market.raw'' ''s'') = [''BTC::binance'', ''ETH::binance''] \<and>
    st_connect_failures (xs_stream s') = 0"
proof -
  let ?c = "binance_example 0" and ?conns = "[[Text ''bad'', Text ''BTC''], [Text ''ETH'', Text ''BTC'']]"
  have keys: "frame_key ?c (Text ''bad'') = None" "frame_key ?c (Text ''BTC'') = Some ''BTC::binance''"
    "frame_key ?c (Text ''ETH'') = Some ''ETH::binance''"
    by code_simp+
  have cont: "contained ?c (Text ''bad'')" "contained ?c (Text ''BTC'')" "contained ?c (Text ''ETH'')"
    by code_simp+
  have all: "all_keys ?c ?conns = [''BTC::binance'', ''ETH::binance'', ''BTC::binance'']"
    by (simp add: all_keys_def keys)
  have ok: "\<forall>raws\<in>set ?conns. keys_of ?c raws \<noteq> [] \<and> (\<forall>raw\<in>set raws. contained ?c raw)"
    by (simp add: keys cont)
  have q: "queues (xs_bus (example_exchange ?conns)) (xe_topic ?c) ''s'' \<noteq> None"
    by (simp add: example_exchange_bus)
  have n: "3 \<le> int (length (all_keys ?c ?conns))" by (simp add: all)
  from recycled_sockets_complete [OF binance_example_sel(1) ok example_exchange_sel(1,3) q _ n]
  show ?thesis by (auto simp: all example_exchange_bus xstream_state_init_def)
qed

theorem refused_backs_off_witness:
  "\<exists>s'. exchange_run (binance_example 2) None (example_exchange []) = Some (Inl refused, s') \<and>
    sc_slept (xs_ext s') = [1, 2] \<and> st_connect_failures (xs_stream s') = 3"
proof -
  have never: "\<not> enough None 0" by (simp add: enough_def)
  from refused_backs_off [OF binance_example_sel(1) never example_exchange_sel(1,3,4), of 2 2]
  show ?thesis by (auto simp: xstream_state_init_def upt_rec)
qed

theorem unreachable_run_ends_witness:
  "\<exists>e s'. exchange_run ((binance_example 5)\<lparr>xe_ops := (script_ops (utc_datetime 0))\<lparr>xo_connect := (\<lambda>_. raiseM refused)\<rparr>\<rparr>)
      (Some 1) (example_exchange []) = Some (Inl e, s') \<and> st_reconnects (xs_stream s') \<le> 5"
proof -
  let ?env = "(binance_example 5)\<lparr>xe_ops := (script_ops (utc_datetime 0))\<lparr>xo_connect := (\<lambda>_. raiseM refused)\<rparr>\<rparr>"
  have down: "\<exists>e x'. xo_connect (xe_ops ?env) (xe_url ?env) x = (Inl e, x') \<and> closed_after e = 0" for x
    by (simp add: raiseM_def refused_def closed_after_def)
  have "\<not> enough (Some 1) 0" by (simp add: enough_def)
  from unreachable_run_ends [OF down this, of "example_exchange []"]
  show ?thesis by (auto simp: xstream_state_init_def)
qed

end
