(* ===== verification/LiveStream.thy ===== *)
theory LiveStream
  imports Resilience Ingestion
begin

text \<open>
  The live stream of the API: \<open>LiveStreamBroker\<close> of \<open>services/api/service.py\<close>, which fans bus
  messages out to the bounded queues of the connected clients, the subscribe commands of
  \<open>services/api/ws.py\<close>, and the life of a connection: its two tasks, one sending the client's
  queue over the socket and one answering its commands, as the step relation \<open>ws_step\<close>.
\<close>

section \<open>Validation\<close>

datatype api_model = MarketModel | SignalModel | AlertModel | InsightModel

definition dict_of :: "pyval \<Rightarrow> pydict" where
  "dict_of v = (case v of PDict d \<Rightarrow> d | _ \<Rightarrow> [])"

text \<open>\<open>model.model_validate(body).model_dump(mode="json")\<close>, or the detail of the validation error.\<close>

definition validate_dump :: "pylib \<Rightarrow> api_model \<Rightarrow> pyval \<Rightarrow> string + pydict" where
  "validate_dump lib model body =
     (case model of
        MarketModel \<Rightarrow> (case validate_market lib body of Inl t \<Rightarrow> Inl t | Inr e \<Rightarrow> Inr (dict_of (market_dump lib e)))
      | SignalModel \<Rightarrow> (case validate_signal lib body of Inl t \<Rightarrow> Inl t | Inr e \<Rightarrow> Inr (dict_of (signal_dump lib e)))
      | AlertModel \<Rightarrow> (case validate_alert lib body of Inl t \<Rightarrow> Inl t | Inr e \<Rightarrow> Inr (dict_of (alert_dump lib e)))
      | InsightModel \<Rightarrow> (case validate_insight lib body of Inl t \<Rightarrow> Inl t | Inr e \<Rightarrow> Inr (dict_of (insight_dump lib e))))"

definition validated_payload :: "pylib \<Rightarrow> api_model \<Rightarrow> message \<Rightarrow> pydict option" where
  "validated_payload lib model m = (case validate_dump lib model (msg_body m) of Inl _ \<Rightarrow> None | Inr d \<Rightarrow> Some d)"

definition validated_payloads :: "pylib \<Rightarrow> api_model \<Rightarrow> message list \<Rightarrow> pydict list" where
  "validated_payloads lib model ms = List.map_filter (validated_payload lib model) ms"

section \<open>The broker\<close>

definition API_WS_SUBSCRIPTION :: string where "API_WS_SUBSCRIPTION = ''api-ws''"
definition MAX_STREAM_QUEUE_SIZE :: nat where "MAX_STREAM_QUEUE_SIZE = 1000"
definition STREAM_BATCH :: int where "STREAM_BATCH = 25"

record envelope =
  en_topic :: string
  en_event :: string
  en_symbol :: string
  en_payload :: pydict

record subscriber =
  sb_symbols :: "string set"
  sb_queue :: "pydict list"

text \<open>The pumps are the running tasks, one per topic, each with its event name and model.\<close>

record broker =
  br_subscription :: string
  br_subscribers :: "(string, subscriber) dict"
  br_pumps :: "(string \<times> string \<times> api_model) list"
  br_started :: bool
  br_stopped :: bool
  br_dropped :: int

definition broker_init :: broker where
  "broker_init = \<lparr>br_subscription = API_WS_SUBSCRIPTION, br_subscribers = [], br_pumps = [], br_started = False,
     br_stopped = False, br_dropped = 0\<rparr>"

definition stream_topics :: "(string \<times> string \<times> api_model) list" where
  "stream_topics =
     [(TOPIC_MARKET_RAW, ''market'', MarketModel), (TOPIC_SIGNALS, ''signal'', SignalModel),
      (TOPIC_ALERTS, ''alert'', AlertModel), (TOPIC_INSIGHTS, ''insight'', InsightModel)]"

definition active_connections :: "broker \<Rightarrow> int" where
  "active_connections br = int (length (br_subscribers br))"

text \<open>The subscription is opened by receiving nothing from it.\<close>

definition prime :: "'b bus_ops \<Rightarrow> string \<Rightarrow> string \<Rightarrow> ('b, unit) pm" where
  "prime bus topic sub = bindM (bus_receive bus topic sub 0) (\<lambda>_. returnM ())"

definition broker_start :: "'b bus_ops \<Rightarrow> bool \<Rightarrow> ('b \<times> broker, unit) pm" where
  "broker_start bus prime_subscription = (\<lambda>(b, br).
     if br_started br then (Inr (), (b, br))
     else let br' = br\<lparr>br_started := True, br_stopped := False\<rparr> in
       case (if prime_subscription
             then for_each (\<lambda>(topic, _). prime bus topic (br_subscription br)) stream_topics b else (Inr (), b)) of
         (Inl e, b') \<Rightarrow> (Inl e, (b', br'))
       | (Inr _, b') \<Rightarrow> (Inr (), (b', br'\<lparr>br_pumps := stream_topics\<rparr>)))"

definition broker_close :: "broker \<Rightarrow> broker" where
  "broker_close br = br\<lparr>br_stopped := True, br_pumps := [], br_subscribers := [], br_started := False\<rparr>"

definition register :: "string \<Rightarrow> broker \<Rightarrow> broker" where
  "register cid br = br\<lparr>br_subscribers := dict_set (br_subscribers br) cid \<lparr>sb_symbols = {}, sb_queue = []\<rparr>\<rparr>"

definition update_symbols :: "string \<Rightarrow> string list \<Rightarrow> (broker, string list) pm" where
  "update_symbols cid symbols = (\<lambda>br.
     case map_of (br_subscribers br) cid of
       None \<Rightarrow> (Inl (ValueError ''stream connection is no longer registered''), br)
     | Some sb \<Rightarrow> (let ss = sorted_symbols symbols in
         (Inr ss, br\<lparr>br_subscribers := dict_set (br_subscribers br) cid (sb\<lparr>sb_symbols := set ss\<rparr>)\<rparr>)))"

definition unregister :: "string \<Rightarrow> broker \<Rightarrow> broker" where
  "unregister cid br = br\<lparr>br_subscribers := dict_pop (br_subscribers br) cid\<rparr>"

definition has_active_subscriptions :: "broker \<Rightarrow> bool" where
  "has_active_subscriptions br = list_ex (\<lambda>p. sb_symbols (snd p) \<noteq> {}) (br_subscribers br)"

definition build_envelope :: "pylib \<Rightarrow> string \<Rightarrow> string \<Rightarrow> api_model \<Rightarrow> message \<Rightarrow> envelope option" where
  "build_envelope lib topic event model m =
     map_option (\<lambda>payload. \<lparr>en_topic = topic, en_event = event,
         en_symbol = str_upper (py_str lib (dget payload ''symbol'')), en_payload = payload\<rparr>)
       (validated_payload lib model m)"

definition stream_message :: "envelope \<Rightarrow> pydict" where
  "stream_message en =
     [(''type'', PStr (en_event en)), (''topic'', PStr (en_topic en)), (''symbol'', PStr (en_symbol en)),
      (''payload'', PDict (en_payload en))]"

text \<open>A full queue loses its oldest message.\<close>

definition offer :: "pydict \<Rightarrow> subscriber \<Rightarrow> subscriber \<times> int" where
  "offer m sb =
     (if length (sb_queue sb) < MAX_STREAM_QUEUE_SIZE then (sb\<lparr>sb_queue := sb_queue sb @ [m]\<rparr>, 0)
      else (sb\<lparr>sb_queue := tl (sb_queue sb) @ [m]\<rparr>, 1))"

fun fanout_to :: "string \<Rightarrow> pydict \<Rightarrow> (string, subscriber) dict \<Rightarrow> (string, subscriber) dict \<times> int" where
  "fanout_to symbol m [] = ([], 0)"
| "fanout_to symbol m ((cid, sb) # sbs) =
     (case fanout_to symbol m sbs of (sbs', n) \<Rightarrow>
        if symbol \<notin> sb_symbols sb then ((cid, sb) # sbs', n)
        else case offer m sb of (sb', k) \<Rightarrow> ((cid, sb') # sbs', k + n))"

definition fanout :: "envelope \<Rightarrow> broker \<Rightarrow> broker" where
  "fanout en br =
     (case fanout_to (en_symbol en) (stream_message en) (br_subscribers br) of
        (sbs, n) \<Rightarrow> br\<lparr>br_subscribers := sbs, br_dropped := br_dropped br + n\<rparr>)"

text \<open>The state of a pump: the bus and the broker.\<close>

definition pump_message ::
  "'b bus_ops \<Rightarrow> pylib \<Rightarrow> string \<times> string \<times> api_model \<Rightarrow> message \<Rightarrow> ('b \<times> broker, unit) pm" where
  "pump_message bus lib = (\<lambda>(topic, event, model) m.
     thenM (modifyM (map_prod id (\<lambda>br. case build_envelope lib topic event model m of
                       None \<Rightarrow> br | Some en \<Rightarrow> fanout en br)))
       (zoomM fst (\<lambda>b (_, br). (b, br)) (bus_complete bus m)))"

text \<open>One turn of a topic's pump, and whether it sleeps before the next one.\<close>

definition pump_turn ::
  "'b bus_ops \<Rightarrow> pylib \<Rightarrow> string \<times> string \<times> api_model \<Rightarrow> ('b \<times> broker, bool) pm" where
  "pump_turn bus lib task = (\<lambda>s.
     if \<not> has_active_subscriptions (snd s) then (Inr True, s)
     else catchM
       (bindM (zoomM fst (\<lambda>b (_, br). (b, br)) (bus_receive bus (fst task) (br_subscription (snd s)) STREAM_BATCH)) (\<lambda>ms.
          if ms = [] then returnM True
          else thenM (for_each (pump_message bus lib task) ms) (returnM False)))
       (\<lambda>_. returnM True) s)"

text \<open>The first \<open>k\<close> turns of \<open>_pump_topic\<close>; the loop ends when the broker is stopped.\<close>

fun pump_topic :: "nat \<Rightarrow> 'b bus_ops \<Rightarrow> pylib \<Rightarrow> string \<times> string \<times> api_model \<Rightarrow> ('b \<times> broker, bool list) pm" where
  "pump_topic 0 bus lib task = returnM []"
| "pump_topic (Suc k) bus lib task = (\<lambda>s.
     if br_stopped (snd s) then (Inr [], s)
     else bindM (pump_turn bus lib task) (\<lambda>slept.
          bindM (pump_topic k bus lib task) (\<lambda>rest. returnM (slept # rest))) s)"

section \<open>Subscribe commands\<close>

definition MAX_SUBSCRIBED_SYMBOLS :: nat where "MAX_SUBSCRIBED_SYMBOLS = 50"

text \<open>
  What \<open>receive_json\<close> may give: a value, a text frame that is not JSON with the decoder's
  message, a binary frame.  The text of pydantic's error for a value is a parameter.
\<close>

datatype ws_frame = WsJson pyval | WsBadText string | WsBinary

definition receive_json :: "ws_frame \<Rightarrow> pyval result" where
  "receive_json f = (case f of WsJson v \<Rightarrow> Inr v
     | WsBadText e \<Rightarrow> Inl (ValueError e)
     | WsBinary \<Rightarrow> Inl (KeyError (CHR 0x27 # ''text'' @ [CHR 0x27])))"

record subscribe_request =
  sr_action :: string
  sr_symbols :: "string list"

definition string_item :: "pyval \<Rightarrow> string option" where
  "string_item v = (case v of PStr s \<Rightarrow> Some s | _ \<Rightarrow> None)"

definition read_request :: "pyval \<Rightarrow> subscribe_request option" where
  "read_request v =
     (case v of
        PDict d \<Rightarrow>
          (case (dget d ''action'', dget d ''symbols'') of
             (PStr a, PList vs) \<Rightarrow>
               (if length vs > MAX_SUBSCRIBED_SYMBOLS then None
                else map_option (\<lambda>ss. \<lparr>sr_action = a, sr_symbols = ss\<rparr>) (those (map string_item vs)))
           | _ \<Rightarrow> None)
      | _ \<Rightarrow> None)"

definition subscribe_request_of :: "(pyval \<Rightarrow> string) \<Rightarrow> pyval \<Rightarrow> subscribe_request result" where
  "subscribe_request_of detail v =
     (case read_request v of None \<Rightarrow> Inl (ValidationError (detail v)) | Some r \<Rightarrow> Inr r)"

definition error_frame :: "exn \<Rightarrow> pydict" where
  "error_frame e = [(''type'', PStr ''error''), (''detail'', PStr (exn_str e))]"

definition subscribed_frame :: "string list \<Rightarrow> pydict" where
  "subscribed_frame symbols = [(''type'', PStr ''subscribed''), (''symbols'', PList (map PStr symbols))]"

definition subscribe_command :: "(pyval \<Rightarrow> string) \<Rightarrow> string \<Rightarrow> ws_frame \<Rightarrow> (broker, string list) pm" where
  "subscribe_command detail cid f =
     bindM (liftR (bindR (receive_json f) (subscribe_request_of detail))) (\<lambda>r.
       if sr_action r \<noteq> ''subscribe'' then raiseM (ValueError (''action must be '' @ CHR 0x27 # ''subscribe'' @ [CHR 0x27]))
       else bindM (update_symbols cid (sr_symbols r)) (\<lambda>symbols.
              if symbols = [] then raiseM (ValueError ''symbols must contain at least one non-empty symbol'')
              else returnM symbols))"

text \<open>One frame of a client: the reply put on its queue.\<close>

definition command_error :: "exn \<Rightarrow> bool" where
  "command_error e = (case e of ValidationError _ \<Rightarrow> True | ValueError _ \<Rightarrow> True | KeyError _ \<Rightarrow> True
     | TypeError _ \<Rightarrow> True | _ \<Rightarrow> False)"

definition ws_command :: "(pyval \<Rightarrow> string) \<Rightarrow> string \<Rightarrow> ws_frame \<Rightarrow> (broker, pydict) pm" where
  "ws_command detail cid f =
     catchM (bindM (subscribe_command detail cid f) (\<lambda>symbols. returnM (subscribed_frame symbols)))
       (\<lambda>e. if command_error e then returnM (error_frame e) else raiseM e)"

section \<open>A connection\<close>

text \<open>
  The two tasks of a connection share its queue (\<open>outbound\<close>, the subscriber's queue): the command
  task reads a frame, then puts the reply when the queue has room; the other sends the oldest
  message of the queue.  The pumps fan envelopes out in between.  The log of all that was put on
  the queue, replies on the left and envelopes on the right, is kept for the specification.
\<close>

record ws_session =
  wx_broker :: broker
  wx_inbound :: "ws_frame list"
  wx_reply :: "pydict option"
  wx_sent :: "pydict list"
  wx_open :: bool
  wx_log :: "(pydict + pydict) list"

definition ws_connect :: "string \<Rightarrow> broker \<Rightarrow> ws_frame list \<Rightarrow> ws_session" where
  "ws_connect cid br inbound =
     \<lparr>wx_broker = register cid br, wx_inbound = inbound, wx_reply = None, wx_sent = [], wx_open = True, wx_log = []\<rparr>"

definition outbound :: "string \<Rightarrow> ws_session \<Rightarrow> pydict list" where
  "outbound cid w = (case map_of (br_subscribers (wx_broker w)) cid of None \<Rightarrow> [] | Some sb \<Rightarrow> sb_queue sb)"

definition with_queue :: "string \<Rightarrow> pydict list \<Rightarrow> broker \<Rightarrow> broker" where
  "with_queue cid q br = (case map_of (br_subscribers br) cid of None \<Rightarrow> br
     | Some sb \<Rightarrow> br\<lparr>br_subscribers := dict_set (br_subscribers br) cid (sb\<lparr>sb_queue := q\<rparr>)\<rparr>)"

definition follows :: "string \<Rightarrow> ws_session \<Rightarrow> string \<Rightarrow> bool" where
  "follows cid w symbol = (case map_of (br_subscribers (wx_broker w)) cid of None \<Rightarrow> False
     | Some sb \<Rightarrow> symbol \<in> sb_symbols sb)"

definition ws_leave :: "string \<Rightarrow> ws_session \<Rightarrow> ws_session" where
  "ws_leave cid w = w\<lparr>wx_broker := unregister cid (wx_broker w), wx_open := False\<rparr>"

inductive ws_step :: "(pyval \<Rightarrow> string) \<Rightarrow> string \<Rightarrow> ws_session \<Rightarrow> ws_session \<Rightarrow> bool" for detail cid where
  command: "wx_open w \<Longrightarrow> wx_reply w = None \<Longrightarrow> wx_inbound w = f # fs \<Longrightarrow>
     ws_command detail cid f (wx_broker w) = (Inr r, br) \<Longrightarrow>
     ws_step detail cid w (w\<lparr>wx_broker := br, wx_inbound := fs, wx_reply := Some r\<rparr>)"
| answer: "wx_open w \<Longrightarrow> wx_reply w = Some r \<Longrightarrow> length (outbound cid w) < MAX_STREAM_QUEUE_SIZE \<Longrightarrow>
     ws_step detail cid w (w\<lparr>wx_broker := with_queue cid (outbound cid w @ [r]) (wx_broker w), wx_reply := None,
                              wx_log := wx_log w @ [Inl r]\<rparr>)"
| stream: "ws_step detail cid w (w\<lparr>wx_broker := fanout en (wx_broker w),
     wx_log := (if follows cid w (en_symbol en) then wx_log w @ [Inr (stream_message en)] else wx_log w)\<rparr>)"
| send: "wx_open w \<Longrightarrow> outbound cid w = m # q \<Longrightarrow>
     ws_step detail cid w (w\<lparr>wx_broker := with_queue cid q (wx_broker w), wx_sent := wx_sent w @ [m]\<rparr>)"
| send_fails: "wx_open w \<Longrightarrow> outbound cid w = m # q \<Longrightarrow> ws_step detail cid w (ws_leave cid w)"
| disconnect: "wx_open w \<Longrightarrow> wx_reply w = None \<Longrightarrow> wx_inbound w = [] \<Longrightarrow> ws_step detail cid w (ws_leave cid w)"

inductive_cases ws_step_cases: "ws_step detail cid w w'"

end
