(* ===== verification/LiveStreamProps.thy ===== *)
theory LiveStreamProps
  imports LiveStream BusContract "HOL-Library.Sublist"
begin

text \<open>
  What the live stream guarantees: every connected client receives, in order, the messages of
  the symbols it subscribed to, in a queue that never outgrows its bound and keeps the newest;
  a subscribe command always gets a reply.
\<close>

section \<open>Fan-out\<close>

lemma offer_queue:
  "length (sb_queue sb) \<le> MAX_STREAM_QUEUE_SIZE \<Longrightarrow>
   fst (offer m sb) = sb\<lparr>sb_queue := deque_append MAX_STREAM_QUEUE_SIZE (sb_queue sb) m\<rparr>"
  by (cases "sb_queue sb") (auto simp: offer_def deque_append_def Let_def MAX_STREAM_QUEUE_SIZE_def not_less)

lemma fanout_to_lookup:
  "map_of (fst (fanout_to symbol m sbs)) cid =
     map_option (\<lambda>sb. if symbol \<in> sb_symbols sb then fst (offer m sb) else sb) (map_of sbs cid)"
  by (induction symbol m sbs rule: fanout_to.induct) (auto split: prod.split)

lemma fanout_to_keys: "map fst (fst (fanout_to symbol m sbs)) = map fst sbs"
  by (induction symbol m sbs rule: fanout_to.induct) (auto split: prod.split)

text \<open>What the subscribers of some symbols are offered by a list of messages.\<close>

definition offered ::
  "pylib \<Rightarrow> string \<times> string \<times> api_model \<Rightarrow> string set \<Rightarrow> message list \<Rightarrow> pydict list" where
  "offered lib = (\<lambda>(topic, event, model) S ms.
     map stream_message (filter (\<lambda>en. en_symbol en \<in> S) (List.map_filter (build_envelope lib topic event model) ms)))"

lemma offered_simps:
  "offered lib task S [] = []"
  "offered lib (topic, event, model) S (m # ms) =
     (case build_envelope lib topic event model m of
        None \<Rightarrow> [] | Some en \<Rightarrow> if en_symbol en \<in> S then [stream_message en] else [])
     @ offered lib (topic, event, model) S ms"
  by (auto simp: offered_def map_filter_simps split: option.split prod.split)

definition handled_by :: "pylib \<Rightarrow> string \<times> string \<times> api_model \<Rightarrow> message \<Rightarrow> broker \<Rightarrow> broker" where
  "handled_by lib = (\<lambda>(topic, event, model) m br.
     case build_envelope lib topic event model m of None \<Rightarrow> br | Some en \<Rightarrow> fanout en br)"

lemma fanout_subscribers [simp]:
  "br_subscribers (fanout en br) = fst (fanout_to (en_symbol en) (stream_message en) (br_subscribers br))"
  by (simp add: fanout_def split: prod.split)

lemma handled_by_client:
  assumes "map_of (br_subscribers br) cid = Some sb" "length (sb_queue sb) \<le> MAX_STREAM_QUEUE_SIZE"
  shows "map_of (br_subscribers (handled_by lib task m br)) cid =
    Some (sb\<lparr>sb_queue := deque_extend MAX_STREAM_QUEUE_SIZE (sb_queue sb) (offered lib task (sb_symbols sb) [m])\<rparr>)"
proof -
  obtain topic event model where task: "task = (topic, event, model)" by (cases task)
  show ?thesis
    using assms
    by (auto simp: task handled_by_def offered_simps fanout_to_lookup offer_queue deque_extend_def split: option.split)
qed

lemma pump_message_inmem:
  "pump_message inmem_bus_ops lib task m (b, br) = (Inr (), (snd (ib_complete m b), handled_by lib task m br))"
  by (cases task) (simp add: pump_message_def handled_by_def pm_simps ib_complete_def)

lemma deque_extend_append: "deque_extend n (deque_extend n q xs) ys = deque_extend n q (xs @ ys)"
  by (simp add: deque_extend_def)

lemma length_deque_extend: "length q \<le> n \<Longrightarrow> length (deque_extend n q xs) \<le> n"
  by (induction xs arbitrary: q) (simp_all add: deque_extend_def deque_append_def Let_def)

lemma pump_batch:
  assumes "map_of (br_subscribers br) cid = Some sb" "length (sb_queue sb) \<le> MAX_STREAM_QUEUE_SIZE"
  shows "\<exists>b' br'. for_each (pump_message inmem_bus_ops lib task) ms (b, br) = (Inr (), (b', br')) \<and>
    map_of (br_subscribers br') cid =
      Some (sb\<lparr>sb_queue := deque_extend MAX_STREAM_QUEUE_SIZE (sb_queue sb) (offered lib task (sb_symbols sb) ms)\<rparr>) \<and>
    queues b' = queues b \<and> (\<forall>r. in_flight b' r = (if r \<in> msg_ref ` set ms then None else in_flight b r))"
  using assms
proof (induction ms arbitrary: b br sb)
  case Nil
  then show ?case by (simp add: returnM_def offered_simps deque_extend_def)
next
  case (Cons m ms)
  obtain topic event model where task: "task = (topic, event, model)" by (cases task)
  let ?sb = "sb\<lparr>sb_queue := deque_extend MAX_STREAM_QUEUE_SIZE (sb_queue sb) (offered lib task (sb_symbols sb) [m])\<rparr>"
  have c: "map_of (br_subscribers (handled_by lib task m br)) cid = Some ?sb" using handled_by_client [OF Cons.prems] .
  have l: "length (sb_queue ?sb) \<le> MAX_STREAM_QUEUE_SIZE" using length_deque_extend [OF Cons.prems(2)] by simp
  from Cons.IH [OF c l, of "snd (ib_complete m b)"] obtain b' br' where
    s: "for_each (pump_message inmem_bus_ops lib task) ms (snd (ib_complete m b), handled_by lib task m br) = (Inr (), (b', br'))"
    "map_of (br_subscribers br') cid =
      Some (?sb\<lparr>sb_queue := deque_extend MAX_STREAM_QUEUE_SIZE (sb_queue ?sb) (offered lib task (sb_symbols ?sb) ms)\<rparr>)"
    "queues b' = queues (snd (ib_complete m b))"
    "\<forall>r. in_flight b' r = (if r \<in> msg_ref ` set ms then None else in_flight (snd (ib_complete m b)) r)"
    by blast
  have off: "offered lib task S (m # ms) = offered lib task S [m] @ offered lib task S ms" for S
    by (simp add: task offered_simps)
  have flight: "in_flight (snd (ib_complete m b)) r = (if r = msg_ref m then None else in_flight b r)" for r
    by (simp add: ib_complete_def)
  have qs: "queues (snd (ib_complete m b)) = queues b" by (simp add: ib_complete_def)
  have run: "for_each (pump_message inmem_bus_ops lib task) (m # ms) (b, br) = (Inr (), (b', br'))"
    using s(1) by (simp add: thenM_apply pump_message_inmem)
  have client: "map_of (br_subscribers br') cid = Some (sb\<lparr>sb_queue :=
      deque_extend MAX_STREAM_QUEUE_SIZE (sb_queue sb) (offered lib task (sb_symbols sb) (m # ms))\<rparr>)"
    using s(2) by (simp add: deque_extend_append off [of "sb_symbols sb"])
  have "in_flight b' r = (if r \<in> msg_ref ` set (m # ms) then None else in_flight b r)" for r
    using s(4) flight by (cases "r \<in> msg_ref ` set ms") simp_all
  then show ?case using run client s(3) qs by (intro exI [of _ b'] exI [of _ br']) simp
qed

text \<open>
  C31: A connected client misses nothing and is never overrun: when a topic's pump takes a batch,
  the client's queue becomes the newest thousand of what it held and of what the batch holds
  for its symbols, in the order of the topic; messages that fail validation are passed over,
  and the whole batch is completed.
\<close>

theorem live_fanout:
  assumes "has_active_subscriptions br" "queue_of b topic (br_subscription br) \<noteq> []"
    and "map_of (br_subscribers br) cid = Some sb" "length (sb_queue sb) \<le> 1000"
  shows "\<exists>b' br' sb'. pump_turn inmem_bus_ops lib (topic, event, model) (b, br) = (Inr False, (b', br')) \<and>
    queue_of b' topic (br_subscription br) = drop 25 (queue_of b topic (br_subscription br)) \<and>
    (\<forall>m\<in>set (take 25 (queue_of b topic (br_subscription br))). in_flight b' (msg_ref m) = None) \<and>
    map_of (br_subscribers br') cid = Some sb' \<and> sb_symbols sb' = sb_symbols sb \<and>
    sb_queue sb' = newest 1000 (sb_queue sb @ offered lib (topic, event, model) (sb_symbols sb)
                     (take 25 (queue_of b topic (br_subscription br))))"
proof -
  let ?sub = "br_subscription br" and ?task = "(topic, event, model)"
  let ?ms = "take 25 (queue_of b topic ?sub)"
  obtain b1 where rec: "ib_receive topic ?sub 25 b = (Inr ?ms, b1)"
    and q1: "queue_of b1 topic ?sub = drop 25 (queue_of b topic ?sub)"
    by (simp add: ib_receive_def Let_def)
  have len: "length (sb_queue sb) \<le> MAX_STREAM_QUEUE_SIZE" using assms(4) by (simp add: MAX_STREAM_QUEUE_SIZE_def)
  from pump_batch [OF assms(3) len, of lib ?task ?ms b1] obtain b' br' where
    s: "for_each (pump_message inmem_bus_ops lib ?task) ?ms (b1, br) = (Inr (), (b', br'))"
    "map_of (br_subscribers br') cid =
      Some (sb\<lparr>sb_queue := deque_extend MAX_STREAM_QUEUE_SIZE (sb_queue sb) (offered lib ?task (sb_symbols sb) ?ms)\<rparr>)"
    "queues b' = queues b1" "\<forall>r. in_flight b' r = (if r \<in> msg_ref ` set ?ms then None else in_flight b1 r)"
    by blast
  have ne: "?ms \<noteq> []" using assms(2) by simp
  have "pump_turn inmem_bus_ops lib ?task (b, br) = (Inr False, (b', br'))"
    using assms(1) rec s(1) ne by (simp add: pump_turn_def pm_simps STREAM_BATCH_def)
  moreover have "deque_extend 1000 (sb_queue sb) xs = newest 1000 (sb_queue sb @ xs)" for xs
    using newest_append [of 1000 "sb_queue sb" xs] assms(4) by (simp add: newest_def)
  moreover have "queue_of b' topic ?sub = drop 25 (queue_of b topic ?sub)"
    using q1 s(3) by (simp add: queue_of_def)
  ultimately show ?thesis
    using s(2,4) by (intro exI [of _ b'] exI [of _ br']) (simp add: MAX_STREAM_QUEUE_SIZE_def)
qed

section \<open>Subscribe commands\<close>

lemma ws_command_total: "\<exists>reply. fst (ws_command detail cid f br) = Inr reply"
proof -
  have err: "command_error e" if "fst (subscribe_command detail cid f br) = Inl e" for e
    using that
    by (auto simp: subscribe_command_def bindM_apply liftR_apply raiseM_def returnM_def receive_json_def
        subscribe_request_of_def command_error_def bindR_def update_symbols_def Let_def
        split: sum.splits ws_frame.splits option.splits if_splits)
  show ?thesis
    using err by (cases "subscribe_command detail cid f br") (auto simp: ws_command_def pm_simps split: sum.split)
qed

text \<open>
  A subscribe command with some symbol replaces the client's subscription by the sorted set of
  its normalized symbols and is answered with it, so that a second identical command is
  answered the same and changes nothing; any other frame, valid JSON or not, is answered with
  an error frame and never ends the loop.
\<close>

theorem subscribe_replies:
  assumes "map_of (br_subscribers br) cid = Some sb" "length symbols \<le> 50"
    and "sorted_symbols symbols \<noteq> []"
    and "f = WsJson (PDict [(''action'', PStr ''subscribe''), (''symbols'', PList (map PStr symbols))])"
  shows "\<exists>br'. ws_command detail cid f br = (Inr (subscribed_frame (sorted_symbols symbols)), br') \<and>
    map_of (br_subscribers br') cid = Some (sb\<lparr>sb_symbols := set (sorted_symbols symbols)\<rparr>) \<and>
    (\<forall>other. other \<noteq> cid \<longrightarrow> map_of (br_subscribers br') other = map_of (br_subscribers br) other) \<and>
    (\<forall>g. \<exists>reply. fst (ws_command detail cid g br') = Inr reply)"
proof -
  have items: "those (map (\<lambda>s. string_item (PStr s)) symbols) = Some symbols"
    by (induction symbols) (simp_all add: string_item_def)
  show ?thesis
    using assms ws_command_total [of detail cid]
    by (simp add: ws_command_def subscribe_command_def receive_json_def subscribe_request_of_def read_request_def comp_def items
        MAX_SUBSCRIBED_SYMBOLS_def update_symbols_def Let_def pm_simps liftR_apply)
qed

text \<open>An error reply may have changed the subscription: blank symbols clear it first.\<close>

lemma blank_symbols_unsubscribe:
  assumes "map_of (br_subscribers br) cid = Some sb"
  shows "\<exists>br'. ws_command detail cid (WsJson (PDict [(''action'', PStr ''subscribe''), (''symbols'', PList [PStr '' ''])])) br =
      (Inr (error_frame (ValueError ''symbols must contain at least one non-empty symbol'')), br') \<and>
    map_of (br_subscribers br') cid = Some (sb\<lparr>sb_symbols := {}\<rparr>)"
proof -
  have "sorted_symbols ['' ''] = []" by code_simp
  then show ?thesis
    using assms
    by (simp add: ws_command_def subscribe_command_def receive_json_def subscribe_request_of_def read_request_def command_error_def string_item_def
        MAX_SUBSCRIBED_SYMBOLS_def update_symbols_def Let_def pm_simps liftR_apply)
qed

section \<open>A connection\<close>

text \<open>The reply to a frame does not depend on the state of a registered client.\<close>

definition reply_to :: "(pyval \<Rightarrow> string) \<Rightarrow> ws_frame \<Rightarrow> pydict" where
  "reply_to detail f =
     (case bindR (receive_json f) (subscribe_request_of detail) of
        Inl e \<Rightarrow> error_frame e
      | Inr r \<Rightarrow>
          if sr_action r \<noteq> ''subscribe'' then error_frame (ValueError (''action must be '' @ CHR 0x27 # ''subscribe'' @ [CHR 0x27]))
          else if sorted_symbols (sr_symbols r) = []
          then error_frame (ValueError ''symbols must contain at least one non-empty symbol'')
          else subscribed_frame (sorted_symbols (sr_symbols r)))"

lemma command_reply:
  assumes "map_of (br_subscribers br) cid = Some sb"
  shows "\<exists>br' ss. ws_command detail cid f br = (Inr (reply_to detail f), br') \<and>
    map_of (br_subscribers br') cid = Some (sb\<lparr>sb_symbols := ss\<rparr>)"
proof (cases "bindR (receive_json f) (subscribe_request_of detail)")
  case (Inl e)
  then have "command_error e"
    by (auto simp: bindR_def receive_json_def subscribe_request_of_def command_error_def
        split: sum.splits ws_frame.splits option.splits)
  moreover have "sb = sb\<lparr>sb_symbols := sb_symbols sb\<rparr>" by simp
  ultimately show ?thesis using Inl assms
    by (intro exI [of _ br] exI [of _ "sb_symbols sb"])
       (simp add: ws_command_def subscribe_command_def reply_to_def pm_simps liftR_apply)
next
  case (Inr r)
  let ?ss = "sorted_symbols (sr_symbols r)"
  let ?br = "br\<lparr>br_subscribers := dict_set (br_subscribers br) cid (sb\<lparr>sb_symbols := set ?ss\<rparr>)\<rparr>"
  have keep: "sb = sb\<lparr>sb_symbols := sb_symbols sb\<rparr>" by simp
  show ?thesis
  proof (cases "sr_action r = ''subscribe''")
    case True
    then show ?thesis using Inr assms
      by (intro exI [of _ ?br] exI [of _ "set ?ss"])
         (simp add: ws_command_def subscribe_command_def reply_to_def pm_simps liftR_apply update_symbols_def Let_def
           command_error_def)
  next
    case False
    then show ?thesis using Inr assms keep
      by (intro exI [of _ br] exI [of _ "sb_symbols sb"])
         (simp add: ws_command_def subscribe_command_def reply_to_def pm_simps liftR_apply command_error_def)
  qed
qed

definition payload_of :: "pydict + pydict \<Rightarrow> pydict" where
  "payload_of = case_sum id id"

definition pending :: "ws_session \<Rightarrow> pydict list" where
  "pending w = (case wx_reply w of None \<Rightarrow> [] | Some r \<Rightarrow> [r])"

text \<open>
  The invariant of a connection that started with the given frames: the queue is bounded, what
  was sent and what is queued is a part, in order, of what was put on the queue, and the
  replies are those of the frames read, in order.
\<close>

definition replies_of :: "(pydict + pydict) list \<Rightarrow> pydict list" where
  "replies_of entries = concat (map (case_sum (\<lambda>r. [r]) (\<lambda>_. [])) entries)"

definition ws_inv :: "(pyval \<Rightarrow> string) \<Rightarrow> string \<Rightarrow> ws_frame list \<Rightarrow> ws_session \<Rightarrow> bool" where
  "ws_inv detail cid frames w \<longleftrightarrow>
     (wx_open w = (map_of (br_subscribers (wx_broker w)) cid \<noteq> None)) \<and>
     length (outbound cid w) \<le> MAX_STREAM_QUEUE_SIZE \<and>
     subseq (wx_sent w @ outbound cid w) (map payload_of (wx_log w)) \<and>
     (\<exists>read. frames = read @ wx_inbound w \<and> replies_of (wx_log w) @ pending w = map (reply_to detail) read)"

lemma ws_inv_start: "ws_inv detail cid frames (ws_connect cid br frames)"
  by (simp add: ws_inv_def ws_connect_def register_def outbound_def pending_def replies_of_def)

lemma outbound_Some: "map_of (br_subscribers (wx_broker w)) cid = Some sb \<Longrightarrow> outbound cid w = sb_queue sb"
  by (simp add: outbound_def)

lemma with_queue_lookup:
  "map_of (br_subscribers br) cid = Some sb \<Longrightarrow> map_of (br_subscribers (with_queue cid q br)) cid = Some (sb\<lparr>sb_queue := q\<rparr>)"
  by (simp add: with_queue_def)

lemma subseq_deque:
  assumes "subseq (xs @ q) ys"
  shows "subseq (xs @ deque_append n q m) (ys @ [m])"
proof -
  have "subseq (xs @ q @ [m]) (ys @ [m])" using assms by (simp flip: append_assoc)
  moreover have "subseq (drop (length (q @ [m]) - n) (q @ [m])) (q @ [m])" by (metis append_take_drop_id list_emb_append2 subseq_order.refl)
  ultimately show ?thesis
    unfolding deque_append_def Let_def by (meson subseq_append' subseq_order.trans)
qed

lemma ws_inv_leave: "ws_inv detail cid frames w \<Longrightarrow> ws_inv detail cid frames (ws_leave cid w)"
  by (auto simp: ws_inv_def ws_leave_def unregister_def outbound_def pending_def intro: subseq_order.trans [OF list_emb_prefix])

lemma ws_inv_step: "ws_step detail cid w w' \<Longrightarrow> ws_inv detail cid frames w \<Longrightarrow> ws_inv detail cid frames w'"
proof (induction rule: ws_step.induct)
  case (command w f fs r br)
  then obtain sb where sb: "map_of (br_subscribers (wx_broker w)) cid = Some sb" by (auto simp: ws_inv_def)
  from command_reply [OF sb, of detail f] command(4) obtain ss where
    "r = reply_to detail f" "map_of (br_subscribers br) cid = Some (sb\<lparr>sb_symbols := ss\<rparr>)" by auto
  then show ?case using command(1-3,5) sb by (auto simp: ws_inv_def outbound_def pending_def)
next
  case (answer w r)
  then obtain sb where sb: "map_of (br_subscribers (wx_broker w)) cid = Some sb" by (auto simp: ws_inv_def)
  then show ?case using answer
    by (auto simp: ws_inv_def outbound_def with_queue_def pending_def replies_of_def payload_of_def simp flip: append_assoc)
next
  case (stream w en)
  show ?case
  proof (cases "map_of (br_subscribers (wx_broker w)) cid")
    case None
    then show ?thesis using stream by (simp add: ws_inv_def outbound_def fanout_to_lookup follows_def pending_def)
  next
    case (Some sb)
    show ?thesis
    proof (cases "en_symbol en \<in> sb_symbols sb")
      case True
      have "length (sb_queue sb) \<le> MAX_STREAM_QUEUE_SIZE" using stream Some by (simp add: ws_inv_def outbound_def)
      note off = offer_queue [OF this, of "stream_message en"]
      have "length (deque_append MAX_STREAM_QUEUE_SIZE (sb_queue sb) (stream_message en)) \<le> MAX_STREAM_QUEUE_SIZE"
        by (simp add: deque_append_def Let_def)
      then show ?thesis using stream Some True
        by (auto simp: ws_inv_def outbound_def fanout_to_lookup follows_def pending_def off replies_of_def payload_of_def
            intro: subseq_deque)
    next
      case False
      then show ?thesis using stream Some by (simp add: ws_inv_def outbound_def fanout_to_lookup follows_def pending_def)
    qed
  qed
next
  case (send w m q)
  then obtain sb where sb: "map_of (br_subscribers (wx_broker w)) cid = Some sb" by (auto simp: ws_inv_def)
  then show ?case using send by (auto simp: ws_inv_def outbound_def with_queue_def pending_def)
qed (simp_all add: ws_inv_leave)

text \<open>
  C30: A connection is served in order under every interleaving of its two tasks with the pumps: its
  queue never holds more than a thousand messages; what has been sent, followed by what is
  queued, is a part in order of the replies and envelopes put on the queue; the replies are
  exactly those of the frames read, in their order, one still waiting for room at most; and
  once the connection is closed the client is no longer registered.
\<close>

theorem connection_in_order:
  assumes "(ws_step detail cid)\<^sup>*\<^sup>* (ws_connect cid br frames) w"
  shows "length (outbound cid w) \<le> 1000 \<and> subseq (wx_sent w @ outbound cid w) (map payload_of (wx_log w)) \<and>
    (\<exists>read. frames = read @ wx_inbound w \<and> replies_of (wx_log w) @ pending w = map (reply_to detail) read) \<and>
    (wx_open w \<or> map_of (br_subscribers (wx_broker w)) cid = None)"
proof -
  have "ws_inv detail cid frames w"
    using assms by (induction rule: rtranclp_induct) (auto intro: ws_inv_start ws_inv_step)
  then show ?thesis by (auto simp: ws_inv_def MAX_STREAM_QUEUE_SIZE_def)
qed

section \<open>Witnesses\<close>

definition tick_event :: market_event where
  "tick_event = market_event_of ''e1'' (utc_datetime 0) ''btcusdt'' ''binance'' ''trade'' 5 None None None"

definition tick_lib :: pylib where
  "tick_lib = null_lib\<lparr>validate_market := (\<lambda>v. if v = PInt 1 then Inr tick_event else Inl ''bad'')\<rparr>"

definition stream_bus :: inmem_bus where
  "stream_bus = snd (ib_publish ''market.raw'' (PInt 0) (Some ''b'') None
     (snd (ib_publish ''market.raw'' (PInt 1) (Some ''a'') None
       (snd (ib_peek ''market.raw'' ''api-ws'' 0 None (inmem_bus_init (\<lambda>_. ''id'')))))))"

definition btc_broker :: broker where
  "btc_broker = snd (update_symbols ''c'' [''btcusdt ''] (register ''c'' broker_init))"

lemma stream_bus_queue:
  "queue_of stream_bus ''market.raw'' ''api-ws'' =
     [\<lparr>msg_topic = ''market.raw'', msg_sub = ''api-ws'', msg_body = PInt 1, msg_id = ''a'', msg_corr = None, msg_seq = Some 1, msg_dlq = False\<rparr>,
      \<lparr>msg_topic = ''market.raw'', msg_sub = ''api-ws'', msg_body = PInt 0, msg_id = ''b'', msg_corr = None, msg_seq = Some 2, msg_dlq = False\<rparr>]"
  by (simp add: stream_bus_def ib_defs inmem_bus_init_def queue_of_def set_queue_def pick_message_id_def Let_def)

lemma btc_broker_sel:
  "br_subscribers btc_broker = [(''c'', \<lparr>sb_symbols = {''BTCUSDT''}, sb_queue = []\<rparr>)]"
  "br_subscription btc_broker = ''api-ws''"
proof -
  have "sorted_symbols [''btcusdt ''] = [''BTCUSDT'']" by code_simp
  then show "br_subscribers btc_broker = [(''c'', \<lparr>sb_symbols = {''BTCUSDT''}, sb_queue = []\<rparr>)]"
    "br_subscription btc_broker = ''api-ws''"
    by (simp_all add: btc_broker_def register_def update_symbols_def broker_init_def API_WS_SUBSCRIPTION_def Let_def)
qed

theorem live_fanout_witness:
  "\<exists>s' sb'. pump_turn inmem_bus_ops tick_lib (''market.raw'', ''market'', MarketModel) (stream_bus, btc_broker) = (Inr False, s') \<and>
    map_of (br_subscribers (snd s')) ''c'' = Some sb' \<and> length (sb_queue sb') = 1"
proof -
  have act: "has_active_subscriptions btc_broker" by (simp add: has_active_subscriptions_def btc_broker_sel)
  have q: "queue_of stream_bus ''market.raw'' (br_subscription btc_broker) \<noteq> []"
    by (simp add: btc_broker_sel stream_bus_queue)
  have m: "map_of (br_subscribers btc_broker) ''c'' = Some \<lparr>sb_symbols = {''BTCUSDT''}, sb_queue = []\<rparr>"
    by (simp add: btc_broker_sel)
  have upper: "str_upper ''btcusdt'' = ''BTCUSDT''" by code_simp
  have off: "length (offered tick_lib (''market.raw'', ''market'', MarketModel) {''BTCUSDT''}
      (take 25 (queue_of stream_bus ''market.raw'' ''api-ws''))) = 1"
    by (simp add: stream_bus_queue offered_simps build_envelope_def validated_payload_def validate_dump_def tick_lib_def
        market_dump_def dict_of_def tick_event_def market_event_of_def base_dump_def upper)
  from live_fanout [OF act q m, of tick_lib "''market''" MarketModel] off
  show ?thesis by (fastforce simp: btc_broker_sel length_newest)
qed

theorem subscribe_replies_witness:
  "\<exists>br'. ws_command (\<lambda>_. ''invalid'') ''c'' (WsJson (PDict [(''action'', PStr ''subscribe''), (''symbols'', PList [PStr ''eth'', PStr '' btc ''])])) btc_broker
      = (Inr (subscribed_frame [''BTC'', ''ETH'']), br')"
proof -
  have ss: "sorted_symbols [''eth'', '' btc ''] = [''BTC'', ''ETH'']" by code_simp
  have m: "map_of (br_subscribers btc_broker) ''c'' = Some \<lparr>sb_symbols = {''BTCUSDT''}, sb_queue = []\<rparr>"
    by (simp add: btc_broker_sel)
  have two: "length [''eth'', '' btc ''] \<le> 50" by simp
  have ne: "sorted_symbols [''eth'', '' btc ''] \<noteq> []" by (simp add: ss)
  from subscribe_replies [OF m two ne refl, of "\<lambda>_. ''invalid''"] show ?thesis by (auto simp: ss)
qed

theorem connection_in_order_witness:
  "\<exists>w. (ws_step (\<lambda>_. ''invalid'') ''c'')\<^sup>*\<^sup>* (ws_connect ''c'' broker_init [WsBadText ''no json'']) w \<and>
     wx_sent w = [error_frame (ValueError ''no json'')] \<and> length (outbound ''c'' w) \<le> 1000"
proof -
  let ?step = "ws_step (\<lambda>_. ''invalid'') ''c''" and ?e = "error_frame (ValueError ''no json'')"
  let ?w0 = "ws_connect ''c'' broker_init [WsBadText ''no json'']"
  let ?w1 = "?w0\<lparr>wx_broker := wx_broker ?w0, wx_inbound := [], wx_reply := Some ?e\<rparr>"
  let ?w2 = "?w1\<lparr>wx_broker := with_queue ''c'' (outbound ''c'' ?w1 @ [?e]) (wx_broker ?w1), wx_reply := None,
               wx_log := wx_log ?w1 @ [Inl ?e]\<rparr>"
  let ?w3 = "?w2\<lparr>wx_broker := with_queue ''c'' [] (wx_broker ?w2), wx_sent := wx_sent ?w2 @ [?e]\<rparr>"
  have out: "outbound ''c'' ?w1 = []" "outbound ''c'' ?w2 = ?e # []"
    by (simp_all add: outbound_def ws_connect_def register_def broker_init_def with_queue_def)
  have cmd: "ws_command (\<lambda>_. ''invalid'') ''c'' (WsBadText ''no json'') br = (Inr ?e, br)" for br
    by (simp add: ws_command_def subscribe_command_def receive_json_def bindM_apply liftR_apply catchM_apply returnM_def
        command_error_def)
  have "?step ?w0 ?w1" by (rule ws_step.command [OF _ _ _ cmd]) (simp_all add: ws_connect_def)
  moreover have "?step ?w1 ?w2"
    by (rule ws_step.answer) (simp_all only: out, simp_all add: ws_connect_def MAX_STREAM_QUEUE_SIZE_def)
  moreover have "?step ?w2 ?w3" by (rule ws_step.send [OF _ out(2)]) (simp add: ws_connect_def)
  ultimately have run: "?step\<^sup>*\<^sup>* ?w0 ?w3" by (meson rtranclp.rtrancl_into_rtrancl rtranclp.rtrancl_refl)
  moreover have "wx_sent ?w3 = [?e]" by (simp add: ws_connect_def)
  moreover have "length (outbound ''c'' ?w3) \<le> 1000" using connection_in_order [OF run] by (elim conjE)
  ultimately show ?thesis by blast
qed

end
