(* ===== verification/ApiService.thy ===== *)
theory ApiService
  imports LiveStream Cache TimeSeries
begin

text \<open>
  The API: \<open>APIService\<close> of \<open>services/api/service.py\<close> (symbols, latest market data, history,
  indicators, the incremental read model over the peeked topics, insights, metrics) and the
  routes of \<open>services/api/routes\<close> with their validation of symbols and limits.  Parsing of
  ISO timestamps is a parameter; requests are handled one at a time.
\<close>

section \<open>Constants and state\<close>

definition API_SUBSCRIPTION :: string where "API_SUBSCRIPTION = ''api''"
definition BUS_PEEK_WINDOW :: int where "BUS_PEEK_WINDOW = 1000"
definition RECENT_WINDOW :: nat where "RECENT_WINDOW = 500"
definition PEEK_CHUNK :: int where "PEEK_CHUNK = 100"
definition MAX_PEEK_CHUNKS_PER_REQUEST :: nat where "MAX_PEEK_CHUNKS_PER_REQUEST = 20"

record api_metrics = worker_metrics +
  xm_requests_total :: int
  xm_symbols_requests :: int
  xm_latest_requests :: int
  xm_history_requests :: int
  xm_indicators_requests :: int
  xm_signals_requests :: int
  xm_alerts_requests :: int
  xm_insights_requests :: int

record ('t, 'c, 'b) api_env =
  ae_store :: "'t ts_ops"
  ae_cache :: "'c cache_ops"
  ae_bus :: "'b bus_ops"
  ae_lib :: pylib
  ae_iso :: "string \<Rightarrow> datetime option"
  ae_signal_topic :: string
  ae_alert_topic :: string
  ae_insight_topic :: string
  ae_subscription :: string
  ae_store_class :: string
  ae_cache_class :: string
  ae_bus_class :: string

record ('t, 'c, 'b) api_state =
  ap_store :: 't
  ap_cache :: 'c
  ap_bus :: 'b
  ap_broker :: broker
  ap_metrics :: api_metrics
  ap_recent :: "string \<Rightarrow> pydict list"
  ap_cursor :: "string \<Rightarrow> int option"

definition ap_on_store :: "('t, 'x) pm \<Rightarrow> (('t, 'c, 'b) api_state, 'x) pm" where
  "ap_on_store = zoomM ap_store (\<lambda>t s. s\<lparr>ap_store := t\<rparr>)"

definition ap_on_cache :: "('c, 'x) pm \<Rightarrow> (('t, 'c, 'b) api_state, 'x) pm" where
  "ap_on_cache = zoomM ap_cache (\<lambda>c s. s\<lparr>ap_cache := c\<rparr>)"

definition ap_on_bus :: "('b, 'x) pm \<Rightarrow> (('t, 'c, 'b) api_state, 'x) pm" where
  "ap_on_bus = zoomM ap_bus (\<lambda>b s. s\<lparr>ap_bus := b\<rparr>)"

text \<open>A counter and the total of requests go up together.\<close>

definition ap_count :: "(api_metrics \<Rightarrow> api_metrics) \<Rightarrow> (('t, 'c, 'b) api_state, unit) pm" where
  "ap_count f = modifyM (\<lambda>s. s\<lparr>ap_metrics := (f (ap_metrics s))\<lparr>xm_requests_total := xm_requests_total (ap_metrics s) + 1\<rparr>\<rparr>)"

section \<open>Backends, metrics, health\<close>

definition remove_suffix :: "string \<Rightarrow> string \<Rightarrow> string" where
  "remove_suffix suf s = (if ends_with suf s \<and> suf \<noteq> [] then take (length s - length suf) s else s)"

definition backend_name :: "string \<Rightarrow> string" where
  "backend_name class_name = str_lower (remove_suffix ''Store'' (remove_suffix ''Client'' class_name))"

definition backend_line :: "string \<Rightarrow> string \<Rightarrow> string" where
  "backend_line kind backend = ''api_backend_info{kind='' @ CHR 0x22 # kind @ CHR 0x22 # '',backend='' @ CHR 0x22 # backend
     @ CHR 0x22 # ''} 1''"

definition api_render :: "('t, 'c, 'b) api_env \<Rightarrow> api_metrics \<Rightarrow> string" where
  "api_render env m = str_join [CHR 0x0A]
     (render_counters ''api''
        [(''requests_total'', int_str (xm_requests_total m)), (''symbols_requests'', int_str (xm_symbols_requests m)),
         (''market_latest_requests'', int_str (xm_latest_requests m)),
         (''market_history_requests'', int_str (xm_history_requests m)),
         (''indicators_requests'', int_str (xm_indicators_requests m)),
         (''signals_requests'', int_str (xm_signals_requests m)), (''alerts_requests'', int_str (xm_alerts_requests m)),
         (''insights_requests'', int_str (xm_insights_requests m))]
      @ [''# TYPE api_structured_logging_json gauge'', ''api_structured_logging_json 1'', ''# TYPE api_backend_info gauge'',
         backend_line ''timeseries'' (backend_name (ae_store_class env)),
         backend_line ''cache'' (backend_name (ae_cache_class env)), backend_line ''bus'' (backend_name (ae_bus_class env))]
      @ render_http ''api'' (http m)) @ [CHR 0x0A]"

definition api_health :: "('t, 'c, 'b) api_env \<Rightarrow> pydict" where
  "api_health env =
     [(''status'', PStr ''ok''), (''service'', PStr ''api''), (''subscription'', PStr (ae_subscription env)),
      (''backends'', PDict [(''timeseries'', PStr (backend_name (ae_store_class env))),
         (''cache'', PStr (backend_name (ae_cache_class env))), (''bus'', PStr (backend_name (ae_bus_class env)))]),
      (''structured_logging'', PStr ''json'')]"

definition on_inmemory_bus :: "('t, 'c, 'b) api_env \<Rightarrow> bool" where
  "on_inmemory_bus env \<longleftrightarrow> backend_name (ae_bus_class env) = ''inmemorybus''"

definition prime_subscriptions :: "('t, 'c, 'b) api_env \<Rightarrow> (('t, 'c, 'b) api_state, unit) pm" where
  "prime_subscriptions env =
     thenM (if on_inmemory_bus env
            then for_each (\<lambda>t. ap_on_bus (prime (ae_bus env) t (ae_subscription env)))
                   [ae_signal_topic env, ae_alert_topic env, ae_insight_topic env]
            else returnM ())
       (zoomM (\<lambda>s. (ap_bus s, ap_broker s)) (\<lambda>(b, br) s. s\<lparr>ap_bus := b, ap_broker := br\<rparr>)
          (broker_start (ae_bus env) (on_inmemory_bus env)))"

definition api_close ::
  "(('t, 'c, 'b) api_state, unit) pm option \<Rightarrow> (('t, 'c, 'b) api_state, unit) pm option \<Rightarrow>
   (('t, 'c, 'b) api_state, unit) pm option \<Rightarrow> (('t, 'c, 'b) api_state, unit) pm" where
  "api_close sc cc bc =
     thenM (modifyM (\<lambda>s. s\<lparr>ap_broker := broker_close (ap_broker s)\<rparr>)) (close_backends [sc, cc, bc])"

section \<open>Timestamps of rows\<close>

definition api_parse_ts :: "(string \<Rightarrow> datetime option) \<Rightarrow> pyval \<Rightarrow> datetime option result" where
  "api_parse_ts fromiso v =
     (case v of
        PTime d \<Rightarrow> Inr (Some d)
      | PStr s \<Rightarrow> Inr (fromiso (with_offset s))
      | _ \<Rightarrow> (case as_number v of None \<Rightarrow> Inr None | Some x \<Rightarrow> bindR (from_timestamp x) (\<lambda>d. Inr (Some d))))"

text \<open>The naive datetime of the same instant.\<close>

definition normalise_datetime :: "datetime \<Rightarrow> datetime" where
  "normalise_datetime d = (case dt_offset d of None \<Rightarrow> d | Some off \<Rightarrow> \<lparr>dt_local = dt_local d - off, dt_offset = None\<rparr>)"

definition within_range :: "datetime \<Rightarrow> datetime \<Rightarrow> datetime \<Rightarrow> bool" where
  "within_range frm until t \<longleftrightarrow>
     dt_local (normalise_datetime frm) \<le> dt_local (normalise_datetime t) \<and>
     dt_local (normalise_datetime t) \<le> dt_local (normalise_datetime until)"

definition row_timestamp :: "pydict \<Rightarrow> pyval" where
  "row_timestamp row = (if dget row ''ts'' \<noteq> PNone then dget row ''ts'' else dget row ''__time'')"

definition either_timestamp :: "pydict \<Rightarrow> pyval" where
  "either_timestamp row = py_or (dget row ''ts'') (dget row ''__time'')"

definition ts_sort_key :: "(string \<Rightarrow> datetime option) \<Rightarrow> pydict \<Rightarrow> int result" where
  "ts_sort_key fromiso row = bindR (api_parse_ts fromiso (row_timestamp row)) (\<lambda>t.
     Inr (case t of None \<Rightarrow> 0 | Some d \<Rightarrow> dt_local (normalise_datetime d)))"

definition normalise_row :: "pylib \<Rightarrow> pydict \<Rightarrow> pydict" where
  "normalise_row lib row =
     (let t = (case row_timestamp row of PTime d \<Rightarrow> PStr (isoformat lib d) | v \<Rightarrow> v) in
      if t = PNone then row else dict_set row ''ts'' t)"

definition normalise_optional_row :: "pylib \<Rightarrow> pydict option \<Rightarrow> pydict option" where
  "normalise_optional_row lib row = map_option (normalise_row lib) row"

section \<open>Symbols\<close>

text \<open>The text of a query that the source writes in a triple-quoted string, indented.\<close>

definition sql_block :: "nat \<Rightarrow> string list \<Rightarrow> string" where
  "sql_block indent lines =
     concat (map (\<lambda>l. CHR 0x0A # replicate indent (CHR 0x20) @ l) lines) @ CHR 0x0A # replicate indent (CHR 0x20)"

definition sq :: "string \<Rightarrow> string" where "sq s = CHR 0x27 # s @ [CHR 0x27]"

definition candidate_tables :: "string list" where "candidate_tables = [''ticks'', ''indicators'']"

definition tables_sql :: string where
  "tables_sql = sql_block 12
     [''SELECT '' @ dq ''TABLE_NAME'', ''FROM INFORMATION_SCHEMA.TABLES'',
      ''WHERE '' @ dq ''TABLE_SCHEMA'' @ '' = '' @ sq ''druid'',
      ''  AND '' @ dq ''TABLE_NAME'' @ '' IN ('' @ sq ''ticks'' @ '', '' @ sq ''indicators'' @ '')'']"

definition symbols_sql :: "string \<Rightarrow> string" where
  "symbols_sql table = sql_block 20
     [''SELECT DISTINCT '' @ dq ''symbol'' @ '' AS '' @ dq ''symbol'', ''FROM '' @ dq table,
      ''WHERE '' @ dq ''symbol'' @ '' IS NOT NULL'']"

definition row_texts :: "pylib \<Rightarrow> string \<Rightarrow> pydict list \<Rightarrow> string list" where
  "row_texts lib k rows = map (\<lambda>r. py_str lib (dget r k)) (filter (\<lambda>r. truthy (dget r k)) rows)"

primrec gather :: "('s, 'a list) pm list \<Rightarrow> ('s, 'a list) pm" where
  "gather [] = returnM []"
| "gather (m # ms) = bindM m (\<lambda>xs. bindM (gather ms) (\<lambda>ys. returnM (xs @ ys)))"

definition list_symbols :: "('t, 'c, 'b) api_env \<Rightarrow> (('t, 'c, 'b) api_state, string list) pm" where
  "list_symbols env =
     thenM (ap_count (\<lambda>m. m\<lparr>xm_symbols_requests := xm_symbols_requests m + 1\<rparr>))
     (bindM (ap_on_store (ts_query_sql (ae_store env) tables_sql)) (\<lambda>table_list.
      bindM (gather (map (\<lambda>t. ap_on_store (ts_query_sql (ae_store env) (symbols_sql t)))
               (filter (\<lambda>t. t \<in> set (row_texts (ae_lib env) ''TABLE_NAME'' table_list)) candidate_tables))) (\<lambda>rows.
      bindM (ap_on_cache (cache_list_snapshot_symbols (ae_cache env))) (\<lambda>snaps.
        returnM (sort (remdups (row_texts (ae_lib env) ''symbol'' rows @ snaps)))))))"

section \<open>Market data\<close>

text \<open>\<open>snapshot.get(k)\<close> for the keys of a reply; a snapshot that is not an object has no \<open>get\<close>.\<close>

definition snapshot_dict :: "pyval \<Rightarrow> pydict result" where
  "snapshot_dict v = (case v of PDict d \<Rightarrow> Inr d | _ \<Rightarrow> Inl (AttributeError ''object has no attribute get''))"

definition latest_reply :: "string \<Rightarrow> pydict \<Rightarrow> pydict" where
  "latest_reply symbol snap = (''symbol'', PStr symbol) #
     map (\<lambda>k. (k, dget snap k)) [''ts'', ''source'', ''event_type'', ''price'', ''volume'', ''bid'', ''ask'']"

definition latest_market ::
  "('t, 'c, 'b) api_env \<Rightarrow> string \<Rightarrow> (('t, 'c, 'b) api_state, pydict option) pm" where
  "latest_market env symbol =
     thenM (ap_count (\<lambda>m. m\<lparr>xm_latest_requests := xm_latest_requests m + 1\<rparr>))
     (bindM (ap_on_cache (cache_get_snapshot (ae_cache env) symbol)) (\<lambda>snap.
        if snap \<noteq> PNone
        then bindM (liftR (snapshot_dict snap)) (\<lambda>d. returnM (Some (normalise_row (ae_lib env) (latest_reply symbol d))))
        else bindM (ap_on_store (ts_latest (ae_store env) symbol)) (\<lambda>row.
               returnM (normalise_optional_row (ae_lib env) row))))"

definition indicators_reply :: "string \<Rightarrow> pydict \<Rightarrow> pydict" where
  "indicators_reply symbol d =
     [(''symbol'', PStr symbol), (''ts'', dget d ''ts''), (''source'', dget d ''source''), (''price'', dget d ''price''),
      (''anomaly'', dget d ''anomaly''),
      (''indicators'', PDict [(''sma'', dget d ''sma''), (''ema'', dget d ''ema''), (''rsi'', dget d ''rsi''),
         (''volatility'', dget d ''volatility''), (''trend'', dget d ''trend_score'')]),
      (''flags'', PDict [(''trend'', dget d ''trend''), (''zscore_anomaly'', dget d ''zscore_anomaly''),
         (''ewma_anomaly'', dget d ''ewma_anomaly'')])]"

definition api_indicators ::
  "('t, 'c, 'b) api_env \<Rightarrow> string \<Rightarrow> (('t, 'c, 'b) api_state, pydict option) pm" where
  "api_indicators env symbol =
     thenM (ap_count (\<lambda>m. m\<lparr>xm_indicators_requests := xm_indicators_requests m + 1\<rparr>))
     (bindM (ap_on_cache (cache_get_snapshot (ae_cache env) symbol)) (\<lambda>snap.
        if snap \<noteq> PNone then bindM (liftR (snapshot_dict snap)) (\<lambda>d. returnM (Some (indicators_reply symbol d)))
        else bindM (ap_on_store (ts_latest_indicator (ae_store env) symbol)) (\<lambda>row.
               returnM (map_option (\<lambda>r. indicators_reply symbol (normalise_row (ae_lib env) r)) row))))"

section \<open>History\<close>

text \<open>The cached rows of the symbol whose timestamp lies in the range.\<close>

fun cached_rows ::
  "(string \<Rightarrow> datetime option) \<Rightarrow> string \<Rightarrow> datetime \<Rightarrow> datetime \<Rightarrow> pyval list \<Rightarrow> pydict list result" where
  "cached_rows fromiso symbol frm until [] = Inr []"
| "cached_rows fromiso symbol frm until (PDict row # rows) =
     (if dget row ''symbol'' \<noteq> PStr symbol then cached_rows fromiso symbol frm until rows
      else bindR (api_parse_ts fromiso (either_timestamp row)) (\<lambda>t.
           bindR (cached_rows fromiso symbol frm until rows) (\<lambda>rest.
             Inr (case t of None \<Rightarrow> rest | Some d \<Rightarrow> if within_range frm until d then row # rest else rest))))"
| "cached_rows fromiso symbol frm until (_ # rows) = cached_rows fromiso symbol frm until rows"

definition cached_history ::
  "('t, 'c, 'b) api_env \<Rightarrow> string \<Rightarrow> datetime \<Rightarrow> datetime \<Rightarrow> (('t, 'c, 'b) api_state, pydict list) pm" where
  "cached_history env symbol frm until =
     bindM (ap_on_cache (cache_get_history (ae_cache env) symbol)) (\<lambda>history.
       liftR (cached_rows (ae_iso env) symbol frm until history))"

definition text_or_empty :: "pylib \<Rightarrow> pyval \<Rightarrow> string" where
  "text_or_empty lib v = py_str lib (py_or v (PStr []))"

definition dedupe_key ::
  "pylib \<Rightarrow> (string \<Rightarrow> datetime option) \<Rightarrow> pydict \<Rightarrow> (string \<times> string \<times> string) result" where
  "dedupe_key lib fromiso row =
     bindR (api_parse_ts fromiso (either_timestamp row)) (\<lambda>t.
       Inr (text_or_empty lib (dget row ''event_id''), text_or_empty lib (dget row ''symbol''),
            case t of Some d \<Rightarrow> isoformat lib d | None \<Rightarrow> text_or_empty lib (either_timestamp row)))"

text \<open>The first position and the last row of each key.\<close>

fun dedupe_into ::
  "pylib \<Rightarrow> (string \<Rightarrow> datetime option) \<Rightarrow> (string \<times> string \<times> string, pydict) dict \<Rightarrow> pydict list \<Rightarrow>
   (string \<times> string \<times> string, pydict) dict result" where
  "dedupe_into lib fromiso d [] = Inr d"
| "dedupe_into lib fromiso d (row # rows) =
     bindR (dedupe_key lib fromiso row) (\<lambda>k. dedupe_into lib fromiso (dict_set d k row) rows)"

definition dedupe_rows :: "pylib \<Rightarrow> (string \<Rightarrow> datetime option) \<Rightarrow> pydict list \<Rightarrow> pydict list result" where
  "dedupe_rows lib fromiso rows = bindR (dedupe_into lib fromiso [] rows) (\<lambda>d. Inr (map snd d))"

definition cap_newest :: "int option \<Rightarrow> 'a list \<Rightarrow> 'a list" where
  "cap_newest limit xs = (case limit of None \<Rightarrow> xs | Some n \<Rightarrow> if n > 0 then slice_last n xs else [])"

definition order_rows :: "(string \<Rightarrow> datetime option) \<Rightarrow> pydict list \<Rightarrow> pydict list result" where
  "order_rows fromiso rows = bindR (map_result (ts_sort_key fromiso) rows) (\<lambda>ks. Inr (map fst (sort_key snd ks)))"

definition merge_history ::
  "pylib \<Rightarrow> (string \<Rightarrow> datetime option) \<Rightarrow> int option \<Rightarrow> pydict list \<Rightarrow> pydict list \<Rightarrow> pydict list result" where
  "merge_history lib fromiso limit stored cached =
     bindR (dedupe_rows lib fromiso (stored @ cached)) (\<lambda>merged.
     bindR (order_rows fromiso merged) (\<lambda>ordered.
       Inr (map (normalise_row lib) (cap_newest limit ordered))))"

definition market_history ::
  "('t, 'c, 'b) api_env \<Rightarrow> string \<Rightarrow> datetime \<Rightarrow> datetime \<Rightarrow> int option \<Rightarrow> (('t, 'c, 'b) api_state, pydict list) pm" where
  "market_history env symbol frm until limit =
     thenM (ap_count (\<lambda>m. m\<lparr>xm_history_requests := xm_history_requests m + 1\<rparr>))
     (bindM (ap_on_store (ts_history (ae_store env) symbol frm until limit)) (\<lambda>stored.
      bindM (cached_history env symbol frm until) (\<lambda>cached.
        liftR (merge_history (ae_lib env) (ae_iso env) limit stored cached))))"

section \<open>The incremental read model\<close>

definition ap_remember :: "string \<Rightarrow> pydict list \<Rightarrow> int \<Rightarrow> (('t, 'c, 'b) api_state, unit) pm" where
  "ap_remember topic payloads cur = modifyM (\<lambda>s.
     s\<lparr>ap_recent := (ap_recent s)(topic := deque_extend RECENT_WINDOW (ap_recent s topic) payloads),
       ap_cursor := (ap_cursor s)(topic \<mapsto> cur)\<rparr>)"

text \<open>The chunks of one request, by the number still allowed.\<close>

fun refresh_chunks ::
  "('t, 'c, 'b) api_env \<Rightarrow> string \<Rightarrow> api_model \<Rightarrow> nat \<Rightarrow> int option \<Rightarrow> (('t, 'c, 'b) api_state, pydict list) pm" where
  "refresh_chunks env topic model 0 cur = getM (\<lambda>s. ap_recent s topic)"
| "refresh_chunks env topic model (Suc k) cur =
     bindM (ap_on_bus (bus_peek (ae_bus env) topic (ae_subscription env) PEEK_CHUNK cur)) (\<lambda>ms.
       if ms = [] then getM (\<lambda>s. ap_recent s topic)
       else case msg_seq (last ms) of
         None \<Rightarrow> bindM (ap_on_bus (bus_peek (ae_bus env) topic (ae_subscription env) BUS_PEEK_WINDOW None)) (\<lambda>ws.
                  returnM (validated_payloads (ae_lib env) model ws))
       | Some n \<Rightarrow> thenM (ap_remember topic (validated_payloads (ae_lib env) model ms) (n + 1))
                   (if int (length ms) < PEEK_CHUNK then getM (\<lambda>s. ap_recent s topic)
                    else refresh_chunks env topic model k (Some (n + 1))))"

definition refresh_recent ::
  "('t, 'c, 'b) api_env \<Rightarrow> string \<Rightarrow> api_model \<Rightarrow> (('t, 'c, 'b) api_state, pydict list) pm" where
  "refresh_recent env topic model =
     bindM (getM (\<lambda>s. ap_cursor s topic)) (\<lambda>cur. refresh_chunks env topic model MAX_PEEK_CHUNKS_PER_REQUEST cur)"

definition recent_payloads ::
  "('t, 'c, 'b) api_env \<Rightarrow> string \<Rightarrow> api_model \<Rightarrow> int \<Rightarrow> (('t, 'c, 'b) api_state, pydict list) pm" where
  "recent_payloads env topic model limit =
     (if limit \<le> 0 then returnM []
      else bindM (refresh_recent env topic model) (\<lambda>payloads. returnM (rev (slice_last limit payloads))))"

definition api_signals :: "('t, 'c, 'b) api_env \<Rightarrow> int \<Rightarrow> (('t, 'c, 'b) api_state, pydict list) pm" where
  "api_signals env limit =
     thenM (ap_count (\<lambda>m. m\<lparr>xm_signals_requests := xm_signals_requests m + 1\<rparr>))
       (recent_payloads env (ae_signal_topic env) SignalModel limit)"

definition api_alerts :: "('t, 'c, 'b) api_env \<Rightarrow> int \<Rightarrow> (('t, 'c, 'b) api_state, pydict list) pm" where
  "api_alerts env limit =
     thenM (ap_count (\<lambda>m. m\<lparr>xm_alerts_requests := xm_alerts_requests m + 1\<rparr>))
       (recent_payloads env (ae_alert_topic env) AlertModel limit)"

definition api_insight :: "('t, 'c, 'b) api_env \<Rightarrow> string \<Rightarrow> (('t, 'c, 'b) api_state, pydict option) pm" where
  "api_insight env symbol =
     thenM (ap_count (\<lambda>m. m\<lparr>xm_insights_requests := xm_insights_requests m + 1\<rparr>))
     (bindM (ap_on_cache (cache_get (ae_cache env) (INSIGHT_CACHE_PREFIX @ '':'' @ symbol))) (\<lambda>cached.
        if cached \<noteq> PNone
        then (case validate_dump (ae_lib env) InsightModel cached of
                Inl t \<Rightarrow> raiseM (ValidationError t) | Inr d \<Rightarrow> returnM (Some d))
        else bindM (refresh_recent env (ae_insight_topic env) InsightModel) (\<lambda>payloads.
               returnM (find (\<lambda>p. dget p ''symbol'' = PStr symbol) (rev payloads)))))"

text \<open>
  Overlapping requests: a request that is waiting for its peek holds what the peek will answer
  for the cursor it read; other requests run until it continues.
\<close>

record ('t, 'c, 'b) read_loop =
  rl_state :: "('t, 'c, 'b) api_state"
  rl_peeked :: "nat \<Rightarrow> message list option"

inductive read_step ::
  "('t, 'c, 'b) api_env \<Rightarrow> string \<Rightarrow> api_model \<Rightarrow> ('t, 'c, 'b) read_loop \<Rightarrow> ('t, 'c, 'b) read_loop \<Rightarrow> bool"
  for env t model where
  begin_peek: "rl_peeked c u = None \<Longrightarrow>
     ap_on_bus (bus_peek (ae_bus env) t (ae_subscription env) PEEK_CHUNK (ap_cursor (rl_state c) t)) (rl_state c) = (Inr ms, s) \<Longrightarrow>
     read_step env t model c (c\<lparr>rl_state := s, rl_peeked := (rl_peeked c)(u \<mapsto> ms)\<rparr>)"
| end_peek: "rl_peeked c u = Some ms \<Longrightarrow> ms \<noteq> [] \<Longrightarrow> msg_seq (last ms) = Some n \<Longrightarrow>
     ap_remember t (validated_payloads (ae_lib env) model ms) (n + 1) (rl_state c) = (Inr (), s) \<Longrightarrow>
     read_step env t model c (c\<lparr>rl_state := s, rl_peeked := (rl_peeked c)(u := None)\<rparr>)"
| end_empty: "rl_peeked c u = Some [] \<Longrightarrow> read_step env t model c (c\<lparr>rl_peeked := (rl_peeked c)(u := None)\<rparr>)"

inductive_cases read_step_cases: "read_step env t model c c'"

section \<open>Routes\<close>

datatype reply = Reply pyval | HttpError int string

definition SYMBOL_MAX_LENGTH :: nat where "SYMBOL_MAX_LENGTH = 32"
definition MAX_HISTORY_ROWS :: int where "MAX_HISTORY_ROWS = 10000"

definition symbol_path_char :: "char \<Rightarrow> bool" where
  "symbol_path_char c \<longleftrightarrow> chars_between 65 90 c \<or> chars_between 97 122 c \<or> chars_between 48 57 c
     \<or> c \<in> {CHR ''.'', CHR ''_'', CHR ''-''}"

definition valid_symbol :: "string \<Rightarrow> bool" where
  "valid_symbol s \<longleftrightarrow> s \<noteq> [] \<and> length s \<le> SYMBOL_MAX_LENGTH \<and> list_all symbol_path_char s"

definition normalize_symbol :: "string \<Rightarrow> string" where
  "normalize_symbol s = str_upper (str_strip s)"

definition unprocessable :: reply where "unprocessable = HttpError 422 ''Unprocessable Content''"

text \<open>A route of a symbol: an invalid path value is refused before the service is called.\<close>

definition symbol_route ::
  "string \<Rightarrow> (string \<Rightarrow> (('t, 'c, 'b) api_state, reply) pm) \<Rightarrow> (('t, 'c, 'b) api_state, reply) pm" where
  "symbol_route symbol body = (if valid_symbol symbol then body (normalize_symbol symbol) else returnM unprocessable)"

definition found_or_404 :: "string \<Rightarrow> pydict option \<Rightarrow> reply" where
  "found_or_404 detail payload = (case payload of None \<Rightarrow> HttpError 404 detail | Some d \<Rightarrow> Reply (PDict d))"

definition get_latest_market :: "('t, 'c, 'b) api_env \<Rightarrow> string \<Rightarrow> (('t, 'c, 'b) api_state, reply) pm" where
  "get_latest_market env symbol = symbol_route symbol (\<lambda>r.
     bindM (latest_market env r) (\<lambda>p. returnM (found_or_404 (''No market data found for '' @ r) p)))"

definition get_indicators :: "('t, 'c, 'b) api_env \<Rightarrow> string \<Rightarrow> (('t, 'c, 'b) api_state, reply) pm" where
  "get_indicators env symbol = symbol_route symbol (\<lambda>r.
     bindM (api_indicators env r) (\<lambda>p. returnM (found_or_404 (''No indicators found for '' @ r) p)))"

definition get_insight :: "('t, 'c, 'b) api_env \<Rightarrow> string \<Rightarrow> (('t, 'c, 'b) api_state, reply) pm" where
  "get_insight env symbol = symbol_route symbol (\<lambda>r.
     bindM (api_insight env r) (\<lambda>p. returnM (found_or_404 (''No insight found for '' @ r) p)))"

text \<open>\<open>a > b\<close> on datetimes: a naive and an aware one cannot be compared.\<close>

definition later_than :: "datetime \<Rightarrow> datetime \<Rightarrow> bool result" where
  "later_than a b =
     (if (dt_offset a = None) \<noteq> (dt_offset b = None)
      then Inl (TypeError (''can'' @ CHR 0x27 # ''t compare offset-naive and offset-aware datetimes''))
      else Inr (instant a > instant b))"

definition counted :: "string \<Rightarrow> pyval list \<Rightarrow> reply" where
  "counted k xs = Reply (PDict [(k, PList xs), (''count'', PInt (int (length xs)))])"

definition get_market_history ::
  "('t, 'c, 'b) api_env \<Rightarrow> string \<Rightarrow> datetime \<Rightarrow> datetime \<Rightarrow> int \<Rightarrow> (('t, 'c, 'b) api_state, reply) pm" where
  "get_market_history env symbol frm until limit =
     (if \<not> (valid_symbol symbol \<and> 1 \<le> limit \<and> limit \<le> MAX_HISTORY_ROWS) then returnM unprocessable
      else bindM (liftR (later_than frm until)) (\<lambda>wrong.
        if wrong then returnM (HttpError 400 (sq ''from'' @ '' must be before or equal to '' @ sq ''to''))
        else bindM (market_history env (normalize_symbol symbol) frm until (Some limit)) (\<lambda>rows.
          returnM (Reply (PDict
            [(''symbol'', PStr (normalize_symbol symbol)), (''from'', PStr (isoformat (ae_lib env) frm)),
             (''to'', PStr (isoformat (ae_lib env) until)), (''rows'', PList (map PDict rows)),
             (''count'', PInt (int (length rows)))])))))"

definition get_symbols :: "('t, 'c, 'b) api_env \<Rightarrow> (('t, 'c, 'b) api_state, reply) pm" where
  "get_symbols env = bindM (list_symbols env) (\<lambda>ss. returnM (counted ''symbols'' (map PStr ss)))"

definition list_route ::
  "string \<Rightarrow> int \<Rightarrow> (int \<Rightarrow> (('t, 'c, 'b) api_state, pydict list) pm) \<Rightarrow> (('t, 'c, 'b) api_state, reply) pm" where
  "list_route k limit body =
     (if 1 \<le> limit \<and> limit \<le> 100 then bindM (body limit) (\<lambda>ps. returnM (counted k (map PDict ps)))
      else returnM unprocessable)"

definition get_signals :: "('t, 'c, 'b) api_env \<Rightarrow> int \<Rightarrow> (('t, 'c, 'b) api_state, reply) pm" where
  "get_signals env limit = list_route ''signals'' limit (api_signals env)"

definition get_alerts :: "('t, 'c, 'b) api_env \<Rightarrow> int \<Rightarrow> (('t, 'c, 'b) api_state, reply) pm" where
  "get_alerts env limit = list_route ''alerts'' limit (api_alerts env)"

end
