(* ===== verification/ApiProps.thy ===== *)
theory ApiProps
  imports ApiService BusContract
begin

text \<open>
  What the API guarantees: the incremental read model serves what a full scan of the
  subscription would, the history merges the store and the cache without losing or repeating
  a row, and a symbol that passes the path check needs no quoting.  Also where requests that
  overlap break the read model.
\<close>

lemma ap_count_then: "thenM (ap_count f) m s = m (snd (ap_count f s))"
  by (simp add: thenM_apply ap_count_def modifyM_def)

section \<open>The read model on the in-memory bus\<close>

lemma validated_payloads_append:
  "validated_payloads lib model (as @ bs) = validated_payloads lib model as @ validated_payloads lib model bs"
  by (simp add: validated_payloads_def List.map_filter_def)

text \<open>A cursor that has read the first \<open>i\<close> messages of a subscription's queue.\<close>

definition read_up_to :: "inmem_bus \<Rightarrow> string \<Rightarrow> string \<Rightarrow> int option \<Rightarrow> nat \<Rightarrow> bool" where
  "read_up_to b t sub cur i \<longleftrightarrow> i \<le> length (queue_of b t sub) \<and>
     (case cur of None \<Rightarrow> i = 0
      | Some c \<Rightarrow> c \<le> next_sequence b t \<and> filter (seq_at_least c) (queue_of b t sub) = drop i (queue_of b t sub))"

lemma read_up_to_same:
  "queue_of b' = queue_of b \<Longrightarrow> next_sequence b' = next_sequence b \<Longrightarrow>
   read_up_to b' t sub cur i = read_up_to b t sub cur i"
  by (simp add: read_up_to_def cong: option.case_cong)

lemma read_up_to_peek:
  assumes "read_up_to b t sub cur i"
  shows "fst (ib_peek t sub 100 cur b) = Inr (take 100 (drop i (queue_of b t sub)))"
  using assms by (auto simp: ib_peek_def read_up_to_def slice_first_def Let_def split: option.splits)

lemma peek_frame:
  "queue_of (snd (ib_peek t sub n cur b)) = queue_of b" "next_sequence (snd (ib_peek t sub n cur b)) = next_sequence b"
  "seen_ids (snd (ib_peek t sub n cur b)) = seen_ids b"
  by (auto simp: ib_peek_def Let_def fun_eq_iff)

lemma seq_at_least_iff: "msg_seq m \<noteq> None \<Longrightarrow> seq_at_least c m \<longleftrightarrow> c \<le> seq_no m"
  by (auto simp: seq_at_least_def seq_no_def split: option.split)

lemma read_up_to_step:
  assumes inv: "bus_inv b" and "read_up_to b t sub cur i"
    and ms: "ms = take k (drop i (queue_of b t sub))" "ms \<noteq> []"
  shows "\<exists>n. msg_seq (last ms) = Some n \<and> read_up_to b t sub (Some (n + 1)) (i + length ms)"
proof -
  let ?q = "queue_of b t sub"
  let ?pre = "take i ?q @ ms" and ?rest = "drop (i + length ms) ?q"
  have d: "drop (length ms) (drop i ?q) = drop k (drop i ?q)"
    by (cases "k \<le> length (drop i ?q)") (simp_all add: ms(1))
  have "drop i ?q = ms @ drop (length ms) (drop i ?q)"
    unfolding d by (simp only: ms(1) append_take_drop_id)
  then have "drop i ?q = ms @ ?rest" by (simp only: drop_drop add.commute)
  then have split: "?q = ?pre @ ?rest"
    using append_take_drop_id [of i ?q] by simp
  have wf: "\<forall>m\<in>set ?q. msg_seq m \<noteq> None \<and> seq_no m < next_sequence b t"
    and sorted: "sorted_wrt (<) (map seq_no ?q)"
    using inv unfolding bus_inv_def queue_wf_def by blast+
  obtain ini l where ini: "ms = ini @ [l]" using ms(2) by (cases ms rule: rev_cases) auto
  then have lst: "last ms = l" by simp
  have "set ms \<subseteq> set ?q" by (subst split) auto
  then have l_in: "l \<in> set ?q" using ini by simp
  then obtain n where n: "msg_seq l = Some n" using wf by fastforce
  then have seq: "seq_no l = n" by (simp add: seq_no_def)
  have "(take i ?q @ ms) @ ?rest = (take i ?q @ ini) @ l # ?rest"
    by (simp only: ini append_assoc append_Cons append_Nil)
  with split have parts: "?q = (take i ?q @ ini) @ l # ?rest" by (rule trans)
  have "sorted_wrt (<) (map seq_no ((take i ?q @ ini) @ l # ?rest))"
    using sorted unfolding arg_cong [OF parts, of "map seq_no"] .
  then have before: "\<forall>m\<in>set (take i ?q @ ini). seq_no m < n" and after: "\<forall>m\<in>set ?rest. n < seq_no m"
    unfolding map_append list.map sorted_wrt_append sorted_wrt.simps seq by auto
  have "\<not> seq_at_least (n + 1) m" if m: "m \<in> set ?pre" for m
  proof -
    have "set ms = insert l (set ini)" by (simp add: ini)
    then have "m \<in> set (take i ?q @ ini) \<or> m = l" using m by auto
    then have "seq_no m \<le> n" using before seq by fastforce
    moreover have "m \<in> set ?q" using m by (subst split) auto
    ultimately show ?thesis using wf by (simp add: seq_at_least_iff)
  qed
  moreover have "seq_at_least (n + 1) m" if m: "m \<in> set ?rest" for m
  proof -
    have "m \<in> set ?q" using m by (rule in_set_dropD)
    moreover have "n < seq_no m" using after m by blast
    ultimately show ?thesis using wf by (simp add: seq_at_least_iff)
  qed
  ultimately have "filter (seq_at_least (n + 1)) (?pre @ ?rest) = ?rest"
    using filter_False [of ?pre "seq_at_least (n + 1)"] filter_True [of ?rest "seq_at_least (n + 1)"]
    unfolding filter_append by simp
  with arg_cong [OF split, of "filter (seq_at_least (n + 1))"]
  have "filter (seq_at_least (n + 1)) ?q = ?rest" by (rule trans)
  moreover have "n + 1 \<le> next_sequence b t" using wf l_in seq by fastforce
  moreover have "i + length ms \<le> length ?q" using assms(2) ms(1) by (auto simp: read_up_to_def)
  ultimately show ?thesis using n lst by (auto simp: read_up_to_def)
qed

text \<open>
  The read model of a topic after reading \<open>i\<close> messages: the newest payloads of those that
  validate.
\<close>

definition read_model ::
  "('t, 'c, inmem_bus) api_env \<Rightarrow> string \<Rightarrow> api_model \<Rightarrow> nat \<Rightarrow> ('t, 'c, inmem_bus) api_state \<Rightarrow> bool" where
  "read_model env t model i s \<longleftrightarrow> bus_inv (ap_bus s) \<and>
     read_up_to (ap_bus s) t (ae_subscription env) (ap_cursor s t) i \<and>
     ap_recent s t = newest RECENT_WINDOW
       (validated_payloads (ae_lib env) model (take i (queue_of (ap_bus s) t (ae_subscription env))))"

lemma take_more: "take i q @ take k (drop i q) = take (i + k) q"
  by (simp add: take_add)

lemma refresh_chunk_step:
  assumes "ap_on_bus (bus_peek (ae_bus env) t (ae_subscription env) PEEK_CHUNK cur) s = (Inr ms, s1)"
    and "ms \<noteq> []" "msg_seq (last ms) = Some n"
    and "s2 = snd (ap_remember t (validated_payloads (ae_lib env) model ms) (n + 1) s1)"
  shows "refresh_chunks env t model (Suc k) cur s =
    (if int (length ms) < PEEK_CHUNK then (Inr (ap_recent s2 t), s2) else refresh_chunks env t model k (Some (n + 1)) s2)"
proof -
  have "ap_remember t (validated_payloads (ae_lib env) model ms) (n + 1) s1 = (Inr (), s2)"
    unfolding assms(4) by (simp add: ap_remember_def modifyM_def)
  then show ?thesis using assms(1-3) by (simp add: bindM_apply thenM_apply getM_def)
qed

lemma refresh_chunks_reads:
  assumes "ae_bus env = inmem_bus_ops" "read_model env t model i s"
  shows "\<exists>s'. refresh_chunks env t model k (ap_cursor s t) s = (Inr (ap_recent s' t), s') \<and>
    read_model env t model (min (i + 100 * k) (length (queue_of (ap_bus s) t (ae_subscription env)))) s' \<and>
    queue_of (ap_bus s') = queue_of (ap_bus s)"
  using assms(2)
proof (induction k arbitrary: i s)
  case 0
  then show ?case by (simp add: getM_def read_model_def read_up_to_def min_absorb1)
next
  case (Suc k i s)
  let ?sub = "ae_subscription env"
  let ?q = "queue_of (ap_bus s) t ?sub"
  let ?ms = "take 100 (drop i ?q)"
  let ?b = "snd (ib_peek t ?sub 100 (ap_cursor s t) (ap_bus s))"
  let ?s1 = "s\<lparr>ap_bus := ?b\<rparr>"
  have rd: "read_up_to (ap_bus s) t ?sub (ap_cursor s t) i" and inv: "bus_inv (ap_bus s)"
    and rec: "ap_recent s t = newest RECENT_WINDOW (validated_payloads (ae_lib env) model (take i ?q))"
    and le: "i \<le> length ?q"
    using Suc.prems by (simp_all add: read_model_def read_up_to_def)
  have peek: "ap_on_bus (bus_peek (ae_bus env) t ?sub PEEK_CHUNK (ap_cursor s t)) s = (Inr ?ms, ?s1)"
    using read_up_to_peek [OF rd] assms(1) by (simp add: ap_on_bus_def pm_simps PEEK_CHUNK_def)
  have b: "queue_of ?b = queue_of (ap_bus s)" "next_sequence ?b = next_sequence (ap_bus s)" "bus_inv ?b"
    using inv by (simp_all add: peek_frame bus_inv_peek)
  show ?case
  proof (cases "?ms = []")
    case True
    then have i: "i = length ?q" using le by simp
    have "read_model env t model i ?s1" using rd rec b(3) by (simp add: read_model_def b(1) read_up_to_same [OF b(1,2)])
    moreover have "refresh_chunks env t model (Suc k) (ap_cursor s t) s = (Inr (ap_recent ?s1 t), ?s1)"
      using True peek by (simp add: bindM_apply getM_def)
    ultimately show ?thesis using b(1) i by (intro exI [of _ ?s1]) (simp add: min_def)
  next
    case False
    have rd': "read_up_to ?b t ?sub (ap_cursor s t) i" using rd by (simp add: read_up_to_same [OF b(1,2)])
    from read_up_to_step [OF b(3) rd', of ?ms 100] False obtain n where
      n: "msg_seq (last ?ms) = Some n" "read_up_to ?b t ?sub (Some (n + 1)) (i + length ?ms)"
      by (auto simp: b)
    let ?s2 = "snd (ap_remember t (validated_payloads (ae_lib env) model ?ms) (n + 1) ?s1)"
    have s2: "ap_cursor ?s2 t = Some (n + 1)" "ap_bus ?s2 = ?b"
      "ap_recent ?s2 t = deque_extend RECENT_WINDOW (ap_recent s t) (validated_payloads (ae_lib env) model ?ms)"
      by (simp_all add: ap_remember_def modifyM_def)
    note step = refresh_chunk_step [OF peek False n(1) refl, of model k]
    have ext: "take i ?q @ ?ms = take (i + length ?ms) ?q"
    proof -
      have "take (length ?ms) (drop i ?q) = ?ms" by (cases "100 \<le> length (drop i ?q)") simp_all
      then show ?thesis by (simp only: take_add)
    qed
    have "ap_recent ?s2 t = newest RECENT_WINDOW (validated_payloads (ae_lib env) model (take (i + length ?ms) ?q))"
      unfolding s2(3) rec newest_append validated_payloads_append [symmetric] ext ..
    then have model2: "read_model env t model (i + length ?ms) ?s2"
      unfolding read_model_def s2(1,2) b(1) using n(2) b(3) by blast
    show ?thesis
    proof (cases "int (length ?ms) < PEEK_CHUNK")
      case True
      then have "length (drop i ?q) < 100" by (simp add: PEEK_CHUNK_def)
      then have all: "?ms = drop i ?q" by simp
      have end_of: "i + length ?ms = length ?q" unfolding all using le by simp
      have "refresh_chunks env t model (Suc k) (ap_cursor s t) s = (Inr (ap_recent ?s2 t), ?s2)"
        unfolding step if_P [OF True] ..
      moreover have "length ?q \<le> i + 100 * Suc k" using \<open>length (drop i ?q) < 100\<close> by simp
      then have "min (i + 100 * Suc k) (length ?q) = i + length ?ms" unfolding end_of by (rule min_absorb2)
      ultimately show ?thesis using model2 s2(2) b(1) by (intro exI [of _ ?s2]) (simp only: simp_thms)
    next
      case False': False
      then have hundred: "length ?ms = 100" by (simp add: PEEK_CHUNK_def)
      have run: "refresh_chunks env t model (Suc k) (ap_cursor s t) s = refresh_chunks env t model k (ap_cursor ?s2 t) ?s2"
        unfolding step if_not_P [OF False'] s2(1) ..
      from Suc.IH [OF model2] obtain s3 where
        s3: "refresh_chunks env t model k (ap_cursor ?s2 t) ?s2 = (Inr (ap_recent s3 t), s3)"
        "read_model env t model (min (i + length ?ms + 100 * k) (length (queue_of (ap_bus ?s2) t ?sub))) s3"
        "queue_of (ap_bus s3) = queue_of (ap_bus ?s2)"
        by blast
      show ?thesis using run s3 s2(2) b(1) hundred by (intro exI [of _ s3]) (simp add: add.assoc)
    qed
  qed
qed

lemma refresh_is_full_scan:
  assumes "ae_bus env = inmem_bus_ops" "read_model env t model i s"
    and "length (queue_of (ap_bus s) t (ae_subscription env)) \<le> i + 2000"
  shows "\<exists>s'. refresh_recent env t model s =
      (Inr (newest 500 (validated_payloads (ae_lib env) model (queue_of (ap_bus s) t (ae_subscription env)))), s') \<and>
    read_model env t model (length (queue_of (ap_bus s) t (ae_subscription env))) s' \<and>
    queue_of (ap_bus s') = queue_of (ap_bus s)"
proof -
  from refresh_chunks_reads [OF assms(1,2), of 20] assms(3) obtain s' where
    s': "refresh_chunks env t model 20 (ap_cursor s t) s = (Inr (ap_recent s' t), s')"
    "read_model env t model (length (queue_of (ap_bus s) t (ae_subscription env))) s'"
    "queue_of (ap_bus s') = queue_of (ap_bus s)"
    by (auto simp: min_absorb2)
  then show ?thesis
    by (intro exI [of _ s']) (simp add: refresh_recent_def bindM_apply getM_def MAX_PEEK_CHUNKS_PER_REQUEST_def read_model_def
        RECENT_WINDOW_def)
qed

lemma read_model_publish:
  assumes "read_model env t model i s"
  shows "read_model env t model i (s\<lparr>ap_bus := snd (ib_publish topic body mid corr (ap_bus s))\<rparr>)"
proof (cases "fst (pick_message_id mid (ap_bus s)) \<in> seen_ids (ap_bus s) topic")
  case True
  let ?b = "snd (ib_publish topic body mid corr (ap_bus s))"
  have b: "queue_of ?b = queue_of (ap_bus s)" "next_sequence ?b = next_sequence (ap_bus s)"
    by (simp_all add: ib_publish_dup [OF True] queue_of_def fun_eq_iff)
  show ?thesis using assms bus_inv_publish [of "ap_bus s" topic body mid corr]
    by (simp add: read_model_def b(1) read_up_to_same [OF b])
next
  case False
  let ?b = "snd (ib_publish topic body mid corr (ap_bus s))" and ?sub = "ae_subscription env"
  let ?m = "published_message t ?sub body (fst (pick_message_id mid (ap_bus s))) corr (next_sequence (ap_bus s) t)"
  note new = ib_publish_new [OF False, of body corr]
  have inv: "bus_inv ?b" using assms by (simp add: read_model_def bus_inv_publish)
  have q: "queue_of ?b t ?sub =
      (if t = topic \<and> queues (ap_bus s) t ?sub \<noteq> None then queue_of (ap_bus s) t ?sub @ [?m] else queue_of (ap_bus s) t ?sub)"
    by (rule new(2))
  have n: "next_sequence ?b t = (if t = topic then next_sequence (ap_bus s) t + 1 else next_sequence (ap_bus s) t)"
    by (simp add: new)
  consider "queue_of ?b t ?sub = queue_of (ap_bus s) t ?sub @ [?m]" "next_sequence ?b t = next_sequence (ap_bus s) t + 1"
    | "queue_of ?b t ?sub = queue_of (ap_bus s) t ?sub" "next_sequence (ap_bus s) t \<le> next_sequence ?b t"
    using q n by (cases "t = topic \<and> queues (ap_bus s) t ?sub \<noteq> None"; cases "t = topic") simp_all
  then show ?thesis
  proof cases
    case 1
    have "seq_at_least c ?m" if "c \<le> next_sequence (ap_bus s) t" for c
      using that by (simp add: seq_at_least_def)
    then show ?thesis using assms inv 1
      by (auto simp: read_model_def read_up_to_def split: option.splits)
  next
    case 2
    then show ?thesis using assms inv by (auto simp: read_model_def read_up_to_def split: option.splits)
  qed
qed

lemma newest_newest_le: "m \<le> n \<Longrightarrow> newest m (newest n xs) = newest m xs"
  unfolding newest_def by (cases "n \<le> length xs") (auto intro: arg_cong [of _ _ "\<lambda>k. drop k xs"])

text \<open>
  C28: The incremental read model is exact: if it holds for the alerts topic after \<open>i\<close> messages and
  at most 2,000 have arrived since, \<open>alerts(limit)\<close> answers, newest first, the newest \<open>limit\<close>
  valid payloads of the whole subscription, exactly as a scan of the full backlog would, although
  only the messages after the cursor were read; it keeps the backlog and leaves the model up
  to date, and it stays true under any later publish.
\<close>

theorem alerts_newest_first:
  assumes "ae_bus env = inmem_bus_ops" "read_model env (ae_alert_topic env) AlertModel i s"
    and "length (queue_of (ap_bus s) (ae_alert_topic env) (ae_subscription env)) \<le> i + 2000"
    and "0 < limit" "limit \<le> 500"
  shows "\<exists>s'. api_alerts env limit s =
      (Inr (rev (newest (nat limit) (validated_payloads (ae_lib env) AlertModel
              (queue_of (ap_bus s) (ae_alert_topic env) (ae_subscription env))))), s') \<and>
    queue_of (ap_bus s') = queue_of (ap_bus s) \<and>
    read_model env (ae_alert_topic env) AlertModel
      (length (queue_of (ap_bus s) (ae_alert_topic env) (ae_subscription env)))
      (s'\<lparr>ap_bus := snd (ib_publish topic body mid corr (ap_bus s'))\<rparr>)"
proof -
  let ?t = "ae_alert_topic env"
  let ?s0 = "snd (ap_count (\<lambda>m. m\<lparr>xm_alerts_requests := xm_alerts_requests m + 1\<rparr>) s)"
  have s0: "ap_bus ?s0 = ap_bus s" "read_model env ?t AlertModel i ?s0"
    using assms(2) by (simp_all add: ap_count_def modifyM_def read_model_def)
  have len: "length (queue_of (ap_bus ?s0) ?t (ae_subscription env)) \<le> i + 2000" using assms(3) s0(1) by simp
  from refresh_is_full_scan [OF assms(1) s0(2) len] obtain s' where
    s': "refresh_recent env ?t AlertModel ?s0 =
        (Inr (newest 500 (validated_payloads (ae_lib env) AlertModel (queue_of (ap_bus s) ?t (ae_subscription env)))), s')"
    "read_model env ?t AlertModel (length (queue_of (ap_bus s) ?t (ae_subscription env))) s'"
    "queue_of (ap_bus s') = queue_of (ap_bus s)"
    unfolding s0(1) by blast
  have "api_alerts env limit s =
      (Inr (rev (slice_last limit (newest 500 (validated_payloads (ae_lib env) AlertModel
          (queue_of (ap_bus s) ?t (ae_subscription env)))))), s')"
    unfolding api_alerts_def ap_count_then
    using assms(4) by (simp add: recent_payloads_def bindM_apply s'(1) returnM_def)
  then show ?thesis
    using s' assms(4,5) read_model_publish [OF s'(2)]
    by (intro exI [of _ s']) (simp add: slice_last_newest newest_newest_le)
qed

section \<open>Overlapping reads\<close>

text \<open>
  Requests that overlap break the read model: two that begin their peek before either ends it
  have read the same messages, and both remember them, so that every payload of the chunk is
  served twice from then on.
\<close>

lemma overlapping_reads_duplicate:
  assumes "rl_peeked c u = None" "rl_peeked c v = None" "u \<noteq> v"
    and peek: "\<And>b. bus_peek (ae_bus env) t (ae_subscription env) PEEK_CHUNK (ap_cursor (rl_state c) t) b = (Inr ms, b)"
    and ms: "ms \<noteq> []" "msg_seq (last ms) = Some n"
  shows "\<exists>c'. (read_step env t model)\<^sup>*\<^sup>* c c' \<and>
    ap_recent (rl_state c') t = deque_extend RECENT_WINDOW (ap_recent (rl_state c) t)
      (validated_payloads (ae_lib env) model ms @ validated_payloads (ae_lib env) model ms)"
proof -
  let ?ps = "validated_payloads (ae_lib env) model ms"
  let ?mem = "\<lambda>s. snd (ap_remember t ?ps (n + 1) s)"
  let ?c1 = "c\<lparr>rl_state := rl_state c, rl_peeked := (rl_peeked c)(u \<mapsto> ms)\<rparr>"
  let ?c2 = "?c1\<lparr>rl_state := rl_state c, rl_peeked := (rl_peeked ?c1)(v \<mapsto> ms)\<rparr>"
  let ?c3 = "?c2\<lparr>rl_state := ?mem (rl_state ?c2), rl_peeked := (rl_peeked ?c2)(u := None)\<rparr>"
  let ?c4 = "?c3\<lparr>rl_state := ?mem (rl_state ?c3), rl_peeked := (rl_peeked ?c3)(v := None)\<rparr>"
  have mem: "ap_remember t ?ps (n + 1) s = (Inr (), ?mem s)" for s by (simp add: ap_remember_def modifyM_def)
  have "read_step env t model c ?c1" by (rule begin_peek) (simp_all add: assms(1) peek ap_on_bus_def zoomM_apply)
  moreover have "read_step env t model ?c1 ?c2" by (rule begin_peek) (use assms(2,3) in \<open>simp_all add: peek ap_on_bus_def zoomM_apply\<close>)
  moreover have "read_step env t model ?c2 ?c3"
    by (rule end_peek [OF _ ms mem]) (use assms(3) in simp)
  moreover have "read_step env t model ?c3 ?c4"
    by (rule end_peek [OF _ ms mem]) (use assms(3) in simp)
  ultimately have "(read_step env t model)\<^sup>*\<^sup>* c ?c4" by (meson rtranclp.rtrancl_into_rtrancl rtranclp.rtrancl_refl)
  moreover have "ap_recent (rl_state ?c4) t = deque_extend RECENT_WINDOW (ap_recent (rl_state c) t) (?ps @ ?ps)"
    by (simp add: ap_remember_def modifyM_def deque_extend_def)
  ultimately show ?thesis by blast
qed

section \<open>History\<close>

lemma in_dict_set: "p \<in> set (dict_set d k v) \<Longrightarrow> p \<in> set d \<or> p = (k, v)"
  by (induction d k v rule: dict_set.induct) (auto split: if_splits)

lemma dedupe_into_spec:
  assumes "dedupe_into lib fromiso d rows = Inr d'" "distinct (map fst d)"
  shows "distinct (map fst d') \<and> fst ` set d \<subseteq> fst ` set d' \<and>
    (\<forall>p\<in>set d'. p \<in> set d \<or> snd p \<in> set rows \<and> dedupe_key lib fromiso (snd p) = Inr (fst p)) \<and>
    (\<forall>row\<in>set rows. \<exists>k\<in>fst ` set d'. dedupe_key lib fromiso row = Inr k)"
  using assms
proof (induction lib fromiso d rows rule: dedupe_into.induct)
  case (2 lib fromiso d row rows)
  obtain k where k: "dedupe_key lib fromiso row = Inr k" and rest: "dedupe_into lib fromiso (dict_set d k row) rows = Inr d'"
    using "2.prems"(1) by (auto simp: bindR_Inr_iff)
  have ok: "distinct (map fst (dict_set d k row))" using "2.prems"(2) by (metis dict_ok_def dict_ok_set)
  have keys: "fst ` set (dict_set d k row) = insert k (fst ` set d)" by (simp add: keys_dict_set)
  have in_set: "p \<in> set (dict_set d k row) \<Longrightarrow> p \<in> set d \<or> p = (k, row)" for p
    by (rule in_dict_set)
  note ih = "2.IH" [OF rest ok]
  have "p \<in> set d \<or> snd p \<in> set (row # rows) \<and> dedupe_key lib fromiso (snd p) = Inr (fst p)" if "p \<in> set d'" for p
  proof (cases "p \<in> set (dict_set d k row)")
    case True
    from in_set [OF this] show ?thesis using k by (elim disjE) simp_all
  next
    case False
    then show ?thesis using ih that by simp blast
  qed
  moreover have "\<exists>k\<in>fst ` set d'. dedupe_key lib fromiso r = Inr k" if "r \<in> set (row # rows)" for r
    using ih that k keys by (cases "r = row") (auto simp del: keys_dict_set)
  ultimately show ?case using ih keys by simp
qed simp

text \<open>The last of the rows that share the key of a row.\<close>

definition last_version :: "pylib \<Rightarrow> (string \<Rightarrow> datetime option) \<Rightarrow> pydict list \<Rightarrow> pydict \<Rightarrow> pydict" where
  "last_version lib fromiso rows row =
     last (filter (\<lambda>r. dedupe_key lib fromiso r = dedupe_key lib fromiso row) rows)"

lemma dedupe_into_last:
  "dedupe_into lib fromiso d rows = Inr d' \<Longrightarrow>
   map_of d' k = (let same = filter (\<lambda>r. dedupe_key lib fromiso r = Inr k) rows
                  in if same = [] then map_of d k else Some (last same))"
proof (induction lib fromiso d rows rule: dedupe_into.induct)
  case (2 lib fromiso d row rows)
  obtain k' where k': "dedupe_key lib fromiso row = Inr k'"
    "dedupe_into lib fromiso (dict_set d k' row) rows = Inr d'"
    using "2.prems" by (auto simp: bindR_Inr_iff)
  show ?case using "2.IH" [OF k'(2)] k'(1) by (simp add: Let_def)
qed simp

lemma dedupe_rows_spec:
  assumes "dedupe_rows lib fromiso rows = Inr merged"
  shows "distinct (map (dedupe_key lib fromiso) merged)" "set merged \<subseteq> set rows"
    "row \<in> set rows \<Longrightarrow> last_version lib fromiso rows row \<in> set merged"
    "row \<in> set merged \<Longrightarrow> last_version lib fromiso rows row = row"
proof -
  obtain d where d: "dedupe_into lib fromiso [] rows = Inr d" "merged = map snd d"
    using assms by (auto simp: dedupe_rows_def bindR_Inr_iff)
  note spec = dedupe_into_spec [OF d(1)]
  have key: "\<forall>p\<in>set d. snd p \<in> set rows \<and> dedupe_key lib fromiso (snd p) = Inr (fst p)" using spec by simp
  have "map (dedupe_key lib fromiso) merged = map Inr (map fst d)" using key by (simp add: d(2))
  moreover have "distinct (map Inr (map fst d))" using spec by (simp add: distinct_map inj_on_def)
  ultimately show "distinct (map (dedupe_key lib fromiso) merged)" by metis
  show "set merged \<subseteq> set rows" using key by (auto simp: d(2))
  have version: "map_of d k = Some (last_version lib fromiso rows r)"
    if "dedupe_key lib fromiso r = Inr k" "r \<in> set rows" for r k
  proof -
    have "filter (\<lambda>q. dedupe_key lib fromiso q = Inr k) rows \<noteq> []" using that by (auto simp: filter_empty_conv)
    with dedupe_into_last [OF d(1), of k] show ?thesis by (simp add: last_version_def that(1) Let_def)
  qed
  show "last_version lib fromiso rows row \<in> set merged" if row: "row \<in> set rows"
  proof -
    obtain k where "dedupe_key lib fromiso row = Inr k" using spec row by auto
    then have "(k, last_version lib fromiso rows row) \<in> set d" using version [OF _ row] by (auto intro: map_of_SomeD)
    then show ?thesis unfolding d(2) by (force intro: rev_image_eqI)
  qed
  show "last_version lib fromiso rows row = row" if row: "row \<in> set merged"
  proof -
    obtain k where k: "(k, row) \<in> set d" using row unfolding d(2) by auto
    then have "dedupe_key lib fromiso row = Inr k" "row \<in> set rows" using key by force+
    from version [OF this] k spec show ?thesis by simp
  qed
qed

definition sort_instant :: "(string \<Rightarrow> datetime option) \<Rightarrow> pydict \<Rightarrow> int" where
  "sort_instant fromiso row = projr (ts_sort_key fromiso row)"

lemma order_rows_spec:
  assumes "order_rows fromiso rows = Inr ordered"
  shows "sorted (map (sort_instant fromiso) ordered)" "mset ordered = mset rows"
proof -
  obtain ks where ks: "map_result (ts_sort_key fromiso) rows = Inr ks" "ordered = map fst (sort_key snd ks)"
    using assms by (auto simp: order_rows_def bindR_Inr_iff)
  have "map (sort_instant fromiso) ordered = map snd (sort_key snd ks)"
    using map_result_snd [OF ks(1)] by (simp add: ks(2) sort_instant_def)
  then show "sorted (map (sort_instant fromiso) ordered)" by simp
  show "mset ordered = mset rows" by (simp add: ks(2) map_result_fst [OF ks(1), symmetric])
qed

text \<open>
  C29: The history of the store and the cache is merged without repetition or loss: the answer has
  at most \<open>limit\<close> rows, ascending in time, each a normalized row of one of the two sources, no
  two with the same event, symbol and timestamp; where several rows share these, the last one
  counts (the cache's over the store's), and it is the only one that is answered; and every
  row's last version is in the answer, unless the answer is full of rows that are not older
  than it.
\<close>

theorem history_merged:
  assumes "merge_history lib fromiso (Some n) stored cached = Inr answer" and "0 < n"
  shows "\<exists>rs. answer = map (normalise_row lib) rs \<and> length rs \<le> nat n \<and> set rs \<subseteq> set stored \<union> set cached \<and>
    sorted (map (sort_instant fromiso) rs) \<and> distinct (map (dedupe_key lib fromiso) rs) \<and>
    (\<forall>r\<in>set rs. last_version lib fromiso (stored @ cached) r = r) \<and>
    (\<forall>row\<in>set stored \<union> set cached. last_version lib fromiso (stored @ cached) row \<in> set rs \<or>
       length rs = nat n \<and>
       (\<forall>r\<in>set rs. sort_instant fromiso (last_version lib fromiso (stored @ cached) row) \<le> sort_instant fromiso r))"
proof -
  obtain merged ordered where m: "dedupe_rows lib fromiso (stored @ cached) = Inr merged"
    and o: "order_rows fromiso merged = Inr ordered" and ans: "answer = map (normalise_row lib) (slice_last n ordered)"
    using assms by (auto simp: merge_history_def bindR_Inr_iff cap_newest_def)
  note dd = dedupe_rows_spec [OF m] and oo = order_rows_spec [OF o]
  define old rs where "old = take (length ordered - nat n) ordered" and "rs = drop (length ordered - nat n) ordered"
  have slice: "slice_last n ordered = rs" using assms(2) by (simp add: slice_last_def rs_def)
  have parts: "ordered = old @ rs" by (simp add: old_def rs_def)
  have full: "old = [] \<or> length rs = nat n" by (simp add: old_def rs_def) linarith
  have short: "length rs \<le> nat n" by (simp add: rs_def)
  have sets: "set old \<union> set rs = set merged"
    using mset_eq_setD [OF oo(2)] unfolding parts set_append .
  have sorted: "sorted (map (sort_instant fromiso) old @ map (sort_instant fromiso) rs)"
    using oo(1) unfolding parts map_append .
  have "mset (map (dedupe_key lib fromiso) ordered) = mset (map (dedupe_key lib fromiso) merged)"
    unfolding mset_map oo(2) ..
  then have "distinct (map (dedupe_key lib fromiso) ordered)" using dd(1) mset_eq_imp_distinct_iff by blast
  then have dist: "distinct (map (dedupe_key lib fromiso) rs)" unfolding parts map_append distinct_append by blast
  have older: "sort_instant fromiso q \<le> sort_instant fromiso r" if "q \<in> set old" "r \<in> set rs" for q r
    using sorted that unfolding sorted_append by simp
  have repr: "last_version lib fromiso (stored @ cached) row \<in> set rs \<or> length rs = nat n \<and>
      (\<forall>r\<in>set rs. sort_instant fromiso (last_version lib fromiso (stored @ cached) row) \<le> sort_instant fromiso r)"
    if "row \<in> set stored \<union> set cached" for row
  proof (cases "last_version lib fromiso (stored @ cached) row \<in> set rs")
    case False
    have "row \<in> set (stored @ cached)" using that unfolding set_append .
    from dd(3) [OF this] have old: "last_version lib fromiso (stored @ cached) row \<in> set old"
      using False unfolding sets [symmetric] Un_iff by simp
    then have "old \<noteq> []" by (cases old) simp_all
    then have "length rs = nat n" using full by simp
    then show ?thesis using older [OF old] by simp
  qed simp
  have in_merged: "set rs \<subseteq> set merged" unfolding sets [symmetric] by simp
  also have "set merged \<subseteq> set stored \<union> set cached" using dd(2) unfolding set_append .
  finally have sub: "set rs \<subseteq> set stored \<union> set cached" .
  have latest: "last_version lib fromiso (stored @ cached) r = r" if "r \<in> set rs" for r
    by (rule dd(4)) (use in_merged that in blast)
  have sorted_rs: "sorted (map (sort_instant fromiso) rs)" using sorted unfolding sorted_append by simp
  show ?thesis
    by (intro exI [of _ rs] conjI ballI ans [unfolded slice] short sub sorted_rs dist repr latest)
qed

text \<open>Bounds of which one has an offset and the other none make the route raise, not answer 400.\<close>

lemma mixed_bounds_raise:
  assumes "valid_symbol symbol" "1 \<le> limit" "limit \<le> MAX_HISTORY_ROWS" "(dt_offset frm = None) \<noteq> (dt_offset until = None)"
  shows "\<exists>msg. get_market_history env symbol frm until limit s = (Inl (TypeError msg), s)"
  using assms by (auto simp: get_market_history_def later_than_def bindM_apply liftR_apply)

section \<open>Symbols\<close>

text \<open>The characters of a path symbol by their codes.\<close>

definition path_code :: "nat \<Rightarrow> bool" where
  "path_code n \<longleftrightarrow> 65 \<le> n \<and> n \<le> 90 \<or> 97 \<le> n \<and> n \<le> 122 \<or> 48 \<le> n \<and> n \<le> 57 \<or> n = 45 \<or> n = 46 \<or> n = 95"

lemma char_code: "c = d \<longleftrightarrow> (of_char c :: nat) = of_char d"
  by (simp add: of_char_eq_iff)

lemma symbol_path_char_code: "symbol_path_char c \<longleftrightarrow> path_code (of_char c)"
  unfolding symbol_path_char_def path_code_def chars_between_def insert_iff empty_iff char_code [of c]
  by simp blast

lemma upper_char_code:
  "(of_char (upper_char c) :: nat) = (if 97 \<le> (of_char c :: nat) \<and> (of_char c :: nat) \<le> 122 then of_char c - 32 else of_char c)"
proof (cases "97 \<le> (of_char c :: nat) \<and> (of_char c :: nat) \<le> 122")
  case True
  then have "(of_char c - 32 :: nat) mod 256 = of_char c - 32" by (intro mod_less) linarith
  with True show ?thesis by (simp add: upper_char_def chars_between_def of_char_of)
next
  case False
  then have "\<not> chars_between 97 122 c" unfolding chars_between_def .
  then have "upper_char c = c" by (simp add: upper_char_def)
  with False show ?thesis by (simp only: if_False)
qed

lemma lower_char_code:
  "(of_char (lower_char c) :: nat) = (if 65 \<le> (of_char c :: nat) \<and> (of_char c :: nat) \<le> 90 then of_char c + 32 else of_char c)"
  by (simp add: lower_char_def chars_between_def of_char_of)

lemma path_char_upper:
  assumes "symbol_path_char c"
  shows "symbol_path_char (upper_char c)" "\<not> chars_between 97 122 (upper_char c)"
    "upper_char c \<noteq> CHR 0x27" "upper_char c \<noteq> CHR '':''" "\<not> is_space c"
    "symbol_path_char (lower_char c)" "upper_char (lower_char c) = upper_char c"
  using assms
  unfolding symbol_path_char_code upper_char_code char_code [of "upper_char c"] is_space_def chars_between_def
    lower_char_code char_code [of "upper_char (lower_char c)"] path_code_def
  by (simp_all split: if_splits) linarith+

lemma dropWhile_none: "list_all (\<lambda>c. \<not> P c) xs \<Longrightarrow> dropWhile P xs = xs"
  by (cases xs) simp_all

lemma strip_no_space: "list_all (\<lambda>c. \<not> is_space c) s \<Longrightarrow> str_strip s = s"
  by (simp add: str_strip_def str_rstrip_def str_lstrip_def dropWhile_none)

lemma path_symbol_strip: "list_all symbol_path_char s \<Longrightarrow> str_strip s = s"
  by (rule strip_no_space) (auto simp: list_all_iff path_char_upper)

lemma replace_char_absent: "c \<notin> set s \<Longrightarrow> replace_char c r s = s"
  by (induction s) (auto simp: replace_char_def)

text \<open>
  A symbol that passes the path check stays one under normalization, which is idempotent and
  blind to case; the result has no quote and no colon, so that its SQL literal is the symbol
  between quotes, nothing escaped, and its cache key has no further part.
\<close>

theorem symbol_stays_valid:
  assumes "valid_symbol s"
  shows "valid_symbol (normalize_symbol s) \<and> normalize_symbol (normalize_symbol s) = normalize_symbol s \<and>
    normalize_symbol (str_lower s) = normalize_symbol s \<and> CHR '':'' \<notin> set (normalize_symbol s) \<and>
    sql_literal (normalize_symbol s) = sq (normalize_symbol s)"
proof -
  have s: "s \<noteq> []" "length s \<le> SYMBOL_MAX_LENGTH" "list_all symbol_path_char s" "\<forall>c\<in>set s. symbol_path_char c"
    using assms by (simp_all add: valid_symbol_def list_all_iff)
  have norm: "normalize_symbol s = map upper_char s"
    by (simp add: normalize_symbol_def path_symbol_strip [OF s(3)] str_upper_def)
  have up: "list_all symbol_path_char (map upper_char s)" and low: "list_all symbol_path_char (map lower_char s)"
    using s(4) by (simp_all add: list_all_iff path_char_upper)
  have fixed: "upper_char c = c" if "\<not> chars_between 97 122 c" for c using that by (simp add: upper_char_def)
  have "normalize_symbol (map upper_char s) = map upper_char s"
    using s(4) by (simp add: normalize_symbol_def path_symbol_strip [OF up] str_upper_def fixed path_char_upper)
  moreover have "normalize_symbol (str_lower s) = map upper_char s"
    using s(4) by (simp add: normalize_symbol_def str_lower_def path_symbol_strip [OF low] str_upper_def path_char_upper)
  moreover have absent: "CHR '':'' \<notin> set (map upper_char s)" "CHR 0x27 \<notin> set (map upper_char s)"
    using s(4) path_char_upper(3,4) by fastforce+
  moreover have "valid_symbol (map upper_char s)" using s(1,2) up by (simp add: valid_symbol_def)
  ultimately show ?thesis unfolding norm by (simp only: sql_literal_def sq_def replace_char_absent simp_thms append_Cons)
qed

theorem symbol_stays_valid_witness: "normalize_symbol (normalize_symbol ''brk.b'') = normalize_symbol ''brk.b''"
proof -
  have "valid_symbol ''brk.b''"
    by (simp add: valid_symbol_def SYMBOL_MAX_LENGTH_def symbol_path_char_def chars_between_def)
  from symbol_stays_valid [OF this] show ?thesis by blast
qed

section \<open>Witnesses\<close>

definition hot_alert :: alert_event where
  "hot_alert = \<lparr>event_id = ''a1'', event_ts = utc_datetime 0, correlation_id = None, trace_id = None,
     al_symbol = ''BTCUSDT'', al_rule = ''rsi'', al_severity = ''high'', al_message = ''hot'', al_dedupe_key = ''k''\<rparr>"

definition alert_lib :: pylib where
  "alert_lib = null_lib\<lparr>validate_alert := (\<lambda>v. if v = PInt 1 then Inr hot_alert else Inl ''bad'')\<rparr>"

definition alert_bus :: inmem_bus where
  "alert_bus = snd (ib_publish ''alerts'' (PInt 0) (Some ''b'') None
     (snd (ib_publish ''alerts'' (PInt 1) (Some ''a'') None
       (snd (ib_peek ''alerts'' ''api'' 0 None (inmem_bus_init (\<lambda>_. ''id'')))))))"

definition alert_env :: "(inmem_ts, inmem_cache, inmem_bus) api_env" where
  "alert_env = \<lparr>ae_store = inmem_ts_ops alert_lib, ae_cache = inmem_cache_ops, ae_bus = inmem_bus_ops, ae_lib = alert_lib, ae_iso = (\<lambda>_. None),
     ae_signal_topic = ''signals'', ae_alert_topic = ''alerts'', ae_insight_topic = ''insights'', ae_subscription = ''api'',
     ae_store_class = ''InMemoryTimeSeriesStore'', ae_cache_class = ''InMemoryCache'', ae_bus_class = ''InMemoryBus''\<rparr>"

definition alert_start :: "(inmem_ts, inmem_cache, inmem_bus) api_state" where
  "alert_start = \<lparr>ap_store = inmem_ts_init, ap_cache = inmem_cache_init second_clock, ap_bus = alert_bus, ap_broker = broker_init,
     ap_metrics = \<lparr>http = http_metrics_init, last_error = None, xm_requests_total = 0, xm_symbols_requests = 0,
       xm_latest_requests = 0, xm_history_requests = 0, xm_indicators_requests = 0, xm_signals_requests = 0,
       xm_alerts_requests = 0, xm_insights_requests = 0\<rparr>,
     ap_recent = (\<lambda>_. []), ap_cursor = (\<lambda>_. None)\<rparr>"

lemma alert_start_sel:
  "ap_bus alert_start = alert_bus" "ap_recent alert_start = (\<lambda>_. [])" "ap_cursor alert_start = (\<lambda>_. None)"
  by (simp_all add: alert_start_def)

lemma alert_env_sel:
  "ae_bus alert_env = inmem_bus_ops" "ae_lib alert_env = alert_lib" "ae_alert_topic alert_env = ''alerts''"
  "ae_subscription alert_env = ''api''"
  by (simp_all add: alert_env_def)

lemma alert_bus_queue:
  "queue_of alert_bus ''alerts'' ''api'' =
     [\<lparr>msg_topic = ''alerts'', msg_sub = ''api'', msg_body = PInt 1, msg_id = ''a'', msg_corr = None, msg_seq = Some 1, msg_dlq = False\<rparr>,
      \<lparr>msg_topic = ''alerts'', msg_sub = ''api'', msg_body = PInt 0, msg_id = ''b'', msg_corr = None, msg_seq = Some 2, msg_dlq = False\<rparr>]"
  by (simp add: alert_bus_def ib_defs inmem_bus_init_def queue_of_def set_queue_def pick_message_id_def Let_def)

theorem alerts_newest_first_witness:
  "\<exists>d s'. api_alerts alert_env 10 alert_start = (Inr [d], s') \<and> dget d ''symbol'' = PStr ''BTCUSDT''"
proof -
  have inv: "bus_inv alert_bus" unfolding alert_bus_def by (intro bus_inv_publish bus_inv_peek bus_inv_init)
  have start: "read_model alert_env (ae_alert_topic alert_env) AlertModel 0 alert_start"
    using inv by (simp add: read_model_def alert_start_sel read_up_to_def validated_payloads_def newest_def)
  have len: "length (queue_of (ap_bus alert_start) (ae_alert_topic alert_env) (ae_subscription alert_env)) \<le> 0 + 2000"
    by (simp add: alert_start_sel alert_env_sel alert_bus_queue)
  have ps: "validated_payloads alert_lib AlertModel (queue_of alert_bus ''alerts'' ''api'') =
      [dict_of (alert_dump alert_lib hot_alert)]"
    by (simp add: alert_bus_queue validated_payloads_def List.map_filter_def validated_payload_def validate_dump_def alert_lib_def)
  have d: "dget (dict_of (alert_dump alert_lib hot_alert)) ''symbol'' = PStr ''BTCUSDT''"
    by (simp add: dict_of_def alert_dump_def base_dump_def hot_alert_def)
  have limits: "0 < (10 :: int)" "(10 :: int) \<le> 500" by simp_all
  from alerts_newest_first [OF alert_env_sel(1) start len limits, of "''alerts''" PNone None None] obtain s' where
    "api_alerts alert_env 10 alert_start = (Inr (rev (newest (nat 10) [dict_of (alert_dump alert_lib hot_alert)])), s')"
    unfolding alert_start_sel alert_env_sel ps by blast
  then have "api_alerts alert_env 10 alert_start = (Inr [dict_of (alert_dump alert_lib hot_alert)], s')"
    by (simp add: newest_def)
  with d show ?thesis by blast
qed

definition stored_row :: "string \<Rightarrow> int \<Rightarrow> pydict" where
  "stored_row eid t = [(''event_id'', PStr eid), (''symbol'', PStr ''BTC''), (''ts'', PTime (utc_datetime t))]"

lemma merged_rows:
  "merge_history null_lib (\<lambda>_. None) (Some 2) [stored_row ''b'' 20] [stored_row ''a'' 10, stored_row ''b'' 20, stored_row ''c'' 30]
     = Inr (map (normalise_row null_lib) [stored_row ''b'' 20, stored_row ''c'' 30])"
  by (simp add: merge_history_def dedupe_rows_def dedupe_key_def either_timestamp_def row_timestamp_def stored_row_def
      api_parse_ts_def text_or_empty_def null_lib_def order_rows_def ts_sort_key_def utc_datetime_def normalise_datetime_def
      cap_newest_def slice_last_def py_or_def)

theorem history_merged_witness:
  "\<exists>rs. map (normalise_row null_lib) [stored_row ''b'' 20, stored_row ''c'' 30] = map (normalise_row null_lib) rs \<and>
     length rs \<le> 2 \<and> sorted (map (sort_instant (\<lambda>_. None)) rs) \<and> distinct (map (dedupe_key null_lib (\<lambda>_. None)) rs)"
proof -
  have "0 < (2 :: int)" by simp
  from history_merged [OF merged_rows this] obtain rs where
    rs: "map (normalise_row null_lib) [stored_row ''b'' 20, stored_row ''c'' 30] = map (normalise_row null_lib) rs"
    "length rs \<le> nat 2" "sorted (map (sort_instant (\<lambda>_. None)) rs)" "distinct (map (dedupe_key null_lib (\<lambda>_. None)) rs)"
    by (elim exE conjE) assumption
  have "length rs \<le> 2" using rs(2) by (simp only: nat_numeral)
  show ?thesis by (intro exI [of _ rs] conjI rs(1) rs(3) rs(4)) fact
qed

end
