(* ===== verification/BusLog.thy ===== *)
theory BusLog
  imports BusContract
begin

text \<open>
  An abstract specification of the message bus, and \<open>InMemoryBus\<close> as an implementation of it: a
  topic is an append-only log without repeated ids, a subscription a cursor into the log that
  is set to its end when the subscription is first accessed, and a dead-letter queue a list.
  The queues, counters and identifier sets of the bus are a representation of log and cursors.
\<close>

section \<open>The specification\<close>

record log_entry =
  le_id :: string
  le_body :: pyval
  le_corr :: "string option"

record bus_log =
  bl_entries :: "string \<Rightarrow> log_entry list"
  bl_cursor :: "string \<Rightarrow> string \<Rightarrow> nat option"
  bl_dead :: "string \<Rightarrow> string \<Rightarrow> message list"
  bl_uuids :: "nat \<Rightarrow> string"
  bl_next :: nat

definition bus_log_init :: "(nat \<Rightarrow> string) \<Rightarrow> bus_log" where
  "bus_log_init us = \<lparr>bl_entries = (\<lambda>_. []), bl_cursor = (\<lambda>_ _. None), bl_dead = (\<lambda>_ _. []), bl_uuids = us, bl_next = 0\<rparr>"

text \<open>Entry \<open>i\<close> of a topic, counted from 0, as a subscription sees it: numbered from 1.\<close>

definition entry_message :: "bus_log \<Rightarrow> string \<Rightarrow> string \<Rightarrow> nat \<Rightarrow> message" where
  "entry_message l t s i =
     published_message t s (le_body (bl_entries l t ! i)) (le_id (bl_entries l t ! i)) (le_corr (bl_entries l t ! i)) (int i + 1)"

text \<open>Where a subscription reads on: it is opened at the end of the log.\<close>

definition position :: "bus_log \<Rightarrow> string \<Rightarrow> string \<Rightarrow> nat" where
  "position l t s = (case bl_cursor l t s of None \<Rightarrow> length (bl_entries l t) | Some c \<Rightarrow> c)"

definition seek :: "string \<Rightarrow> string \<Rightarrow> nat \<Rightarrow> bus_log \<Rightarrow> bus_log" where
  "seek t s c l = l\<lparr>bl_cursor := (bl_cursor l)(t := (bl_cursor l t)(s \<mapsto> c))\<rparr>"

definition unread :: "bus_log \<Rightarrow> string \<Rightarrow> string \<Rightarrow> message list" where
  "unread l t s = map (entry_message l t s) [position l t s..<length (bl_entries l t)]"

text \<open>Appending: an empty or missing id is drawn fresh, an id the log holds appends nothing.\<close>

definition log_append :: "string \<Rightarrow> pyval \<Rightarrow> string option \<Rightarrow> string option \<Rightarrow> bus_log \<Rightarrow> bus_log" where
  "log_append t body mid corr l0 =
     (let (i, l) = (case mid of Some (c # cs) \<Rightarrow> (c # cs, l0)
                    | _ \<Rightarrow> (bl_uuids l0 (bl_next l0), l0\<lparr>bl_next := Suc (bl_next l0)\<rparr>)) in
      if i \<in> le_id ` set (bl_entries l t) then l
      else l\<lparr>bl_entries := (bl_entries l)(t := bl_entries l t @ [\<lparr>le_id = i, le_body = body, le_corr = corr\<rparr>])\<rparr>)"

text \<open>What an operation answers, and the log after it.  Completing leaves no trace in the log.\<close>

fun log_step :: "bus_act \<Rightarrow> bus_log \<Rightarrow> message list \<times> bus_log" where
  "log_step (Publish t body mid corr) l = ([], log_append t body mid corr l)"
| "log_step (Receive t s n) l =
     (take (nat n) (unread l t s), seek t s (min (position l t s + nat n) (length (bl_entries l t))) l)"
| "log_step (Complete m) l = ([], l)"
| "log_step (DeadLetter m reason) l =
     ([], l\<lparr>bl_dead := (bl_dead l)(msg_topic m := (bl_dead l (msg_topic m))(msg_sub m :=
        bl_dead l (msg_topic m) (msg_sub m) @ [m\<lparr>msg_dlq := True\<rparr>]))\<rparr>)"
| "log_step (Peek t s n from_seq) l =
     (slice_first n (case from_seq of None \<Rightarrow> unread l t s | Some c \<Rightarrow> filter (seq_at_least c) (unread l t s)),
      seek t s (position l t s) l)"
| "log_step (DrainDead t s) l =
     (bl_dead l t s, l\<lparr>bl_dead := (bl_dead l)(t := (bl_dead l t)(s := []))\<rparr>)"

fun log_answers :: "bus_act list \<Rightarrow> bus_log \<Rightarrow> message list list" where
  "log_answers [] l = []"
| "log_answers (a # as) l = fst (log_step a l) # log_answers as (snd (log_step a l))"

section \<open>The implementation\<close>

definition no_answer :: "(inmem_bus, unit) pm \<Rightarrow> (inmem_bus, message list) pm" where
  "no_answer m = thenM m (returnM [])"

fun bus_do :: "bus_act \<Rightarrow> (inmem_bus, message list) pm" where
  "bus_do (Publish t body mid corr) = no_answer (ib_publish t body mid corr)"
| "bus_do (Receive t s n) = ib_receive t s n"
| "bus_do (Complete m) = no_answer (ib_complete m)"
| "bus_do (DeadLetter m reason) = no_answer (ib_dead_letter m reason)"
| "bus_do (Peek t s n from_seq) = ib_peek t s n from_seq"
| "bus_do (DrainDead t s) = ib_receive_dead_letter t s"

text \<open>The answers of a run, and whatever exception an operation raised.\<close>

fun bus_answers :: "bus_act list \<Rightarrow> inmem_bus \<Rightarrow> message list result list" where
  "bus_answers [] b = []"
| "bus_answers (a # as) b = fst (bus_do a b) # bus_answers as (snd (bus_do a b))"

section \<open>The simulation\<close>

definition represents :: "inmem_bus \<Rightarrow> bus_log \<Rightarrow> bool" where
  "represents b l \<longleftrightarrow>
     (\<forall>t. next_sequence b t = int (length (bl_entries l t)) + 1 \<and> seen_ids b t = le_id ` set (bl_entries l t)) \<and>
     (\<forall>t s. queues b t s = map_option (\<lambda>c. map (entry_message l t s) [c..<length (bl_entries l t)]) (bl_cursor l t s) \<and>
        (\<forall>c. bl_cursor l t s = Some c \<longrightarrow> c \<le> length (bl_entries l t))) \<and>
     dlqs b = bl_dead l \<and> uuids b = bl_uuids l \<and> uuid_next b = bl_next l"

lemma represents_init: "represents (inmem_bus_init us) (bus_log_init us)"
  by (simp add: represents_def inmem_bus_init_def bus_log_init_def)

lemma representsD:
  assumes "represents b l"
  shows "next_sequence b t = int (length (bl_entries l t)) + 1" "seen_ids b t = le_id ` set (bl_entries l t)"
    "queues b t s = map_option (\<lambda>c. map (entry_message l t s) [c..<length (bl_entries l t)]) (bl_cursor l t s)"
    "bl_cursor l t s = Some c \<Longrightarrow> c \<le> length (bl_entries l t)"
    "dlqs b = bl_dead l" "uuids b = bl_uuids l" "uuid_next b = bl_next l"
  using assms by (auto simp: represents_def)

lemma represents_unread: "represents b l \<Longrightarrow> queue_of b t s = unread l t s"
  by (simp add: queue_of_def unread_def position_def representsD(3) split: option.split)

lemma represents_position: "represents b l \<Longrightarrow> position l t s \<le> length (bl_entries l t)"
  using representsD(4) by (auto simp: position_def split: option.split)

lemma seek_parts [simp]:
  "bl_entries (seek t s c l) = bl_entries l" "bl_dead (seek t s c l) = bl_dead l"
  "bl_uuids (seek t s c l) = bl_uuids l" "bl_next (seek t s c l) = bl_next l"
  "bl_cursor (seek t s c l) t' s' = (if t' = t \<and> s' = s then Some c else bl_cursor l t' s')"
  by (simp_all add: seek_def)

lemma entry_message_frame [simp]:
  "entry_message (l\<lparr>bl_dead := d\<rparr>) = entry_message l" "entry_message (l\<lparr>bl_next := k\<rparr>) = entry_message l"
  by (simp_all add: entry_message_def fun_eq_iff)

lemma entry_message_cong: "bl_entries l' = bl_entries l \<Longrightarrow> entry_message l' t s = entry_message l t s"
  by (simp add: entry_message_def fun_eq_iff)

text \<open>Moving a cursor is replacing the queue by the entries after it.\<close>

lemma represents_seek:
  assumes "represents b l" "c \<le> length (bl_entries l t)"
    and "\<And>t' s'. queues b' t' s' = (if t' = t \<and> s' = s then Some (map (entry_message l t s) [c..<length (bl_entries l t)])
      else queues b t' s')"
    and "next_sequence b' = next_sequence b" "seen_ids b' = seen_ids b" "dlqs b' = dlqs b" "uuids b' = uuids b"
      "uuid_next b' = uuid_next b"
  shows "represents b' (seek t s c l)"
  using assms(1,2) unfolding represents_def assms(3-8)
  by (auto simp: entry_message_cong [of "seek t s c l" l])

lemma represents_receive:
  assumes "represents b l"
  shows "fst (ib_receive t s n b) = Inr (take (nat n) (unread l t s))"
    and "represents (snd (ib_receive t s n b)) (seek t s (min (position l t s + nat n) (length (bl_entries l t))) l)"
proof -
  show "fst (ib_receive t s n b) = Inr (take (nat n) (unread l t s))"
    by (simp add: receive_parts represents_unread [OF assms])
  have rest: "drop (nat n) (queue_of b t s) =
      map (entry_message l t s) [min (position l t s + nat n) (length (bl_entries l t))..<length (bl_entries l t)]"
    by (simp add: represents_unread [OF assms] unread_def drop_map min_def)
  show "represents (snd (ib_receive t s n b)) (seek t s (min (position l t s + nat n) (length (bl_entries l t))) l)"
    by (rule represents_seek [OF assms])
       (auto simp: rest [symmetric] ib_receive_def Let_def set_queue_def)
qed

lemma represents_peek:
  assumes "represents b l"
  shows "represents (snd (ib_peek t s n c b)) (seek t s (position l t s) l)"
  by (rule represents_seek [OF assms represents_position [OF assms]])
     (auto simp: ib_peek_def Let_def set_queue_def represents_unread [OF assms] unread_def)

lemma entry_message_append:
  "entry_message (l\<lparr>bl_entries := (bl_entries l)(t := bl_entries l t @ es)\<rparr>) t' s' i =
     (if t' = t \<and> length (bl_entries l t) \<le> i
      then published_message t s' (le_body (es ! (i - length (bl_entries l t)))) (le_id (es ! (i - length (bl_entries l t))))
        (le_corr (es ! (i - length (bl_entries l t)))) (int i + 1)
      else entry_message l t' s' i)"
  by (simp add: entry_message_def nth_append)

lemma represents_append:
  assumes "represents b l" "i \<notin> le_id ` set (bl_entries l t)"
    and "\<And>t' s'. queues b' t' s' = map_option (\<lambda>q. if t' = t then q @ [published_message t s' body i corr (next_sequence b t)] else q)
      (queues b t' s')"
    and "\<And>t'. next_sequence b' t' = (if t' = t then next_sequence b t + 1 else next_sequence b t')"
    and "\<And>t'. seen_ids b' t' = (if t' = t then insert i (seen_ids b t) else seen_ids b t')"
    and "dlqs b' = dlqs b" "uuids b' = uuids b" "uuid_next b' = uuid_next b"
  shows "represents b' (l\<lparr>bl_entries := (bl_entries l)(t := bl_entries l t @ [\<lparr>le_id = i, le_body = body, le_corr = corr\<rparr>])\<rparr>)"
proof -
  let ?e = "\<lparr>le_id = i, le_body = body, le_corr = corr\<rparr>"
  let ?l = "l\<lparr>bl_entries := (bl_entries l)(t := bl_entries l t @ [?e])\<rparr>"
  have old: "map (entry_message ?l t s) [c..<length (bl_entries l t)] = map (entry_message l t s) [c..<length (bl_entries l t)]"
    for c s by (rule map_cong) (auto simp: entry_message_append)
  have new: "entry_message ?l t s (length (bl_entries l t)) = published_message t s body i corr (next_sequence b t)" for s
    by (simp add: entry_message_append representsD(1) [OF assms(1)])
  have other: "t' \<noteq> t \<Longrightarrow> entry_message ?l t' s = entry_message l t' s" for t' s
    by (simp add: fun_eq_iff entry_message_append)
  have queue: "queues b' t' s = map_option (\<lambda>c. map (entry_message ?l t' s) [c..<length (bl_entries ?l t')]) (bl_cursor ?l t' s)"
    for t' s
  proof (cases "bl_cursor l t' s")
    case (Some c)
    then show ?thesis using representsD(4) [OF assms(1) Some]
      by (cases "t' = t") (simp_all add: assms(3) representsD(3) [OF assms(1)] old new other)
  qed (simp add: assms(3) representsD(3) [OF assms(1)])
  show ?thesis
    unfolding represents_def
    using queue representsD [OF assms(1)] assms(4-8) by (auto split: option.split intro: le_SucI)
qed

lemma represents_fresh:
  "represents b l \<Longrightarrow> represents (b\<lparr>uuid_next := Suc (uuid_next b)\<rparr>) (l\<lparr>bl_next := Suc (bl_next l)\<rparr>)"
  by (simp add: represents_def)

lemma represents_publish:
  assumes "represents b l"
  shows "represents (snd (ib_publish t body mid corr b)) (log_append t body mid corr l)"
proof -
  define i where "i = fst (pick_message_id mid b)"
  define b1 where "b1 = snd (pick_message_id mid b)"
  define l1 where "l1 = (case mid of Some (c # cs) \<Rightarrow> l | _ \<Rightarrow> l\<lparr>bl_next := Suc (bl_next l)\<rparr>)"
  have l1: "(case mid of Some (c # cs) \<Rightarrow> (c # cs, l)
      | _ \<Rightarrow> (bl_uuids l (bl_next l), l\<lparr>bl_next := Suc (bl_next l)\<rparr>)) = (i, l1)" "represents b1 l1"
    using assms represents_fresh [OF assms] representsD(6,7) [OF assms]
    by (auto simp: i_def b1_def l1_def pick_message_id_def split: option.split list.split)
  show ?thesis
  proof (cases "i \<in> le_id ` set (bl_entries l1 t)")
    case True
    then have "fst (pick_message_id mid b) \<in> seen_ids b t"
      using representsD(2) [OF l1(2), of t] by (simp add: i_def b1_def)
    then show ?thesis using True l1 by (simp add: ib_publish_dup log_append_def b1_def Let_def)
  next
    case False
    then have new: "fst (pick_message_id mid b) \<notin> seen_ids b t"
      using representsD(2) [OF l1(2), of t] by (simp add: i_def b1_def)
    have "snd (ib_publish t body mid corr b) = b1\<lparr>seen_ids := (seen_ids b1)(t := insert i (seen_ids b1 t)),
        next_sequence := (next_sequence b1)(t := next_sequence b1 t + 1),
        queues := (queues b1)(t := (\<lambda>s. map_option (\<lambda>q. q @ [published_message t s body i corr (next_sequence b1 t)]) (queues b1 t s)))\<rparr>"
      using new by (simp add: ib_publish_def Let_def split_beta i_def b1_def published_message_def)
    moreover have "represents \<dots> (l1\<lparr>bl_entries := (bl_entries l1)(t := bl_entries l1 t @ [\<lparr>le_id = i, le_body = body, le_corr = corr\<rparr>])\<rparr>)"
      by (rule represents_append [OF l1(2) False]) (auto simp: option.map_id0 [unfolded id_def])
    ultimately show ?thesis using False l1(1) by (simp add: log_append_def Let_def)
  qed
qed

lemma represents_step:
  assumes "represents b l"
  shows "fst (bus_do a b) = Inr (fst (log_step a l)) \<and> represents (snd (bus_do a b)) (snd (log_step a l))"
proof (cases a)
  case (Publish t body mid corr)
  then show ?thesis using represents_publish [OF assms] by (simp add: no_answer_def thenM_apply returnM_def)
next
  case (Receive t s n)
  then show ?thesis using represents_receive [OF assms] by simp
next
  case (Peek t s n c)
  then show ?thesis using represents_peek [OF assms, of t s n c]
    by (simp add: ib_peek_def Let_def represents_unread [OF assms] split: option.split)
next
  case (Complete m)
  then show ?thesis using assms by (simp add: no_answer_def thenM_apply returnM_def ib_complete_def represents_def)
next
  case (DeadLetter m reason)
  then show ?thesis using assms
    by (simp add: no_answer_def thenM_apply returnM_def ib_dead_letter_def represents_def Let_def)
next
  case (DrainDead t s)
  then show ?thesis using assms by (simp add: ib_receive_dead_letter_def represents_def)
qed

lemma bus_answers_log:
  "represents b l \<Longrightarrow> bus_answers as b = map Inr (log_answers as l)"
proof (induction as arbitrary: b l)
  case (Cons a as)
  from represents_step [OF Cons.prems, of a] Cons.IH show ?case by simp
qed simp

text \<open>
  C5: The in-memory bus is an append-only log with cursors: any sequence of publishes, receives,
  settlements, peeks and drains of dead letters answers on a fresh bus exactly what it answers
  on a log in which a publish appends unless its id is there, and a subscription reads on from
  where it stands; no operation ever raises.
\<close>

theorem bus_refines_log:
  "bus_answers as (inmem_bus_init us) = map Inr (log_answers as (bus_log_init us))"
  by (rule bus_answers_log [OF represents_init])

end
