(* ===== verification/ServiceBus.thy ===== *)
theory ServiceBus
  imports Bus
begin

text \<open>
  \<open>ServiceBusBus\<close> of \<open>libs/common/bus.py\<close>, the wrapper over the Azure SDK: cached senders and
  receivers, the decoding of bodies, messages that carry the receiver they must be settled on,
  and the release of every link.  The SDK's client is a parameter: a record of operations on a
  state of its own, in which a sender or receiver is a number.
\<close>

section \<open>Bodies\<close>

text \<open>A body is one section or an iterable of them, each text or bytes.\<close>

datatype amqp_section = TextSection string | BytesSection "nat list"

datatype amqp_body = OneSection amqp_section | Sections "amqp_section list"

text \<open>
  \<open>json.loads\<close> on bytes answers the decoder's message or the value, \<open>json.dumps\<close> the message of
  its \<open>TypeError\<close> or the text.
\<close>

record json_lib =
  loads_bytes :: "nat list \<Rightarrow> string + pyval"
  dumps :: "pyval \<Rightarrow> string + string"

definition section_bytes :: "amqp_section \<Rightarrow> nat list" where
  "section_bytes sec = (case sec of TextSection s \<Rightarrow> utf8 s | BytesSection b \<Rightarrow> b)"

definition body_bytes :: "amqp_body \<Rightarrow> nat list" where
  "body_bytes body = (case body of OneSection sec \<Rightarrow> section_bytes sec
     | Sections secs \<Rightarrow> concat (map section_bytes secs))"

definition decode_servicebus_body :: "json_lib \<Rightarrow> amqp_body \<Rightarrow> pyval result" where
  "decode_servicebus_body jl body =
     (case loads_bytes jl (body_bytes body) of
        Inl t \<Rightarrow> Inl (ValueError t)
      | Inr v \<Rightarrow> (case v of PDict _ \<Rightarrow> Inr v
                   | _ \<Rightarrow> Inl (TypeError ''Service Bus message body must decode to a JSON object'')))"

section \<open>The client\<close>

record raw_message =
  raw_body :: amqp_body
  raw_id :: "string option"
  raw_corr :: "string option"
  raw_seq :: "int option"
  raw_lock :: string

record outgoing_message =
  og_body :: "nat list"
  og_id :: string
  og_corr :: "string option"

record 'x azure =
  az_topic_sender :: "string \<Rightarrow> ('x, nat) pm"
  az_subscription_receiver :: "string \<Rightarrow> string \<Rightarrow> string option \<Rightarrow> ('x, nat) pm"
  az_send_messages :: "nat \<Rightarrow> outgoing_message \<Rightarrow> ('x, unit) pm"
  az_receive_messages :: "nat \<Rightarrow> int \<Rightarrow> int \<Rightarrow> ('x, raw_message list) pm"
  az_peek_messages :: "nat \<Rightarrow> int \<Rightarrow> int option \<Rightarrow> ('x, raw_message list) pm"
  az_complete_message :: "nat \<Rightarrow> raw_message \<Rightarrow> ('x, unit) pm"
  az_dead_letter_message :: "nat \<Rightarrow> raw_message \<Rightarrow> string \<Rightarrow> ('x, unit) pm"
  az_close_link :: "nat \<Rightarrow> ('x, unit) pm"
  az_close_client :: "('x, unit) pm"

section \<open>State\<close>

record sb_ref =
  ref_raw :: raw_message
  ref_receiver :: nat

record sb_message = message +
  sb_queue_ref :: "sb_ref option"

type_synonym link_key = "string \<times> string \<times> string option"

record 'x service_bus =
  sb_client :: 'x
  sb_senders :: "(string, nat) dict"
  sb_receivers :: "(link_key, nat) dict"
  sb_locks :: "(link_key, nat) dict"
  sb_uuids :: "nat \<Rightarrow> string"
  sb_uuid_next :: nat

definition sb_init :: "(nat \<Rightarrow> string) \<Rightarrow> 'x \<Rightarrow> 'x service_bus" where
  "sb_init us x = \<lparr>sb_client = x, sb_senders = [], sb_receivers = [], sb_locks = [], sb_uuids = us, sb_uuid_next = 0\<rparr>"

definition on_client :: "('x, 'a) pm \<Rightarrow> ('x service_bus, 'a) pm" where
  "on_client = zoomM sb_client (\<lambda>x s. s\<lparr>sb_client := x\<rparr>)"

section \<open>Cached links\<close>

definition get_sender :: "'x azure \<Rightarrow> string \<Rightarrow> ('x service_bus, nat) pm" where
  "get_sender az topic = (\<lambda>s.
     case map_of (sb_senders s) topic of
       Some h \<Rightarrow> (Inr h, s)
     | None \<Rightarrow> bindM (on_client (az_topic_sender az topic)) (\<lambda>h.
                 thenM (modifyM (\<lambda>s. s\<lparr>sb_senders := dict_set (sb_senders s) topic h\<rparr>)) (returnM h)) s)"

definition get_receiver :: "'x azure \<Rightarrow> link_key \<Rightarrow> ('x service_bus, nat) pm" where
  "get_receiver az key = (\<lambda>s.
     case map_of (sb_receivers s) key of
       Some h \<Rightarrow> (Inr h, s)
     | None \<Rightarrow> (case key of (topic, sub, sub_queue) \<Rightarrow>
         bindM (on_client (az_subscription_receiver az topic sub sub_queue)) (\<lambda>h.
           thenM (modifyM (\<lambda>s. s\<lparr>sb_receivers := dict_set (sb_receivers s) key h\<rparr>)) (returnM h))) s)"

text \<open>
  A lock is an object; it is the number of locks that were made before it, and the dictionary
  of locks never loses one.
\<close>

definition get_receiver_lock :: "link_key \<Rightarrow> ('x service_bus, nat) pm" where
  "get_receiver_lock key = (\<lambda>s.
     case map_of (sb_locks s) key of
       Some l \<Rightarrow> (Inr l, s)
     | None \<Rightarrow> (let l = length (sb_locks s) in (Inr l, s\<lparr>sb_locks := dict_set (sb_locks s) key l\<rparr>)))"

section \<open>Operations\<close>

definition fresh_id :: "string option \<Rightarrow> ('x service_bus, string) pm" where
  "fresh_id mid = (\<lambda>s. case mid of
       Some m \<Rightarrow> if m \<noteq> [] then (Inr m, s) else (Inr (sb_uuids s (sb_uuid_next s)), s\<lparr>sb_uuid_next := Suc (sb_uuid_next s)\<rparr>)
     | None \<Rightarrow> (Inr (sb_uuids s (sb_uuid_next s)), s\<lparr>sb_uuid_next := Suc (sb_uuid_next s)\<rparr>))"

definition encoded_body :: "json_lib \<Rightarrow> pyval \<Rightarrow> nat list result" where
  "encoded_body jl body = (case dumps jl body of Inl t \<Rightarrow> Inl (TypeError t) | Inr s \<Rightarrow> Inr (utf8 s))"

definition sb_publish ::
  "'x azure \<Rightarrow> json_lib \<Rightarrow> string \<Rightarrow> pyval \<Rightarrow> string option \<Rightarrow> string option \<Rightarrow> ('x service_bus, unit) pm" where
  "sb_publish az jl topic body mid corr =
     bindM (liftR (encoded_body jl body)) (\<lambda>data.
     bindM (fresh_id mid) (\<lambda>i.
     bindM (get_sender az topic) (\<lambda>h.
       on_client (az_send_messages az h \<lparr>og_body = data, og_id = i, og_corr = corr\<rparr>))))"

definition raw_text :: "string option \<Rightarrow> string" where
  "raw_text v = (case v of None \<Rightarrow> [] | Some s \<Rightarrow> s)"

definition received_message ::
  "json_lib \<Rightarrow> string \<Rightarrow> string \<Rightarrow> nat option \<Rightarrow> bool \<Rightarrow> bool \<Rightarrow> raw_message \<Rightarrow> sb_message result" where
  "received_message jl topic sub receiver numbered dlq raw =
     bindR (decode_servicebus_body jl (raw_body raw)) (\<lambda>body.
       Inr \<lparr>msg_topic = topic, msg_sub = sub, msg_body = body, msg_id = raw_text (raw_id raw),
            msg_corr = Some (raw_text (raw_corr raw)), msg_seq = (if numbered then raw_seq raw else None), msg_dlq = dlq,
            sb_queue_ref = map_option (\<lambda>h. \<lparr>ref_raw = raw, ref_receiver = h\<rparr>) receiver\<rparr>)"

definition sb_receive ::
  "'x azure \<Rightarrow> json_lib \<Rightarrow> string \<Rightarrow> string \<Rightarrow> int \<Rightarrow> ('x service_bus, sb_message list) pm" where
  "sb_receive az jl topic sub max_messages =
     bindM (get_receiver az (topic, sub, None)) (\<lambda>h.
     bindM (on_client (az_receive_messages az h max_messages 5)) (\<lambda>raws.
       liftR (mapR (received_message jl topic sub (Some h) False False) raws)))"

definition sb_complete :: "'x azure \<Rightarrow> sb_message \<Rightarrow> ('x service_bus, unit) pm" where
  "sb_complete az m = (case sb_queue_ref m of None \<Rightarrow> returnM ()
     | Some r \<Rightarrow> on_client (az_complete_message az (ref_receiver r) (ref_raw r)))"

definition sb_dead_letter :: "'x azure \<Rightarrow> sb_message \<Rightarrow> string \<Rightarrow> ('x service_bus, unit) pm" where
  "sb_dead_letter az m reason = (case sb_queue_ref m of None \<Rightarrow> returnM ()
     | Some r \<Rightarrow> on_client (az_dead_letter_message az (ref_receiver r) (ref_raw r) reason))"

text \<open>
  \<open>peek\<close> up to its first \<open>await\<close>: the cached receiver and the lock of the link.  A single
  request finds the lock free; requests that wait for each other are the subject of \<open>PeekLock\<close>.
\<close>

definition begin_peek :: "'x azure \<Rightarrow> link_key \<Rightarrow> ('x service_bus, nat \<times> nat) pm" where
  "begin_peek az key =
     bindM (get_receiver az key) (\<lambda>h.
     bindM (get_receiver_lock key) (\<lambda>l. returnM (h, l)))"

definition sb_peek ::
  "'x azure \<Rightarrow> json_lib \<Rightarrow> string \<Rightarrow> string \<Rightarrow> int \<Rightarrow> int option \<Rightarrow> ('x service_bus, sb_message list) pm" where
  "sb_peek az jl topic sub n cur =
     bindM (begin_peek az (topic, sub, None)) (\<lambda>(h, _).
     bindM (on_client (az_peek_messages az h n cur)) (\<lambda>raws.
       liftR (mapR (received_message jl topic sub None True False) raws)))"

definition sb_receive_dead_letter ::
  "'x azure \<Rightarrow> json_lib \<Rightarrow> string \<Rightarrow> string \<Rightarrow> ('x service_bus, sb_message list) pm" where
  "sb_receive_dead_letter az jl topic sub =
     bindM (get_receiver az (topic, sub, Some ''deadletter'')) (\<lambda>h.
     bindM (on_client (az_receive_messages az h 100 5)) (\<lambda>raws.
       liftR (mapR (received_message jl topic sub (Some h) False True) raws)))"

definition sb_close :: "'x azure \<Rightarrow> ('x service_bus, unit) pm" where
  "sb_close az = (\<lambda>s.
     thenM (for_each (\<lambda>h. on_client (az_close_link az h)) (map snd (sb_senders s)))
     (thenM (modifyM (\<lambda>s. s\<lparr>sb_senders := []\<rparr>))
     (thenM (for_each (\<lambda>h. on_client (az_close_link az h)) (map snd (sb_receivers s)))
     (thenM (modifyM (\<lambda>s. s\<lparr>sb_receivers := []\<rparr>))
       (on_client (az_close_client az))))) s)"

end
