(* ===== verification/ServiceBusProps.thy ===== *)
theory ServiceBusProps
  imports ServiceBus "HOL-Library.Multiset"
begin

text \<open>
  What the Service Bus wrapper guarantees of its client: a body reaches the consumer as it was
  published, one link is opened per topic or subscription queue, and closing the bus closes
  every link that was ever opened.  A message that cannot be decoded loses its whole batch.
\<close>

section \<open>Bodies\<close>

text \<open>
  A published body survives the wire: with a JSON library that reads back what it wrote, an
  object is decoded to itself, whatever sections the SDK splits its bytes into.
\<close>

theorem wire_roundtrip:
  assumes "dumps jl (PDict d) = Inr s" "loads_bytes jl (utf8 s) = Inr (PDict d)"
    and "encoded_body jl (PDict d) = Inr data" "concat (map section_bytes secs) = data"
  shows "decode_servicebus_body jl (Sections secs) = Inr (PDict d)"
  using assms by (simp add: decode_servicebus_body_def body_bytes_def encoded_body_def)

text \<open>One undecodable body makes the receive raise: nothing of the batch is handed over.\<close>

lemma mapR_fails: "x \<in> set xs \<Longrightarrow> f x = Inl e \<Longrightarrow> \<exists>e'. mapR f xs = Inl e'"
proof (induction xs)
  case (Cons a xs)
  show ?case
  proof (cases "f a")
    case (Inr y)
    then have "x \<in> set xs" using Cons.prems by auto
    with Cons.IH Cons.prems(2) Inr show ?thesis by auto
  qed simp
qed simp

lemma poison_blocks_batch:
  assumes "map_of (sb_receivers s) (topic, sub, None) = Some h"
    and "az_receive_messages az h n 5 (sb_client s) = (Inr raws, x)"
    and "raw \<in> set raws" "decode_servicebus_body jl (raw_body raw) = Inl e"
  shows "\<exists>e'. sb_receive az jl topic sub n s = (Inl e', s\<lparr>sb_client := x\<rparr>)"
proof -
  have "received_message jl topic sub (Some h) False False raw = Inl e" using assms(4) by (simp add: received_message_def)
  from mapR_fails [of raw raws "received_message jl topic sub (Some h) False False", OF assms(3) this] obtain e' where
    "mapR (received_message jl topic sub (Some h) False False) raws = Inl e'" ..
  then show ?thesis using assms(1,2) by (simp add: sb_receive_def get_receiver_def on_client_def pm_simps)
qed

section \<open>Links\<close>

text \<open>
  What the client documents, with the links opened and closed so far as views of its state:
  a new link is a new number, an operation on a link opens and closes none, closing a link
  closes it.
\<close>

definition leaves_links :: "('x \<Rightarrow> nat list) \<Rightarrow> ('x \<Rightarrow> nat list) \<Rightarrow> ('x, 'a) pm \<Rightarrow> bool" where
  "leaves_links opened shut m \<longleftrightarrow> (\<forall>x. opened (snd (m x)) = opened x \<and> shut (snd (m x)) = shut x)"

definition opens_link :: "('x \<Rightarrow> nat list) \<Rightarrow> ('x \<Rightarrow> nat list) \<Rightarrow> ('x, nat) pm \<Rightarrow> bool" where
  "opens_link opened shut m \<longleftrightarrow> (\<forall>x. shut (snd (m x)) = shut x \<and>
     (case fst (m x) of Inl e \<Rightarrow> opened (snd (m x)) = opened x
      | Inr h \<Rightarrow> h \<notin> set (opened x) \<and> opened (snd (m x)) = opened x @ [h]))"

definition closes_link :: "('x \<Rightarrow> nat list) \<Rightarrow> ('x \<Rightarrow> nat list) \<Rightarrow> nat \<Rightarrow> ('x, unit) pm \<Rightarrow> bool" where
  "closes_link opened shut h m \<longleftrightarrow>
     (\<forall>x. fst (m x) = Inr () \<and> opened (snd (m x)) = opened x \<and> shut (snd (m x)) = shut x @ [h])"

definition azure_laws :: "'x azure \<Rightarrow> ('x \<Rightarrow> nat list) \<Rightarrow> ('x \<Rightarrow> nat list) \<Rightarrow> bool" where
  "azure_laws az opened shut \<longleftrightarrow>
     (\<forall>t. opens_link opened shut (az_topic_sender az t)) \<and>
     (\<forall>t s q. opens_link opened shut (az_subscription_receiver az t s q)) \<and>
     (\<forall>h m. leaves_links opened shut (az_send_messages az h m)) \<and>
     (\<forall>h n w. leaves_links opened shut (az_receive_messages az h n w)) \<and>
     (\<forall>h n c. leaves_links opened shut (az_peek_messages az h n c)) \<and>
     (\<forall>h m. leaves_links opened shut (az_complete_message az h m)) \<and>
     (\<forall>h m r. leaves_links opened shut (az_dead_letter_message az h m r)) \<and>
     (\<forall>h. closes_link opened shut h (az_close_link az h)) \<and>
     leaves_links opened shut (az_close_client az) \<and> (\<forall>x. fst (az_close_client az x) = Inr ())"

text \<open>The links the bus holds, and the invariant: they are the links opened and not closed.\<close>

definition held :: "'x service_bus \<Rightarrow> nat list" where
  "held s = map snd (sb_senders s) @ map snd (sb_receivers s)"

definition links_inv :: "('x \<Rightarrow> nat list) \<Rightarrow> ('x \<Rightarrow> nat list) \<Rightarrow> 'x service_bus \<Rightarrow> bool" where
  "links_inv opened shut s \<longleftrightarrow>
     mset (opened (sb_client s)) = mset (shut (sb_client s)) + mset (held s) \<and>
     distinct (opened (sb_client s)) \<and> dict_ok (sb_senders s) \<and> dict_ok (sb_receivers s)"

abbreviation keeps_links :: "('x \<Rightarrow> nat list) \<Rightarrow> ('x \<Rightarrow> nat list) \<Rightarrow> ('x service_bus, 'a) pm \<Rightarrow> bool" where
  "keeps_links opened shut m \<equiv> keeps (links_inv opened shut) m"

lemma on_client_keeps: "leaves_links opened shut m \<Longrightarrow> keeps_links opened shut (on_client m)"
  unfolding triple_keep by (simp add: on_client_def zoomM_apply leaves_links_def links_inv_def held_def)

lemma map_snd_dict_set_new: "map_of d k = None \<Longrightarrow> map snd (dict_set d k v) = map snd d @ [v]"
  by (induction d k v rule: dict_set.induct) (auto split: if_splits)

lemma get_sender_keeps:
  assumes "opens_link opened shut (az_topic_sender az t)"
  shows "keeps_links opened shut (get_sender az t)"
  unfolding triple_keep
proof (intro allI impI)
  fix s assume inv: "links_inv opened shut s"
  show "links_inv opened shut (snd (get_sender az t s))"
  proof (cases "map_of (sb_senders s) t")
    case None
    then show ?thesis using assms inv
      by (cases "fst (az_topic_sender az t (sb_client s))")
         (auto simp: get_sender_def on_client_def pm_simps opens_link_def links_inv_def held_def map_snd_dict_set_new
           dest!: spec [of _ "sb_client s"])
  qed (use inv in \<open>simp add: get_sender_def\<close>)
qed

lemma get_receiver_keeps:
  assumes "\<And>t s q. opens_link opened shut (az_subscription_receiver az t s q)"
  shows "keeps_links opened shut (get_receiver az key)"
  unfolding triple_keep
proof (intro allI impI)
  fix s assume inv: "links_inv opened shut s"
  obtain t sub q where key: "key = (t, sub, q)" by (cases key)
  show "links_inv opened shut (snd (get_receiver az key s))"
  proof (cases "map_of (sb_receivers s) key")
    case None
    then show ?thesis using assms [of t sub q] inv
      by (cases "fst (az_subscription_receiver az t sub q (sb_client s))")
         (auto simp: key get_receiver_def on_client_def pm_simps opens_link_def links_inv_def held_def
           map_snd_dict_set_new dest!: spec [of _ "sb_client s"])
  qed (use inv in \<open>simp add: get_receiver_def\<close>)
qed

lemma lock_keeps: "keeps_links opened shut (get_receiver_lock key)"
  unfolding triple_keep by (simp add: get_receiver_lock_def Let_def links_inv_def held_def split: option.split)

lemma fresh_id_keeps: "keeps_links opened shut (fresh_id mid)"
  unfolding triple_keep by (auto simp: fresh_id_def links_inv_def held_def split: option.split)

section \<open>Any use of the bus\<close>

datatype sb_act =
    PublishTo string pyval "string option" "string option"
  | ReceiveFrom string string int
  | PeekAt string string int "int option"
  | DeadLettersOf string string
  | Complete sb_message
  | DeadLetter sb_message string

fun sb_do :: "'x azure \<Rightarrow> json_lib \<Rightarrow> sb_act \<Rightarrow> ('x service_bus, unit) pm" where
  "sb_do az jl (PublishTo t body mid corr) = sb_publish az jl t body mid corr"
| "sb_do az jl (ReceiveFrom t s n) = thenM (sb_receive az jl t s n) (returnM ())"
| "sb_do az jl (PeekAt t s n c) = thenM (sb_peek az jl t s n c) (returnM ())"
| "sb_do az jl (DeadLettersOf t s) = thenM (sb_receive_dead_letter az jl t s) (returnM ())"
| "sb_do az jl (Complete m) = sb_complete az m"
| "sb_do az jl (DeadLetter m r) = sb_dead_letter az m r"

definition sb_run :: "'x azure \<Rightarrow> json_lib \<Rightarrow> sb_act list \<Rightarrow> 'x service_bus \<Rightarrow> 'x service_bus" where
  "sb_run az jl acts s = fold (\<lambda>a s. snd (sb_do az jl a s)) acts s"

text \<open>A condition that every step of an operation keeps is kept by the operation.\<close>

lemma keeps_begin_peek:
  assumes "keeps P (get_receiver az key)" "keeps P (get_receiver_lock key)"
  shows "keeps P (begin_peek az key)"
  unfolding begin_peek_def by (intro keeps_rules assms)

lemma sb_do_keeps_any:
  assumes rec: "\<And>key. keeps P (get_receiver az key)" and snd: "\<And>t. keeps P (get_sender az t)"
    and lock: "\<And>key. keeps P (get_receiver_lock key)" and fresh: "\<And>i. keeps P (fresh_id i)"
    and ops: "\<And>h m. keeps P (on_client (az_send_messages az h m))"
      "\<And>h n w. keeps P (on_client (az_receive_messages az h n w))"
      "\<And>h n c. keeps P (on_client (az_peek_messages az h n c))"
      "\<And>h raw. keeps P (on_client (az_complete_message az h raw))"
      "\<And>h raw r. keeps P (on_client (az_dead_letter_message az h raw r))"
  shows "keeps P (sb_do az jl a)"
proof -
  note rules = keeps_rules rec snd lock fresh ops keeps_begin_peek
  show ?thesis
  proof (cases a)
    case PublishTo
    then show ?thesis by (simp add: sb_publish_def) (intro rules)
  next
    case ReceiveFrom
    then show ?thesis by (simp add: sb_receive_def) (intro rules)
  next
    case PeekAt
    then show ?thesis by (simp add: sb_peek_def case_prod_unfold) (intro rules)
  next
    case DeadLettersOf
    then show ?thesis by (simp add: sb_receive_dead_letter_def) (intro rules)
  next
    case (Complete m)
    then show ?thesis by (cases "sb_queue_ref m") (simp_all add: sb_complete_def keeps_basic ops)
  next
    case (DeadLetter m r)
    then show ?thesis by (cases "sb_queue_ref m") (simp_all add: sb_dead_letter_def keeps_basic ops)
  qed
qed

lemma sb_do_keeps:
  assumes "azure_laws az opened shut"
  shows "keeps_links opened shut (sb_do az jl a)"
  using assms
  by (intro sb_do_keeps_any get_receiver_keeps get_sender_keeps lock_keeps fresh_id_keeps on_client_keeps)
     (simp_all add: azure_laws_def)

lemma sb_run_keeps: "azure_laws az opened shut \<Longrightarrow> links_inv opened shut s \<Longrightarrow> links_inv opened shut (sb_run az jl acts s)"
  unfolding sb_run_def
  by (induction acts arbitrary: s) (simp_all add: sb_do_keeps [unfolded triple_keep, rule_format])

text \<open>A cached receiver stays cached, and open, until the bus is closed.\<close>

lemma sb_do_keeps_receiver: "keeps (\<lambda>s. map_of (sb_receivers s) key = Some h) (sb_do az jl a)"
  unfolding on_client_def
  by (intro sb_do_keeps_any)
     (auto simp: triple_keep get_receiver_def get_sender_def get_receiver_lock_def fresh_id_def Let_def
        on_client_def pm_simps split: option.split prod.split sum.split)

lemma sb_run_keeps_receiver:
  "map_of (sb_receivers s) key = Some h \<Longrightarrow> map_of (sb_receivers (sb_run az jl acts s)) key = Some h"
  unfolding sb_run_def
  by (induction acts arbitrary: s) (simp_all add: sb_do_keeps_receiver [unfolded triple_keep, rule_format])

lemma get_receiver_cached: "get_receiver az key s = (Inr h, s1) \<Longrightarrow> map_of (sb_receivers s1) key = Some h"
  by (cases key) (auto simp: get_receiver_def on_client_def pm_simps split: option.splits sum.splits)

lemma received_ref:
  "received_message jl topic sub (Some h) False False raw = Inr m \<Longrightarrow> sb_queue_ref m = Some \<lparr>ref_raw = raw, ref_receiver = h\<rparr>"
  by (auto simp: received_message_def bindR_Inr_iff)

lemma received_receiver:
  assumes "sb_receive az jl topic sub n s = (Inr ms, s1)"
  shows "\<exists>h. map_of (sb_receivers s1) (topic, sub, None) = Some h \<and>
    list_all (\<lambda>m. \<exists>raw. sb_queue_ref m = Some \<lparr>ref_raw = raw, ref_receiver = h\<rparr>) ms"
proof -
  obtain r s2 where g: "get_receiver az (topic, sub, None) s = (r, s2)" by fastforce
  with assms obtain h where h: "r = Inr h" by (cases r) (auto simp: sb_receive_def bindM_apply)
  obtain q x where c: "az_receive_messages az h n 5 (sb_client s2) = (q, x)" by fastforce
  with assms g h obtain raws where q: "q = Inr raws" by (cases q) (auto simp: sb_receive_def bindM_apply on_client_def zoomM_apply)
  have run: "mapR (received_message jl topic sub (Some h) False False) raws = Inr ms" "s1 = s2\<lparr>sb_client := x\<rparr>"
    using assms g h c q by (simp_all add: sb_receive_def bindM_apply on_client_def zoomM_apply liftR_apply)
  have "list_all (\<lambda>m. \<exists>raw. sb_queue_ref m = Some \<lparr>ref_raw = raw, ref_receiver = h\<rparr>) ms"
    using run(1) by (auto simp: mapR_Inr_iff list_all2_conv_all_nth list_all_length dest!: received_ref)
  moreover have "map_of (sb_receivers s1) (topic, sub, None) = Some h"
    using get_receiver_cached [of az _ s h s2] g h run(2) by simp
  ultimately show ?thesis by blast
qed

lemma held_open: "links_inv opened shut s \<Longrightarrow> h \<in> set (held s) \<Longrightarrow> h \<in> set (opened (sb_client s)) \<and> h \<notin> set (shut (sb_client s))"
proof -
  assume inv: "links_inv opened shut s" and h: "h \<in> set (held s)"
  have m: "mset (opened (sb_client s)) = mset (shut (sb_client s) @ held s)" and d: "distinct (opened (sb_client s))"
    using inv by (simp_all add: links_inv_def)
  have "set (opened (sb_client s)) = set (shut (sb_client s) @ held s)" using m by (rule mset_eq_setD)
  moreover have "distinct (shut (sb_client s) @ held s)" using mset_eq_imp_distinct_iff [OF m] d by blast
  ultimately show ?thesis using h by auto
qed

lemma close_links:
  assumes "azure_laws az opened shut"
  shows "\<exists>x. for_each (\<lambda>h. on_client (az_close_link az h)) hs s = (Inr (), s\<lparr>sb_client := x\<rparr>) \<and>
    opened x = opened (sb_client s) \<and> shut x = shut (sb_client s) @ hs"
proof (induction hs arbitrary: s)
  case Nil
  then show ?case by (intro exI [of _ "sb_client s"]) (simp add: returnM_def)
next
  case (Cons h hs)
  let ?x = "snd (az_close_link az h (sb_client s))"
  have h: "fst (az_close_link az h (sb_client s)) = Inr ()" "opened ?x = opened (sb_client s)"
    "shut ?x = shut (sb_client s) @ [h]"
    using assms by (simp_all add: azure_laws_def closes_link_def)
  have step: "on_client (az_close_link az h) s = (Inr (), s\<lparr>sb_client := ?x\<rparr>)"
    using h(1) by (simp add: on_client_def zoomM_apply)
  from Cons.IH [of "s\<lparr>sb_client := ?x\<rparr>"] obtain x where
    "for_each (\<lambda>h. on_client (az_close_link az h)) hs (s\<lparr>sb_client := ?x\<rparr>) = (Inr (), s\<lparr>sb_client := x\<rparr>)"
    "opened x = opened ?x" "shut x = shut ?x @ hs" by auto
  then show ?case using step h(2,3) by (intro exI [of _ x]) (simp add: thenM_apply)
qed

lemma sb_close_releases:
  assumes "azure_laws az opened shut" "links_inv opened shut s"
  shows "\<exists>s'. sb_close az s = (Inr (), s') \<and> held s' = [] \<and> mset (shut (sb_client s')) = mset (opened (sb_client s')) \<and>
    opened (sb_client s') = opened (sb_client s) \<and> distinct (shut (sb_client s'))"
proof -
  from close_links [OF assms(1), of "map snd (sb_senders s)" s] obtain x1 where
    c1: "for_each (\<lambda>h. on_client (az_close_link az h)) (map snd (sb_senders s)) s = (Inr (), s\<lparr>sb_client := x1\<rparr>)"
    "opened x1 = opened (sb_client s)" "shut x1 = shut (sb_client s) @ map snd (sb_senders s)" by blast
  let ?s1 = "s\<lparr>sb_client := x1, sb_senders := []\<rparr>"
  from close_links [OF assms(1), of "map snd (sb_receivers s)" ?s1] obtain x2 where
    c2: "for_each (\<lambda>h. on_client (az_close_link az h)) (map snd (sb_receivers s)) ?s1 = (Inr (), ?s1\<lparr>sb_client := x2\<rparr>)"
    "opened x2 = opened x1" "shut x2 = shut x1 @ map snd (sb_receivers s)" by auto
  let ?x3 = "snd (az_close_client az x2)"
  have c3: "fst (az_close_client az x2) = Inr ()" "opened ?x3 = opened x2" "shut ?x3 = shut x2"
    using assms(1) by (simp_all add: azure_laws_def leaves_links_def)
  let ?s' = "s\<lparr>sb_client := ?x3, sb_senders := [], sb_receivers := []\<rparr>"
  have "sb_close az s = (Inr (), ?s')"
    using c1(1) c2(1) c3(1) by (simp add: sb_close_def thenM_apply modifyM_def on_client_def zoomM_apply)
  moreover have all: "mset (shut ?x3) = mset (opened ?x3)"
    using assms(2) c1 c2 c3 by (simp add: links_inv_def held_def)
  moreover have "distinct (shut ?x3)"
    using assms(2) all c1(2) c2(2) c3(2) mset_eq_imp_distinct_iff [of "shut ?x3" "opened ?x3"] by (simp add: links_inv_def)
  ultimately show ?thesis using c1(2) c2(2) c3(2) by (auto simp: held_def)
qed

lemma received_stay_open:
  assumes "azure_laws az opened shut" "links_inv opened shut s"
    and "sb_receive az jl topic sub n s = (Inr ms, s1)" "m \<in> set ms"
  shows "\<exists>raw h. sb_queue_ref m = Some \<lparr>ref_raw = raw, ref_receiver = h\<rparr> \<and>
    h \<in> set (opened (sb_client (sb_run az jl acts s1))) \<and> h \<notin> set (shut (sb_client (sb_run az jl acts s1)))"
proof -
  from received_receiver [OF assms(3)] obtain h where h: "map_of (sb_receivers s1) (topic, sub, None) = Some h"
    "list_all (\<lambda>m. \<exists>raw. sb_queue_ref m = Some \<lparr>ref_raw = raw, ref_receiver = h\<rparr>) ms" by blast
  have "links_inv opened shut (snd (sb_do az jl (ReceiveFrom topic sub n) s))"
    using sb_do_keeps [OF assms(1)] assms(2) unfolding triple_keep by blast
  then have "links_inv opened shut s1" using assms(3) by (simp add: thenM_apply returnM_def)
  then have inv: "links_inv opened shut (sb_run az jl acts s1)" by (rule sb_run_keeps [OF assms(1)])
  have "map_of (sb_receivers (sb_run az jl acts s1)) (topic, sub, None) = Some h" by (rule sb_run_keeps_receiver [OF h(1)])
  then have "h \<in> set (held (sb_run az jl acts s1))"
    by (auto simp: held_def dest!: map_of_SomeD intro: image_eqI [where x = "((topic, sub, None), h)"])
  with held_open [OF inv] h(2) assms(4) show ?thesis by (fastforce simp: list_all_iff)
qed

text \<open>
  C7: The bus leaks no link and closes none too early: after any sequence of publishes, receives,
  peeks and settlements, failing ones included, it holds one link per topic and per subscription
  queue it used, each the only one opened for it; a received message carries its raw message
  with a receiver that is open, and still open after any further use of the bus; and closing
  the bus then succeeds and has closed exactly the links that were ever opened, each once.
\<close>

theorem links_released:
  assumes "azure_laws az opened shut" "opened x0 = []" "shut x0 = []"
    and "s = sb_run az jl acts (sb_init us x0)"
  shows "dict_ok (sb_senders s) \<and> dict_ok (sb_receivers s) \<and> mset (opened (sb_client s)) = mset (held s) + mset (shut (sb_client s)) \<and>
    (\<forall>topic sub n ms s1 m acts'. sb_receive az jl topic sub n s = (Inr ms, s1) \<and> m \<in> set ms \<longrightarrow>
       (\<exists>raw h. sb_queue_ref m = Some \<lparr>ref_raw = raw, ref_receiver = h\<rparr> \<and>
          h \<in> set (opened (sb_client (sb_run az jl acts' s1))) \<and> h \<notin> set (shut (sb_client (sb_run az jl acts' s1))))) \<and>
    (\<exists>s'. sb_close az s = (Inr (), s') \<and> held s' = [] \<and> mset (shut (sb_client s')) = mset (opened (sb_client s')) \<and>
       opened (sb_client s') = opened (sb_client s) \<and> distinct (shut (sb_client s')))"
proof -
  have "links_inv opened shut (sb_init us x0)" using assms(2,3) by (simp add: links_inv_def sb_init_def held_def dict_ok_def)
  then have inv: "links_inv opened shut s" unfolding assms(4) by (rule sb_run_keeps [OF assms(1)])
  then have "dict_ok (sb_senders s) \<and> dict_ok (sb_receivers s) \<and>
      mset (opened (sb_client s)) = mset (held s) + mset (shut (sb_client s))" by (auto simp: links_inv_def)
  then show ?thesis using sb_close_releases [OF assms(1) inv] received_stay_open [OF assms(1) inv] by blast
qed

section \<open>Witnesses\<close>

text \<open>A client that only keeps the links it opened and closed.\<close>

definition open_link :: "(nat list \<times> nat list, nat) pm" where
  "open_link = (\<lambda>(os, cs). (Inr (sum_list os + 1), (os @ [sum_list os + 1], cs)))"

definition loopback :: "(nat list \<times> nat list) azure" where
  "loopback =
     \<lparr>az_topic_sender = (\<lambda>_. open_link), az_subscription_receiver = (\<lambda>_ _ _. open_link),
      az_send_messages = (\<lambda>_ _. returnM ()), az_receive_messages = (\<lambda>_ _ _. returnM []),
      az_peek_messages = (\<lambda>_ _ _. returnM []), az_complete_message = (\<lambda>_ _. returnM ()),
      az_dead_letter_message = (\<lambda>_ _ _. returnM ()), az_close_link = (\<lambda>h. modifyM (\<lambda>(os, cs). (os, cs @ [h]))),
      az_close_client = returnM ()\<rparr>"

lemma loopback_laws: "azure_laws loopback fst snd"
proof -
  have "Suc (sum_list xs) \<notin> set xs" for xs :: "nat list"
    using member_le_sum_list [of "Suc (sum_list xs)" xs] by auto
  then show ?thesis
    by (simp add: azure_laws_def loopback_def opens_link_def leaves_links_def closes_link_def open_link_def returnM_def
        modifyM_def split_beta)
qed

definition braces_lib :: json_lib where
  "braces_lib = \<lparr>loads_bytes = (\<lambda>b. if b = [123, 125] then Inr (PDict []) else Inl ''bad''), dumps = (\<lambda>_. Inr ''{}'')\<rparr>"

theorem wire_roundtrip_witness:
  "decode_servicebus_body braces_lib (Sections [TextSection ''{'', BytesSection [125]]) = Inr (PDict [])"
  by (rule wire_roundtrip [where s = "''{}''" and data = "[123, 125]"])
     (simp_all add: braces_lib_def encoded_body_def utf8_def section_bytes_def)

theorem links_released_witness:
  "\<exists>s s'. s = sb_run loopback braces_lib [PublishTo ''t'' (PDict []) None None, ReceiveFrom ''t'' ''sub'' 5,
        PublishTo ''t'' (PDict []) None None, PeekAt ''t'' ''sub'' 5 None] (sb_init (\<lambda>_. ''u'') ([], [])) \<and>
     held s = [1, 2] \<and> sb_close loopback s = (Inr (), s') \<and> mset (snd (sb_client s')) = mset (fst (sb_client s'))"
proof -
  let ?acts = "[PublishTo ''t'' (PDict []) None None, ReceiveFrom ''t'' ''sub'' 5, PublishTo ''t'' (PDict []) None None,
    PeekAt ''t'' ''sub'' 5 None]"
  let ?s = "sb_run loopback braces_lib ?acts (sb_init (\<lambda>_. ''u'') ([], []))"
  have start: "fst ([] :: nat list, [] :: nat list) = []" "snd ([] :: nat list, [] :: nat list) = []" by simp_all
  from links_released [OF loopback_laws start refl, of braces_lib ?acts "\<lambda>_. ''u''"] obtain s' where
    "sb_close loopback ?s = (Inr (), s')" "mset (snd (sb_client s')) = mset (fst (sb_client s'))" by blast
  moreover have "held ?s = [1, 2]" by code_simp
  ultimately show ?thesis by blast
qed

end
