(* ===== verification/PeekLock.thy ===== *)
theory PeekLock
  imports ServiceBusProps
begin

text \<open>
  Requests that peek at the same time (\<open>ServiceBusBus.peek\<close>, \<open>_get_receiver_lock\<close> in
  libs/common/bus.py).  They share the cached receiver of their topic and subscription, which
  must not be used twice at once, so a peek holds the receiver's lock, cached under the same
  key.  Requests are interleaved where they await, with each other and with any other use of
  the bus, its closing included.  Of \<open>asyncio.Lock\<close> the model uses what it documents: entering
  \<open>async with lock\<close> is possible exactly while no other task is inside with that lock.
\<close>

section \<open>Interleaved requests\<close>

text \<open>A request after its first section: what it looked up, and whether it holds the lock.\<close>

record peek_task =
  pt_link :: link_key
  pt_receiver :: nat
  pt_lock :: nat
  pt_count :: int
  pt_from :: "int option"
  pt_inside :: bool

record 'x peeks =
  pk_bus :: "'x service_bus"
  pk_tasks :: "nat \<Rightarrow> peek_task option"

definition peeks_init :: "(nat \<Rightarrow> string) \<Rightarrow> 'x \<Rightarrow> 'x peeks" where
  "peeks_init us x = \<lparr>pk_bus = sb_init us x, pk_tasks = (\<lambda>_. None)\<rparr>"

definition lock_free :: "'x peeks \<Rightarrow> nat \<Rightarrow> bool" where
  "lock_free p l \<longleftrightarrow> (\<forall>j u. pk_tasks p j = Some u \<and> pt_inside u \<longrightarrow> pt_lock u \<noteq> l)"

text \<open>
  A request \<open>i\<close> arrives and runs to its first \<open>await\<close>, or its receiver cannot be opened; it
  enters the lock; its peek ends, returning or raising; it is cancelled, waiting or inside;
  another operation of the bus runs; the bus is closed.
\<close>

inductive peek_step :: "'x azure \<Rightarrow> json_lib \<Rightarrow> 'x peeks \<Rightarrow> 'x peeks \<Rightarrow> bool"
  for az :: "'x azure" and jl :: json_lib where
  arrive: "begin_peek az (topic, sub, None) (pk_bus p) = (Inr (h, l), b) \<Longrightarrow> pk_tasks p i = None \<Longrightarrow>
    peek_step az jl p (p\<lparr>pk_bus := b, pk_tasks := (pk_tasks p)(i \<mapsto>
      \<lparr>pt_link = (topic, sub, None), pt_receiver = h, pt_lock = l, pt_count = n, pt_from = cur,
       pt_inside = False\<rparr>)\<rparr>)"
| refused: "begin_peek az (topic, sub, None) (pk_bus p) = (Inl e, b) \<Longrightarrow>
    peek_step az jl p (p\<lparr>pk_bus := b\<rparr>)"
| enter: "pk_tasks p i = Some t \<Longrightarrow> \<not> pt_inside t \<Longrightarrow> lock_free p (pt_lock t) \<Longrightarrow>
    peek_step az jl p (p\<lparr>pk_tasks := (pk_tasks p)(i \<mapsto> t\<lparr>pt_inside := True\<rparr>)\<rparr>)"
| leave: "pk_tasks p i = Some t \<Longrightarrow> pt_inside t \<Longrightarrow>
    on_client (az_peek_messages az (pt_receiver t) (pt_count t) (pt_from t)) (pk_bus p) = (r, b) \<Longrightarrow>
    peek_step az jl p (p\<lparr>pk_bus := b, pk_tasks := (pk_tasks p)(i := None)\<rparr>)"
| cancel: "pk_tasks p i = Some t \<Longrightarrow>
    peek_step az jl p (p\<lparr>pk_tasks := (pk_tasks p)(i := None)\<rparr>)"
| other: "sb_do az jl a (pk_bus p) = (r, b) \<Longrightarrow> peek_step az jl p (p\<lparr>pk_bus := b\<rparr>)"
| shutdown: "sb_close az (pk_bus p) = (r, b) \<Longrightarrow> peek_step az jl p (p\<lparr>pk_bus := b\<rparr>)"

section \<open>What the bus keeps for its requests\<close>

text \<open>
  From \<open>s0\<close> to \<open>s\<close>: locks stay cached, and a receiver cached in \<open>s\<close> was cached under the
  same key in \<open>s0\<close> or is a link opened since.
\<close>

definition evolves :: "('x \<Rightarrow> nat list) \<Rightarrow> 'x service_bus \<Rightarrow> 'x service_bus \<Rightarrow> bool" where
  "evolves opened s0 s \<longleftrightarrow>
     map_of (sb_locks s0) \<subseteq>\<^sub>m map_of (sb_locks s) \<and>
     set (opened (sb_client s0)) \<subseteq> set (opened (sb_client s)) \<and>
     (\<forall>k h. map_of (sb_receivers s) k = Some h \<longrightarrow>
        map_of (sb_receivers s0) k = Some h \<or> h \<notin> set (opened (sb_client s0)))"

text \<open>The locks are numbered in the order they were made, one per key.\<close>

definition locks_ok :: "'x service_bus \<Rightarrow> bool" where
  "locks_ok s \<longleftrightarrow> dict_ok (sb_locks s) \<and> map snd (sb_locks s) = [0..<length (sb_locks s)]"

definition bus_ok :: "('x \<Rightarrow> nat list) \<Rightarrow> ('x \<Rightarrow> nat list) \<Rightarrow> 'x service_bus \<Rightarrow> 'x service_bus \<Rightarrow> bool" where
  "bus_ok opened shut s0 s \<longleftrightarrow> links_inv opened shut s \<and> locks_ok s \<and> evolves opened s0 s"

lemma locks_injective:
  assumes "locks_ok s" "map_of (sb_locks s) k = Some l" "map_of (sb_locks s) k' = Some l"
  shows "k = k'"
proof -
  have in_set: "(k, l) \<in> set (sb_locks s)" "(k', l) \<in> set (sb_locks s)"
    using assms(2,3) by (simp_all add: map_of_SomeD)
  have "distinct (map snd (sb_locks s))" using assms(1) by (simp add: locks_ok_def)
  then have "inj_on snd (set (sb_locks s))" by (simp add: distinct_map)
  from inj_onD [OF this _ in_set] show ?thesis by simp
qed

lemma receivers_injective:
  assumes "links_inv opened shut s" "map_of (sb_receivers s) k = Some h" "map_of (sb_receivers s) k' = Some h"
  shows "k = k'"
proof -
  have in_set: "(k, h) \<in> set (sb_receivers s)" "(k', h) \<in> set (sb_receivers s)"
    using assms(2,3) by (simp_all add: map_of_SomeD)
  have "mset (opened (sb_client s)) = mset (shut (sb_client s) @ held s)" "distinct (opened (sb_client s))"
    using assms(1) by (simp_all add: links_inv_def)
  then have "distinct (shut (sb_client s) @ held s)" using mset_eq_imp_distinct_iff by blast
  then have "distinct (map snd (sb_receivers s))" by (simp add: held_def)
  then have "inj_on snd (set (sb_receivers s))" by (simp add: distinct_map)
  from inj_onD [OF this _ in_set] show ?thesis by simp
qed

lemma receiver_opened:
  assumes "links_inv opened shut s" "map_of (sb_receivers s) k = Some h"
  shows "h \<in> set (opened (sb_client s))"
proof -
  have "(k, h) \<in> set (sb_receivers s)" using assms(2) by (rule map_of_SomeD)
  then have "h \<in> set (held s)" by (force simp: held_def)
  with held_open [OF assms(1)] show ?thesis by blast
qed

lemma lock_of_key:
  assumes "get_receiver_lock key s = (r, s')"
  shows "\<exists>l. r = Inr l \<and> map_of (sb_locks s') key = Some l"
  using assms by (auto simp: get_receiver_lock_def Let_def split: option.splits)

lemma locks_ok_new:
  assumes "locks_ok s"
  shows "locks_ok (snd (get_receiver_lock key s))"
proof (cases "map_of (sb_locks s) key")
  case None
  then have "key \<notin> fst ` set (sb_locks s)" by (simp add: map_of_eq_None_iff)
  then show ?thesis using assms None
    by (simp add: get_receiver_lock_def Let_def locks_ok_def map_snd_dict_set_new [OF None] dict_set_length)
qed (use assms in \<open>simp add: get_receiver_lock_def\<close>)

lemma bus_ok_client:
  assumes "leaves_links opened shut m"
  shows "keeps (bus_ok opened shut s0) (on_client m)"
  using on_client_keeps [OF assms] assms unfolding triple_keep
  by (simp add: bus_ok_def locks_ok_def evolves_def on_client_def zoomM_apply leaves_links_def)

lemma bus_ok_receiver:
  assumes "\<And>t s q. opens_link opened shut (az_subscription_receiver az t s q)"
  shows "keeps (bus_ok opened shut s0) (get_receiver az key)"
  unfolding triple_keep
proof (intro allI impI)
  fix s assume ok: "bus_ok opened shut s0 s"
  obtain t sub q where key: "key = (t, sub, q)" by (cases key)
  have "links_inv opened shut (snd (get_receiver az key s))"
    using get_receiver_keeps [OF assms, of key] ok unfolding triple_keep bus_ok_def by blast
  moreover have "locks_ok (snd (get_receiver az key s)) \<and> evolves opened s0 (snd (get_receiver az key s))"
    using ok assms [of t sub q]
    by (cases "map_of (sb_receivers s) key"; cases "fst (az_subscription_receiver az t sub q (sb_client s))")
       (auto simp: key get_receiver_def on_client_def pm_simps bus_ok_def locks_ok_def evolves_def opens_link_def
         dest!: spec [of _ "sb_client s"])
  ultimately show "bus_ok opened shut s0 (snd (get_receiver az key s))" by (simp add: bus_ok_def)
qed

lemma bus_ok_sender:
  assumes "opens_link opened shut (az_topic_sender az t)"
  shows "keeps (bus_ok opened shut s0) (get_sender az t)"
  unfolding triple_keep
proof (intro allI impI)
  fix s assume ok: "bus_ok opened shut s0 s"
  have "links_inv opened shut (snd (get_sender az t s))"
    using get_sender_keeps [OF assms] ok unfolding triple_keep bus_ok_def by blast
  moreover have "locks_ok (snd (get_sender az t s)) \<and> evolves opened s0 (snd (get_sender az t s))"
    using ok assms
    by (cases "map_of (sb_senders s) t"; cases "fst (az_topic_sender az t (sb_client s))")
       (auto simp: get_sender_def on_client_def pm_simps bus_ok_def locks_ok_def evolves_def opens_link_def
         dest!: spec [of _ "sb_client s"])
  ultimately show "bus_ok opened shut s0 (snd (get_sender az t s))" by (simp add: bus_ok_def)
qed

lemma bus_ok_lock: "keeps (bus_ok opened shut s0) (get_receiver_lock key)"
  unfolding triple_keep
proof (intro allI impI)
  fix s assume ok: "bus_ok opened shut s0 s"
  have "links_inv opened shut (snd (get_receiver_lock key s))"
    using lock_keeps [of opened shut key] ok unfolding triple_keep bus_ok_def by blast
  moreover have "evolves opened s0 (snd (get_receiver_lock key s))"
  proof (cases "map_of (sb_locks s) key")
    case None
    have "map_of (sb_locks s0) \<subseteq>\<^sub>m (map_of (sb_locks s))(key \<mapsto> length (sb_locks s))"
      using ok None by (force simp: bus_ok_def evolves_def map_le_def dom_def)
    then show ?thesis using ok None by (simp add: get_receiver_lock_def Let_def bus_ok_def evolves_def)
  qed (use ok in \<open>simp add: get_receiver_lock_def bus_ok_def\<close>)
  ultimately show "bus_ok opened shut s0 (snd (get_receiver_lock key s))"
    using ok locks_ok_new [of s key] by (simp add: bus_ok_def)
qed

lemma bus_ok_id: "keeps (bus_ok opened shut s0) (fresh_id i)"
  unfolding triple_keep
  by (auto simp: fresh_id_def bus_ok_def links_inv_def held_def locks_ok_def evolves_def split: option.split)

lemma bus_ok_do:
  assumes "azure_laws az opened shut"
  shows "keeps (bus_ok opened shut s0) (sb_do az jl a)"
  using assms
  by (intro sb_do_keeps_any bus_ok_receiver bus_ok_sender bus_ok_lock bus_ok_id bus_ok_client)
     (simp_all add: azure_laws_def)

lemma bus_ok_begin:
  assumes "azure_laws az opened shut"
  shows "keeps (bus_ok opened shut s0) (begin_peek az key)"
  using assms by (intro keeps_begin_peek bus_ok_receiver bus_ok_lock) (simp add: azure_laws_def)

lemma bus_ok_close:
  assumes laws: "azure_laws az opened shut"
  shows "keeps (bus_ok opened shut s0) (sb_close az)"
  unfolding triple_keep
proof (intro allI impI)
  fix s assume ok: "bus_ok opened shut s0 s"
  from sb_close_releases [OF laws] ok obtain s' where s': "sb_close az s = (Inr (), s')" "held s' = []"
    "mset (shut (sb_client s')) = mset (opened (sb_client s'))" "opened (sb_client s') = opened (sb_client s)"
    unfolding bus_ok_def by blast
  have link: "keeps (\<lambda>u. sb_locks u = sb_locks s) (on_client m)" for m :: "('a, 'b) pm"
    unfolding on_client_def by (rule keeps_zoom) simp
  have "keeps (\<lambda>u. sb_locks u = sb_locks s)
     (thenM (for_each (\<lambda>h. on_client (az_close_link az h)) hs)
     (thenM (modifyM (\<lambda>u. u\<lparr>sb_senders := []\<rparr>))
     (thenM (for_each (\<lambda>h. on_client (az_close_link az h)) hs')
     (thenM (modifyM (\<lambda>u. u\<lparr>sb_receivers := []\<rparr>)) (on_client (az_close_client az))))))" for hs hs'
    by (intro keeps_rules link keeps_modify) simp_all
  then have "sb_locks (snd (sb_close az s)) = sb_locks s" unfolding sb_close_def triple_keep by blast
  then have "sb_locks s' = sb_locks s" using s'(1) by simp
  then show "bus_ok opened shut s0 (snd (sb_close az s))"
    using s' ok by (auto simp: bus_ok_def links_inv_def locks_ok_def evolves_def held_def dict_ok_def)
qed

section \<open>The invariant\<close>

text \<open>What a task looked up still identifies its link; no two tasks are inside one lock.\<close>

definition task_ok :: "('x \<Rightarrow> nat list) \<Rightarrow> 'x service_bus \<Rightarrow> peek_task \<Rightarrow> bool" where
  "task_ok opened s t \<longleftrightarrow>
     map_of (sb_locks s) (pt_link t) = Some (pt_lock t) \<and> pt_receiver t \<in> set (opened (sb_client s)) \<and>
     (\<forall>k. map_of (sb_receivers s) k = Some (pt_receiver t) \<longrightarrow> k = pt_link t)"

definition pair_ok :: "nat \<Rightarrow> peek_task \<Rightarrow> nat \<Rightarrow> peek_task \<Rightarrow> bool" where
  "pair_ok i t j u \<longleftrightarrow>
     (pt_receiver t = pt_receiver u \<longrightarrow> pt_link t = pt_link u) \<and>
     (pt_inside t \<and> pt_inside u \<and> pt_lock t = pt_lock u \<longrightarrow> i = j)"

definition tasks_ok :: "('x \<Rightarrow> nat list) \<Rightarrow> 'x service_bus \<Rightarrow> (nat \<Rightarrow> peek_task option) \<Rightarrow> bool" where
  "tasks_ok opened s ts \<longleftrightarrow>
     (\<forall>i t. ts i = Some t \<longrightarrow> task_ok opened s t) \<and>
     (\<forall>i t j u. ts i = Some t \<longrightarrow> ts j = Some u \<longrightarrow> pair_ok i t j u)"

lemma tasks_okD:
  assumes "tasks_ok opened s ts"
  shows "ts i = Some t \<Longrightarrow> task_ok opened s t"
    and "ts i = Some t \<Longrightarrow> ts j = Some u \<Longrightarrow> pair_ok i t j u"
  using assms unfolding tasks_ok_def by blast+

lemma pair_ok_sym: "pair_ok i t j u \<Longrightarrow> pair_ok j u i t"
  by (auto simp: pair_ok_def)

lemma pair_ok_refl: "pair_ok i t i t"
  by (simp add: pair_ok_def)

text \<open>A task joins, or replaces its own entry.\<close>

lemma tasks_ok_upd:
  assumes "tasks_ok opened s ts" "task_ok opened s t"
    and "\<And>j u. j \<noteq> i \<Longrightarrow> ts j = Some u \<Longrightarrow> pair_ok i t j u"
  shows "tasks_ok opened s (ts(i \<mapsto> t))"
  unfolding tasks_ok_def
proof (intro conjI allI impI)
  fix k v assume "(ts(i \<mapsto> t)) k = Some v"
  then show "task_ok opened s v" using assms(2) tasks_okD(1) [OF assms(1)] by (cases "k = i") auto
next
  fix k v j u assume a: "(ts(i \<mapsto> t)) k = Some v" "(ts(i \<mapsto> t)) j = Some u"
  show "pair_ok k v j u"
  proof (cases "k = i"; cases "j = i")
    assume "k = i" "j = i" then show ?thesis using a pair_ok_refl by simp
  next
    assume "k = i" "j \<noteq> i" then show ?thesis using a assms(3) by simp
  next
    assume "k \<noteq> i" "j = i" then show ?thesis using a assms(3) pair_ok_sym by simp
  next
    assume "k \<noteq> i" "j \<noteq> i" then show ?thesis using a tasks_okD(2) [OF assms(1)] by simp
  qed
qed

definition peeks_inv :: "('x \<Rightarrow> nat list) \<Rightarrow> ('x \<Rightarrow> nat list) \<Rightarrow> 'x peeks \<Rightarrow> bool" where
  "peeks_inv opened shut p \<longleftrightarrow>
     links_inv opened shut (pk_bus p) \<and> locks_ok (pk_bus p) \<and> tasks_ok opened (pk_bus p) (pk_tasks p)"

lemma evolves_refl: "evolves opened s s"
  by (simp add: evolves_def)

lemma task_evolves:
  assumes ok: "task_ok opened s0 t" and ev: "evolves opened s0 s"
  shows "task_ok opened s t"
  unfolding task_ok_def
proof (intro conjI allI impI)
  have "map_of (sb_locks s0) (pt_link t) = Some (pt_lock t)" using ok by (simp add: task_ok_def)
  moreover have "map_of (sb_locks s0) \<subseteq>\<^sub>m map_of (sb_locks s)" using ev by (simp add: evolves_def)
  ultimately show "map_of (sb_locks s) (pt_link t) = Some (pt_lock t)" by (metis map_le_def domI)
  show "pt_receiver t \<in> set (opened (sb_client s))" using ok ev by (auto simp: task_ok_def evolves_def)
next
  fix k assume "map_of (sb_receivers s) k = Some (pt_receiver t)"
  with ev have "map_of (sb_receivers s0) k = Some (pt_receiver t) \<or> pt_receiver t \<notin> set (opened (sb_client s0))"
    unfolding evolves_def by blast
  with ok show "k = pt_link t" unfolding task_ok_def by blast
qed

lemma tasks_evolve:
  assumes "tasks_ok opened s0 ts" "evolves opened s0 s"
  shows "tasks_ok opened s ts"
  using assms(1) task_evolves [OF _ assms(2)] unfolding tasks_ok_def by blast

text \<open>An operation on the bus alone, and the end of a task.\<close>

lemma bus_keeps_peeks:
  assumes "\<And>s0. keeps (bus_ok opened shut s0) m" "m (pk_bus p) = (r, b)" "peeks_inv opened shut p"
  shows "links_inv opened shut b \<and> locks_ok b \<and> evolves opened (pk_bus p) b \<and> tasks_ok opened b (pk_tasks p)"
proof -
  have "bus_ok opened shut (pk_bus p) (pk_bus p)" using assms(3) by (simp add: bus_ok_def peeks_inv_def evolves_refl)
  then have "bus_ok opened shut (pk_bus p) (snd (m (pk_bus p)))" using assms(1) unfolding triple_keep by blast
  then have "bus_ok opened shut (pk_bus p) b" using assms(2) by simp
  then show ?thesis using assms(3) tasks_evolve by (auto simp: bus_ok_def peeks_inv_def)
qed

lemma task_ends: "tasks_ok opened s ts \<Longrightarrow> tasks_ok opened s (ts(i := None))"
  unfolding tasks_ok_def by (metis fun_upd_apply option.distinct(1))

text \<open>What a request has looked up when it first waits.\<close>

lemma begin_peek_result:
  assumes "begin_peek az key s = (Inr (h, l), b)"
  shows "map_of (sb_receivers b) key = Some h \<and> map_of (sb_locks b) key = Some l"
proof -
  obtain s1 where 1: "get_receiver az key s = (Inr h, s1)" "get_receiver_lock key s1 = (Inr l, b)"
    using assms by (auto simp: begin_peek_def pm_simps prod_eq_iff split: sum.splits)
  have "sb_receivers b = sb_receivers s1"
    using 1(2) by (auto simp: get_receiver_lock_def Let_def split: option.splits)
  with get_receiver_cached [OF 1(1)] lock_of_key [OF 1(2)] show ?thesis by simp
qed

lemma task_arrives:
  assumes ok: "tasks_ok opened s ts" and inv: "links_inv opened shut s"
    and h: "map_of (sb_receivers s) (pt_link t) = Some (pt_receiver t)"
    and l: "map_of (sb_locks s) (pt_link t) = Some (pt_lock t)"
    and new: "\<not> pt_inside t"
  shows "tasks_ok opened s (ts(i \<mapsto> t))"
proof (rule tasks_ok_upd [OF ok])
  show "task_ok opened s t"
    using receiver_opened [OF inv h] receivers_injective [OF inv _ h] l by (auto simp: task_ok_def)
next
  fix j u assume "j \<noteq> i" and "ts j = Some u"
  then have "task_ok opened s u" using tasks_okD(1) [OF ok] by blast
  then have "map_of (sb_receivers s) (pt_link t) = Some (pt_receiver u) \<Longrightarrow> pt_link t = pt_link u"
    unfolding task_ok_def by blast
  then show "pair_ok i t j u" using h new by (simp add: pair_ok_def)
qed

lemma task_enters:
  assumes ok: "tasks_ok opened s (pk_tasks p)" and t: "pk_tasks p i = Some t"
    and free: "lock_free p (pt_lock t)"
  shows "tasks_ok opened s ((pk_tasks p)(i \<mapsto> t\<lparr>pt_inside := True\<rparr>))"
proof (rule tasks_ok_upd [OF ok])
  show "task_ok opened s (t\<lparr>pt_inside := True\<rparr>)" using tasks_okD(1) [OF ok t] by (simp add: task_ok_def)
next
  fix j u assume j: "j \<noteq> i" "pk_tasks p j = Some u"
  have "pt_inside u \<Longrightarrow> pt_lock u \<noteq> pt_lock t" using free j(2) unfolding lock_free_def by blast
  then show "pair_ok i (t\<lparr>pt_inside := True\<rparr>) j u"
    using tasks_okD(2) [OF ok t j(2)] by (auto simp: pair_ok_def)
qed

lemma peek_step_keeps:
  assumes laws: "azure_laws az opened shut" and inv: "peeks_inv opened shut p" and step: "peek_step az jl p p'"
  shows "peeks_inv opened shut p'"
  using step
proof cases
  case (arrive topic sub h l b i n cur)
  note b = bus_keeps_peeks [OF bus_ok_begin [OF laws] arrive(2) inv]
  have "tasks_ok opened b ((pk_tasks p)(i \<mapsto> \<lparr>pt_link = (topic, sub, None), pt_receiver = h, pt_lock = l,
      pt_count = n, pt_from = cur, pt_inside = False\<rparr>))"
    by (rule task_arrives [where shut = shut]) (use b begin_peek_result [OF arrive(2)] in simp_all)
  then show ?thesis using b arrive(1) by (simp add: peeks_inv_def)
next
  case (refused topic sub e b)
  from bus_keeps_peeks [OF bus_ok_begin [OF laws] refused(2) inv] show ?thesis
    using refused(1) by (simp add: peeks_inv_def)
next
  case (enter i t)
  then show ?thesis using inv task_enters [of opened "pk_bus p" p i t] by (simp add: peeks_inv_def)
next
  case (leave i t r b)
  have "keeps (bus_ok opened shut s0) (on_client (az_peek_messages az (pt_receiver t) (pt_count t) (pt_from t)))" for s0
    using laws by (intro bus_ok_client) (simp add: azure_laws_def)
  from bus_keeps_peeks [OF this leave(4) inv] show ?thesis
    using leave(1) by (simp add: peeks_inv_def task_ends)
next
  case (cancel i t)
  then show ?thesis using inv by (simp add: peeks_inv_def task_ends)
next
  case (other a r b)
  from bus_keeps_peeks [OF bus_ok_do [OF laws] other(2) inv] show ?thesis
    using other(1) by (simp add: peeks_inv_def)
next
  case (shutdown r b)
  from bus_keeps_peeks [OF bus_ok_close [OF laws] shutdown(2) inv] show ?thesis
    using shutdown(1) by (simp add: peeks_inv_def)
qed

lemma peeks_reach:
  assumes "azure_laws az opened shut" "opened x0 = []" "shut x0 = []"
    and "(peek_step az jl)\<^sup>*\<^sup>* (peeks_init us x0) p"
  shows "peeks_inv opened shut p"
  using assms(4)
proof (induction rule: rtranclp_induct)
  case base
  then show ?case using assms(2,3)
    by (simp add: peeks_inv_def peeks_init_def links_inv_def held_def sb_init_def dict_ok_def locks_ok_def tasks_ok_def)
next
  case (step p p')
  then show ?case using peek_step_keeps [OF assms(1)] by blast
qed

section \<open>Mutual exclusion per link\<close>


text \<open>Two requests on one link: one inside, the other waiting on the same receiver and lock.\<close>

definition waiting_peek :: peek_task where
  "waiting_peek = \<lparr>pt_link = (''t'', ''s'', None), pt_receiver = 1, pt_lock = 0, pt_count = 5, pt_from = None, pt_inside = False\<rparr>"

definition one_link_bus :: "(nat list \<times> nat list) service_bus" where
  "one_link_bus = \<lparr>sb_client = ([1], []), sb_senders = [], sb_receivers = [((''t'', ''s'', None), 1)],
     sb_locks = [((''t'', ''s'', None), 0)], sb_uuids = (\<lambda>_. ''u''), sb_uuid_next = 0\<rparr>"

definition two_peeks :: "(nat list \<times> nat list) peeks" where
  "two_peeks = \<lparr>pk_bus = one_link_bus,
     pk_tasks = [0 \<mapsto> waiting_peek\<lparr>pt_inside := True\<rparr>, 1 \<mapsto> waiting_peek]\<rparr>"

lemma two_peeks_reached:
  "(peek_step loopback braces_lib)\<^sup>*\<^sup>* (peeks_init (\<lambda>_. ''u'') ([], [])) two_peeks"
proof -
  let ?p0 = "peeks_init (\<lambda>_. ''u'') ([], []) :: (nat list \<times> nat list) peeks"
  let ?p1 = "\<lparr>pk_bus = one_link_bus, pk_tasks = [0 \<mapsto> waiting_peek]\<rparr>"
  let ?p2 = "\<lparr>pk_bus = one_link_bus, pk_tasks = [0 \<mapsto> waiting_peek\<lparr>pt_inside := True\<rparr>]\<rparr>"
  have first: "begin_peek loopback (''t'', ''s'', None) (sb_init (\<lambda>_. ''u'') ([], [])) = (Inr (1, 0), one_link_bus)"
    by (simp add: begin_peek_def get_receiver_def get_receiver_lock_def sb_init_def on_client_def pm_simps
        loopback_def open_link_def one_link_bus_def Let_def)
  have again: "begin_peek loopback (''t'', ''s'', None) one_link_bus = (Inr (1, 0), one_link_bus)"
    by (simp add: begin_peek_def get_receiver_def get_receiver_lock_def pm_simps one_link_bus_def)
  have "peek_step loopback braces_lib ?p0 ?p1"
    using peek_step.arrive [where p = ?p0 and i = 0 and n = 5 and cur = None and jl = braces_lib, of loopback]
      first by (simp add: peeks_init_def waiting_peek_def)
  moreover have "peek_step loopback braces_lib ?p1 ?p2"
    using peek_step.enter [of ?p1 0 waiting_peek loopback braces_lib]
    by (simp add: lock_free_def waiting_peek_def)
  moreover have "peek_step loopback braces_lib ?p2 two_peeks"
    using peek_step.arrive [where p = ?p2 and i = 1 and n = 5 and cur = None and jl = braces_lib, of loopback]
      again by (simp add: two_peeks_def waiting_peek_def)
  ultimately show ?thesis by (meson rtranclp.rtrancl_into_rtrancl rtranclp.rtrancl_refl)
qed


end
