(* ===== verification/Config.thy ===== *)
theory Config
  imports PyVal
begin

text \<open>
  Configuration and the choice of backends: \<open>Settings\<close>, \<open>resolve_settings\<close> and \<open>is_default\<close> of
  \<open>libs/common/config.py\<close>, the port factories of \<open>bus.py\<close>, \<open>redis_client.py\<close>, \<open>druid.py\<close> and
  \<open>es.py\<close>, the provider factories of \<open>services/ai/llm/factory.py\<close>, and the default services of
  the \<open>app.py\<close> files.  A backend is the choice of its class with its address; reading the
  environment is a parameter.
\<close>

section \<open>Settings\<close>

text \<open>An address may be \<open>None\<close> in a settings object that a caller injects.\<close>

record settings =
  st_service_bus :: "string option"
  st_redis_url :: "string option"
  st_druid_url :: "string option"
  st_elasticsearch_url :: "string option"
  st_mock_llm :: bool
  st_openai_api_key :: "string option"
  st_openai_base_url :: "string option"
  st_openai_chat_model :: string
  st_openai_embedding_model :: string
  st_new_relic_license_key :: "string option"
  st_new_relic_config_file :: "string option"
  st_new_relic_app_name :: "string option"
  st_new_relic_environment :: "string option"
  st_log_index :: "string option"
  st_log_level :: string
  st_service_name :: string

definition default_settings :: settings where
  "default_settings =
     \<lparr>st_service_bus = Some (''Endpoint=sb://localhost;SharedAccessKeyName=RootManageSharedAccessKey;''
        @ ''SharedAccessKey=SAS_KEY_VALUE_HERE;UseDevelopmentEmulator=true;''),
      st_redis_url = Some ''redis://localhost:6379/0'', st_druid_url = Some ''http://localhost:8888'',
      st_elasticsearch_url = Some ''http://localhost:9200'', st_mock_llm = True, st_openai_api_key = None,
      st_openai_base_url = None, st_openai_chat_model = ''gpt-4o-mini'',
      st_openai_embedding_model = ''text-embedding-3-small'', st_new_relic_license_key = None,
      st_new_relic_config_file = None, st_new_relic_app_name = None, st_new_relic_environment = None,
      st_log_index = None, st_log_level = ''INFO'', st_service_name = ''market-intel''\<rparr>"

text \<open>The path of the dotenv file, by the environment; an empty one disables it.\<close>

definition dotenv_path :: "(string \<rightharpoonup> string) \<Rightarrow> string option" where
  "dotenv_path environ =
     (let p = (case environ ''MIP_DOTENV_PATH'' of None \<Rightarrow> ''.env'' | Some p \<Rightarrow> p) in if p = [] then None else Some p)"

text \<open>The singleton: what was read first, from then on.\<close>

definition get_settings :: "settings \<Rightarrow> (settings option, settings) pm" where
  "get_settings environment = (\<lambda>cached. case cached of
     Some st \<Rightarrow> (Inr st, cached) | None \<Rightarrow> (Inr environment, Some environment))"

definition resolve_settings :: "settings \<Rightarrow> settings option \<Rightarrow> (settings option, settings) pm" where
  "resolve_settings environment given =
     (case given of None \<Rightarrow> get_settings environment | Some st \<Rightarrow> returnM st)"

text \<open>\<open>is_default(field, value)\<close>, the field by its selector.\<close>

definition is_default :: "(settings \<Rightarrow> 'a) \<Rightarrow> 'a \<Rightarrow> bool" where
  "is_default field value \<longleftrightarrow> value = field default_settings"

section \<open>Port factories\<close>

datatype backend = InMemory | Remote string

definition address :: "string option \<Rightarrow> string" where
  "address v = (case v of None \<Rightarrow> [] | Some a \<Rightarrow> a)"

definition FAKE_CONN_STRINGS :: "string list" where "FAKE_CONN_STRINGS = [''SAS_KEY_VALUE_HERE'']"

definition is_placeholder :: "string \<Rightarrow> bool" where
  "is_placeholder conn \<longleftrightarrow> str_strip conn = [] \<or> list_ex (\<lambda>marker. str_contains marker conn) FAKE_CONN_STRINGS"

definition get_message_bus :: "settings \<Rightarrow> backend" where
  "get_message_bus st =
     (let conn = address (st_service_bus st) in if is_placeholder conn then InMemory else Remote conn)"

definition by_default :: "(settings \<Rightarrow> string option) \<Rightarrow> settings \<Rightarrow> backend" where
  "by_default field st =
     (let url = address (field st) in
      if url = [] \<or> is_default field (Some url) then InMemory else Remote url)"

definition get_cache :: "settings \<Rightarrow> backend" where "get_cache st = by_default st_redis_url st"

definition get_timeseries_store :: "settings \<Rightarrow> backend" where "get_timeseries_store st = by_default st_druid_url st"

definition get_search_store :: "settings \<Rightarrow> backend" where "get_search_store st = by_default st_elasticsearch_url st"

section \<open>Providers\<close>

record openai_config =
  oc_api_key :: string
  oc_base_url :: "string option"
  oc_chat_model :: string
  oc_embedding_model :: string

datatype provider_choice = MockProvider | OpenAI openai_config

definition build_openai :: "settings \<Rightarrow> provider_choice" where
  "build_openai st = OpenAI
     \<lparr>oc_api_key = (let k = address (st_openai_api_key st) in if k = [] then ''local'' else k),
      oc_base_url = st_openai_base_url st, oc_chat_model = st_openai_chat_model st,
      oc_embedding_model = st_openai_embedding_model st\<rparr>"

definition get_llm_provider :: "settings \<Rightarrow> provider_choice" where
  "get_llm_provider st = (if st_mock_llm st then MockProvider else build_openai st)"

definition get_embedding_provider :: "settings \<Rightarrow> provider_choice" where
  "get_embedding_provider st = (if st_mock_llm st then MockProvider else build_openai st)"

record provider_bundle =
  pb_generator :: provider_choice
  pb_embedder :: provider_choice

definition get_provider_bundle :: "settings \<Rightarrow> provider_bundle" where
  "get_provider_bundle st = \<lparr>pb_generator = get_llm_provider st, pb_embedder = get_embedding_provider st\<rparr>"

section \<open>The default services\<close>

text \<open>
  What \<open>create_app\<close> of a service builds: the backends of \<open>build_default_service\<close>, the store of
  the log sink and whether the New Relic agent is started, both by \<open>bootstrap_service_logging\<close>.
\<close>

record service_backends =
  sv_bus :: backend
  sv_cache :: "backend option"
  sv_timeseries :: "backend option"
  sv_search :: "backend option"
  sv_providers :: "provider_bundle option"
  sv_log_sink :: backend
  sv_agent :: bool

definition wants_agent :: "settings \<Rightarrow> bool" where
  "wants_agent st \<longleftrightarrow> address (st_new_relic_license_key st) \<noteq> [] \<or> address (st_new_relic_config_file st) \<noteq> []"

text \<open>The replay feed of the ingestion service needs no backend.\<close>

definition default_ingestion_service :: "settings \<Rightarrow> service_backends" where
  "default_ingestion_service st = \<lparr>sv_bus = get_message_bus st, sv_cache = None, sv_timeseries = None, sv_search = None,
     sv_providers = None, sv_log_sink = get_search_store st, sv_agent = wants_agent st\<rparr>"

definition default_stream_service :: "settings \<Rightarrow> service_backends" where
  "default_stream_service st = \<lparr>sv_bus = get_message_bus st, sv_cache = Some (get_cache st),
     sv_timeseries = Some (get_timeseries_store st), sv_search = None, sv_providers = None,
     sv_log_sink = get_search_store st, sv_agent = wants_agent st\<rparr>"

definition default_alerting_service :: "settings \<Rightarrow> service_backends" where
  "default_alerting_service st = \<lparr>sv_bus = get_message_bus st, sv_cache = Some (get_cache st),
     sv_timeseries = None, sv_search = None, sv_providers = None,
     sv_log_sink = get_search_store st, sv_agent = wants_agent st\<rparr>"

definition default_ai_service :: "settings \<Rightarrow> service_backends" where
  "default_ai_service st = \<lparr>sv_bus = get_message_bus st, sv_cache = Some (get_cache st),
     sv_timeseries = None, sv_search = Some (get_search_store st), sv_providers = Some (get_provider_bundle st),
     sv_log_sink = get_search_store st, sv_agent = wants_agent st\<rparr>"

definition default_api_service :: "settings \<Rightarrow> service_backends" where
  "default_api_service st = \<lparr>sv_bus = get_message_bus st, sv_cache = Some (get_cache st),
     sv_timeseries = Some (get_timeseries_store st), sv_search = None, sv_providers = None,
     sv_log_sink = get_search_store st, sv_agent = wants_agent st\<rparr>"

definition default_services :: "settings \<Rightarrow> service_backends list" where
  "default_services st = [default_ingestion_service st, default_stream_service st, default_alerting_service st,
     default_ai_service st, default_api_service st]"

section \<open>Properties\<close>

text \<open>
  What a service contacts: an address, the OpenAI SDK's own address (its default, when no base
  URL is given), or New Relic.
\<close>

datatype contact = At string | SdkAddress | NewRelic

definition provider_contact :: "provider_choice \<Rightarrow> contact set" where
  "provider_contact c = (case c of MockProvider \<Rightarrow> {}
     | OpenAI cfg \<Rightarrow> {case oc_base_url cfg of None \<Rightarrow> SdkAddress | Some url \<Rightarrow> At url})"

definition remote_backends :: "service_backends \<Rightarrow> contact set" where
  "remote_backends sv =
     {At url |url. sv_bus sv = Remote url \<or> sv_log_sink sv = Remote url \<or>
        Some (Remote url) \<in> {sv_cache sv, sv_timeseries sv, sv_search sv}} \<union>
     (case sv_providers sv of None \<Rightarrow> {}
      | Some b \<Rightarrow> provider_contact (pb_generator b) \<union> provider_contact (pb_embedder b)) \<union>
     (if sv_agent sv then {NewRelic} else {})"

text \<open>What the settings name: addresses neither blank nor as shipped, a live model, a monitored process.\<close>

definition configured :: "settings \<Rightarrow> contact set" where
  "configured st =
     {At url |url. st_service_bus st = Some url \<and> str_strip url \<noteq> [] \<and> \<not> str_contains ''SAS_KEY_VALUE_HERE'' url} \<union>
     {At url |url. url \<noteq> [] \<and> (\<exists>field\<in>{st_redis_url, st_druid_url, st_elasticsearch_url}.
        field st = Some url \<and> field default_settings \<noteq> Some url)} \<union>
     (if st_mock_llm st then {} else {case st_openai_base_url st of None \<Rightarrow> SdkAddress | Some url \<Rightarrow> At url}) \<union>
     {NewRelic |v. v \<noteq> [] \<and> (st_new_relic_license_key st = Some v \<or> st_new_relic_config_file st = Some v)}"

lemma by_default_remote:
  "by_default field st = Remote url \<Longrightarrow> url \<noteq> [] \<and> field st = Some url \<and> field default_settings \<noteq> Some url"
  by (auto simp: by_default_def is_default_def address_def Let_def split: if_splits option.splits)

lemma get_message_bus_remote:
  "get_message_bus st = Remote url \<Longrightarrow>
     st_service_bus st = Some url \<and> str_strip url \<noteq> [] \<and> \<not> str_contains ''SAS_KEY_VALUE_HERE'' url"
  by (auto simp: get_message_bus_def is_placeholder_def FAKE_CONN_STRINGS_def address_def Let_def str_strip_def
      str_rstrip_def str_lstrip_def split: if_splits option.splits)

lemmas service_defs = default_services_def default_ingestion_service_def default_stream_service_def
  default_alerting_service_def default_ai_service_def default_api_service_def

lemma bus_configured: "get_message_bus st = Remote url \<Longrightarrow> At url \<in> configured st"
  using get_message_bus_remote by (simp add: configured_def)

lemma field_configured:
  "by_default field st = Remote url \<Longrightarrow> field \<in> {st_redis_url, st_druid_url, st_elasticsearch_url} \<Longrightarrow> At url \<in> configured st"
  using by_default_remote [of field st url] unfolding configured_def by blast

lemmas port_defs = get_cache_def get_timeseries_store_def get_search_store_def

lemma ports_configured:
  "get_cache st = Remote url \<Longrightarrow> At url \<in> configured st"
  "get_timeseries_store st = Remote url \<Longrightarrow> At url \<in> configured st"
  "get_search_store st = Remote url \<Longrightarrow> At url \<in> configured st"
  using field_configured [of st_redis_url st url] field_configured [of st_druid_url st url]
    field_configured [of st_elasticsearch_url st url]
  by (simp_all add: port_defs)

lemma provider_configured:
  "provider_contact (get_llm_provider st) \<subseteq> configured st" "provider_contact (get_embedding_provider st) \<subseteq> configured st"
  by (auto simp: provider_contact_def get_llm_provider_def get_embedding_provider_def build_openai_def configured_def)

lemma agent_configured: "wants_agent st \<Longrightarrow> NewRelic \<in> configured st"
  by (auto simp: wants_agent_def address_def configured_def split: option.splits)

lemma remote_configured: "list_all (\<lambda>sv. remote_backends sv \<subseteq> configured st) (default_services st)"
proof -
  have "c \<in> configured st" if "c \<in> remote_backends sv" "sv \<in> set (default_services st)" for c sv
    using that bus_configured ports_configured provider_configured [THEN subsetD] agent_configured
    by (auto simp: service_defs remote_backends_def get_provider_bundle_def split: if_splits)
  then show ?thesis unfolding list_all_iff by blast
qed

lemma default_backends:
  "get_message_bus default_settings = InMemory" "get_cache default_settings = InMemory"
  "get_timeseries_store default_settings = InMemory" "get_search_store default_settings = InMemory"
proof -
  have "str_contains ''SAS_KEY_VALUE_HERE'' (address (st_service_bus default_settings))" by code_simp
  then show "get_message_bus default_settings = InMemory"
    by (simp add: get_message_bus_def is_placeholder_def FAKE_CONN_STRINGS_def Let_def)
qed (simp_all add: port_defs by_default_def is_default_def Let_def address_def default_settings_def)

lemma default_providers:
  "get_provider_bundle default_settings = \<lparr>pb_generator = MockProvider, pb_embedder = MockProvider\<rparr>"
  "\<not> wants_agent default_settings"
  by (simp_all add: get_provider_bundle_def get_llm_provider_def get_embedding_provider_def default_settings_def
      wants_agent_def address_def)

text \<open>
  C39: The platform is safe offline: with the shipped settings none of the five services
  contacts anything: backends and log sink are in memory, the model is the mock and no agent
  is started; whatever the settings are, a service contacts only what they name: addresses
  that are neither blank nor the shipped ones, with the mock turned off the provider's base
  URL (the SDK's own address when none is given), and New Relic when its license key or
  configuration file is given.
\<close>

theorem offline_safe:
  "list_all (\<lambda>sv. remote_backends sv = {}) (default_services default_settings) \<and>
   list_all (\<lambda>sv. remote_backends sv \<subseteq> configured st) (default_services st)"
  using remote_configured [of st]
  by (simp add: service_defs remote_backends_def default_backends default_providers provider_contact_def)

text \<open>The settings are read once: later environments do not matter.\<close>

lemma settings_singleton:
  "get_settings env' (snd (get_settings env c)) = get_settings env c"
  by (cases c) (simp_all add: get_settings_def)

end
