(* ===== verification/LogSink.thy ===== *)
theory LogSink
  imports HttpMetrics SearchStore Config
begin

text \<open>
  The rest of \<open>libs/common/logging.py\<close>: the process-wide log sink that mirrors every log line
  into a search store, its configuration and shutdown, and the New Relic bootstrap.  The
  processors of structlog around the mirror, the agent and the environment are parameters;
  the rendering to stdout is structlog's.
\<close>

section \<open>The sink\<close>

text \<open>
  A store other than the in-memory one is a task's business when an event loop runs; the tasks
  wait in \<open>lg_pending\<close>.  The debug line of a reconfiguration for another service is left out.
\<close>

datatype 'r sink = MemorySink inmem_search | RemoteSink

text \<open>The root logger of the standard library, its handlers by the format they print.\<close>

record root_logger =
  rl_handlers :: "string list"
  rl_level :: int

record 'r log_state =
  lg_configured :: bool
  lg_service :: string
  lg_index :: string
  lg_sink :: "'r sink option"
  lg_level :: int
  lg_root :: root_logger
  lg_pending :: "(string \<times> pydict) list"
  lg_ext :: 'r

definition log_init :: "'r \<Rightarrow> 'r log_state" where
  "log_init ext = \<lparr>lg_configured = False, lg_service = ''market-intel'', lg_index = ''logs-market-intel'', lg_sink = None,
     lg_level = 30, lg_root = \<lparr>rl_handlers = [], rl_level = 30\<rparr>, lg_pending = [], lg_ext = ext\<rparr>"

section \<open>Configuration\<close>

definition numeric_level :: "string \<Rightarrow> int" where
  "numeric_level level =
     (case map_of [(''CRITICAL'', 50), (''FATAL'', 50), (''ERROR'', 40), (''WARNING'', 30), (''WARN'', 30), (''INFO'', 20),
                   (''DEBUG'', 10), (''NOTSET'', 0)] level of None \<Rightarrow> 20 | Some n \<Rightarrow> n)"

definition or_else :: "string option \<Rightarrow> string \<Rightarrow> string" where
  "or_else v d = (case v of None \<Rightarrow> d | Some s \<Rightarrow> if s = [] then d else s)"

definition derived_index :: "string \<Rightarrow> string" where
  "derived_index service =
     ''logs-'' @ str_lower (replace_char (CHR '' '') ''-'' (replace_char (CHR ''_'') ''-'' service))"

text \<open>
  \<open>basicConfig(force=True)\<close> replaces the handlers by one that prints the bare message; then every
  handler is removed and one that prints JSON is added.
\<close>

definition remove_handler :: "string \<Rightarrow> root_logger \<Rightarrow> root_logger" where
  "remove_handler h r = r\<lparr>rl_handlers := remove1 h (rl_handlers r)\<rparr>"

definition add_handler :: "string \<Rightarrow> root_logger \<Rightarrow> root_logger" where
  "add_handler h r = (if h \<in> set (rl_handlers r) then r else r\<lparr>rl_handlers := rl_handlers r @ [h]\<rparr>)"

definition configure_root :: "int \<Rightarrow> root_logger \<Rightarrow> root_logger" where
  "configure_root level r =
     (let r1 = r\<lparr>rl_handlers := [''%(message)s''], rl_level := level\<rparr>;
          r2 = fold remove_handler (rl_handlers r1) r1
      in (add_handler ''json'' r2)\<lparr>rl_level := level\<rparr>)"

definition configure_logging ::
  "string option \<Rightarrow> string option \<Rightarrow> 'r sink option \<Rightarrow> string option \<Rightarrow> 'r log_state \<Rightarrow> 'r log_state" where
  "configure_logging level service store index s =
     (let name = or_else service ''market-intel'' in
      s\<lparr>lg_service := name, lg_index := or_else index (derived_index name), lg_sink := store,
        lg_level := numeric_level (str_upper (or_else level ''INFO'')),
        lg_root := configure_root (numeric_level (str_upper (or_else level ''INFO''))) (lg_root s), lg_configured := True\<rparr>)"

definition get_logger :: "'r log_state \<Rightarrow> 'r log_state" where
  "get_logger s = (if lg_configured s then s else configure_logging None None None None s)"

section \<open>Mirroring\<close>

definition index_log_safely :: "'r search_ops \<Rightarrow> string \<Rightarrow> pydict \<Rightarrow> ('r log_state, unit) pm" where
  "index_log_safely ops index payload =
     catchM (zoomM lg_ext (\<lambda>r s. s\<lparr>lg_ext := r\<rparr>) (so_index_log ops index payload)) (\<lambda>_. returnM ())"

definition persist_event :: "'r search_ops \<Rightarrow> bool \<Rightarrow> pydict \<Rightarrow> ('r log_state, pydict) pm" where
  "persist_event ops loop_running event = (\<lambda>s.
     case lg_sink s of
       None \<Rightarrow> (Inr event, s)
     | Some (MemorySink st) \<Rightarrow> (Inr event, s\<lparr>lg_sink := Some (MemorySink (im_record_log (lg_index s) event st))\<rparr>)
     | Some RemoteSink \<Rightarrow>
         if loop_running then (Inr event, s\<lparr>lg_pending := lg_pending s @ [(lg_index s, event)]\<rparr>)
         else thenM (index_log_safely ops (lg_index s) event) (returnM event) s)"

text \<open>One log line: structlog's processors before the mirror, with the context injected.\<close>

definition log_line ::
  "'r search_ops \<Rightarrow> (pydict \<Rightarrow> pydict) \<Rightarrow> bool \<Rightarrow> log_context \<Rightarrow> pydict \<Rightarrow> ('r log_state, pydict) pm" where
  "log_line ops decorate loop_running c event = (\<lambda>s.
     persist_event ops loop_running (decorate (inject_context (lg_service s) c event)) s)"

text \<open>
  A call of a logger's method: the filtering logger drops what is below the configured level
  before any processor runs.
\<close>

definition method_level :: "string \<Rightarrow> int" where
  "method_level name =
     (case map_of [(''critical'', 50), (''fatal'', 50), (''exception'', 40), (''error'', 40), (''warn'', 30), (''warning'', 30),
                   (''info'', 20), (''debug'', 10)] name of None \<Rightarrow> 0 | Some n \<Rightarrow> n)"

definition log_call ::
  "'r search_ops \<Rightarrow> (pydict \<Rightarrow> pydict) \<Rightarrow> bool \<Rightarrow> log_context \<Rightarrow> string \<Rightarrow> pydict \<Rightarrow> ('r log_state, unit) pm" where
  "log_call ops decorate loop_running c name event = (\<lambda>s.
     if method_level name < lg_level s then (Inr (), s)
     else bindM (log_line ops decorate loop_running c event) (\<lambda>_. returnM ()) s)"

text \<open>The event loop runs the oldest pending write.\<close>

definition run_pending_write :: "'r search_ops \<Rightarrow> ('r log_state, unit) pm" where
  "run_pending_write ops = (\<lambda>s. case lg_pending s of
       [] \<Rightarrow> (Inr (), s)
     | (index, payload) # rest \<Rightarrow> index_log_safely ops index payload (s\<lparr>lg_pending := rest\<rparr>))"

text \<open>The store is forgotten before its \<open>close\<close>, if it has one, whose failure is swallowed.\<close>

definition close_log_sink :: "('r, unit) pm option \<Rightarrow> ('r log_state, unit) pm" where
  "close_log_sink close = (\<lambda>s.
     let s' = s\<lparr>lg_sink := None\<rparr> in
     case (lg_sink s, close) of
       (Some RemoteSink, Some m) \<Rightarrow> catchM (zoomM lg_ext (\<lambda>r s. s\<lparr>lg_ext := r\<rparr>) m) (\<lambda>_. returnM ()) s'
     | _ \<Rightarrow> (Inr (), s'))"

section \<open>New Relic\<close>

text \<open>
  What importing the agent gives: nothing, or a module that may have \<open>register_application\<close>.
  The record of its calls: the configuration file, if any, with the environment it was
  initialized for, and whether the application was registered.
\<close>

record agent_calls =
  ag_initialized :: "(string option \<times> string option) list"
  ag_registered :: bool

definition setdefault_env :: "string \<Rightarrow> string \<Rightarrow> (string \<rightharpoonup> string) \<Rightarrow> (string \<rightharpoonup> string)" where
  "setdefault_env k v environ = (if environ k = None then environ(k \<mapsto> v) else environ)"

definition set_if_given :: "string \<Rightarrow> string option \<Rightarrow> (string \<rightharpoonup> string) \<Rightarrow> (string \<rightharpoonup> string)" where
  "set_if_given k v environ = (case v of None \<Rightarrow> environ | Some t \<Rightarrow> if t = [] then environ else setdefault_env k t environ)"

definition or_opt :: "string option \<Rightarrow> string option \<Rightarrow> string option" where
  "or_opt a b = (case a of Some t \<Rightarrow> if t = [] then b else a | None \<Rightarrow> b)"

definition configure_new_relic ::
  "settings \<Rightarrow> string option \<Rightarrow> bool option \<Rightarrow> (string \<rightharpoonup> string) \<times> agent_calls \<Rightarrow>
   bool \<times> (string \<rightharpoonup> string) \<times> agent_calls" where
  "configure_new_relic st service agent = (\<lambda>(environ, calls).
     if \<not> given (st_new_relic_license_key st) \<and> \<not> given (st_new_relic_config_file st) then (False, environ, calls)
     else case agent of
       None \<Rightarrow> (False, environ, calls)
     | Some can_register \<Rightarrow>
         (True,
          set_if_given ''NEW_RELIC_ENVIRONMENT'' (st_new_relic_environment st)
            (set_if_given ''NEW_RELIC_APP_NAME'' (or_opt (st_new_relic_app_name st) service)
              (set_if_given ''NEW_RELIC_LICENSE_KEY'' (st_new_relic_license_key st) environ)),
          calls\<lparr>ag_initialized := ag_initialized calls @
                  [if given (st_new_relic_config_file st) then (st_new_relic_config_file st, st_new_relic_environment st)
                   else (None, None)],
                ag_registered := ag_registered calls \<or> can_register\<rparr>))"

section \<open>Properties\<close>

lemma persist_total: "\<exists>s'. persist_event ops loop_running event s = (Inr event, s')"
  by (auto simp: persist_event_def index_log_safely_def pm_simps split: option.split sink.split sum.split)

lemma log_call_total: "\<exists>s'. log_call ops decorate loop_running c name event s = (Inr (), s')"
  using persist_total [of ops loop_running "decorate (inject_context (lg_service s) c event)" s]
  by (auto simp: log_call_def log_line_def bindM_apply returnM_def)

text \<open>However often logging was configured before, a line is printed once.\<close>

lemma one_handler: "rl_handlers (lg_root (configure_logging level service store index s)) = [''json'']"
  by (simp add: configure_logging_def Let_def configure_root_def remove_handler_def add_handler_def)

lemma default_level_hides_debug:
  "log_call ops decorate loop_running c ''debug'' event (configure_logging None service store index s) =
     (Inr (), configure_logging None service store index s)"
proof -
  have "lg_level (configure_logging None service store index s) = 20"
    by (simp add: configure_logging_def or_else_def Let_def) code_simp
  then show ?thesis by (simp add: log_call_def method_level_def)
qed

text \<open>Calls of a logger's methods, each with the context it is made in.\<close>

fun log_all ::
  "'r search_ops \<Rightarrow> (pydict \<Rightarrow> pydict) \<Rightarrow> bool \<Rightarrow> (log_context \<times> string \<times> pydict) list \<Rightarrow> 'r log_state \<Rightarrow> 'r log_state" where
  "log_all ops decorate looping [] s = s"
| "log_all ops decorate looping ((c, name, event) # rest) s =
     log_all ops decorate looping rest (snd (log_call ops decorate looping c name event s))"

text \<open>The calls that a level lets through, as the lines they mirror.\<close>

definition mirrored :: "(pydict \<Rightarrow> pydict) \<Rightarrow> string \<Rightarrow> int \<Rightarrow> (log_context \<times> string \<times> pydict) list \<Rightarrow> pydict list" where
  "mirrored decorate service level es =
     map (\<lambda>(c, name, e). decorate (inject_context service c e)) (filter (\<lambda>(c, name, e). level \<le> method_level name) es)"

lemma mirrored_simps [simp]:
  "mirrored decorate service level [] = []"
  "mirrored decorate service level ((c, name, e) # es) =
     (if level \<le> method_level name then decorate (inject_context service c e) # mirrored decorate service level es
      else mirrored decorate service level es)"
  by (simp_all add: mirrored_def)

lemma im_logs_record: "im_logs i (im_record_log j line st) = (if i = j then im_logs i st @ [line] else im_logs i st)"
  by (simp add: im_logs_def im_record_log_def split: option.split)

lemma log_call_memory:
  assumes "lg_sink s = Some (MemorySink st)"
  shows "snd (log_call ops decorate looping c name event s) =
    (if lg_level s \<le> method_level name
     then s\<lparr>lg_sink := Some (MemorySink
       (im_record_log (lg_index s) (decorate (inject_context (lg_service s) c event)) st))\<rparr>
     else s)"
  using assms by (simp add: log_call_def log_line_def persist_event_def bindM_apply returnM_def)

lemma mirrored_lines:
  "lg_sink s = Some (MemorySink st) \<Longrightarrow> \<exists>st'. lg_sink (log_all ops decorate looping es s) = Some (MemorySink st') \<and>
     im_logs i st' = (if i = lg_index s then im_logs i st @ mirrored decorate (lg_service s) (lg_level s) es
                      else im_logs i st)"
proof (induction es arbitrary: s st)
  case (Cons e es)
  obtain c name event where e: "e = (c, name, event)" by (cases e)
  show ?case
  proof (cases "lg_level s \<le> method_level name")
    case True
    let ?st = "im_record_log (lg_index s) (decorate (inject_context (lg_service s) c event)) st"
    let ?s = "s\<lparr>lg_sink := Some (MemorySink ?st)\<rparr>"
    from Cons.IH [of ?s ?st] obtain st' where
      "lg_sink (log_all ops decorate looping es ?s) = Some (MemorySink st')"
      "im_logs i st' = (if i = lg_index s then im_logs i ?st @ mirrored decorate (lg_service s) (lg_level s) es
        else im_logs i ?st)" by auto
    then show ?thesis
      using True by (intro exI [of _ st']) (simp add: e log_call_memory [OF Cons.prems] im_logs_record)
  next
    case False
    from Cons.IH [OF Cons.prems] obtain st' where
      "lg_sink (log_all ops decorate looping es s) = Some (MemorySink st')"
      "im_logs i st' = (if i = lg_index s then im_logs i st @ mirrored decorate (lg_service s) (lg_level s) es
        else im_logs i st)" by blast
    then show ?thesis
      using False by (intro exI [of _ st']) (simp add: e log_call_memory [OF Cons.prems])
  qed
qed simp

lemma silent_without_sink: "lg_sink s = None \<Longrightarrow> log_all ops decorate looping es s = s"
proof (induction es)
  case (Cons e es)
  then show ?case
    by (cases e) (simp add: log_call_def log_line_def persist_event_def bindM_apply returnM_def)
qed simp


text \<open>A line whose write is pending when the sink is closed stays pending: closing does not wait for it.\<close>

lemma close_leaves_pending: "lg_pending (snd (close_log_sink close s)) = lg_pending s"
  by (auto simp: close_log_sink_def Let_def pm_simps split: option.split sink.split sum.split)

definition no_context :: log_context where
  "no_context = \<lparr>cx_correlation_id = None, cx_trace_id = None, cx_extra = None\<rparr>"

definition two_calls :: "(log_context \<times> string \<times> pydict) list" where
  "two_calls = [(no_context, ''info'', [(''event'', PStr ''up'')]), (no_context, ''debug'', [(''event'', PStr ''detail'')])]"


end
