(* ===== verification/ServiceApp.thy ===== *)
theory ServiceApp
  imports LogSink
begin

text \<open>
  The shared bootstrap of the services: \<open>libs/common/service_app.py\<close> with the routes every
  service answers, its logging bootstrap, and the lifespan that runs a worker beside the
  application and releases its backends.  A worker is known by what its task does; FastAPI's
  routing is modelled for the three shared paths only.
\<close>

section \<open>Bootstrap\<close>

definition DISCLAIMER :: string where
  "DISCLAIMER = ''Portfolio project only. No financial advice. No real trades.''"

definition SERVICE_VERSION :: string where "SERVICE_VERSION = ''0.1.0''"

text \<open>The sink's store is built from the settings: the in-memory one or a remote one.\<close>

definition sink_of :: "settings \<Rightarrow> inmem_search \<Rightarrow> 'r sink" where
  "sink_of st fresh_store = (case get_search_store st of InMemory \<Rightarrow> MemorySink fresh_store | Remote _ \<Rightarrow> RemoteSink)"

definition bootstrap_service_logging ::
  "string \<Rightarrow> settings \<Rightarrow> inmem_search \<Rightarrow> bool option \<Rightarrow> 'r log_state \<times> (string \<rightharpoonup> string) \<times> agent_calls \<Rightarrow>
   'r log_state \<times> (string \<rightharpoonup> string) \<times> agent_calls" where
  "bootstrap_service_logging name st fresh_store agent = (\<lambda>(s, environ, calls).
     (configure_logging (Some (st_log_level st)) (Some name) (Some (sink_of st fresh_store)) (st_log_index st) s,
      snd (configure_new_relic st (Some name) agent (environ, calls))))"

section \<open>The shared routes\<close>

definition description :: "string \<Rightarrow> string" where
  "description summary = summary @ '' No financial advice. No real trades.''"

definition root_payload :: "string \<Rightarrow> string option \<Rightarrow> string list option \<Rightarrow> pydict" where
  "root_payload name display routes =
     [(''service'', PStr (or_else display name)), (''message'', PStr DISCLAIMER)]
     @ (case routes of None \<Rightarrow> [] | Some rs \<Rightarrow> [(''routes'', PList (map PStr rs))])"

record service_app =
  ap_name :: string
  ap_display :: "string option"
  ap_routes :: "string list option"
  ap_health :: "pydict result"
  ap_render :: "string result"

definition ok_response :: "pyval \<Rightarrow> response" where
  "ok_response body = \<lparr>rs_status = 200, rs_headers = [], rs_body = body\<rparr>"

text \<open>The application behind the middleware: the shared routes, then the service's own.\<close>

definition shared_routes :: "service_app \<Rightarrow> app_fun \<Rightarrow> app_fun" where
  "shared_routes app own = (\<lambda>rq c.
     if rq_method rq \<noteq> ''GET'' \<or> rq_path rq \<notin> {''/'', ''/health'', ''/metrics''} then own rq c
     else ((if rq_path rq = ''/'' then Inr (ok_response (PDict (root_payload (ap_name app) (ap_display app) (ap_routes app))))
            else if rq_path rq = ''/health'' then bindR (ap_health app) (\<lambda>d. Inr (ok_response (PDict d)))
            else bindR (ap_render app) (\<lambda>t. Inr (ok_response (PStr t)))),
           rq\<lparr>rq_route := Some (rq_path rq)\<rparr>, c))"

definition install_observability :: "string \<Rightarrow> app_fun \<Rightarrow> request \<Rightarrow> obs_state \<Rightarrow> response \<times> obs_state" where
  [simp]: "install_observability service_name app = observability_middleware service_name app"

definition serve :: "service_app \<Rightarrow> app_fun \<Rightarrow> request \<Rightarrow> obs_state \<Rightarrow> response \<times> obs_state" where
  "serve app own = install_observability (ap_name app) (shared_routes app own)"

section \<open>The lifespan\<close>

text \<open>
  A worker's task when the application shuts down: still running, with what awaiting it after
  the cancellation does, or done, by itself or cancelled.
\<close>

datatype cancel_outcome = EndsCancelled | EndsQuietly | EndsRaising exn

datatype worker_task = StillRunning cancel_outcome | Returned | Raised exn | WasCancelled

record 's life_state =
  lf_app :: 's
  lf_task :: "worker_task option"
  lf_errors :: "pydict list"

definition log_worker_failure :: "worker_task \<Rightarrow> string \<Rightarrow> ('s life_state, unit) pm" where
  "log_worker_failure task name = (case task of
     Raised e \<Rightarrow> modifyM (\<lambda>s. s\<lparr>lf_errors := lf_errors s @ [[(''event'', PStr ''service.worker_failed''),
       (''task'', PStr name), (''error_type'', PStr (exn_name e)), (''error'', PStr (exn_str e))]]\<rparr>)
   | _ \<Rightarrow> returnM ())"

definition stop_worker :: "string \<Rightarrow> ('s life_state, unit) pm" where
  "stop_worker name = (\<lambda>s. case lf_task s of
     None \<Rightarrow> (Inr (), s)
   | Some (StillRunning out) \<Rightarrow>
       (case out of EndsRaising e \<Rightarrow> (Inl e, s\<lparr>lf_task := Some (Raised e)\<rparr>)
        | EndsCancelled \<Rightarrow> (Inr (), s\<lparr>lf_task := Some WasCancelled\<rparr>)
        | EndsQuietly \<Rightarrow> (Inr (), s\<lparr>lf_task := Some Returned\<rparr>))
   | Some task \<Rightarrow> log_worker_failure task name s)"

text \<open>
  \<open>serving\<close> is the application's life between startup and shutdown, in which the worker runs
  too; it ends normally or with the exception thrown into the lifespan.
\<close>

definition shutdown ::
  "string \<Rightarrow> ('s life_state, unit) pm option \<Rightarrow> ('s life_state, unit) pm \<Rightarrow> ('s life_state, unit) pm" where
  "shutdown name close close_sink =
     thenM (stop_worker name) (thenM (case close of None \<Rightarrow> returnM () | Some m \<Rightarrow> m) close_sink)"

definition worker_lifespan ::
  "worker_task option \<Rightarrow> string \<Rightarrow> ('s life_state, unit) pm option \<Rightarrow> ('s life_state, unit) pm \<Rightarrow>
   ('s life_state, unit) pm \<Rightarrow> ('s life_state, unit) pm" where
  "worker_lifespan start name close close_sink serving =
     thenM (modifyM (\<lambda>s. s\<lparr>lf_task := start\<rparr>)) (finallyM serving (shutdown name close close_sink))"

text \<open>The lifespan of the API, which has no worker but primes its subscriptions.\<close>

definition api_lifespan ::
  "('s life_state, unit) pm \<Rightarrow> ('s life_state, unit) pm \<Rightarrow> ('s life_state, unit) pm \<Rightarrow> ('s life_state, unit) pm \<Rightarrow>
   ('s life_state, unit) pm" where
  "api_lifespan prime_all close close_sink serving = finallyM (thenM prime_all serving) (thenM close close_sink)"

section \<open>Properties\<close>

text \<open>Whether a task still runs.\<close>

definition running :: "worker_task option \<Rightarrow> bool" where
  "running t = (case t of Some (StillRunning _) \<Rightarrow> True | _ \<Rightarrow> False)"

lemma stop_worker_spec:
  assumes "\<And>e. lf_task s \<noteq> Some (StillRunning (EndsRaising e))"
  shows "\<exists>s'. stop_worker name s = (Inr (), s') \<and> \<not> running (lf_task s') \<and> lf_app s' = lf_app s \<and>
    length (lf_errors s') = length (lf_errors s) + (case lf_task s of Some (Raised _) \<Rightarrow> 1 | _ \<Rightarrow> 0)"
  using assms
  by (cases "lf_task s"; cases "the (lf_task s)")
     (auto simp: stop_worker_def running_def log_worker_failure_def pm_simps split: cancel_outcome.split)

text \<open>
  A service releases what it holds: however its serving phase ends, if awaiting the cancelled
  worker does not raise, the worker is stopped before the backends are closed, a worker that had
  died of an exception is reported in exactly one error line, the backends are closed and then
  the log sink, and the outcome is that of the serving phase.
\<close>

theorem lifespan_releases:
  assumes "serving (s\<lparr>lf_task := start\<rparr>) = (r, s1)" "\<And>e. lf_task s1 \<noteq> Some (StillRunning (EndsRaising e))"
    and "\<And>s2. \<not> running (lf_task s2) \<Longrightarrow> lf_app s2 = lf_app s1 \<Longrightarrow> fst (close s2) = Inr ()"
    and "\<And>s3. fst (close_sink s3) = Inr ()"
  shows "\<exists>s2. \<not> running (lf_task s2) \<and> lf_app s2 = lf_app s1 \<and>
    length (lf_errors s2) = length (lf_errors s1) + (case lf_task s1 of Some (Raised _) \<Rightarrow> 1 | _ \<Rightarrow> 0) \<and>
    worker_lifespan start name (Some close) close_sink serving s = (r, snd (close_sink (snd (close s2))))"
proof -
  from stop_worker_spec [of s1 name] assms(2) obtain s2 where
    s2: "stop_worker name s1 = (Inr (), s2)" "\<not> running (lf_task s2)" "lf_app s2 = lf_app s1"
    "length (lf_errors s2) = length (lf_errors s1) + (case lf_task s1 of Some (Raised _) \<Rightarrow> 1 | _ \<Rightarrow> 0)" by blast
  have "shutdown name (Some close) close_sink s1 = (Inr (), snd (close_sink (snd (close s2))))"
    using s2(1) assms(3) [OF s2(2,3)] assms(4) by (simp add: shutdown_def thenM_apply prod_eq_iff)
  then have "worker_lifespan start name (Some close) close_sink serving s = (r, snd (close_sink (snd (close s2))))"
    by (simp add: worker_lifespan_def thenM_apply modifyM_def finallyM_def assms(1))
  then show ?thesis using s2 by blast
qed

text \<open>
  A worker whose cleanup raises on cancellation, or a \<open>close\<close> that raises, ends the shutdown:
  the backends, or the log sink, are then not closed.
\<close>

lemma raising_worker_skips_close:
  assumes "serving (s\<lparr>lf_task := start\<rparr>) = (r, s1)" "lf_task s1 = Some (StillRunning (EndsRaising e))"
  shows "worker_lifespan start name close close_sink serving s = (Inl e, s1\<lparr>lf_task := Some (Raised e)\<rparr>)"
  using assms by (simp add: worker_lifespan_def thenM_apply modifyM_def finallyM_def shutdown_def stop_worker_def)

text \<open>
  Every service introduces itself with the disclaimer and its name, and a request that fails is
  answered and counted all the same.
\<close>

lemma root_has_disclaimer:
  "rq_method rq = ''GET'' \<Longrightarrow> rq_path rq = ''/'' \<Longrightarrow>
   rs_status (fst (serve app own rq st)) = 200 \<and>
   (\<exists>d. rs_body (fst (serve app own rq st)) = PDict d \<and> map_of d ''message'' = Some (PStr DISCLAIMER))"
  by (auto simp: serve_def observability_middleware_def shared_routes_def ok_response_def root_payload_def Let_def
      split: prod.split)

theorem lifespan_releases_witness:
  "\<exists>s2. length (lf_errors s2) = 1 \<and>
     worker_lifespan (Some (StillRunning EndsCancelled)) ''stream-worker'' (Some (modifyM (\<lambda>s. s\<lparr>lf_app := ''closed''\<rparr>)))
       (returnM ()) (\<lambda>s. (Inl (RuntimeError ''down''), s\<lparr>lf_task := Some (Raised (ValueError ''died''))\<rparr>))
       \<lparr>lf_app = ''open'', lf_task = None, lf_errors = []\<rparr>
     = (Inl (RuntimeError ''down''), s2\<lparr>lf_app := ''closed''\<rparr>)"
proof -
  let ?s = "\<lparr>lf_app = ''open'', lf_task = None, lf_errors = []\<rparr> :: string life_state"
  let ?serving = "\<lambda>s :: string life_state. (Inl (RuntimeError ''down''), s\<lparr>lf_task := Some (Raised (ValueError ''died''))\<rparr>)"
  let ?close = "modifyM (\<lambda>s. s\<lparr>lf_app := ''closed''\<rparr>) :: (string life_state, unit) pm"
  let ?s1 = "?s\<lparr>lf_task := Some (Raised (ValueError ''died''))\<rparr>"
  have "\<exists>s2. \<not> running (lf_task s2) \<and> lf_app s2 = lf_app ?s1 \<and>
    length (lf_errors s2) = length (lf_errors ?s1) + (case lf_task ?s1 of Some (Raised _) \<Rightarrow> 1 | _ \<Rightarrow> 0) \<and>
    worker_lifespan (Some (StillRunning EndsCancelled)) ''stream-worker'' (Some ?close) (returnM ()) ?serving ?s =
      (Inl (RuntimeError ''down''), snd (returnM () (snd (?close s2))))"
    by (rule lifespan_releases) (simp_all add: modifyM_def returnM_def)
  then show ?thesis by (auto simp: modifyM_def returnM_def)
qed

end
