(* ===== verification/Applications.thy ===== *)
theory Applications
  imports ServiceApp Resilience
begin

text \<open>
  The applications of the services, the \<open>create_app\<close> functions of the \<open>app.py\<close> files: what each
  tells the shared bootstrap, and its life from startup to shutdown with the service's own
  backends and the log sink plugged into the lifespan.
\<close>

section \<open>Specifications\<close>

record app_spec =
  ax_service :: string
  ax_display :: "string option"
  ax_title :: string
  ax_summary :: string
  ax_state_attr :: string
  ax_task :: string
  ax_task_attr :: string
  ax_routes :: "string list option"

definition stream_app :: app_spec where
  "stream_app = \<lparr>ax_service = ''stream'', ax_display = None, ax_title = ''Market Intelligence Stream Service'',
     ax_summary = ''Portfolio service for offline-safe market stream processing.'', ax_state_attr = ''stream_service'',
     ax_task = ''stream-worker'', ax_task_attr = ''stream_task'', ax_routes = None\<rparr>"

definition alerting_app :: app_spec where
  "alerting_app = \<lparr>ax_service = ''alerting'', ax_display = None, ax_title = ''Market Intelligence Alerting Service'',
     ax_summary = ''Portfolio service for offline-safe alert evaluation.'', ax_state_attr = ''alerting_service'',
     ax_task = ''alerting-worker'', ax_task_attr = ''alerting_task'', ax_routes = None\<rparr>"

definition ai_app :: app_spec where
  "ai_app = \<lparr>ax_service = ''ai'', ax_display = Some ''ai-analysis'', ax_title = ''Market Intelligence AI Analysis Service'',
     ax_summary = ''Portfolio service for offline-safe RAG market analysis.'', ax_state_attr = ''ai_service'',
     ax_task = ''ai-worker'', ax_task_attr = ''ai_task'', ax_routes = None\<rparr>"

definition ingestion_app :: app_spec where
  "ingestion_app = \<lparr>ax_service = ''ingestion'', ax_display = None, ax_title = ''Market Intelligence Ingestion Service'',
     ax_summary = ''Portfolio service for offline-safe market ingestion.'', ax_state_attr = ''ingestion_service'',
     ax_task = ''ingestion-worker'', ax_task_attr = ''ingestion_task'', ax_routes = None\<rparr>"

text \<open>The API has no worker; its broker's task belongs to its service.\<close>

definition API_ROUTES :: "string list" where
  "API_ROUTES = [''/health'', ''/metrics'', ''/symbols'', ''/market/{symbol}/latest'', ''/market/{symbol}/history'',
     ''/indicators/{symbol}'', ''/signals'', ''/alerts'', ''/insights/{symbol}'', ''/ws/stream'']"

definition api_app :: app_spec where
  "api_app = \<lparr>ax_service = ''api'', ax_display = None, ax_title = ''Market Intelligence API Service'',
     ax_summary = ''Portfolio service for offline-safe market data APIs.'', ax_state_attr = ''api_service'',
     ax_task = [], ax_task_attr = [], ax_routes = Some API_ROUTES\<rparr>"

text \<open>What \<open>create_service_app\<close> makes of a specification and a service.\<close>

definition create_service_app :: "app_spec \<Rightarrow> pydict result \<Rightarrow> string result \<Rightarrow> service_app" where
  "create_service_app spec health render =
     \<lparr>ap_name = ax_service spec, ap_display = Some (or_else (ax_display spec) (ax_service spec)), ap_routes = ax_routes spec,
      ap_health = health, ap_render = render\<rparr>"

section \<open>Life of an application\<close>

record ('b, 'r) app_state =
  av_backends :: 'b
  av_log :: "'r log_state"

definition on_backends :: "('b, 'a) pm \<Rightarrow> (('b, 'r) app_state life_state, 'a) pm" where
  "on_backends = zoomM (\<lambda>s. av_backends (lf_app s)) (\<lambda>b s. s\<lparr>lf_app := (lf_app s)\<lparr>av_backends := b\<rparr>\<rparr>)"

definition on_log :: "('r log_state, 'a) pm \<Rightarrow> (('b, 'r) app_state life_state, 'a) pm" where
  "on_log = zoomM (\<lambda>s. av_log (lf_app s)) (\<lambda>l s. s\<lparr>lf_app := (lf_app s)\<lparr>av_log := l\<rparr>\<rparr>)"

text \<open>
  \<open>task\<close> is what \<open>run_forever\<close> starts as, \<open>closes\<close> the \<open>close\<close> operations of the service's
  backends, those without one missing, \<open>sink_close\<close> that of the log store.
\<close>

definition app_lifespan ::
  "app_spec \<Rightarrow> worker_task \<Rightarrow> bool \<Rightarrow> ('b, unit) pm option list \<Rightarrow> ('r, unit) pm option \<Rightarrow>
   (('b, 'r) app_state life_state, unit) pm \<Rightarrow> (('b, 'r) app_state life_state, unit) pm" where
  "app_lifespan spec task run_on_startup closes sink_close =
     worker_lifespan (if run_on_startup then Some task else None) (ax_task spec)
       (Some (on_backends (close_backends closes))) (on_log (close_log_sink sink_close))"

definition api_app_lifespan ::
  "('b, unit) pm \<Rightarrow> ('b, unit) pm option list \<Rightarrow> ('r, unit) pm option \<Rightarrow>
   (('b, 'r) app_state life_state, unit) pm \<Rightarrow> (('b, 'r) app_state life_state, unit) pm" where
  "api_app_lifespan prime_all closes sink_close =
     api_lifespan (on_backends prime_all) (on_backends (close_backends closes)) (on_log (close_log_sink sink_close))"

section \<open>Properties\<close>

lemma close_log_sink_ok: "fst (close_log_sink close s) = Inr ()"
  by (auto simp: close_log_sink_def Let_def pm_simps split: option.split sink.split sum.split)

lemma close_log_sink_clears: "lg_sink (snd (close_log_sink close s)) = None"
  by (auto simp: close_log_sink_def Let_def pm_simps split: option.split sink.split sum.split)

text \<open>Closing the backends, then the log sink, as both lifespans do.\<close>

lemma release_run:
  "\<exists>s'. thenM (on_backends (close_backends closes)) (on_log (close_log_sink sink_close)) s = (Inr (), s') \<and>
     av_backends (lf_app s') = fold (\<lambda>c b. case c of None \<Rightarrow> b | Some f \<Rightarrow> snd (f b)) closes (av_backends (lf_app s)) \<and>
     lg_sink (av_log (lf_app s')) = None \<and> lf_task s' = lf_task s \<and> lf_errors s' = lf_errors s"
proof -
  note closed = close_backends_total [of closes "av_backends (lf_app s)"]
  show ?thesis
    using closed close_log_sink_ok [of sink_close "av_log (lf_app s)"] close_log_sink_clears [of sink_close "av_log (lf_app s)"]
    by (auto simp: thenM_apply on_backends_def on_log_def zoomM_apply)
qed

text \<open>
  C14: An application leaves nothing behind: however its serving phase ends, unless awaiting the
  cancelled worker raises, the application ends the same way, with its worker stopped, a worker
  that had died of an exception reported in exactly one error line, every backend closed in
  turn even when others fail to close, and the log sink released.
\<close>

theorem app_leaves_nothing:
  fixes s s1 :: "('b, 'r) app_state life_state"
  assumes "serving (s\<lparr>lf_task := if run then Some task else None\<rparr>) = (r, s1)"
    and "\<And>e. lf_task s1 \<noteq> Some (StillRunning (EndsRaising e))"
  shows "\<exists>s'. app_lifespan spec task run closes sink_close serving s = (r, s') \<and> \<not> running (lf_task s') \<and>
    length (lf_errors s') = length (lf_errors s1) + (case lf_task s1 of Some (Raised _) \<Rightarrow> 1 | _ \<Rightarrow> 0) \<and>
    av_backends (lf_app s') = fold (\<lambda>c b. case c of None \<Rightarrow> b | Some f \<Rightarrow> snd (f b)) closes (av_backends (lf_app s1)) \<and>
    lg_sink (av_log (lf_app s')) = None"
proof -
  from stop_worker_spec [of s1 "ax_task spec"] assms(2) obtain s2 where
    s2: "stop_worker (ax_task spec) s1 = (Inr (), s2)" "\<not> running (lf_task s2)" "lf_app s2 = lf_app s1"
    "length (lf_errors s2) = length (lf_errors s1) + (case lf_task s1 of Some (Raised _) \<Rightarrow> 1 | _ \<Rightarrow> 0)" by blast
  from release_run [of closes sink_close s2] obtain s' where
    s': "thenM (on_backends (close_backends closes)) (on_log (close_log_sink sink_close)) s2 = (Inr (), s')"
    "av_backends (lf_app s') = fold (\<lambda>c b. case c of None \<Rightarrow> b | Some f \<Rightarrow> snd (f b)) closes (av_backends (lf_app s2))"
    "lg_sink (av_log (lf_app s')) = None" "lf_task s' = lf_task s2" "lf_errors s' = lf_errors s2" by blast
  have "shutdown (ax_task spec) (Some (on_backends (close_backends closes))) (on_log (close_log_sink sink_close)) s1 = (Inr (), s')"
    using s2(1) s'(1) by (simp add: shutdown_def thenM_apply)
  then have "app_lifespan spec task run closes sink_close serving s = (r, s')"
    using assms(1) by (simp add: app_lifespan_def worker_lifespan_def thenM_apply modifyM_def finallyM_def)
  then show ?thesis using s2 s' by auto
qed

text \<open>The API releases the same, also when priming its subscriptions fails.\<close>

lemma api_leaves_nothing:
  "\<exists>r s1 s'. thenM (on_backends prime_all) serving s = (r, s1) \<and> api_app_lifespan prime_all closes sink_close serving s = (r, s') \<and>
     av_backends (lf_app s') = fold (\<lambda>c b. case c of None \<Rightarrow> b | Some f \<Rightarrow> snd (f b)) closes (av_backends (lf_app s1)) \<and>
     lg_sink (av_log (lf_app s')) = None"
proof -
  obtain r s1 where run: "thenM (on_backends prime_all) serving s = (r, s1)" by fastforce
  from release_run [of closes sink_close s1] obtain s' where
    s': "thenM (on_backends (close_backends closes)) (on_log (close_log_sink sink_close)) s1 = (Inr (), s')"
    "av_backends (lf_app s') = fold (\<lambda>c b. case c of None \<Rightarrow> b | Some f \<Rightarrow> snd (f b)) closes (av_backends (lf_app s1))"
    "lg_sink (av_log (lf_app s')) = None" by blast
  then show ?thesis using run
    by (intro exI [of _ r] exI [of _ s1] exI [of _ s']) (simp add: api_app_lifespan_def api_lifespan_def finallyM_def)
qed

text \<open>Every application's description and root carry the disclaimer.\<close>

lemma apps_disclaim:
  "list_all (\<lambda>spec. ends_with ''No financial advice. No real trades.'' (description (ax_summary spec)) \<and>
     map_of (root_payload (ax_service spec) (ax_display spec) (ax_routes spec)) ''message'' = Some (PStr DISCLAIMER))
   [stream_app, alerting_app, ai_app, ingestion_app, api_app]"
  by (simp add: ends_with_def description_def root_payload_def stream_app_def alerting_app_def ai_app_def ingestion_app_def
      api_app_def)

theorem app_leaves_nothing_witness:
  "\<exists>s'. app_lifespan stream_app (StillRunning EndsCancelled) True
      [Some (raiseM (BackendError ''redis'')), None, Some (modifyM (\<lambda>b. b @ [''druid'']))] None
      (\<lambda>s. (Inl (RuntimeError ''down''), s)) \<lparr>lf_app = \<lparr>av_backends = [], av_log = log_init ()\<rparr>, lf_task = None, lf_errors = []\<rparr>
     = (Inl (RuntimeError ''down''), s') \<and> av_backends (lf_app s') = [''druid''] \<and> lg_sink (av_log (lf_app s')) = None"
proof -
  let ?s = "\<lparr>lf_app = \<lparr>av_backends = [], av_log = log_init ()\<rparr>, lf_task = None, lf_errors = []\<rparr>
    :: (string list, unit) app_state life_state"
  let ?closes = "[Some (raiseM (BackendError ''redis'')), None, Some (modifyM (\<lambda>b. b @ [''druid'']))]"
  let ?serving = "\<lambda>s :: (string list, unit) app_state life_state. (Inl (RuntimeError ''down'') :: unit result, s)"
  have "\<exists>s'. app_lifespan stream_app (StillRunning EndsCancelled) True ?closes None ?serving ?s = (Inl (RuntimeError ''down''), s') \<and>
      \<not> running (lf_task s') \<and>
      length (lf_errors s') = length (lf_errors (?s\<lparr>lf_task := Some (StillRunning EndsCancelled)\<rparr>)) +
        (case lf_task (?s\<lparr>lf_task := Some (StillRunning EndsCancelled)\<rparr>) of Some (Raised _) \<Rightarrow> 1 | _ \<Rightarrow> 0) \<and>
      av_backends (lf_app s') = fold (\<lambda>c b. case c of None \<Rightarrow> b | Some f \<Rightarrow> snd (f b)) ?closes
        (av_backends (lf_app (?s\<lparr>lf_task := Some (StillRunning EndsCancelled)\<rparr>))) \<and>
      lg_sink (av_log (lf_app s')) = None"
    by (rule app_leaves_nothing) simp_all
  then show ?thesis by (auto simp: raiseM_def modifyM_def)
qed

end
