(* ===== verification/Bench.thy ===== *)
theory Bench
  imports PyVal
begin

text \<open>
  The measurements of \<open>scripts/bench.py\<close>: percentiles by linear interpolation and the latency
  summary.  Floats are the reals; \<open>round(x, 6)\<close> rounds half to even.
\<close>

section \<open>Percentiles\<close>

definition percentile :: "real list \<Rightarrow> real \<Rightarrow> real result" where
  "percentile values pct =
     (if values = [] then Inl (ValueError ''percentile requires at least one value'')
      else if \<not> (0 \<le> pct \<and> pct \<le> 100) then Inl (ValueError ''percentile must be between 0 and 100'')
      else let ordered = sort values in
        if length ordered = 1 then Inr (py_round 6 (ordered ! 0))
        else let rank = real (length ordered - 1) * (pct / 100);
                 lower = nat \<lfloor>rank\<rfloor>;
                 upper = min (lower + 1) (length ordered - 1);
                 weight = rank - real lower
             in Inr (py_round 6 (ordered ! lower + (ordered ! upper - ordered ! lower) * weight)))"

record latency_summary =
  ls_min :: real
  ls_mean :: real
  ls_p50 :: real
  ls_p95 :: real
  ls_p99 :: real
  ls_max :: real

definition fmean :: "real list \<Rightarrow> real" where
  "fmean xs = sum_list xs / real (length xs)"

definition summarize_latencies :: "real list \<Rightarrow> latency_summary result" where
  "summarize_latencies xs =
     (if xs = [] then Inl (ValueError ''latencies_ms must not be empty'')
      else bindR (percentile xs 50) (\<lambda>p50. bindR (percentile xs 95) (\<lambda>p95. bindR (percentile xs 99) (\<lambda>p99.
        Inr \<lparr>ls_min = py_round 6 (Min (set xs)), ls_mean = py_round 6 (fmean xs), ls_p50 = p50, ls_p95 = p95,
             ls_p99 = p99, ls_max = py_round 6 (Max (set xs))\<rparr>))))"

section \<open>Interpolation\<close>

text \<open>The piecewise linear function through the points of a list, which a sorted list makes monotone.\<close>

definition interpolate :: "real list \<Rightarrow> real \<Rightarrow> real" where
  "interpolate xs r = (let l = nat \<lfloor>r\<rfloor>; u = min (l + 1) (length xs - 1) in xs ! l + (xs ! u - xs ! l) * (r - real l))"

lemma interpolate_bounds:
  assumes "sorted xs" "0 \<le> r" "r \<le> real (length xs - 1)" "xs \<noteq> []"
  shows "xs ! nat \<lfloor>r\<rfloor> \<le> interpolate xs r"
    "interpolate xs r \<le> xs ! min (nat \<lfloor>r\<rfloor> + 1) (length xs - 1)"
proof -
  let ?l = "nat \<lfloor>r\<rfloor>" and ?u = "min (nat \<lfloor>r\<rfloor> + 1) (length xs - 1)"
  have w: "0 \<le> r - real ?l" "r - real ?l \<le> 1" using assms(2) by (simp_all add: of_nat_nat) linarith+
  have "real ?l \<le> r" using w by simp
  then have "?l \<le> length xs - 1" using assms(3) by linarith
  then have lu: "?l \<le> ?u" "?u < length xs" using assms(4) by (auto simp: min_def)
  then have le: "xs ! ?l \<le> xs ! ?u" using assms(1) by (rule sorted_nth_mono [rotated])
  show "xs ! ?l \<le> interpolate xs r"
    using w le by (simp add: interpolate_def Let_def)
  have "(xs ! ?u - xs ! ?l) * (r - real ?l) \<le> (xs ! ?u - xs ! ?l) * 1"
    using w le by (intro mult_left_mono) simp_all
  then show "interpolate xs r \<le> xs ! ?u" by (simp add: interpolate_def Let_def)
qed

lemma interpolate_mono:
  assumes "sorted xs" "0 \<le> a" "a \<le> b" "b \<le> real (length xs - 1)" "xs \<noteq> []"
  shows "interpolate xs a \<le> interpolate xs b"
proof (cases "nat \<lfloor>a\<rfloor> = nat \<lfloor>b\<rfloor>")
  case True
  let ?l = "nat \<lfloor>a\<rfloor>" and ?u = "min (nat \<lfloor>a\<rfloor> + 1) (length xs - 1)"
  have "real ?l \<le> a" using assms(2) by (simp add: of_nat_nat)
  then have "?l \<le> length xs - 1" using assms(3,4) by linarith
  then have "?l \<le> ?u" "?u < length xs" using assms(5) by (auto simp: min_def)
  then have le: "xs ! ?l \<le> xs ! ?u" using assms(1) by (rule sorted_nth_mono [rotated])
  have "(xs ! ?u - xs ! ?l) * (a - real ?l) \<le> (xs ! ?u - xs ! ?l) * (b - real ?l)"
    using le assms(3) by (intro mult_left_mono) simp_all
  then show ?thesis by (simp add: interpolate_def Let_def True [symmetric])
next
  case False
  moreover have "\<lfloor>a\<rfloor> \<le> \<lfloor>b\<rfloor>" using assms(3) by (rule floor_mono)
  ultimately have "nat \<lfloor>a\<rfloor> + 1 \<le> nat \<lfloor>b\<rfloor>" by linarith
  moreover have b: "nat \<lfloor>b\<rfloor> \<le> length xs - 1" using assms(2-4) by linarith
  ultimately have le: "min (nat \<lfloor>a\<rfloor> + 1) (length xs - 1) \<le> nat \<lfloor>b\<rfloor>" by simp
  have "interpolate xs a \<le> xs ! min (nat \<lfloor>a\<rfloor> + 1) (length xs - 1)"
    using assms by (intro interpolate_bounds) simp_all
  also have "\<dots> \<le> xs ! nat \<lfloor>b\<rfloor>"
    using assms(1) le b assms(5) by (intro sorted_nth_mono) (auto intro: le_less_trans)
  also have "\<dots> \<le> interpolate xs b" using assms by (intro interpolate_bounds) simp_all
  finally show ?thesis .
qed

lemma py_round_mono: "x \<le> y \<Longrightarrow> py_round n x \<le> py_round n y"
proof -
  assume "x \<le> y"
  then have "round_half_even (x * 10 ^ n) \<le> round_half_even (y * 10 ^ n)"
    by (intro round_half_even_mono mult_right_mono) simp_all
  then show ?thesis unfolding py_round_def by (intro divide_right_mono) simp_all
qed

lemma percentile_interpolates:
  assumes "xs \<noteq> []" "0 \<le> pct" "pct \<le> 100"
  shows "percentile xs pct = Inr (py_round 6 (interpolate (sort xs) (real (length xs - 1) * (pct / 100))))"
proof (cases "length xs = 1")
  case True
  then show ?thesis using assms by (simp add: percentile_def interpolate_def Let_def)
qed (use assms in \<open>simp add: percentile_def interpolate_def Let_def\<close>)

lemma sort_ends:
  assumes "xs \<noteq> []"
  shows "sort xs ! 0 = Min (set xs)" "sort xs ! (length xs - 1) = Max (set xs)"
proof -
  have ne: "sort xs \<noteq> []" using assms length_sort [of "\<lambda>x. x" xs] by (intro notI) simp
  have lt: "length xs - 1 < length (sort xs)" using assms by simp
  have "sort xs ! 0 \<le> x" if "x \<in> set xs" for x
  proof -
    have "x \<in> set (sort xs)" using that by simp
    then obtain i where "i < length (sort xs)" "x = sort xs ! i" unfolding in_set_conv_nth by blast
    then show ?thesis by (simp add: sorted_nth_mono)
  qed
  moreover have "sort xs ! 0 \<in> set xs" using nth_mem [of 0 "sort xs"] assms by simp
  ultimately show "sort xs ! 0 = Min (set xs)" by (intro Min_eqI [symmetric]) auto
  have "x \<le> sort xs ! (length xs - 1)" if "x \<in> set xs" for x
  proof -
    have "x \<in> set (sort xs)" using that by simp
    then obtain i where "i < length (sort xs)" "x = sort xs ! i" unfolding in_set_conv_nth by blast
    then show ?thesis by (simp add: sorted_nth_mono)
  qed
  moreover have "sort xs ! (length xs - 1) \<in> set xs" using nth_mem [OF lt] by simp
  ultimately show "sort xs ! (length xs - 1) = Max (set xs)" by (intro Max_eqI [symmetric]) auto
qed

lemma percentile_ends:
  assumes "xs \<noteq> []"
  shows "percentile xs 0 = Inr (py_round 6 (Min (set xs)))" "percentile xs 100 = Inr (py_round 6 (Max (set xs)))"
  using assms by (simp_all add: percentile_interpolates interpolate_def Let_def sort_ends [OF assms, unfolded One_nat_def])

lemma summary_ordered:
  assumes "xs \<noteq> []"
  shows "\<exists>s. summarize_latencies xs = Inr s \<and> ls_min s \<le> ls_p50 s \<and> ls_p50 s \<le> ls_p95 s \<and> ls_p95 s \<le> ls_p99 s \<and>
    ls_p99 s \<le> ls_max s \<and> ls_min s \<le> ls_mean s \<and> ls_mean s \<le> ls_max s \<and>
    percentile xs 0 = Inr (ls_min s) \<and> percentile xs 100 = Inr (ls_max s)"
proof -
  define P where "P p = py_round 6 (interpolate (sort xs) (real (length xs - 1) * (p / 100)))" for p
  have P: "percentile xs p = Inr (P p)" if "0 \<le> p" "p \<le> 100" for p
    using percentile_interpolates [OF assms that] by (simp add: P_def)
  have ends: "P 0 = py_round 6 (Min (set xs))" "P 100 = py_round 6 (Max (set xs))"
    using P percentile_ends [OF assms] by simp_all
  have ne: "sort xs \<noteq> []" using assms length_sort [of "\<lambda>x. x" xs] by (intro notI) simp
  have mono: "P p \<le> P q" if "0 \<le> p" "p \<le> q" "q \<le> 100" for p q
    unfolding P_def
  proof (intro py_round_mono interpolate_mono)
    have "q / 100 \<le> 1" "p / 100 \<le> q / 100" using that by simp_all
    then show "real (length xs - 1) * (p / 100) \<le> real (length xs - 1) * (q / 100)"
      "real (length xs - 1) * (q / 100) \<le> real (length (sort xs) - 1)"
      by (auto intro!: mult_left_mono mult_left_le)
  qed (use that ne in simp_all)
  have "real (length xs) * Min (set xs) \<le> sum_list xs" "sum_list xs \<le> real (length xs) * Max (set xs)"
    using sum_list_mono [of xs "\<lambda>_. Min (set xs)" "\<lambda>x. x"] sum_list_mono [of xs "\<lambda>x. x" "\<lambda>_. Max (set xs)"]
    by (simp_all add: sum_list_triv)
  then have mean: "Min (set xs) \<le> fmean xs" "fmean xs \<le> Max (set xs)"
    using assms by (simp_all add: fmean_def field_simps)
  let ?s = "\<lparr>ls_min = py_round 6 (Min (set xs)), ls_mean = py_round 6 (fmean xs), ls_p50 = P 50, ls_p95 = P 95,
      ls_p99 = P 99, ls_max = py_round 6 (Max (set xs))\<rparr>"
  have "summarize_latencies xs = Inr ?s" using assms by (simp add: summarize_latencies_def P)
  moreover have "P 0 \<le> P 50" "P 50 \<le> P 95" "P 95 \<le> P 99" "P 99 \<le> P 100" by (intro mono; simp)+
  ultimately show ?thesis using ends mean percentile_ends [OF assms] by (intro exI [of _ ?s]) (simp add: py_round_mono)
qed

text \<open>
  The latency summary is ordered: of any non-empty list of latencies, in any order, the summary
  exists, its percentiles grow from the minimum to the maximum, 0 and 100 being those, a
  larger percentile is never smaller, and the mean lies between minimum and maximum.
\<close>

theorem latency_summary_ordered:
  assumes "xs \<noteq> []"
  shows "\<exists>s. summarize_latencies xs = Inr s \<and> ls_min s \<le> ls_p50 s \<and> ls_p50 s \<le> ls_p95 s \<and> ls_p95 s \<le> ls_p99 s \<and>
    ls_p99 s \<le> ls_max s \<and> ls_min s \<le> ls_mean s \<and> ls_mean s \<le> ls_max s \<and>
    percentile xs 0 = Inr (ls_min s) \<and> percentile xs 100 = Inr (ls_max s)"
  using assms by (rule summary_ordered)

theorem latency_summary_ordered_witness:
  "\<exists>s. summarize_latencies [3, 1, 2] = Inr s \<and> ls_min s \<le> ls_p50 s \<and> ls_p99 s \<le> ls_max s"
proof -
  have "[3, 1, 2 :: real] \<noteq> []" by simp
  from latency_summary_ordered [OF this] show ?thesis by blast
qed

end
