(* ===== verification/Pipeline.thy ===== *)
theory Pipeline
  imports StreamProps AIProps AlertingProps Bench
begin

text \<open>
  The services together: the offline pipeline of \<open>scripts/bench.py\<close>, in which the stream, analysis
  and alerting workers share one in-memory bus and one cache.  Each service keeps the state of
  its own theory; the pipeline lends it the shared bus and cache while it polls.
\<close>

section \<open>The services on shared backends\<close>

record pipeline =
  pl_bus :: inmem_bus
  pl_cache :: inmem_cache
  pl_stream :: inmem_stream
  pl_ai :: "inmem_search inmem_ai"
  pl_alerting :: inmem_alerting
  pl_clock :: clock
  pl_latencies :: "real list"

text \<open>What a run is given, with the wall clock's readings when it starts and ends.\<close>

record bench_env =
  be_lib :: pylib
  be_np :: numpy
  be_config :: indicator_config
  be_rag :: "inmem_search rag_pipeline"
  be_llm :: "generation_request \<Rightarrow> (inmem_search, generation_result) pm"
  be_rules :: alert_rule_config
  be_started :: datetime
  be_completed :: datetime

definition on_stream :: "(inmem_stream, 'x) pm \<Rightarrow> (pipeline, 'x) pm" where
  "on_stream = zoomM (\<lambda>p. (pl_stream p)\<lparr>ss_bus := pl_bus p, ss_cache := pl_cache p\<rparr>)
     (\<lambda>t p. p\<lparr>pl_stream := t, pl_bus := ss_bus t, pl_cache := ss_cache t\<rparr>)"

definition on_ai :: "(inmem_search inmem_ai, 'x) pm \<Rightarrow> (pipeline, 'x) pm" where
  "on_ai = zoomM (\<lambda>p. (pl_ai p)\<lparr>ai_bus := pl_bus p, ai_cache := pl_cache p\<rparr>)
     (\<lambda>t p. p\<lparr>pl_ai := t, pl_bus := ai_bus t, pl_cache := ai_cache t\<rparr>)"

definition on_alerting :: "(inmem_alerting, 'x) pm \<Rightarrow> (pipeline, 'x) pm" where
  "on_alerting = zoomM (\<lambda>p. (pl_alerting p)\<lparr>as_bus := pl_bus p, as_cache := pl_cache p\<rparr>)
     (\<lambda>t p. p\<lparr>pl_alerting := t, pl_bus := as_bus t, pl_cache := as_cache t\<rparr>)"

definition on_pipeline_bus :: "(inmem_bus, 'x) pm \<Rightarrow> (pipeline, 'x) pm" where
  "on_pipeline_bus = zoomM pl_bus (\<lambda>b p. p\<lparr>pl_bus := b\<rparr>)"

text \<open>\<open>_create_services\<close>: the subscriptions are opened by receiving nothing from them.\<close>

definition create_services :: "(pipeline, unit) pm" where
  "create_services = for_each (\<lambda>(topic, sub). bindM (on_pipeline_bus (ib_receive topic sub 0)) (\<lambda>_. returnM ()))
     [(TOPIC_MARKET_RAW, STREAM_SUBSCRIPTION), (TOPIC_SIGNALS, AI_SUBSCRIPTION), (TOPIC_SIGNALS, ALERTING_SUBSCRIPTION),
      (TOPIC_INSIGHTS, ALERTING_SUBSCRIPTION), (TOPIC_ALERTS, ''observer'')]"

section \<open>Events\<close>

definition bench_prices :: "(string \<times> real) list" where
  "bench_prices = [(''BTCUSDT'', 42000), (''ETHUSDT'', 2250), (''SOLUSDT'', 110)]"

definition price_pattern :: "real list" where
  "price_pattern = [0, 3 / 2, 3, 6, 12, 24, 8, 28]"

definition bench_message_id :: "nat \<Rightarrow> string" where
  "bench_message_id i = ''market-'' @ pad_left 5 (nat_digits i)"

text \<open>\<open>datetime(2026, 1, 1, tzinfo=UTC)\<close>.\<close>

definition bench_epoch :: datetime where
  "bench_epoch = utc_datetime 63902822400000000"

definition bench_payload :: "pylib \<Rightarrow> string list \<Rightarrow> nat \<Rightarrow> (pyval \<times> string) result" where
  "bench_payload lib symbols i =
     (if symbols = [] then Inl (ZeroDivisionError ''integer modulo by zero'')
      else let symbol = symbols ! (i mod length symbols) in
        case map_of bench_prices symbol of
          None \<Rightarrow> Inl (KeyError symbol)
        | Some base \<Rightarrow>
            let price = base + real (i div length symbols) * (9 / 4) + price_pattern ! (i mod length price_pattern);
                mid = bench_message_id i
            in Inr (PDict
                 [(''event_id'', PStr (''ev-'' @ mid)),
                  (''ts'', PStr (isoformat lib (bench_epoch\<lparr>dt_local := dt_local bench_epoch + int i * 1000000\<rparr>))),
                  (''symbol'', PStr symbol), (''source'', PStr ''bench.replay''), (''event_type'', PStr ''trade''),
                  (''price'', PFloat (py_round 4 price)),
                  (''volume'', PFloat (py_round 4 (1 + real (i mod 5) * (1 / 10)))),
                  (''bid'', PFloat (py_round 4 (price - 1 / 4))), (''ask'', PFloat (py_round 4 (price + 1 / 4))),
                  (''correlation_id'', PStr (''corr-'' @ mid)), (''trace_id'', PStr (''trace-'' @ mid))], mid))"

section \<open>The run\<close>

definition read_ns :: "(pipeline, real) pm" where
  "read_ns = (\<lambda>p. (Inr (fst (read_clock (pl_clock p))), p\<lparr>pl_clock := snd (read_clock (pl_clock p))\<rparr>))"

definition bench_stream_env :: "bench_env \<Rightarrow> (inmem_bus, inmem_cache, inmem_ts) stream_env" where
  "bench_stream_env env = inmem_stream_env (be_lib env) (be_np env) (be_config env)"

definition bench_ai_env :: "bench_env \<Rightarrow> (inmem_bus, inmem_cache, inmem_search) ai_env" where
  "bench_ai_env env = inmem_ai_env (be_lib env) (be_rag env) (be_llm env) 3"

definition bench_alerting_env :: "bench_env \<Rightarrow> (inmem_bus, inmem_cache) alerting_env" where
  "bench_alerting_env env = inmem_alerting_env (be_lib env) (be_rules env) 3"

text \<open>The three polls after an event was published.\<close>

definition poll_services :: "bench_env \<Rightarrow> (pipeline, unit) pm" where
  "poll_services env =
     bindM (on_stream (stream_poll_once (bench_stream_env env) 1)) (\<lambda>_.
     bindM (on_ai (ai_poll_once (bench_ai_env env) 1)) (\<lambda>_.
     bindM (on_alerting (alerting_poll_once (bench_alerting_env env) 2)) (\<lambda>_. returnM ())))"

definition bench_event :: "bench_env \<Rightarrow> string list \<Rightarrow> nat \<Rightarrow> (pipeline, unit) pm" where
  "bench_event env symbols i =
     bindM (liftR (bench_payload (be_lib env) symbols i)) (\<lambda>(payload, mid).
     bindM read_ns (\<lambda>start.
     thenM (on_pipeline_bus (ib_publish TOPIC_MARKET_RAW payload (Some mid) None))
     (thenM (poll_services env)
     (bindM read_ns (\<lambda>stop.
        modifyM (\<lambda>p. p\<lparr>pl_latencies := pl_latencies p @ [(stop - start) / 1000000]\<rparr>))))))"

definition bench_events :: "bench_env \<Rightarrow> string list \<Rightarrow> nat \<Rightarrow> (pipeline, unit) pm" where
  "bench_events env symbols n = for_each (bench_event env symbols) [0..<n]"

record bench_report =
  br_mode :: string
  br_started_at :: string
  br_completed_at :: string
  br_events :: nat
  br_symbols :: "string list"
  br_elapsed :: real
  br_throughput :: real
  br_latency :: latency_summary
  br_counts :: "(string \<times> int) list"
  br_limitations :: "string list"

definition DEFAULT_LIMITATIONS :: "string list" where
  "DEFAULT_LIMITATIONS =
     [''This harness uses the in-memory bus, cache, search store, and time-series store only.'',
      ''Latency reflects a deterministic single-process pipeline, not Docker, network, '' @ ''or Azure infra.'',
      ''A live full-stack benchmark is a follow-up once Docker daemon access is available.'']"

definition pipeline_counts :: "pipeline \<Rightarrow> (string \<times> int) list" where
  "pipeline_counts p =
     [(''stream_messages_processed'', sm_messages_processed (ss_metrics (pl_stream p))),
      (''stream_signals_published'', sm_signals_published (ss_metrics (pl_stream p))),
      (''ai_messages_processed'', im_messages_processed (ai_metrics (pl_ai p))),
      (''ai_insights_published'', im_insights_published (ai_metrics (pl_ai p))),
      (''alerting_messages_processed'', am_messages_processed (as_metrics (pl_alerting p))),
      (''alerting_alerts_published'', am_alerts_published (as_metrics (pl_alerting p)))]"

definition run_benchmark :: "bench_env \<Rightarrow> string list \<Rightarrow> nat \<Rightarrow> (pipeline, bench_report) pm" where
  "run_benchmark env symbols n =
     thenM create_services
     (bindM read_ns (\<lambda>start.
      thenM (bench_events env symbols n)
      (bindM read_ns (\<lambda>stop.
       bindM (getM (\<lambda>p. p)) (\<lambda>p.
         let elapsed = (stop - start) / 1000000000 in
         if elapsed = 0 then raiseM (ZeroDivisionError ''float division by zero'')
         else bindM (liftR (summarize_latencies (pl_latencies p))) (\<lambda>latency.
           returnM \<lparr>br_mode = ''offline-in-memory'', br_started_at = isoformat (be_lib env) (be_started env),
                    br_completed_at = isoformat (be_lib env) (be_completed env), br_events = n, br_symbols = symbols, br_elapsed = py_round 6 elapsed,
                    br_throughput = py_round 6 (real n / elapsed), br_latency = latency,
                    br_counts = pipeline_counts p, br_limitations = DEFAULT_LIMITATIONS\<rparr>))))))"

end
