(* ===== verification/Backlog.thy ===== *)
theory Backlog
  imports Pipeline
begin

text \<open>
  The workers' loops.  A worker polls a list of topics, one after another, and writes to one
  topic of its own.  The locale poller states what its handler promises (it returns, settles
  its message, counts it once and touches no topic but its own), and proves once that a poll
  takes the front of every queue and that the loop works off a backlog of any length; the
  three workers are its instances.
\<close>

section \<open>What a worker does not touch\<close>

lemma keeps_try_else: "keeps P m \<Longrightarrow> (\<And>e. keeps P (h e)) \<Longrightarrow> keeps P k \<Longrightarrow> keeps P (try_else m h k)"
  unfolding triple_keep by (simp add: try_else_def split_beta split: sum.split)

text \<open>The part of the bus that belongs to the topics other than a given one.\<close>

definition beside :: "string \<Rightarrow> inmem_bus \<Rightarrow> string \<Rightarrow> ((string \<Rightarrow> message list option) \<times> string set) option" where
  "beside out b = (\<lambda>t. if t = out then None else Some (queues b t, seen_ids b t))"

lemma besideD: "beside out b' = beside out b \<Longrightarrow> t \<noteq> out \<Longrightarrow> queues b' t = queues b t \<and> seen_ids b' t = seen_ids b t"
  unfolding beside_def by (drule fun_cong [of _ _ t]) simp

definition writes_only :: "string \<Rightarrow> (inmem_bus, 'x) pm \<Rightarrow> bool" where
  "writes_only out m \<longleftrightarrow> (\<forall>b. beside out (snd (m b)) = beside out b)"

lemma writes_only_ops:
  "writes_only out (ib_complete m)" "writes_only out (ib_dead_letter m r)"
  by (simp_all add: writes_only_def beside_def ib_complete_def ib_dead_letter_def Let_def cong: if_cong)

lemma writes_only_publish: "writes_only out (ib_publish out body mid corr)"
  by (auto simp: writes_only_def beside_def ib_publish_def Let_def fun_eq_iff split: prod.split)
     (metis pick_message_id_frame(1,3) snd_conv)+

lemma keeps_on_bus:
  assumes "\<And>b s. P (put b s) \<longleftrightarrow> beside out b = Q \<and> R s" "\<And>s. P s \<longleftrightarrow> beside out (get s) = Q \<and> R s" "writes_only out m"
  shows "keeps P (zoomM get put m)"
  using assms unfolding triple_keep by (simp add: zoomM_apply writes_only_def)

text \<open>A retried operation on a state next to a counter.\<close>

lemma keeps_retry:
  assumes "\<And>n. keeps P (\<lambda>s. (fst (f (n, s)), snd (snd (f (n, s)))))" "stops_after_attempt stop"
  shows "keeps (\<lambda>p. P (snd p)) (retry_async stop k f)"
proof -
  have "keeps (\<lambda>p. P (snd p)) f"
    using assms(1) unfolding triple_keep by simp
  then show ?thesis by (rule triple_retry [OF assms(2)])
qed

lemma topics_differ:
  "TOPIC_SIGNALS \<noteq> TOPIC_MARKET_RAW" "TOPIC_NEWS_RAW \<noteq> TOPIC_MARKET_RAW" "TOPIC_INSIGHTS \<noteq> TOPIC_MARKET_RAW"
  "TOPIC_ALERTS \<noteq> TOPIC_MARKET_RAW" "TOPIC_NEWS_RAW \<noteq> TOPIC_SIGNALS" "TOPIC_NEWS_RAW \<noteq> TOPIC_INSIGHTS"
  "TOPIC_SIGNALS \<noteq> TOPIC_INSIGHTS" "TOPIC_SIGNALS \<noteq> TOPIC_ALERTS" "TOPIC_INSIGHTS \<noteq> TOPIC_ALERTS" "TOPIC_NEWS_RAW \<noteq> TOPIC_ALERTS"
  by (simp_all add: TOPIC_SIGNALS_def TOPIC_NEWS_RAW_def TOPIC_INSIGHTS_def TOPIC_ALERTS_def TOPIC_MARKET_RAW_def)

section \<open>A worker that polls topics\<close>

fun poll_topics ::
  "('s \<Rightarrow> inmem_bus) \<Rightarrow> (inmem_bus \<Rightarrow> 's \<Rightarrow> 's) \<Rightarrow> string \<Rightarrow> (message \<Rightarrow> ('s, unit) pm) \<Rightarrow>
   string list \<Rightarrow> int \<Rightarrow> ('s, int) pm" where
  "poll_topics get put sub handle [] n = returnM 0"
| "poll_topics get put sub handle (t # ts) n =
     bindM (zoomM get put (ib_receive t sub n)) (\<lambda>ms.
     thenM (for_each handle ms)
     (bindM (poll_topics get put sub handle ts n) (\<lambda>k. returnM (int (length ms) + k))))"

text \<open>What a poll of the topics leaves of the bus, when up to \<open>n\<close> messages are taken of each.\<close>

definition polled :: "string \<Rightarrow> string \<Rightarrow> string list \<Rightarrow> nat \<Rightarrow> inmem_bus \<Rightarrow> inmem_bus \<Rightarrow> bool" where
  "polled out sub ts n b b' \<longleftrightarrow> bus_inv b' \<and> pending_of b' = pending_of b \<and>
     (\<forall>t u. t \<noteq> out \<longrightarrow> seen_ids b' t = seen_ids b t \<and>
        queues b' t u = (if t \<in> set ts \<and> u = sub then Some (drop n (queue_of b t u)) else queues b t u))"

definition taken :: "string \<Rightarrow> string list \<Rightarrow> nat \<Rightarrow> inmem_bus \<Rightarrow> int" where
  "taken sub ts n b = (\<Sum>t \<leftarrow> ts. int (min n (length (queue_of b t sub))))"

lemma polled_queue: "polled out sub ts n b b' \<Longrightarrow> t \<noteq> out \<Longrightarrow>
    queue_of b' t u = (if t \<in> set ts \<and> u = sub then drop n (queue_of b t u) else queue_of b t u)"
  by (simp add: polled_def queue_of_def)

lemma polled_Cons:
  assumes "polled out sub [t] n b b1" "polled out sub ts n b1 b2" "t \<notin> set ts" "out \<notin> set (t # ts)"
  shows "polled out sub (t # ts) n b b2" and "taken sub ts n b1 = taken sub ts n b"
proof -
  have q: "queue_of b1 t' sub = queue_of b t' sub" if "t' \<in> set ts" for t'
  proof -
    have "t' \<noteq> t" "t' \<noteq> out" using that assms(3,4) by auto
    then show ?thesis using polled_queue [OF assms(1), of t' sub] by simp
  qed
  show "taken sub ts n b1 = taken sub ts n b"
    unfolding taken_def by (rule arg_cong [of _ _ sum_list], rule map_cong) (simp_all add: q)
  show "polled out sub (t # ts) n b b2"
    unfolding polled_def
  proof (intro conjI allI impI)
    fix t' u assume t': "t' \<noteq> out"
    show "seen_ids b2 t' = seen_ids b t'" using assms(1,2) t' by (simp add: polled_def)
    have "queues b2 t' u = (if t' \<in> set ts \<and> u = sub then Some (drop n (queue_of b1 t' u)) else queues b1 t' u)"
      using assms(2) t' by (simp add: polled_def)
    moreover have "queues b1 t' u = (if t' = t \<and> u = sub then Some (drop n (queue_of b t' u)) else queues b t' u)"
      using assms(1) t' by (simp add: polled_def)
    ultimately show "queues b2 t' u = (if t' \<in> set (t # ts) \<and> u = sub then Some (drop n (queue_of b t' u)) else queues b t' u)"
      using q [of t'] assms(3) by auto
  qed (use assms(1,2) in \<open>simp_all add: polled_def\<close>)
qed

lemma taken_add:
  assumes "\<And>t. t \<in> set ts \<Longrightarrow> queue_of b1 t sub = drop n (queue_of b t sub)"
  shows "taken sub ts n b + taken sub ts m b1 = taken sub ts (n + m) b"
proof -
  have parts: "int (min a l) + int (min c (l - a)) = int (min (a + c) l)" for a c l :: nat by linarith
  show ?thesis using assms by (induction ts) (simp_all add: taken_def parts [symmetric] algebra_simps)
qed

lemma taken_none: "0 < n \<Longrightarrow> taken sub ts n b = 0 \<longleftrightarrow> (\<forall>t \<in> set ts. queue_of b t sub = [])"
proof (induction ts)
  case (Cons t ts)
  have "0 \<le> taken sub ts n b" by (auto simp: taken_def intro!: sum_list_nonneg)
  then have "taken sub (t # ts) n b = 0 \<longleftrightarrow> min n (length (queue_of b t sub)) = 0 \<and> taken sub ts n b = 0"
    by (auto simp: taken_def)
  also have "min n (length (queue_of b t sub)) = 0 \<longleftrightarrow> queue_of b t sub = []" using Cons.prems by (auto simp: min_def)
  finally show ?case using Cons by simp
qed (simp add: taken_def)

locale poller = consumer inmem_bus_ops queue_of pending_of dlqs bus_inv bus_of handle "\<lambda>_. True"
  for bus_of :: "'s \<Rightarrow> inmem_bus" and handle :: "message \<Rightarrow> ('s, unit) pm" +
  fixes put_bus :: "inmem_bus \<Rightarrow> 's \<Rightarrow> 's" and seen :: "'s \<Rightarrow> int" and subscription own_topic :: string
  assumes bus_put: "bus_of (put_bus b s) = b" "seen (put_bus b s) = seen s"
    and handle_returns: "never_raises (handle m)"
    and handle_touches: "beside own_topic (bus_of (snd (handle m s))) = beside own_topic (bus_of s)"
    and handle_counts: "seen (snd (handle m s)) = seen s + 1"
begin

abbreviation poll :: "string list \<Rightarrow> int \<Rightarrow> ('s, int) pm" where
  "poll \<equiv> poll_topics bus_of put_bus subscription handle"

lemma batch_runs:
  "\<exists>s'. for_each handle ms s = (Inr (), s') \<and> beside own_topic (bus_of s') = beside own_topic (bus_of s) \<and>
     seen s' = seen s + int (length ms)"
proof (induction ms arbitrary: s)
  case Nil
  then show ?case by (simp add: returnM_def)
next
  case (Cons m ms)
  obtain u s1 where s1: "handle m s = (Inr u, s1)" by (rule never_raisesE [OF handle_returns])
  from Cons.IH [of s1] obtain s' where s': "for_each handle ms s1 = (Inr (), s')"
    "beside own_topic (bus_of s') = beside own_topic (bus_of s1)" "seen s' = seen s1 + int (length ms)" by blast
  show ?case using s1 s' handle_touches [of m s] handle_counts [of m s] by (simp add: thenM_apply)
qed

lemma topic_polled:
  fixes n :: int
  assumes "bus_inv (bus_of s)" "t \<noteq> own_topic"
  defines "ms \<equiv> take (nat n) (queue_of (bus_of s) t subscription)"
    and "b \<equiv> snd (ib_receive t subscription n (bus_of s))"
  shows "\<exists>s'. for_each handle ms (put_bus b s) = (Inr (), s') \<and>
    polled own_topic subscription [t] (nat n) (bus_of s) (bus_of s') \<and> seen s' = seen s + int (length ms)"
proof -
  from batch_runs [of ms "put_bus b s"] obtain s' where
    s': "for_each handle ms (put_bus b s) = (Inr (), s')" "beside own_topic (bus_of s') = beside own_topic b"
    "seen s' = seen s + int (length ms)" by (auto simp: bus_put)
  have rcv: "bus_receive inmem_bus_ops t subscription n (bus_of s) = (Inr ms, b)"
    by (simp add: prod_eq_iff receive_parts ms_def b_def)
  have settled: "bus_inv (bus_of s') \<and> pending_of (bus_of s') = pending_of (bus_of s)"
    by (rule poll_settled [OF assms(1) rcv _ s'(1)]) (simp_all add: bus_put)
  have q: "queues b t' u = (if t' = t \<and> u = subscription then Some (drop (nat n) (queue_of (bus_of s) t u)) else queues (bus_of s) t' u)"
    "seen_ids b t' = seen_ids (bus_of s) t'" for t' u
    by (simp_all add: b_def ib_receive_def set_queue_def Let_def)
  have "polled own_topic subscription [t] (nat n) (bus_of s) (bus_of s')"
    using settled besideD [OF s'(2)] q by (simp add: polled_def)
  with s' show ?thesis by blast
qed

lemma poll_law:
  assumes "bus_inv (bus_of s)" "own_topic \<notin> set ts" "distinct ts"
  shows "\<exists>s'. poll ts n s = (Inr (taken subscription ts (nat n) (bus_of s)), s') \<and>
    polled own_topic subscription ts (nat n) (bus_of s) (bus_of s') \<and>
    seen s' = seen s + taken subscription ts (nat n) (bus_of s)"
  using assms
proof (induction ts arbitrary: s)
  case Nil
  then show ?case by (simp add: returnM_def polled_def taken_def)
next
  case (Cons t ts)
  let ?ms = "take (nat n) (queue_of (bus_of s) t subscription)"
  from topic_polled [OF Cons.prems(1), of t n] Cons.prems(2) obtain s1 where
    s1: "for_each handle ?ms (put_bus (snd (ib_receive t subscription n (bus_of s))) s) = (Inr (), s1)"
    "polled own_topic subscription [t] (nat n) (bus_of s) (bus_of s1)" "seen s1 = seen s + int (length ?ms)" by auto
  have inv: "bus_inv (bus_of s1)" using s1(2) by (simp add: polled_def)
  from Cons.IH [OF inv] Cons.prems(2,3) obtain s' where
    s': "poll ts n s1 = (Inr (taken subscription ts (nat n) (bus_of s1)), s')"
    "polled own_topic subscription ts (nat n) (bus_of s1) (bus_of s')"
    "seen s' = seen s1 + taken subscription ts (nat n) (bus_of s1)" by auto
  have both: "polled own_topic subscription (t # ts) (nat n) (bus_of s) (bus_of s')"
    "taken subscription ts (nat n) (bus_of s1) = taken subscription ts (nat n) (bus_of s)"
    using polled_Cons [OF s1(2) s'(2)] Cons.prems(2,3) by auto
  have all: "taken subscription (t # ts) (nat n) (bus_of s) =
      int (length ?ms) + taken subscription ts (nat n) (bus_of s)" by (simp add: taken_def min.commute)
  have "poll (t # ts) n s = (Inr (taken subscription (t # ts) (nat n) (bus_of s)), s')"
    using s1(1) s'(1) both(2) unfolding all by (simp add: pm_simps receive_parts)
  then show ?case using both s1(3) s'(3) all by auto
qed

text \<open>A poll that finds its queues empty changes no queue, its own topic's included.\<close>

lemma poll_idle:
  assumes "\<And>t. t \<in> set ts \<Longrightarrow> queue_of (bus_of s) t subscription = []"
  shows "\<exists>s'. poll ts n s = (Inr 0, s') \<and> queue_of (bus_of s') = queue_of (bus_of s)"
  using assms
proof (induction ts arbitrary: s)
  case Nil
  then show ?case by (simp add: returnM_def)
next
  case (Cons t ts)
  let ?s1 = "put_bus (snd (ib_receive t subscription n (bus_of s))) s"
  have t: "queue_of (bus_of s) t subscription = []" using Cons.prems by simp
  have same: "queue_of (bus_of ?s1) = queue_of (bus_of s)" by (intro ext) (simp add: bus_put receive_parts t)
  with Cons.IH [of ?s1] Cons.prems obtain s' where
    "poll ts n ?s1 = (Inr 0, s')" "queue_of (bus_of s') = queue_of (bus_of s)" by auto
  then show ?case using t by (simp add: pm_simps receive_parts)
qed

text \<open>The loop, started on queues of any length.\<close>

lemma loop_drains:
  assumes "bus_inv (bus_of s)" "own_topic \<notin> set ts" "distinct ts" "0 < n"
  shows "\<exists>sleeps s'. run_poll_loop k (poll ts) name set_err n s = (Inr sleeps, s') \<and>
    bus_inv (bus_of s') \<and> pending_of (bus_of s') = pending_of (bus_of s) \<and>
    (\<forall>t \<in> set ts. queue_of (bus_of s') t subscription = drop (k * nat n) (queue_of (bus_of s) t subscription)) \<and>
    seen s' = seen s + taken subscription ts (k * nat n) (bus_of s) \<and>
    sleeps = map (\<lambda>i. \<forall>t \<in> set ts. length (queue_of (bus_of s) t subscription) \<le> i * nat n) [0..<k]"
  using assms(1)
proof (induction k arbitrary: s)
  case 0
  then show ?case by (simp add: returnM_def taken_def)
next
  case (Suc k)
  let ?q = "\<lambda>s t. queue_of (bus_of s) t subscription" and ?m = "nat n"
  from poll_law [OF Suc.prems assms(2,3), of n] obtain s1 where
    s1: "poll ts n s = (Inr (taken subscription ts ?m (bus_of s)), s1)"
    "polled own_topic subscription ts ?m (bus_of s) (bus_of s1)"
    "seen s1 = seen s + taken subscription ts ?m (bus_of s)" by blast
  have front: "?q s1 t = drop ?m (?q s t)" if "t \<in> set ts" for t
    using polled_queue [OF s1(2), of t subscription] that assms(2) by auto
  have s1': "bus_inv (bus_of s1)" "pending_of (bus_of s1) = pending_of (bus_of s)" using s1(2) by (simp_all add: polled_def)
  from Suc.IH [OF s1'(1)] obtain sleeps s' where
    s': "run_poll_loop k (poll ts) name set_err n s1 = (Inr sleeps, s')" "bus_inv (bus_of s')"
    "pending_of (bus_of s') = pending_of (bus_of s1)" "\<forall>t \<in> set ts. ?q s' t = drop (k * ?m) (?q s1 t)"
    "seen s' = seen s1 + taken subscription ts (k * ?m) (bus_of s1)"
    "sleeps = map (\<lambda>i. \<forall>t \<in> set ts. length (?q s1 t) \<le> i * ?m) [0..<k]" by blast
  have run: "run_poll_loop (Suc k) (poll ts) name set_err n s = (Inr ((\<forall>t \<in> set ts. ?q s t = []) # sleeps), s')"
    using s1(1) s'(1) taken_none [of ?m subscription ts "bus_of s"] assms(4) by (simp add: poll_turn_def pm_simps)
  have slept: "(\<forall>t \<in> set ts. ?q s t = []) # sleeps = map (\<lambda>i. \<forall>t \<in> set ts. length (?q s t) \<le> i * ?m) [0..<Suc k]"
  proof -
    have "[0..<Suc k] = 0 # map Suc [0..<k]" by (simp add: map_Suc_upt upt_conv_Cons del: upt_Suc)
    moreover have "sleeps = map (\<lambda>i. \<forall>t \<in> set ts. length (?q s t) \<le> Suc i * ?m) [0..<k]"
      unfolding s'(6) by (rule map_cong) (simp_all add: front le_diff_conv add.commute)
    ultimately show ?thesis by simp
  qed
  have seen: "seen s' = seen s + taken subscription ts (Suc k * ?m) (bus_of s)"
    using s'(5) s1(3) taken_add [OF front, of ts "k * ?m"] by simp
  have left: "\<forall>t \<in> set ts. ?q s' t = drop (Suc k * ?m) (?q s t)" using s'(4) front by (simp add: add.commute)
  have settled: "pending_of (bus_of s') = pending_of (bus_of s)" using s'(3) s1'(2) by simp
  show ?case by (intro exI conjI) (rule run, rule s'(2), rule settled, rule left, rule seen, rule slept)
qed

end

section \<open>Each worker\<close>

definition stream_frame :: "(string \<Rightarrow> ((string \<Rightarrow> message list option) \<times> string set) option) \<Rightarrow> int \<Rightarrow> inmem_stream \<Rightarrow> bool" where
  "stream_frame Q k s \<longleftrightarrow> beside TOPIC_SIGNALS (ss_bus s) = Q \<and> sm_messages_seen (ss_metrics s) = k"

lemma stream_handle_keeps: "keeps (stream_frame Q k) (stream_handle_message (inmem_stream_env lib np cfg) m)"
proof -
  let ?P = "stream_frame Q k" and ?env = "inmem_stream_env lib np cfg"
  have bus: "keeps ?P (zoomM ss_bus (\<lambda>b s. s\<lparr>ss_bus := b\<rparr>) op)" if "writes_only TOPIC_SIGNALS op" for op :: "(inmem_bus, unit) pm"
    by (rule keeps_on_bus [where Q = Q and R = "\<lambda>s. sm_messages_seen (ss_metrics s) = k"])
       (use that in \<open>simp_all add: stream_frame_def\<close>)
  have cache: "keeps ?P (ss_on_cache op)" for op :: "(inmem_cache, 'x) pm"
    unfolding ss_on_cache_def by (rule keeps_zoom) (simp add: stream_frame_def)
  have store: "keeps ?P (ss_on_store op)" for op :: "(inmem_ts, 'x) pm"
    unfolding ss_on_store_def by (rule keeps_zoom) (simp add: stream_frame_def)
  have cnt: "keeps ?P (ss_count f)" if "\<And>x. sm_messages_seen (f x) = sm_messages_seen x" for f
    unfolding ss_count_def by (rule keeps_modify) (simp add: stream_frame_def that)
  have md: "keeps ?P (modifyM f)" if "\<And>s. ss_bus (f s) = ss_bus s \<and> sm_messages_seen (ss_metrics (f s)) = sm_messages_seen (ss_metrics s)"
    for f :: "inmem_stream \<Rightarrow> inmem_stream"
    by (rule keeps_modify) (simp add: stream_frame_def that)
  have proc: "keeps ?P (run_processor ?env ev)" for ev
    unfolding triple_keep by (auto simp: run_processor_def stream_frame_def split: sum.split)
  note ops = writes_only_ops writes_only_publish
  have dl: "keeps ?P (stream_dead_letter ?env m r)" for r
    unfolding stream_dead_letter_def dead_letter_message_def
    by (intro keeps_then md bus) (simp_all add: ops)
  have sup: "keeps ?P (stream_suppress_duplicate ?env m)"
    unfolding stream_suppress_duplicate_def ss_on_bus_def by (intro keeps_then cnt bus) (simp_all add: ops)
  have pe: "keeps ?P (stream_process_event ?env m ev)" for ev
    unfolding stream_process_event_def stream_append_history_def ss_on_bus_def
    by (intro keeps_bind keeps_then proc cache store cnt md bus) (simp_all add: ops)
  show ?thesis
    unfolding stream_handle_message_def
    by (cases "validate_market (se_lib ?env) (msg_body m)")
       (auto intro!: keeps_bind keeps_catch cache dl sup pe)
qed

definition ai_frame :: "(string \<Rightarrow> ((string \<Rightarrow> message list option) \<times> string set) option) \<Rightarrow> int \<Rightarrow> 'r inmem_ai \<Rightarrow> bool" where
  "ai_frame Q k s \<longleftrightarrow> beside TOPIC_INSIGHTS (ai_bus s) = Q \<and> im_messages_seen (ai_metrics s) = k"

lemma ai_handle_keeps:
  fixes rag :: "'r rag_pipeline"
  shows "keeps (ai_frame Q c) (ai_handle_message (inmem_ai_env lib rag llm n) m)"
proof -
  let ?P = "ai_frame Q c :: 'r inmem_ai \<Rightarrow> bool" and ?env = "inmem_ai_env lib rag llm n"
  have bus: "keeps ?P (zoomM ai_bus (\<lambda>b s. s\<lparr>ai_bus := b\<rparr>) op)" if "writes_only TOPIC_INSIGHTS op" for op :: "(inmem_bus, 'x) pm"
    by (rule keeps_on_bus [where Q = Q and R = "\<lambda>s. im_messages_seen (ai_metrics s) = c"]) (use that in \<open>simp_all add: ai_frame_def\<close>)
  have cache: "keeps ?P (ai_on_cache op)" for op :: "(inmem_cache, 'x) pm"
    unfolding ai_on_cache_def by (rule keeps_zoom) (simp add: ai_frame_def)
  have ext: "keeps ?P (ai_on_ext op)" for op :: "('r, 'x) pm"
    unfolding ai_on_ext_def by (rule keeps_zoom) (simp add: ai_frame_def)
  have cnt: "keeps ?P (ai_count f)" if "\<And>x. im_messages_seen (f x) = im_messages_seen x" for f
    unfolding ai_count_def by (rule keeps_modify) (simp add: ai_frame_def that)
  have md: "keeps ?P (modifyM f)" if "\<And>s. ai_bus (f s) = ai_bus s \<and> im_messages_seen (ai_metrics (f s)) = im_messages_seen (ai_metrics s)"
    for f :: "'r inmem_ai \<Rightarrow> 'r inmem_ai"
    by (rule keeps_modify) (simp add: ai_frame_def that)
  note ops = writes_only_ops writes_only_publish
  have dl: "keeps ?P (ai_dead_letter ?env m r)" for m r
    unfolding ai_dead_letter_def dead_letter_message_def by (intro keeps_then md bus) (simp_all add: ops)
  have index: "keeps ?P (ai_index_document ?env d)" for d
    unfolding ai_index_document_def by (intro keeps_bind ext keeps_basic)
  have fresh: "keeps ?P (generate_fresh ?env request key)" for request key
    unfolding generate_fresh_def Let_def by (intro keeps_bind keeps_then ext cache keeps_basic)
  have cached: "keeps ?P (use_cached ?env request v)" for request v
    unfolding use_cached_def by (intro keeps_then cnt keeps_basic) simp_all
  have gen: "keeps ?P (generate_with_cache ?env k)" for k
    unfolding generate_with_cache_def by (intro keeps_bind ext cache) (simp add: cached fresh)
  have make: "keeps ?P (make_insight k r)" for k r
    unfolding triple_keep by (simp add: make_insight_def ai_frame_def)
  have pub: "keeps ?P (publish_insight_for ?env k)" for k
    unfolding publish_insight_for_def publish_insight_def ai_on_bus_def
    by (intro keeps_bind keeps_then gen make cache cnt bus) (simp_all add: ops)
  have unless: "keeps ?P (unless_processed ?env k)" for k
    unfolding unless_processed_def by (intro keeps_bind cache) (simp add: cnt pub)
  have fin: "keeps ?P (ai_finish ?env m)" for m
    unfolding ai_finish_def ai_on_bus_def by (intro keeps_then cnt bus) (simp_all add: ops)
  have news: "keeps ?P (process_news_event ?env m ev)" for m ev
    unfolding process_news_event_def index_news_event_def publish_news_insight_def
    by (intro keeps_then index cnt keeps_for_each unless fin) simp_all
  have sig: "keeps ?P (process_signal_event ?env m sg)" for m sg
    unfolding process_signal_event_def index_signal_context_def publish_signal_insight_def
    by (intro keeps_then index cnt unless fin) simp_all
  have give_up: "keeps ?P (ai_give_up ?env m e)" for m e
    unfolding ai_give_up_def by (intro keeps_then cnt dl) simp_all
  have retries: "keeps ?P (ai_process_with_retries ?env m op)" if op: "keeps ?P op" for m op
    unfolding triple_keep
  proof (intro allI impI)
    fix s assume s: "?P s"
    have "keeps ?P (\<lambda>s. (fst (ai_attempt op (i, s)), snd (snd (ai_attempt op (i, s)))))" for i
      using op unfolding triple_keep by (simp add: ai_attempt_def ai_count_retry_def ai_frame_def split_beta)
    from keeps_retry [OF this attempt_iter_rule, of "ai_attempts ?env"]
    have kept: "?P (snd (snd (retry_async attempt_iter (ai_attempts ?env) (ai_attempt op) (0, s))))"
      using s unfolding triple_keep by simp
    obtain r i s' where run: "retry_async attempt_iter (ai_attempts ?env) (ai_attempt op) (0, s) = (r, (i, s'))"
      by (metis prod.collapse)
    then show "?P (snd (ai_process_with_retries ?env m op s))"
      using kept give_up unfolding triple_keep
      by (cases r; cases "projl r") (auto simp: ai_process_with_retries_def)
  qed
  show ?thesis
    unfolding ai_handle_message_def handle_news_message_def handle_signal_message_def
    by (auto intro!: dl retries news sig split: sum.split)
qed

definition alerting_frame :: "(string \<Rightarrow> ((string \<Rightarrow> message list option) \<times> string set) option) \<Rightarrow> int \<Rightarrow> inmem_alerting \<Rightarrow> bool" where
  "alerting_frame Q k s \<longleftrightarrow> beside TOPIC_ALERTS (as_bus s) = Q \<and> am_messages_seen (as_metrics s) = k"

lemma alerting_handle_keeps: "keeps (alerting_frame Q c) (alerting_handle_message (inmem_alerting_env lib rules n) m)"
proof -
  let ?P = "alerting_frame Q c" and ?env = "inmem_alerting_env lib rules n"
  have bus: "keeps ?P (zoomM as_bus (\<lambda>b s. s\<lparr>as_bus := b\<rparr>) op)" if "writes_only TOPIC_ALERTS op" for op :: "(inmem_bus, 'x) pm"
    by (rule keeps_on_bus [where Q = Q and R = "\<lambda>s. am_messages_seen (as_metrics s) = c"]) (use that in \<open>simp_all add: alerting_frame_def\<close>)
  have cache: "keeps ?P (as_on_cache op)" for op :: "(inmem_cache, 'x) pm"
    unfolding as_on_cache_def by (rule keeps_zoom) (simp add: alerting_frame_def)
  have cnt: "keeps ?P (as_count f)" if "\<And>x. am_messages_seen (f x) = am_messages_seen x" for f
    unfolding as_count_def by (rule keeps_modify) (simp add: alerting_frame_def that)
  have md: "keeps ?P (modifyM f)" if "\<And>s. as_bus (f s) = as_bus s \<and> am_messages_seen (as_metrics (f s)) = am_messages_seen (as_metrics s)"
    for f :: "inmem_alerting \<Rightarrow> inmem_alerting"
    by (rule keeps_modify) (simp add: alerting_frame_def that)
  note ops = writes_only_ops writes_only_publish
  have dl: "keeps ?P (alerting_dead_letter ?env m r)" for m r
    unfolding alerting_dead_letter_def dead_letter_message_def by (intro keeps_then md bus) (simp_all add: ops)
  have sup: "keeps ?P (alerting_suppress ?env m)" for m
    unfolding alerting_suppress_def as_on_bus_def by (intro keeps_then cnt bus) (simp_all add: ops)
  have fin: "keeps ?P (alerting_finish ?env m as k)" for m as k
    unfolding alerting_finish_def as_on_bus_def by (intro keeps_then cnt cache bus) (simp_all add: ops)
  have fail: "keeps ?P (alerting_on_failure ?env m k e)" for m k e
    unfolding alerting_on_failure_def by (cases e) (auto intro!: keeps_then cnt cache dl)
  have one: "keeps ?P (publish_alert ?env a)" for a
  proof -
    have "keeps ?P (thenM (as_on_bus (bus_publish (ae_bus ?env) (ae_alert_topic ?env) (alert_dump (ae_lib ?env) a)
        (Some (al_dedupe_key a)) (correlation_id a)))
      (as_on_cache (cache_set (ae_cache ?env) (alert_published_key (al_dedupe_key a)) (PBool True) (Some IDEMPOTENCY_TTL_SECONDS))))"
      unfolding as_on_bus_def by (intro keeps_then bus cache) (simp add: ops)
    then show ?thesis unfolding publish_alert_def by (intro keeps_bind cache) (simp add: keeps_basic)
  qed
  have all: "keeps ?P (publish_alerts ?env as k)" for as k
    unfolding publish_alerts_def by (intro keeps_then keeps_for_each one cache)
  have retry: "keeps ?P (process_with_retry ?env as k)" for as k
    unfolding triple_keep
  proof (intro allI impI)
    fix s assume s: "?P s"
    have "keeps ?P (\<lambda>s. (fst (alert_operation ?env as k (i, s)), snd (snd (alert_operation ?env as k (i, s)))))" for i
      using all [of as k] unfolding triple_keep
      by (simp add: alert_operation_def count_retry_def alerting_frame_def split_beta)
    from keeps_retry [OF this attempt_iter_rule, of "processing_attempts ?env"]
    show "?P (snd (process_with_retry ?env as k s))"
      using s unfolding triple_keep by (simp add: process_with_retry_def split_beta)
  qed
  have guarded: "keeps ?P (as_guarded lib op)" if "keeps ?P op" for op :: "(inmem_alerting, unit) pm"
    unfolding triple_keep
  proof (intro allI impI)
    fix s assume "?P s"
    moreover from this that have "?P (snd (op s))" unfolding triple_keep by blast
    ultimately show "?P (snd (as_guarded lib op s))"
      using cb_call_state [of lib op "as_breaker s" s] by (auto simp: as_guarded_def alerting_frame_def split_beta)
  qed
  have pe: "keeps ?P (alerting_process_event ?env m topic eid as)" for m topic eid as
    unfolding alerting_process_event_def Let_def
    by (auto intro!: keeps_bind cache sup keeps_try_else guarded retry fail fin)
  have wa: "keeps ?P (with_alerts ev (alerting_process_event ?env m topic eid))" for ev m topic eid
    using pe unfolding triple_keep by (simp add: with_alerts_def alerting_frame_def Let_def)
  show ?thesis
    unfolding alerting_handle_message_def handle_signal_def handle_insight_def
    by (auto intro!: dl wa split: sum.split)
qed

section \<open>The three workers are pollers\<close>

text \<open>A handler that counts the message and then keeps the frame meets the locale's laws.\<close>

lemma frame_after_count:
  assumes "\<And>Q k. keeps (\<lambda>s. beside out (bus_of s) = Q \<and> seen s = k) m" "\<And>s. bus_of (f s) = bus_of s \<and> seen (f s) = seen s + 1"
  shows "beside out (bus_of (snd (thenM (modifyM f) m s))) = beside out (bus_of s)"
    "seen (snd (thenM (modifyM f) m s)) = seen s + (1 :: int)"
  using assms(1) [of "beside out (bus_of s)" "seen s + 1"] assms(2) [of s]
  unfolding triple_keep by (simp_all add: thenM_apply modifyM_def)

interpretation stream_poller: poller ss_bus "stream_seen_then_handle (inmem_stream_env lib np cfg)" "\<lambda>b s. s\<lparr>ss_bus := b\<rparr>"
  "\<lambda>s. sm_messages_seen (ss_metrics s)" STREAM_SUBSCRIPTION TOPIC_SIGNALS for lib np cfg
proof (unfold_locales, goal_cases)
  case 3
  show ?case by (rule stream_handle_total)
next
  case (4 m s)
  show ?case unfolding stream_seen_then_handle_def ss_count_def
    by (rule frame_after_count(1) [where seen = "\<lambda>s. sm_messages_seen (ss_metrics s)"])
       (use stream_handle_keeps in \<open>simp_all add: stream_frame_def [abs_def]\<close>)
next
  case (5 m s)
  show ?case unfolding stream_seen_then_handle_def ss_count_def
    by (rule frame_after_count(2) [where bus_of = ss_bus and seen = "\<lambda>s. sm_messages_seen (ss_metrics s)" and out = TOPIC_SIGNALS])
       (use stream_handle_keeps in \<open>simp_all add: stream_frame_def [abs_def]\<close>)
qed simp_all

interpretation ai_poller: poller ai_bus "ai_seen_then_handle (inmem_ai_env lib rag llm n)" "\<lambda>b s. s\<lparr>ai_bus := b\<rparr>"
  "\<lambda>s. im_messages_seen (ai_metrics s)" AI_SUBSCRIPTION TOPIC_INSIGHTS for lib and rag :: "'r rag_pipeline" and llm n
proof (unfold_locales, goal_cases)
  case 3
  show ?case by (rule ai_handle_total)
next
  case (4 m s)
  show ?case unfolding ai_seen_then_handle_def ai_count_def
    by (rule frame_after_count(1) [where seen = "\<lambda>s. im_messages_seen (ai_metrics s)"])
       (use ai_handle_keeps in \<open>simp_all add: ai_frame_def [abs_def]\<close>)
next
  case (5 m s)
  show ?case unfolding ai_seen_then_handle_def ai_count_def
    by (rule frame_after_count(2) [where bus_of = ai_bus and seen = "\<lambda>s. im_messages_seen (ai_metrics s)" and out = TOPIC_INSIGHTS])
       (use ai_handle_keeps in \<open>simp_all add: ai_frame_def [abs_def]\<close>)
qed simp_all

interpretation alerting_poller: poller as_bus "alerting_seen_then_handle (inmem_alerting_env lib rules n)" "\<lambda>b s. s\<lparr>as_bus := b\<rparr>"
  "\<lambda>s. am_messages_seen (as_metrics s)" ALERTING_SUBSCRIPTION TOPIC_ALERTS for lib rules n
proof (unfold_locales, goal_cases)
  case 3
  show ?case by (rule alerting_handle_total)
next
  case (4 m s)
  show ?case unfolding alerting_seen_then_handle_def as_count_def
    by (rule frame_after_count(1) [where seen = "\<lambda>s. am_messages_seen (as_metrics s)"])
       (use alerting_handle_keeps in \<open>simp_all add: alerting_frame_def [abs_def]\<close>)
next
  case (5 m s)
  show ?case unfolding alerting_seen_then_handle_def as_count_def
    by (rule frame_after_count(2) [where bus_of = as_bus and seen = "\<lambda>s. am_messages_seen (as_metrics s)" and out = TOPIC_ALERTS])
       (use alerting_handle_keeps in \<open>simp_all add: alerting_frame_def [abs_def]\<close>)
qed simp_all

lemma stream_polls: "stream_poll_once (inmem_stream_env lib np cfg) =
    stream_poller.poll lib np cfg [TOPIC_MARKET_RAW]"
  by (intro ext) (simp add: stream_poll_once_def ss_on_bus_def pm_simps split: sum.split)

lemma ai_polls: "ai_poll_once (inmem_ai_env lib rag llm n) = ai_poller.poll lib rag llm n [TOPIC_NEWS_RAW, TOPIC_SIGNALS]"
  by (intro ext) (simp add: ai_poll_once_def ai_poll_topic_def ai_on_bus_def pm_simps split: sum.split)

lemma alerting_polls: "alerting_poll_once (inmem_alerting_env lib rules n) =
    alerting_poller.poll lib rules n [TOPIC_SIGNALS, TOPIC_INSIGHTS]"
  by (intro ext) (simp add: alerting_poll_once_def alerting_poll_topic_def as_on_bus_def pm_simps split: sum.split)

text \<open>
  The stream worker works its backlog off: whatever the payloads are and whatever the indicators
  do, its loop, started on a queue of any length, takes the messages in batches in order, sees
  each exactly once, leaves none of them awaiting settlement, and sleeps exactly in the turns
  that find the queue empty; after enough turns the queue is empty.
\<close>

theorem stream_drains_backlog:
  assumes "bus_inv (ss_bus s)" "0 < n"
  shows "\<exists>sleeps s'. stream_run_forever k (inmem_stream_env lib np cfg) n s = (Inr sleeps, s') \<and>
    queue_of (ss_bus s') ''market.raw'' ''stream'' = drop (k * nat n) (queue_of (ss_bus s) ''market.raw'' ''stream'') \<and>
    pending_of (ss_bus s') = pending_of (ss_bus s) \<and>
    sm_messages_seen (ss_metrics s') = sm_messages_seen (ss_metrics s) +
      int (min (k * nat n) (length (queue_of (ss_bus s) ''market.raw'' ''stream''))) \<and>
    sleeps = map (\<lambda>i. length (queue_of (ss_bus s) ''market.raw'' ''stream'') \<le> i * nat n) [0..<k] \<and> bus_inv (ss_bus s')"
  using stream_poller.loop_drains [OF assms(1), of "[TOPIC_MARKET_RAW]" n k lib np cfg] assms(2) topics_differ(1)
  unfolding stream_run_forever_def stream_polls by (fastforce simp: taken_def TOPIC_MARKET_RAW_def STREAM_SUBSCRIPTION_def)

text \<open>
  C4: So do the analysis worker and the alerting worker, each over its two topics: whatever the
  payloads are and whatever the search store, the embedding provider, the language model and
  the breaker do, the loop takes the messages of both queues in batches in order, sees each
  exactly once, leaves none of them awaiting settlement, and sleeps exactly in the turns that
  find both queues empty.
\<close>

theorem workers_drain_backlogs:
  assumes "bus_inv (ai_bus s)" "bus_inv (as_bus a)" "0 < n"
  defines "news \<equiv> queue_of (ai_bus s) ''news.raw'' ''ai''" and "sig \<equiv> queue_of (ai_bus s) ''signals'' ''ai''"
    and "sig' \<equiv> queue_of (as_bus a) ''signals'' ''alerting''" and "ins \<equiv> queue_of (as_bus a) ''insights'' ''alerting''"
  shows "(\<exists>sleeps s'. ai_run_forever k (inmem_ai_env lib rag llm r) n s = (Inr sleeps, s') \<and>
      queue_of (ai_bus s') ''news.raw'' ''ai'' = drop (k * nat n) news \<and>
      queue_of (ai_bus s') ''signals'' ''ai'' = drop (k * nat n) sig \<and>
      pending_of (ai_bus s') = pending_of (ai_bus s) \<and>
      im_messages_seen (ai_metrics s') = im_messages_seen (ai_metrics s) +
        int (min (k * nat n) (length news)) + int (min (k * nat n) (length sig)) \<and>
      sleeps = map (\<lambda>i. length news \<le> i * nat n \<and> length sig \<le> i * nat n) [0..<k]) \<and>
    (\<exists>sleeps a'. alerting_run_forever k (inmem_alerting_env lib rules r) n a = (Inr sleeps, a') \<and>
      queue_of (as_bus a') ''signals'' ''alerting'' = drop (k * nat n) sig' \<and>
      queue_of (as_bus a') ''insights'' ''alerting'' = drop (k * nat n) ins \<and>
      pending_of (as_bus a') = pending_of (as_bus a) \<and>
      am_messages_seen (as_metrics a') = am_messages_seen (as_metrics a) +
        int (min (k * nat n) (length sig')) + int (min (k * nat n) (length ins)) \<and>
      sleeps = map (\<lambda>i. length sig' \<le> i * nat n \<and> length ins \<le> i * nat n) [0..<k])" (is "?ai \<and> ?alerting")
proof
  let ?loop = "\<lambda>t x. x\<lparr>ai_metrics := (ai_metrics x)\<lparr>last_error := Some t\<rparr>\<rparr>"
  have "TOPIC_INSIGHTS \<notin> set [TOPIC_NEWS_RAW, TOPIC_SIGNALS]" "distinct [TOPIC_NEWS_RAW, TOPIC_SIGNALS]"
    using topics_differ by auto
  from ai_poller.loop_drains [OF assms(1) this assms(3), of k lib rag llm r "''ai''" ?loop]
  show ?ai unfolding ai_run_forever_def ai_polls news_def sig_def
    by (simp add: taken_def add.assoc [symmetric] TOPIC_NEWS_RAW_def TOPIC_SIGNALS_def AI_SUBSCRIPTION_def) blast
next
  let ?loop = "\<lambda>t x. x\<lparr>as_metrics := (as_metrics x)\<lparr>last_error := Some t\<rparr>\<rparr>"
  have "TOPIC_ALERTS \<notin> set [TOPIC_SIGNALS, TOPIC_INSIGHTS]" "distinct [TOPIC_SIGNALS, TOPIC_INSIGHTS]"
    using topics_differ by auto
  from alerting_poller.loop_drains [OF assms(2) this assms(3), of k lib rules r "''alerting''" ?loop]
  show ?alerting unfolding alerting_run_forever_def alerting_polls sig'_def ins_def
    by (simp add: taken_def add.assoc [symmetric] TOPIC_INSIGHTS_def TOPIC_SIGNALS_def ALERTING_SUBSCRIPTION_def) blast
qed

definition example_backlog :: inmem_bus where
  "example_backlog = snd (ib_publish TOPIC_MARKET_RAW (PInt 3) (Some ''c'') None (snd (ib_publish TOPIC_MARKET_RAW (PInt 2) (Some ''b'') None
     (snd (ib_publish TOPIC_MARKET_RAW (PInt 1) (Some ''a'') None
       (snd (ib_receive TOPIC_MARKET_RAW STREAM_SUBSCRIPTION 0 (inmem_bus_init (\<lambda>_. ''u'')))))))))"

theorem stream_drains_backlog_witness:
  "\<exists>sleeps s'. stream_run_forever 3 (inmem_stream_env null_lib std_numpy default_indicator_config) 2
      ((stream_init (\<lambda>_. ''u'') second_clock)\<lparr>ss_bus := example_backlog\<rparr>) = (Inr sleeps, s') \<and>
     queue_of (ss_bus s') ''market.raw'' ''stream'' = [] \<and> sleeps = [False, False, True]"
proof -
  let ?s = "(stream_init (\<lambda>_. ''u'') second_clock)\<lparr>ss_bus := example_backlog\<rparr>"
  have "bus_inv (ss_bus ?s)" by (simp add: example_backlog_def bus_inv_publish bus_inv_receive bus_inv_init)
  moreover have "(0 :: int) < 2" by simp
  moreover have "length (queue_of (ss_bus ?s) ''market.raw'' ''stream'') = 3"
    by (simp add: example_backlog_def) code_simp
  ultimately show ?thesis using stream_drains_backlog [of ?s 2 3 null_lib std_numpy default_indicator_config]
    by (auto simp: upt_rec)
qed

definition example_two_topics :: inmem_bus where
  "example_two_topics = snd (ib_publish TOPIC_SIGNALS (PInt 3) (Some ''c'') None (snd (ib_publish TOPIC_SIGNALS (PInt 2) (Some ''b'') None
     (snd (ib_receive TOPIC_SIGNALS AI_SUBSCRIPTION 0 (snd (ib_receive TOPIC_SIGNALS ALERTING_SUBSCRIPTION 0
       (inmem_bus_init (\<lambda>_. ''u'')))))))))"

theorem workers_drain_backlogs_witness:
  "(\<exists>sleeps s'. ai_run_forever 2 (inmem_ai_env null_lib ai_example_rag broken_llm 3) 2
      ((ai_init (\<lambda>_. ''u'') second_clock inmem_search_init)\<lparr>ai_bus := example_two_topics\<rparr>) = (Inr sleeps, s') \<and>
     queue_of (ai_bus s') ''signals'' ''ai'' = [] \<and> sleeps = [False, True]) \<and>
   (\<exists>sleeps a'. alerting_run_forever 2 (inmem_alerting_env null_lib default_alert_rules 3) 2
      ((alerting_init (\<lambda>_. ''u'') second_clock)\<lparr>as_bus := example_two_topics\<rparr>) = (Inr sleeps, a') \<and>
     queue_of (as_bus a') ''signals'' ''alerting'' = [] \<and> sleeps = [False, True])"
proof -
  let ?s = "(ai_init (\<lambda>_. ''u'') second_clock inmem_search_init)\<lparr>ai_bus := example_two_topics\<rparr>"
  let ?a = "(alerting_init (\<lambda>_. ''u'') second_clock)\<lparr>as_bus := example_two_topics\<rparr>"
  have "bus_inv example_two_topics" by (simp add: example_two_topics_def bus_inv_publish bus_inv_receive bus_inv_init)
  then have inv: "bus_inv (ai_bus ?s)" "bus_inv (as_bus ?a)" "(0 :: int) < 2" by simp_all
  have len: "length (queue_of example_two_topics ''news.raw'' ''ai'') = 0" "length (queue_of example_two_topics ''signals'' ''ai'') = 2"
    "length (queue_of example_two_topics ''signals'' ''alerting'') = 2" "length (queue_of example_two_topics ''insights'' ''alerting'') = 0"
    by code_simp+
  show ?thesis
    using workers_drain_backlogs [OF inv, of 2 null_lib ai_example_rag broken_llm 3 default_alert_rules] len
    by (auto simp: upt_rec)
qed

end
