(* ===== verification/EndToEnd.thy ===== *)
theory EndToEnd
  imports Backlog
begin

text \<open>
  From a price to an alert: the stream worker's poll and the alerting worker's poll, composed
  on the shared bus and cache of the pipeline.  Each worker's part is one lemma about a poll
  that finds one new event; the property joins them through the signal topic.
\<close>

section \<open>The stream worker's part\<close>

lemma stream_polls_one:
  fixes lib ev
  assumes "queue_of (ss_bus s) TOPIC_MARKET_RAW STREAM_SUBSCRIPTION = m # ms"
    and "validate_market lib (msg_body m) = Inr ev" "lookup (ss_cache s) (stream_dedupe_key lib ev) = None"
    and "processor_process lib np cfg (ss_history s) (ss_uuids s (ss_next s)) ev = Inr p"
  defines "b \<equiv> snd (ib_receive TOPIC_MARKET_RAW STREAM_SUBSCRIPTION 1 (ss_bus s))"
  shows "\<exists>s'. stream_poll_once (inmem_stream_env lib np cfg) 1 s = (Inr 1, s') \<and>
    ss_bus s' = snd (ib_complete m (snd (ib_publish TOPIC_SIGNALS (signal_dump lib (ps_signal p))
      (Some (stream_dedupe_key lib ev)) (correlation_id ev) b))) \<and>
    ss_cache s' = processed_cache lib ev p (snd (ic_get (stream_dedupe_key lib ev) (ss_cache s)))"
proof -
  let ?s1 = "s\<lparr>ss_bus := b, ss_metrics := (ss_metrics s)\<lparr>sm_messages_seen := sm_messages_seen (ss_metrics s) + 1\<rparr>\<rparr>"
  have 1: "lookup (ss_cache ?s1) (stream_dedupe_key lib ev) = None"
    "processor_process lib np cfg (ss_history ?s1) (ss_uuids ?s1 (ss_next ?s1)) ev = Inr p" using assms(3,4) by simp_all
  note handled = stream_handled_inmem [OF assms(2) 1]
  have received: "ib_receive TOPIC_MARKET_RAW STREAM_SUBSCRIPTION 1 (ss_bus s) = (Inr [m], b)"
    by (simp add: prod_eq_iff receive_parts assms(1) b_def)
  show ?thesis
    by (simp add: stream_poll_once_def ss_on_bus_def pm_simps received stream_seen_then_handle_def ss_count_def handled processed_state_def)
qed

text \<open>What the bus then offers: the signal to its subscribers, every other topic as before.\<close>

lemma signal_offered:
  fixes mid body corr m
  assumes "queues b TOPIC_SIGNALS sub = Some []" "mid \<notin> seen_ids b TOPIC_SIGNALS" "mid \<noteq> []"
  defines "b1 \<equiv> snd (ib_receive TOPIC_MARKET_RAW STREAM_SUBSCRIPTION 1 b)"
  defines "b2 \<equiv> snd (ib_complete m (snd (ib_publish TOPIC_SIGNALS body (Some mid) corr b1)))"
  shows "\<exists>x. queue_of b2 TOPIC_SIGNALS sub = [x] \<and> msg_topic x = TOPIC_SIGNALS \<and> msg_body x = body"
    and "t \<notin> {TOPIC_SIGNALS, TOPIC_MARKET_RAW} \<Longrightarrow> queues b2 t u = queues b t u \<and> seen_ids b2 t = seen_ids b t"
proof -
  have b1: "queues b1 t u = queues b t u" "seen_ids b1 t = seen_ids b t" if "t \<noteq> TOPIC_MARKET_RAW" for t u
    using that by (simp_all add: b1_def ib_receive_def set_queue_def Let_def)
  have "queue_of b2 TOPIC_SIGNALS sub = [published_message TOPIC_SIGNALS sub body mid corr (next_sequence b1 TOPIC_SIGNALS)]"
    unfolding b2_def signal_published using assms(1-3) b1 [OF topics_differ(1)] by (simp add: queue_of_def)
  then show "\<exists>x. queue_of b2 TOPIC_SIGNALS sub = [x] \<and> msg_topic x = TOPIC_SIGNALS \<and> msg_body x = body"
    by (simp add: published_message_def)
  have "writes_only TOPIC_SIGNALS (ib_publish TOPIC_SIGNALS body (Some mid) corr)" "writes_only TOPIC_SIGNALS (ib_complete m)"
    by (rule writes_only_publish, rule writes_only_ops)
  then have "beside TOPIC_SIGNALS b2 = beside TOPIC_SIGNALS b1" by (simp add: writes_only_def b2_def)
  from besideD [OF this] b1
  show "t \<notin> {TOPIC_SIGNALS, TOPIC_MARKET_RAW} \<Longrightarrow> queues b2 t u = queues b t u \<and> seen_ids b2 t = seen_ids b t" by simp
qed

section \<open>The alerting worker's part\<close>

text \<open>No alert of the event was raised, and no other worker is at it.\<close>

definition unalerted :: "inmem_cache \<Rightarrow> inmem_bus \<Rightarrow> string \<Rightarrow> string \<Rightarrow> alert_event list \<Rightarrow> bool" where
  "unalerted c b topic eid alerts \<longleftrightarrow>
     lookup c (alert_processed_key topic eid) = None \<and> lookup c (alert_lock_key topic eid) = None \<and>
     (\<forall>a \<in> set alerts. lookup c (alert_published_key (al_dedupe_key a)) = None \<and>
        al_dedupe_key a \<noteq> [] \<and> al_dedupe_key a \<notin> seen_ids b ''alerts'')"

lemma alerting_handles_signal:
  assumes "cache_inv (as_cache s)" "cb_state (as_breaker s) = CLOSED" "msg_topic m = TOPIC_SIGNALS"
    and "validate_signal lib (msg_body m) = Inr sg"
    and "alerts = evaluate_signal lib rules (as_uuids s) (as_next s) sg" "distinct (map al_dedupe_key alerts)"
    and "unalerted (as_cache s) (as_bus s) TOPIC_SIGNALS (event_id sg) alerts"
    and "queues (as_bus s) ''alerts'' sub \<noteq> None"
  shows "\<exists>s' new. alerting_seen_then_handle (inmem_alerting_env lib rules n) m s = (Inr (), s') \<and>
    queue_of (as_bus s') ''alerts'' sub = queue_of (as_bus s) ''alerts'' sub @ new \<and>
    map msg_id new = map al_dedupe_key alerts \<and> map msg_body new = map (alert_dump lib) alerts"
proof -
  let ?s1 = "s\<lparr>as_metrics := (as_metrics s)\<lparr>am_messages_seen := am_messages_seen (as_metrics s) + 1\<rparr>, as_next := as_next s + length alerts\<rparr>"
  obtain s' new where s': "alerting_process_event (inmem_alerting_env lib rules n) m TOPIC_SIGNALS (event_id sg) alerts ?s1 = (Inr (), s')"
    "queue_of (as_bus s') ''alerts'' sub = queue_of (as_bus s) ''alerts'' sub @ new"
    "map msg_id new = map al_dedupe_key alerts" "map msg_body new = map (alert_dump lib) alerts"
    using event_alerts_published [of ?s1 TOPIC_SIGNALS "event_id sg" alerts sub lib rules n m] assms(1,2,6-8)
    by (auto simp: unalerted_def)
  have "alerting_seen_then_handle (inmem_alerting_env lib rules n) m s = (Inr (), s')"
    using s'(1) by (simp add: alerting_seen_then_handle_def as_count_def thenM_apply modifyM_def alerting_handle_message_def
        assms(3,4) handle_signal_def with_alerts_def Let_def assms(5) [symmetric])
  with s'(2-4) show ?thesis by blast
qed

lemma alerting_polls_signal:
  assumes "cache_inv (as_cache s)" "cb_state (as_breaker s) = CLOSED"
    and "queue_of (as_bus s) TOPIC_SIGNALS ALERTING_SUBSCRIPTION = [m]" "queue_of (as_bus s) TOPIC_INSIGHTS ALERTING_SUBSCRIPTION = []"
    and "msg_topic m = TOPIC_SIGNALS" "validate_signal lib (msg_body m) = Inr sg"
    and "alerts = evaluate_signal lib rules (as_uuids s) (as_next s) sg" "distinct (map al_dedupe_key alerts)"
    and "unalerted (as_cache s) (as_bus s) TOPIC_SIGNALS (event_id sg) alerts"
    and "queues (as_bus s) ''alerts'' sub \<noteq> None"
  shows "\<exists>s' new. alerting_poll_once (inmem_alerting_env lib rules n) 2 s = (Inr 1, s') \<and>
    queue_of (as_bus s') ''alerts'' sub = queue_of (as_bus s) ''alerts'' sub @ new \<and>
    map msg_id new = map al_dedupe_key alerts \<and> map msg_body new = map (alert_dump lib) alerts"
proof -
  let ?handle = "alerting_seen_then_handle (inmem_alerting_env lib rules n)"
  define b where "b = snd (ib_receive TOPIC_SIGNALS ALERTING_SUBSCRIPTION 2 (as_bus s))"
  have received: "ib_receive TOPIC_SIGNALS ALERTING_SUBSCRIPTION 2 (as_bus s) = (Inr [m], b)"
    by (simp add: prod_eq_iff receive_parts assms(3) b_def)
  have same: "queues b t u = queues (as_bus s) t u" "seen_ids b t = seen_ids (as_bus s) t" if "t \<noteq> TOPIC_SIGNALS" for t u
    using that by (simp_all add: b_def ib_receive_def set_queue_def Let_def)
  let ?s1 = "s\<lparr>as_bus := b\<rparr>"
  have fresh: "unalerted (as_cache ?s1) (as_bus ?s1) TOPIC_SIGNALS (event_id sg) alerts" "queues (as_bus ?s1) ''alerts'' sub \<noteq> None"
    using assms(9,10) same [OF topics_differ(8) [symmetric]] by (simp_all add: unalerted_def TOPIC_ALERTS_def)
  obtain s2 new where s2: "?handle m ?s1 = (Inr (), s2)"
    "queue_of (as_bus s2) ''alerts'' sub = queue_of b ''alerts'' sub @ new"
    "map msg_id new = map al_dedupe_key alerts" "map msg_body new = map (alert_dump lib) alerts"
    using alerting_handles_signal [of ?s1, OF _ _ assms(5,6) _ assms(8) fresh, where n = n and rules = rules] assms(1,2,7) by auto
  have "beside TOPIC_ALERTS (as_bus s2) = beside TOPIC_ALERTS b"
    using alerting_poller.handle_touches [of lib rules n m ?s1] by (simp add: s2(1))
  from besideD [OF this topics_differ(9)] have "queues (as_bus s2) TOPIC_INSIGHTS = queues (as_bus s) TOPIC_INSIGHTS"
    using same(1) [OF topics_differ(7) [symmetric]] by (simp add: fun_eq_iff)
  then have "queue_of (as_bus s2) TOPIC_INSIGHTS ALERTING_SUBSCRIPTION = []" using assms(4) by (simp add: queue_of_def)
  then obtain s' where s': "alerting_poller.poll lib rules n [TOPIC_INSIGHTS] 2 s2 = (Inr 0, s')" "queue_of (as_bus s') = queue_of (as_bus s2)"
    using alerting_poller.poll_idle [of "[TOPIC_INSIGHTS]" s2 lib rules n 2] by auto
  have "alerting_poll_once (inmem_alerting_env lib rules n) 2 s = (Inr 1, s')"
    unfolding alerting_polls poll_topics.simps(2) [of _ _ _ _ TOPIC_SIGNALS] using s'(1)
    by (simp only: bindM_apply thenM_apply zoomM_apply received fst_conv snd_conv sum.case for_each.simps s2(1) prod.case) (simp add: returnM_def)
  moreover have "queue_of b ''alerts'' sub = queue_of (as_bus s) ''alerts'' sub"
    using same(1) [OF topics_differ(8) [symmetric]] by (simp add: queue_of_def TOPIC_ALERTS_def)
  ultimately show ?thesis using s2(2-4) s'(2) by auto
qed

section \<open>Both\<close>

lemma alert_keys_not_stream:
  "alert_processed_key t i \<notin> {stream_dedupe_key lib ev, history_key sy, snapshot_key sy}"
  "alert_lock_key t i \<notin> {stream_dedupe_key lib ev, history_key sy, snapshot_key sy}"
  "alert_published_key d \<notin> {stream_dedupe_key lib ev, history_key sy, snapshot_key sy}"
  by (simp_all add: alert_key_defs stream_dedupe_key_def IDEMPOTENCY_PREFIX_def cache_key_defs)

lemma unalerted_processed:
  assumes "cache_inv c" "unalerted c b topic eid alerts" "seen_ids b' ''alerts'' = seen_ids b ''alerts''"
  shows "unalerted (processed_cache lib ev q (snd (ic_get k c))) b' topic eid alerts"
proof -
  have inv: "cache_inv (snd (ic_get k c))" by (rule ic_get_inv [OF assms(1)])
  have other: "lookup (processed_cache lib ev q (snd (ic_get k c))) k' = None"
    if k': "k' \<notin> {stream_dedupe_key lib ev, history_key (me_symbol ev), snapshot_key (me_symbol ev)}" and none: "lookup c k' = None" for k'
  proof -
    have "lookup (snd (ic_get k c)) k' = None"
      using ic_get_lookup [OF assms(1), of k] none unfolding map_le_def by (metis domIff)
    with inv show ?thesis by (rule processed_cache_other) (use k' in blast)+
  qed
  show ?thesis
    using assms(2,3) other [OF alert_keys_not_stream(1)] other [OF alert_keys_not_stream(2)] other [OF alert_keys_not_stream(3)]
    unfolding unalerted_def by blast
qed

lemma rules_of_indicators:
  "map (\<lambda>a. (al_rule a, al_severity a)) (evaluate_signal lib c us n (make_signal uid ev iv)) =
     (if anomaly_flag iv then [(''anomaly_flag'', ''critical'')] else []) @
     (case iv_rsi iv of None \<Rightarrow> [] | Some r \<Rightarrow>
        (if r \<ge> rsi_overbought_threshold c then [(''rsi_overbought'', ''high'')]
         else if r \<le> rsi_oversold_threshold c then [(''rsi_oversold'', ''medium'')] else [])) @
     (case iv_volatility iv of None \<Rightarrow> [] | Some v \<Rightarrow>
        (if v \<ge> volatility_threshold c then [(''volatility_threshold_breach'', ''high'')] else []))"
proof -
  have "indicator (make_signal uid ev iv) ''rsi'' = iv_rsi iv" "indicator (make_signal uid ev iv) ''volatility'' = iv_volatility iv"
    by (simp_all add: indicator_def make_signal_def split: option.split)
  then show ?thesis using conjunct1 [OF signal_alert_rules, of lib c us n "make_signal uid ev iv"]
    by (simp add: make_signal_def)
qed

text \<open>
  C3: A price becomes the alerts its indicators call for: when a valid, new market event waits for
  the stream worker, and the alerting worker, its breaker closed, has nothing else to do, then
  one poll of each publishes to every subscription of the alert topic exactly the alerts that
  the indicators over the symbol's history with the new price raise, in the order anomaly,
  relative strength, volatility, each under its own key; the signal between them travels
  through the bus.  It is assumed that a signal is validated back from its dump, as Pydantic
  does, and that the signal was not alerted on before.
\<close>

theorem anomaly_reaches_alerts:
  fixes env p ev iv
  defines "lib \<equiv> be_lib env" and "rules \<equiv> be_rules env"
    and "sg \<equiv> make_signal (ss_uuids (pl_stream p) (ss_next (pl_stream p))) ev iv"
  defines "alerts \<equiv> evaluate_signal lib rules (as_uuids (pl_alerting p)) (as_next (pl_alerting p)) sg"
  assumes "cache_inv (pl_cache p)" "cb_state (as_breaker (pl_alerting p)) = CLOSED"
    and "queue_of (pl_bus p) ''market.raw'' ''stream'' = m # ms" "queues (pl_bus p) ''signals'' ''alerting'' = Some []"
    and "queue_of (pl_bus p) ''insights'' ''alerting'' = []" "queues (pl_bus p) ''alerts'' sub \<noteq> None"
    and "validate_market lib (msg_body m) = Inr ev" "validate_signal lib (signal_dump lib sg) = Inr sg"
    and "lookup (pl_cache p) (stream_dedupe_key lib ev) = None" "stream_dedupe_key lib ev \<notin> seen_ids (pl_bus p) ''signals''"
    and "compute_indicators (be_np env) (be_config env) (ss_history (pl_stream p) (me_symbol ev) @ [me_price ev]) = Inr iv"
    and "distinct (map al_dedupe_key alerts)" "unalerted (pl_cache p) (pl_bus p) ''signals'' (event_id sg) alerts"
  shows "\<exists>p1 p2 new. on_stream (stream_poll_once (bench_stream_env env) 1) p = (Inr 1, p1) \<and>
    on_alerting (alerting_poll_once (bench_alerting_env env) 2) p1 = (Inr 1, p2) \<and>
    queue_of (pl_bus p2) ''alerts'' sub = queue_of (pl_bus p) ''alerts'' sub @ new \<and>
    map msg_id new = map al_dedupe_key alerts \<and> map msg_body new = map (alert_dump lib) alerts \<and>
    map (\<lambda>a. (al_rule a, al_severity a)) alerts =
      (if anomaly_flag iv then [(''anomaly_flag'', ''critical'')] else []) @
      (case iv_rsi iv of None \<Rightarrow> [] | Some r \<Rightarrow>
         (if r \<ge> rsi_overbought_threshold rules then [(''rsi_overbought'', ''high'')]
          else if r \<le> rsi_oversold_threshold rules then [(''rsi_oversold'', ''medium'')] else [])) @
      (case iv_volatility iv of None \<Rightarrow> [] | Some v \<Rightarrow>
         (if v \<ge> volatility_threshold rules then [(''volatility_threshold_breach'', ''high'')] else []))"
proof -
  let ?key = "stream_dedupe_key lib ev" and ?s = "(pl_stream p)\<lparr>ss_bus := pl_bus p, ss_cache := pl_cache p\<rparr>"
  note topics = TOPIC_MARKET_RAW_def TOPIC_SIGNALS_def TOPIC_INSIGHTS_def STREAM_SUBSCRIPTION_def ALERTING_SUBSCRIPTION_def
  obtain q where q: "processor_process lib (be_np env) (be_config env) (ss_history ?s) (ss_uuids ?s (ss_next ?s)) ev = Inr q"
    "ps_signal q = sg" using assms(15) by (simp add: processor_process_def candidate_history_def bindR_def sg_def)
  have start: "queue_of (ss_bus ?s) TOPIC_MARKET_RAW STREAM_SUBSCRIPTION = m # ms" "lookup (ss_cache ?s) ?key = None"
    using assms(7,13) by (simp_all add: topics)
  from stream_polls_one [OF start(1) assms(11) start(2) q(1)] obtain s' where
    s': "stream_poll_once (bench_stream_env env) 1 ?s = (Inr 1, s')"
    and bus: "ss_bus s' = snd (ib_complete m (snd (ib_publish TOPIC_SIGNALS (signal_dump lib sg) (Some ?key) (correlation_id ev)
      (snd (ib_receive TOPIC_MARKET_RAW STREAM_SUBSCRIPTION 1 (pl_bus p))))))"
    and cached: "ss_cache s' = processed_cache lib ev q (snd (ic_get ?key (pl_cache p)))"
    by (auto simp: bench_stream_env_def lib_def q(2))
  define p1 where "p1 = p\<lparr>pl_stream := s', pl_bus := ss_bus s', pl_cache := ss_cache s'\<rparr>"
  have p1: "on_stream (stream_poll_once (bench_stream_env env) 1) p = (Inr 1, p1)"
    using s' by (simp add: on_stream_def zoomM_apply p1_def)
  have "queues (pl_bus p) TOPIC_SIGNALS ALERTING_SUBSCRIPTION = Some []" "?key \<notin> seen_ids (pl_bus p) TOPIC_SIGNALS" "?key \<noteq> []"
    using assms(8,14) by (simp_all add: topics stream_dedupe_key_def IDEMPOTENCY_PREFIX_def)
  note offered = signal_offered [OF this, where m = m and body = "signal_dump lib sg" and corr = "correlation_id ev", folded bus]
  let ?a = "(pl_alerting p1)\<lparr>as_bus := pl_bus p1, as_cache := pl_cache p1\<rparr>"
  from offered(1) obtain x where x: "queue_of (as_bus ?a) TOPIC_SIGNALS ALERTING_SUBSCRIPTION = [x]" "msg_topic x = TOPIC_SIGNALS"
    "msg_body x = signal_dump lib sg" by (auto simp: p1_def)
  have rest: "queues (as_bus ?a) t u = queues (pl_bus p) t u" "seen_ids (as_bus ?a) t = seen_ids (pl_bus p) t"
    if "t \<in> {''insights'', ''alerts''}" for t u
    using offered(2) [of t u] that by (auto simp: p1_def topics)
  have ready: "cache_inv (as_cache ?a)" "cb_state (as_breaker ?a) = CLOSED" "queues (as_bus ?a) ''alerts'' sub \<noteq> None"
    "queue_of (as_bus ?a) TOPIC_INSIGHTS ALERTING_SUBSCRIPTION = []"
    using assms(5,6,9,10) rest(1) processed_cache_inv ic_get_inv by (auto simp: p1_def cached queue_of_def topics)
  have new: "unalerted (as_cache ?a) (as_bus ?a) TOPIC_SIGNALS (event_id sg) alerts"
    using unalerted_processed [OF assms(5,17)] rest(2) by (simp add: p1_def cached TOPIC_SIGNALS_def)
  have alerts: "alerts = evaluate_signal lib rules (as_uuids ?a) (as_next ?a) sg" by (simp add: alerts_def p1_def)
  have valid: "validate_signal lib (msg_body x) = Inr sg" using assms(12) x(3) by simp
  from alerting_polls_signal [OF ready(1,2) x(1) ready(4) x(2) valid alerts assms(16) new ready(3), of 3] obtain a' new where
    a': "alerting_poll_once (bench_alerting_env env) 2 ?a = (Inr 1, a')"
    "queue_of (as_bus a') ''alerts'' sub = queue_of (as_bus ?a) ''alerts'' sub @ new"
    "map msg_id new = map al_dedupe_key alerts" "map msg_body new = map (alert_dump lib) alerts"
    by (auto simp: bench_alerting_env_def lib_def rules_def)
  define p2 where "p2 = p1\<lparr>pl_alerting := a', pl_bus := as_bus a', pl_cache := as_cache a'\<rparr>"
  have p2: "on_alerting (alerting_poll_once (bench_alerting_env env) 2) p1 = (Inr 1, p2)"
    using a'(1) by (simp add: on_alerting_def zoomM_apply p2_def)
  have queue: "queue_of (pl_bus p2) ''alerts'' sub = queue_of (pl_bus p) ''alerts'' sub @ new"
    using a'(2) rest(1) by (simp add: queue_of_def p2_def)
  show ?thesis
    by (intro exI conjI) (rule p1, rule p2, rule queue, rule a'(3), rule a'(4),
      rule rules_of_indicators [of lib rules "as_uuids (pl_alerting p)" "as_next (pl_alerting p)"
      "ss_uuids (pl_stream p) (ss_next (pl_stream p))" ev iv, folded sg_def, folded alerts_def])
qed

section \<open>A jump of the price\<close>

definition jump_config :: indicator_config where
  "jump_config = default_indicator_config\<lparr>rsi_period := 2, zscore_window := 2, ewma_span := 2\<rparr>"

definition jump_values :: indicator_values where
  "jump_values = \<lparr>iv_sma = None, iv_ema = None, iv_rsi = Some 100, iv_volatility = None, iv_trend = None,
     iv_zscore = Some True, iv_ewma = Some True\<rparr>"

lemma jump_computed: "compute_indicators std_numpy jump_config [10, 10, 100] = Inr jump_values"
  by (simp add: compute_indicators_def jump_config_def default_indicator_config_def bindR_def jump_values_def
      simple_moving_average_def exponential_moving_average_def relative_strength_index_def rolling_volatility_def
      detect_trend_def z_score_anomaly_def ewma_anomaly_def std_numpy_def diffs_of_def mean_of_def variance_of_def
      slice_last_def wilder_step_def ewma_step_def Let_def eval_nat_numeral)

definition jump_signal :: signal_event where
  "jump_signal = make_signal ''u'' example_event jump_values"

definition jump_bench :: bench_env where
  "jump_bench = \<lparr>be_lib = example_lib\<lparr>validate_signal := (\<lambda>_. Inr jump_signal)\<rparr>, be_np = std_numpy, be_config = jump_config,
     be_rag = ai_example_rag, be_llm = broken_llm, be_rules = default_alert_rules, be_started = utc_datetime 0, be_completed = utc_datetime 0\<rparr>"

definition jump_bus :: inmem_bus where
  "jump_bus = snd (ib_publish TOPIC_MARKET_RAW (PInt 1) (Some ''m1'') None (snd (ib_receive ''alerts'' ''observer'' 0
     (snd (ib_receive TOPIC_SIGNALS ALERTING_SUBSCRIPTION 0 (snd (ib_receive TOPIC_MARKET_RAW STREAM_SUBSCRIPTION 0
       (inmem_bus_init (\<lambda>_. ''u'')))))))))"

definition jump_pipeline :: pipeline where
  "jump_pipeline = \<lparr>pl_bus = jump_bus, pl_cache = inmem_cache_init second_clock,
     pl_stream = (stream_init (\<lambda>_. ''u'') second_clock)\<lparr>ss_history := (\<lambda>_. [10, 10])\<rparr>,
     pl_ai = ai_init (\<lambda>_. ''u'') second_clock inmem_search_init,
     pl_alerting = alerting_init (\<lambda>_. ''u'') second_clock, pl_clock = second_clock, pl_latencies = []\<rparr>"

lemma jump_bus_sel:
  "queue_of jump_bus ''market.raw'' ''stream'' = [published_message ''market.raw'' ''stream'' (PInt 1) ''m1'' None 1]"
  "queues jump_bus ''signals'' ''alerting'' = Some []" "queue_of jump_bus ''insights'' ''alerting'' = []"
  "queues jump_bus ''alerts'' ''observer'' = Some []" "seen_ids jump_bus ''signals'' = {}" "seen_ids jump_bus ''alerts'' = {}"
  by (simp_all add: jump_bus_def ib_publish_def ib_receive_def set_queue_def queue_of_def Let_def inmem_bus_init_def
      published_message_def TOPIC_MARKET_RAW_def TOPIC_SIGNALS_def STREAM_SUBSCRIPTION_def ALERTING_SUBSCRIPTION_def)

theorem anomaly_reaches_alerts_witness:
  "\<exists>p1 p2 as. on_stream (stream_poll_once (bench_stream_env jump_bench) 1) jump_pipeline = (Inr 1, p1) \<and>
    on_alerting (alerting_poll_once (bench_alerting_env jump_bench) 2) p1 = (Inr 1, p2) \<and>
    map msg_body (queue_of (pl_bus p2) ''alerts'' ''observer'') = map (alert_dump (be_lib jump_bench)) as \<and>
    map (\<lambda>a. (al_rule a, al_severity a)) as = [(''anomaly_flag'', ''critical''), (''rsi_overbought'', ''high'')]"
proof -
  let ?p = jump_pipeline and ?lib = "be_lib jump_bench"
  have p: "pl_bus ?p = jump_bus" "pl_cache ?p = inmem_cache_init second_clock" "cb_state (as_breaker (pl_alerting ?p)) = CLOSED"
    "make_signal (ss_uuids (pl_stream ?p) (ss_next (pl_stream ?p))) example_event jump_values = jump_signal"
    by (simp_all add: jump_pipeline_def alerting_init_def breaker_init_def stream_init_def jump_signal_def)
  have computed: "compute_indicators (be_np jump_bench) (be_config jump_bench)
      (ss_history (pl_stream ?p) (me_symbol example_event) @ [me_price example_event]) = Inr jump_values"
    by (simp add: jump_bench_def jump_pipeline_def example_event_def jump_computed)
  let ?alerts = "evaluate_signal ?lib (be_rules jump_bench) (as_uuids (pl_alerting ?p)) (as_next (pl_alerting ?p)) jump_signal"
  have keys: "map al_dedupe_key ?alerts = [alert_raw ''signal'' ''u'' ''BTCUSDT'' ''anomaly_flag'' [], alert_raw ''signal'' ''u'' ''BTCUSDT'' ''rsi_overbought'' []]"
    by (simp add: evaluate_signal_def map_rule_build signal_firings_def anomaly_firing_def rsi_firing_def volatility_firing_def
        indicator_def jump_signal_def make_signal_def jump_values_def anomaly_flag_def jump_bench_def default_alert_rules_def
        alert_dedupe_key_def example_lib_def null_lib_def example_event_def)
  have key_of: "al_dedupe_key a \<noteq> []" if "a \<in> set ?alerts" for a
  proof -
    have "al_dedupe_key a \<in> set (map al_dedupe_key ?alerts)" using that by simp
    then show ?thesis unfolding keys by (auto simp: alert_raw_def)
  qed
  have new: "unalerted (pl_cache ?p) (pl_bus ?p) ''signals'' (event_id jump_signal) ?alerts"
    using key_of by (simp add: unalerted_def p jump_bus_sel)
  have d: "distinct (map al_dedupe_key ?alerts)" by (simp add: keys alert_raw_def)
  have valid: "validate_market ?lib (msg_body (published_message ''market.raw'' ''stream'' (PInt 1) ''m1'' None 1)) = Inr example_event"
    "validate_signal ?lib (signal_dump ?lib jump_signal) = Inr jump_signal"
    by (simp_all add: jump_bench_def example_lib_def published_message_def)
  have queue: "queue_of (pl_bus ?p) ''market.raw'' ''stream'' = [published_message ''market.raw'' ''stream'' (PInt 1) ''m1'' None 1]"
    "queues (pl_bus ?p) ''signals'' ''alerting'' = Some []" "queue_of (pl_bus ?p) ''insights'' ''alerting'' = []"
    "queues (pl_bus ?p) ''alerts'' ''observer'' \<noteq> None" "queue_of (pl_bus ?p) ''alerts'' ''observer'' = []"
    by (simp_all add: p jump_bus_sel) (simp add: queue_of_def jump_bus_sel)
  have unseen: "lookup (pl_cache ?p) (stream_dedupe_key ?lib example_event) = None"
    "stream_dedupe_key ?lib example_event \<notin> seen_ids (pl_bus ?p) ''signals''" "cache_inv (pl_cache ?p)"
    by (simp_all add: p jump_bus_sel second_clock_inv)
  from anomaly_reaches_alerts [OF unseen(3) p(3) queue(1-4) valid(1) _ unseen(1,2) computed, unfolded p(4), OF valid(2) d new] queue(5)
  obtain p1 p2 where run: "on_stream (stream_poll_once (bench_stream_env jump_bench) 1) ?p = (Inr 1, p1)"
    "on_alerting (alerting_poll_once (bench_alerting_env jump_bench) 2) p1 = (Inr 1, p2)"
    "map msg_body (queue_of (pl_bus p2) ''alerts'' ''observer'') = map (alert_dump ?lib) ?alerts" by auto
  have rules: "map (\<lambda>a. (al_rule a, al_severity a)) ?alerts = [(''anomaly_flag'', ''critical''), (''rsi_overbought'', ''high'')]"
    unfolding jump_signal_def rules_of_indicators by (simp add: jump_values_def anomaly_flag_def jump_bench_def default_alert_rules_def)
  show ?thesis by (intro exI conjI) (rule run(1), rule run(2), rule run(3), rule rules)
qed

end
