(* ===== verification/PipelineProps.thy ===== *)
theory PipelineProps
  imports Backlog
begin

text \<open>
  What the services guarantee together: whatever the indicators, the search store and the
  language model do, every event of a run is seen by the stream worker exactly once, no message
  of any topic is left unsettled, and the raw topic is drained.  And from any backlog, polling
  the workers in turn drains every topic they read.
\<close>

section \<open>Message ids\<close>

lemma bench_message_id_inj: "bench_message_id i = bench_message_id j \<Longrightarrow> i = j"
  by (auto simp: bench_message_id_def dest: pad_left_digits_inj)

section \<open>A run\<close>

definition bench_ready :: "clock \<Rightarrow> nat \<Rightarrow> pipeline \<Rightarrow> bool" where
  "bench_ready clk i p \<longleftrightarrow> bus_inv (pl_bus p) \<and> pending_of (pl_bus p) = {} \<and>
     queues (pl_bus p) TOPIC_MARKET_RAW STREAM_SUBSCRIPTION = Some [] \<and>
     seen_ids (pl_bus p) TOPIC_MARKET_RAW \<subseteq> bench_message_id ` {..<i} \<and>
     sm_messages_seen (ss_metrics (pl_stream p)) = int i \<and> length (pl_latencies p) = i \<and>
     ticks (pl_clock p) = ticks clk \<and> reads (pl_clock p) = reads clk + 2 * i"

text \<open>
  One round of polls, followed through the buses between them: the raw queue moves up; once it
  is empty nothing adds to the analysis worker's queues, and once those are empty too nothing
  adds to the alerting worker's.
\<close>

lemma subscriptions_differ: "STREAM_SUBSCRIPTION \<noteq> AI_SUBSCRIPTION" "STREAM_SUBSCRIPTION \<noteq> ALERTING_SUBSCRIPTION"
  "AI_SUBSCRIPTION \<noteq> ALERTING_SUBSCRIPTION"
  by (simp_all add: STREAM_SUBSCRIPTION_def AI_SUBSCRIPTION_def ALERTING_SUBSCRIPTION_def)

lemma round_of_buses:
  assumes stream: "polled TOPIC_SIGNALS STREAM_SUBSCRIPTION [TOPIC_MARKET_RAW] 1 b0 b1"
      "queue_of b0 TOPIC_MARKET_RAW STREAM_SUBSCRIPTION = [] \<Longrightarrow> queue_of b1 = queue_of b0"
    and ai: "polled TOPIC_INSIGHTS AI_SUBSCRIPTION [TOPIC_NEWS_RAW, TOPIC_SIGNALS] 1 b1 b2"
      "queue_of b1 TOPIC_NEWS_RAW AI_SUBSCRIPTION = [] \<and> queue_of b1 TOPIC_SIGNALS AI_SUBSCRIPTION = [] \<Longrightarrow> queue_of b2 = queue_of b1"
    and alerting: "polled TOPIC_ALERTS ALERTING_SUBSCRIPTION [TOPIC_SIGNALS, TOPIC_INSIGHTS] 2 b2 b3"
  shows "queues b3 TOPIC_MARKET_RAW STREAM_SUBSCRIPTION = Some (drop 1 (queue_of b0 TOPIC_MARKET_RAW STREAM_SUBSCRIPTION))"
    "seen_ids b3 TOPIC_MARKET_RAW = seen_ids b0 TOPIC_MARKET_RAW"
    "queue_of b0 TOPIC_MARKET_RAW STREAM_SUBSCRIPTION = [] \<Longrightarrow>
       queue_of b3 TOPIC_NEWS_RAW AI_SUBSCRIPTION = drop 1 (queue_of b0 TOPIC_NEWS_RAW AI_SUBSCRIPTION) \<and>
       queue_of b3 TOPIC_SIGNALS AI_SUBSCRIPTION = drop 1 (queue_of b0 TOPIC_SIGNALS AI_SUBSCRIPTION)"
    "queue_of b0 TOPIC_MARKET_RAW STREAM_SUBSCRIPTION = [] \<Longrightarrow> queue_of b0 TOPIC_NEWS_RAW AI_SUBSCRIPTION = [] \<Longrightarrow>
       queue_of b0 TOPIC_SIGNALS AI_SUBSCRIPTION = [] \<Longrightarrow>
       queue_of b3 TOPIC_SIGNALS ALERTING_SUBSCRIPTION = drop 2 (queue_of b0 TOPIC_SIGNALS ALERTING_SUBSCRIPTION) \<and>
       queue_of b3 TOPIC_INSIGHTS ALERTING_SUBSCRIPTION = drop 2 (queue_of b0 TOPIC_INSIGHTS ALERTING_SUBSCRIPTION)"
proof -
  note differ = topics_differ topics_differ [symmetric] subscriptions_differ subscriptions_differ [symmetric]
  show "queues b3 TOPIC_MARKET_RAW STREAM_SUBSCRIPTION = Some (drop 1 (queue_of b0 TOPIC_MARKET_RAW STREAM_SUBSCRIPTION))"
    "seen_ids b3 TOPIC_MARKET_RAW = seen_ids b0 TOPIC_MARKET_RAW"
    using stream(1) ai(1) alerting unfolding polled_def by (simp_all add: differ)
  note q = polled_queue [OF ai(1)] polled_queue [OF alerting]
  show "queue_of b3 TOPIC_NEWS_RAW AI_SUBSCRIPTION = drop 1 (queue_of b0 TOPIC_NEWS_RAW AI_SUBSCRIPTION) \<and>
       queue_of b3 TOPIC_SIGNALS AI_SUBSCRIPTION = drop 1 (queue_of b0 TOPIC_SIGNALS AI_SUBSCRIPTION)"
    if "queue_of b0 TOPIC_MARKET_RAW STREAM_SUBSCRIPTION = []"
    using stream(2) [OF that] by (simp add: q differ)
  show "queue_of b3 TOPIC_SIGNALS ALERTING_SUBSCRIPTION = drop 2 (queue_of b0 TOPIC_SIGNALS ALERTING_SUBSCRIPTION) \<and>
       queue_of b3 TOPIC_INSIGHTS ALERTING_SUBSCRIPTION = drop 2 (queue_of b0 TOPIC_INSIGHTS ALERTING_SUBSCRIPTION)"
    if "queue_of b0 TOPIC_MARKET_RAW STREAM_SUBSCRIPTION = []" "queue_of b0 TOPIC_NEWS_RAW AI_SUBSCRIPTION = []"
       "queue_of b0 TOPIC_SIGNALS AI_SUBSCRIPTION = []"
    using stream(2) [OF that(1)] ai(2) that(2,3) by (simp add: q differ)
qed

lemma poll_services_law:
  assumes "bus_inv (pl_bus p)"
  shows "\<exists>p' b1 b2. poll_services env p = (Inr (), p') \<and>
    polled TOPIC_SIGNALS STREAM_SUBSCRIPTION [TOPIC_MARKET_RAW] 1 (pl_bus p) b1 \<and>
    (queue_of (pl_bus p) TOPIC_MARKET_RAW STREAM_SUBSCRIPTION = [] \<longrightarrow> queue_of b1 = queue_of (pl_bus p)) \<and>
    polled TOPIC_INSIGHTS AI_SUBSCRIPTION [TOPIC_NEWS_RAW, TOPIC_SIGNALS] 1 b1 b2 \<and>
    (queue_of b1 TOPIC_NEWS_RAW AI_SUBSCRIPTION = [] \<and> queue_of b1 TOPIC_SIGNALS AI_SUBSCRIPTION = [] \<longrightarrow>
       queue_of b2 = queue_of b1) \<and>
    polled TOPIC_ALERTS ALERTING_SUBSCRIPTION [TOPIC_SIGNALS, TOPIC_INSIGHTS] 2 b2 (pl_bus p') \<and>
    sm_messages_seen (ss_metrics (pl_stream p')) = sm_messages_seen (ss_metrics (pl_stream p)) +
      int (min 1 (length (queue_of (pl_bus p) TOPIC_MARKET_RAW STREAM_SUBSCRIPTION))) \<and>
    pl_latencies p' = pl_latencies p \<and> pl_clock p' = pl_clock p"
proof -
  let ?s = "(pl_stream p)\<lparr>ss_bus := pl_bus p, ss_cache := pl_cache p\<rparr>"
  have s: "bus_inv (ss_bus ?s)" "TOPIC_SIGNALS \<notin> set [TOPIC_MARKET_RAW]" "distinct [TOPIC_MARKET_RAW]"
    using assms topics_differ by simp_all
  from stream_poller.poll_law [OF s, of "be_lib env" "be_np env" "be_config env" 1] obtain j s' where
    s': "stream_poll_once (bench_stream_env env) 1 ?s = (Inr j, s')"
    "polled TOPIC_SIGNALS STREAM_SUBSCRIPTION [TOPIC_MARKET_RAW] 1 (pl_bus p) (ss_bus s')"
    "sm_messages_seen (ss_metrics s') = sm_messages_seen (ss_metrics (pl_stream p)) +
      int (min 1 (length (queue_of (pl_bus p) TOPIC_MARKET_RAW STREAM_SUBSCRIPTION)))"
    by (auto simp: bench_stream_env_def stream_polls taken_def)
  have s_idle: "queue_of (ss_bus s') = queue_of (pl_bus p)" if "queue_of (pl_bus p) TOPIC_MARKET_RAW STREAM_SUBSCRIPTION = []"
    using stream_poller.poll_idle [of "[TOPIC_MARKET_RAW]" ?s "be_lib env" "be_np env" "be_config env" 1] that s'(1)
    by (auto simp: bench_stream_env_def stream_polls)
  define p1 where "p1 = p\<lparr>pl_stream := s', pl_bus := ss_bus s', pl_cache := ss_cache s'\<rparr>"
  have p1: "on_stream (stream_poll_once (bench_stream_env env) 1) p = (Inr j, p1)"
    using s'(1) by (simp add: on_stream_def zoomM_apply p1_def)
  let ?a = "(pl_ai p1)\<lparr>ai_bus := pl_bus p1, ai_cache := pl_cache p1\<rparr>"
  have a: "bus_inv (ai_bus ?a)" "TOPIC_INSIGHTS \<notin> set [TOPIC_NEWS_RAW, TOPIC_SIGNALS]" "distinct [TOPIC_NEWS_RAW, TOPIC_SIGNALS]"
    using s'(2) topics_differ by (auto simp: p1_def polled_def)
  from ai_poller.poll_law [OF a, of "be_lib env" "be_rag env" "be_llm env" 3 1] obtain k a' where
    a': "ai_poll_once (bench_ai_env env) 1 ?a = (Inr k, a')"
    "polled TOPIC_INSIGHTS AI_SUBSCRIPTION [TOPIC_NEWS_RAW, TOPIC_SIGNALS] 1 (ss_bus s') (ai_bus a')"
    by (auto simp: bench_ai_env_def ai_polls p1_def)
  have a_idle: "queue_of (ai_bus a') = queue_of (ss_bus s')"
    if "queue_of (ss_bus s') TOPIC_NEWS_RAW AI_SUBSCRIPTION = [] \<and> queue_of (ss_bus s') TOPIC_SIGNALS AI_SUBSCRIPTION = []"
    using ai_poller.poll_idle [of "[TOPIC_NEWS_RAW, TOPIC_SIGNALS]" ?a "be_lib env" "be_rag env" "be_llm env" 3 1] that a'(1)
    by (auto simp: bench_ai_env_def ai_polls p1_def)
  define p2 where "p2 = p1\<lparr>pl_ai := a', pl_bus := ai_bus a', pl_cache := ai_cache a'\<rparr>"
  have p2: "on_ai (ai_poll_once (bench_ai_env env) 1) p1 = (Inr k, p2)"
    using a'(1) by (simp add: on_ai_def zoomM_apply p2_def)
  let ?l = "(pl_alerting p2)\<lparr>as_bus := pl_bus p2, as_cache := pl_cache p2\<rparr>"
  have l: "bus_inv (as_bus ?l)" "TOPIC_ALERTS \<notin> set [TOPIC_SIGNALS, TOPIC_INSIGHTS]" "distinct [TOPIC_SIGNALS, TOPIC_INSIGHTS]"
    using a'(2) topics_differ by (auto simp: p2_def polled_def)
  from alerting_poller.poll_law [OF l, of "be_lib env" "be_rules env" 3 2] obtain i l' where
    l': "alerting_poll_once (bench_alerting_env env) 2 ?l = (Inr i, l')"
    "polled TOPIC_ALERTS ALERTING_SUBSCRIPTION [TOPIC_SIGNALS, TOPIC_INSIGHTS] 2 (ai_bus a') (as_bus l')"
    by (auto simp: bench_alerting_env_def alerting_polls p2_def)
  define p3 where "p3 = p2\<lparr>pl_alerting := l', pl_bus := as_bus l', pl_cache := as_cache l'\<rparr>"
  have p3: "on_alerting (alerting_poll_once (bench_alerting_env env) 2) p2 = (Inr i, p3)"
    using l'(1) by (simp add: on_alerting_def zoomM_apply p3_def)
  have "poll_services env p = (Inr (), p3)"
    by (simp add: poll_services_def bindM_apply p1 p2 p3 returnM_def)
  moreover have "pl_bus p3 = as_bus l'" "pl_stream p3 = s'" "pl_latencies p3 = pl_latencies p" "pl_clock p3 = pl_clock p"
    by (simp_all add: p1_def p2_def p3_def)
  ultimately show ?thesis using s'(2,3) s_idle a'(2) a_idle l'(2) by metis
qed

lemma poll_services_run:
  assumes "bus_inv (pl_bus p)" "queues (pl_bus p) TOPIC_MARKET_RAW STREAM_SUBSCRIPTION = Some [m]"
  shows "\<exists>p'. poll_services env p = (Inr (), p') \<and> bus_inv (pl_bus p') \<and> pending_of (pl_bus p') = pending_of (pl_bus p) \<and>
    queues (pl_bus p') TOPIC_MARKET_RAW STREAM_SUBSCRIPTION = Some [] \<and>
    seen_ids (pl_bus p') TOPIC_MARKET_RAW = seen_ids (pl_bus p) TOPIC_MARKET_RAW \<and>
    sm_messages_seen (ss_metrics (pl_stream p')) = sm_messages_seen (ss_metrics (pl_stream p)) + 1 \<and>
    pl_latencies p' = pl_latencies p \<and> pl_clock p' = pl_clock p"
proof -
  have q: "queue_of (pl_bus p) TOPIC_MARKET_RAW STREAM_SUBSCRIPTION = [m]" using assms(2) by (simp add: queue_of_def)
  from poll_services_law [OF assms(1), of env] obtain p' b1 b2 where
    run: "poll_services env p = (Inr (), p')"
    and polls: "polled TOPIC_SIGNALS STREAM_SUBSCRIPTION [TOPIC_MARKET_RAW] 1 (pl_bus p) b1"
      "polled TOPIC_INSIGHTS AI_SUBSCRIPTION [TOPIC_NEWS_RAW, TOPIC_SIGNALS] 1 b1 b2"
      "polled TOPIC_ALERTS ALERTING_SUBSCRIPTION [TOPIC_SIGNALS, TOPIC_INSIGHTS] 2 b2 (pl_bus p')"
    and idle: "queue_of b1 TOPIC_NEWS_RAW AI_SUBSCRIPTION = [] \<and> queue_of b1 TOPIC_SIGNALS AI_SUBSCRIPTION = [] \<Longrightarrow> queue_of b2 = queue_of b1"
    and rest: "sm_messages_seen (ss_metrics (pl_stream p')) = sm_messages_seen (ss_metrics (pl_stream p)) + int (min 1 (length [m]))"
      "pl_latencies p' = pl_latencies p" "pl_clock p' = pl_clock p" unfolding q by blast
  note raw = round_of_buses(1,2) [OF polls(1) _ polls(2) idle polls(3)]
  have "bus_inv (pl_bus p')" "pending_of (pl_bus p') = pending_of (pl_bus p)" using polls by (simp_all add: polled_def)
  then show ?thesis using run rest raw by (simp add: q)
qed

lemma publish_raw:
  assumes "bus_inv b" "queues b TOPIC_MARKET_RAW STREAM_SUBSCRIPTION = Some []" "mid \<notin> seen_ids b TOPIC_MARKET_RAW" "mid \<noteq> []"
  shows "\<exists>m b'. ib_publish TOPIC_MARKET_RAW payload (Some mid) None b = (Inr (), b') \<and> bus_inv b' \<and>
    pending_of b' = pending_of b \<and> queues b' TOPIC_MARKET_RAW STREAM_SUBSCRIPTION = Some [m] \<and>
    seen_ids b' TOPIC_MARKET_RAW = insert mid (seen_ids b TOPIC_MARKET_RAW)"
proof -
  let ?b = "snd (ib_publish TOPIC_MARKET_RAW payload (Some mid) None b)"
  have "bus_inv ?b" using assms(1) by (rule bus_inv_publish)
  then show ?thesis using assms(2-4)
    by (intro exI [of _ "published_message TOPIC_MARKET_RAW STREAM_SUBSCRIPTION payload mid None (next_sequence b TOPIC_MARKET_RAW)"]
        exI [of _ ?b])
       (simp add: ib_publish_def Let_def pending_of_def published_message_def)
qed

lemma bench_payload_ok:
  assumes "symbols \<noteq> []" "set symbols \<subseteq> set (map fst bench_prices)"
  shows "\<exists>payload. bench_payload lib symbols i = Inr (payload, bench_message_id i)"
proof -
  have "symbols ! (i mod length symbols) \<in> set symbols" using assms(1) by simp
  then have "map_of bench_prices (symbols ! (i mod length symbols)) \<noteq> None"
    using assms(2) by (auto simp: map_of_eq_None_iff)
  then show ?thesis using assms(1) by (auto simp: bench_payload_def Let_def)
qed

lemma bench_event_ready:
  assumes ready: "bench_ready clk i p" and sy: "symbols \<noteq> []" "set symbols \<subseteq> set (map fst bench_prices)"
  shows "\<exists>p'. bench_event env symbols i p = (Inr (), p') \<and> bench_ready clk (Suc i) p'"
proof -
  obtain payload where payload: "bench_payload (be_lib env) symbols i = Inr (payload, bench_message_id i)"
    using bench_payload_ok [OF sy] by blast
  let ?p1 = "p\<lparr>pl_clock := snd (read_clock (pl_clock p))\<rparr>"
  have new: "bench_message_id i \<notin> seen_ids (pl_bus p) TOPIC_MARKET_RAW"
    using ready bench_message_id_inj by (fastforce simp: bench_ready_def)
  have ne: "bench_message_id i \<noteq> []" by (simp add: bench_message_id_def)
  have inv: "bus_inv (pl_bus p)" "queues (pl_bus p) TOPIC_MARKET_RAW STREAM_SUBSCRIPTION = Some []"
    using ready by (simp_all add: bench_ready_def)
  from publish_raw [OF inv new ne, of payload] obtain m b where
    b: "ib_publish TOPIC_MARKET_RAW payload (Some (bench_message_id i)) None (pl_bus p) = (Inr (), b)" "bus_inv b"
    "pending_of b = pending_of (pl_bus p)" "queues b TOPIC_MARKET_RAW STREAM_SUBSCRIPTION = Some [m]"
    "seen_ids b TOPIC_MARKET_RAW = insert (bench_message_id i) (seen_ids (pl_bus p) TOPIC_MARKET_RAW)" by blast
  let ?p2 = "?p1\<lparr>pl_bus := b\<rparr>"
  have "bus_inv (pl_bus ?p2)" "queues (pl_bus ?p2) TOPIC_MARKET_RAW STREAM_SUBSCRIPTION = Some [m]" using b by simp_all
  from poll_services_run [OF this, of env] obtain p3 where
    p3: "poll_services env ?p2 = (Inr (), p3)" "bus_inv (pl_bus p3)" "pending_of (pl_bus p3) = pending_of b"
    "queues (pl_bus p3) TOPIC_MARKET_RAW STREAM_SUBSCRIPTION = Some []"
    "seen_ids (pl_bus p3) TOPIC_MARKET_RAW = seen_ids b TOPIC_MARKET_RAW"
    "sm_messages_seen (ss_metrics (pl_stream p3)) = sm_messages_seen (ss_metrics (pl_stream p)) + 1"
    "pl_latencies p3 = pl_latencies p" "pl_clock p3 = snd (read_clock (pl_clock p))"
    by auto
  let ?start = "fst (read_clock (pl_clock p))" and ?stop = "fst (read_clock (pl_clock p3))"
  let ?p4 = "p3\<lparr>pl_clock := snd (read_clock (pl_clock p3)), pl_latencies := pl_latencies p3 @ [(?stop - ?start) / 1000000]\<rparr>"
  have "bench_event env symbols i p = (Inr (), ?p4)"
    using b(1) p3(1) by (simp add: bench_event_def bindM_apply thenM_apply liftR_apply payload read_ns_def on_pipeline_bus_def
        zoomM_apply modifyM_def)
  moreover have "bench_ready clk (Suc i) ?p4"
    using ready b p3 by (auto simp: bench_ready_def)
  ultimately show ?thesis by blast
qed

lemma bench_events_ready:
  assumes "symbols \<noteq> []" "set symbols \<subseteq> set (map fst bench_prices)"
  shows "bench_ready clk i p \<Longrightarrow>
    \<exists>p'. for_each (bench_event env symbols) [i..<i + n] p = (Inr (), p') \<and> bench_ready clk (i + n) p'"
proof (induction n arbitrary: i p)
  case 0
  then show ?case by (simp add: returnM_def)
next
  case (Suc n)
  from bench_event_ready [OF Suc.prems assms] obtain p1 where
    p1: "bench_event env symbols i p = (Inr (), p1)" "bench_ready clk (Suc i) p1" by blast
  from Suc.IH [OF p1(2)] obtain p' where
    p': "for_each (bench_event env symbols) [Suc i..<Suc i + n] p1 = (Inr (), p')" "bench_ready clk (Suc i + n) p'" by blast
  have "[i..<i + Suc n] = i # [Suc i..<Suc i + n]" by (simp add: upt_conv_Cons)
  then show ?case using p1(1) p' by (simp add: thenM_apply del: upt_Suc)
qed

lemma receive_nothing:
  "in_flight (snd (ib_receive t s 0 b)) = in_flight b"
  "queues (snd (ib_receive t s 0 b)) t' s' = (if t' = t \<and> s' = s then Some (queue_of b t s) else queues b t' s')"
  by (simp_all add: ib_receive_def set_queue_def Let_def)

lemma create_services_ready:
  assumes "pl_bus p = inmem_bus_init us" "pl_latencies p = []" "sm_messages_seen (ss_metrics (pl_stream p)) = 0"
  shows "\<exists>p'. create_services p = (Inr (), p') \<and> bench_ready (pl_clock p) 0 p'"
proof -
  define b where "b = snd (ib_receive TOPIC_ALERTS ''observer'' 0 (snd (ib_receive TOPIC_INSIGHTS ALERTING_SUBSCRIPTION 0
    (snd (ib_receive TOPIC_SIGNALS ALERTING_SUBSCRIPTION 0 (snd (ib_receive TOPIC_SIGNALS AI_SUBSCRIPTION 0
    (snd (ib_receive TOPIC_MARKET_RAW STREAM_SUBSCRIPTION 0 (pl_bus p))))))))))"
  have "bus_inv (inmem_bus_init us)" by (rule bus_inv_init)
  then have "bus_inv b" unfolding b_def assms(1) by (intro bus_inv_receive)
  moreover have "pending_of b = {}" by (simp add: b_def pending_of_def receive_nothing assms(1) inmem_bus_init_def)
  moreover have "queues b TOPIC_MARKET_RAW STREAM_SUBSCRIPTION = Some []"
    by (simp add: b_def receive_nothing topics_differ [symmetric] assms(1) inmem_bus_init_def queue_of_def)
  moreover have "seen_ids b TOPIC_MARKET_RAW = {}" by (simp add: b_def receive_parts assms(1) inmem_bus_init_def)
  ultimately have "bench_ready (pl_clock p) 0 (p\<lparr>pl_bus := b\<rparr>)" using assms(2,3) by (simp add: bench_ready_def)
  moreover have "create_services p = (Inr (), p\<lparr>pl_bus := b\<rparr>)"
    by (simp add: create_services_def on_pipeline_bus_def bindM_apply thenM_apply zoomM_apply returnM_def b_def receive_parts)
  ultimately show ?thesis by blast
qed

text \<open>The order of the figures of a latency summary.\<close>

definition summary_in_order :: "latency_summary \<Rightarrow> bool" where
  "summary_in_order l \<longleftrightarrow> ls_min l \<le> ls_p50 l \<and> ls_p50 l \<le> ls_p95 l \<and> ls_p95 l \<le> ls_p99 l \<and>
     ls_p99 l \<le> ls_max l \<and> ls_min l \<le> ls_mean l \<and> ls_mean l \<le> ls_max l"


definition example_bench :: bench_env where
  "example_bench = \<lparr>be_lib = null_lib, be_np = std_numpy, be_config = default_indicator_config, be_rag = ai_example_rag,
     be_llm = broken_llm, be_rules = default_alert_rules,
     be_started = utc_datetime 0, be_completed = utc_datetime 0\<rparr>"

definition example_pipeline :: pipeline where
  "example_pipeline = \<lparr>pl_bus = inmem_bus_init (\<lambda>_. ''u''), pl_cache = inmem_cache_init second_clock,
     pl_stream = stream_init (\<lambda>_. ''u'') second_clock, pl_ai = ai_init (\<lambda>_. ''u'') second_clock inmem_search_init,
     pl_alerting = alerting_init (\<lambda>_. ''u'') second_clock, pl_clock = second_clock, pl_latencies = []\<rparr>"


section \<open>Quiescence\<close>

definition drained :: "inmem_bus \<Rightarrow> bool" where
  "drained b \<longleftrightarrow> queue_of b ''market.raw'' ''stream'' = [] \<and>
     queue_of b ''news.raw'' ''ai'' = [] \<and> queue_of b ''signals'' ''ai'' = [] \<and>
     queue_of b ''signals'' ''alerting'' = [] \<and> queue_of b ''insights'' ''alerting'' = []"

text \<open>The messages of the three stages, the earliest stage first.\<close>

definition backlog :: "inmem_bus \<Rightarrow> nat \<times> nat \<times> nat" where
  "backlog b =
     (length (queue_of b TOPIC_MARKET_RAW STREAM_SUBSCRIPTION),
      length (queue_of b TOPIC_NEWS_RAW AI_SUBSCRIPTION) + length (queue_of b TOPIC_SIGNALS AI_SUBSCRIPTION),
      length (queue_of b TOPIC_SIGNALS ALERTING_SUBSCRIPTION) + length (queue_of b TOPIC_INSIGHTS ALERTING_SUBSCRIPTION))"

abbreviation fewer :: "((nat \<times> nat \<times> nat) \<times> (nat \<times> nat \<times> nat)) set" where
  "fewer \<equiv> less_than <*lex*> less_than <*lex*> less_than"

lemma drained_backlog: "drained b \<longleftrightarrow> backlog b = (0, 0, 0)"
  by (auto simp: drained_def backlog_def TOPIC_MARKET_RAW_def TOPIC_NEWS_RAW_def TOPIC_SIGNALS_def TOPIC_INSIGHTS_def
      STREAM_SUBSCRIPTION_def AI_SUBSCRIPTION_def ALERTING_SUBSCRIPTION_def)

datatype worker = StreamWorker | AnalysisWorker | AlertingWorker

text \<open>One poll of a worker of the pipeline, for up to \<open>n\<close> messages of each of its topics.\<close>

fun poll_worker :: "bench_env \<Rightarrow> worker \<Rightarrow> int \<Rightarrow> (pipeline, int) pm" where
  "poll_worker env StreamWorker n = on_stream (stream_poll_once (bench_stream_env env) n)"
| "poll_worker env AnalysisWorker n = on_ai (ai_poll_once (bench_ai_env env) n)"
| "poll_worker env AlertingWorker n = on_alerting (alerting_poll_once (bench_alerting_env env) n)"

text \<open>What a worker finds waiting: its stage of the backlog.\<close>

fun stage :: "worker \<Rightarrow> inmem_bus \<Rightarrow> nat" where
  "stage StreamWorker b = fst (backlog b)"
| "stage AnalysisWorker b = fst (snd (backlog b))"
| "stage AlertingWorker b = snd (snd (backlog b))"

lemma fewer_queues: "0 < n \<Longrightarrow> length xs + length ys \<noteq> 0 \<Longrightarrow> length (drop n xs) + length (drop n ys) < length xs + length ys"
  by (cases xs; cases ys) auto

text \<open>A poll takes from its own stage, and changes nothing when that is empty.\<close>

lemma worker_step:
  assumes "bus_inv (pl_bus p)" "0 < n"
  shows "\<exists>k p'. poll_worker env w n p = (Inr k, p') \<and> bus_inv (pl_bus p') \<and> pending_of (pl_bus p') = pending_of (pl_bus p) \<and>
    (if stage w (pl_bus p) = 0 then backlog (pl_bus p') = backlog (pl_bus p) else (backlog (pl_bus p'), backlog (pl_bus p)) \<in> fewer)"
proof (cases w)
  case w: StreamWorker
  let ?s = "(pl_stream p)\<lparr>ss_bus := pl_bus p, ss_cache := pl_cache p\<rparr>" and ?ts = "[TOPIC_MARKET_RAW]"
  have s: "bus_inv (ss_bus ?s)" "TOPIC_SIGNALS \<notin> set ?ts" "distinct ?ts" using assms topics_differ by simp_all
  from stream_poller.poll_law [OF s, of "be_lib env" "be_np env" "be_config env" n] obtain k s' where
    s': "stream_poll_once (bench_stream_env env) n ?s = (Inr k, s')"
    "polled TOPIC_SIGNALS STREAM_SUBSCRIPTION ?ts (nat n) (pl_bus p) (ss_bus s')"
    by (auto simp: bench_stream_env_def stream_polls)
  have idle: "queue_of (ss_bus s') = queue_of (pl_bus p)" if "stage w (pl_bus p) = 0"
    using stream_poller.poll_idle [of ?ts ?s "be_lib env" "be_np env" "be_config env" n] that s'(1) w
    by (auto simp: bench_stream_env_def stream_polls backlog_def)
  have "poll_worker env w n p = (Inr k, p\<lparr>pl_stream := s', pl_bus := ss_bus s', pl_cache := ss_cache s'\<rparr>)"
    using s'(1) w by (simp add: on_stream_def zoomM_apply)
  moreover have "stage w (pl_bus p) \<noteq> 0 \<longrightarrow> (backlog (ss_bus s'), backlog (pl_bus p)) \<in> fewer"
    using assms(2) w polled_queue [OF s'(2), of TOPIC_MARKET_RAW STREAM_SUBSCRIPTION] by (auto simp: backlog_def topics_differ(1) [symmetric])
  ultimately show ?thesis using s'(2) idle by (auto simp: polled_def backlog_def)
next
  case w: AnalysisWorker
  let ?s = "(pl_ai p)\<lparr>ai_bus := pl_bus p, ai_cache := pl_cache p\<rparr>" and ?ts = "[TOPIC_NEWS_RAW, TOPIC_SIGNALS]"
  have s: "bus_inv (ai_bus ?s)" "TOPIC_INSIGHTS \<notin> set ?ts" "distinct ?ts" using assms topics_differ by auto
  from ai_poller.poll_law [OF s, of "be_lib env" "be_rag env" "be_llm env" 3 n] obtain k s' where
    s': "ai_poll_once (bench_ai_env env) n ?s = (Inr k, s')"
    "polled TOPIC_INSIGHTS AI_SUBSCRIPTION ?ts (nat n) (pl_bus p) (ai_bus s')"
    by (auto simp: bench_ai_env_def ai_polls)
  have idle: "queue_of (ai_bus s') = queue_of (pl_bus p)" if "stage w (pl_bus p) = 0"
    using ai_poller.poll_idle [of ?ts ?s "be_lib env" "be_rag env" "be_llm env" 3 n] that s'(1) w
    by (auto simp: bench_ai_env_def ai_polls backlog_def)
  have "poll_worker env w n p = (Inr k, p\<lparr>pl_ai := s', pl_bus := ai_bus s', pl_cache := ai_cache s'\<rparr>)"
    using s'(1) w by (simp add: on_ai_def zoomM_apply)
  moreover have "stage w (pl_bus p) \<noteq> 0 \<longrightarrow> (backlog (ai_bus s'), backlog (pl_bus p)) \<in> fewer"
    using assms(2) w fewer_queues [of "nat n" "queue_of (pl_bus p) TOPIC_NEWS_RAW AI_SUBSCRIPTION" "queue_of (pl_bus p) TOPIC_SIGNALS AI_SUBSCRIPTION"]
    by (simp add: backlog_def polled_queue [OF s'(2)] topics_differ topics_differ [symmetric])
  ultimately show ?thesis using s'(2) idle by (auto simp: polled_def backlog_def)
next
  case w: AlertingWorker
  let ?s = "(pl_alerting p)\<lparr>as_bus := pl_bus p, as_cache := pl_cache p\<rparr>" and ?ts = "[TOPIC_SIGNALS, TOPIC_INSIGHTS]"
  have s: "bus_inv (as_bus ?s)" "TOPIC_ALERTS \<notin> set ?ts" "distinct ?ts" using assms topics_differ by auto
  from alerting_poller.poll_law [OF s, of "be_lib env" "be_rules env" 3 n] obtain k s' where
    s': "alerting_poll_once (bench_alerting_env env) n ?s = (Inr k, s')"
    "polled TOPIC_ALERTS ALERTING_SUBSCRIPTION ?ts (nat n) (pl_bus p) (as_bus s')"
    by (auto simp: bench_alerting_env_def alerting_polls)
  have idle: "queue_of (as_bus s') = queue_of (pl_bus p)" if "stage w (pl_bus p) = 0"
    using alerting_poller.poll_idle [of ?ts ?s "be_lib env" "be_rules env" 3 n] that s'(1) w
    by (auto simp: bench_alerting_env_def alerting_polls backlog_def)
  have "poll_worker env w n p = (Inr k, p\<lparr>pl_alerting := s', pl_bus := as_bus s', pl_cache := as_cache s'\<rparr>)"
    using s'(1) w by (simp add: on_alerting_def zoomM_apply)
  moreover have "stage w (pl_bus p) \<noteq> 0 \<longrightarrow> (backlog (as_bus s'), backlog (pl_bus p)) \<in> fewer"
    using assms(2) w fewer_queues [of "nat n" "queue_of (pl_bus p) TOPIC_SIGNALS ALERTING_SUBSCRIPTION" "queue_of (pl_bus p) TOPIC_INSIGHTS ALERTING_SUBSCRIPTION"]
    by (simp add: backlog_def polled_queue [OF s'(2)] topics_differ topics_differ [symmetric] subscriptions_differ subscriptions_differ [symmetric])
  ultimately show ?thesis using s'(2) idle by (auto simp: polled_def backlog_def)
qed

text \<open>A schedule says whose turn it is, and for how many messages; it is fair when every turn comes again.\<close>

type_synonym schedule = "nat \<Rightarrow> worker \<times> int"

fun scheduled :: "bench_env \<Rightarrow> schedule \<Rightarrow> nat \<Rightarrow> pipeline \<Rightarrow> pipeline" where
  "scheduled env sch 0 p = p"
| "scheduled env sch (Suc j) p = snd (poll_worker env (fst (sch j)) (snd (sch j)) (scheduled env sch j p))"

definition fair :: "schedule \<Rightarrow> bool" where
  "fair sch \<longleftrightarrow> (\<forall>w i. \<exists>j \<ge> i. fst (sch j) = w) \<and> (\<forall>j. 0 < snd (sch j))"

lemma scheduled_inv:
  assumes "bus_inv (pl_bus p)" "fair sch"
  shows "bus_inv (pl_bus (scheduled env sch j p)) \<and> pending_of (pl_bus (scheduled env sch j p)) = pending_of (pl_bus p)"
proof (induction j)
  case (Suc j)
  have "0 < snd (sch j)" using assms(2) by (simp add: fair_def)
  from worker_step [OF conjunct1 [OF Suc] this, of env "fst (sch j)"] Suc show ?case by auto
qed (use assms(1) in simp)

lemma scheduled_step:
  assumes "bus_inv (pl_bus p)" "fair sch"
  shows "if stage (fst (sch j)) (pl_bus (scheduled env sch j p)) = 0
    then backlog (pl_bus (scheduled env sch (Suc j) p)) = backlog (pl_bus (scheduled env sch j p))
    else (backlog (pl_bus (scheduled env sch (Suc j) p)), backlog (pl_bus (scheduled env sch j p))) \<in> fewer"
proof -
  have now: "bus_inv (pl_bus (scheduled env sch j p))" "0 < snd (sch j)"
    using scheduled_inv [OF assms] assms(2) by (simp_all add: fair_def)
  from worker_step [OF now, of env "fst (sch j)"] show ?thesis by (simp only: scheduled.simps) (metis snd_conv)
qed

text \<open>Until the worker with a message waiting has its turn, the backlog stands or has shrunk.\<close>

lemma backlog_shrinks:
  assumes inv: "bus_inv (pl_bus p)" "fair sch" and not: "\<not> drained (pl_bus (scheduled env sch i p))"
  shows "\<exists>j > i. (backlog (pl_bus (scheduled env sch j p)), backlog (pl_bus (scheduled env sch i p))) \<in> fewer"
proof (rule ccontr)
  assume "\<not> ?thesis"
  then have never: "(backlog (pl_bus (scheduled env sch j p)), backlog (pl_bus (scheduled env sch i p))) \<notin> fewer" if "j > i" for j
    using that by blast
  have same: "backlog (pl_bus (scheduled env sch (i + d) p)) = backlog (pl_bus (scheduled env sch i p))" for d
  proof (induction d)
    case (Suc d)
    have "(backlog (pl_bus (scheduled env sch (Suc (i + d)) p)), backlog (pl_bus (scheduled env sch (i + d) p))) \<notin> fewer"
      using never [of "Suc (i + d)"] Suc by simp
    then have "backlog (pl_bus (scheduled env sch (Suc (i + d)) p)) = backlog (pl_bus (scheduled env sch (i + d) p))"
      using scheduled_step [OF inv, of "i + d" env] by (simp only: if_False split: if_splits)
    then show ?case using Suc by (simp only: add_Suc_right)
  qed simp
  obtain w where w: "stage w (pl_bus (scheduled env sch i p)) \<noteq> 0"
  proof -
    have "stage StreamWorker (pl_bus (scheduled env sch i p)) \<noteq> 0 \<or> stage AnalysisWorker (pl_bus (scheduled env sch i p)) \<noteq> 0 \<or>
        stage AlertingWorker (pl_bus (scheduled env sch i p)) \<noteq> 0"
      using not by (simp add: drained_backlog prod_eq_iff)
    then show thesis using that by blast
  qed
  obtain j where j: "j \<ge> i" "fst (sch j) = w" using inv(2) unfolding fair_def by blast
  then obtain d where d: "j = i + d" using le_Suc_ex by blast
  have "stage w (pl_bus (scheduled env sch j p)) = stage w (pl_bus (scheduled env sch i p))"
    using same [of d] d by (cases w) simp_all
  then have "(backlog (pl_bus (scheduled env sch (Suc j) p)), backlog (pl_bus (scheduled env sch j p))) \<in> fewer"
    using scheduled_step [OF inv, of j env] w j(2) by (simp only: if_False split: if_splits)
  then show False using never [of "Suc j"] same [of d] d by simp
qed

lemma drained_stays:
  assumes inv: "bus_inv (pl_bus p)" "fair sch" and drained: "drained (pl_bus (scheduled env sch i p))"
  shows "drained (pl_bus (scheduled env sch (i + d) p))"
proof (induction d)
  case (Suc d)
  then have zero: "backlog (pl_bus (scheduled env sch (i + d) p)) = (0, 0, 0)" by (simp add: drained_backlog)
  then have "stage (fst (sch (i + d))) (pl_bus (scheduled env sch (i + d) p)) = 0" by (cases "fst (sch (i + d))") simp_all
  then have "backlog (pl_bus (scheduled env sch (Suc (i + d)) p)) = (0, 0, 0)"
    using scheduled_step [OF inv, of "i + d" env] zero by (simp only: if_True split: if_splits)
  then show ?case by (simp only: drained_backlog add_Suc_right)
qed (use drained in simp)

lemma drained_once:
  assumes inv: "bus_inv (pl_bus p)" "fair sch"
  shows "\<exists>j. drained (pl_bus (scheduled env sch j p))"
proof -
  have wf: "wf fewer" by (intro wf_lex_prod wf_less_than)
  have "\<exists>j. drained (pl_bus (scheduled env sch j p))" if "b = backlog (pl_bus (scheduled env sch i p))" for b i
    using wf that
  proof (induction b arbitrary: i rule: wf_induct_rule)
    case (less b)
    show ?case
    proof (cases "drained (pl_bus (scheduled env sch i p))")
      case False
      from backlog_shrinks [OF inv this] less show ?thesis by blast
    qed blast
  qed
  then show ?thesis by blast
qed

text \<open>
  C2: The workers come to rest: from any backlog on the five queues they read, under every fair
  schedule of their polls, in whatever order and for however many messages each, and whatever
  the indicators, the search store, the embedding provider and the language model do on any
  call, every poll returns, exactly the messages that awaited settlement before still do, and
  from some turn on every one of these queues stays empty, although the workers publish signals
  and insights to each other on the way.
\<close>

theorem pipeline_quiesces:
  assumes "bus_inv (pl_bus p)" "fair sch"
  shows "(\<forall>j. \<exists>k. fst (poll_worker env (fst (sch j)) (snd (sch j)) (scheduled env sch j p)) = Inr k) \<and>
    (\<forall>j. pending_of (pl_bus (scheduled env sch j p)) = pending_of (pl_bus p)) \<and>
    (\<exists>i. \<forall>j \<ge> i. drained (pl_bus (scheduled env sch j p)))"
proof (intro conjI allI)
  fix j
  have now: "bus_inv (pl_bus (scheduled env sch j p))" "0 < snd (sch j)"
    using scheduled_inv [OF assms] assms(2) by (simp_all add: fair_def)
  from worker_step [OF now, of env "fst (sch j)"]
  show "\<exists>k. fst (poll_worker env (fst (sch j)) (snd (sch j)) (scheduled env sch j p)) = Inr k" by auto
  show "pending_of (pl_bus (scheduled env sch j p)) = pending_of (pl_bus p)" using scheduled_inv [OF assms] by blast
next
  from drained_once [OF assms] obtain i where "drained (pl_bus (scheduled env sch i p))" by blast
  then have "drained (pl_bus (scheduled env sch j p))" if "j \<ge> i" for j
    using drained_stays [OF assms] that le_Suc_ex by metis
  then show "\<exists>i. \<forall>j \<ge> i. drained (pl_bus (scheduled env sch j p))" by blast
qed

definition backlog_pipeline :: pipeline where
  "backlog_pipeline = example_pipeline\<lparr>pl_bus :=
     snd (ib_publish TOPIC_SIGNALS (PInt 2) (Some ''b'') None (snd (ib_receive TOPIC_SIGNALS ALERTING_SUBSCRIPTION 0 example_backlog)))\<rparr>"

definition in_turn :: schedule where
  "in_turn j = ([StreamWorker, AnalysisWorker, AlertingWorker] ! (j mod 3), 2)"

lemma in_turn_fair: "fair in_turn"
proof -
  have "\<exists>j \<ge> i. fst (in_turn j) = w" for w i
  proof -
    have mods: "(3 * i) mod 3 = 0" "(3 * i + 1) mod 3 = 1" "(3 * i + 2) mod 3 = 2" by presburger+
    have "fst (in_turn (3 * i)) = StreamWorker" "fst (in_turn (3 * i + 1)) = AnalysisWorker" "fst (in_turn (3 * i + 2)) = AlertingWorker"
      by (simp_all only: in_turn_def mods fst_conv) simp_all
    then show ?thesis by (cases w) (auto intro: exI [of _ "3 * i"] exI [of _ "3 * i + 1"] exI [of _ "3 * i + 2"])
  qed
  then show ?thesis by (simp add: fair_def in_turn_def)
qed

theorem pipeline_quiesces_witness:
  "\<not> drained (pl_bus backlog_pipeline) \<and> (\<exists>i. \<forall>j \<ge> i. drained (pl_bus (scheduled example_bench in_turn j backlog_pipeline)))"
proof
  show "\<not> drained (pl_bus backlog_pipeline)"
    by (simp add: drained_def backlog_pipeline_def example_backlog_def) code_simp
  have "bus_inv (pl_bus backlog_pipeline)"
    by (simp add: backlog_pipeline_def example_backlog_def bus_inv_publish bus_inv_receive bus_inv_init)
  from pipeline_quiesces [OF this in_turn_fair, of example_bench]
  show "\<exists>i. \<forall>j \<ge> i. drained (pl_bus (scheduled example_bench in_turn j backlog_pipeline))" by blast
qed

end
