(* ===== verification/Scripts.thy ===== *)
theory Scripts
  imports Schema ServiceBus TimeSeries Config "HOL-Library.Char_ord" "HOL-Library.List_Lexorder"
begin

text \<open>
  The command-line tools \<open>scripts/seed_market_data.py\<close> and \<open>scripts/sb_peek.py\<close>: the sample events
  published to the raw topic, the choice of a subscription from the emulator's topology file,
  the peek, the refusal of the in-memory placeholder, and the release of the bus in a
  \<open>finally\<close>.  The command lines are in the theory Cli; the log lines are not modelled.
\<close>

section \<open>The bus of a script\<close>

text \<open>\<open>connection_string or settings.service_bus_connection_string\<close>, and the bus it selects.\<close>

definition resolved_connection :: "string option \<Rightarrow> settings \<Rightarrow> string option" where
  "resolved_connection connection st =
     (case connection of Some t \<Rightarrow> if t = [] then st_service_bus st else Some t | None \<Rightarrow> st_service_bus st)"

definition script_bus :: "string option \<Rightarrow> settings \<Rightarrow> backend" where
  "script_bus connection st = get_message_bus (st\<lparr>st_service_bus := resolved_connection connection st\<rparr>)"

record 'x script_env =
  sc_lib :: pylib
  sc_azure :: "'x azure"
  sc_json :: json_lib
  sc_settings :: settings

text \<open>The state of either bus; a script uses the one it selected.\<close>

record 'x script_state =
  sp_inmem :: inmem_bus
  sp_remote :: "'x service_bus"

definition on_inmem :: "(inmem_bus, 'a) pm \<Rightarrow> ('x script_state, 'a) pm" where
  "on_inmem = zoomM sp_inmem (\<lambda>b s. s\<lparr>sp_inmem := b\<rparr>)"

definition on_remote :: "('x service_bus, 'a) pm \<Rightarrow> ('x script_state, 'a) pm" where
  "on_remote = zoomM sp_remote (\<lambda>b s. s\<lparr>sp_remote := b\<rparr>)"

definition script_publish ::
  "'x script_env \<Rightarrow> backend \<Rightarrow> string \<Rightarrow> pyval \<Rightarrow> string option \<Rightarrow> string option \<Rightarrow> ('x script_state, unit) pm" where
  "script_publish env b topic payload mid corr =
     (case b of InMemory \<Rightarrow> on_inmem (ib_publish topic payload mid corr)
      | Remote _ \<Rightarrow> on_remote (sb_publish (sc_azure env) (sc_json env) topic payload mid corr))"

text \<open>\<open>getattr(bus, "close", None)\<close>: the in-memory bus has none.\<close>

definition script_close :: "'x script_env \<Rightarrow> backend \<Rightarrow> ('x script_state, unit) pm" where
  "script_close env b = (case b of InMemory \<Rightarrow> returnM () | Remote _ \<Rightarrow> on_remote (sb_close (sc_azure env)))"

definition placeholder_refused :: string where
  "placeholder_refused = ''SERVICE_BUS_CONNECTION_STRING resolves to the in-memory placeholder; ''
     @ ''start compose or pass --connection-string for the Service Bus emulator.''"

section \<open>Sample events\<close>

definition SEED_SYMBOLS :: "string list" where "SEED_SYMBOLS = [''BTCUSDT'', ''ETHUSDT'', ''SOLUSDT'']"

definition parse_base_ts :: "pylib \<Rightarrow> string \<Rightarrow> datetime result" where
  "parse_base_ts lib v = (case parse_iso lib (replace_char (CHR ''Z'') ''+00:00'' v) of
       None \<Rightarrow> Inl (ValueError (''Invalid isoformat string: '' @ repr_of lib (PStr (replace_char (CHR ''Z'') ''+00:00'' v))))
     | Some d \<Rightarrow> Inr (if dt_offset d = None then d\<lparr>dt_offset := Some 0\<rparr> else d))"

text \<open>The symbols of the command line, stripped, in upper case, without blank ones.\<close>

definition cli_symbols :: "string list option \<Rightarrow> string list" where
  "cli_symbols symbols =
     map (\<lambda>s. str_upper (str_strip s))
       (filter (\<lambda>s. str_strip s \<noteq> []) (case symbols of None \<Rightarrow> SEED_SYMBOLS | Some ss \<Rightarrow> if ss = [] then SEED_SYMBOLS else ss))"

definition seed_prices :: "(string \<times> real) list" where
  "seed_prices = [(''BTCUSDT'', 42000), (''ETHUSDT'', 2250), (''ETHUSD'', 2250), (''SOLUSDT'', 110)]"

definition seed_pattern :: "real list" where
  "seed_pattern = [0, 3 / 2, 3, 6, 12, 24, 8, 28]"

definition seed_message_id :: "string \<Rightarrow> nat \<Rightarrow> string" where
  "seed_message_id run i = ''seed-'' @ run @ ''-'' @ pad_left 4 (nat_digits i)"

record seed_plan =
  sd_symbols :: "string list"
  sd_base :: datetime
  sd_run :: string
  sd_source :: string

definition seed_symbol :: "seed_plan \<Rightarrow> nat \<Rightarrow> string" where
  "seed_symbol pl i = str_upper (str_strip (sd_symbols pl ! (i mod length (sd_symbols pl))))"

definition seed_event :: "seed_plan \<Rightarrow> nat \<Rightarrow> market_event result" where
  "seed_event pl i =
     (if sd_symbols pl = [] then Inl (ZeroDivisionError ''integer modulo by zero'')
      else let symbol = seed_symbol pl i;
               base = (case map_of seed_prices symbol of None \<Rightarrow> 100 | Some p \<Rightarrow> p);
               price = base + real (i div length (sd_symbols pl)) * (9 / 4) + seed_pattern ! (i mod length seed_pattern);
               mid = seed_message_id (sd_run pl) i
           in Inr \<lparr>event_id = ''ev-'' @ mid,
                   event_ts = (sd_base pl)\<lparr>dt_local := dt_local (sd_base pl) + int i * 1000000\<rparr>,
                   correlation_id = Some (''corr-'' @ mid), trace_id = Some (''trace-'' @ mid),
                   me_symbol = symbol, me_source = sd_source pl @ ''.'' @ sd_run pl, me_type = ''trade'',
                   me_price = py_round 4 price, me_volume = Some (py_round 4 (1 + real (i mod 5) * (1 / 10))),
                   me_bid = Some (py_round 4 (price - 1 / 4)), me_ask = Some (py_round 4 (price + 1 / 4))\<rparr>)"

text \<open>The loop, with the symbols published so far; the payload's ones are the event's.\<close>

fun publish_seeds :: "'x script_env \<Rightarrow> backend \<Rightarrow> seed_plan \<Rightarrow> nat list \<Rightarrow> string list \<Rightarrow> ('x script_state, string list) pm" where
  "publish_seeds env b pl [] published = returnM published"
| "publish_seeds env b pl (i # is) published =
     bindM (liftR (seed_event pl i)) (\<lambda>ev.
     thenM (script_publish env b TOPIC_MARKET_RAW (market_dump (sc_lib env) ev) (Some (seed_message_id (sd_run pl) i))
              (correlation_id ev))
       (publish_seeds env b pl is (me_symbol ev # published)))"

definition publish_seed_data ::
  "'x script_env \<Rightarrow> nat \<Rightarrow> seed_plan \<Rightarrow> string option \<Rightarrow> bool \<Rightarrow> ('x script_state, string list) pm" where
  "publish_seed_data env events pl connection allow_offline =
     (if sd_symbols pl = [] then raiseM (ValueError ''at least one symbol is required'')
      else let b = script_bus connection (sc_settings env) in
        finallyM
          (if b = InMemory \<and> \<not> allow_offline then raiseM (RuntimeError placeholder_refused)
           else bindM (publish_seeds env b pl [0..<events] []) (\<lambda>published. returnM (sort (remdups published))))
          (script_close env b))"

section \<open>The topology file\<close>

text \<open>
  The operations the loader applies to whatever the file holds: \<open>v.get(k, d)\<close>, \<open>v[k]\<close>,
  \<open>v[0]\<close> and iteration.  The texts of the interpreter's own errors are abridged.
\<close>

fun call_get :: "pyval \<Rightarrow> string \<Rightarrow> pyval \<Rightarrow> pyval result" where
  "call_get (PDict d) k v = Inr (dget_or d k v)"
| "call_get _ k v = Inl (AttributeError ''object has no attribute get'')"

fun subscript :: "pyval \<Rightarrow> string \<Rightarrow> pyval result" where
  "subscript (PDict d) k = (case map_of d k of None \<Rightarrow> Inl (KeyError k) | Some v \<Rightarrow> Inr v)"
| "subscript _ k = Inl (TypeError ''object is not subscriptable by a string'')"

fun first_item :: "pyval \<Rightarrow> pyval result" where
  "first_item (PList (v # _)) = Inr v"
| "first_item (PList []) = Inl (IndexError ''list index out of range'')"
| "first_item (PStr (c # _)) = Inr (PStr [c])"
| "first_item (PStr []) = Inl (IndexError ''string index out of range'')"
| "first_item (PDict _) = Inl (KeyError ''0'')"
| "first_item _ = Inl (TypeError ''object is not subscriptable'')"

fun items_of :: "pyval \<Rightarrow> pyval list result" where
  "items_of (PList vs) = Inr vs"
| "items_of (PStr s) = Inr (map (\<lambda>c. PStr [c]) s)"
| "items_of (PDict d) = Inr (map (\<lambda>(k, _). PStr k) d)"
| "items_of _ = Inl (TypeError ''object is not iterable'')"

definition topic_entry :: "pyval \<Rightarrow> (pyval \<times> pyval list) result" where
  "topic_entry topic =
     bindR (call_get topic ''Subscriptions'' (PList [])) (\<lambda>subs.
     bindR (items_of subs) (\<lambda>items.
     bindR (mapR (\<lambda>item. subscript item ''Name'') items) (\<lambda>names.
     bindR (subscript topic ''Name'') (\<lambda>name.
       if hashable name then Inr (name, names) else Inl (TypeError ''unhashable type'')))))"

definition load_topic_subscriptions :: "pyval \<Rightarrow> (pyval, pyval list) dict result" where
  "load_topic_subscriptions config =
     bindR (call_get config ''UserConfig'' (PDict [])) (\<lambda>user.
     bindR (call_get user ''Namespaces'' (PList [])) (\<lambda>namespaces.
       if \<not> truthy namespaces then Inr []
       else bindR (first_item namespaces) (\<lambda>ns.
            bindR (call_get ns ''Topics'' (PList [])) (\<lambda>topics.
            bindR (items_of topics) (\<lambda>items.
            bindR (mapR topic_entry items) (\<lambda>entries.
              Inr (fold (\<lambda>(k, v) d. dict_set d k v) entries [])))))))"

definition DEFAULT_SUBSCRIPTION_PREFERENCE :: "string list" where
  "DEFAULT_SUBSCRIPTION_PREFERENCE = [''api'', ''api-ws'', ''stream'', ''alerting'', ''ai'']"

definition in_quotes :: "string \<Rightarrow> string" where "in_quotes s = CHR 0x27 # s @ [CHR 0x27]"

definition resolve_subscription :: "string \<Rightarrow> string option \<Rightarrow> string \<Rightarrow> pyval \<Rightarrow> pyval result" where
  "resolve_subscription topic requested path config =
     (case requested of
        Some (c # cs) \<Rightarrow> Inr (PStr (c # cs))
      | _ \<Rightarrow> bindR (load_topic_subscriptions config) (\<lambda>declared.
          case map_of declared (PStr topic) of
            Some (first # others) \<Rightarrow>
              (case find (\<lambda>s. PStr s \<in> set (first # others)) DEFAULT_SUBSCRIPTION_PREFERENCE of
                 Some s \<Rightarrow> Inr (PStr s) | None \<Rightarrow> Inr first)
          | _ \<Rightarrow> Inl (ValueError (''Topic '' @ in_quotes topic @ '' has no subscriptions in '' @ path))))"

section \<open>Peeking\<close>

definition peek_messages ::
  "'x script_env \<Rightarrow> string \<Rightarrow> string \<Rightarrow> int \<Rightarrow> string option \<Rightarrow> bool \<Rightarrow> ('x script_state, sb_message list) pm" where
  "peek_messages env topic sub n connection allow_offline =
     (if n < 1 then raiseM (ValueError ''messages must be at least 1'')
      else let b = script_bus connection (sc_settings env) in
        finallyM
          (if b = InMemory then (if allow_offline then returnM [] else raiseM (RuntimeError placeholder_refused))
           else on_remote (sb_peek (sc_azure env) (sc_json env) topic sub n None))
          (script_close env b))"

end
