(* ===== verification/ScriptsProps.thy ===== *)
theory ScriptsProps
  imports Scripts ServiceBusProps BusContract
begin

text \<open>
  What the command-line tools guarantee: the sample events arrive once, in order and only where
  the caller asked for them, no script leaves a link open, and a topic's default subscription is
  one it declares.
\<close>

section \<open>Seeding the in-memory bus\<close>

lemma seed_message_id_inj: "seed_message_id run i = seed_message_id run j \<Longrightarrow> i = j"
  by (auto simp: seed_message_id_def dest: pad_left_digits_inj)

lemma seed_event_ok:
  "sd_symbols pl \<noteq> [] \<Longrightarrow> \<exists>ev. seed_event pl i = Inr ev \<and> me_symbol ev = seed_symbol pl i"
  by (simp add: seed_event_def Let_def)

lemma pick_seed: "pick_message_id (Some (seed_message_id run i)) b = (seed_message_id run i, b)"
  by (simp add: pick_message_id_def seed_message_id_def)

definition seeded :: "pylib \<Rightarrow> seed_plan \<Rightarrow> nat list \<Rightarrow> inmem_bus \<Rightarrow> inmem_bus \<Rightarrow> bool" where
  "seeded lib pl is b b' \<longleftrightarrow>
     (\<forall>sub q. queues b TOPIC_MARKET_RAW sub = Some q \<longrightarrow> (\<exists>ms. queues b' TOPIC_MARKET_RAW sub = Some (q @ ms) \<and>
        list_all2 (\<lambda>i m. msg_id m = seed_message_id (sd_run pl) i \<and>
          (\<exists>ev. seed_event pl i = Inr ev \<and> msg_body m = market_dump lib ev)) is ms)) \<and>
     seen_ids b' TOPIC_MARKET_RAW = seen_ids b TOPIC_MARKET_RAW \<union> seed_message_id (sd_run pl) ` set is"

lemma seededD:
  "seeded lib pl is b b' \<Longrightarrow> queues b TOPIC_MARKET_RAW sub = Some q \<Longrightarrow>
   \<exists>ms. queues b' TOPIC_MARKET_RAW sub = Some (q @ ms) \<and>
     list_all2 (\<lambda>i m. msg_id m = seed_message_id (sd_run pl) i \<and>
       (\<exists>ev. seed_event pl i = Inr ev \<and> msg_body m = market_dump lib ev)) is ms"
  by (simp add: seeded_def)

lemma publish_seed:
  assumes "seed_message_id (sd_run pl) i \<notin> seen_ids b TOPIC_MARKET_RAW" "seed_event pl i = Inr ev"
  shows "\<exists>b'. ib_publish TOPIC_MARKET_RAW (market_dump lib ev) (Some (seed_message_id (sd_run pl) i)) corr b = (Inr (), b') \<and>
    seeded lib pl [i] b b'"
  using assms by (auto simp: ib_publish_def pick_seed Let_def seeded_def)

lemma seeded_trans:
  assumes "seeded lib pl [i] b b1" "seeded lib pl is b1 b2"
  shows "seeded lib pl (i # is) b b2"
proof -
  have "\<exists>ms. queues b2 TOPIC_MARKET_RAW sub = Some (q @ ms) \<and> list_all2 (\<lambda>i m. msg_id m = seed_message_id (sd_run pl) i \<and>
      (\<exists>ev. seed_event pl i = Inr ev \<and> msg_body m = market_dump lib ev)) (i # is) ms"
    if q: "queues b TOPIC_MARKET_RAW sub = Some q" for sub q
  proof -
    from seededD [OF assms(1) q] obtain m where m: "queues b1 TOPIC_MARKET_RAW sub = Some (q @ [m])"
      "msg_id m = seed_message_id (sd_run pl) i" "\<exists>ev. seed_event pl i = Inr ev \<and> msg_body m = market_dump lib ev"
      by (auto simp: list_all2_Cons1)
    from seededD [OF assms(2) m(1)] obtain ms where ms: "queues b2 TOPIC_MARKET_RAW sub = Some ((q @ [m]) @ ms)"
      "list_all2 (\<lambda>i m. msg_id m = seed_message_id (sd_run pl) i \<and>
        (\<exists>ev. seed_event pl i = Inr ev \<and> msg_body m = market_dump lib ev)) is ms"
      by blast
    show ?thesis using m ms by (intro exI [of _ "m # ms"]) simp
  qed
  then show ?thesis using assms by (auto simp: seeded_def)
qed

lemma publish_seeds_new:
  assumes "sd_symbols pl \<noteq> []"
  shows "distinct is \<Longrightarrow> seed_message_id (sd_run pl) ` set is \<inter> seen_ids (sp_inmem s) TOPIC_MARKET_RAW = {} \<Longrightarrow>
    \<exists>b'. publish_seeds env InMemory pl is acc s = (Inr (rev (map (seed_symbol pl) is) @ acc), s\<lparr>sp_inmem := b'\<rparr>) \<and>
      seeded (sc_lib env) pl is (sp_inmem s) b'"
proof (induction "is" arbitrary: s acc)
  case Nil
  then show ?case by (intro exI [of _ "sp_inmem s"]) (simp add: returnM_def seeded_def)
next
  case (Cons i "is")
  obtain ev where ev: "seed_event pl i = Inr ev" "me_symbol ev = seed_symbol pl i" using seed_event_ok [OF assms] by blast
  have new: "seed_message_id (sd_run pl) i \<notin> seen_ids (sp_inmem s) TOPIC_MARKET_RAW" using Cons.prems by auto
  from publish_seed [OF new ev(1), of "sc_lib env" "correlation_id ev"] obtain b where
    b: "ib_publish TOPIC_MARKET_RAW (market_dump (sc_lib env) ev) (Some (seed_message_id (sd_run pl) i)) (correlation_id ev) (sp_inmem s)
      = (Inr (), b)" "seeded (sc_lib env) pl [i] (sp_inmem s) b" by blast
  have "seen_ids b TOPIC_MARKET_RAW = insert (seed_message_id (sd_run pl) i) (seen_ids (sp_inmem s) TOPIC_MARKET_RAW)"
    using b(2) by (simp add: seeded_def)
  then have "seed_message_id (sd_run pl) ` set is \<inter> seen_ids b TOPIC_MARKET_RAW = {}"
    using Cons.prems by (auto dest: seed_message_id_inj)
  with Cons.IH [of "s\<lparr>sp_inmem := b\<rparr>" "me_symbol ev # acc"] Cons.prems obtain b' where
    b': "publish_seeds env InMemory pl is (me_symbol ev # acc) (s\<lparr>sp_inmem := b\<rparr>)
      = (Inr (rev (map (seed_symbol pl) is) @ me_symbol ev # acc), s\<lparr>sp_inmem := b'\<rparr>)"
    "seeded (sc_lib env) pl is b b'" by auto
  show ?case using b b' ev seeded_trans [OF b(2) b'(2)]
    by (intro exI [of _ b'])
       (simp add: bindM_apply thenM_apply liftR_apply script_publish_def on_inmem_def zoomM_apply)
qed

lemma publish_seeds_again:
  assumes "sd_symbols pl \<noteq> []"
  shows "seed_message_id (sd_run pl) ` set is \<subseteq> seen_ids (sp_inmem s) TOPIC_MARKET_RAW \<Longrightarrow>
    publish_seeds env InMemory pl is acc s = (Inr (rev (map (seed_symbol pl) is) @ acc), s)"
proof (induction "is" arbitrary: acc)
  case (Cons i "is")
  obtain ev where ev: "seed_event pl i = Inr ev" "me_symbol ev = seed_symbol pl i" using seed_event_ok [OF assms] by blast
  have "ib_publish TOPIC_MARKET_RAW body (Some (seed_message_id (sd_run pl) i)) corr (sp_inmem s) = (Inr (), sp_inmem s)" for body corr
    using Cons.prems by (simp add: ib_publish_dup pick_seed)
  then show ?case using Cons ev
    by (simp add: bindM_apply thenM_apply liftR_apply script_publish_def on_inmem_def zoomM_apply)
qed (simp add: returnM_def)


section \<open>Releasing the links\<close>

lemma script_publish_keeps:
  assumes "azure_laws (sc_azure env) opened shut"
  shows "keeps (\<lambda>s. links_inv opened shut (sp_remote s)) (script_publish env (Remote url) t body mid corr)"
  using sb_do_keeps [OF assms, of "sc_json env" "PublishTo t body mid corr"]
  unfolding triple_keep by (simp add: script_publish_def on_remote_def zoomM_apply)

lemma publish_seeds_keeps:
  assumes "azure_laws (sc_azure env) opened shut"
  shows "keeps (\<lambda>s. links_inv opened shut (sp_remote s)) (publish_seeds env (Remote url) pl is acc)"
proof (induction "is" arbitrary: acc)
  case (Cons i "is")
  show ?case by (simp only: publish_seeds.simps) (intro keeps_rules script_publish_keeps assms Cons.IH)
qed (simp add: keeps_basic)

lemma peek_keeps:
  assumes "azure_laws (sc_azure env) opened shut"
  shows "keeps (\<lambda>s. links_inv opened shut (sp_remote s)) (on_remote (sb_peek (sc_azure env) jl topic sub n c))"
proof -
  have "keeps (links_inv opened shut) (sb_peek (sc_azure env) jl topic sub n c)"
  proof (unfold triple_keep, intro allI impI)
    fix x assume "links_inv opened shut x"
    then have "links_inv opened shut (snd (sb_do (sc_azure env) jl (PeekAt topic sub n c) x))"
      using sb_do_keeps [OF assms] unfolding triple_keep by blast
    then show "links_inv opened shut (snd (sb_peek (sc_azure env) jl topic sub n c x))"
      by (cases "fst (sb_peek (sc_azure env) jl topic sub n c x)") (simp_all add: thenM_apply returnM_def)
  qed
  then show ?thesis unfolding triple_keep by (simp add: on_remote_def zoomM_apply)
qed

lemma finally_closes:
  assumes "azure_laws (sc_azure env) opened shut" "links_inv opened shut (sp_remote s)"
    and "keeps (\<lambda>s. links_inv opened shut (sp_remote s)) m"
  shows "held (sp_remote (snd (finallyM m (script_close env (Remote url)) s))) = [] \<and>
    mset (shut (sb_client (sp_remote (snd (finallyM m (script_close env (Remote url)) s))))) =
    mset (opened (sb_client (sp_remote (snd (finallyM m (script_close env (Remote url)) s))))) \<and>
    fst (finallyM m (script_close env (Remote url)) s) = fst (m s)"
proof -
  have "links_inv opened shut (sp_remote (snd (m s)))" using assms(2,3) unfolding triple_keep by blast
  from sb_close_releases [OF assms(1) this] obtain s' where
    "sb_close (sc_azure env) (sp_remote (snd (m s))) = (Inr (), s')" "held s' = []"
    "mset (shut (sb_client s')) = mset (opened (sb_client s'))" by blast
  then show ?thesis by (simp add: finallyM_def script_close_def on_remote_def zoomM_apply split_beta)
qed

text \<open>
  No script leaks a link: whatever the client and the JSON library do on the way, seeding and
  peeking on a Service Bus return or raise as their body did, with every link that was opened
  closed again.
\<close>

theorem scripts_release_links:
  fixes s :: "'x script_state"
  assumes "azure_laws (sc_azure env) opened shut" "links_inv opened shut (sp_remote s)"
    and "script_bus connection (sc_settings env) = Remote url" "sd_symbols pl \<noteq> []" "1 \<le> k"
  shows "(\<exists>r s1. publish_seed_data env n pl connection allow s = (r, s1) \<and> held (sp_remote s1) = [] \<and>
      mset (shut (sb_client (sp_remote s1))) = mset (opened (sb_client (sp_remote s1)))) \<and>
    (\<exists>r s1. peek_messages env topic sub k connection allow s = (r, s1) \<and> held (sp_remote s1) = [] \<and>
      mset (shut (sb_client (sp_remote s1))) = mset (opened (sb_client (sp_remote s1))))"
proof -
  have seed: "keeps (\<lambda>s. links_inv opened shut (sp_remote s))
      (bindM (publish_seeds env (Remote url) pl [0..<n] []) (\<lambda>published. returnM (sort (remdups published))))"
    by (intro keeps_rules publish_seeds_keeps assms(1))
  have peek: "keeps (\<lambda>s. links_inv opened shut (sp_remote s)) (on_remote (sb_peek (sc_azure env) (sc_json env) topic sub k None))"
    by (rule peek_keeps [OF assms(1)])
  show ?thesis
    using finally_closes [OF assms(1,2) seed, of url] finally_closes [OF assms(1,2) peek, of url] assms(3-5)
    by (simp add: publish_seed_data_def peek_messages_def Let_def prod_eq_iff)
qed

section \<open>The topology file\<close>

definition topology_json :: "(string \<times> string list) list \<Rightarrow> pyval" where
  "topology_json topics = PDict [(''UserConfig'', PDict [(''Namespaces'', PList [PDict [(''Topics'',
     PList (map (\<lambda>(t, subs). PDict [(''Name'', PStr t), (''Subscriptions'', PList (map (\<lambda>x. PDict [(''Name'', PStr x)]) subs))]) topics))]])])]"

lemma mapR_map_Inr: "(\<And>x. x \<in> set xs \<Longrightarrow> f (g x) = Inr (h x)) \<Longrightarrow> mapR f (map g xs) = Inr (map h xs)"
  by (induction xs) simp_all

lemma fold_dict_set_distinct:
  "distinct (map fst d @ map fst entries) \<Longrightarrow> fold (\<lambda>(k, v) d. dict_set d k v) entries d = d @ entries"
proof (induction entries arbitrary: d)
  case (Cons e entries)
  then show ?case by (simp add: split_beta dict_set_new)
qed simp

lemma topology_loads:
  assumes "distinct (map fst topics)"
  shows "load_topic_subscriptions (topology_json topics) = Inr (map (\<lambda>(t, subs). (PStr t, map PStr subs)) topics)"
proof -
  have names: "mapR (\<lambda>item. subscript item ''Name'') (map (\<lambda>x. PDict [(''Name'', PStr x)]) subs) = Inr (map PStr subs)" for subs
    by (rule mapR_map_Inr) simp
  have "mapR topic_entry (map (\<lambda>(t, subs). PDict [(''Name'', PStr t), (''Subscriptions'', PList (map (\<lambda>x. PDict [(''Name'', PStr x)]) subs))]) topics)
    = Inr (map (\<lambda>(t, subs). (PStr t, map PStr subs)) topics)"
    by (rule mapR_map_Inr) (auto simp: topic_entry_def dget_or_def names)
  moreover have "distinct (map fst ([] :: (pyval \<times> pyval list) list) @ map fst (map (\<lambda>(t, subs). (PStr t, map PStr subs)) topics))"
    using assms distinct_map [of PStr "map fst topics"] by (simp add: split_beta comp_def inj_on_def)
  then have "fold (\<lambda>(k, v) d. dict_set d k v) (map (\<lambda>(t, subs). (PStr t, map PStr subs)) topics) [] =
      map (\<lambda>(t, subs). (PStr t, map PStr subs)) topics"
    by (subst fold_dict_set_distinct) simp_all
  ultimately show ?thesis by (simp add: load_topic_subscriptions_def topology_json_def dget_or_def)
qed

text \<open>
  The default subscription of a peek: for a topology that declares the topic with some
  subscriptions the choice is one of them, the API's when it is declared, and a topic without
  subscriptions is refused; a requested one is taken as it is.
\<close>

theorem default_subscription:
  assumes "distinct (map fst topics)" "map_of topics topic = Some subs" "subs \<noteq> []"
  shows "\<exists>sub. resolve_subscription topic None path (topology_json topics) = Inr (PStr sub) \<and> sub \<in> set subs \<and>
    (sub = ''api'' \<longleftrightarrow> ''api'' \<in> set subs \<or> hd subs = ''api'') \<and>
    resolve_subscription topic (Some []) path (topology_json topics) = Inr (PStr sub)"
proof -
  have found: "map_of (map (\<lambda>(t, subs). (PStr t, map PStr subs)) topics) (PStr topic) = Some (map PStr subs)"
    using assms(2) by (induction topics) (auto split: if_splits)
  obtain a as where subs: "subs = a # as" using assms(3) by (cases subs) auto
  let ?choice = "List.find (\<lambda>s. s \<in> set subs) DEFAULT_SUBSCRIPTION_PREFERENCE"
  have mem: "(\<lambda>s. PStr s \<in> set (PStr a # map PStr as)) = (\<lambda>s. s \<in> set subs)" by (auto simp: subs)
  have run: "requested = None \<or> requested = Some [] \<Longrightarrow> resolve_subscription topic requested path (topology_json topics) =
      Inr (PStr (case ?choice of Some s \<Rightarrow> s | None \<Rightarrow> a))" for requested
    using found mem unfolding resolve_subscription_def topology_loads [OF assms(1)] subs
    by (auto simp del: list.set split: option.split)
  have "(case ?choice of Some s \<Rightarrow> s | None \<Rightarrow> a) \<in> set subs"
    by (auto simp: find_Some_iff subs split: option.split)
  moreover have "(case ?choice of Some s \<Rightarrow> s | None \<Rightarrow> a) = ''api'' \<longleftrightarrow> ''api'' \<in> set subs \<or> hd subs = ''api''"
    by (auto simp: DEFAULT_SUBSCRIPTION_PREFERENCE_def subs)
  ultimately show ?thesis using run by blast
qed

section \<open>Witnesses\<close>

definition example_plan :: seed_plan where
  "example_plan = \<lparr>sd_symbols = ['' btcusdt'', ''ETHUSDT''], sd_base = utc_datetime 0, sd_run = ''r1'', sd_source = ''seed.local''\<rparr>"

definition example_script :: "(nat list \<times> nat list) script_env" where
  "example_script = \<lparr>sc_lib = null_lib, sc_azure = loopback, sc_json = braces_lib, sc_settings = default_settings\<rparr>"

definition example_scripts :: "(nat list \<times> nat list) script_state" where
  "example_scripts = \<lparr>sp_inmem = snd (ib_receive TOPIC_MARKET_RAW ''stream'' 0 (inmem_bus_init (\<lambda>_. ''u''))),
     sp_remote = sb_init (\<lambda>_. ''u'') ([], [])\<rparr>"


theorem scripts_release_links_witness:
  "\<exists>r s1. publish_seed_data (example_script\<lparr>sc_settings := default_settings\<lparr>st_service_bus := Some ''Endpoint=sb://x''\<rparr>\<rparr>)
       3 example_plan None False example_scripts = (r, s1) \<and> held (sp_remote s1) = []"
proof -
  let ?env = "example_script\<lparr>sc_settings := default_settings\<lparr>st_service_bus := Some ''Endpoint=sb://x''\<rparr>\<rparr>"
  have laws: "azure_laws (sc_azure ?env) fst snd" by (simp add: example_script_def loopback_laws)
  have inv: "links_inv fst snd (sp_remote example_scripts)"
    by (simp add: links_inv_def example_scripts_def sb_init_def held_def dict_ok_def)
  have url: "script_bus None (sc_settings ?env) = Remote ''Endpoint=sb://x''" by code_simp
  have "sd_symbols example_plan \<noteq> []" "1 \<le> (1 :: int)" by (simp_all add: example_plan_def)
  from scripts_release_links [OF laws inv url this, of 3 False] show ?thesis by blast
qed

theorem default_subscription_witness:
  "\<exists>sub. resolve_subscription ''alerts'' None ''servicebus-config.json'' (topology_json [(''alerts'', [''ai'', ''api''])])
     = Inr (PStr sub) \<and> sub = ''api''"
proof -
  have "distinct (map fst [(''alerts'', [''ai'', ''api''])])" "map_of [(''alerts'', [''ai'', ''api''])] ''alerts'' = Some [''ai'', ''api'']"
    "[''ai'', ''api''] \<noteq> []" by simp_all
  from default_subscription [OF this, of "''servicebus-config.json''"] show ?thesis by auto
qed

end
