(* ===== verification/Smoke.thy ===== *)
theory Smoke
  imports ServiceBus LiveStreamProps ApiProps ChunkingProps
begin

text \<open>
  \<open>scripts/ws_smoke.py\<close>: connect to the API's websocket, subscribe, log the acknowledgement and
  the first live messages.  The websockets client is a parameter.  The lemmas show that the
  command the script sends is one the model of the API's endpoint accepts, for the canonical
  form of the symbols, and that the script closes its connection however it ends.
\<close>

section \<open>The script\<close>

record 'w ws_client =
  wc_connect :: "string \<Rightarrow> ('w, unit) pm"
  wc_send :: "string \<Rightarrow> ('w, unit) pm"
  wc_recv :: "real \<Rightarrow> ('w, string) pm"
  wc_close :: "('w, unit) pm"

text \<open>The socket and what was logged: event and payload.\<close>

record 'w smoke =
  sk_socket :: 'w
  sk_log :: "(string \<times> string) list"

definition on_socket :: "('w, 'x) pm \<Rightarrow> ('w smoke, 'x) pm" where
  "on_socket = zoomM sk_socket (\<lambda>w s. s\<lparr>sk_socket := w\<rparr>)"

definition smoke_log :: "string \<Rightarrow> string \<Rightarrow> ('w smoke, unit) pm" where
  "smoke_log event payload = modifyM (\<lambda>s. s\<lparr>sk_log := sk_log s @ [(event, payload)]\<rparr>)"

definition build_subscribe_payload :: "string list \<Rightarrow> pydict" where
  "build_subscribe_payload symbols =
     [(''action'', PStr ''subscribe''),
      (''symbols'', PList (map (\<lambda>s. PStr (str_upper (str_strip s))) (filter (\<lambda>s. str_strip s \<noteq> []) symbols)))]"

definition json_text :: "json_lib \<Rightarrow> pyval \<Rightarrow> string result" where
  "json_text jl v = (case dumps jl v of Inl t \<Rightarrow> Inl (TypeError t) | Inr s \<Rightarrow> Inr s)"

definition smoke_message :: "'w ws_client \<Rightarrow> real \<Rightarrow> ('w smoke, unit) pm" where
  "smoke_message wc timeout = bindM (on_socket (wc_recv wc timeout)) (\<lambda>message. smoke_log ''ws_smoke.message'' message)"

definition run_smoke :: "'w ws_client \<Rightarrow> json_lib \<Rightarrow> string \<Rightarrow> string list \<Rightarrow> int \<Rightarrow> real \<Rightarrow> ('w smoke, unit) pm" where
  "run_smoke wc jl url symbols messages timeout =
     (if messages < 1 then raiseM (ValueError ''messages must be at least 1'')
      else thenM (on_socket (wc_connect wc url))
        (finallyM
          (bindM (liftR (json_text jl (PDict (build_subscribe_payload symbols)))) (\<lambda>text.
           thenM (on_socket (wc_send wc text))
           (bindM (on_socket (wc_recv wc timeout)) (\<lambda>ack.
           thenM (smoke_log ''ws_smoke.subscribed'' ack)
             (for_each (\<lambda>_. smoke_message wc timeout) [0..<nat messages])))))
          (on_socket (wc_close wc))))"

section \<open>The payload is what the API subscribes to\<close>

lemma upper_space: "is_space (upper_char c) = is_space c"
  unfolding is_space_def chars_between_def upper_char_code by auto

lemma strip_upper: "str_strip (str_upper s) = str_upper (str_strip s)"
  by (simp add: str_strip_def str_upper_def str_lstrip_def str_rstrip_def dropWhile_map comp_def upper_space rev_map)

lemma upper_upper: "upper_char (upper_char c) = upper_char c"
proof -
  have "\<not> chars_between 97 122 (upper_char c)" unfolding chars_between_def upper_char_code by auto
  then show ?thesis by (simp add: upper_char_def [of "upper_char c"])
qed

lemma canonical_again: "sorted_symbols (map (\<lambda>s. str_upper (str_strip s)) (filter (\<lambda>s. str_strip s \<noteq> []) symbols)) = sorted_symbols symbols"
proof -
  have same: "str_upper (str_strip (str_upper (str_strip s))) = str_upper (str_strip s)" for s
    by (simp only: strip_upper strip_idem) (simp add: str_upper_def upper_upper)
  have ne: "str_strip (str_upper (str_strip s)) \<noteq> []" if "str_strip s \<noteq> []" for s
    using that by (simp only: strip_upper strip_idem) (simp add: str_upper_def)
  have "filter (\<lambda>s. str_strip s \<noteq> []) (map (\<lambda>s. str_upper (str_strip s)) (filter (\<lambda>s. str_strip s \<noteq> []) symbols)) =
      map (\<lambda>s. str_upper (str_strip s)) (filter (\<lambda>s. str_strip s \<noteq> []) symbols)"
    by (rule filter_True) (auto simp: ne)
  then show ?thesis by (simp add: sorted_symbols_def comp_def same)
qed

lemma payload_subscribes:
  assumes "map_of (br_subscribers br) cid = Some sb" "length symbols \<le> 50" "sorted_symbols symbols \<noteq> []"
  shows "\<exists>br'. ws_command detail cid (WsJson (PDict (build_subscribe_payload symbols))) br =
      (Inr (subscribed_frame (sorted_symbols symbols)), br') \<and>
    map_of (br_subscribers br') cid = Some (sb\<lparr>sb_symbols := set (sorted_symbols symbols)\<rparr>)"
proof -
  let ?sent = "map (\<lambda>s. str_upper (str_strip s)) (filter (\<lambda>s. str_strip s \<noteq> []) symbols)"
  have few: "length ?sent \<le> 50" using assms(2) length_filter_le [of "\<lambda>s. str_strip s \<noteq> []" symbols] by (simp del: length_filter_le)
  have some: "sorted_symbols ?sent \<noteq> []" unfolding canonical_again by (rule assms(3))
  have payload: "WsJson (PDict (build_subscribe_payload symbols)) =
      WsJson (PDict [(''action'', PStr ''subscribe''), (''symbols'', PList (map PStr ?sent))])"
    by (simp add: build_subscribe_payload_def comp_def)
  from subscribe_replies [OF assms(1) few some payload, of detail, unfolded canonical_again] show ?thesis by blast
qed

section \<open>The end of the connection\<close>

text \<open>Once connected the script ends by closing the socket, whatever was raised before.\<close>

lemma smoke_closes:
  assumes "1 \<le> messages" "wc_connect wc url (sk_socket s) = (Inr (), w)"
  shows "\<exists>t. snd (run_smoke wc jl url symbols messages timeout s) = snd (on_socket (wc_close wc) t)"
  using assms
  by (auto simp: run_smoke_def thenM_apply on_socket_def zoomM_apply finallyM_def split: prod.split sum.split)

end
