(* ===== verification/Cli.thy ===== *)
theory Cli
  imports Scripts Smoke Pipeline
begin

text \<open>
  The command lines of the scripts and of the dead-letter replay: the options each
  \<open>build_parser\<close> declares, read by a model of the part of \<open>argparse\<close> they use (positional
  arguments with choices, options with a value, appending options and switches, the spellings
  \<open>--name value\<close>, \<open>--name=value\<close>, \<open>-n value\<close>, \<open>-nvalue\<close> and unique abbreviations), and what each
  \<open>main\<close> does with them.  A \<open>main\<close> returns the exit status of the process: a command line that
  is refused ends it with 2, a request for help with 0.
\<close>

section \<open>Arguments\<close>

datatype arg_type = AsStr | AsInt | AsPositiveInt | AsFloat

datatype arg_action = Store arg_type | Append | StoreTrue | ShowHelp

datatype arg_value = NoArg | StrArg string | IntArg int | FloatArg real | BoolArg bool | ListArg "string list"

text \<open>An argument without flags is positional; without choices any value will do.\<close>

record arg_spec =
  ar_flags :: "string list"
  ar_dest :: string
  ar_action :: arg_action
  ar_choices :: "string list"
  ar_required :: bool
  ar_default :: arg_value

definition positional :: "string \<Rightarrow> string list \<Rightarrow> arg_spec" where
  "positional dest choices =
     \<lparr>ar_flags = [], ar_dest = dest, ar_action = Store AsStr, ar_choices = choices, ar_required = True, ar_default = NoArg\<rparr>"

definition option_arg :: "string list \<Rightarrow> string \<Rightarrow> arg_action \<Rightarrow> arg_value \<Rightarrow> arg_spec" where
  "option_arg flags dest action d =
     \<lparr>ar_flags = flags, ar_dest = dest, ar_action = action, ar_choices = [], ar_required = False, ar_default = d\<rparr>"

definition help_arg :: arg_spec where
  "help_arg = option_arg [''-h'', ''--help''] ''help'' ShowHelp NoArg"

datatype cli_exit = Usage string | Help

definition arg_name :: "arg_spec \<Rightarrow> string" where
  "arg_name sp = (if ar_flags sp = [] then ar_dest sp else str_join ''/'' (ar_flags sp))"

definition arg_error :: "arg_spec \<Rightarrow> string \<Rightarrow> cli_exit" where
  "arg_error sp problem = Usage (''argument '' @ arg_name sp @ '': '' @ problem)"

section \<open>Values\<close>

text \<open>\<open>type=_positive_int\<close>: \<open>int(value)\<close> and its lower bound.\<close>

definition positive_int :: "arg_spec \<Rightarrow> string \<Rightarrow> cli_exit + arg_value" where
  "positive_int sp v = (case parse_int v of
       None \<Rightarrow> Inl (arg_error sp (''invalid _positive_int value: '' @ in_quotes v))
     | Some n \<Rightarrow> if n < 1 then Inl (arg_error sp ''value must be at least 1'') else Inr (IntArg n))"

definition convert :: "(string \<Rightarrow> real option) \<Rightarrow> arg_spec \<Rightarrow> arg_type \<Rightarrow> string \<Rightarrow> cli_exit + arg_value" where
  "convert tf sp t v = (case t of
       AsStr \<Rightarrow> Inr (StrArg v)
     | AsInt \<Rightarrow> (case parse_int v of None \<Rightarrow> Inl (arg_error sp (''invalid int value: '' @ in_quotes v)) | Some n \<Rightarrow> Inr (IntArg n))
     | AsPositiveInt \<Rightarrow> positive_int sp v
     | AsFloat \<Rightarrow> (case tf v of None \<Rightarrow> Inl (arg_error sp (''invalid float value: '' @ in_quotes v)) | Some x \<Rightarrow> Inr (FloatArg x)))"

type_synonym namespace = "(string, arg_value) dict"

definition appended :: "arg_value option \<Rightarrow> string \<Rightarrow> arg_value" where
  "appended old v = (case old of Some (ListArg vs) \<Rightarrow> ListArg (vs @ [v]) | _ \<Rightarrow> ListArg [v])"

definition store_arg :: "(string \<Rightarrow> real option) \<Rightarrow> arg_spec \<Rightarrow> string \<Rightarrow> namespace \<Rightarrow> cli_exit + namespace" where
  "store_arg tf sp v ns = (case ar_action sp of
       Store t \<Rightarrow> (case convert tf sp t v of
           Inl e \<Rightarrow> Inl e
         | Inr x \<Rightarrow> if ar_choices sp \<noteq> [] \<and> v \<notin> set (ar_choices sp)
                    then Inl (arg_error sp (''invalid choice: '' @ in_quotes v @ '' (choose from ''
                      @ str_join '', '' (map in_quotes (ar_choices sp)) @ '')''))
                    else Inr (dict_set ns (ar_dest sp) x))
     | Append \<Rightarrow> Inr (dict_set ns (ar_dest sp) (appended (map_of ns (ar_dest sp)) v))
     | StoreTrue \<Rightarrow> Inl (arg_error sp (''ignored explicit argument '' @ in_quotes v))
     | ShowHelp \<Rightarrow> Inl (arg_error sp (''ignored explicit argument '' @ in_quotes v)))"

section \<open>Words\<close>

datatype cli_word = Plain string | Flag arg_spec "string option" | UnknownFlag string | AmbiguousFlag string

fun split_equals :: "string \<Rightarrow> string \<times> string option" where
  "split_equals [] = ([], None)"
| "split_equals (c # cs) = (if c = CHR ''='' then ([], Some cs) else map_prod (Cons c) id (split_equals cs))"

definition all_flags :: "arg_spec list \<Rightarrow> (string \<times> arg_spec) list" where
  "all_flags specs = concat (map (\<lambda>sp. map (\<lambda>f. (f, sp)) (ar_flags sp)) specs)"

text \<open>The flags a word may abbreviate, with the value written into the word.\<close>

definition abbreviated :: "arg_spec list \<Rightarrow> string \<Rightarrow> (arg_spec \<times> string option) list" where
  "abbreviated specs s =
     (if starts_with ''--'' s
      then (case split_equals s of (p, v) \<Rightarrow> map (\<lambda>(f, sp). (sp, v)) (filter (\<lambda>(f, sp). starts_with p f) (all_flags specs)))
      else List.map_filter (\<lambda>(f, sp). if f = take 2 s then Some (sp, Some (drop 2 s))
             else if starts_with s f then Some (sp, None) else None) (all_flags specs))"

text \<open>\<open>-5\<close> and \<open>-.5\<close> are values, as no option looks like a number.\<close>

definition all_digits :: "string \<Rightarrow> bool" where
  "all_digits s = list_all (chars_between 48 57) s"

definition negative_number :: "string \<Rightarrow> bool" where
  "negative_number s = (case s of
       c # cs \<Rightarrow> c = CHR ''-'' \<and> (cs \<noteq> [] \<and> all_digits cs \<or>
         (case dropWhile (chars_between 48 57) cs of
            d # ds \<Rightarrow> d = CHR ''.'' \<and> ds \<noteq> [] \<and> all_digits ds | [] \<Rightarrow> False))
     | [] \<Rightarrow> False)"

definition classify :: "arg_spec list \<Rightarrow> string \<Rightarrow> cli_word" where
  "classify specs s =
     (if s = [] \<or> hd s \<noteq> CHR ''-'' then Plain s
      else case map_of (all_flags specs) s of
        Some sp \<Rightarrow> Flag sp None
      | None \<Rightarrow> if length s = 1 then Plain s
        else case (split_equals s, map_of (all_flags specs) (fst (split_equals s))) of
          ((_, Some v), Some sp) \<Rightarrow> Flag sp (Some v)
        | _ \<Rightarrow> (case abbreviated specs s of
            [(sp, v)] \<Rightarrow> Flag sp v
          | _ # _ # _ \<Rightarrow> AmbiguousFlag s
          | [] \<Rightarrow> if negative_number s \<or> CHR '' '' \<in> set s then Plain s else UnknownFlag s))"

text \<open>Everything after \<open>--\<close> is a value.\<close>

fun words_of :: "arg_spec list \<Rightarrow> string list \<Rightarrow> cli_word list" where
  "words_of specs [] = []"
| "words_of specs (s # ss) = (if s = ''--'' then map Plain ss else classify specs s # words_of specs ss)"

section \<open>Parsing\<close>

definition cli_finish :: "arg_spec list \<Rightarrow> arg_spec list \<Rightarrow> string list \<Rightarrow> string list \<Rightarrow> namespace \<Rightarrow> cli_exit + namespace" where
  "cli_finish specs open_args named extras ns =
     (let missing = open_args @ filter (\<lambda>sp. ar_flags sp \<noteq> [] \<and> ar_required sp \<and> ar_dest sp \<notin> set named) specs in
      if missing \<noteq> [] then Inl (Usage (''the following arguments are required: '' @ str_join '', '' (map arg_name missing)))
      else if extras \<noteq> [] then Inl (Usage (''unrecognized arguments: '' @ str_join '' '' extras))
      else Inr ns)"

fun consume :: "(string \<Rightarrow> real option) \<Rightarrow> arg_spec list \<Rightarrow> cli_word list \<Rightarrow> arg_spec list \<Rightarrow> string list \<Rightarrow> string list \<Rightarrow>
    namespace \<Rightarrow> cli_exit + namespace" where
  "consume tf specs [] open_args named extras ns = cli_finish specs open_args named extras ns"
| "consume tf specs (Plain v # ws) [] named extras ns = consume tf specs ws [] named (extras @ [v]) ns"
| "consume tf specs (Plain v # ws) (sp # open_args) named extras ns =
     (case store_arg tf sp v ns of Inl e \<Rightarrow> Inl e
      | Inr ns' \<Rightarrow> consume tf specs ws open_args (ar_dest sp # named) extras ns')"
| "consume tf specs (Flag sp (Some v) # ws) open_args named extras ns =
     (case store_arg tf sp v ns of Inl e \<Rightarrow> Inl e
      | Inr ns' \<Rightarrow> consume tf specs ws open_args (ar_dest sp # named) extras ns')"
| "consume tf specs (Flag sp None # ws) open_args named extras ns =
     (case ar_action sp of
        ShowHelp \<Rightarrow> Inl Help
      | StoreTrue \<Rightarrow> consume tf specs ws open_args (ar_dest sp # named) extras (dict_set ns (ar_dest sp) (BoolArg True))
      | _ \<Rightarrow> (case ws of
          Plain v # ws' \<Rightarrow> (case store_arg tf sp v ns of Inl e \<Rightarrow> Inl e
            | Inr ns' \<Rightarrow> consume tf specs ws' open_args (ar_dest sp # named) extras ns')
        | _ \<Rightarrow> Inl (arg_error sp ''expected one argument'')))"
| "consume tf specs (UnknownFlag s # ws) open_args named extras ns = consume tf specs ws open_args named (extras @ [s]) ns"
| "consume tf specs (AmbiguousFlag s # ws) open_args named extras ns = Inl (Usage (''ambiguous option: '' @ s))"

definition ambiguous :: "cli_word \<Rightarrow> bool" where
  "ambiguous w = (case w of AmbiguousFlag _ \<Rightarrow> True | _ \<Rightarrow> False)"

definition parse_args :: "(string \<Rightarrow> real option) \<Rightarrow> arg_spec list \<Rightarrow> string list \<Rightarrow> cli_exit + namespace" where
  "parse_args tf specs argv =
     (let ws = words_of (help_arg # specs) argv in
      case find ambiguous ws of
        Some (AmbiguousFlag s) \<Rightarrow> Inl (Usage (''ambiguous option: '' @ s))
      | _ \<Rightarrow> consume tf specs ws (filter (\<lambda>sp. ar_flags sp = []) specs) [] []
               (map (\<lambda>sp. (ar_dest sp, ar_default sp)) specs))"

text \<open>What a namespace holds under a name.\<close>

definition ns_str :: "namespace \<Rightarrow> string \<Rightarrow> string" where
  "ns_str ns d = (case map_of ns d of Some (StrArg s) \<Rightarrow> s | _ \<Rightarrow> [])"

definition ns_opt_str :: "namespace \<Rightarrow> string \<Rightarrow> string option" where
  "ns_opt_str ns d = (case map_of ns d of Some (StrArg s) \<Rightarrow> Some s | _ \<Rightarrow> None)"

definition ns_int :: "namespace \<Rightarrow> string \<Rightarrow> int" where
  "ns_int ns d = (case map_of ns d of Some (IntArg n) \<Rightarrow> n | _ \<Rightarrow> 0)"

definition ns_float :: "namespace \<Rightarrow> string \<Rightarrow> real" where
  "ns_float ns d = (case map_of ns d of Some (FloatArg x) \<Rightarrow> x | _ \<Rightarrow> 0)"

definition ns_bool :: "namespace \<Rightarrow> string \<Rightarrow> bool" where
  "ns_bool ns d = (map_of ns d = Some (BoolArg True))"

definition ns_list :: "namespace \<Rightarrow> string \<Rightarrow> string list option" where
  "ns_list ns d = (case map_of ns d of Some (ListArg vs) \<Rightarrow> Some vs | _ \<Rightarrow> None)"

text \<open>A command: the exit status it ends the process with.\<close>

definition with_args :: "(string \<Rightarrow> real option) \<Rightarrow> arg_spec list \<Rightarrow> string list \<Rightarrow> (namespace \<Rightarrow> ('s, unit) pm) \<Rightarrow> ('s, int) pm" where
  "with_args tf specs argv body = (case parse_args tf specs argv of
       Inl Help \<Rightarrow> returnM 0
     | Inl (Usage _) \<Rightarrow> returnM 2
     | Inr ns \<Rightarrow> thenM (body ns) (returnM 0))"

section \<open>scripts/ws_smoke.py\<close>

definition SMOKE_ARGS :: "arg_spec list" where
  "SMOKE_ARGS =
     [option_arg [''--url''] ''url'' (Store AsStr) (StrArg ''ws://127.0.0.1:8000/ws/stream''),
      option_arg [''--symbol''] ''symbols'' Append NoArg,
      option_arg [''--messages''] ''messages'' (Store AsInt) (IntArg 1),
      option_arg [''--timeout-seconds''] ''timeout_seconds'' (Store AsFloat) (FloatArg 15)]"

definition smoke_main :: "(string \<Rightarrow> real option) \<Rightarrow> 'w ws_client \<Rightarrow> json_lib \<Rightarrow> string list \<Rightarrow> ('w smoke, int) pm" where
  "smoke_main tf wc jl argv = with_args tf SMOKE_ARGS argv (\<lambda>ns.
     run_smoke wc jl (ns_str ns ''url'')
       (case ns_list ns ''symbols'' of Some (s # ss) \<Rightarrow> s # ss | _ \<Rightarrow> [''BTCUSDT''])
       (ns_int ns ''messages'') (ns_float ns ''timeout_seconds''))"

section \<open>scripts/bench.py\<close>

definition BENCH_ARGS :: "arg_spec list" where
  "BENCH_ARGS =
     [option_arg [''--events''] ''events'' (Store AsPositiveInt) (IntArg 100),
      (option_arg [''--output''] ''output'' (Store AsStr) NoArg)\<lparr>ar_required := True\<rparr>,
      option_arg [''--verbose''] ''verbose'' StoreTrue (BoolArg False)]"

definition BENCH_SYMBOLS :: "string list" where "BENCH_SYMBOLS = [''BTCUSDT'', ''ETHUSDT'', ''SOLUSDT'']"

record bench_options =
  bo_events :: nat
  bo_output :: string
  bo_symbols :: "string list"
  bo_log_level :: string

definition bench_options_of :: "namespace \<Rightarrow> bench_options" where
  "bench_options_of ns = \<lparr>bo_events = nat (ns_int ns ''events''), bo_output = ns_str ns ''output'', bo_symbols = BENCH_SYMBOLS,
     bo_log_level = (if ns_bool ns ''verbose'' then ''INFO'' else ''WARNING'')\<rparr>"

text \<open>Writing the report is the operating system's.\<close>

definition bench_main :: "(string \<Rightarrow> real option) \<Rightarrow> bench_env \<Rightarrow> (string \<Rightarrow> bench_report \<Rightarrow> (pipeline, unit) pm) \<Rightarrow>
    string list \<Rightarrow> (pipeline, int) pm" where
  "bench_main tf env write_result argv = with_args tf BENCH_ARGS argv (\<lambda>ns.
     let c = bench_options_of ns in
     bindM (run_benchmark env (bo_symbols c) (bo_events c)) (\<lambda>report. write_result (bo_output c) report))"

section \<open>scripts/sb_peek.py\<close>

definition PEEK_ARGS :: "string \<Rightarrow> arg_spec list" where
  "PEEK_ARGS config_path =
     [positional ''topic'' [],
      option_arg [''--subscription''] ''subscription'' (Store AsStr) NoArg,
      option_arg [''-n'', ''--messages''] ''messages'' (Store AsInt) (IntArg 3),
      option_arg [''--connection-string''] ''connection_string'' (Store AsStr) NoArg,
      option_arg [''--config-path''] ''config_path'' (Store AsStr) (StrArg config_path),
      option_arg [''--allow-offline''] ''allow_offline'' StoreTrue (BoolArg False)]"

text \<open>The topology file is read only when no subscription was asked for.\<close>

definition chosen_subscription :: "(string \<Rightarrow> pyval result) \<Rightarrow> string \<Rightarrow> string option \<Rightarrow> string \<Rightarrow> pyval result" where
  "chosen_subscription read_json topic requested path =
     (case requested of
        Some (c # cs) \<Rightarrow> resolve_subscription topic requested path PNone
      | _ \<Rightarrow> bindR (read_json path) (resolve_subscription topic requested path))"

definition peek_main :: "(string \<Rightarrow> real option) \<Rightarrow> 'x script_env \<Rightarrow> (string \<Rightarrow> pyval result) \<Rightarrow> string \<Rightarrow>
    string list \<Rightarrow> ('x script_state, int) pm" where
  "peek_main tf env read_json config_path argv = with_args tf (PEEK_ARGS config_path) argv (\<lambda>ns.
     bindM (liftR (chosen_subscription read_json (ns_str ns ''topic'') (ns_opt_str ns ''subscription'') (ns_str ns ''config_path''))) (\<lambda>sub.
     bindM (peek_messages env (ns_str ns ''topic'') (py_str (sc_lib env) sub) (ns_int ns ''messages'')
              (ns_opt_str ns ''connection_string'') (ns_bool ns ''allow_offline'')) (\<lambda>_. returnM ())))"

section \<open>scripts/seed_market_data.py\<close>

definition SEED_ARGS :: "arg_spec list" where
  "SEED_ARGS =
     [option_arg [''--events''] ''events'' (Store AsPositiveInt) (IntArg 15),
      option_arg [''--symbol''] ''symbols'' Append NoArg,
      option_arg [''--base-ts''] ''base_ts'' (Store AsStr) (StrArg ''2026-01-01T00:00:00+00:00''),
      option_arg [''--run-id''] ''run_id'' (Store AsStr) NoArg,
      option_arg [''--source-prefix''] ''source_prefix'' (Store AsStr) (StrArg ''seed.local''),
      option_arg [''--connection-string''] ''connection_string'' (Store AsStr) NoArg,
      option_arg [''--allow-offline''] ''allow_offline'' StoreTrue (BoolArg False)]"

text \<open>The stamp of the current time is a parameter.\<close>

definition seed_main :: "(string \<Rightarrow> real option) \<Rightarrow> 'x script_env \<Rightarrow> string \<Rightarrow> string list \<Rightarrow> ('x script_state, int) pm" where
  "seed_main tf env stamp argv = with_args tf SEED_ARGS argv (\<lambda>ns.
     bindM (liftR (parse_base_ts (sc_lib env) (ns_str ns ''base_ts''))) (\<lambda>base.
     bindM (publish_seed_data env (nat (ns_int ns ''events''))
              \<lparr>sd_symbols = cli_symbols (ns_list ns ''symbols''), sd_base = base,
               sd_run = (case ns_opt_str ns ''run_id'' of Some (c # cs) \<Rightarrow> c # cs | _ \<Rightarrow> stamp),
               sd_source = ns_str ns ''source_prefix''\<rparr>
              (ns_opt_str ns ''connection_string'') (ns_bool ns ''allow_offline'')) (\<lambda>_. returnM ())))"

section \<open>services/alerting/replay.py\<close>

definition REPLAY_ARGS :: "arg_spec list" where
  "REPLAY_ARGS =
     [positional ''topic'' [TOPIC_SIGNALS, TOPIC_INSIGHTS],
      option_arg [''--subscription''] ''subscription'' (Store AsStr) (StrArg ALERTING_SUBSCRIPTION),
      option_arg [''--suffix''] ''suffix'' (Store AsStr) (StrArg ''replay'')]"

definition replay_main :: "(string \<Rightarrow> real option) \<Rightarrow> 'b bus_ops \<Rightarrow> string list \<Rightarrow> ('b, int) pm" where
  "replay_main tf bus argv = with_args tf REPLAY_ARGS argv (\<lambda>ns.
     bindM (replay_dead_letters bus (ns_str ns ''topic'') (ns_str ns ''subscription'') (ns_str ns ''suffix''))
       (\<lambda>_. returnM ()))"

section \<open>What an accepted command line holds\<close>

text \<open>A value given for an argument, and that or the default.\<close>

definition supplied :: "arg_spec \<Rightarrow> arg_value \<Rightarrow> bool" where
  "supplied sp v = (case (ar_action sp, v) of
       (Store AsStr, StrArg s) \<Rightarrow> ar_choices sp = [] \<or> s \<in> set (ar_choices sp)
     | (Store AsInt, IntArg n) \<Rightarrow> True
     | (Store AsPositiveInt, IntArg n) \<Rightarrow> 1 \<le> n
     | (Store AsFloat, FloatArg x) \<Rightarrow> True
     | (Append, ListArg vs) \<Rightarrow> vs \<noteq> []
     | (StoreTrue, BoolArg b) \<Rightarrow> b
     | _ \<Rightarrow> False)"

definition valid_arg :: "string list \<Rightarrow> namespace \<Rightarrow> arg_spec \<Rightarrow> bool" where
  "valid_arg named ns sp \<longleftrightarrow> (\<exists>v. map_of ns (ar_dest sp) = Some v \<and>
     (if ar_dest sp \<in> set named then supplied sp v else v = ar_default sp))"

definition args_inv :: "arg_spec list \<Rightarrow> arg_spec list \<Rightarrow> string list \<Rightarrow> namespace \<Rightarrow> bool" where
  "args_inv specs open_args named ns \<longleftrightarrow> (\<forall>sp \<in> set specs. valid_arg named ns sp) \<and>
     (\<forall>sp \<in> set specs. ar_flags sp = [] \<longrightarrow> sp \<in> set open_args \<or> ar_dest sp \<in> set named) \<and> set open_args \<subseteq> set specs"

definition word_ok :: "arg_spec list \<Rightarrow> cli_word \<Rightarrow> bool" where
  "word_ok specs w = (case w of Flag sp _ \<Rightarrow> sp \<in> set specs \<or> ar_action sp = ShowHelp | _ \<Rightarrow> True)"

lemma store_arg_supplies: "store_arg tf sp v ns = Inr ns' \<Longrightarrow> \<exists>x. ns' = dict_set ns (ar_dest sp) x \<and> supplied sp x"
proof (cases "ar_action sp")
  case (Store t)
  assume "store_arg tf sp v ns = Inr ns'"
  then show ?thesis using Store
    by (cases t) (auto simp: store_arg_def convert_def positive_int_def supplied_def split: option.splits if_splits)
next
  case Append
  assume "store_arg tf sp v ns = Inr ns'"
  then show ?thesis using Append
    by (auto simp: store_arg_def supplied_def appended_def split: option.splits arg_value.splits)
qed (simp_all add: store_arg_def)

lemma args_inv_named:
  assumes "distinct (map ar_dest specs)" "sp \<in> set specs" "args_inv specs open_args named ns" "supplied sp x"
    and "set open_args' \<subseteq> set open_args" "set open_args \<subseteq> insert sp (set open_args')"
  shows "args_inv specs open_args' (ar_dest sp # named) (dict_set ns (ar_dest sp) x)"
proof -
  have "valid_arg (ar_dest sp # named) (dict_set ns (ar_dest sp) x) sp'" if "sp' \<in> set specs" for sp'
  proof (cases "ar_dest sp' = ar_dest sp")
    case True
    then have "sp' = sp" using assms(1,2) that by (auto simp: distinct_map inj_on_def)
    then show ?thesis using assms(4) by (simp add: valid_arg_def)
  next
    case False
    then show ?thesis using assms(3) that by (simp add: args_inv_def valid_arg_def)
  qed
  then show ?thesis using assms(3,5,6) by (auto simp: args_inv_def)
qed

lemma args_inv_stored:
  assumes "distinct (map ar_dest specs)" "sp \<in> set specs \<or> ar_action sp = ShowHelp" "args_inv specs open_args named ns"
    and "store_arg tf sp v ns = Inr ns'" "set open_args' \<subseteq> set open_args" "set open_args \<subseteq> insert sp (set open_args')"
  shows "args_inv specs open_args' (ar_dest sp # named) ns'"
proof -
  have "ar_action sp \<noteq> ShowHelp" using assms(4) by (auto simp: store_arg_def)
  then have "sp \<in> set specs" using assms(2) by simp
  moreover obtain x where "ns' = dict_set ns (ar_dest sp) x" "supplied sp x" using store_arg_supplies [OF assms(4)] by blast
  ultimately show ?thesis using args_inv_named [OF assms(1) _ assms(3) _ assms(5,6)] by simp
qed

text \<open>The words that an option takes, and what is left.\<close>

lemma consume_valid:
  "consume tf specs ws open_args named extras ns = Inr ns' \<Longrightarrow> distinct (map ar_dest specs) \<Longrightarrow>
    args_inv specs open_args named ns \<Longrightarrow> \<forall>w \<in> set ws. word_ok specs w \<Longrightarrow>
    \<exists>named'. args_inv specs [] named' ns' \<and> (\<forall>sp \<in> set specs. ar_flags sp \<noteq> [] \<and> ar_required sp \<longrightarrow> ar_dest sp \<in> set named')"
proof (induction tf specs ws open_args named extras ns rule: consume.induct)
  case (1 tf specs open_args named extras ns)
  have "open_args = []" "filter (\<lambda>sp. ar_flags sp \<noteq> [] \<and> ar_required sp \<and> ar_dest sp \<notin> set named) specs = []" "ns' = ns"
    using 1(1) by (auto simp: cli_finish_def Let_def split: if_splits)
  then show ?case using 1(3) by (auto simp: filter_empty_conv)
next
  case (3 tf specs v ws sp open_args named extras ns)
  obtain ns1 where ns1: "store_arg tf sp v ns = Inr ns1" "consume tf specs ws open_args (ar_dest sp # named) extras ns1 = Inr ns'"
    using 3(2) by (auto split: sum.splits)
  have sp: "sp \<in> set specs" using 3(4) by (simp add: args_inv_def)
  have "args_inv specs open_args (ar_dest sp # named) ns1"
    by (rule args_inv_stored [OF 3(3) _ 3(4) ns1(1)]) (use sp in auto)
  then show ?case using 3(1) [OF ns1(1) ns1(2) 3(3)] 3(5) by simp
next
  case (4 tf specs sp v ws open_args named extras ns)
  obtain ns1 where ns1: "store_arg tf sp v ns = Inr ns1" "consume tf specs ws open_args (ar_dest sp # named) extras ns1 = Inr ns'"
    using 4(2) by (auto split: sum.splits)
  have "args_inv specs open_args (ar_dest sp # named) ns1"
    by (rule args_inv_stored [OF 4(3) _ 4(4) ns1(1)]) (use 4(5) in \<open>auto simp: word_ok_def\<close>)
  then show ?case using 4(1) [OF ns1(1) ns1(2) 4(3)] 4(5) by simp
next
  case (5 tf specs sp ws open_args named extras ns)
  have sp: "sp \<in> set specs \<or> ar_action sp = ShowHelp" using 5(7) by (simp add: word_ok_def)
  show ?case
  proof (cases "ar_action sp = StoreTrue")
    case True
    then have "args_inv specs open_args (ar_dest sp # named) (dict_set ns (ar_dest sp) (BoolArg True))"
      using sp by (intro args_inv_named [OF 5(5) _ 5(6)]) (auto simp: supplied_def)
    moreover have "consume tf specs ws open_args (ar_dest sp # named) extras (dict_set ns (ar_dest sp) (BoolArg True)) = Inr ns'"
      using 5(4) True by simp
    ultimately show ?thesis using 5(3) [OF True] 5(5,7) by simp
  next
    case False
    then obtain v ws' ns1 where w: "ws = Plain v # ws'" "store_arg tf sp v ns = Inr ns1"
      "consume tf specs ws' open_args (ar_dest sp # named) extras ns1 = Inr ns'"
      using 5(4) by (auto split: arg_action.splits list.splits cli_word.splits sum.splits)
    have inv: "args_inv specs open_args (ar_dest sp # named) ns1"
      by (rule args_inv_stored [OF 5(5) sp 5(6) w(2)]) auto
    have "ar_action sp \<noteq> ShowHelp" using w(2) by (auto simp: store_arg_def)
    then show ?thesis using 5(1,2) [OF _ w(1) refl w(2,3) 5(5) inv] 5(7) w(1) False by (cases "ar_action sp") auto
  qed
qed simp_all

lemma classify_ok: "word_ok specs (classify (help_arg # specs) s)"
proof -
  have from_specs: "sp \<in> set specs \<or> ar_action sp = ShowHelp" if "(f, sp) \<in> set (all_flags (help_arg # specs))" for f sp
    using that by (auto simp: all_flags_def help_arg_def option_arg_def)
  have found: "\<exists>x \<in> set xs. f x = Some y" if "y \<in> set (List.map_filter f xs)" for f :: "string \<times> arg_spec \<Rightarrow> _" and xs y
    using that by (force simp: map_filter_def)
  have short: "sp \<in> set specs \<or> ar_action sp = ShowHelp" if "(sp, v) \<in> set (abbreviated (help_arg # specs) s)" for sp v
  proof (cases "starts_with ''--'' s")
    case True
    then show ?thesis using that from_specs by (auto simp: abbreviated_def split: prod.splits)
  next
    case False
    with that have "(sp, v) \<in> set (List.map_filter (\<lambda>(f, sp). if f = take 2 s then Some (sp, Some (drop 2 s))
        else if starts_with s f then Some (sp, None) else None) (all_flags (help_arg # specs)))" by (simp add: abbreviated_def)
    from found [OF this] show ?thesis by (auto split: if_splits dest: from_specs)
  qed
  show ?thesis
    using from_specs [OF map_of_SomeD] short
    by (auto simp: word_ok_def classify_def split: option.split prod.split list.split)
qed

lemma words_ok: "w \<in> set (words_of (help_arg # specs) argv) \<Longrightarrow> word_ok specs w"
  by (induction argv) (auto simp: classify_ok word_ok_def [of _ "Plain _"] split: if_splits)

text \<open>
  The values behind an accepted command line: each argument holds its default or a value of
  its type among its choices, and a required one was supplied.
\<close>

lemma accepted_arguments:
  assumes "parse_args tf specs argv = Inr ns" "distinct (map ar_dest specs)" "sp \<in> set specs"
  shows "\<exists>v. map_of ns (ar_dest sp) = Some v \<and> (supplied sp v \<or> v = ar_default sp \<and> \<not> ar_required sp \<and> ar_flags sp \<noteq> [])"
proof -
  let ?ws = "words_of (help_arg # specs) argv" and ?open = "filter (\<lambda>sp. ar_flags sp = []) specs"
  let ?ns = "map (\<lambda>sp. (ar_dest sp, ar_default sp)) specs"
  have run: "consume tf specs ?ws ?open [] [] ?ns = Inr ns"
    using assms(1) by (auto simp: parse_args_def Let_def split: option.splits cli_word.splits)
  have "map_of ?ns (ar_dest sp) = Some (ar_default sp)" if "sp \<in> set specs" for sp
    using assms(2) that by (intro map_of_is_SomeI) (auto simp: comp_def)
  then have inv: "args_inv specs ?open [] ?ns" by (simp add: args_inv_def valid_arg_def)
  from consume_valid [OF run assms(2) inv] words_ok obtain named' where
    "args_inv specs [] named' ns" "\<forall>sp \<in> set specs. ar_flags sp \<noteq> [] \<and> ar_required sp \<longrightarrow> ar_dest sp \<in> set named'" by blast
  then have "valid_arg named' ns sp" "ar_flags sp = [] \<longrightarrow> ar_dest sp \<in> set named'" "ar_required sp \<longrightarrow> ar_dest sp \<in> set named'"
    using assms(3) by (auto simp: args_inv_def)
  then show ?thesis by (auto simp: valid_arg_def split: if_splits)
qed

lemma with_args_outcome:
  "(\<exists>e. parse_args tf specs argv = Inl e) \<and> (with_args tf specs argv body s = (Inr 0, s) \<or> with_args tf specs argv body s = (Inr 2, s)) \<or>
   (\<exists>ns. parse_args tf specs argv = Inr ns \<and> with_args tf specs argv body s = thenM (body ns) (returnM 0) s)"
proof (cases "parse_args tf specs argv")
  case (Inl e)
  then show ?thesis by (cases e) (auto simp: with_args_def returnM_def)
qed (simp add: with_args_def)

text \<open>The arguments that matter to the commands.\<close>

lemma bench_arguments:
  assumes "parse_args tf BENCH_ARGS argv = Inr ns"
  shows "1 \<le> ns_int ns ''events''"
proof -
  have "distinct (map ar_dest BENCH_ARGS)" by code_simp
  from accepted_arguments [OF assms this, of "option_arg [''--events''] ''events'' (Store AsPositiveInt) (IntArg 100)"]
  obtain v where "map_of ns ''events'' = Some v"
    "supplied (option_arg [''--events''] ''events'' (Store AsPositiveInt) (IntArg 100)) v \<or> v = IntArg 100"
    by (auto simp: BENCH_ARGS_def option_arg_def)
  then show ?thesis by (cases v) (auto simp: ns_int_def supplied_def option_arg_def)
qed

lemma seed_arguments:
  assumes "parse_args tf SEED_ARGS argv = Inr ns"
  shows "1 \<le> ns_int ns ''events''"
proof -
  have "distinct (map ar_dest SEED_ARGS)" by code_simp
  from accepted_arguments [OF assms this, of "option_arg [''--events''] ''events'' (Store AsPositiveInt) (IntArg 15)"]
  obtain v where "map_of ns ''events'' = Some v"
    "supplied (option_arg [''--events''] ''events'' (Store AsPositiveInt) (IntArg 15)) v \<or> v = IntArg 15"
    by (auto simp: SEED_ARGS_def option_arg_def)
  then show ?thesis by (cases v) (auto simp: ns_int_def supplied_def option_arg_def)
qed

lemma replay_arguments:
  assumes "parse_args tf REPLAY_ARGS argv = Inr ns"
  shows "ns_str ns ''topic'' = ''signals'' \<or> ns_str ns ''topic'' = ''insights''"
proof -
  have "distinct (map ar_dest REPLAY_ARGS)" by code_simp
  from accepted_arguments [OF assms this, of "positional ''topic'' [TOPIC_SIGNALS, TOPIC_INSIGHTS]"]
  obtain v where "map_of ns ''topic'' = Some v" "supplied (positional ''topic'' [TOPIC_SIGNALS, TOPIC_INSIGHTS]) v"
    by (auto simp: REPLAY_ARGS_def positional_def)
  then show ?thesis by (cases v) (auto simp: ns_str_def supplied_def positional_def TOPIC_SIGNALS_def TOPIC_INSIGHTS_def)
qed

lemma bindM_liftR: "bindM (liftR (Inr v)) f = f v"
  by (rule ext) (simp add: bindM_apply liftR_apply)

text \<open>
  C40: A command line is checked before anything runs.  Whatever the words are, each of the five
  commands ends with status 0 (help) or 2 (usage) and has touched nothing, or raises and has
  touched nothing, or runs with arguments of the declared ranges: the benchmark with at least
  one event on the built-in symbols, and it never raises here; the seeding with at least one
  event, a base time that does not parse being raised first; the replay on one of the two
  topics the alerting worker reads, and it never raises here; the peek and the websocket smoke
  test for at least one message, fewer being raised first, as is a subscription that the
  topology does not give.
\<close>

theorem command_lines_checked:
  "(bench_main tf env write argv p \<in> {(Inr 0, p), (Inr 2, p)} \<or>
     (\<exists>n path. 1 \<le> n \<and> bench_main tf env write argv p =
        thenM (bindM (run_benchmark env [''BTCUSDT'', ''ETHUSDT'', ''SOLUSDT''] n) (write path)) (returnM 0) p)) \<and>
   (seed_main tf senv stamp argv s \<in> {(Inr 0, s), (Inr 2, s)} \<or>
     (\<exists>n ts. 1 \<le> n \<and> (case parse_base_ts (sc_lib senv) ts of
          Inl e \<Rightarrow> seed_main tf senv stamp argv s = (Inl e, s)
        | Inr base \<Rightarrow> (\<exists>pl connection offline. sd_base pl = base \<and> seed_main tf senv stamp argv s =
            thenM (publish_seed_data senv n pl connection offline) (returnM 0) s)))) \<and>
   (replay_main tf bus argv b \<in> {(Inr 0, b), (Inr 2, b)} \<or>
     (\<exists>topic sub sfx. topic \<in> {''signals'', ''insights''} \<and> replay_main tf bus argv b =
        thenM (bindM (replay_dead_letters bus topic sub sfx) (\<lambda>_. returnM ())) (returnM 0) b)) \<and>
   (peek_main tf senv read_json config argv s \<in> {(Inr 0, s), (Inr 2, s)} \<or>
     (\<exists>e. peek_main tf senv read_json config argv s = (Inl e, s)) \<or>
     (\<exists>topic sub n connection offline. 1 \<le> n \<and> peek_main tf senv read_json config argv s =
        thenM (bindM (peek_messages senv topic sub n connection offline) (\<lambda>_. returnM ())) (returnM 0) s)) \<and>
   (smoke_main tf wc jl argv w \<in> {(Inr 0, w), (Inr 2, w), (Inl (ValueError ''messages must be at least 1''), w)} \<or>
     (\<exists>url symbols n timeout. 1 \<le> n \<and> symbols \<noteq> [] \<and> smoke_main tf wc jl argv w =
        thenM (run_smoke wc jl url symbols n timeout) (returnM 0) w))"
  (is "?bench \<and> ?seed \<and> ?replay \<and> ?peek \<and> ?smoke")
proof (intro conjI)
  show ?bench
    using with_args_outcome [of tf BENCH_ARGS argv "\<lambda>ns. let c = bench_options_of ns in
       bindM (run_benchmark env (bo_symbols c) (bo_events c)) (\<lambda>report. write (bo_output c) report)" p] bench_arguments [of tf argv]
    by (fastforce simp: bench_main_def bench_options_of_def Let_def BENCH_SYMBOLS_def)
  show ?replay
    using with_args_outcome [of tf REPLAY_ARGS argv "\<lambda>ns. bindM (replay_dead_letters bus (ns_str ns ''topic'')
      (ns_str ns ''subscription'') (ns_str ns ''suffix'')) (\<lambda>_. returnM ())" b] replay_arguments [of tf argv]
    by (fastforce simp: replay_main_def)
  show ?seed
  proof (cases "parse_args tf SEED_ARGS argv")
    case (Inl e)
    then show ?thesis by (cases e) (simp_all add: seed_main_def with_args_def returnM_def)
  next
    case (Inr ns)
    have n: "1 \<le> nat (ns_int ns ''events'')" using seed_arguments [OF Inr] by simp
    let ?run = "\<lambda>base. \<lparr>sd_symbols = cli_symbols (ns_list ns ''symbols''), sd_base = base,
       sd_run = (case ns_opt_str ns ''run_id'' of Some (c # cs) \<Rightarrow> c # cs | _ \<Rightarrow> stamp), sd_source = ns_str ns ''source_prefix''\<rparr>"
    show ?thesis
    proof (cases "parse_base_ts (sc_lib senv) (ns_str ns ''base_ts'')")
      case (Inl e)
      then have "seed_main tf senv stamp argv s = (Inl e, s)" using Inr
        by (simp add: seed_main_def with_args_def thenM_apply bindM_apply liftR_apply)
      with Inl n show ?thesis by (intro disjI2 exI [of _ "nat (ns_int ns ''events'')"] exI [of _ "ns_str ns ''base_ts''"]) simp
    next
      case base: (Inr base)
      have "seed_main tf senv stamp argv s = thenM (publish_seed_data senv (nat (ns_int ns ''events'')) (?run base)
          (ns_opt_str ns ''connection_string'') (ns_bool ns ''allow_offline'')) (returnM 0) s"
        using Inr base by (simp add: seed_main_def with_args_def thenM_apply bindM_apply liftR_apply returnM_def split: sum.split)
      with base n show ?thesis
        by (intro disjI2 exI [of _ "nat (ns_int ns ''events'')"] exI [of _ "ns_str ns ''base_ts''"])
           (auto intro!: exI [of _ "?run base"])
    qed
  qed
  show ?peek
  proof (cases "parse_args tf (PEEK_ARGS config) argv")
    case (Inl e)
    then show ?thesis by (cases e) (simp_all add: peek_main_def with_args_def returnM_def)
  next
    case (Inr ns)
    let ?sub = "chosen_subscription read_json (ns_str ns ''topic'') (ns_opt_str ns ''subscription'') (ns_str ns ''config_path'')"
    show ?thesis
    proof (cases "\<exists>e. ?sub = Inl e \<or> ns_int ns ''messages'' < 1")
      case True
      then have "\<exists>e. peek_main tf senv read_json config argv s = (Inl e, s)" using Inr
        by (cases ?sub) (auto simp: peek_main_def with_args_def thenM_apply bindM_apply liftR_apply peek_messages_def raiseM_def)
      then show ?thesis by blast
    next
      case False
      then obtain v where "?sub = Inr v" "1 \<le> ns_int ns ''messages''" by (cases ?sub) auto
      then have "1 \<le> ns_int ns ''messages'' \<and> peek_main tf senv read_json config argv s =
          thenM (bindM (peek_messages senv (ns_str ns ''topic'') (py_str (sc_lib senv) v) (ns_int ns ''messages'')
            (ns_opt_str ns ''connection_string'') (ns_bool ns ''allow_offline'')) (\<lambda>_. returnM ())) (returnM 0) s"
        using Inr by (simp add: peek_main_def with_args_def bindM_liftR)
      then show ?thesis by blast
    qed
  qed
  show ?smoke
  proof (cases "parse_args tf SMOKE_ARGS argv")
    case (Inl e)
    then show ?thesis by (cases e) (simp_all add: smoke_main_def with_args_def returnM_def)
  next
    case (Inr ns)
    let ?symbols = "case ns_list ns ''symbols'' of Some (s # ss) \<Rightarrow> s # ss | _ \<Rightarrow> [''BTCUSDT'']"
    have run: "smoke_main tf wc jl argv w = thenM (run_smoke wc jl (ns_str ns ''url'') ?symbols (ns_int ns ''messages'')
        (ns_float ns ''timeout_seconds'')) (returnM 0) w"
      using Inr by (simp add: smoke_main_def with_args_def)
    show ?thesis
    proof (cases "ns_int ns ''messages'' < 1")
      case True
      then show ?thesis unfolding run by (simp add: thenM_apply run_smoke_def raiseM_def)
    next
      case False
      have "?symbols \<noteq> []" by (simp split: option.split list.split)
      with run False show ?thesis
        by (intro disjI2 exI [of _ "ns_str ns ''url''"] exI [of _ ?symbols] exI [of _ "ns_int ns ''messages''"]
            exI [of _ "ns_float ns ''timeout_seconds''"]) simp
    qed
  qed
qed

end
