(* ===== verification/Spec2Isabelle.thy ===== *)
theory Spec2Isabelle
  imports HttpMetrics TimeSeries StreamProps AlertingProps ChunkingProps
    SearchProps ProviderProps RagProps AIProps IngestionProps ExchangesProps LiveStreamProps ApiProps
    BusLog ServiceBusProps PeekLock Applications EndToEnd PipelineProps ScriptsProps Cli
begin

text \<open>
  The market intelligence platform: a verification library beside its Python code.

  The program.  Five services talk over a message bus.  Ingestion turns exchange sockets,
  replay feeds and news sources into events on the raw topics; the stream worker computes
  indicators, writes rows to a time-series store and publishes signals; the analysis worker
  retrieves documents, asks a language model, checks its answer and publishes insights; the
  alerting worker turns signals and insights into alerts; the API serves all of it over HTTP
  and a websocket.  Each backend (bus, cache, time-series store, search store, language model)
  is a port with an in-memory implementation and a remote one; the settings choose.

  Where the code is.
    Prelude, PyVal          exceptions, the state-and-exception monad with its triples, Python
                            dictionaries, slices, values, numbers and strings
    Schema                  libs/common/schema.py: events, their dumps, the idempotency key
    Bus, BusContract        libs/common/bus.py: InMemoryBus; the contract message_bus and the
                            client consumer, which settles what it polls
    BusLog                  the abstract specification of the bus, one append-only log per topic
                            with a reader per subscription, and the refinement
    ServiceBus, -Props      libs/common/bus.py: ServiceBusBus over an Azure client
    PeekLock                libs/common/bus.py: requests peeking at the same time, a lock per link
    Cache                   libs/common/redis_client.py: both caches and the contract cache
    Resilience              libs/common/resilience.py: the circuit breaker (sequential, and as
                            the step relation cb_step of concurrent calls), retry, poll loop
    HttpMetrics, LogSink    libs/common/logging.py: metrics, middleware, context; the log sink
    Config                  libs/common/config.py, the port and provider factories
    ServiceApp, Applications  libs/common/service_app.py and the app.py files: logging
                            bootstrap, shared routes, lifespans, each application's life
    TimeSeries              libs/common/druid.py: the in-memory store and the Druid client
    SearchStore, SearchProps  libs/common/es.py: cosine similarity, kNN, both stores; the
                            contract vector_store
    Indicators, StreamService, StreamProps    services/stream
    AlertRules, Alerting, AlertingProps       services/alerting
    Chunking, ChunkingProps, Rag, RagProps    services/ai/rag
    Guardrails, Providers, ProviderProps      services/ai/llm
    AIService, AIProps                        services/ai/service.py
    Sources, SourcesProps, Ingestion, IngestionProps, Exchanges, ExchangesProps
                            services/ingestion
    LiveStream, LiveStreamProps, ApiService, ApiProps    services/api
    Backlog                 the three workers' loops: the locale poller and its instances
    Bench, Pipeline, PipelineProps            scripts/bench.py: all workers on one bus
    EndToEnd                from a price to its alerts, through the stream and alerting workers
    Scripts, ScriptsProps   scripts/seed_market_data.py and scripts/sb_peek.py
    Smoke                   scripts/ws_smoke.py
    Cli                     the command lines of the scripts and of the dead-letter replay

  How state and operations correspond.  A class is a record of its attributes and a method a
  function on it in the monad ('s, 'a) pm = 's \<Rightarrow> ('a result) \<times> 's: it returns or raises, and what
  it wrote before raising stays written.  A service holds its backends side by side in its
  record and reaches each through zoomM; it is generic in them, a record of operations per
  port (bus_ops, cache_ops, search_ops and the like).  Concurrency is sequences of such steps,
  or an inductive step relation where calls overlap: cb_step for the circuit breaker, ws_step
  for the two tasks of a websocket, read_step for overlapping reads of the API's model,
  peek_step for the requests that peek on Service Bus links while the bus is used and closed.
  The clock is a sequence of readings, fresh identifiers a sequence of strings.

  What is a parameter, and what is assumed of it.  Packages outside the repository are records
  of functions: pylib (SHA-256, ISO and JSON text, Pydantic's validation), numpy, json_lib,
  llm_lib, feed_lib, the clients of Azure, Redis, Elasticsearch, HTTP, the OpenAI SDK and the
  sockets.  Nothing is assumed of them but where a theorem says so: numpy_ok (what mean, std,
  diff and clip compute), redis_laws (what Redis documents of the commands, the lifetimes of keys
  and its clock), azure_laws (which calls open and close a link), a JSON codec that reads back
  what it wrote.  Each such hypothesis is met by a concrete instance in a witness.  Two libraries
  schedule the code's own steps: tenacity's iterator, the parameter retrying, says after a failed
  attempt whether another one is made (stops_after_attempt is its documented stop rule), and
  asyncio.Lock, of which peek_step uses that entering waits while another task is inside.

  What the lemmas show.  Contracts are locales, stated once and interpreted on the model's own
  definitions: message_bus with consumer (interpreted for the stream, analysis and alerting
  workers: every poll settles what it took) and poller, which extends it (a worker writes to no
  topic but its own, and its loop works off any backlog), cache, vector_store with sized_store, and
  retrieval (only what was indexed is retrieved).  Each worker's theorems say what a message
  leads to on every branch: processed once, suppressed when it comes again, dead-lettered when
  it is invalid or keeps failing, and the metrics account for each.  Chunking covers the
  document within its limits; retrieval ranks and reranks soundly; the guardrails let no
  citation through that is not in the context; the API's incremental model equals a full scan
  and its history merge loses and repeats nothing; every websocket client gets its symbols'
  messages in order; the exchange clients recover from every closed socket and stop after the
  reconnect budget; an application closes everything it opened; the services run together from
  any number of events to a drained bus, and from any backlog they come to
  rest under every fair schedule, by a lexicographic measure over the stages of the pipeline;
  and a price that moves anomalously becomes exactly the alerts its indicators call for.

  Bounds and fuel.  A worker's run_forever is run_poll_loop with the number of turns it has
  been running, a loop without an end of its own; each turn is shown to return.  The retry loop
  has one unit per attempt, two more than the limit, and is shown to need no more when the
  iterator keeps its stop rule (retry_is_attempts).  The
  frame and reconnect loops of the exchange clients, which an endless socket keeps running, are
  partial functions into option, and where they end this is a theorem (recycled_sockets_complete,
  unreachable_run_ends).  The refresh of the API's model counts its chunks down from the window.

  Where the model stops.  Floats are real numbers: rounding of intermediate results, infinities
  and NaN are not modelled, round(x, n) is.  Strings have code points below 256 and ASCII case
  mappings.  Pydantic's coercions, FastAPI's routing beyond the shared paths, structlog's
  rendering, XML parsing, numpy's arithmetic and the wire protocols are the packages' business.
  The interleavings of the Service Bus wrapper are those of its peeks; its other operations run
  whole in between, and receiving takes no lock.  Of argparse the part the command lines use is modelled, its messages abridged.  Log
  lines that nothing reads, the file the benchmark writes and the package export lists are input
  and output only.
\<close>

end
